(* ===== verification/Prelude.thy ===== *)
theory Prelude
  imports Main "HOL-Library.Word"
begin

section \<open>Prelude: machine types, outcomes of C++ code, shared lemmas\<close>

text \<open>
  Shared vocabulary of the development.

  \<^item> The fixed-width types of the sources (\<open>uint8_t\<close> .. \<open>uint64_t\<close>) are words;
    a \<open>std::vector<uint8_t>\<close> is a list of bytes.
  \<^item> Offsets, lengths and counters of type \<open>uint64_t\<close> / \<open>size_t\<close> are natural numbers,
    and every addition, subtraction or multiplication of such numbers that is not
    guarded against overflow by the code goes through \<open>u64_add\<close>, \<open>u64_sub\<close>, \<open>u64_mul\<close>,
    which wrap modulo \<open>2^64\<close>. An increment under a guard \<open>offset < max\<close> cannot wrap
    because \<open>max\<close> is itself a 64-bit number, and is written \<open>Suc offset\<close>.
  \<^item> A C++ computation ends in an \<open>outcome\<close>: a value, an exception of the standard library,
    or undefined behaviour (a read outside the buffer, a shift by at least the width of its
    left operand, or a division by zero).
\<close>

unbundle bit_operations_syntax

type_synonym u8 = "8 word"
type_synonym u16 = "16 word"
type_synonym u32 = "32 word"
type_synonym u64 = "64 word"
type_synonym bytes = "u8 list"

subsection \<open>Outcomes\<close>

datatype cxx_exn = OutOfRange string | LengthError string

datatype cxx_ub = OobRead | ShiftWidth | DivZero

datatype 'a outcome = Ret 'a | Throw cxx_exn | Undef cxx_ub

fun obind :: "'a outcome \<Rightarrow> ('a \<Rightarrow> 'b outcome) \<Rightarrow> 'b outcome" where
  "obind (Ret x) f = f x"
| "obind (Throw e) f = Throw e"
| "obind (Undef u) f = Undef u"

lemma obind_cong [fundef_cong]:
  "m = m' \<Longrightarrow> (\<And>x. m' = Ret x \<Longrightarrow> f x = f' x) \<Longrightarrow> obind m f = obind m' f'"
  by (cases m') auto

lemma obind_assoc: "obind (obind m f) g = obind m (\<lambda>x. obind (f x) g)"
  by (cases m) auto

lemma obind_Ret_right [simp]: "obind m Ret = m"
  by (cases m) auto

lemma obind_eq_Ret: "obind m f = Ret y \<longleftrightarrow> (\<exists>x. m = Ret x \<and> f x = Ret y)"
  by (cases m) auto

lemma obind_RetE:
  assumes "obind m f = Ret y"
  obtains x where "m = Ret x" and "f x = Ret y"
  using assms by (cases m) auto

text \<open>\<open>mem_safe\<close>: the computation reads no byte outside its buffer.\<close>

definition mem_safe :: "'a outcome \<Rightarrow> bool" where
  "mem_safe m \<longleftrightarrow> m \<noteq> Undef OobRead"

text \<open>\<open>delivers\<close>: the computation ends with a value, neither in an exception nor in undefined behaviour.\<close>

definition delivers :: "'a outcome \<Rightarrow> bool" where
  "delivers m \<longleftrightarrow> (\<exists>x. m = Ret x)"

lemma delivers_Ret [simp, intro!]: "delivers (Ret x)"
  by (simp add: delivers_def)

lemma delivers_obind: "delivers m \<Longrightarrow> (\<And>x. m = Ret x \<Longrightarrow> delivers (f x)) \<Longrightarrow> delivers (obind m f)"
  by (auto simp: delivers_def)

named_theorems safe_intros

lemma mem_safe_Ret [simp, safe_intros]: "mem_safe (Ret x)"
  by (simp add: mem_safe_def)

lemma mem_safe_Throw [simp, safe_intros]: "mem_safe (Throw e)"
  by (simp add: mem_safe_def)

lemma mem_safe_ShiftWidth [simp, safe_intros]: "mem_safe (Undef ShiftWidth)"
  by (simp add: mem_safe_def)

lemma mem_safe_DivZero [simp, safe_intros]: "mem_safe (Undef DivZero)"
  by (simp add: mem_safe_def)

lemma mem_safe_obind:
  "mem_safe m \<Longrightarrow> (\<And>x. m = Ret x \<Longrightarrow> mem_safe (f x)) \<Longrightarrow> mem_safe (obind m f)"
  by (cases m) (auto simp: mem_safe_def)

lemma mem_safe_if: "(c \<Longrightarrow> mem_safe a) \<Longrightarrow> (\<not> c \<Longrightarrow> mem_safe b) \<Longrightarrow> mem_safe (if c then a else b)"
  by simp

text \<open>\<open>data[i]\<close> on a buffer of known length.\<close>

definition byte_at :: "bytes \<Rightarrow> nat \<Rightarrow> u8 outcome" where
  "byte_at d i = (if i < length d then Ret (d ! i) else Undef OobRead)"

lemma byte_at_in [simp]: "i < length d \<Longrightarrow> byte_at d i = Ret (d ! i)"
  by (simp add: byte_at_def)

lemma byte_at_out [simp]: "length d \<le> i \<Longrightarrow> byte_at d i = Undef OobRead"
  by (simp add: byte_at_def)

subsection \<open>Wrap-around arithmetic of 64-bit offsets\<close>

definition u64_add :: "nat \<Rightarrow> nat \<Rightarrow> nat" where
  "u64_add a b = (a + b) mod 2 ^ 64"

definition u64_sub :: "nat \<Rightarrow> nat \<Rightarrow> nat" where
  "u64_sub a b = (a + 2 ^ 64 - b mod 2 ^ 64) mod 2 ^ 64"

definition u64_mul :: "nat \<Rightarrow> nat \<Rightarrow> nat" where
  "u64_mul a b = (a * b) mod 2 ^ 64"

lemma u64_add_exact [simp]: "a + b < 18446744073709551616 \<Longrightarrow> u64_add a b = a + b"
  by (simp add: u64_add_def)

lemma u64_mul_exact [simp]: "a * b < 18446744073709551616 \<Longrightarrow> u64_mul a b = a * b"
  by (simp add: u64_mul_def)

lemma u64_sub_exact [simp]:
  assumes "b \<le> a" and "a < 18446744073709551616"
  shows "u64_sub a b = a - b"
proof -
  have "a + 18446744073709551616 - b = (a - b) + 18446744073709551616" using assms(1) by simp
  then show ?thesis using assms by (simp add: u64_sub_def mod_less del: Nat.add_diff_assoc2)
qed

lemma u64_add_bound: "u64_add a b < 18446744073709551616"
  by (simp add: u64_add_def)

text \<open>
  \<open>PTRDIFF_MAX\<close>, the largest size of a \<open>std::vector<uint8_t>\<close>: constructing a longer one
  throws \<open>std::length_error\<close>. A buffer that exists is at most that long.
\<close>

definition vector_max :: nat where
  "vector_max = 2 ^ 63 - 1"

lemma unat_u64_bound: "unat (w :: u64) < 18446744073709551616"
  using unsigned_less [of w] by simp

subsection \<open>Bits\<close>

lemma or_push_disjoint:
  fixes a b :: "'a :: len word"
  assumes "unat a < 2 ^ n"
  shows "a OR push_bit n b = a + push_bit n b"
proof (rule disjunctive_add [symmetric])
  fix i
  have "take_bit n (unat a) = unat a"
    using assms by (simp add: take_bit_nat_eq_self)
  then have "bit (unat a) i \<Longrightarrow> i < n"
    by (metis bit_take_bit_iff)
  then show "\<not> bit a i \<or> \<not> bit (push_bit n b) i"
    by (auto simp: bit_push_bit_iff bit_unsigned_iff dest: bit_imp_possible_bit)
qed

lemma unat_push_bit_small:
  fixes b :: "'a :: len word"
  assumes "unat b * 2 ^ n < 2 ^ LENGTH('a)"
  shows "unat (push_bit n b) = unat b * 2 ^ n"
  using assms by (simp add: unsigned_push_bit_eq take_bit_nat_eq_self push_bit_nat_def)

lemma unat_or_push:
  fixes a b :: "'a :: len word"
  assumes "unat a < 2 ^ n" and "unat a + unat b * 2 ^ n < 2 ^ LENGTH('a)"
  shows "unat (a OR push_bit n b) = unat a + unat b * 2 ^ n"
proof -
  have "unat b * 2 ^ n < 2 ^ LENGTH('a)" using assms(2) by linarith
  then have "unat (push_bit n b) = unat b * 2 ^ n" by (rule unat_push_bit_small)
  then show ?thesis
    using assms by (simp add: or_push_disjoint unat_word_ariths)
qed

lemma unat_and_127: "unat ((b :: u8) AND 127) = unat b mod 128"
proof -
  have "b AND 127 = b AND mask 7" by (simp add: mask_eq_exp_minus_1)
  then have "b AND 127 = take_bit 7 b" by (simp add: take_bit_eq_mask)
  then show ?thesis by (simp only: unsigned_take_bit_eq take_bit_nat_def) simp
qed

lemma unat_u8_bound: "unat (b :: u8) < 256"
  using unsigned_less [of b] by simp

lemma and_128_eq_0: "((b :: u8) AND 128 = 0) \<longleftrightarrow> unat b < 128"
proof -
  have "b AND 128 = 0 \<longleftrightarrow> \<not> bit b 7"
    using and_exp_eq_0_iff_not_bit [of b 7] by simp
  also have "\<dots> \<longleftrightarrow> even (unat b div 128)"
  proof -
    have "bit b 7 \<longleftrightarrow> bit (unat b) 7" by (simp add: bit_unsigned_iff)
    then show ?thesis by (simp add: bit_iff_odd [of "unat b"])
  qed
  also have "\<dots> \<longleftrightarrow> unat b < 128"
  proof -
    have "unat b div 128 \<le> 1" using unat_u8_bound [of b] by linarith
    then have "unat b div 128 = 0 \<or> unat b div 128 = 1" by linarith
    then show ?thesis by (auto simp: div_eq_0_iff)
  qed
  finally show ?thesis .
qed

lemma unat_ucast_u8_u64 [simp]: "unat (ucast (b :: u8) :: u64) = unat b"
  using unat_u8_bound [of b] by (simp add: unsigned_ucast_eq take_bit_nat_eq_self)

subsection \<open>Numbers as text\<close>

definition digit_char :: "bool \<Rightarrow> nat \<Rightarrow> char" where
  "digit_char upper n =
     (if n < 10 then char_of (48 + n) else if upper then char_of (55 + n) else char_of (87 + n))"

fun radix_string :: "bool \<Rightarrow> nat \<Rightarrow> nat \<Rightarrow> string" where
  "radix_string upper b n =
     (if n < b \<or> b < 2 then [digit_char upper n]
      else radix_string upper b (n div b) @ [digit_char upper (n mod b)])"

declare radix_string.simps [simp del]

text \<open>\<open>std::to_string\<close>, \<open>std::hex\<close> and \<open>std::hex << std::uppercase\<close> of an unsigned number.\<close>

definition dec_string :: "nat \<Rightarrow> string" where
  "dec_string n = radix_string False 10 n"

definition hex_string :: "bool \<Rightarrow> nat \<Rightarrow> string" where
  "hex_string upper n = radix_string upper 16 n"

lemma radix_string_nonempty: "radix_string u b n \<noteq> []"
  by (subst radix_string.simps) simp

end
