(* ===== verification/ByteReader.thy ===== *)
theory ByteReader
  imports Prelude
begin

section \<open>Byte-order aware reading (\<open>src/dwarf_utils.cpp\<close>)\<close>

text \<open>
  The readers of \<open>DwarfUtils\<close>: fixed-width numbers in the object's byte order, and the two
  LEB128 decoders. Each takes the buffer, an offset and the exclusive bound \<open>max_offset\<close>, and
  returns the value with the advanced offset. The static flag \<open>object_little_endian_\<close> is the
  argument \<open>le\<close>.

  C++ shifts and conversions are those of C++20, which every supported compiler implements in
  C++17 mode as well: a left shift is modular, a conversion to a signed type is two's
  complement, and a shift by at least the width of the promoted left operand is undefined.
\<close>

subsection \<open>Byte swapping\<close>

definition swapBytes16 :: "u16 \<Rightarrow> u16" where
  "swapBytes16 value = drop_bit 8 value OR push_bit 8 value"

definition swapBytes32 :: "u32 \<Rightarrow> u32" where
  "swapBytes32 value =
     push_bit 24 (value AND 0x000000ff) OR
     push_bit 8 (value AND 0x0000ff00) OR
     drop_bit 8 (value AND 0x00ff0000) OR
     drop_bit 24 (value AND 0xff000000)"

definition swapBytes64 :: "u64 \<Rightarrow> u64" where
  "swapBytes64 value =
     push_bit 56 (value AND 0x00000000000000ff) OR
     push_bit 40 (value AND 0x000000000000ff00) OR
     push_bit 24 (value AND 0x0000000000ff0000) OR
     push_bit 8 (value AND 0x00000000ff000000) OR
     drop_bit 8 (value AND 0x000000ff00000000) OR
     drop_bit 24 (value AND 0x0000ff0000000000) OR
     drop_bit 40 (value AND 0x00ff000000000000) OR
     drop_bit 56 (value AND 0xff00000000000000)"

subsection \<open>Fixed-width readers\<close>

text \<open>
  The bound check \<open>offset + k >= max_offset\<close> wraps at 64 bits and is written with \<open>u64_add\<close>.
  The advance \<open>offset += k\<close> happens after the bytes at \<open>offset .. offset + k - 1\<close> have been
  read, so it stays within the buffer's length and cannot wrap.
\<close>

definition readU8 :: "bytes \<Rightarrow> nat \<Rightarrow> nat \<Rightarrow> (u8 \<times> nat) outcome" where
  "readU8 d off mx =
     (if mx \<le> off then Ret (0, off)
      else obind (byte_at d off) (\<lambda>b. Ret (b, Suc off)))"

definition readU16 :: "bool \<Rightarrow> bytes \<Rightarrow> nat \<Rightarrow> nat \<Rightarrow> (u16 \<times> nat) outcome" where
  "readU16 le d off mx =
     (if mx \<le> u64_add off 1 then Ret (0, off)
      else obind (byte_at d off) (\<lambda>b0. obind (byte_at d (off + 1)) (\<lambda>b1.
        Ret (if le then ucast b0 OR push_bit 8 (ucast b1)
             else push_bit 8 (ucast b0) OR ucast b1, off + 2))))"

definition readU32 :: "bool \<Rightarrow> bytes \<Rightarrow> nat \<Rightarrow> nat \<Rightarrow> (u32 \<times> nat) outcome" where
  "readU32 le d off mx =
     (if mx \<le> u64_add off 3 then Ret (0, off)
      else obind (byte_at d off) (\<lambda>b0. obind (byte_at d (off + 1)) (\<lambda>b1.
           obind (byte_at d (off + 2)) (\<lambda>b2. obind (byte_at d (off + 3)) (\<lambda>b3.
        Ret (if le then ucast b0 OR push_bit 8 (ucast b1) OR push_bit 16 (ucast b2)
                        OR push_bit 24 (ucast b3)
             else push_bit 24 (ucast b0) OR push_bit 16 (ucast b1) OR push_bit 8 (ucast b2)
                        OR ucast b3, off + 4))))))"

text \<open>The big-endian loop of \<open>readU64\<close>: eight rounds of shift and or.\<close>

fun readU64_be_loop :: "bytes \<Rightarrow> nat \<Rightarrow> nat \<Rightarrow> u64 \<Rightarrow> u64 outcome" where
  "readU64_be_loop d off 0 result = Ret result"
| "readU64_be_loop d off (Suc k) result =
     obind (byte_at d (off + (7 - k))) (\<lambda>b.
       readU64_be_loop d off k (push_bit 8 result OR ucast b))"

definition readU64 :: "bool \<Rightarrow> bytes \<Rightarrow> nat \<Rightarrow> nat \<Rightarrow> (u64 \<times> nat) outcome" where
  "readU64 le d off mx =
     (if mx \<le> u64_add off 7 then Ret (0, off)
      else if le then
        obind (byte_at d off) (\<lambda>b0. obind (byte_at d (off + 1)) (\<lambda>b1.
        obind (byte_at d (off + 2)) (\<lambda>b2. obind (byte_at d (off + 3)) (\<lambda>b3.
        obind (byte_at d (off + 4)) (\<lambda>b4. obind (byte_at d (off + 5)) (\<lambda>b5.
        obind (byte_at d (off + 6)) (\<lambda>b6. obind (byte_at d (off + 7)) (\<lambda>b7.
          Ret (ucast b0 OR push_bit 8 (ucast b1) OR push_bit 16 (ucast b2)
               OR push_bit 24 (ucast b3) OR push_bit 32 (ucast b4) OR push_bit 40 (ucast b5)
               OR push_bit 48 (ucast b6) OR push_bit 56 (ucast b7), off + 8)))))))))
      else obind (readU64_be_loop d off 8 0) (\<lambda>r. Ret (r, off + 8)))"

subsection \<open>LEB128 readers\<close>

text \<open>
  \<open>result |= (byte & 0x7F) << shift\<close>: the left operand of the shift is an \<open>int\<close>, so the shift
  happens at 32 bits (undefined from \<open>shift = 32\<close> on) and the \<open>int\<close> is sign-extended to 64 bits
  before the \<open>or\<close>.
\<close>

function readULEB128_loop :: "bytes \<Rightarrow> nat \<Rightarrow> nat \<Rightarrow> u64 \<Rightarrow> nat \<Rightarrow> (u64 \<times> nat) outcome" where
  "readULEB128_loop d off mx result shift =
     (if off < mx then
        obind (byte_at d off) (\<lambda>byte.
          if 32 \<le> shift then Undef ShiftWidth
          else
            let result' = result OR scast (push_bit shift (ucast (byte AND 0x7F)) :: u32)
            in if byte AND 0x80 = 0 then Ret (result', Suc off)
               else readULEB128_loop d (Suc off) mx result' (shift + 7))
      else Ret (result, off))"
  by pat_completeness auto
termination
  by (relation "measure (\<lambda>(d, off, mx, r, s). mx - off)") auto

declare readULEB128_loop.simps [simp del]

definition readULEB128 :: "bytes \<Rightarrow> nat \<Rightarrow> nat \<Rightarrow> (u64 \<times> nat) outcome" where
  "readULEB128 d off mx = readULEB128_loop d off mx 0 0"

text \<open>
  The signed reader casts to \<open>uint64_t\<close> before shifting, so its shift is at 64 bits. The loop
  returns the accumulated bits, the final shift, the last byte read and the offset.
\<close>

function readSLEB128_loop ::
  "bytes \<Rightarrow> nat \<Rightarrow> nat \<Rightarrow> u64 \<Rightarrow> nat \<Rightarrow> u8 \<Rightarrow> (u64 \<times> nat \<times> u8 \<times> nat) outcome" where
  "readSLEB128_loop d off mx result shift byte =
     (if off < mx then
        obind (byte_at d off) (\<lambda>byte'.
          if 64 \<le> shift then Undef ShiftWidth
          else
            let result' = result OR push_bit shift (ucast (byte' AND 0x7F))
            in if byte' AND 0x80 = 0 then Ret (result', shift + 7, byte', Suc off)
               else readSLEB128_loop d (Suc off) mx result' (shift + 7) byte')
      else Ret (result, shift, byte, off))"
  by pat_completeness auto
termination
  by (relation "measure (\<lambda>(d, off, mx, r, s, b). mx - off)") auto

declare readSLEB128_loop.simps [simp del]

definition readSLEB128 :: "bytes \<Rightarrow> nat \<Rightarrow> nat \<Rightarrow> (u64 \<times> nat) outcome" where
  "readSLEB128 d off mx =
     obind (readSLEB128_loop d off mx 0 0 0) (\<lambda>(result, shift, byte, off').
       Ret (if shift < 64 \<and> byte AND 0x40 \<noteq> 0
            then result OR push_bit shift (NOT 0) else result, off'))"

subsection \<open>The contract of a reader\<close>

text \<open>
  What every client of a reader relies on: it never moves backwards, it stops at the bound,
  and it stays inside the buffer whenever the bound does.
\<close>

locale bounded_reader =
  fixes rd :: "bytes \<Rightarrow> nat \<Rightarrow> nat \<Rightarrow> ('v \<times> nat) outcome"
  assumes rd_forward: "rd d off mx = Ret (v, off') \<Longrightarrow> off \<le> off'"
    and rd_bound: "mx \<le> vector_max \<Longrightarrow> off \<le> mx \<Longrightarrow> rd d off mx = Ret (v, off') \<Longrightarrow> off' \<le> mx"
    and rd_safe: "mx \<le> vector_max \<Longrightarrow> mx \<le> length d \<Longrightarrow> off \<le> mx \<Longrightarrow> mem_safe (rd d off mx)"
begin

lemma rd_then_safe:
  assumes "mx \<le> vector_max" and "mx \<le> length d" and "off \<le> mx"
    and "\<And>v off'. rd d off mx = Ret (v, off') \<Longrightarrow> off \<le> off' \<Longrightarrow> off' \<le> mx \<Longrightarrow> mem_safe (f (v, off'))"
  shows "mem_safe (obind (rd d off mx) f)"
proof (rule mem_safe_obind)
  show "mem_safe (rd d off mx)" using assms(1-3) by (rule rd_safe)
next
  fix x assume x: "rd d off mx = Ret x"
  obtain v off' where "x = (v, off')" by (cases x)
  with x assms show "mem_safe (f x)"
    using rd_forward [of d off mx v off'] rd_bound [of mx off d v off'] by auto
qed

end

subsection \<open>The readers meet the contract\<close>

lemma vector_max_numeral [simp]: "vector_max = 9223372036854775807"
  by (simp add: vector_max_def)

lemma readU8_shape:
  "readU8 d off mx = Ret (v, off') \<Longrightarrow> off' = (if off < mx then Suc off else off)"
  by (auto simp: readU8_def obind_eq_Ret not_le)

interpretation u8_reader: bounded_reader readU8
  by unfold_locales (auto simp: readU8_def obind_eq_Ret split: if_splits)

interpretation u16_reader: bounded_reader "readU16 le" for le
  by unfold_locales (auto simp: readU16_def obind_eq_Ret split: if_splits)

interpretation u32_reader: bounded_reader "readU32 le" for le
  by unfold_locales (auto simp: readU32_def obind_eq_Ret split: if_splits)

lemma readU64_be_loop_safe:
  "k \<le> 8 \<Longrightarrow> off + 8 \<le> length d \<Longrightarrow> \<exists>r'. readU64_be_loop d off k r = Ret r'"
  by (induction k arbitrary: r) auto

interpretation u64_reader: bounded_reader "readU64 le" for le
proof unfold_locales
  fix mx off and d :: bytes
  assume "mx \<le> vector_max" "mx \<le> length d" "off \<le> mx"
  then show "mem_safe (readU64 le d off mx)"
    using readU64_be_loop_safe [of 8 off d 0]
    by (auto simp: readU64_def simp del: readU64_be_loop.simps)
qed (auto simp: readU64_def obind_eq_Ret split: if_splits simp del: readU64_be_loop.simps)

lemma readULEB128_loop_forward:
  "readULEB128_loop d off mx r s = Ret (v, off') \<Longrightarrow> off \<le> off' \<and> (off < mx \<longrightarrow> off < off') \<and> off' \<le> max off mx"
proof (induction d off mx r s rule: readULEB128_loop.induct)
  case (1 d off mx r s)
  from "1.prems" show ?case
    by (subst (asm) readULEB128_loop.simps)
      (auto simp: obind_eq_Ret Let_def split: if_splits dest!: "1.IH" [rotated -1])
qed

lemma readULEB128_loop_safe:
  "mx \<le> length d \<Longrightarrow> mem_safe (readULEB128_loop d off mx r s)"
proof (induction d off mx r s rule: readULEB128_loop.induct)
  case (1 d off mx r s)
  then show ?case
    by (subst readULEB128_loop.simps) (auto simp: Let_def)
qed

interpretation uleb_reader: bounded_reader readULEB128
  by unfold_locales
    (auto simp: readULEB128_def readULEB128_loop_safe dest: readULEB128_loop_forward)

lemma readSLEB128_loop_forward:
  "readSLEB128_loop d off mx r s b = Ret (v, s', b', off') \<Longrightarrow> off \<le> off' \<and> off' \<le> max off mx"
proof (induction d off mx r s b rule: readSLEB128_loop.induct)
  case (1 d off mx r s b)
  from "1.prems" show ?case
    by (subst (asm) readSLEB128_loop.simps)
      (auto simp: obind_eq_Ret Let_def split: if_splits dest!: "1.IH" [rotated -1])
qed

lemma readSLEB128_loop_safe:
  "mx \<le> length d \<Longrightarrow> mem_safe (readSLEB128_loop d off mx r s b)"
proof (induction d off mx r s b rule: readSLEB128_loop.induct)
  case (1 d off mx r s b)
  then show ?case
    by (subst readSLEB128_loop.simps) (auto simp: Let_def)
qed

interpretation sleb_reader: bounded_reader readSLEB128
  by unfold_locales
    (auto simp: readSLEB128_def obind_eq_Ret intro!: mem_safe_obind readSLEB128_loop_safe
      dest!: readSLEB128_loop_forward)

declare vector_max_numeral [simp del]

lemmas reader_then_safe =
  u8_reader.rd_then_safe u16_reader.rd_then_safe u32_reader.rd_then_safe
  u64_reader.rd_then_safe uleb_reader.rd_then_safe sleb_reader.rd_then_safe

end
