(* ===== verification/Leb128.thy ===== *)
theory Leb128
  imports ByteReader
begin

section \<open>LEB128: the reference encoding, and what the readers of \<open>DwarfUtils\<close> compute\<close>

text \<open>
  The DWARF standard's encodings \<open>uleb_encode\<close> and \<open>sleb_encode\<close> are the specification:
  groups of seven bits, low group first, bit 7 set on every byte but the last; the signed
  encoding stops when the remaining value fits in seven signed bits. The accumulation lemmas
  are shared by all LEB128 readers of the program.
\<close>

subsection \<open>The reference encodings\<close>

fun uleb_encode :: "nat \<Rightarrow> bytes" where
  "uleb_encode n =
     (if n < 128 then [word_of_nat n]
      else word_of_nat (n mod 128 + 128) # uleb_encode (n div 128))"

declare uleb_encode.simps [simp del]

function sleb_encode :: "int \<Rightarrow> bytes" where
  "sleb_encode n =
     (if -64 \<le> n \<and> n < 64 then [word_of_int (n mod 128)]
      else word_of_int (n mod 128 + 128) # sleb_encode (n div 128))"
  by pat_completeness auto
termination
  by (relation "measure (\<lambda>n. nat \<bar>n\<bar>)") auto

declare sleb_encode.simps [simp del]

lemma uleb_encode_nonempty: "0 < length (uleb_encode n)"
  by (subst uleb_encode.simps) simp

lemma sleb_encode_nonempty: "0 < length (sleb_encode n)"
  by (subst sleb_encode.simps) simp

subsection \<open>Accumulating seven-bit groups\<close>

lemma of_nat_or_push:
  assumes "m < 2 ^ s"
  shows "(word_of_nat m :: 'a :: len word) OR push_bit s (word_of_nat g) = word_of_nat (m + g * 2 ^ s)"
proof -
  have "m + g * 2 ^ s = m OR push_bit s g"
  proof -
    have "m + push_bit s g = m OR push_bit s g"
    proof (rule disjunctive_add)
      fix i
      have "take_bit s m = m" using assms by (simp add: take_bit_nat_eq_self)
      then have "bit m i \<Longrightarrow> i < s" by (metis bit_take_bit_iff)
      then show "\<not> bit m i \<or> \<not> bit (push_bit s g) i" by (auto simp: bit_push_bit_iff)
    qed
    then show ?thesis by (simp add: push_bit_nat_def)
  qed
  then show ?thesis by (simp add: of_nat_or_eq flip: push_bit_of_nat)
qed

lemma byte_last:
  fixes n :: nat assumes "n < 128"
  shows "(word_of_nat n :: u8) AND 127 = word_of_nat n" and "(word_of_nat n :: u8) AND 128 = 0"
proof -
  have u: "unat (word_of_nat n :: u8) = n" using assms by (simp add: unat_of_nat)
  show "(word_of_nat n :: u8) AND 127 = word_of_nat n"
    using assms u by (simp add: word_unat_eq_iff unat_and_127)
  show "(word_of_nat n :: u8) AND 128 = 0"
    using assms u by (simp add: and_128_eq_0)
qed

lemma byte_more:
  fixes g :: nat assumes "g < 128"
  shows "(word_of_nat (g + 128) :: u8) AND 127 = word_of_nat g"
    and "(word_of_nat (g + 128) :: u8) AND 128 \<noteq> 0"
proof -
  have u: "unat (word_of_nat (g + 128) :: u8) = g + 128"
    using assms by (simp add: unat_of_nat del: of_nat_add)
  show "(word_of_nat (g + 128) :: u8) AND 127 = word_of_nat g"
    using assms u by (simp add: word_unat_eq_iff unat_and_127 unat_of_nat del: of_nat_add)
  show "(word_of_nat (g + 128) :: u8) AND 128 \<noteq> 0"
    using u by (simp add: and_128_eq_0 del: of_nat_add)
qed

lemma ucast_group:
  "g < 128 \<Longrightarrow> (ucast (word_of_nat g :: u8) :: 'a :: len word) = word_of_nat g"
  by (simp add: unsigned_of_nat take_bit_nat_eq_self)

lemma group_bound: "m < 2 ^ s \<Longrightarrow> g < 128 \<Longrightarrow> m + g * 2 ^ s < (2 :: nat) ^ (s + 7)"
proof -
  assume m: "m < 2 ^ s" and g: "g < 128"
  have "g * 2 ^ s \<le> 127 * 2 ^ s" using g by simp
  with m have "m + g * 2 ^ s < 2 ^ s + 127 * 2 ^ s" by linarith
  then show ?thesis by (simp add: power_add)
qed

text \<open>Where the encoding sits in the buffer.\<close>

definition encoded_at :: "bytes \<Rightarrow> nat \<Rightarrow> bytes \<Rightarrow> bool" where
  "encoded_at d off bs \<longleftrightarrow> off + length bs \<le> length d \<and> take (length bs) (drop off d) = bs"

lemma encoded_at_Cons:
  "encoded_at d off (b # bs) \<longleftrightarrow> off < length d \<and> d ! off = b \<and> encoded_at d (Suc off) bs"
  by (cases "off < length d")
    (auto simp: encoded_at_def Cons_nth_drop_Suc [symmetric])

lemma encoded_at_Nil [simp]: "encoded_at d off [] \<longleftrightarrow> off \<le> length d"
  by (simp add: encoded_at_def)

lemma encoded_at_append:
  "encoded_at d off (xs @ ys) \<longleftrightarrow> encoded_at d off xs \<and> encoded_at d (off + length xs) ys"
proof (induction xs arbitrary: off)
  case Nil
  then show ?case by (auto simp: encoded_at_def)
next
  case (Cons x xs)
  then show ?case by (simp add: encoded_at_Cons)
qed

lemma encoded_at_self: "encoded_at (pre @ bs @ post) (length pre) bs"
  by (simp add: encoded_at_def)

subsection \<open>The unsigned reader\<close>

lemma readULEB128_loop_encode:
  assumes "encoded_at d off (uleb_encode n)" and "off + length (uleb_encode n) \<le> mx"
    and "m < 2 ^ s" and "n * 2 ^ s < 2 ^ 35" and "s < 32" and "7 dvd s"
  shows "readULEB128_loop d off mx (scast (word_of_nat m :: u32)) s =
           Ret (scast (word_of_nat (m + n * 2 ^ s) :: u32), off + length (uleb_encode n))"
  using assms
proof (induction n arbitrary: off m s rule: uleb_encode.induct)
  case (1 n)
  show ?case
  proof (cases "n < 128")
    case True
    then have e: "uleb_encode n = [word_of_nat n]" by (subst uleb_encode.simps) simp
    with "1.prems" have off: "off < length d" "off < mx" "d ! off = word_of_nat n"
      by (auto simp: encoded_at_Cons)
    show ?thesis
      using off True "1.prems"
      by (subst readULEB128_loop.simps)
        (simp add: byte_last ucast_group e Let_def of_nat_or_push del: of_nat_add of_nat_mult flip: signed_or_eq)
  next
    case False
    let ?g = "n mod 128"
    have e: "uleb_encode n = word_of_nat (?g + 128) # uleb_encode (n div 128)"
      using False by (subst uleb_encode.simps) simp
    with "1.prems" have off: "off < length d" "off < mx" "d ! off = word_of_nat (?g + 128)"
      and rest: "encoded_at d (Suc off) (uleb_encode (n div 128))"
        "Suc off + length (uleb_encode (n div 128)) \<le> mx"
      by (auto simp: encoded_at_Cons)
    have m': "m + ?g * 2 ^ s < 2 ^ (s + 7)" using "1.prems"(3) by (simp add: group_bound)
    have "n div 128 * 2 ^ (s + 7) = 128 * (n div 128) * 2 ^ s" by (simp add: power_add)
    also have "\<dots> \<le> n * 2 ^ s" by (rule mult_le_mono1) simp
    finally have n': "n div 128 * 2 ^ (s + 7) < 2 ^ 35"
      using "1.prems"(4) by (rule le_less_trans)
    have "s \<noteq> 28" if "n \<ge> 128"
      using that "1.prems"(4) by auto
    then have s': "s + 7 < 32"
      using False "1.prems"(5,6) by (auto elim!: dvdE)
    have sum: "m + ?g * 2 ^ s + n div 128 * 2 ^ (s + 7) = m + n * 2 ^ s"
    proof -
      have "M * 2 ^ s + D * 2 ^ (s + 7) = (M + 128 * D) * 2 ^ s" for M D :: nat
        by (simp add: power_add algebra_simps)
      from this [of ?g "n div 128"] show ?thesis by (simp only: mod_mult_div_eq add.assoc)
    qed
    show ?thesis
      using "1.IH" [OF False rest m' n' s'] off "1.prems"(3,5,6) sum
      by (subst readULEB128_loop.simps)
        (simp add: byte_more ucast_group e Let_def of_nat_or_push add.assoc del: of_nat_add of_nat_mult flip: signed_or_eq)
  qed
qed

lemma readULEB128_loop_too_wide:
  assumes "encoded_at d off (uleb_encode n)" and "off + length (uleb_encode n) \<le> mx"
    and "2 ^ 35 \<le> n * 2 ^ s \<or> 32 \<le> s" and "7 dvd s"
  shows "readULEB128_loop d off mx r s = Undef ShiftWidth"
  using assms
proof (induction n arbitrary: off r s rule: uleb_encode.induct)
  case (1 n)
  have off: "off < length d" "off < mx"
    using "1.prems"(1,2) uleb_encode_nonempty [of n] by (auto simp: encoded_at_def simp del: length_greater_0_conv)
  show ?case
  proof (cases "32 \<le> s")
    case True
    with off show ?thesis by (subst readULEB128_loop.simps) simp
  next
    case False
    with "1.prems"(4) have s28: "s \<le> 28" by (auto elim!: dvdE)
    have wide: "2 ^ 35 \<le> n * 2 ^ s" using "1.prems"(3) False by simp
    have big: "\<not> n < 128"
    proof
      assume "n < 128"
      moreover have "(2 :: nat) ^ s \<le> 2 ^ 28" using s28 by (intro power_increasing) auto
      ultimately have "n * 2 ^ s \<le> 127 * 2 ^ 28" by (intro mult_le_mono) auto
      with wide show False by simp
    qed
    let ?g = "n mod 128"
    have e: "uleb_encode n = word_of_nat (?g + 128) # uleb_encode (n div 128)"
      using big by (subst uleb_encode.simps) simp
    with "1.prems" have b: "d ! off = word_of_nat (?g + 128)"
      and rest: "encoded_at d (Suc off) (uleb_encode (n div 128))"
        "Suc off + length (uleb_encode (n div 128)) \<le> mx"
      by (auto simp: encoded_at_Cons)
    have "2 ^ 35 \<le> n div 128 * 2 ^ (s + 7) \<or> 32 \<le> s + 7"
    proof (rule disjCI)
      assume "\<not> 32 \<le> s + 7"
      with "1.prems"(4) have "s \<le> 21" by (auto elim!: dvdE)
      then obtain k where k: "(2 :: nat) ^ 35 = k * 2 ^ (s + 7)"
        using le_imp_power_dvd [of "s + 7" 35 "2 :: nat"] by (auto elim!: dvdE simp: mult.commute)
      have "k * 128 * 2 ^ s = 2 ^ 35" by (simp only: k power_add) simp
      with wide have "k * 128 * 2 ^ s \<le> n * 2 ^ s" by (simp only:)
      then have "k * 128 \<le> n" by (simp only: mult_le_cancel2) simp
      then have "k \<le> n div 128" by linarith
      then show "2 ^ 35 \<le> n div 128 * 2 ^ (s + 7)" unfolding k by (rule mult_le_mono1)
    qed
    with "1.IH" [OF big rest] "1.prems"(4)
    have "readULEB128_loop d (Suc off) mx r' (s + 7) = Undef ShiftWidth" for r'
      by (simp add: dvd_add_left_iff)
    with off b False show ?thesis
      by (subst readULEB128_loop.simps) (simp add: byte_more Let_def del: of_nat_add)
  qed
qed

text \<open>
  The exact result on every canonical encoding: below \<open>2^35\<close> the low 32 bits, sign-extended;
  from there on undefined behaviour.
\<close>

lemma readULEB128_encode:
  assumes "encoded_at d off (uleb_encode n)" and "off + length (uleb_encode n) \<le> mx"
  shows "readULEB128 d off mx =
           (if n < 2 ^ 35 then Ret (scast (word_of_nat n :: u32), off + length (uleb_encode n))
            else Undef ShiftWidth)"
  using readULEB128_loop_encode [of d off n mx 0 0] readULEB128_loop_too_wide [of d off n mx 0 0] assms
  by (auto simp: readULEB128_def)

lemma word_of_int_u64_shift:
  "64 \<le> k \<Longrightarrow> (word_of_int (a + b * 2 ^ k) :: u64) = word_of_int a"
proof -
  assume "64 \<le> k"
  then have "(2 :: int) ^ 64 dvd b * 2 ^ k" by (intro dvd_mult le_imp_power_dvd)
  then have "(a + b * 2 ^ k) mod 2 ^ 64 = a mod 2 ^ 64" by (simp add: mod_add_eq dvd_eq_mod_eq_0 flip: mod_add_right_eq)
  then show ?thesis
    by (simp add: word_of_int_eq_iff take_bit_eq_mod del: of_int_add of_int_mult)
qed

lemma scast_u32_u64:
  assumes "n < 2 ^ 32"
  shows "(scast (word_of_nat n :: u32) :: u64) =
    (if n < 2 ^ 31 then word_of_nat n else word_of_nat (n + 18446744069414584320))"
proof -
  have s: "sint (word_of_nat n :: u32) = (if n < 2 ^ 31 then int n else int n - 2 ^ 32)"
  proof -
    have "sint (word_of_nat n :: u32) = signed_take_bit 31 (int n)"
      by (simp only: signed_of_nat) simp
    also have "\<dots> = (int n + 2 ^ 31) mod 2 ^ 32 - 2 ^ 31"
      by (simp add: signed_take_bit_eq_take_bit_shift take_bit_eq_mod)
    also have "\<dots> = (if n < 2 ^ 31 then int n else int n - 2 ^ 32)"
    proof (cases "n < 2 ^ 31")
      case False
      have "(int n + 2 ^ 31) mod 2 ^ 32 = (int n - 2 ^ 31 + 2 ^ 32) mod 2 ^ 32"
        by (simp add: add.commute)
      also have "\<dots> = int n - 2 ^ 31" using False assms by (subst mod_add_self2) simp
      finally show ?thesis using False by simp
    qed simp
    finally show ?thesis .
  qed
  have "(scast (word_of_nat n :: u32) :: u64) = word_of_int (sint (word_of_nat n :: u32))"
    by simp
  also have "\<dots> = (if n < 2 ^ 31 then word_of_nat n else word_of_nat (n + 18446744069414584320))"
  proof (cases "n < 2 ^ 31")
    case False
    have "int n - 2 ^ 32 + 1 * 2 ^ 64 = int (n + 18446744069414584320)" by simp
    then have "(word_of_int (int n - 2 ^ 32) :: u64) = word_of_int (int (n + 18446744069414584320))"
      by (metis order_refl word_of_int_u64_shift)
    with False s show ?thesis by (simp del: of_int_diff of_nat_add)
  qed (simp add: s)
  finally show ?thesis .
qed

subsection \<open>The signed reader\<close>

text \<open>The last group: the sign extension cancels the excess of an unsigned group.\<close>

lemma sleb_sign_bit:
  assumes "-64 \<le> n" and "n < (64 :: int)"
  shows "(word_of_nat (nat (n mod 128)) :: u8) AND 64 \<noteq> 0 \<longleftrightarrow> n < 0"
proof -
  let ?g = "nat (n mod 128)"
  have g: "?g = (if n < 0 then nat (n + 128) else nat n)"
  proof (cases "n < 0")
    case True
    have "n mod 128 = (n + 128) mod 128" by simp
    also have "\<dots> = n + 128" using True assms by (intro mod_pos_pos_trivial) auto
    finally show ?thesis using True by simp
  qed (use assms in simp)
  have u: "unat (word_of_nat ?g :: u8) = ?g"
    using pos_mod_bound [of 128 n] by (simp add: unat_of_nat del: of_nat_nat)
  have "(word_of_nat ?g :: u8) AND 64 = 0 \<longleftrightarrow> \<not> bit (word_of_nat ?g :: u8) 6"
    using and_exp_eq_0_iff_not_bit [of "word_of_nat ?g :: u8" 6] by simp
  also have "bit (word_of_nat ?g :: u8) 6 \<longleftrightarrow> bit (unat (word_of_nat ?g :: u8)) 6"
    by (simp add: bit_unsigned_iff)
  also have "\<dots> \<longleftrightarrow> odd (?g div 64)"
    by (simp only: u bit_iff_odd) simp
  also have "\<dots> \<longleftrightarrow> n < 0"
  proof (cases "n < 0")
    case True
    then have "?g div 64 = 1" using assms g by (simp add: div_nat_eqI)
    with True show ?thesis by simp
  next
    case False
    then have "?g div 64 = 0" using assms g by simp
    with False show ?thesis by simp
  qed
  finally show ?thesis by blast
qed

lemma sleb_finish:
  assumes "m < 2 ^ s" and "-64 \<le> n" and "n < 64"
  shows "(if s + 7 < 64 \<and> (word_of_nat (nat (n mod 128)) :: u8) AND 64 \<noteq> 0
          then word_of_nat (m + nat (n mod 128) * 2 ^ s) OR push_bit (s + 7) (NOT 0)
          else (word_of_nat (m + nat (n mod 128) * 2 ^ s) :: u64)) = word_of_int (int m + n * 2 ^ s)"
    (is "?lhs = _")
proof -
  let ?g = "nat (n mod 128)"
  have gb: "?g < 128" using pos_mod_bound [of 128 n] by simp
  have b: "m + ?g * 2 ^ s < 2 ^ (s + 7)" using assms(1) gb by (rule group_bound)
  have gi: "int ?g = (if n < 0 then n + 128 else n)"
  proof (cases "n < 0")
    case True
    have "n mod 128 = (n + 128) mod 128" by simp
    also have "\<dots> = n + 128" using True assms by (intro mod_pos_pos_trivial) auto
    finally have "n mod 128 = n + 128" .
    moreover have "0 \<le> n + 128" using assms(2) by simp
    ultimately show ?thesis using True by simp
  qed (use assms in simp)
  have W: "(word_of_nat (m + ?g * 2 ^ s) :: u64) = word_of_int (int m + int ?g * 2 ^ s)"
    by (metis (no_types) of_int_of_nat_eq of_nat_add of_nat_mult of_nat_numeral of_nat_power)
  show ?thesis
  proof (cases "n < 0")
    case False
    then show ?thesis using sleb_sign_bit [OF assms(2,3)] W gi by simp
  next
    case True
    have eq: "int m + int ?g * 2 ^ s = (int m + n * 2 ^ s) + 1 * 2 ^ (s + 7)"
      using True by (simp only: gi if_True) (simp add: power_add algebra_simps)
    show ?thesis
    proof (cases "s + 7 < 64")
      case False
      then show ?thesis unfolding W eq using word_of_int_u64_shift [of "s + 7" _ 1] by simp
    next
      case s7: True
      have "?lhs = word_of_nat (m + ?g * 2 ^ s) OR push_bit (s + 7) (NOT 0)"
        using s7 True sleb_sign_bit [OF assms(2,3)] by simp
      also have "\<dots> = word_of_nat (m + ?g * 2 ^ s) + push_bit (s + 7) (NOT 0)"
      proof (rule or_push_disjoint)
        have "(2 :: nat) ^ (s + 7) \<le> 2 ^ 63" using s7 by (intro power_increasing) auto
        then show "unat (word_of_nat (m + ?g * 2 ^ s) :: u64) < 2 ^ (s + 7)"
          using b by (simp add: unat_of_nat del: of_nat_add of_nat_mult)
      qed
      also have "\<dots> = word_of_int (int m + n * 2 ^ s)"
        unfolding W eq by (simp add: push_bit_eq_mult algebra_simps)
      finally show ?thesis .
    qed
  qed
qed

text \<open>One group of a longer encoding: what remains after it.\<close>

lemma sleb_group_split:
  "int (m + nat (n mod 128) * 2 ^ s) + n div 128 * 2 ^ (s + 7) = int m + n * 2 ^ s"
proof -
  have "M * 2 ^ s + D * 2 ^ (s + 7) = (M + 128 * D) * 2 ^ s" for M D :: int
    by (simp add: power_add algebra_simps)
  from this [of "n mod 128" "n div 128"] show ?thesis by (simp add: add.assoc)
qed

lemma sleb_range_step:
  assumes "- (2 ^ 63) \<le> n * 2 ^ s" and "n * 2 ^ s < (2 :: int) ^ 63" and "\<not> (-64 \<le> n \<and> n < 64)"
    and "s \<le> 63" and "7 dvd s"
  shows "- (2 ^ 63) \<le> n div 128 * 2 ^ (s + 7)" and "n div 128 * 2 ^ (s + 7) < (2 :: int) ^ 63"
    and "s + 7 \<le> 63"
proof -
  show s7: "s + 7 \<le> 63"
  proof (rule ccontr)
    assume "\<not> s + 7 \<le> 63"
    with assms(4,5) have "s = 63" by (auto elim!: dvdE)
    with assms(1-3) show False by simp
  qed
  have P: "(2 :: int) ^ 63 = 2 ^ (56 - s) * 2 ^ (s + 7)"
    using s7 by (simp flip: power_add)
  have n: "n * 2 ^ s = 128 * (n div 128) * 2 ^ s + n mod 128 * 2 ^ s"
    by (metis distrib_right mult_div_mod_eq)
  have le: "n div 128 * 2 ^ (s + 7) \<le> n * 2 ^ s"
    unfolding n by (simp add: power_add)
  then show "n div 128 * 2 ^ (s + 7) < (2 :: int) ^ 63" using assms(2) by linarith
  have "n * 2 ^ s < (n div 128 + 1) * 2 ^ (s + 7)"
  proof -
    have "n mod 128 * 2 ^ s < 128 * (2 :: int) ^ s" by (intro mult_strict_right_mono) auto
    then show ?thesis unfolding n by (simp add: power_add algebra_simps)
  qed
  then have "- (2 ^ (56 - s)) * 2 ^ (s + 7) < (n div 128 + 1) * (2 :: int) ^ (s + 7)"
    using assms(1) P by simp
  then have "- (2 ^ (56 - s)) < n div 128 + 1" by (rule mult_right_less_imp_less) simp
  then have "- (2 ^ (56 - s)) \<le> n div 128" by simp
  then have "- (2 ^ (56 - s)) * 2 ^ (s + 7) \<le> n div 128 * 2 ^ (s + 7)" by (rule mult_right_mono) simp
  then show "- (2 ^ 63) \<le> n div 128 * 2 ^ (s + 7)" using P by simp
qed

lemma sleb_encode_last: "-64 \<le> n \<Longrightarrow> n < 64 \<Longrightarrow> sleb_encode n = [word_of_nat (nat (n mod 128))]"
  by (subst sleb_encode.simps) simp

lemma sleb_encode_more:
  "\<not> (-64 \<le> n \<and> n < 64) \<Longrightarrow>
     sleb_encode n = word_of_nat (nat (n mod 128) + 128) # sleb_encode (n div 128)"
  by (subst sleb_encode.simps) simp

lemma nat_mod_128: "nat (n mod 128) < 128"
  using pos_mod_bound [of 128 n] by simp

lemma readSLEB128_loop_encode:
  assumes "encoded_at d off (sleb_encode n)" and "off + length (sleb_encode n) \<le> mx"
    and "m < 2 ^ s" and "- (2 ^ 63) \<le> n * 2 ^ s" and "n * 2 ^ s < 2 ^ 63" and "s \<le> 63" and "7 dvd s"
  shows "\<exists>r s' b'. readSLEB128_loop d off mx (word_of_nat m) s b =
            Ret (r, s', b', off + length (sleb_encode n)) \<and>
           (if s' < 64 \<and> b' AND 64 \<noteq> 0 then r OR push_bit s' (NOT 0) else r)
             = word_of_int (int m + n * 2 ^ s)"
  using assms
proof (induction n arbitrary: off m s b rule: sleb_encode.induct)
  case (1 n)
  let ?g = "nat (n mod 128)"
  show ?case
  proof (cases "-64 \<le> n \<and> n < 64")
    case True
    then have e: "sleb_encode n = [word_of_nat ?g]" by (simp add: sleb_encode_last del: of_nat_nat)
    with "1.prems" have off: "off < length d" "off < mx" "d ! off = word_of_nat ?g"
      by (auto simp: encoded_at_Cons simp del: of_nat_nat)
    have "readSLEB128_loop d off mx (word_of_nat m) s b =
        Ret (word_of_nat (m + ?g * 2 ^ s), s + 7, word_of_nat ?g, Suc off)"
      using off "1.prems"(3,6) nat_mod_128 [of n]
      by (subst readSLEB128_loop.simps)
        (simp add: byte_last ucast_group of_nat_or_push Let_def del: of_nat_nat of_nat_add of_nat_mult)
    then show ?thesis
      using True sleb_finish [OF "1.prems"(3), of n] e by (simp del: of_nat_nat of_nat_add of_nat_mult)
  next
    case False
    note e = sleb_encode_more [OF False]
    with "1.prems" have off: "off < length d" "off < mx" "d ! off = word_of_nat (?g + 128)"
      and rest: "encoded_at d (Suc off) (sleb_encode (n div 128))"
        "Suc off + length (sleb_encode (n div 128)) \<le> mx"
      by (auto simp: encoded_at_Cons simp del: of_nat_nat of_nat_add)
    have m': "m + ?g * 2 ^ s < 2 ^ (s + 7)" using "1.prems"(3) nat_mod_128 by (rule group_bound)
    note step = sleb_range_step [OF "1.prems"(4,5) False "1.prems"(6,7)]
    have "readSLEB128_loop d off mx (word_of_nat m) s b =
        readSLEB128_loop d (Suc off) mx (word_of_nat (m + ?g * 2 ^ s)) (s + 7) (word_of_nat (?g + 128))"
      using off "1.prems"(3,6) nat_mod_128 [of n]
      by (subst readSLEB128_loop.simps)
        (simp add: byte_more ucast_group of_nat_or_push Let_def del: of_nat_nat of_nat_add of_nat_mult)
    with "1.IH" [OF False rest m' step, of "word_of_nat (?g + 128)"] "1.prems"(7) e
    show ?thesis by (simp only: sleb_group_split) (simp add: dvd_add_left_iff)
  qed
qed

lemma readSLEB128_encode:
  assumes "encoded_at d off (sleb_encode n)" and "off + length (sleb_encode n) \<le> mx"
    and "- (2 ^ 63) \<le> n" and "n < 2 ^ 63"
  shows "readSLEB128 d off mx = Ret (word_of_int n, off + length (sleb_encode n))"
  using readSLEB128_loop_encode [of d off n mx 0 0 0] assms
  by (auto simp: readSLEB128_def)

end
