(* ===== verification/FixedWidth.thy ===== *)
theory FixedWidth
  imports Leb128
begin

section \<open>Fixed-width readers: the numbers they read\<close>

text \<open>
  \<open>le_value\<close> is the number a little-endian byte string denotes. The fixed-width readers return
  it for the bytes at the offset, reversed when the object is big-endian; the two byte orders
  differ by \<open>swapBytes\<close>.
\<close>

fun le_value :: "bytes \<Rightarrow> nat" where
  "le_value [] = 0"
| "le_value (b # bs) = unat b + 256 * le_value bs"

lemma le_value_bound: "le_value bs < 256 ^ length bs"
proof (induction bs)
  case (Cons b bs)
  have "unat b + 256 * le_value bs < 256 + 256 * le_value bs" using unat_u8_bound [of b] by simp
  also have "\<dots> \<le> 256 * 256 ^ length bs" using Cons.IH by simp
  finally show ?case by simp
qed simp

lemma le_value_append: "le_value (xs @ ys) = le_value xs + 256 ^ length xs * le_value ys"
  by (induction xs) (auto simp: algebra_simps)

lemma ucast_byte: "(ucast (b :: u8) :: 'a :: len word) = word_of_nat (unat b)"
  by simp

lemma or_byte_top:
  "m < 2 ^ s \<Longrightarrow> (word_of_nat m :: 'a :: len word) OR push_bit s (ucast (b :: u8))
     = word_of_nat (m + unat b * 2 ^ s)"
  unfolding ucast_byte by (rule of_nat_or_push)

definition window :: "bytes \<Rightarrow> nat \<Rightarrow> nat \<Rightarrow> bytes" where
  "window d off n = take n (drop off d)"

lemma window_Suc: "off < length d \<Longrightarrow> window d off (Suc n) = d ! off # window d (Suc off) n"
  by (simp add: window_def Cons_nth_drop_Suc [symmetric])

lemma window_0 [simp]: "window d off 0 = []"
  by (simp add: window_def)

lemma window_length: "off + n \<le> length d \<Longrightarrow> length (window d off n) = n"
  by (simp add: window_def)

lemma window_numeral:
  "off < length d \<Longrightarrow> window d off (numeral k) = d ! off # window d (Suc off) (pred_numeral k)"
  by (simp add: numeral_eq_Suc window_Suc)

lemmas window_unfold = window_Suc window_numeral

lemma or_bytes_2:
  "ucast b0 OR push_bit 8 (ucast b1) = (word_of_nat (le_value [b0, b1]) :: u16)"
  using unat_u8_bound [of b0] by (subst ucast_byte, subst or_byte_top) simp_all

lemma or_bytes_4:
  "ucast b0 OR push_bit 8 (ucast b1) OR push_bit 16 (ucast b2) OR push_bit 24 (ucast b3)
     = (word_of_nat (le_value [b0, b1, b2, b3]) :: 'a :: len word)"
proof -
  have "((ucast b0 OR push_bit 8 (ucast b1)) OR push_bit 16 (ucast b2)) OR push_bit 24 (ucast b3)
     = (word_of_nat (unat b0 + unat b1 * 2 ^ 8 + unat b2 * 2 ^ 16 + unat b3 * 2 ^ 24) :: 'a word)"
    using unat_u8_bound [of b0] unat_u8_bound [of b1] unat_u8_bound [of b2]
    by (subst ucast_byte, subst or_byte_top, simp, subst or_byte_top, simp, subst or_byte_top, simp_all)
  also have "unat b0 + unat b1 * 2 ^ 8 + unat b2 * 2 ^ 16 + unat b3 * 2 ^ 24 = le_value [b0, b1, b2, b3]"
    by simp
  finally show ?thesis by (simp only: or.assoc)
qed

lemma or_bytes_8:
  "ucast b0 OR push_bit 8 (ucast b1) OR push_bit 16 (ucast b2) OR push_bit 24 (ucast b3)
     OR push_bit 32 (ucast b4) OR push_bit 40 (ucast b5) OR push_bit 48 (ucast b6)
     OR push_bit 56 (ucast b7)
     = (word_of_nat (le_value [b0, b1, b2, b3, b4, b5, b6, b7]) :: u64)"
proof -
  have "(((((((ucast b0 OR push_bit 8 (ucast b1)) OR push_bit 16 (ucast b2)) OR push_bit 24 (ucast b3))
     OR push_bit 32 (ucast b4)) OR push_bit 40 (ucast b5)) OR push_bit 48 (ucast b6))
     OR push_bit 56 (ucast b7))
     = (word_of_nat (unat b0 + unat b1 * 2 ^ 8 + unat b2 * 2 ^ 16 + unat b3 * 2 ^ 24
         + unat b4 * 2 ^ 32 + unat b5 * 2 ^ 40 + unat b6 * 2 ^ 48 + unat b7 * 2 ^ 56) :: u64)"
    using unat_u8_bound [of b0] unat_u8_bound [of b1] unat_u8_bound [of b2] unat_u8_bound [of b3]
      unat_u8_bound [of b4] unat_u8_bound [of b5] unat_u8_bound [of b6]
    by (subst ucast_byte, subst or_byte_top, simp, subst or_byte_top, simp, subst or_byte_top, simp,
        subst or_byte_top, simp, subst or_byte_top, simp, subst or_byte_top, simp, subst or_byte_top, simp_all)
  also have "unat b0 + unat b1 * 2 ^ 8 + unat b2 * 2 ^ 16 + unat b3 * 2 ^ 24
         + unat b4 * 2 ^ 32 + unat b5 * 2 ^ 40 + unat b6 * 2 ^ 48 + unat b7 * 2 ^ 56
       = le_value [b0, b1, b2, b3, b4, b5, b6, b7]"
    by simp
  finally show ?thesis by (simp only: or.assoc)
qed

text \<open>The readers, in both byte orders.\<close>

lemma u64_add_below:
  "off + k \<le> mx \<Longrightarrow> mx \<le> vector_max \<Longrightarrow> u64_add off k = off + k"
  by (simp add: vector_max_numeral)

definition ordered :: "bool \<Rightarrow> bytes \<Rightarrow> bytes" where
  "ordered le bs = (if le then bs else rev bs)"

lemma readU8_value:
  "off < mx \<Longrightarrow> mx \<le> length d \<Longrightarrow> readU8 d off mx = Ret (d ! off, Suc off)"
  by (simp add: readU8_def)

lemma readU16_value:
  assumes "off + 2 \<le> mx" and "mx \<le> length d" and "mx \<le> vector_max"
  shows "readU16 le d off mx = Ret (word_of_nat (le_value (ordered le (window d off 2))), off + 2)"
proof -
  have "ucast (d ! off) OR push_bit 8 (ucast (d ! Suc off))
      = (word_of_nat (le_value [d ! off, d ! Suc off]) :: u16)"
    "push_bit 8 (ucast (d ! off)) OR ucast (d ! Suc off)
      = (word_of_nat (le_value [d ! Suc off, d ! off]) :: u16)"
    by (rule or_bytes_2) (subst or.commute, rule or_bytes_2)
  then show ?thesis
    using assms
    by (simp add: readU16_def ordered_def vector_max_numeral window_unfold del: le_value.simps)
qed

lemma readU32_value:
  assumes "off + 4 \<le> mx" and "mx \<le> length d" and "mx \<le> vector_max"
  shows "readU32 le d off mx = Ret (word_of_nat (le_value (ordered le (window d off 4))), off + 4)"
proof -
  have w: "window d off 4 = [d ! off, d ! (off + 1), d ! (off + 2), d ! (off + 3)]"
    using assms(1,2) by (simp add: window_unfold eval_nat_numeral)
  have be: "push_bit 24 (ucast b0) OR push_bit 16 (ucast b1) OR push_bit 8 (ucast b2) OR ucast b3
      = (word_of_nat (le_value [b3, b2, b1, b0]) :: u32)" for b0 b1 b2 b3 :: u8
    by (subst or_bytes_4 [symmetric]) (simp only: or.assoc or.commute or.left_commute)
  show ?thesis
    using assms
    by (simp add: readU32_def ordered_def vector_max_numeral w or_bytes_4 be del: le_value.simps)
qed

lemma readU64_be_loop_value:
  assumes "off + 8 \<le> length d" and "k \<le> 8"
  shows "readU64_be_loop d off k r =
    Ret (word_of_nat (le_value (rev (window d (off + (8 - k)) k)) + unat r * 256 ^ k))"
  using assms(2)
proof (induction k arbitrary: r)
  case 0
  then show ?case by simp
next
  case (Suc k)
  let ?b = "d ! (off + (7 - k))"
  have step: "push_bit 8 r OR ucast ?b = word_of_nat (unat ?b + unat r * 2 ^ 8)"
    using unat_u8_bound [of ?b] of_nat_or_push [of "unat ?b" 8 "unat r", where ?'a = 64]
    by (simp add: or.commute)
  have idx: "off + (8 - Suc k) = off + (7 - k)" "Suc (off + (7 - k)) = off + (8 - k)"
    using Suc.prems by auto
  have w: "window d (off + (8 - Suc k)) (Suc k) = ?b # window d (off + (8 - k)) k"
    using Suc.prems assms(1) by (simp only: idx) (simp add: window_Suc flip: idx(2))
  have len: "length (window d (off + (8 - k)) k) = k"
    using Suc.prems assms(1) by (simp add: window_length)
  have "off + (7 - k) < length d" using Suc.prems assms(1) by simp
  then have "readU64_be_loop d off (Suc k) r =
      readU64_be_loop d off k (word_of_nat (unat ?b + unat r * 2 ^ 8))"
    using Suc.prems assms(1)
    by (simp only: readU64_be_loop.simps byte_at_in obind.simps step)
  also have "\<dots> = Ret (word_of_nat (le_value (rev (window d (off + (8 - k)) k))
      + unat (word_of_nat (unat ?b + unat r * 2 ^ 8) :: u64) * 256 ^ k))"
    using Suc by simp
  also have "(word_of_nat (le_value (rev (window d (off + (8 - k)) k))
      + unat (word_of_nat (unat ?b + unat r * 2 ^ 8) :: u64) * 256 ^ k) :: u64)
    = word_of_nat (le_value (rev (window d (off + (8 - Suc k)) (Suc k))) + unat r * 256 ^ Suc k)"
    unfolding w using len by (simp add: le_value_append algebra_simps)
  finally show ?case .
qed

lemma readU64_value:
  assumes "off + 8 \<le> mx" and "mx \<le> length d" and "mx \<le> vector_max"
  shows "readU64 le d off mx = Ret (word_of_nat (le_value (ordered le (window d off 8))), off + 8)"
proof -
  have w: "window d off 8 = [d ! off, d ! (off + 1), d ! (off + 2), d ! (off + 3),
      d ! (off + 4), d ! (off + 5), d ! (off + 6), d ! (off + 7)]"
    using assms(1,2) by (simp add: window_unfold eval_nat_numeral)
  show ?thesis
  proof (cases le)
    case True
    then show ?thesis
      using assms by (simp add: readU64_def ordered_def vector_max_numeral w or_bytes_8 del: le_value.simps)
  next
    case False
    then show ?thesis
      using assms readU64_be_loop_value [of off d 8 0]
      by (simp add: readU64_def ordered_def vector_max_numeral del: readU64_be_loop.simps)
  qed
qed

subsection \<open>Encoding and reading back\<close>

fun le_bytes :: "nat \<Rightarrow> nat \<Rightarrow> bytes" where
  "le_bytes 0 n = []"
| "le_bytes (Suc k) n = word_of_nat n # le_bytes k (n div 256)"

lemma length_le_bytes [simp]: "length (le_bytes k n) = k"
  by (induction k arbitrary: n) auto

lemma le_value_le_bytes: "le_value (le_bytes k n) = n mod 256 ^ k"
proof (induction k arbitrary: n)
  case (Suc k)
  have "unat (word_of_nat n :: u8) = n mod 256" by (simp add: unsigned_of_nat take_bit_nat_def)
  with Suc show ?case by (simp add: mod_mult2_eq)
qed simp

lemma length_ordered [simp]: "length (ordered le bs) = length bs"
  by (simp add: ordered_def)

lemma ordered_ordered [simp]: "ordered le (ordered le bs) = bs"
  by (simp add: ordered_def)

lemma encoded_window: "encoded_at d off bs \<Longrightarrow> length bs = k \<Longrightarrow> window d off k = bs"
  by (auto simp: encoded_at_def window_def)

lemma encoded_at_length: "encoded_at d off bs \<Longrightarrow> off + length bs \<le> length d"
  by (simp add: encoded_at_def)

lemma unat_mod_width:
  "unat (a :: u16) mod 65536 = unat a" "unat (b :: u32) mod 4294967296 = unat b"
  "unat (c :: u64) mod 18446744073709551616 = unat c"
  using unsigned_less [of a, where ?'a = nat] unsigned_less [of b, where ?'a = nat]
    unsigned_less [of c, where ?'a = nat] by simp_all

lemma readU16_encoded:
  assumes "encoded_at d off (ordered le (le_bytes 2 (unat v)))" and "off + 2 \<le> mx" and "mx \<le> length d"
    and "mx \<le> vector_max"
  shows "readU16 le d off mx = Ret (v, off + 2)"
  using assms
  by (simp add: unat_mod_width readU16_value encoded_window le_value_le_bytes)

lemma readU32_encoded:
  assumes "encoded_at d off (ordered le (le_bytes 4 (unat v)))" and "off + 4 \<le> mx" and "mx \<le> length d"
    and "mx \<le> vector_max"
  shows "readU32 le d off mx = Ret (v, off + 4)"
  using assms
  by (simp add: unat_mod_width readU32_value encoded_window le_value_le_bytes)

lemma readU64_encoded:
  assumes "encoded_at d off (ordered le (le_bytes 8 (unat v)))" and "off + 8 \<le> mx" and "mx \<le> length d"
    and "mx \<le> vector_max"
  shows "readU64 le d off mx = Ret (v, off + 8)"
  using assms
  by (simp add: unat_mod_width readU64_value encoded_window le_value_le_bytes)

subsection \<open>Byte swapping reverses\<close>

lemma bit_u8_high: "8 \<le> n \<Longrightarrow> \<not> bit (b :: u8) n"
  using bit_imp_le_length by fastforce

lemma upt_16: "[0..<16] =
     [0, 1, 2, 3, 4, 5, 6, 7, 8, 9, 10, 11, 12, 13, 14, 15]"
  by code_simp

lemma upt_32: "[0..<32] =
     [0, 1, 2, 3, 4, 5, 6, 7, 8, 9, 10, 11, 12, 13, 14, 15, 16, 17, 18, 19, 20, 21, 22, 23, 24,
     25, 26, 27, 28, 29, 30, 31]"
  by code_simp

lemma upt_64: "[0..<64] =
     [0, 1, 2, 3, 4, 5, 6, 7, 8, 9, 10, 11, 12, 13, 14, 15, 16, 17, 18, 19, 20, 21, 22, 23, 24,
     25, 26, 27, 28, 29, 30, 31, 32, 33, 34, 35, 36, 37, 38, 39, 40, 41, 42, 43, 44, 45, 46,
     47, 48, 49, 50, 51, 52, 53, 54, 55, 56, 57, 58, 59, 60, 61, 62, 63]"
  by code_simp

lemma swapBytes_0: "swapBytes16 0 = 0" "swapBytes32 0 = 0"
  by (simp_all add: swapBytes16_def swapBytes32_def)

lemma swapBytes16_bytes:
  "swapBytes16 (ucast b0 OR push_bit 8 (ucast (b1 :: u8)))
     = push_bit 8 (ucast (b0 :: u8)) OR ucast b1" (is "?l = ?r")
proof -
  have "\<forall>n\<in>set [0..<16]. bit ?l n = bit ?r n"
    by (simp add: upt_16 swapBytes16_def bit_simps bit_u8_high)
  then show ?thesis by (intro bit_word_eqI) auto
qed

lemma swapBytes32_bytes:
  "swapBytes32 (ucast b0 OR push_bit 8 (ucast b1) OR push_bit 16 (ucast b2) OR push_bit 24 (ucast (b3 :: u8)))
   = push_bit 24 (ucast (b0 :: u8)) OR push_bit 16 (ucast (b1 :: u8)) OR push_bit 8 (ucast (b2 :: u8)) OR ucast b3"
  (is "?l = ?r")
proof -
  have "\<forall>n\<in>set [0..<32]. bit ?l n = bit ?r n"
    by (simp add: upt_32 swapBytes32_def bit_simps bit_u8_high)
  then show ?thesis by (intro bit_word_eqI) auto
qed

lemma swapBytes64_involutive: "swapBytes64 (swapBytes64 v) = v"
proof -
  have "\<forall>n\<in>set [0..<64]. bit (swapBytes64 (swapBytes64 v)) n = bit v n"
    by (simp add: upt_64 swapBytes64_def bit_simps)
  then show ?thesis by (intro bit_word_eqI) auto
qed

text \<open>Reading in the other byte order is reading and swapping.\<close>

lemma readU16_swapped:
  "readU16 False d off mx = obind (readU16 True d off mx) (\<lambda>(v, o'). Ret (swapBytes16 v, o'))"
  by (cases "byte_at d off"; cases "byte_at d (Suc off)")
    (auto simp: readU16_def swapBytes16_bytes swapBytes_0)

lemma readU32_swapped:
  "readU32 False d off mx = obind (readU32 True d off mx) (\<lambda>(v, o'). Ret (swapBytes32 v, o'))"
  by (cases "byte_at d off"; cases "byte_at d (off + 1)"; cases "byte_at d (off + 2)";
      cases "byte_at d (off + 3)")
    (auto simp: readU32_def swapBytes32_bytes swapBytes_0)

end
