(* ===== verification/ListSections.thy ===== *)
theory ListSections
  imports FixedWidth
begin

section \<open>What the range-list and location-list parsers share\<close>

text \<open>
  \<open>src/rnglists_parser.cpp\<close> and \<open>src/loclists_parser.cpp\<close> are two classes with the same state,
  the same throwing readers, the same header, the same offset-array and address-table lookups
  and the same bounded readers. This theory holds that shared part, with the class name (which
  occurs in the texts of the exceptions) as a parameter where it matters.
\<close>

subsection \<open>State and data\<close>

text \<open>
  The members of \<open>RngListsParser\<close> and \<open>LocListsParser\<close>. The pointer \<open>debug_addr_\<close> is an option.
\<close>

record list_parser =
  section_data :: bytes
  debug_addr :: "bytes option"
  addr_base :: nat
  addr_seg_size :: u8
  addr_entry_stride :: u8
  addr_end :: nat

record ListsHeader =
  unit_length :: u64
  version :: u16
  address_size :: u8
  segment_selector_size :: u8
  offset_entry_count :: u32
  header_size :: nat
  is_dwarf64 :: bool

definition new_list_parser :: "bytes \<Rightarrow> bytes \<Rightarrow> list_parser" where
  "new_list_parser sec addr =
     \<lparr>section_data = sec, debug_addr = Some addr, addr_base = 0, addr_seg_size = 0,
      addr_entry_stride = 0, addr_end = 0\<rparr>"

definition setDebugAddr :: "bytes \<Rightarrow> nat \<Rightarrow> u8 \<Rightarrow> u8 \<Rightarrow> nat \<Rightarrow> list_parser \<Rightarrow> list_parser" where
  "setDebugAddr addr base seg_size stride end_bound p =
     p\<lparr>debug_addr := Some addr, addr_base := base, addr_seg_size := seg_size,
       addr_entry_stride := stride, addr_end := end_bound\<rparr>"

subsection \<open>Throwing readers\<close>

definition past_end :: "string \<Rightarrow> 'a outcome" where
  "past_end cls = Throw (OutOfRange (cls @ '': read past end of section''))"

definition sec_readU8 :: "string \<Rightarrow> bytes \<Rightarrow> nat \<Rightarrow> (u8 \<times> nat) outcome" where
  "sec_readU8 cls d off =
     (if length d \<le> off then past_end cls else readU8 d off (length d))"

definition sec_readU16 :: "string \<Rightarrow> bool \<Rightarrow> bytes \<Rightarrow> nat \<Rightarrow> (u16 \<times> nat) outcome" where
  "sec_readU16 cls le d off =
     (if length d < u64_add off 2 then past_end cls else readU16 le d off (length d))"

definition sec_readU32 :: "string \<Rightarrow> bool \<Rightarrow> bytes \<Rightarrow> nat \<Rightarrow> (u32 \<times> nat) outcome" where
  "sec_readU32 cls le d off =
     (if length d < u64_add off 4 then past_end cls else readU32 le d off (length d))"

definition sec_readU64 :: "string \<Rightarrow> bool \<Rightarrow> bytes \<Rightarrow> nat \<Rightarrow> (u64 \<times> nat) outcome" where
  "sec_readU64 cls le d off =
     (if length d < u64_add off 8 then past_end cls else readU64 le d off (length d))"

definition widen32 :: "u32 \<times> nat \<Rightarrow> (u64 \<times> nat) outcome" where
  "widen32 r = Ret (ucast (fst r), snd r)"

definition sec_readAddress :: "string \<Rightarrow> bool \<Rightarrow> bytes \<Rightarrow> nat \<Rightarrow> u8 \<Rightarrow> (u64 \<times> nat) outcome" where
  "sec_readAddress cls le d off asz =
     (if asz = 4 then obind (sec_readU32 cls le d off) widen32 else sec_readU64 cls le d off)"

definition sec_readULEB128 :: "string \<Rightarrow> bytes \<Rightarrow> nat \<Rightarrow> (u64 \<times> nat) outcome" where
  "sec_readULEB128 cls d off =
     (if length d \<le> off then Throw (OutOfRange (cls @ '': ULEB128 read past end''))
      else readULEB128 d off (length d))"

definition sec_readSLEB128 :: "string \<Rightarrow> bytes \<Rightarrow> nat \<Rightarrow> (u64 \<times> nat) outcome" where
  "sec_readSLEB128 cls d off =
     (if length d \<le> off then Throw (OutOfRange (cls @ '': SLEB128 read past end''))
      else readSLEB128 d off (length d))"

subsection \<open>The unit header\<close>

definition parseHeader :: "string \<Rightarrow> bool \<Rightarrow> bytes \<Rightarrow> nat \<Rightarrow> (ListsHeader option \<times> nat) outcome" where
  "parseHeader cls le d start_offset =
     (if length d \<le> start_offset then Ret (None, start_offset)
      else
        obind (sec_readU32 cls le d start_offset) (\<lambda>(initial_length, off).
        obind (if initial_length = 0xffffffff
               then obind (sec_readU64 cls le d off) (\<lambda>(len, off). Ret ((True, len), off))
               else Ret ((False, ucast initial_length), off)) (\<lambda>((is64, len), off).
        obind (sec_readU16 cls le d off) (\<lambda>(ver, off).
          if ver \<noteq> 5 then Ret (None, off)
          else
            obind (sec_readU8 cls d off) (\<lambda>(asz, off).
            obind (sec_readU8 cls d off) (\<lambda>(seg, off).
            obind (sec_readU32 cls le d off) (\<lambda>(cnt, off).
              Ret (Some \<lparr>unit_length = len, version = ver, address_size = asz,
                         segment_selector_size = seg, offset_entry_count = cnt,
                         header_size = u64_sub off start_offset, is_dwarf64 = is64\<rparr>, off))))))))"

subsection \<open>The offset array and the address table\<close>

definition resolveListx ::
  "string \<Rightarrow> bool \<Rightarrow> bytes \<Rightarrow> nat \<Rightarrow> nat \<Rightarrow> bool \<Rightarrow> nat \<Rightarrow> nat \<Rightarrow> nat outcome" where
  "resolveListx cls le d index lists_base is64 offsets_end unit_end =
     (let offset_size = (if is64 then 8 else 4);
          offset_array_pos = u64_add lists_base (u64_mul index offset_size);
          bound_end = (if offsets_end \<noteq> 0 then offsets_end else length d);
          contrib_end = (if unit_end \<noteq> 0 then unit_end else length d)
      in if bound_end < u64_add offset_array_pos offset_size then Ret 0
         else
           obind (if is64 then sec_readU64 cls le d offset_array_pos
                  else obind (sec_readU32 cls le d offset_array_pos) widen32) (\<lambda>(list_offset, _).
             let abs = u64_add lists_base (unat list_offset)
             in if contrib_end \<le> abs then Ret 0
                else if length d \<le> abs then Ret 0
                else Ret abs))"

definition addr_field :: "list_parser \<Rightarrow> u8 \<Rightarrow> nat \<Rightarrow> nat" where
  "addr_field p asz index =
     (let stride = (if addr_entry_stride p \<noteq> 0 then unat (addr_entry_stride p) else unat asz);
          off = u64_add (addr_base p) (u64_mul index stride)
      in u64_add off (unat (addr_seg_size p)))"

definition resolveAddrx :: "bool \<Rightarrow> list_parser \<Rightarrow> nat \<Rightarrow> u8 \<Rightarrow> u64 outcome" where
  "resolveAddrx le p index asz =
     (case debug_addr p of
        None \<Rightarrow> Ret 0
      | Some d \<Rightarrow>
          if d = [] then Ret 0
          else
            let field = addr_field p asz index;
                bound = (if addr_end p \<noteq> 0 then addr_end p else length d)
            in if bound < u64_add field (unat asz) then Ret 0
               else if asz = 4
                 then obind (readU32 le d field (length d)) (\<lambda>(v, _). Ret (ucast v))
                 else obind (readU64 le d field (length d)) (\<lambda>(v, _). Ret v))"

subsection \<open>The bounded readers of a list\<close>

text \<open>
  The lambdas \<open>readU8B\<close> .. \<open>readBlockB\<close> of both list parsers: \<open>None\<close> when the value would not end
  before \<open>max\<close>. The offset after a failed \<open>readAddrB\<close> is the one the code leaves behind.
\<close>

definition checked :: "bool \<Rightarrow> nat \<Rightarrow> ('v \<times> nat) outcome \<Rightarrow> ('v option \<times> nat) outcome" where
  "checked fits off r = (if fits then obind r (\<lambda>(v, off'). Ret (Some v, off')) else Ret (None, off))"

definition readU8B :: "bytes \<Rightarrow> nat \<Rightarrow> nat \<Rightarrow> (u8 option \<times> nat) outcome" where
  "readU8B d off mx = checked (off < mx) off (readU8 d off mx)"

definition readU32B :: "bool \<Rightarrow> bytes \<Rightarrow> nat \<Rightarrow> nat \<Rightarrow> (u32 option \<times> nat) outcome" where
  "readU32B le d off mx = checked (u64_add off 4 \<le> mx) off (readU32 le d off mx)"

definition readU64B :: "bool \<Rightarrow> bytes \<Rightarrow> nat \<Rightarrow> nat \<Rightarrow> (u64 option \<times> nat) outcome" where
  "readU64B le d off mx = checked (u64_add off 8 \<le> mx) off (readU64 le d off mx)"

definition readULEB128B :: "bytes \<Rightarrow> nat \<Rightarrow> nat \<Rightarrow> (u64 option \<times> nat) outcome" where
  "readULEB128B d off mx = checked (off < mx) off (readULEB128 d off mx)"

definition readAddrB ::
  "bool \<Rightarrow> u8 \<Rightarrow> u8 \<Rightarrow> bytes \<Rightarrow> nat \<Rightarrow> nat \<Rightarrow> (u64 option \<times> nat) outcome" where
  "readAddrB le asz seg d off mx =
     (if seg \<noteq> 0 \<and> mx < u64_add off (unat seg) then Ret (None, off)
      else
        let off = (if seg \<noteq> 0 then off + unat seg else off)
        in if asz = 4 then
             obind (readU32B le d off mx) (\<lambda>(v, off'). Ret (map_option ucast v, off'))
           else if asz = 8 then readU64B le d off mx
           else Ret (None, off))"

text \<open>
  \<open>readBlockB\<close> allocates the block before copying, so a size beyond \<open>vector_max\<close> throws.
\<close>

fun copy_block :: "bytes \<Rightarrow> nat \<Rightarrow> nat \<Rightarrow> bytes outcome" where
  "copy_block d off 0 = Ret []"
| "copy_block d off (Suc n) =
     obind (byte_at d off) (\<lambda>b. obind (copy_block d (Suc off) n) (\<lambda>bs. Ret (b # bs)))"

definition readBlockB :: "nat \<Rightarrow> bytes \<Rightarrow> nat \<Rightarrow> nat \<Rightarrow> (bytes option \<times> nat) outcome" where
  "readBlockB sz d off mx =
     (if mx < u64_add off sz then Ret (None, off)
      else if vector_max < sz then Throw (LengthError ''cannot create std::vector larger than max_size()'')
      else obind (copy_block d off sz) (\<lambda>bs. Ret (Some bs, off + sz)))"

subsection \<open>The bounded readers meet the contract of a reader\<close>

context bounded_reader
begin

lemma checked_forward:
  "checked c off (rd d off mx) = Ret (v, off') \<Longrightarrow> off \<le> off'"
  by (auto simp: checked_def obind_eq_Ret split: if_splits dest: rd_forward)

lemma checked_bound:
  "mx \<le> vector_max \<Longrightarrow> off \<le> mx \<Longrightarrow> checked c off (rd d off mx) = Ret (v, off') \<Longrightarrow> off' \<le> mx"
  by (auto simp: checked_def obind_eq_Ret split: if_splits dest: rd_bound)

lemma checked_safe:
  "mx \<le> vector_max \<Longrightarrow> mx \<le> length d \<Longrightarrow> off \<le> mx \<Longrightarrow> mem_safe (checked c off (rd d off mx))"
  by (auto simp: checked_def intro!: rd_then_safe)

end

lemmas checked_readers = readU8B_def readU32B_def readU64B_def readULEB128B_def

interpretation u8b: bounded_reader readU8B
  unfolding checked_readers
  by unfold_locales (blast intro: u8_reader.checked_forward u8_reader.checked_bound u8_reader.checked_safe)+

interpretation u32b: bounded_reader "readU32B le" for le
  unfolding checked_readers
  by unfold_locales (blast intro: u32_reader.checked_forward u32_reader.checked_bound u32_reader.checked_safe)+

interpretation u64b: bounded_reader "readU64B le" for le
  unfolding checked_readers
  by unfold_locales (blast intro: u64_reader.checked_forward u64_reader.checked_bound u64_reader.checked_safe)+

interpretation ulebb: bounded_reader readULEB128B
  unfolding checked_readers
  by unfold_locales (blast intro: uleb_reader.checked_forward uleb_reader.checked_bound uleb_reader.checked_safe)+

lemma seg_below:
  assumes "u64_add off (unat (seg :: u8)) \<le> mx" and "off \<le> mx" and "mx \<le> vector_max"
  shows "u64_add off (unat seg) = off + unat seg" and "off + unat seg \<le> mx"
proof -
  show "u64_add off (unat seg) = off + unat seg"
    using assms(2,3) unat_u8_bound [of seg] by (simp add: vector_max_numeral)
  with assms(1) show "off + unat seg \<le> mx" by simp
qed

lemma readAddrB_no_seg:
  "readAddrB le asz 0 d off mx =
     (if asz = 4 then obind (readU32B le d off mx) (\<lambda>(v, off'). Ret (map_option ucast v, off'))
      else if asz = 8 then readU64B le d off mx else Ret (None, off))"
  by (simp add: readAddrB_def)

lemma readAddrB_seg:
  "readAddrB le asz seg d off mx =
     (if seg \<noteq> 0 \<and> mx < u64_add off (unat seg) then Ret (None, off)
      else readAddrB le asz 0 d (off + unat seg) mx)"
  by (simp add: readAddrB_def)

interpretation addr_no_seg: bounded_reader "readAddrB le asz 0" for le asz
proof unfold_locales
  fix mx off d v off'
  assume r: "readAddrB le asz 0 d off mx = Ret (v, off')"
  then show "off \<le> off'"
    using u32b.rd_forward [of le d off mx] u64b.rd_forward [of le d off mx]
    unfolding readAddrB_no_seg by (fastforce simp: obind_eq_Ret split: if_splits)
  assume a: "mx \<le> vector_max" "off \<le> mx"
  show "off' \<le> mx"
    using a r u32b.rd_bound [OF a] u64b.rd_bound [OF a]
    unfolding readAddrB_no_seg by (fastforce simp: obind_eq_Ret split: if_splits)
next
  fix mx off and d :: bytes
  assume a: "mx \<le> vector_max" "mx \<le> length d" "off \<le> mx"
  show "mem_safe (readAddrB le asz 0 d off mx)"
    unfolding readAddrB_no_seg using u64b.rd_safe [OF a, of le]
    by (simp add: u32b.rd_then_safe [OF a])
qed

lemma readAddrB_split:
  obtains "readAddrB le asz seg d off mx = Ret (None, off)"
  | "seg = 0 \<or> u64_add off (unat seg) \<le> mx"
    and "readAddrB le asz seg d off mx = readAddrB le asz 0 d (off + unat seg) mx"
proof (cases "seg \<noteq> 0 \<and> mx < u64_add off (unat seg)")
  case True
  then show ?thesis using that(1) by (simp add: readAddrB_def)
next
  case False
  have "readAddrB le asz seg d off mx = readAddrB le asz 0 d (off + unat seg) mx"
    by (simp only: readAddrB_seg [of le asz seg d off mx] if_not_P [OF False])
  then show ?thesis using that(2) False by (auto simp: not_less)
qed

interpretation addrb: bounded_reader "readAddrB le asz seg" for le asz seg
proof unfold_locales
  fix mx off d v off'
  assume r: "readAddrB le asz seg d off mx = Ret (v, off')"
  show "off \<le> off'"
  proof (cases rule: readAddrB_split [of le asz seg d off mx])
    case 2
    then have "off + unat seg \<le> off'" using r addr_no_seg.rd_forward by metis
    then show ?thesis by simp
  qed (use r in simp)
  assume a: "mx \<le> vector_max" "off \<le> mx"
  show "off' \<le> mx"
  proof (cases rule: readAddrB_split [of le asz seg d off mx])
    case 2
    have "off + unat seg \<le> mx" using 2(1) a seg_below(2) [of off seg mx] by (elim disjE) simp_all
    with 2(2) r a show ?thesis using addr_no_seg.rd_bound by metis
  qed (use a r in simp)
next
  fix mx off and d :: bytes
  assume a: "mx \<le> vector_max" "mx \<le> length d" "off \<le> mx"
  show "mem_safe (readAddrB le asz seg d off mx)"
  proof (cases rule: readAddrB_split [of le asz seg d off mx])
    case 2
    have "off + unat seg \<le> mx" using 2(1) a seg_below(2) [of off seg mx] by (elim disjE) simp_all
    with 2(2) a show ?thesis using addr_no_seg.rd_safe by metis
  qed simp
qed

lemma copy_block_window:
  "off + n \<le> length d \<Longrightarrow> copy_block d off n = Ret (window d off n)"
  by (induction n arbitrary: off) (auto simp: window_Suc)

lemma readBlockB_fits:
  assumes "off \<le> mx" and "mx \<le> vector_max" and "u64_add off n \<le> mx" and "n \<le> vector_max"
  shows "off + n \<le> mx"
  using assms by (simp add: u64_add_def vector_max_numeral)

interpretation blockb: bounded_reader "readBlockB n" for n
proof unfold_locales
  fix mx off d v off'
  assume r: "readBlockB n d off mx = Ret (v, off')"
  then show "off \<le> off'"
    by (auto simp: readBlockB_def obind_eq_Ret split: if_splits)
  assume "mx \<le> vector_max" "off \<le> mx"
  with r show "off' \<le> mx"
    by (auto simp: readBlockB_def obind_eq_Ret not_less split: if_splits dest: readBlockB_fits)
next
  fix mx off and d :: bytes
  assume "mx \<le> vector_max" "mx \<le> length d" "off \<le> mx"
  then show "mem_safe (readBlockB n d off mx)"
    using readBlockB_fits [of off mx n] copy_block_window [of off n d]
    by (auto simp: readBlockB_def)
qed

lemmas list_reader_then_safe =
  u8b.rd_then_safe u32b.rd_then_safe u64b.rd_then_safe ulebb.rd_then_safe addrb.rd_then_safe
  blockb.rd_then_safe

subsection \<open>The throwing readers\<close>

text \<open>A throwing reader is the plain reader bounded by the section, behind a check.\<close>

lemmas sec_readers = sec_readU8_def sec_readU16_def sec_readU32_def sec_readU64_def past_end_def

lemma sec_readU32_in:
  assumes "off + 4 \<le> length d" and "length d \<le> vector_max"
  shows "sec_readU32 cls le d off = readU32 le d off (length d)"
  using u64_add_below [OF assms] assms by (simp add: sec_readU32_def)

lemma sec_readU64_in:
  assumes "off + 8 \<le> length d" and "length d \<le> vector_max"
  shows "sec_readU64 cls le d off = readU64 le d off (length d)"
  using u64_add_below [OF assms] assms by (simp add: sec_readU64_def)

lemma sec_readU16_in:
  assumes "off + 2 \<le> length d" and "length d \<le> vector_max"
  shows "sec_readU16 cls le d off = readU16 le d off (length d)"
  using u64_add_below [OF assms] assms by (simp add: sec_readU16_def)

lemma sec_readU8_in: "off < length d \<Longrightarrow> sec_readU8 cls d off = Ret (d ! off, Suc off)"
  by (simp add: sec_readU8_def readU8_value)

lemmas sec_in = sec_readU8_in sec_readU16_in sec_readU32_in sec_readU64_in

subsection \<open>The header\<close>

text \<open>The DWARF 5 encoding of a header.\<close>

definition header_encode :: "bool \<Rightarrow> ListsHeader \<Rightarrow> bytes" where
  "header_encode le h =
     (if is_dwarf64 h
      then [255, 255, 255, 255] @ ordered le (le_bytes 8 (unat (unit_length h)))
      else ordered le (le_bytes 4 (unat (unit_length h))))
     @ ordered le (le_bytes 2 (unat (version h)))
     @ [address_size h, segment_selector_size h]
     @ ordered le (le_bytes 4 (unat (offset_entry_count h)))"

lemma length_header_encode: "length (header_encode le h) = (if is_dwarf64 h then 20 else 12)"
  by (simp add: header_encode_def)

lemma le_bytes_4:
  "le_bytes 4 n = [word_of_nat n, word_of_nat (n div 256), word_of_nat (n div 256 div 256),
     word_of_nat (n div 256 div 256 div 256)]"
proof -
  have "4 = Suc (Suc (Suc (Suc 0)))" by simp
  then show ?thesis by (simp only: le_bytes.simps)
qed

lemma le_bytes_ff: "ordered le (le_bytes 4 (unat (0xffffffff :: u32))) = [255, 255, 255, 255]"
  by (simp add: ordered_def le_bytes_4)

text \<open>\<open>within n m\<close>: \<open>m\<close> is memory safe and leaves its offset at most \<open>n\<close>.\<close>

definition within :: "nat \<Rightarrow> ('v \<times> nat) outcome \<Rightarrow> bool" where
  "within n m \<longleftrightarrow> mem_safe m \<and> (\<forall>v off. m = Ret (v, off) \<longrightarrow> off \<le> n)"

lemma within_Ret: "off \<le> n \<Longrightarrow> within n (Ret (v, off))"
  by (simp add: within_def)

lemma within_obind:
  "within n m \<Longrightarrow> (\<And>v off. off \<le> n \<Longrightarrow> within n (f (v, off))) \<Longrightarrow> within n (obind m f)"
  by (cases m) (auto simp: within_def mem_safe_def)

lemma within_obind_split:
  "within n m \<Longrightarrow> (\<And>v off. off \<le> n \<Longrightarrow> within n (f v off)) \<Longrightarrow> within n (obind m (\<lambda>(v, off). f v off))"
  by (rule within_obind) auto

lemma within_pair: "(\<And>a b. within n (g a b off)) \<Longrightarrow> within n ((case v of (a, b) \<Rightarrow> g a b) off)"
  by (cases v) auto

lemma within_if: "(c \<Longrightarrow> within n a) \<Longrightarrow> (\<not> c \<Longrightarrow> within n b) \<Longrightarrow> within n (if c then a else b)"
  by simp

context bounded_reader
begin

lemma rd_within:
  "mx \<le> vector_max \<Longrightarrow> mx \<le> length d \<Longrightarrow> off \<le> mx \<Longrightarrow> within mx (rd d off mx)"
  by (auto simp: within_def dest: rd_bound rd_safe)

end

lemma sec_within:
  assumes "length d \<le> vector_max" and "off \<le> length d"
  shows "within (length d) (sec_readU8 cls d off)" "within (length d) (sec_readU16 cls le d off)"
    "within (length d) (sec_readU32 cls le d off)" "within (length d) (sec_readU64 cls le d off)"
    "within (length d) (sec_readAddress cls le d off asz)"
    "within (length d) (sec_readULEB128 cls d off)" "within (length d) (sec_readSLEB128 cls d off)"
proof -
  have thr: "within (length d) (Throw e)" for e :: cxx_exn by (simp add: within_def)
  note rds = u8_reader.rd_within u16_reader.rd_within u32_reader.rd_within u64_reader.rd_within
    uleb_reader.rd_within sleb_reader.rd_within
  show "within (length d) (sec_readU8 cls d off)" "within (length d) (sec_readU16 cls le d off)"
    and u32: "within (length d) (sec_readU32 cls le d off)"
    and u64: "within (length d) (sec_readU64 cls le d off)"
    and "within (length d) (sec_readULEB128 cls d off)" "within (length d) (sec_readSLEB128 cls d off)"
    using assms by (auto simp: sec_readers sec_readULEB128_def sec_readSLEB128_def intro: thr rds)
  show "within (length d) (sec_readAddress cls le d off asz)"
    unfolding sec_readAddress_def
    by (intro within_if within_obind u32 u64) (simp add: widen32_def within_Ret)
qed

lemma parseHeader_within:
  assumes "length d \<le> vector_max" and "off \<le> length d"
  shows "within (length d) (parseHeader cls le d off)"
  unfolding parseHeader_def
  using assms
  by (intro within_if within_Ret within_pair within_obind_split sec_within; assumption?)

lemma unat_ucast_u32: "unat (w :: u64) < 2 ^ 32 \<Longrightarrow> unat (ucast w :: u32) = unat w"
  by (simp add: unsigned_ucast_eq take_bit_nat_eq_self)

lemma ucast_u32_back: "unat (w :: u64) < 2 ^ 32 \<Longrightarrow> ucast (ucast w :: u32) = w"
  by (rule word_unat_eq_iff [THEN iffD2], subst unsigned_ucast_eq, subst unat_ucast_u32)
    (simp_all add: take_bit_nat_eq_self)

lemma header_encoded_tail:
  assumes "encoded_at d off (header_encode le h)"
  shows "encoded_at d (off + (if is_dwarf64 h then 12 else 4)) (ordered le (le_bytes 2 (unat (version h))))"
    and "encoded_at d (off + (if is_dwarf64 h then 12 else 4) + 2) [address_size h, segment_selector_size h]"
    and "encoded_at d (off + (if is_dwarf64 h then 12 else 4) + 4)
           (ordered le (le_bytes 4 (unat (offset_entry_count h))))"
proof -
  let ?pre = "if is_dwarf64 h then [255, 255, 255, 255] @ ordered le (le_bytes 8 (unat (unit_length h)))
      else ordered le (le_bytes 4 (unat (unit_length h)))"
  have len: "length ?pre = (if is_dwarf64 h then 12 else 4)" by simp
  have two: "length [address_size h, segment_selector_size h] = 2" by simp
  have add4: "(x :: nat) + 2 + 2 = x + 4" for x by simp
  note split = assms [unfolded header_encode_def encoded_at_append len two length_ordered length_le_bytes add4]
  show "encoded_at d (off + (if is_dwarf64 h then 12 else 4)) (ordered le (le_bytes 2 (unat (version h))))"
    and "encoded_at d (off + (if is_dwarf64 h then 12 else 4) + 2) [address_size h, segment_selector_size h]"
    and "encoded_at d (off + (if is_dwarf64 h then 12 else 4) + 4)
           (ordered le (le_bytes 4 (unat (offset_entry_count h))))"
    using split by blast+
qed

text \<open>
  A header written in the DWARF 5 layout (either byte order, 32- or 64-bit format) is read
  back exactly, and the offset ends up just behind it.
\<close>

theorem parseHeader_roundtrip:
  assumes enc: "encoded_at d off (header_encode le h)" and d: "length d \<le> vector_max"
    and ver: "version h = 5" and len: "is_dwarf64 h \<or> unat (unit_length h) < 0xffffffff"
    and size: "header_size h = length (header_encode le h)"
  shows "parseHeader cls le d off = Ret (Some h, off + length (header_encode le h))"
proof -
  have room: "off + length (header_encode le h) \<le> length d" using enc by (rule encoded_at_length)
  have off: "\<not> length d \<le> off" using room length_header_encode [of le h] by (auto split: if_splits)
  define n where "n = (if is_dwarf64 h then 12 else 4 :: nat)"
  have len_n: "length (header_encode le h) = n + 8" by (simp add: length_header_encode n_def)
  note rest = header_encoded_tail [OF enc, folded n_def]
  note room' = room [unfolded len_n]
  have tail: "sec_readU16 cls le d (off + n) = Ret (5, off + n + 2)"
    "sec_readU8 cls d (off + n + 2) = Ret (address_size h, off + n + 3)"
    "sec_readU8 cls d (off + n + 3) = Ret (segment_selector_size h, off + n + 4)"
    "sec_readU32 cls le d (off + n + 4) = Ret (offset_entry_count h, off + n + 8)"
    using rest room' d ver readU16_encoded [OF rest(1) _ order_refl d] readU32_encoded [OF rest(3) _ order_refl d]
    by (auto simp: sec_readU16_in sec_readU32_in sec_readU8_in encoded_at_Cons numeral_3_eq_3)
  have hs: "u64_sub (off + n + 8) off = header_size h"
    using room' d size len_n by (simp add: vector_max_numeral)
  have hd: "obind (sec_readU32 cls le d off) (\<lambda>(initial_length, o1).
      obind (if initial_length = 0xffffffff
             then obind (sec_readU64 cls le d o1) (\<lambda>(len, o2). Ret ((True, len), o2))
             else Ret ((False, ucast initial_length), o1)) f)
    = f ((is_dwarf64 h, unit_length h), off + n)" for f :: "_ \<Rightarrow> (ListsHeader option \<times> nat) outcome"
  proof (cases "is_dwarf64 h")
    case True
    have "length [255, 255, 255, 255 :: u8] = 4" by simp
    then have e: "encoded_at d off (ordered le (le_bytes 4 (unat (0xffffffff :: u32))))"
      "encoded_at d (off + 4) (ordered le (le_bytes 8 (unat (unit_length h))))"
      using enc by (simp_all only: le_bytes_ff header_encode_def if_P [OF True] append_assoc encoded_at_append)
    have "sec_readU32 cls le d off = Ret (0xffffffff, off + 4)"
      using readU32_encoded [OF e(1) _ order_refl d] room' True d
      by (simp add: sec_readU32_in n_def)
    moreover have "sec_readU64 cls le d (off + 4) = Ret (unit_length h, off + 12)"
      using readU64_encoded [OF e(2) _ order_refl d] room' True d
      by (simp add: sec_readU64_in n_def)
    ultimately show ?thesis using True by (simp add: n_def)
  next
    case False
    let ?u = "ucast (unit_length h) :: u32"
    have u: "unat ?u = unat (unit_length h)" "ucast ?u = unit_length h" "?u \<noteq> 0xffffffff"
      using False len unat_ucast_u32 [of "unit_length h"] ucast_u32_back [of "unit_length h"]
      by (auto dest: arg_cong [where f = unat])
    have e: "encoded_at d off (ordered le (le_bytes 4 (unat ?u)))"
      using enc False u(1) by (simp add: header_encode_def encoded_at_append)
    have "sec_readU32 cls le d off = Ret (?u, off + 4)"
      using readU32_encoded [OF e _ order_refl d] room' False d
      by (simp add: sec_readU32_in n_def)
    then show ?thesis using False u by (simp add: n_def)
  qed
  show ?thesis
    unfolding parseHeader_def if_not_P [OF off] hd
    by (simp only: tail hs len_n obind.simps prod.case if_False not_True_eq_False simp_thms)
      (simp add: ver [symmetric])
qed

theorem parseHeader_roundtrip_witness:
  "parseHeader ''RngListsParser'' True [8, 0, 0, 0, 5, 0, 8, 0, 0, 0, 0, 0] 0 =
     Ret (Some \<lparr>unit_length = 8, version = 5, address_size = 8, segment_selector_size = 0,
               offset_entry_count = 0, header_size = 12, is_dwarf64 = False\<rparr>, 12)"
proof -
  let ?h = "\<lparr>unit_length = 8, version = 5, address_size = 8, segment_selector_size = 0,
            offset_entry_count = 0, header_size = 12, is_dwarf64 = False\<rparr>"
  have two: "le_bytes 2 n = [word_of_nat n, word_of_nat (n div 256)]" for n
    using le_bytes.simps by (simp add: numeral_2_eq_2)
  have enc: "header_encode True ?h = [8, 0, 0, 0, 5, 0, 8, 0, 0, 0, 0, 0]"
    by (simp add: header_encode_def ordered_def le_bytes_4 two)
  show ?thesis
    using parseHeader_roundtrip [of "header_encode True ?h" 0 True ?h "''RngListsParser''"]
    by (simp add: enc encoded_at_def vector_max_numeral)
qed

subsection \<open>The offset array\<close>



lemma readU32_nowrap_safe: "off + 3 < 2 ^ 64 \<Longrightarrow> mem_safe (readU32 le d off (length d))"
  by (simp add: readU32_def)

lemma readU64_nowrap_safe: "off + 7 < 2 ^ 64 \<Longrightarrow> mem_safe (readU64 le d off (length d))"
  using readU64_be_loop_safe [of 8 off d 0]
  by (auto simp: readU64_def simp del: readU64_be_loop.simps)

text \<open>The width of a slot of the offset array.\<close>

definition offset_width :: "bool \<Rightarrow> nat" where
  "offset_width is64 = (if is64 then 8 else 4)"

text \<open>The slot of an index in the offset array does not wrap.\<close>

definition slot_in_range :: "nat \<Rightarrow> nat \<Rightarrow> bool \<Rightarrow> bool" where
  "slot_in_range index lists_base is64 \<longleftrightarrow>
     lists_base + index * offset_width is64 + 8 \<le> 2 ^ 64"

text \<open>
  As long as the slot's address does not wrap around 64 bits, the lookup reads only bytes of
  the section, whatever the index and the two bounds are; a slot outside the section ends in the
  value 0 or in an exception.
\<close>

lemma resolveListx_safe:
  assumes "slot_in_range index lists_base is64"
  shows "mem_safe (resolveListx cls le d index lists_base is64 offsets_end unit_end)"
proof (cases is64)
  case True
  with assms have e: "u64_add lists_base (u64_mul index 8) = lists_base + index * 8"
    by (simp add: slot_in_range_def offset_width_def)
  have "mem_safe (sec_readU64 cls le d (lists_base + index * 8))"
    using assms True readU64_nowrap_safe [of "lists_base + index * 8" le d]
    by (simp add: sec_readU64_def past_end_def slot_in_range_def offset_width_def)
  with True e show ?thesis
    by (auto simp: resolveListx_def Let_def intro!: mem_safe_obind)
next
  case False
  with assms have e: "u64_add lists_base (u64_mul index 4) = lists_base + index * 4"
    by (simp add: slot_in_range_def offset_width_def)
  have "mem_safe (sec_readU32 cls le d (lists_base + index * 4))"
    using assms False readU32_nowrap_safe [of "lists_base + index * 4" le d]
    by (simp add: sec_readU32_def past_end_def slot_in_range_def offset_width_def)
  with False e show ?thesis
    by (auto simp: resolveListx_def Let_def widen32_def intro!: mem_safe_obind)
qed



text \<open>
  An index inside the offset array is resolved to the base plus the stored offset,
  provided that this lands inside the contribution.
\<close>

theorem resolveListx_entry:
  assumes enc: "encoded_at d (lists_base + index * offset_width is64) (ordered le (le_bytes (offset_width is64) (unat (stored :: u64))))"
    and d: "length d \<le> vector_max"
    and slot: "lists_base + index * offset_width is64 + offset_width is64 \<le> offsets_end" "offsets_end \<le> length d"
    and narrow: "is64 \<or> unat stored < 2 ^ 32"
    and target: "lists_base + unat stored < unit_end" "unit_end \<le> length d"
  shows "resolveListx cls le d index lists_base is64 offsets_end unit_end = Ret (lists_base + unat stored)"
proof -
  have big: "length d < 9223372036854775808" using d by (simp add: vector_max_numeral)
  have abs: "u64_add lists_base (unat stored) = lists_base + unat stored"
    using target big by simp
  let ?pos = "lists_base + index * offset_width is64"
  have pos: "u64_add lists_base (u64_mul index (offset_width is64)) = ?pos" "u64_add ?pos (offset_width is64) = ?pos + offset_width is64"
    using slot big by (simp_all add: offset_width_def)
  have fits: "?pos + offset_width is64 \<le> length d" using slot by simp
  have rd: "(if is64 then sec_readU64 cls le d ?pos else obind (sec_readU32 cls le d ?pos) widen32)
      = Ret (stored, ?pos + offset_width is64)"
  proof (cases is64)
    case True
    with enc fits show ?thesis using readU64_encoded [OF _ _ order_refl d, of ?pos le stored] d
      by (simp add: sec_readU64_in offset_width_def)
  next
    case False
    then have u: "unat (ucast stored :: u32) = unat stored" "ucast (ucast stored :: u32) = stored"
      using narrow unat_ucast_u32 [of stored] ucast_u32_back [of stored] by auto
    from False enc fits show ?thesis
      using readU32_encoded [OF _ _ order_refl d, of ?pos le "ucast stored"] d u
      by (simp add: sec_readU32_in offset_width_def widen32_def)
  qed
  show ?thesis
    using slot target pos rd
    by (cases is64) (simp_all add: resolveListx_def Let_def offset_width_def abs)
qed

theorem resolveListx_entry_witness:
  "resolveListx ''RngListsParser'' True [0, 0, 4, 0, 0, 0, 9, 9] 0 2 False 6 8 = Ret 6"
proof -
  have "resolveListx ''RngListsParser'' True [0, 0, 4, 0, 0, 0, 9, 9] 0 2 False 6 8 = Ret (2 + unat (4 :: u64))"
    by (rule resolveListx_entry)
      (simp_all add: encoded_at_def offset_width_def ordered_def le_bytes_4 vector_max_numeral)
  then show ?thesis by simp
qed

subsection \<open>The address table\<close>

text \<open>
  A table whose base, entry size and segment size are multiples of the address size, as in
  every \<open>.debug_addr\<close> contribution with 4- or 8-byte addresses and no segment selectors.
\<close>

definition addr_table_aligned :: "list_parser \<Rightarrow> u8 \<Rightarrow> bool" where
  "addr_table_aligned p asz \<longleftrightarrow>
     (asz = 4 \<or> asz = 8) \<and> unat asz dvd addr_base p \<and>
     unat asz dvd unat (addr_entry_stride p) \<and> unat asz dvd unat (addr_seg_size p)"

lemma addr_field_dvd:
  assumes "addr_table_aligned p asz"
  shows "unat asz dvd addr_field p asz index"
proof -
  have k: "unat asz dvd 2 ^ 64" using assms by (auto simp: addr_table_aligned_def)
  then show ?thesis
    using assms
    by (auto simp: addr_table_aligned_def addr_field_def Let_def u64_add_def u64_mul_def
        intro!: dvd_mod dvd_add dvd_mult)
qed

lemma dvd_below_top:
  assumes "(k :: nat) dvd a" and "k dvd m" and "a < m"
  shows "a + k \<le> m"
proof -
  from assms(1) obtain i where i: "a = k * i" by (elim dvdE)
  from assms(2) obtain j where j: "m = k * j" by (elim dvdE)
  from assms(3) i j have "Suc i \<le> j" by (simp add: Suc_le_eq)
  then have "k * Suc i \<le> k * j" by (rule mult_le_mono2)
  with i j show ?thesis by simp
qed

text \<open>
  With an aligned address table, resolving any index whatsoever reads only bytes of the
  table: every index beyond the end gives the value 0.
\<close>

theorem resolveAddrx_safe:
  assumes "addr_table_aligned p asz"
  shows "mem_safe (resolveAddrx le p index asz)"
proof (cases "debug_addr p")
  case (Some d)
  let ?f = "addr_field p asz index"
  have lt: "?f < 2 ^ 64" by (simp add: addr_field_def Let_def u64_add_def)
  have dvd: "unat asz dvd 2 ^ 64" using assms by (auto simp: addr_table_aligned_def)
  have top: "?f + unat asz \<le> 2 ^ 64"
    using dvd_below_top [OF addr_field_dvd [OF assms] dvd lt] .
  consider "asz = 4" | "asz = 8" using assms by (auto simp: addr_table_aligned_def)
  then show ?thesis
  proof cases
    case 1
    with top have "mem_safe (readU32 le d ?f (length d))" by (intro readU32_nowrap_safe) simp
    with 1 show ?thesis by (auto simp: resolveAddrx_def Some Let_def intro!: mem_safe_obind)
  next
    case 2
    with top have "mem_safe (readU64 le d ?f (length d))" by (intro readU64_nowrap_safe) simp
    with 2 show ?thesis by (auto simp: resolveAddrx_def Some Let_def intro!: mem_safe_obind)
  qed
qed (simp add: resolveAddrx_def)

theorem resolveAddrx_safe_witness:
  "mem_safe (resolveAddrx True (setDebugAddr [1, 2, 3, 4] 8 0 0 0 (new_list_parser [] [])) (2 ^ 64 - 1) 4)"
  by (rule resolveAddrx_safe) (simp add: addr_table_aligned_def setDebugAddr_def new_list_parser_def)



text \<open>
  An index inside the table is resolved to the address stored in its entry, behind the
  entry's segment selector.
\<close>

theorem resolveAddrx_entry:
  assumes tab: "debug_addr p = Some d" and d: "length d \<le> vector_max"
    and asz: "asz = 4 \<or> asz = 8" and narrow: "asz = 8 \<or> unat stored < 2 ^ 32"
    and stride: "addr_entry_stride p \<noteq> 0" and bound: "addr_end p \<noteq> 0" "addr_end p \<le> length d"
    and slot: "addr_base p + index * unat (addr_entry_stride p) + unat (addr_seg_size p) + unat asz \<le> addr_end p"
    and enc: "encoded_at d (addr_base p + index * unat (addr_entry_stride p) + unat (addr_seg_size p))
               (ordered le (le_bytes (unat asz) (unat (stored :: u64))))"
  shows "resolveAddrx le p index asz = Ret stored"
proof -
  let ?f = "addr_base p + index * unat (addr_entry_stride p) + unat (addr_seg_size p)"
  have big: "length d < 9223372036854775808" using d by (simp add: vector_max_numeral)
  have f: "addr_field p asz index = ?f" "u64_add ?f (unat asz) = ?f + unat asz"
    using slot bound big stride by (simp_all add: addr_field_def Let_def)
  have ne: "d \<noteq> []" using bound by auto
  from asz show ?thesis
  proof
    assume a: "asz = 4"
    then have "unat stored < 2 ^ 32" using narrow by auto
    then have u: "unat (ucast stored :: u32) = unat stored" "ucast (ucast stored :: u32) = stored"
      by (rule unat_ucast_u32, rule ucast_u32_back)
    have "readU32 le d ?f (length d) = Ret (ucast stored, ?f + 4)"
      using enc a u slot bound by (intro readU32_encoded [OF _ _ order_refl d]) simp_all
    with a f tab ne slot bound u show ?thesis by (simp add: resolveAddrx_def)
  next
    assume a: "asz = 8"
    have "readU64 le d ?f (length d) = Ret (stored, ?f + 8)"
      using enc a slot bound by (intro readU64_encoded [OF _ _ order_refl d]) simp_all
    with a f tab ne slot bound show ?thesis by (simp add: resolveAddrx_def)
  qed
qed

theorem resolveAddrx_entry_witness:
  "resolveAddrx True (setDebugAddr [0, 0, 0, 0, 0, 16, 0, 0] 0 0 4 8 (new_list_parser [] [])) 1 4 = Ret 4096"
  by (rule resolveAddrx_entry [where d = "[0, 0, 0, 0, 0, 16, 0, 0]"])
    (simp_all add: setDebugAddr_def new_list_parser_def encoded_at_def ordered_def le_bytes_4 vector_max_numeral)

subsection \<open>Reading back what a list contains\<close>

text \<open>One round of a list parser: stop, or an entry with the base and the offset after it.\<close>

datatype 'e list_step = Stop | Entry 'e u64 nat

text \<open>
  \<open>max\<close> of both parsers: the section's size, or \<open>end_offset\<close> when that is given and smaller.
\<close>

definition list_max :: "bytes \<Rightarrow> nat \<Rightarrow> nat" where
  "list_max d end_offset = (if end_offset \<noteq> 0 then min (length d) end_offset else length d)"

lemma list_max_le: "list_max d e \<le> length d"
  by (simp add: list_max_def)

text \<open>\<open>if (!v) return entries;\<close>: the continuation gets the operand, or the parser stops.\<close>

definition need :: "'v option \<Rightarrow> ('v \<Rightarrow> 'e list_step outcome) \<Rightarrow> 'e list_step outcome" where
  "need v f = (case v of None \<Rightarrow> Ret Stop | Some x \<Rightarrow> f x)"

lemma need_simps [simp]: "need None f = Ret Stop" "need (Some x) f = f x"
  by (simp_all add: need_def)

text \<open>
  A round moves on from \<open>lo\<close>; it is memory safe and stops at \<open>mx\<close>. The second property needs the
  bound to lie in the buffer, the first holds without it and gives termination.
\<close>

definition step_from :: "nat \<Rightarrow> 'e list_step outcome \<Rightarrow> bool" where
  "step_from lo m \<longleftrightarrow> (\<forall>e b off. m = Ret (Entry e b off) \<longrightarrow> lo \<le> off)"

definition step_within :: "nat \<Rightarrow> 'e list_step outcome \<Rightarrow> bool" where
  "step_within mx m \<longleftrightarrow> mem_safe m \<and> (\<forall>e b off. m = Ret (Entry e b off) \<longrightarrow> off \<le> mx)"

named_theorems step_rules

lemma step_from_simps [step_rules]:
  "step_from lo (Ret Stop)" "lo \<le> off \<Longrightarrow> step_from lo (Ret (Entry e b off))"
  by (simp_all add: step_from_def)

lemma step_within_simps [step_rules]:
  "step_within mx (Ret Stop)" "off \<le> mx \<Longrightarrow> step_within mx (Ret (Entry e b off))"
  by (simp_all add: step_within_def)

lemma step_need [step_rules]:
  "(\<And>x. v = Some x \<Longrightarrow> step_from lo (f x)) \<Longrightarrow> step_from lo (need v f)"
  "(\<And>x. v = Some x \<Longrightarrow> step_within mx (f x)) \<Longrightarrow> step_within mx (need v f)"
  by (cases v; simp add: step_rules)+

lemma step_from_obind:
  "(\<And>x. m = Ret x \<Longrightarrow> step_from lo (f x)) \<Longrightarrow> step_from lo (obind m f)"
  by (cases m) (auto simp: step_from_def)

lemma step_within_obind:
  "mem_safe m \<Longrightarrow> (\<And>x. m = Ret x \<Longrightarrow> step_within mx (f x)) \<Longrightarrow> step_within mx (obind m f)"
  by (cases m) (auto simp: step_within_def mem_safe_def)

context bounded_reader
begin

lemma rd_step_from:
  assumes "lo \<le> off" and "\<And>v off'. off \<le> off' \<Longrightarrow> step_from lo (f v off')"
  shows "step_from lo (obind (rd d off mx) (\<lambda>(v, off'). f v off'))"
  using assms by (intro step_from_obind) (auto dest: rd_forward)

lemma rd_step_within:
  assumes "mx \<le> vector_max" and "mx \<le> length d" and "off \<le> mx"
    and "\<And>v off'. off' \<le> mx \<Longrightarrow> step_within mx (f v off')"
  shows "step_within mx (obind (rd d off mx) (\<lambda>(v, off'). f v off'))"
  using assms by (intro step_within_obind) (auto intro: rd_safe dest: rd_bound)

end

lemma type_byte_step:
  "(\<And>t. off < mx \<Longrightarrow> step_from (Suc off) (f t (Suc off))) \<Longrightarrow>
     step_from (Suc off) (obind (readU8B d off mx) (\<lambda>(t, off'). need t (\<lambda>x. f x off')))"
  "mx \<le> length d \<Longrightarrow> (\<And>t. off < mx \<Longrightarrow> step_within mx (f t (Suc off))) \<Longrightarrow>
     step_within mx (obind (readU8B d off mx) (\<lambda>(t, off'). need t (\<lambda>x. f x off')))"
  by (auto simp: readU8B_def checked_def readU8_def byte_at_def step_rules step_from_def split: if_splits)

lemma addrx_step:
  "(\<And>b. step_from lo (g b)) \<Longrightarrow> step_from lo (obind (resolveAddrx le p i asz) g)"
  "addr_table_aligned p asz \<Longrightarrow> (\<And>b. step_within mx (g b)) \<Longrightarrow>
     step_within mx (obind (resolveAddrx le p i asz) g)"
  by (rule step_from_obind, simp) (rule step_within_obind, rule resolveAddrx_safe, simp_all)

lemmas list_readers_step_from = ulebb.rd_step_from addrb.rd_step_from blockb.rd_step_from
  type_byte_step(1) addrx_step(1)
lemmas list_readers_step_within =
  ulebb.rd_step_within addrb.rd_step_within blockb.rd_step_within
  type_byte_step(2) addrx_step(2)

definition addr_encode :: "bool \<Rightarrow> u8 \<Rightarrow> u8 \<Rightarrow> u64 \<Rightarrow> bytes" where
  "addr_encode le asz seg a = replicate (unat seg) 0 @ ordered le (le_bytes (unat asz) (unat a))"

definition addr_fits :: "u8 \<Rightarrow> u64 \<Rightarrow> bool" where
  "addr_fits asz a \<longleftrightarrow> asz = 8 \<or> asz = 4 \<and> unat a < 2 ^ 32"

lemma readULEB128B_encoded:
  assumes "encoded_at d off (uleb_encode n)" and "off + length (uleb_encode n) \<le> mx" and "n < 2 ^ 31"
  shows "readULEB128B d off mx = Ret (Some (word_of_nat n), off + length (uleb_encode n))"
proof -
  have "off < mx" using assms(2) uleb_encode_nonempty [of n] by linarith
  then show ?thesis
    using assms readULEB128_encode [OF assms(1,2)] scast_u32_u64 [of n]
    by (simp add: readULEB128B_def checked_def)
qed

lemma readU32B_encoded:
  assumes "encoded_at d off (ordered le (le_bytes 4 (unat v)))" and "off + 4 \<le> mx" and "mx \<le> length d"
    and "mx \<le> vector_max"
  shows "readU32B le d off mx = Ret (Some v, off + 4)"
  using readU32_encoded [OF assms] assms u64_add_below [of off 4 mx] by (simp add: readU32B_def checked_def)

lemma readU64B_encoded:
  assumes "encoded_at d off (ordered le (le_bytes 8 (unat v)))" and "off + 8 \<le> mx" and "mx \<le> length d"
    and "mx \<le> vector_max"
  shows "readU64B le d off mx = Ret (Some v, off + 8)"
  using readU64_encoded [OF assms] assms u64_add_below [of off 8 mx] by (simp add: readU64B_def checked_def)

lemma readAddrB_encoded:
  assumes enc: "encoded_at d off (addr_encode le asz seg a)"
    and room: "off + length (addr_encode le asz seg a) \<le> mx"
    and mx: "mx \<le> length d" "mx \<le> vector_max" and fits: "addr_fits asz a"
  shows "readAddrB le asz seg d off mx = Ret (Some a, off + length (addr_encode le asz seg a))"
proof -
  let ?o = "off + unat seg"
  have len: "length (addr_encode le asz seg a) = unat seg + unat asz" by (simp add: addr_encode_def)
  have e: "encoded_at d ?o (ordered le (le_bytes (unat asz) (unat a)))"
    using enc by (simp add: addr_encode_def encoded_at_append)
  have "u64_add off (unat seg) = ?o" using u64_add_below [of off "unat seg" mx] room len mx by simp
  then have seg: "\<not> (seg \<noteq> 0 \<and> mx < u64_add off (unat seg))" using room len by simp
  have "readAddrB le asz 0 d ?o mx = Ret (Some a, ?o + unat asz)"
  proof (cases "asz = 8")
    case True
    then show ?thesis
      using e room len mx readU64B_encoded [of d ?o le a mx] by (simp add: readAddrB_no_seg)
  next
    case False
    with fits have a: "asz = 4" "unat a < 2 ^ 32" by (auto simp: addr_fits_def)
    have u: "unat (ucast a :: u32) = unat a" "ucast (ucast a :: u32) = a"
      using unat_ucast_u32 [OF a(2)] ucast_u32_back [OF a(2)] by auto
    show ?thesis
      using e room len mx a u readU32B_encoded [of d ?o le "ucast a" mx] by (simp add: readAddrB_no_seg)
  qed
  with seg show ?thesis
    by (simp only: readAddrB_seg [of le asz seg d off mx] if_False len add.assoc)
qed

lemma readBlockB_encoded:
  assumes "encoded_at d off bs" and "off + length bs \<le> mx" and "mx \<le> vector_max"
  shows "readBlockB (length bs) d off mx = Ret (Some bs, off + length bs)"
  using assms u64_add_below [OF assms(2,3)] encoded_at_length [OF assms(1)]
  by (simp add: readBlockB_def copy_block_window encoded_window)

lemma readU8B_in: "off < mx \<Longrightarrow> mx \<le> length d \<Longrightarrow> readU8B d off mx = Ret (Some (d ! off), Suc off)"
  by (simp add: readU8B_def checked_def readU8_value)

lemma readU8B_SomeD: "readU8B d off mx = Ret (Some t, off') \<Longrightarrow> off < mx \<and> off' = Suc off"
  by (auto simp: readU8B_def checked_def obind_eq_Ret readU8_def split: if_splits)

end
