(* ===== verification/RngLists.thy ===== *)
theory RngLists
  imports ListSections
begin

section \<open>Range lists (\<open>src/rnglists_parser.cpp\<close>)\<close>

text \<open>
  \<open>RngListsParser\<close>: the instances of the shared header and offset lookups, and the parser of a
  list of \<open>DW_RLE\<close> entries. The parser is compared with the encoding of the DWARF standard: a
  source list is written out byte by byte, and parsing the bytes gives the entries that the
  source list denotes.
\<close>

subsection \<open>Data\<close>

datatype DW_RLE =
    DW_RLE_end_of_list | DW_RLE_base_addressx | DW_RLE_startx_endx | DW_RLE_startx_length
  | DW_RLE_offset_pair | DW_RLE_base_address | DW_RLE_start_end | DW_RLE_start_length

text \<open>\<open>static_cast<DW_RLE>(entry_type)\<close>; \<open>None\<close> is a value without a case in the switch.\<close>

definition rle_of :: "u8 \<Rightarrow> DW_RLE option" where
  "rle_of t =
     (if t = 0x00 then Some DW_RLE_end_of_list
      else if t = 0x01 then Some DW_RLE_base_addressx
      else if t = 0x02 then Some DW_RLE_startx_endx
      else if t = 0x03 then Some DW_RLE_startx_length
      else if t = 0x04 then Some DW_RLE_offset_pair
      else if t = 0x05 then Some DW_RLE_base_address
      else if t = 0x06 then Some DW_RLE_start_end
      else if t = 0x07 then Some DW_RLE_start_length
      else None)"

record RngListEntry =
  rng_type :: DW_RLE
  rng_start :: u64
  rng_end :: u64
  is_base_address :: bool

definition rng_entry :: "DW_RLE \<Rightarrow> u64 \<Rightarrow> u64 \<Rightarrow> RngListEntry" where
  "rng_entry t s e = \<lparr>rng_type = t, rng_start = s, rng_end = e, is_base_address = False\<rparr>"

definition rng_base_entry :: "DW_RLE \<Rightarrow> u64 \<Rightarrow> RngListEntry" where
  "rng_base_entry t b = \<lparr>rng_type = t, rng_start = b, rng_end = b, is_base_address = True\<rparr>"

subsection \<open>The header and the offset array\<close>

definition rng_parseHeader :: "bool \<Rightarrow> list_parser \<Rightarrow> nat \<Rightarrow> (ListsHeader option \<times> nat) outcome" where
  "rng_parseHeader le p off = parseHeader ''RngListsParser'' le (section_data p) off"

definition resolveRngListx ::
  "bool \<Rightarrow> list_parser \<Rightarrow> nat \<Rightarrow> nat \<Rightarrow> nat \<Rightarrow> bool \<Rightarrow> nat \<Rightarrow> nat \<Rightarrow> nat outcome" where
  "resolveRngListx le p index header_offset rnglists_base is64 offsets_end unit_end =
     resolveListx ''RngListsParser'' le (section_data p) index rnglists_base is64 offsets_end unit_end"

subsection \<open>The list parser\<close>

text \<open>One round of the loop. Two operands of one entry are both read before either is tested.\<close>

definition rng_step ::
  "bool \<Rightarrow> list_parser \<Rightarrow> u8 \<Rightarrow> u8 \<Rightarrow> nat \<Rightarrow> u64 \<Rightarrow> nat \<Rightarrow> RngListEntry list_step outcome" where
  "rng_step le p asz seg mx base off =
     (let d = section_data p in
      obind (readU8B d off mx) (\<lambda>(t, off). need t (\<lambda>entry_type.
      case rle_of entry_type of
        None \<Rightarrow> Ret Stop
      | Some t \<Rightarrow> (case t of
          DW_RLE_end_of_list \<Rightarrow> Ret Stop
        | DW_RLE_base_addressx \<Rightarrow>
            obind (readULEB128B d off mx) (\<lambda>(index, off). need index (\<lambda>index.
            obind (resolveAddrx le p (unat index) asz) (\<lambda>b.
              Ret (Entry (rng_base_entry t b) b off))))
        | DW_RLE_startx_endx \<Rightarrow>
            obind (readULEB128B d off mx) (\<lambda>(i, off).
            obind (readULEB128B d off mx) (\<lambda>(j, off). need i (\<lambda>i. need j (\<lambda>j.
            obind (resolveAddrx le p (unat i) asz) (\<lambda>s.
            obind (resolveAddrx le p (unat j) asz) (\<lambda>e.
              Ret (Entry (rng_entry t s e) base off)))))))
        | DW_RLE_startx_length \<Rightarrow>
            obind (readULEB128B d off mx) (\<lambda>(i, off).
            obind (readULEB128B d off mx) (\<lambda>(len, off). need i (\<lambda>i. need len (\<lambda>len.
            obind (resolveAddrx le p (unat i) asz) (\<lambda>s.
              Ret (Entry (rng_entry t s (s + len)) base off))))))
        | DW_RLE_offset_pair \<Rightarrow>
            obind (readULEB128B d off mx) (\<lambda>(s, off).
            obind (readULEB128B d off mx) (\<lambda>(e, off). need s (\<lambda>s. need e (\<lambda>e.
              Ret (Entry (rng_entry t (base + s) (base + e)) base off)))))
        | DW_RLE_base_address \<Rightarrow>
            obind (readAddrB le asz seg d off mx) (\<lambda>(b, off). need b (\<lambda>b.
              Ret (Entry (rng_base_entry t b) b off)))
        | DW_RLE_start_end \<Rightarrow>
            obind (readAddrB le asz seg d off mx) (\<lambda>(s, off).
            obind (readAddrB le asz seg d off mx) (\<lambda>(e, off). need s (\<lambda>s. need e (\<lambda>e.
              Ret (Entry (rng_entry t s e) base off)))))
        | DW_RLE_start_length \<Rightarrow>
            obind (readAddrB le asz seg d off mx) (\<lambda>(s, off).
            obind (readULEB128B d off mx) (\<lambda>(len, off). need s (\<lambda>s. need len (\<lambda>len.
              Ret (Entry (rng_entry t s (s + len)) base off)))))))))"

lemma rng_step_from: "step_from (Suc off) (rng_step le p asz seg mx base off)"
  unfolding rng_step_def Let_def
  by (auto split: option.split DW_RLE.split intro!: step_rules list_readers_step_from)

lemma rng_step_within:
  assumes "mx \<le> vector_max" and "mx \<le> length (section_data p)" and "addr_table_aligned p asz"
  shows "step_within mx (rng_step le p asz seg mx base off)"
  unfolding rng_step_def Let_def
  using assms
  by (auto split: option.split DW_RLE.split intro!: step_rules list_readers_step_within)

function parseRangeList_loop ::
  "bool \<Rightarrow> list_parser \<Rightarrow> u8 \<Rightarrow> u8 \<Rightarrow> nat \<Rightarrow> u64 \<Rightarrow> nat \<Rightarrow> RngListEntry list outcome" where
  "parseRangeList_loop le p asz seg mx base off =
     (if off < mx then
        obind (rng_step le p asz seg mx base off) (\<lambda>r. case r of
          Stop \<Rightarrow> Ret []
        | Entry e base' off' \<Rightarrow>
            obind (parseRangeList_loop le p asz seg mx base' off') (\<lambda>es. Ret (e # es)))
      else Ret [])"
  by pat_completeness auto
termination
proof (relation "measure (\<lambda>(le, p, asz, seg, mx, base, off). mx - off)")
  fix le p asz seg mx base off r e base' off'
  assume "off < mx" "rng_step le p asz seg mx base off = Ret r" "r = Entry e base' off'"
  then show "((le, p, asz, seg, mx, base', off'), le, p, asz, seg, mx, base, off)
      \<in> measure (\<lambda>(le, p, asz, seg, mx, base, off). mx - off)"
    using rng_step_from [of off le p asz seg mx base] by (auto simp: step_from_def)
qed simp

declare parseRangeList_loop.simps [simp del]

definition parseRangeList ::
  "bool \<Rightarrow> list_parser \<Rightarrow> nat \<Rightarrow> u64 \<Rightarrow> u8 \<Rightarrow> nat \<Rightarrow> u8 \<Rightarrow> RngListEntry list outcome" where
  "parseRangeList le p off base_address asz end_offset seg =
     parseRangeList_loop le p asz seg (list_max (section_data p) end_offset) base_address off"

subsection \<open>Memory safety\<close>

lemma parseRangeList_loop_safe:
  "mx \<le> vector_max \<Longrightarrow> mx \<le> length (section_data p) \<Longrightarrow> addr_table_aligned p asz \<Longrightarrow>
     mem_safe (parseRangeList_loop le p asz seg mx base off)"
proof (induction le p asz seg mx base off rule: parseRangeList_loop.induct)
  case (1 le p asz seg mx base off)
  have st: "mem_safe (rng_step le p asz seg mx base off)"
    using rng_step_within [OF "1.prems"] by (simp add: step_within_def)
  show ?case
    by (subst parseRangeList_loop.simps)
      (auto intro!: mem_safe_obind st "1.IH" "1.prems" split: list_step.split)
qed



subsection \<open>What a list denotes\<close>

text \<open>
  A range list of the standard, its bytes and its meaning: \<open>rle_entry\<close> is the entry that a list
  element denotes under a base address, and a base-selecting element changes the base of the
  elements after it. Address-table indices are resolved by the parser's own table.
\<close>

datatype rle =
    RBaseAddressx nat | RStartxEndx nat nat | RStartxLength nat nat | ROffsetPair nat nat
  | RBaseAddress u64 | RStartEnd u64 u64 | RStartLength u64 nat

fun rle_encode :: "bool \<Rightarrow> u8 \<Rightarrow> u8 \<Rightarrow> rle \<Rightarrow> bytes" where
  "rle_encode le asz seg (RBaseAddressx i) = 1 # uleb_encode i"
| "rle_encode le asz seg (RStartxEndx i j) = 2 # uleb_encode i @ uleb_encode j"
| "rle_encode le asz seg (RStartxLength i n) = 3 # uleb_encode i @ uleb_encode n"
| "rle_encode le asz seg (ROffsetPair s e) = 4 # uleb_encode s @ uleb_encode e"
| "rle_encode le asz seg (RBaseAddress a) = 5 # addr_encode le asz seg a"
| "rle_encode le asz seg (RStartEnd a b) = 6 # addr_encode le asz seg a @ addr_encode le asz seg b"
| "rle_encode le asz seg (RStartLength a n) = 7 # addr_encode le asz seg a @ uleb_encode n"

definition uleb_fits :: "nat \<Rightarrow> bool" where
  "uleb_fits n \<longleftrightarrow> n < 2 ^ 31"

fun rle_fits :: "u8 \<Rightarrow> rle \<Rightarrow> bool" where
  "rle_fits asz (RBaseAddressx i) = uleb_fits i"
| "rle_fits asz (RStartxEndx i j) = (uleb_fits i \<and> uleb_fits j)"
| "rle_fits asz (RStartxLength i n) = (uleb_fits i \<and> uleb_fits n)"
| "rle_fits asz (ROffsetPair s e) = (uleb_fits s \<and> uleb_fits e)"
| "rle_fits asz (RBaseAddress a) = addr_fits asz a"
| "rle_fits asz (RStartEnd a b) = (addr_fits asz a \<and> addr_fits asz b)"
| "rle_fits asz (RStartLength a n) = (addr_fits asz a \<and> uleb_fits n)"

fun rle_entry :: "(nat \<Rightarrow> u64 outcome) \<Rightarrow> u64 \<Rightarrow> rle \<Rightarrow> RngListEntry outcome" where
  "rle_entry addrx base (RBaseAddressx i) =
     obind (addrx i) (\<lambda>b. Ret (rng_base_entry DW_RLE_base_addressx b))"
| "rle_entry addrx base (RStartxEndx i j) =
     obind (addrx i) (\<lambda>s. obind (addrx j) (\<lambda>e. Ret (rng_entry DW_RLE_startx_endx s e)))"
| "rle_entry addrx base (RStartxLength i n) =
     obind (addrx i) (\<lambda>s. Ret (rng_entry DW_RLE_startx_length s (s + word_of_nat n)))"
| "rle_entry addrx base (ROffsetPair s e) =
     Ret (rng_entry DW_RLE_offset_pair (base + word_of_nat s) (base + word_of_nat e))"
| "rle_entry addrx base (RBaseAddress a) = Ret (rng_base_entry DW_RLE_base_address a)"
| "rle_entry addrx base (RStartEnd a b) = Ret (rng_entry DW_RLE_start_end a b)"
| "rle_entry addrx base (RStartLength a n) =
     Ret (rng_entry DW_RLE_start_length a (a + word_of_nat n))"

definition rng_next_base :: "u64 \<Rightarrow> RngListEntry \<Rightarrow> u64" where
  "rng_next_base base e = (if is_base_address e then rng_start e else base)"

fun rle_denote :: "(nat \<Rightarrow> u64 outcome) \<Rightarrow> u64 \<Rightarrow> rle list \<Rightarrow> RngListEntry list outcome" where
  "rle_denote addrx base [] = Ret []"
| "rle_denote addrx base (r # rs) =
     obind (rle_entry addrx base r) (\<lambda>e.
     obind (rle_denote addrx (rng_next_base base e) rs) (\<lambda>es. Ret (e # es)))"

definition rles_encode :: "bool \<Rightarrow> u8 \<Rightarrow> u8 \<Rightarrow> rle list \<Rightarrow> bytes" where
  "rles_encode le asz seg rs = concat (map (rle_encode le asz seg) rs)"

lemma unat_uleb_fits: "uleb_fits n \<Longrightarrow> unat (word_of_nat n :: u64) = n"
  by (simp add: uleb_fits_def unsigned_of_nat take_bit_nat_eq_self)

lemma uleb_entry_encoded:
  "encoded_at d off (uleb_encode n) \<Longrightarrow> off + length (uleb_encode n) \<le> mx \<Longrightarrow> uleb_fits n \<Longrightarrow>
     readULEB128B d off mx = Ret (Some (word_of_nat n), off + length (uleb_encode n))"
  by (simp add: uleb_fits_def readULEB128B_encoded)

lemmas rle_operands = uleb_entry_encoded readAddrB_encoded unat_uleb_fits

lemma rle_of_cases:
  "rle_of 0 = Some DW_RLE_end_of_list" "rle_of 1 = Some DW_RLE_base_addressx"
  "rle_of 2 = Some DW_RLE_startx_endx" "rle_of 3 = Some DW_RLE_startx_length"
  "rle_of 4 = Some DW_RLE_offset_pair" "rle_of 5 = Some DW_RLE_base_address"
  "rle_of 6 = Some DW_RLE_start_end" "rle_of 7 = Some DW_RLE_start_length"
  by (simp_all add: rle_of_def)

text \<open>One round on one encoded element.\<close>

lemma rng_step_encoded:
  assumes enc: "encoded_at (section_data p) off (rle_encode le asz seg r)"
    and room: "off + length (rle_encode le asz seg r) \<le> mx"
    and mx: "mx \<le> length (section_data p)" "mx \<le> vector_max" and fits: "rle_fits asz r"
  shows "rng_step le p asz seg mx base off =
     obind (rle_entry (\<lambda>i. resolveAddrx le p i asz) base r) (\<lambda>e.
       Ret (Entry e (rng_next_base base e) (off + length (rle_encode le asz seg r))))"
proof -
  have lt: "off < mx" using room by (cases r) auto
  have "readU8B (section_data p) off mx = Ret (Some (section_data p ! off), Suc off)"
    using lt mx by (simp add: readU8B_in)
  then show ?thesis
    using enc room mx fits
    by (cases r)
      (auto simp: rng_step_def encoded_at_Cons encoded_at_append rle_of_cases rle_operands
        rng_next_base_def rng_base_entry_def rng_entry_def obind_assoc add.assoc)
qed

lemma rle_encode_nonempty: "0 < length (rle_encode le asz seg r)"
  by (cases r) auto

lemma parseRangeList_loop_encoded:
  assumes "encoded_at (section_data p) off (rles_encode le asz seg rs)"
    and "off + length (rles_encode le asz seg rs) \<le> mx"
    and "mx \<le> length (section_data p)" and "mx \<le> vector_max" and "list_all (rle_fits asz) rs"
    and "off + length (rles_encode le asz seg rs) = mx
      \<or> section_data p ! (off + length (rles_encode le asz seg rs)) = 0"
  shows "parseRangeList_loop le p asz seg mx base off =
     rle_denote (\<lambda>i. resolveAddrx le p i asz) base rs"
  using assms
proof (induction rs arbitrary: off base)
  case Nil
  show ?case
  proof (cases "off < mx")
    case True
    with Nil have "section_data p ! off = 0" by (simp add: rles_encode_def)
    with True Nil.prems(3) have "rng_step le p asz seg mx base off = Ret Stop"
      by (simp add: rng_step_def readU8B_in rle_of_cases)
    with True show ?thesis by (simp add: parseRangeList_loop.simps)
  qed (simp add: parseRangeList_loop.simps)
next
  case (Cons r rs)
  let ?n = "length (rle_encode le asz seg r)"
  have enc: "rles_encode le asz seg (r # rs) = rle_encode le asz seg r @ rles_encode le asz seg rs"
    by (simp add: rles_encode_def)
  have lt: "off < mx" using Cons.prems(2) rle_encode_nonempty [of le asz seg r] unfolding enc length_append by linarith
  have step: "rng_step le p asz seg mx base off =
     obind (rle_entry (\<lambda>i. resolveAddrx le p i asz) base r) (\<lambda>e.
       Ret (Entry e (rng_next_base base e) (off + ?n)))"
    using Cons.prems by (intro rng_step_encoded) (auto simp: enc encoded_at_append)
  have IH: "parseRangeList_loop le p asz seg mx b (off + ?n)
      = rle_denote (\<lambda>i. resolveAddrx le p i asz) b rs" for b
    using Cons.prems by (intro Cons.IH) (auto simp: enc encoded_at_append add.assoc)
  show ?case
    using lt by (subst parseRangeList_loop.simps) (simp add: step obind_assoc IH)
qed

text \<open>
  C19: parsing the bytes of a terminated range list gives exactly the entries that the list
  denotes: each element's addresses, and the base address in force at each element.
\<close>

theorem parseRangeList_encoded:
  assumes "encoded_at (section_data p) off (rles_encode le asz seg rs @ [0])"
    and "length (section_data p) \<le> vector_max" and "list_all (rle_fits asz) rs"
    and "end_offset = 0 \<or> off + length (rles_encode le asz seg rs) \<le> end_offset"
  shows "parseRangeList le p off base asz end_offset seg =
     rle_denote (\<lambda>i. resolveAddrx le p i asz) base rs"
  unfolding parseRangeList_def
proof (rule parseRangeList_loop_encoded)
  have "off + length (rles_encode le asz seg rs) < length (section_data p)"
    using assms(1) by (simp add: encoded_at_append encoded_at_Cons)
  then show "off + length (rles_encode le asz seg rs) \<le> list_max (section_data p) end_offset"
    using assms(4) by (auto simp: list_max_def)
qed (use assms list_max_le [of "section_data p" end_offset] in
    \<open>auto simp: encoded_at_append encoded_at_Cons\<close>)

theorem parseRangeList_encoded_witness:
  "parseRangeList True (new_list_parser [5, 0, 16, 0, 0, 4, 2, 5, 0] []) 0 0 4 0 0 =
     Ret [rng_base_entry DW_RLE_base_address 4096, rng_entry DW_RLE_offset_pair 4098 4101]"
proof -
  have enc: "rles_encode True 4 0 [RBaseAddress 4096, ROffsetPair 2 5] = [5, 0, 16, 0, 0, 4, 2, 5]"
    by (simp add: rles_encode_def addr_encode_def ordered_def le_bytes_4 uleb_encode.simps)
  show ?thesis
    by (subst parseRangeList_encoded [where rs = "[RBaseAddress 4096, ROffsetPair 2 5]"])
      (simp_all add: enc new_list_parser_def encoded_at_def vector_max_numeral addr_fits_def
        uleb_fits_def rng_base_entry_def rng_entry_def rng_next_base_def)
qed

subsection \<open>The size of the result\<close>

lemma parseRangeList_loop_count:
  "parseRangeList_loop le p asz seg mx base off = Ret es \<Longrightarrow> length es \<le> mx - off"
proof (induction le p asz seg mx base off arbitrary: es rule: parseRangeList_loop.induct)
  case (1 le p asz seg mx base off)
  show ?case
  proof (cases "off < mx")
    case True
    with "1.prems" obtain r where r: "rng_step le p asz seg mx base off = Ret r"
      and rest: "(case r of Stop \<Rightarrow> Ret [] | Entry e base' off' \<Rightarrow>
        obind (parseRangeList_loop le p asz seg mx base' off') (\<lambda>es. Ret (e # es))) = Ret es"
      by (subst (asm) parseRangeList_loop.simps) (auto elim: obind_RetE)
    show ?thesis
    proof (cases r)
      case (Entry e base' off')
      with r have "Suc off \<le> off'" using rng_step_from [of off le p asz seg mx base] by (simp add: step_from_def)
      moreover from rest Entry obtain es' where "parseRangeList_loop le p asz seg mx base' off' = Ret es'"
        and "es = e # es'" by (auto elim: obind_RetE)
      ultimately show ?thesis using "1.IH" [OF True r Entry] True by fastforce
    qed (use rest in simp)
  qed (use "1.prems" in \<open>simp add: parseRangeList_loop.simps\<close>)
qed

text \<open>
  The number of entries never exceeds the number of bytes from the start offset to the end
  of the section: the loop makes progress on every input.
\<close>

lemma parseRangeList_count:
  assumes "parseRangeList le p off base asz end_offset seg = Ret es"
  shows "length es \<le> length (section_data p) - off"
  using parseRangeList_loop_count [OF assms [unfolded parseRangeList_def]]
    list_max_le [of "section_data p" end_offset] by linarith

end
