(* ===== verification/LocLists.thy ===== *)
theory LocLists
  imports RngLists
begin

section \<open>Location lists (\<open>src/loclists_parser.cpp\<close>)\<close>

text \<open>
  \<open>LocListsParser\<close>: as \<open>RngListsParser\<close>, with a DWARF expression behind every element that is
  not a base selection, and a default element. The expression is a counted block, and the block
  reader allocates before it copies: a length that only fits because \<open>off + size\<close> wrapped ends in
  \<open>std::length_error\<close>, which none of the callers expects.
\<close>

subsection \<open>Data\<close>

datatype DW_LLE =
    DW_LLE_end_of_list | DW_LLE_base_addressx | DW_LLE_startx_endx | DW_LLE_startx_length
  | DW_LLE_offset_pair | DW_LLE_default_location | DW_LLE_base_address | DW_LLE_start_end
  | DW_LLE_start_length

text \<open>\<open>static_cast<DW_LLE>(entry_type)\<close>; \<open>None\<close> is a value without a case in the switch.\<close>

definition lle_of :: "u8 \<Rightarrow> DW_LLE option" where
  "lle_of t =
     (if t = 0x00 then Some DW_LLE_end_of_list
      else if t = 0x01 then Some DW_LLE_base_addressx
      else if t = 0x02 then Some DW_LLE_startx_endx
      else if t = 0x03 then Some DW_LLE_startx_length
      else if t = 0x04 then Some DW_LLE_offset_pair
      else if t = 0x05 then Some DW_LLE_default_location
      else if t = 0x06 then Some DW_LLE_base_address
      else if t = 0x07 then Some DW_LLE_start_end
      else if t = 0x08 then Some DW_LLE_start_length
      else None)"

record LocListEntry =
  loc_type :: DW_LLE
  loc_start :: u64
  loc_end :: u64
  loc_expression :: bytes
  is_default :: bool

definition loc_entry :: "DW_LLE \<Rightarrow> u64 \<Rightarrow> u64 \<Rightarrow> bytes \<Rightarrow> LocListEntry" where
  "loc_entry t s e ex =
     \<lparr>loc_type = t, loc_start = s, loc_end = e, loc_expression = ex,
      is_default = (t = DW_LLE_default_location)\<rparr>"

subsection \<open>The header, the offset array and the block reader\<close>

definition loc_parseHeader :: "bool \<Rightarrow> list_parser \<Rightarrow> nat \<Rightarrow> (ListsHeader option \<times> nat) outcome" where
  "loc_parseHeader le p off = parseHeader ''LocListsParser'' le (section_data p) off"

definition resolveLocListx ::
  "bool \<Rightarrow> list_parser \<Rightarrow> nat \<Rightarrow> nat \<Rightarrow> nat \<Rightarrow> bool \<Rightarrow> nat \<Rightarrow> nat \<Rightarrow> nat outcome" where
  "resolveLocListx le p index header_offset loclists_base is64 offsets_end unit_end =
     resolveListx ''LocListsParser'' le (section_data p) index loclists_base is64 offsets_end unit_end"

definition readBlock :: "bytes \<Rightarrow> nat \<Rightarrow> nat \<Rightarrow> (bytes \<times> nat) outcome" where
  "readBlock d off sz =
     (if length d < u64_add off sz then Throw (OutOfRange ''LocListsParser: block read past end'')
      else if vector_max < sz then Throw (LengthError ''cannot create std::vector larger than max_size()'')
      else obind (copy_block d off sz) (\<lambda>bs. Ret (bs, off + sz)))"

subsection \<open>The list parser\<close>

text \<open>The counted expression that ends an element, and the entry made of it.\<close>

definition with_expr ::
  "bytes \<Rightarrow> nat \<Rightarrow> nat \<Rightarrow> u64 \<Rightarrow> (bytes \<Rightarrow> LocListEntry) \<Rightarrow> LocListEntry list_step outcome" where
  "with_expr d mx off base mk =
     obind (readULEB128B d off mx) (\<lambda>(len, off). need len (\<lambda>len.
     obind (readBlockB (unat len) d off mx) (\<lambda>(ex, off). need ex (\<lambda>ex.
       Ret (Entry (mk ex) base off)))))"

definition loc_step ::
  "bool \<Rightarrow> list_parser \<Rightarrow> u8 \<Rightarrow> u8 \<Rightarrow> nat \<Rightarrow> u64 \<Rightarrow> nat \<Rightarrow> LocListEntry list_step outcome" where
  "loc_step le p asz seg mx base off =
     (let d = section_data p in
      obind (readU8B d off mx) (\<lambda>(t, off). need t (\<lambda>entry_type.
      case lle_of entry_type of
        None \<Rightarrow> Ret Stop
      | Some t \<Rightarrow> (case t of
          DW_LLE_end_of_list \<Rightarrow> Ret Stop
        | DW_LLE_base_addressx \<Rightarrow>
            obind (readULEB128B d off mx) (\<lambda>(index, off). need index (\<lambda>index.
            obind (resolveAddrx le p (unat index) asz) (\<lambda>b.
              Ret (Entry (loc_entry t b b []) b off))))
        | DW_LLE_startx_endx \<Rightarrow>
            obind (readULEB128B d off mx) (\<lambda>(i, off).
            obind (readULEB128B d off mx) (\<lambda>(j, off). need i (\<lambda>i. need j (\<lambda>j.
            obind (resolveAddrx le p (unat i) asz) (\<lambda>s.
            obind (resolveAddrx le p (unat j) asz) (\<lambda>e.
              with_expr d mx off base (loc_entry t s e)))))))
        | DW_LLE_startx_length \<Rightarrow>
            obind (readULEB128B d off mx) (\<lambda>(i, off).
            obind (readULEB128B d off mx) (\<lambda>(len, off). need i (\<lambda>i. need len (\<lambda>len.
            obind (resolveAddrx le p (unat i) asz) (\<lambda>s.
              with_expr d mx off base (loc_entry t s (s + len)))))))
        | DW_LLE_offset_pair \<Rightarrow>
            obind (readULEB128B d off mx) (\<lambda>(s, off).
            obind (readULEB128B d off mx) (\<lambda>(e, off). need s (\<lambda>s. need e (\<lambda>e.
              with_expr d mx off base (loc_entry t (base + s) (base + e))))))
        | DW_LLE_default_location \<Rightarrow>
            with_expr d mx off base (loc_entry t 0 0xffffffffffffffff)
        | DW_LLE_base_address \<Rightarrow>
            obind (readAddrB le asz seg d off mx) (\<lambda>(b, off). need b (\<lambda>b.
              Ret (Entry (loc_entry t b b []) b off)))
        | DW_LLE_start_end \<Rightarrow>
            obind (readAddrB le asz seg d off mx) (\<lambda>(s, off).
            obind (readAddrB le asz seg d off mx) (\<lambda>(e, off). need s (\<lambda>s. need e (\<lambda>e.
              with_expr d mx off base (loc_entry t s e)))))
        | DW_LLE_start_length \<Rightarrow>
            obind (readAddrB le asz seg d off mx) (\<lambda>(s, off).
            obind (readULEB128B d off mx) (\<lambda>(len, off). need s (\<lambda>s. need len (\<lambda>len.
              with_expr d mx off base (loc_entry t s (s + len))))))))))"

lemma with_expr_step:
  "lo \<le> off \<Longrightarrow> step_from lo (with_expr d mx off base mk)"
  "mx \<le> vector_max \<Longrightarrow> mx \<le> length d \<Longrightarrow> off \<le> mx \<Longrightarrow> step_within mx (with_expr d mx off base mk)"
  unfolding with_expr_def
  by (auto intro!: step_rules list_readers_step_from) (auto intro!: step_rules list_readers_step_within)

lemma loc_step_from: "step_from (Suc off) (loc_step le p asz seg mx base off)"
  unfolding loc_step_def Let_def
  by (auto split: option.split DW_LLE.split intro!: step_rules with_expr_step(1) list_readers_step_from)

lemma loc_step_within:
  assumes "mx \<le> vector_max" and "mx \<le> length (section_data p)" and "addr_table_aligned p asz"
  shows "step_within mx (loc_step le p asz seg mx base off)"
  unfolding loc_step_def Let_def
  using assms
  by (auto split: option.split DW_LLE.split intro!: step_rules with_expr_step(2) list_readers_step_within)

function parseLocationList_loop ::
  "bool \<Rightarrow> list_parser \<Rightarrow> u8 \<Rightarrow> u8 \<Rightarrow> nat \<Rightarrow> u64 \<Rightarrow> nat \<Rightarrow> LocListEntry list outcome" where
  "parseLocationList_loop le p asz seg mx base off =
     (if off < mx then
        obind (loc_step le p asz seg mx base off) (\<lambda>r. case r of
          Stop \<Rightarrow> Ret []
        | Entry e base' off' \<Rightarrow>
            obind (parseLocationList_loop le p asz seg mx base' off') (\<lambda>es. Ret (e # es)))
      else Ret [])"
  by pat_completeness auto
termination
proof (relation "measure (\<lambda>(le, p, asz, seg, mx, base, off). mx - off)")
  fix le p asz seg mx base off r e base' off'
  assume "off < mx" "loc_step le p asz seg mx base off = Ret r" "r = Entry e base' off'"
  then show "((le, p, asz, seg, mx, base', off'), le, p, asz, seg, mx, base, off)
      \<in> measure (\<lambda>(le, p, asz, seg, mx, base, off). mx - off)"
    using loc_step_from [of off le p asz seg mx base] by (auto simp: step_from_def)
qed simp

declare parseLocationList_loop.simps [simp del]

definition parseLocationList ::
  "bool \<Rightarrow> list_parser \<Rightarrow> nat \<Rightarrow> u64 \<Rightarrow> u8 \<Rightarrow> nat \<Rightarrow> u8 \<Rightarrow> LocListEntry list outcome" where
  "parseLocationList le p off base_address asz end_offset seg =
     parseLocationList_loop le p asz seg (list_max (section_data p) end_offset) base_address off"

subsection \<open>Memory safety\<close>

lemma parseLocationList_loop_safe:
  "mx \<le> vector_max \<Longrightarrow> mx \<le> length (section_data p) \<Longrightarrow> addr_table_aligned p asz \<Longrightarrow>
     mem_safe (parseLocationList_loop le p asz seg mx base off)"
proof (induction le p asz seg mx base off rule: parseLocationList_loop.induct)
  case (1 le p asz seg mx base off)
  have st: "mem_safe (loc_step le p asz seg mx base off)"
    using loc_step_within [OF "1.prems"] by (simp add: step_within_def)
  show ?case
    by (subst parseLocationList_loop.simps)
      (auto intro!: mem_safe_obind st "1.IH" "1.prems" split: list_step.split)
qed



subsection \<open>What a list denotes\<close>

datatype lle =
    LBaseAddressx nat | LStartxEndx nat nat bytes | LStartxLength nat nat bytes
  | LOffsetPair nat nat bytes | LDefault bytes | LBaseAddress u64
  | LStartEnd u64 u64 bytes | LStartLength u64 nat bytes

definition expr_encode :: "bytes \<Rightarrow> bytes" where
  "expr_encode ex = uleb_encode (length ex) @ ex"

fun lle_encode :: "bool \<Rightarrow> u8 \<Rightarrow> u8 \<Rightarrow> lle \<Rightarrow> bytes" where
  "lle_encode le asz seg (LBaseAddressx i) = 1 # uleb_encode i"
| "lle_encode le asz seg (LStartxEndx i j ex) = 2 # uleb_encode i @ uleb_encode j @ expr_encode ex"
| "lle_encode le asz seg (LStartxLength i n ex) = 3 # uleb_encode i @ uleb_encode n @ expr_encode ex"
| "lle_encode le asz seg (LOffsetPair s e ex) = 4 # uleb_encode s @ uleb_encode e @ expr_encode ex"
| "lle_encode le asz seg (LDefault ex) = 5 # expr_encode ex"
| "lle_encode le asz seg (LBaseAddress a) = 6 # addr_encode le asz seg a"
| "lle_encode le asz seg (LStartEnd a b ex) =
     7 # addr_encode le asz seg a @ addr_encode le asz seg b @ expr_encode ex"
| "lle_encode le asz seg (LStartLength a n ex) =
     8 # addr_encode le asz seg a @ uleb_encode n @ expr_encode ex"

fun lle_fits :: "u8 \<Rightarrow> lle \<Rightarrow> bool" where
  "lle_fits asz (LBaseAddressx i) = uleb_fits i"
| "lle_fits asz (LStartxEndx i j ex) = (uleb_fits i \<and> uleb_fits j \<and> uleb_fits (length ex))"
| "lle_fits asz (LStartxLength i n ex) = (uleb_fits i \<and> uleb_fits n \<and> uleb_fits (length ex))"
| "lle_fits asz (LOffsetPair s e ex) = (uleb_fits s \<and> uleb_fits e \<and> uleb_fits (length ex))"
| "lle_fits asz (LDefault ex) = uleb_fits (length ex)"
| "lle_fits asz (LBaseAddress a) = addr_fits asz a"
| "lle_fits asz (LStartEnd a b ex) = (addr_fits asz a \<and> addr_fits asz b \<and> uleb_fits (length ex))"
| "lle_fits asz (LStartLength a n ex) = (addr_fits asz a \<and> uleb_fits n \<and> uleb_fits (length ex))"

fun lle_entry :: "(nat \<Rightarrow> u64 outcome) \<Rightarrow> u64 \<Rightarrow> lle \<Rightarrow> LocListEntry outcome" where
  "lle_entry addrx base (LBaseAddressx i) =
     obind (addrx i) (\<lambda>b. Ret (loc_entry DW_LLE_base_addressx b b []))"
| "lle_entry addrx base (LStartxEndx i j ex) =
     obind (addrx i) (\<lambda>s. obind (addrx j) (\<lambda>e. Ret (loc_entry DW_LLE_startx_endx s e ex)))"
| "lle_entry addrx base (LStartxLength i n ex) =
     obind (addrx i) (\<lambda>s. Ret (loc_entry DW_LLE_startx_length s (s + word_of_nat n) ex))"
| "lle_entry addrx base (LOffsetPair s e ex) =
     Ret (loc_entry DW_LLE_offset_pair (base + word_of_nat s) (base + word_of_nat e) ex)"
| "lle_entry addrx base (LDefault ex) = Ret (loc_entry DW_LLE_default_location 0 (- 1) ex)"
| "lle_entry addrx base (LBaseAddress a) = Ret (loc_entry DW_LLE_base_address a a [])"
| "lle_entry addrx base (LStartEnd a b ex) = Ret (loc_entry DW_LLE_start_end a b ex)"
| "lle_entry addrx base (LStartLength a n ex) =
     Ret (loc_entry DW_LLE_start_length a (a + word_of_nat n) ex)"

definition loc_next_base :: "u64 \<Rightarrow> LocListEntry \<Rightarrow> u64" where
  "loc_next_base base e =
     (if loc_type e = DW_LLE_base_addressx \<or> loc_type e = DW_LLE_base_address then loc_start e else base)"

fun lle_denote :: "(nat \<Rightarrow> u64 outcome) \<Rightarrow> u64 \<Rightarrow> lle list \<Rightarrow> LocListEntry list outcome" where
  "lle_denote addrx base [] = Ret []"
| "lle_denote addrx base (r # rs) =
     obind (lle_entry addrx base r) (\<lambda>e.
     obind (lle_denote addrx (loc_next_base base e) rs) (\<lambda>es. Ret (e # es)))"

definition lles_encode :: "bool \<Rightarrow> u8 \<Rightarrow> u8 \<Rightarrow> lle list \<Rightarrow> bytes" where
  "lles_encode le asz seg rs = concat (map (lle_encode le asz seg) rs)"

lemma lle_encode_nonempty: "0 < length (lle_encode le asz seg r)"
  by (cases r) auto

lemma with_expr_encoded:
  assumes "encoded_at d off (expr_encode ex)" and "off + length (expr_encode ex) \<le> mx"
    and "mx \<le> vector_max" and "uleb_fits (length ex)"
  shows "with_expr d mx off base mk = Ret (Entry (mk ex) base (off + length (expr_encode ex)))"
proof -
  let ?n = "length (uleb_encode (length ex))"
  have e: "encoded_at d off (uleb_encode (length ex))" "encoded_at d (off + ?n) ex"
    using assms(1) by (simp_all add: expr_encode_def encoded_at_append)
  have "readULEB128B d off mx = Ret (Some (word_of_nat (length ex)), off + ?n)"
    using assms(2,4) e(1) by (intro uleb_entry_encoded) (auto simp: expr_encode_def)
  moreover have "readBlockB (length ex) d (off + ?n) mx = Ret (Some ex, off + ?n + length ex)"
    using assms(2,3) e(2) by (intro readBlockB_encoded) (auto simp: expr_encode_def)
  ultimately show ?thesis
    using assms(4) by (simp add: with_expr_def unat_uleb_fits expr_encode_def add.assoc)
qed

lemma lle_of_cases:
  "lle_of 0 = Some DW_LLE_end_of_list" "lle_of 1 = Some DW_LLE_base_addressx"
  "lle_of 2 = Some DW_LLE_startx_endx" "lle_of 3 = Some DW_LLE_startx_length"
  "lle_of 4 = Some DW_LLE_offset_pair" "lle_of 5 = Some DW_LLE_default_location"
  "lle_of 6 = Some DW_LLE_base_address" "lle_of 7 = Some DW_LLE_start_end"
  "lle_of 8 = Some DW_LLE_start_length"
  by (simp_all add: lle_of_def)

lemma loc_step_encoded:
  assumes enc: "encoded_at (section_data p) off (lle_encode le asz seg r)"
    and room: "off + length (lle_encode le asz seg r) \<le> mx"
    and mx: "mx \<le> length (section_data p)" "mx \<le> vector_max" and fits: "lle_fits asz r"
  shows "loc_step le p asz seg mx base off =
     obind (lle_entry (\<lambda>i. resolveAddrx le p i asz) base r) (\<lambda>e.
       Ret (Entry e (loc_next_base base e) (off + length (lle_encode le asz seg r))))"
proof -
  have lt: "off < mx" using room lle_encode_nonempty [of le asz seg r] by linarith
  have "readU8B (section_data p) off mx = Ret (Some (section_data p ! off), Suc off)"
    using lt mx by (simp add: readU8B_in)
  then show ?thesis
    using enc room mx fits
    by (cases r)
      (auto simp: loc_step_def encoded_at_Cons encoded_at_append lle_of_cases rle_operands
        with_expr_encoded loc_next_base_def loc_entry_def obind_assoc add.assoc)
qed

lemma parseLocationList_loop_encoded:
  assumes "encoded_at (section_data p) off (lles_encode le asz seg rs)"
    and "off + length (lles_encode le asz seg rs) \<le> mx"
    and "mx \<le> length (section_data p)" and "mx \<le> vector_max" and "list_all (lle_fits asz) rs"
    and "off + length (lles_encode le asz seg rs) = mx
      \<or> section_data p ! (off + length (lles_encode le asz seg rs)) = 0"
  shows "parseLocationList_loop le p asz seg mx base off =
     lle_denote (\<lambda>i. resolveAddrx le p i asz) base rs"
  using assms
proof (induction rs arbitrary: off base)
  case Nil
  show ?case
  proof (cases "off < mx")
    case True
    with Nil have "section_data p ! off = 0" by (simp add: lles_encode_def)
    with True Nil.prems(3) have "loc_step le p asz seg mx base off = Ret Stop"
      by (simp add: loc_step_def readU8B_in lle_of_cases)
    with True show ?thesis by (simp add: parseLocationList_loop.simps)
  qed (simp add: parseLocationList_loop.simps)
next
  case (Cons r rs)
  let ?n = "length (lle_encode le asz seg r)"
  have enc: "lles_encode le asz seg (r # rs) = lle_encode le asz seg r @ lles_encode le asz seg rs"
    by (simp add: lles_encode_def)
  have lt: "off < mx"
    using Cons.prems(2) lle_encode_nonempty [of le asz seg r] unfolding enc length_append by linarith
  have step: "loc_step le p asz seg mx base off =
     obind (lle_entry (\<lambda>i. resolveAddrx le p i asz) base r) (\<lambda>e.
       Ret (Entry e (loc_next_base base e) (off + ?n)))"
    using Cons.prems by (intro loc_step_encoded) (auto simp: enc encoded_at_append)
  have IH: "parseLocationList_loop le p asz seg mx b (off + ?n)
      = lle_denote (\<lambda>i. resolveAddrx le p i asz) b rs" for b
    using Cons.prems by (intro Cons.IH) (auto simp: enc encoded_at_append add.assoc)
  show ?case
    using lt by (subst parseLocationList_loop.simps) (simp add: step obind_assoc IH)
qed

text \<open>
  C20: parsing the bytes of a terminated location list gives exactly the entries that the list
  denotes, each with its own expression.
\<close>

theorem parseLocationList_encoded:
  assumes "encoded_at (section_data p) off (lles_encode le asz seg rs @ [0])"
    and "length (section_data p) \<le> vector_max" and "list_all (lle_fits asz) rs"
    and "end_offset = 0 \<or> off + length (lles_encode le asz seg rs) \<le> end_offset"
  shows "parseLocationList le p off base asz end_offset seg =
     lle_denote (\<lambda>i. resolveAddrx le p i asz) base rs"
  unfolding parseLocationList_def
proof (rule parseLocationList_loop_encoded)
  have "off + length (lles_encode le asz seg rs) < length (section_data p)"
    using assms(1) by (simp add: encoded_at_append encoded_at_Cons)
  then show "off + length (lles_encode le asz seg rs) \<le> list_max (section_data p) end_offset"
    using assms(4) by (auto simp: list_max_def)
qed (use assms list_max_le [of "section_data p" end_offset] in
    \<open>auto simp: encoded_at_append encoded_at_Cons\<close>)

theorem parseLocationList_encoded_witness:
  "parseLocationList True (new_list_parser [6, 0, 16, 0, 0, 4, 2, 5, 2, 145, 8, 0] []) 0 0 4 0 0 =
     Ret [loc_entry DW_LLE_base_address 4096 4096 [], loc_entry DW_LLE_offset_pair 4098 4101 [145, 8]]"
proof -
  have enc: "lles_encode True 4 0 [LBaseAddress 4096, LOffsetPair 2 5 [145, 8]]
      = [6, 0, 16, 0, 0, 4, 2, 5, 2, 145, 8]"
    by (simp add: lles_encode_def expr_encode_def addr_encode_def ordered_def le_bytes_4 uleb_encode.simps)
  show ?thesis
    by (subst parseLocationList_encoded [where rs = "[LBaseAddress 4096, LOffsetPair 2 5 [145, 8]]"])
      (simp_all add: enc new_list_parser_def encoded_at_def vector_max_numeral addr_fits_def
        uleb_fits_def loc_entry_def loc_next_base_def)
qed

subsection \<open>A wrapped block length\<close>

text \<open>
  The 32-bit shift of the unsigned LEB128 reader extends the sign of a length from \<open>2^31\<close> on, so that
  a length close to \<open>2^32\<close> becomes one close to \<open>2^64\<close>. Its sum with the offset wraps around below the
  bound, and a vector of that length is requested.
\<close>

fun final_base :: "u64 \<Rightarrow> LocListEntry list \<Rightarrow> u64" where
  "final_base base [] = base"
| "final_base base (e # es) = final_base (loc_next_base base e) es"

lemma parseLocationList_loop_prefix:
  assumes "encoded_at (section_data p) off (lles_encode le asz seg rs)"
    and "off + length (lles_encode le asz seg rs) \<le> mx"
    and "mx \<le> length (section_data p)" and "mx \<le> vector_max" and "list_all (lle_fits asz) rs"
  shows "parseLocationList_loop le p asz seg mx base off =
     obind (lle_denote (\<lambda>i. resolveAddrx le p i asz) base rs) (\<lambda>es.
     obind (parseLocationList_loop le p asz seg mx (final_base base es) (off + length (lles_encode le asz seg rs))) (\<lambda>fs.
       Ret (es @ fs)))"
  using assms
proof (induction rs arbitrary: off base)
  case Nil
  then show ?case by (simp add: lles_encode_def)
next
  case (Cons r rs)
  let ?n = "length (lle_encode le asz seg r)"
  have enc: "lles_encode le asz seg (r # rs) = lle_encode le asz seg r @ lles_encode le asz seg rs"
    by (simp add: lles_encode_def)
  have lt: "off < mx"
    using Cons.prems(2) lle_encode_nonempty [of le asz seg r] unfolding enc length_append by linarith
  have step: "loc_step le p asz seg mx base off =
     obind (lle_entry (\<lambda>i. resolveAddrx le p i asz) base r) (\<lambda>e.
       Ret (Entry e (loc_next_base base e) (off + ?n)))"
    using Cons.prems by (intro loc_step_encoded) (auto simp: enc encoded_at_append)
  have IH: "parseLocationList_loop le p asz seg mx b (off + ?n) =
     obind (lle_denote (\<lambda>i. resolveAddrx le p i asz) b rs) (\<lambda>es.
     obind (parseLocationList_loop le p asz seg mx (final_base b es) (off + ?n + length (lles_encode le asz seg rs))) (\<lambda>fs.
       Ret (es @ fs)))" for b
    using Cons.prems by (intro Cons.IH) (auto simp: enc encoded_at_append add.assoc)
  show ?case
    using lt by (subst parseLocationList_loop.simps) (simp add: step obind_assoc IH enc add.assoc)
qed

text \<open>An element in front of its expression, for the elements that do not use the address table.\<close>

fun lle_head :: "bool \<Rightarrow> u8 \<Rightarrow> u8 \<Rightarrow> lle \<Rightarrow> bytes" where
  "lle_head le asz seg (LOffsetPair s e ex) = 4 # uleb_encode s @ uleb_encode e"
| "lle_head le asz seg (LDefault ex) = [5]"
| "lle_head le asz seg (LStartEnd a b ex) = 7 # addr_encode le asz seg a @ addr_encode le asz seg b"
| "lle_head le asz seg (LStartLength a n ex) = 8 # addr_encode le asz seg a @ uleb_encode n"
| "lle_head le asz seg _ = []"

lemma lle_head_element: "lle_head le asz seg r \<noteq> [] \<Longrightarrow> 0 < length (lle_head le asz seg r)"
  by simp

lemma with_expr_huge:
  assumes "encoded_at d off (uleb_encode n)" and "off + length (uleb_encode n) \<le> mx" and "mx \<le> length d" and "mx \<le> vector_max"
    and "2 ^ 31 \<le> n" and "n < 2 ^ 32" and "2 ^ 32 \<le> off + length (uleb_encode n) + n"
  shows "with_expr d mx off base mk = Throw (LengthError ''cannot create std::vector larger than max_size()'')"
proof -
  let ?l = "length (uleb_encode n)" and ?big = "n + 18446744069414584320"
  have "readULEB128 d off mx = Ret (word_of_nat ?big, off + ?l)"
    using readULEB128_encode [OF assms(1,2)] scast_u32_u64 [of n] assms(5,6) by simp
  moreover have "0 < ?l" using uleb_encode_nonempty [of n] by simp
  then have "off < mx" using assms(2) by linarith
  ultimately have len: "readULEB128B d off mx = Ret (Some (word_of_nat ?big), off + ?l)"
    by (simp add: readULEB128B_def checked_def)
  have big: "unat (word_of_nat ?big :: u64) = ?big" using assms(6) by (simp add: unsigned_of_nat take_bit_nat_eq_self del: of_nat_add)
  have "u64_add (off + ?l) ?big = off + ?l + n - 2 ^ 32"
  proof -
    have "off + ?l + ?big = (off + ?l + n - 2 ^ 32) + 2 ^ 64" using assms(7) by simp
    then have "u64_add (off + ?l) ?big = (off + ?l + n - 2 ^ 32) mod 2 ^ 64" by (simp only: u64_add_def mod_add_self2)
    moreover have "off + ?l + n - 2 ^ 32 < 2 ^ 64" using assms(2,4,6) by (simp add: vector_max_numeral)
    ultimately show ?thesis by simp
  qed
  then have "\<not> mx < u64_add (off + ?l) ?big" using assms(2,6) by simp
  moreover have "vector_max < ?big" using assms(5) by (simp add: vector_max_numeral)
  ultimately have "readBlockB ?big d (off + ?l) mx = Throw (LengthError ''cannot create std::vector larger than max_size()'')"
    by (simp add: readBlockB_def)
  then show ?thesis by (simp only: with_expr_def len obind.simps prod.case need_def option.case big)
qed

lemma loc_step_huge:
  assumes enc: "encoded_at (section_data p) off (lle_head le asz seg r @ uleb_encode n)"
    and room: "off + length (lle_head le asz seg r @ uleb_encode n) \<le> mx"
    and mx: "mx \<le> length (section_data p)" "mx \<le> vector_max" and fits: "lle_fits asz r"
    and kind: "lle_head le asz seg r \<noteq> []"
    and n: "2 ^ 31 \<le> n" "n < 2 ^ 32" "2 ^ 32 \<le> off + length (lle_head le asz seg r @ uleb_encode n) + n"
  shows "loc_step le p asz seg mx base off = Throw (LengthError ''cannot create std::vector larger than max_size()'')"
proof -
  have huge: "with_expr (section_data p) mx (off + length (lle_head le asz seg r)) base mk =
      Throw (LengthError ''cannot create std::vector larger than max_size()'')" for mk
    using enc room mx n by (intro with_expr_huge) (auto simp: encoded_at_append add.assoc)
  have lt: "off < mx" using room kind by (cases "lle_head le asz seg r") auto
  have "readU8B (section_data p) off mx = Ret (Some (section_data p ! off), Suc off)"
    using lt mx by (simp add: readU8B_in)
  then show ?thesis
    using enc room mx fits kind huge
    by (cases r)
      (auto simp: loc_step_def encoded_at_Cons encoded_at_append lle_of_cases rle_operands obind_assoc add.assoc)
qed

text \<open>
  C23: in any section, behind any entries that resolve, an offset pair, default, start/end or
  start/length element whose expression length lies in \<open>[2^31, 2^32)\<close> and, added to the offset behind
  it, reaches \<open>2^32\<close>, makes the parser throw \<open>std::length_error\<close> instead of ending the list.
\<close>

theorem parseLocationList_length_error:
  assumes "encoded_at (section_data p) off (lles_encode le asz seg rs @ lle_head le asz seg r @ uleb_encode n)"
    and "length (section_data p) \<le> vector_max" and "list_all (lle_fits asz) (r # rs)" and "lle_head le asz seg r \<noteq> []"
    and "lle_denote (\<lambda>i. resolveAddrx le p i asz) base rs = Ret es"
    and "end_offset = 0 \<or> off + length (lles_encode le asz seg rs @ lle_head le asz seg r @ uleb_encode n) \<le> end_offset"
    and "2 ^ 31 \<le> n" and "n < 2 ^ 32"
    and "2 ^ 32 \<le> off + length (lles_encode le asz seg rs @ lle_head le asz seg r @ uleb_encode n) + n"
  shows "parseLocationList le p off base asz end_offset seg =
     Throw (LengthError ''cannot create std::vector larger than max_size()'')"
proof -
  let ?mx = "list_max (section_data p) end_offset" and ?o = "off + length (lles_encode le asz seg rs)"
  have at: "encoded_at (section_data p) off (lles_encode le asz seg rs)"
      "encoded_at (section_data p) ?o (lle_head le asz seg r @ uleb_encode n)"
    using assms(1) by (simp_all add: encoded_at_append)
  have mx: "?mx \<le> length (section_data p)" "?mx \<le> vector_max" "?o + length (lle_head le asz seg r @ uleb_encode n) \<le> ?mx"
    using list_max_le [of "section_data p" end_offset] assms(2,6) encoded_at_length [OF assms(1)]
    by (auto simp: list_max_def)
  have "loc_step le p asz seg ?mx b ?o = Throw (LengthError ''cannot create std::vector larger than max_size()'')" for b
    by (rule loc_step_huge [OF at(2) mx(3,1,2)]) (use assms in \<open>simp_all add: add.assoc\<close>)
  moreover have "?o < ?mx" using mx(3) lle_head_element [OF assms(4)] unfolding length_append by linarith
  ultimately have "parseLocationList_loop le p asz seg ?mx b ?o =
      Throw (LengthError ''cannot create std::vector larger than max_size()'')" for b
    by (subst parseLocationList_loop.simps) simp
  then show ?thesis
    unfolding parseLocationList_def
    using parseLocationList_loop_prefix [OF at(1) _ mx(1,2), of base] mx(3) assms(3,5) by simp
qed

theorem parseLocationList_length_error_witness:
  "parseLocationList True (new_list_parser [6, 0, 16, 0, 0, 5, 254, 255, 255, 255, 15] []) 0 0 4 0 0 =
     Throw (LengthError ''cannot create std::vector larger than max_size()'')"
proof -
  have enc: "lles_encode True 4 0 [LBaseAddress 4096] = [6, 0, 16, 0, 0]" "uleb_encode 4294967294 = [254, 255, 255, 255, 15]"
    by (simp_all add: lles_encode_def addr_encode_def ordered_def le_bytes_4 uleb_encode.simps)
  show ?thesis
    by (rule parseLocationList_length_error [where rs = "[LBaseAddress 4096]" and r = "LDefault []" and n = 4294967294])
      (simp_all add: enc new_list_parser_def encoded_at_def vector_max_numeral addr_fits_def uleb_fits_def)
qed

end
