(* ===== verification/AddrRanges.thy ===== *)
theory AddrRanges
  imports Prelude "HOL-Library.Multiset"
begin

section \<open>Address ranges (\<open>DwarfUtils::AddressRange\<close> and the range queries)\<close>

text \<open>
  The range helpers of \<open>src/dwarf_utils.cpp\<close> and the structure of \<open>include/dwarf_utils.hpp\<close>. The
  specification is the set of addresses that a list of ranges covers. \<open>std::sort\<close> is an interface:
  any function that returns a permutation ordered by \<open>operator<\<close>; its instance here is the stable
  sort of HOL, and the facts about merging hold for every implementation.
\<close>

subsection \<open>Data\<close>

record AddressRange =
  range_start :: u64
  range_end :: u64
  range_is_base :: bool

definition address_range :: "u64 \<Rightarrow> u64 \<Rightarrow> bool \<Rightarrow> AddressRange" where
  "address_range s e b = \<lparr>range_start = s, range_end = e, range_is_base = b\<rparr>"

definition contains :: "AddressRange \<Rightarrow> u64 \<Rightarrow> bool" where
  "contains r a \<longleftrightarrow> \<not> range_is_base r \<and> range_start r \<le> a \<and> a < range_end r"

definition overlaps :: "AddressRange \<Rightarrow> AddressRange \<Rightarrow> bool" where
  "overlaps r other =
     (if range_is_base r \<or> range_is_base other then False
      else range_start r < range_end other \<and> range_start other < range_end r)"

text \<open>\<open>operator<\<close> compares the start addresses: a strict weak order, hence a preorder.\<close>

instantiation AddressRange_ext :: (type) preorder
begin

definition less_eq_AddressRange_ext :: "'a AddressRange_ext \<Rightarrow> 'a AddressRange_ext \<Rightarrow> bool" where
  "less_eq_AddressRange_ext r s \<longleftrightarrow> range_start r \<le> range_start s"

definition less_AddressRange_ext :: "'a AddressRange_ext \<Rightarrow> 'a AddressRange_ext \<Rightarrow> bool" where
  "less_AddressRange_ext r s \<longleftrightarrow> range_start r < range_start s"

instance
  by standard (auto simp: less_eq_AddressRange_ext_def less_AddressRange_ext_def)

end

subsection \<open>Queries\<close>

fun isAddressInRanges :: "u64 \<Rightarrow> AddressRange list \<Rightarrow> bool" where
  "isAddressInRanges a [] = False"
| "isAddressInRanges a (r # rs) = (if contains r a then True else isAddressInRanges a rs)"

fun getRangesContainingAddress :: "u64 \<Rightarrow> AddressRange list \<Rightarrow> AddressRange list" where
  "getRangesContainingAddress a [] = []"
| "getRangesContainingAddress a (r # rs) =
     (if contains r a then r # getRangesContainingAddress a rs else getRangesContainingAddress a rs)"

text \<open>The loop keeps the finished ranges and \<open>result.back()\<close>.\<close>

fun merge_loop :: "AddressRange list \<Rightarrow> AddressRange \<Rightarrow> AddressRange list \<Rightarrow> AddressRange list" where
  "merge_loop result back [] = result @ [back]"
| "merge_loop result back (current # rest) =
     (if range_start current \<le> range_end back
      then merge_loop result (back\<lparr>range_end := max (range_end back) (range_end current)\<rparr>) rest
      else merge_loop (result @ [back]) current rest)"

definition merge_with :: "(AddressRange list \<Rightarrow> AddressRange list) \<Rightarrow> AddressRange list \<Rightarrow> AddressRange list" where
  "merge_with srt ranges =
     (if ranges = [] then []
      else
        let rs = filter (\<lambda>r. \<not> range_is_base r) ranges
        in if rs = [] then []
           else
             let rs = srt rs
             in merge_loop [] (hd rs) (tl rs))"

definition std_sort :: "AddressRange list \<Rightarrow> AddressRange list" where
  "std_sort = sort_key range_start"

definition mergeOverlappingRanges :: "AddressRange list \<Rightarrow> AddressRange list" where
  "mergeOverlappingRanges = merge_with std_sort"

definition getTotalRangeSize :: "AddressRange list \<Rightarrow> u64" where
  "getTotalRangeSize ranges =
     foldl (\<lambda>total r. total + (range_end r - range_start r)) 0 (mergeOverlappingRanges ranges)"

definition isContinuousRange :: "AddressRange list \<Rightarrow> bool" where
  "isContinuousRange ranges \<longleftrightarrow> length (mergeOverlappingRanges ranges) \<le> 1"

definition bounding_step :: "u64 \<times> u64 \<Rightarrow> AddressRange \<Rightarrow> u64 \<times> u64" where
  "bounding_step acc r =
     (if range_is_base r then acc else (min (fst acc) (range_start r), max (snd acc) (range_end r)))"

definition getBoundingRange :: "AddressRange list \<Rightarrow> AddressRange" where
  "getBoundingRange ranges =
     (if ranges = [] then address_range 0 0 False
      else
        let (min_start, max_end) = foldl bounding_step (0xffffffffffffffff, 0) ranges
        in if min_start = 0xffffffffffffffff then address_range 0 0 False
           else address_range min_start max_end False)"

subsection \<open>The set of covered addresses\<close>

definition covered :: "AddressRange list \<Rightarrow> u64 set" where
  "covered rs = {a. \<exists>r\<in>set rs. contains r a}"

lemma covered_simps [simp]:
  "covered [] = {}" "covered (r # rs) = Collect (contains r) \<union> covered rs"
  "covered (xs @ ys) = covered xs \<union> covered ys"
  by (auto simp: covered_def)

lemma isAddressInRanges_covered: "isAddressInRanges a rs \<longleftrightarrow> a \<in> covered rs"
  by (induction rs) auto

lemma getRangesContainingAddress_filter: "getRangesContainingAddress a rs = filter (\<lambda>r. contains r a) rs"
  by (induction rs) auto

lemma covered_filter: "covered (filter (\<lambda>r. \<not> range_is_base r) rs) = covered rs"
  by (auto simp: covered_def contains_def)

lemma covered_mset: "mset xs = mset ys \<Longrightarrow> covered xs = covered ys"
  by (auto simp: covered_def dest: mset_eq_setD)

lemma contains_merge:
  assumes "range_start l \<le> range_start c" and "range_start c \<le> range_end l"
    and "\<not> range_is_base l" and "\<not> range_is_base c"
  shows "contains (l\<lparr>range_end := max (range_end l) (range_end c)\<rparr>) a \<longleftrightarrow> contains l a \<or> contains c a"
  using assms by (auto simp: contains_def max_def not_le)

text \<open>A gap separates neighbours: each range ends before the next one starts.\<close>

fun gapped :: "AddressRange list \<Rightarrow> bool" where
  "gapped (r # s # rs) \<longleftrightarrow> range_end r < range_start s \<and> gapped (s # rs)"
| "gapped _ \<longleftrightarrow> True"

definition plain :: "AddressRange list \<Rightarrow> bool" where
  "plain rs \<longleftrightarrow> list_all (\<lambda>r. \<not> range_is_base r) rs"

lemma gapped_append: "gapped (xs @ [l]) \<Longrightarrow> range_end l < range_start c \<Longrightarrow> gapped (xs @ [l, c])"
  by (induction xs rule: gapped.induct) auto

lemma gapped_snoc_cong:
  "gapped (xs @ [l]) \<Longrightarrow> range_start l' = range_start l \<Longrightarrow> gapped (xs @ [l'])"
  by (induction xs rule: gapped.induct) auto

lemma merge_loop_covered:
  "sorted (map range_start (l # rest)) \<Longrightarrow> plain (l # rest) \<Longrightarrow>
     covered (merge_loop result l rest) = covered result \<union> covered (l # rest)"
proof (induction result l rest rule: merge_loop.induct)
  case (2 result l c rest)
  show ?case
  proof (cases "range_start c \<le> range_end l")
    case True
    let ?l = "l\<lparr>range_end := max (range_end l) (range_end c)\<rparr>"
    have "Collect (contains ?l) = Collect (contains l) \<union> Collect (contains c)"
      using "2.prems" True contains_merge [of l c] by (auto simp: plain_def)
    with True 2 show ?thesis by (auto simp: plain_def)
  qed (use 2 in \<open>auto simp: plain_def\<close>)
qed (auto simp: covered_def)

lemma merge_loop_gapped: "gapped (result @ [l]) \<Longrightarrow> gapped (merge_loop result l rest)"
proof (induction result l rest rule: merge_loop.induct)
  case (2 result l c rest)
  then show ?case
    by (auto simp: not_le intro!: "2.IH" gapped_append elim: gapped_snoc_cong)
qed simp

lemma merge_loop_plain: "plain result \<Longrightarrow> plain (l # rest) \<Longrightarrow> plain (merge_loop result l rest)"
  by (induction result l rest rule: merge_loop.induct) (auto simp: plain_def)

lemma merge_loop_sorted:
  "sorted (map range_start (result @ l # rest)) \<Longrightarrow> sorted (map range_start (merge_loop result l rest))"
proof (induction result l rest rule: merge_loop.induct)
  case (2 result l c rest)
  then show ?case by (auto simp: sorted_append)
qed simp

text \<open>Ranges whose end is not before their start stay so.\<close>

definition upright :: "AddressRange list \<Rightarrow> bool" where
  "upright rs \<longleftrightarrow> (\<forall>r\<in>set rs. \<not> range_is_base r \<longrightarrow> range_start r \<le> range_end r)"

lemma merge_loop_upright:
  "upright result \<Longrightarrow> upright (l # rest) \<Longrightarrow> plain (l # rest) \<Longrightarrow> upright (merge_loop result l rest)"
proof (induction result l rest rule: merge_loop.induct)
  case (2 result l c rest)
  then show ?case by (auto simp: upright_def plain_def max_def intro!: "2.IH")
qed (auto simp: upright_def)

subsection \<open>Sorting as an interface\<close>

locale sorter =
  fixes srt :: "AddressRange list \<Rightarrow> AddressRange list"
  assumes srt_mset: "mset (srt xs) = mset xs"
    and srt_sorted: "sorted (map range_start (srt xs))"
begin

lemma srt_nonempty: "xs \<noteq> [] \<Longrightarrow> srt xs = hd (srt xs) # tl (srt xs)"
  using srt_mset [of xs] by (cases "srt xs") auto

lemma srt_set: "set (srt xs) = set xs"
  using srt_mset by (rule mset_eq_setD)

lemma merge_cases:
  obtains "merge_with srt rs = []" and "filter (\<lambda>r. \<not> range_is_base r) rs = []"
  | l rest where "srt (filter (\<lambda>r. \<not> range_is_base r) rs) = l # rest"
      and "merge_with srt rs = merge_loop [] l rest" and "plain (l # rest)"
proof (cases "filter (\<lambda>r. \<not> range_is_base r) rs = []")
  case True
  then show ?thesis using that(1) by (simp add: merge_with_def)
next
  case False
  let ?f = "filter (\<lambda>r. \<not> range_is_base r) rs"
  obtain l rest where eq: "srt ?f = l # rest" using srt_nonempty [OF False] by metis
  have "set (l # rest) = set ?f" using srt_set [of ?f] by (simp only: eq)
  then have "plain (l # rest)" by (simp only: plain_def list_all_iff) auto
  moreover have "rs \<noteq> []" using False by auto
  ultimately show ?thesis using that(2) [OF eq] False eq by (simp add: merge_with_def Let_def)
qed

lemma merge_covered: "covered (merge_with srt rs) = covered rs"
proof (cases rule: merge_cases [of rs])
  case 1
  then show ?thesis using covered_filter [of rs] by simp
next
  case (2 l rest)
  have "covered (l # rest) = covered rs"
    using covered_mset [OF srt_mset] covered_filter [of rs] 2(1) by metis
  moreover have "sorted (map range_start (l # rest))" using srt_sorted 2(1) by metis
  ultimately show ?thesis using 2 merge_loop_covered by simp
qed

lemma merge_gapped: "gapped (merge_with srt rs)"
proof (cases rule: merge_cases [of rs])
  case (2 l rest)
  then show ?thesis using merge_loop_gapped [of "[]" l rest] by simp
qed simp

lemma merge_sorted: "sorted (map range_start (merge_with srt rs))"
proof (cases rule: merge_cases [of rs])
  case (2 l rest)
  have "sorted (map range_start (l # rest))" using srt_sorted 2(1) by metis
  then show ?thesis using 2(2) merge_loop_sorted [of "[]" l rest] by simp
qed simp

lemma merge_plain: "plain (merge_with srt rs)"
proof (cases rule: merge_cases [of rs])
  case (2 l rest)
  then show ?thesis using merge_loop_plain [of "[]" l rest] by (simp add: plain_def)
qed (simp add: plain_def)

lemma merge_upright:
  assumes "upright rs"
  shows "upright (merge_with srt rs)"
proof (cases rule: merge_cases [of rs])
  case (2 l rest)
  have "set (l # rest) \<subseteq> set rs" using srt_set [of "filter (\<lambda>r. \<not> range_is_base r) rs"] unfolding 2(1) by auto
  then have "upright (l # rest)" using assms unfolding upright_def by blast
  with 2 show ?thesis using merge_loop_upright [of "[]" l rest] by (simp add: upright_def)
qed (simp add: upright_def)

end

interpretation std_sort: sorter std_sort
  by unfold_locales (simp_all add: std_sort_def)

subsection \<open>Merging keeps the covered set\<close>

text \<open>
  C27: merging keeps exactly the covered addresses, drops base-address entries, and leaves
  ranges whose starts ascend, each ending before the next one starts, for every input.
\<close>

theorem mergeOverlappingRanges_spec:
  "covered (mergeOverlappingRanges rs) = covered rs
     \<and> sorted (map range_start (mergeOverlappingRanges rs)) \<and> gapped (mergeOverlappingRanges rs)
     \<and> plain (mergeOverlappingRanges rs)"
  unfolding mergeOverlappingRanges_def
  using std_sort.merge_covered std_sort.merge_sorted std_sort.merge_gapped std_sort.merge_plain by blast

subsection \<open>The total size\<close>

definition range_size :: "AddressRange \<Rightarrow> nat" where
  "range_size r = unat (range_end r) - unat (range_start r)"

lemma Collect_contains:
  "\<not> range_is_base r \<Longrightarrow> Collect (contains r) = {range_start r ..< range_end r}"
  by (auto simp: contains_def)

lemma card_word_interval: "card {a ..< b :: u64} = unat b - unat a"
proof -
  have "{a ..< b} = word_of_nat ` {unat a ..< unat b}"
  proof (intro equalityI subsetI)
    fix x assume "x \<in> {a ..< b}"
    then have "unat x \<in> {unat a ..< unat b}" by (simp add: word_le_nat_alt word_less_nat_alt)
    then show "x \<in> word_of_nat ` {unat a ..< unat b}" by (intro image_eqI [of x _ "unat x"]) simp_all
  next
    fix x :: u64 assume "x \<in> word_of_nat ` {unat a ..< unat b}"
    then obtain n where n: "x = word_of_nat n" "unat a \<le> n" "n < unat b" by auto
    then have "n < 2 ^ 64" using unat_u64_bound [of b] by simp
    then have "unat x = n" using n(1) by (simp add: unsigned_of_nat take_bit_nat_eq_self)
    then show "x \<in> {a ..< b}" using n by (simp add: word_le_nat_alt word_less_nat_alt)
  qed
  moreover have "inj_on (word_of_nat :: nat \<Rightarrow> u64) {unat a ..< unat b}"
  proof (rule inj_onI)
    fix x y assume xy: "x \<in> {unat a ..< unat b}" "y \<in> {unat a ..< unat b}"
      and eq: "(word_of_nat x :: u64) = word_of_nat y"
    then have "x < 2 ^ 64" "y < 2 ^ 64" using unat_u64_bound [of b] by auto
    with arg_cong [OF eq, of unat] show "x = y"
      by (simp add: unsigned_of_nat take_bit_nat_eq_self)
  qed
  ultimately show ?thesis by (simp add: card_image)
qed

lemma gapped_above:
  "gapped (r # rs) \<Longrightarrow> upright (r # rs) \<Longrightarrow> plain (r # rs) \<Longrightarrow> a \<in> covered rs \<Longrightarrow> range_end r < a"
proof (induction rs arbitrary: r)
  case (Cons s rs)
  show ?case
  proof (cases "contains s a")
    case True
    with Cons.prems show ?thesis by (auto simp: contains_def)
  next
    case False
    with Cons.prems have "range_end s < a"
      by (intro Cons.IH) (auto simp: upright_def plain_def)
    moreover have "range_end r < range_start s" "range_start s \<le> range_end s"
      using Cons.prems by (auto simp: upright_def plain_def)
    ultimately show ?thesis by simp
  qed
qed simp

lemma card_covered:
  "gapped rs \<Longrightarrow> upright rs \<Longrightarrow> plain rs \<Longrightarrow> card (covered rs) = sum_list (map range_size rs)"
proof (induction rs)
  case (Cons r rs)
  have rec: "gapped rs" "upright rs" "plain rs"
    using Cons.prems by (cases rs; auto simp: upright_def plain_def)+
  have "Collect (contains r) \<inter> covered rs = {}"
    using gapped_above [OF Cons.prems] by (fastforce simp: contains_def)
  moreover have "finite (covered rs)" "finite (Collect (contains r))" by simp_all
  ultimately have "card (covered (r # rs)) = card (Collect (contains r)) + card (covered rs)"
    by (simp add: card_Un_disjoint)
  moreover have "card (Collect (contains r)) = range_size r"
    using Cons.prems by (simp add: Collect_contains card_word_interval range_size_def plain_def)
  ultimately show ?case using Cons.IH rec by simp
qed simp

lemma total_fold:
  "upright rs \<Longrightarrow> plain rs \<Longrightarrow>
     foldl (\<lambda>total r. total + (range_end r - range_start r)) (word_of_nat n) rs
       = (word_of_nat (n + sum_list (map range_size rs)) :: u64)"
proof (induction rs arbitrary: n)
  case (Cons r rs)
  have "range_start r \<le> range_end r" using Cons.prems by (auto simp: upright_def plain_def)
  then have "range_end r - range_start r = word_of_nat (range_size r)"
    by (simp add: range_size_def word_le_nat_alt of_nat_diff)
  then have "word_of_nat n + (range_end r - range_start r) = (word_of_nat (n + range_size r) :: u64)" by simp
  then show ?case using Cons by (simp add: upright_def plain_def add.assoc flip: of_nat_add)
qed simp

text \<open>
  For ranges that do not end before they start, the total size is the number of covered
  addresses, overlaps counted once, and the 64-bit sum does not wrap.
\<close>

theorem getTotalRangeSize_card:
  assumes "upright rs"
  shows "unat (getTotalRangeSize rs) = card (covered rs)"
proof -
  let ?m = "mergeOverlappingRanges rs"
  have m: "covered ?m = covered rs" "gapped ?m" "plain ?m" "upright ?m"
    unfolding mergeOverlappingRanges_def
    using std_sort.merge_covered std_sort.merge_gapped std_sort.merge_plain std_sort.merge_upright [OF assms]
    by blast+
  have sum: "sum_list (map range_size ?m) = card (covered rs)"
    using card_covered [OF m(2,4,3)] m(1) by simp
  have "covered rs \<subseteq> UNIV - {- 1}"
    by (auto simp: covered_def contains_def)
  then have "card (covered rs) \<le> card (UNIV - {- 1 :: u64})" by (intro card_mono) auto
  also have "\<dots> < 2 ^ 64" by (simp add: card_word)
  finally have small: "card (covered rs) < 2 ^ 64" .
  have "getTotalRangeSize rs = word_of_nat (card (covered rs))"
    using total_fold [OF m(4,3), of 0] sum by (simp add: getTotalRangeSize_def)
  with small show ?thesis by (simp add: unsigned_of_nat take_bit_nat_eq_self)
qed

theorem getTotalRangeSize_card_witness:
  "unat (getTotalRangeSize [address_range 10 20 False, address_range 15 30 False]) =
     card (covered [address_range 10 20 False, address_range 15 30 False])"
  by (rule getTotalRangeSize_card) (simp add: upright_def address_range_def)

subsection \<open>The bounding range\<close>

lemma bounding_fold:
  "foldl bounding_step (lo, hi) rs = (lo', hi') \<Longrightarrow>
     lo' \<le> lo \<and> hi \<le> hi' \<and>
     (\<forall>r\<in>set rs. \<not> range_is_base r \<longrightarrow> lo' \<le> range_start r \<and> range_end r \<le> hi')"
proof (induction rs arbitrary: lo hi)
  case (Cons r rs)
  show ?case
  proof (cases "range_is_base r")
    case True
    with Cons show ?thesis by (auto simp: bounding_step_def)
  next
    case False
    with Cons.prems Cons.IH [of "min lo (range_start r)" "max hi (range_end r)"]
    show ?thesis by (auto simp: bounding_step_def)
  qed
qed simp

text \<open>
  Every covered address lies in the bounding range.
\<close>

theorem getBoundingRange_covers: "covered rs \<subseteq> covered [getBoundingRange rs]"
proof
  fix a assume "a \<in> covered rs"
  then obtain r where r: "r \<in> set rs" "\<not> range_is_base r" "range_start r \<le> a" "a < range_end r"
    by (auto simp: covered_def contains_def)
  obtain lo hi where f: "foldl bounding_step (0xffffffffffffffff, 0) rs = (lo, hi)" by fastforce
  have b: "lo \<le> range_start r" "range_end r \<le> hi" using bounding_fold [OF f] r by auto
  have "a < 0xffffffffffffffff" using r(4) unat_u64_bound [of "range_end r"]
    by (simp add: word_less_nat_alt)
  then have "lo \<noteq> 0xffffffffffffffff" using b(1) r(3) by auto
  moreover have "rs \<noteq> []" using r(1) by auto
  ultimately show "a \<in> covered [getBoundingRange rs]"
    using f b r by (auto simp: getBoundingRange_def address_range_def contains_def)
qed

end
