(* ===== verification/OpNames.thy ===== *)
theory OpNames
  imports Prelude
begin

section \<open>Operation codes, their names, and diagnostic texts\<close>

text \<open>
  The enumerators of \<open>DwarfOp\<close> (\<open>include/dwarf_types.hpp\<close>) are abbreviations for bytes: the
  underlying type is \<open>uint8_t\<close> and the code casts arbitrary bytes to it. \<open>operationToString\<close>
  and the formatting of diagnostics are those of \<open>src/dwarf_utils.cpp\<close>.
\<close>

subsection \<open>\<open>DwarfOp\<close>\<close>

abbreviation DW_OP_addr :: u8 where "DW_OP_addr \<equiv> 0x03"
abbreviation DW_OP_deref :: u8 where "DW_OP_deref \<equiv> 0x06"
abbreviation DW_OP_const1u :: u8 where "DW_OP_const1u \<equiv> 0x08"
abbreviation DW_OP_const1s :: u8 where "DW_OP_const1s \<equiv> 0x09"
abbreviation DW_OP_const2u :: u8 where "DW_OP_const2u \<equiv> 0x0a"
abbreviation DW_OP_const2s :: u8 where "DW_OP_const2s \<equiv> 0x0b"
abbreviation DW_OP_const4u :: u8 where "DW_OP_const4u \<equiv> 0x0c"
abbreviation DW_OP_const4s :: u8 where "DW_OP_const4s \<equiv> 0x0d"
abbreviation DW_OP_const8u :: u8 where "DW_OP_const8u \<equiv> 0x0e"
abbreviation DW_OP_const8s :: u8 where "DW_OP_const8s \<equiv> 0x0f"
abbreviation DW_OP_constu :: u8 where "DW_OP_constu \<equiv> 0x10"
abbreviation DW_OP_consts :: u8 where "DW_OP_consts \<equiv> 0x11"
abbreviation DW_OP_dup :: u8 where "DW_OP_dup \<equiv> 0x12"
abbreviation DW_OP_drop :: u8 where "DW_OP_drop \<equiv> 0x13"
abbreviation DW_OP_over :: u8 where "DW_OP_over \<equiv> 0x14"
abbreviation DW_OP_pick :: u8 where "DW_OP_pick \<equiv> 0x15"
abbreviation DW_OP_swap :: u8 where "DW_OP_swap \<equiv> 0x16"
abbreviation DW_OP_rot :: u8 where "DW_OP_rot \<equiv> 0x17"
abbreviation DW_OP_xderef :: u8 where "DW_OP_xderef \<equiv> 0x18"
abbreviation DW_OP_abs :: u8 where "DW_OP_abs \<equiv> 0x19"
abbreviation DW_OP_and :: u8 where "DW_OP_and \<equiv> 0x1a"
abbreviation DW_OP_div :: u8 where "DW_OP_div \<equiv> 0x1b"
abbreviation DW_OP_minus :: u8 where "DW_OP_minus \<equiv> 0x1c"
abbreviation DW_OP_mod :: u8 where "DW_OP_mod \<equiv> 0x1d"
abbreviation DW_OP_mul :: u8 where "DW_OP_mul \<equiv> 0x1e"
abbreviation DW_OP_neg :: u8 where "DW_OP_neg \<equiv> 0x1f"
abbreviation DW_OP_not :: u8 where "DW_OP_not \<equiv> 0x20"
abbreviation DW_OP_or :: u8 where "DW_OP_or \<equiv> 0x21"
abbreviation DW_OP_plus :: u8 where "DW_OP_plus \<equiv> 0x22"
abbreviation DW_OP_plus_uconst :: u8 where "DW_OP_plus_uconst \<equiv> 0x23"
abbreviation DW_OP_shl :: u8 where "DW_OP_shl \<equiv> 0x24"
abbreviation DW_OP_shr :: u8 where "DW_OP_shr \<equiv> 0x25"
abbreviation DW_OP_shra :: u8 where "DW_OP_shra \<equiv> 0x26"
abbreviation DW_OP_xor :: u8 where "DW_OP_xor \<equiv> 0x27"
abbreviation DW_OP_bra :: u8 where "DW_OP_bra \<equiv> 0x28"
abbreviation DW_OP_eq :: u8 where "DW_OP_eq \<equiv> 0x29"
abbreviation DW_OP_ge :: u8 where "DW_OP_ge \<equiv> 0x2a"
abbreviation DW_OP_gt :: u8 where "DW_OP_gt \<equiv> 0x2b"
abbreviation DW_OP_le :: u8 where "DW_OP_le \<equiv> 0x2c"
abbreviation DW_OP_lt :: u8 where "DW_OP_lt \<equiv> 0x2d"
abbreviation DW_OP_ne :: u8 where "DW_OP_ne \<equiv> 0x2e"
abbreviation DW_OP_skip :: u8 where "DW_OP_skip \<equiv> 0x2f"
abbreviation DW_OP_regx :: u8 where "DW_OP_regx \<equiv> 0x90"
abbreviation DW_OP_fbreg :: u8 where "DW_OP_fbreg \<equiv> 0x91"
abbreviation DW_OP_bregx :: u8 where "DW_OP_bregx \<equiv> 0x92"
abbreviation DW_OP_piece :: u8 where "DW_OP_piece \<equiv> 0x93"
abbreviation DW_OP_deref_size :: u8 where "DW_OP_deref_size \<equiv> 0x94"
abbreviation DW_OP_xderef_size :: u8 where "DW_OP_xderef_size \<equiv> 0x95"
abbreviation DW_OP_nop :: u8 where "DW_OP_nop \<equiv> 0x96"
abbreviation DW_OP_push_object_address :: u8 where "DW_OP_push_object_address \<equiv> 0x97"
abbreviation DW_OP_call2 :: u8 where "DW_OP_call2 \<equiv> 0x98"
abbreviation DW_OP_call4 :: u8 where "DW_OP_call4 \<equiv> 0x99"
abbreviation DW_OP_call_ref :: u8 where "DW_OP_call_ref \<equiv> 0x9a"
abbreviation DW_OP_form_tls_address :: u8 where "DW_OP_form_tls_address \<equiv> 0x9b"
abbreviation DW_OP_call_frame_cfa :: u8 where "DW_OP_call_frame_cfa \<equiv> 0x9c"
abbreviation DW_OP_bit_piece :: u8 where "DW_OP_bit_piece \<equiv> 0x9d"
abbreviation DW_OP_implicit_value :: u8 where "DW_OP_implicit_value \<equiv> 0x9e"
abbreviation DW_OP_stack_value :: u8 where "DW_OP_stack_value \<equiv> 0x9f"
abbreviation DW_OP_implicit_pointer :: u8 where "DW_OP_implicit_pointer \<equiv> 0xa0"
abbreviation DW_OP_addrx :: u8 where "DW_OP_addrx \<equiv> 0xa1"
abbreviation DW_OP_constx :: u8 where "DW_OP_constx \<equiv> 0xa2"
abbreviation DW_OP_entry_value :: u8 where "DW_OP_entry_value \<equiv> 0xa3"
abbreviation DW_OP_const_type :: u8 where "DW_OP_const_type \<equiv> 0xa4"
abbreviation DW_OP_regval_type :: u8 where "DW_OP_regval_type \<equiv> 0xa5"
abbreviation DW_OP_deref_type :: u8 where "DW_OP_deref_type \<equiv> 0xa6"
abbreviation DW_OP_xderef_type :: u8 where "DW_OP_xderef_type \<equiv> 0xa7"
abbreviation DW_OP_convert :: u8 where "DW_OP_convert \<equiv> 0xa8"
abbreviation DW_OP_reinterpret :: u8 where "DW_OP_reinterpret \<equiv> 0xa9"
abbreviation DW_OP_GNU_push_tls_address :: u8 where "DW_OP_GNU_push_tls_address \<equiv> 0xe0"
abbreviation DW_OP_WASM_location :: u8 where "DW_OP_WASM_location \<equiv> 0xed"
abbreviation DW_OP_GNU_uninit :: u8 where "DW_OP_GNU_uninit \<equiv> 0xf0"
abbreviation DW_OP_GNU_encoded_addr :: u8 where "DW_OP_GNU_encoded_addr \<equiv> 0xf1"
abbreviation DW_OP_GNU_implicit_pointer :: u8 where "DW_OP_GNU_implicit_pointer \<equiv> 0xf2"
abbreviation DW_OP_GNU_entry_value :: u8 where "DW_OP_GNU_entry_value \<equiv> 0xf3"
abbreviation DW_OP_GNU_const_type :: u8 where "DW_OP_GNU_const_type \<equiv> 0xf4"
abbreviation DW_OP_GNU_regval_type :: u8 where "DW_OP_GNU_regval_type \<equiv> 0xf5"
abbreviation DW_OP_GNU_deref_type :: u8 where "DW_OP_GNU_deref_type \<equiv> 0xf6"
abbreviation DW_OP_GNU_convert :: u8 where "DW_OP_GNU_convert \<equiv> 0xf7"
abbreviation DW_OP_GNU_reinterpret :: u8 where "DW_OP_GNU_reinterpret \<equiv> 0xf8"
abbreviation DW_OP_GNU_parameter_ref :: u8 where "DW_OP_GNU_parameter_ref \<equiv> 0xfa"
abbreviation DW_OP_GNU_addr_index :: u8 where "DW_OP_GNU_addr_index \<equiv> 0xfb"
abbreviation DW_OP_GNU_const_index :: u8 where "DW_OP_GNU_const_index \<equiv> 0xfc"
abbreviation DW_OP_lit0 :: u8 where "DW_OP_lit0 \<equiv> 0x30"
abbreviation DW_OP_reg0 :: u8 where "DW_OP_reg0 \<equiv> 0x50"
abbreviation DW_OP_breg0 :: u8 where "DW_OP_breg0 \<equiv> 0x70"

text \<open>The enumeration, in its order.\<close>

definition DwarfOp_enum :: "(u8 \<times> string) list" where
  "DwarfOp_enum = [
     (0x03, ''DW_OP_addr''),
     (0x06, ''DW_OP_deref''),
     (0x08, ''DW_OP_const1u''),
     (0x09, ''DW_OP_const1s''),
     (0x0a, ''DW_OP_const2u''),
     (0x0b, ''DW_OP_const2s''),
     (0x0c, ''DW_OP_const4u''),
     (0x0d, ''DW_OP_const4s''),
     (0x0e, ''DW_OP_const8u''),
     (0x0f, ''DW_OP_const8s''),
     (0x10, ''DW_OP_constu''),
     (0x11, ''DW_OP_consts''),
     (0x12, ''DW_OP_dup''),
     (0x13, ''DW_OP_drop''),
     (0x14, ''DW_OP_over''),
     (0x15, ''DW_OP_pick''),
     (0x16, ''DW_OP_swap''),
     (0x17, ''DW_OP_rot''),
     (0x18, ''DW_OP_xderef''),
     (0x19, ''DW_OP_abs''),
     (0x1a, ''DW_OP_and''),
     (0x1b, ''DW_OP_div''),
     (0x1c, ''DW_OP_minus''),
     (0x1d, ''DW_OP_mod''),
     (0x1e, ''DW_OP_mul''),
     (0x1f, ''DW_OP_neg''),
     (0x20, ''DW_OP_not''),
     (0x21, ''DW_OP_or''),
     (0x22, ''DW_OP_plus''),
     (0x23, ''DW_OP_plus_uconst''),
     (0x24, ''DW_OP_shl''),
     (0x25, ''DW_OP_shr''),
     (0x26, ''DW_OP_shra''),
     (0x27, ''DW_OP_xor''),
     (0x28, ''DW_OP_bra''),
     (0x29, ''DW_OP_eq''),
     (0x2a, ''DW_OP_ge''),
     (0x2b, ''DW_OP_gt''),
     (0x2c, ''DW_OP_le''),
     (0x2d, ''DW_OP_lt''),
     (0x2e, ''DW_OP_ne''),
     (0x2f, ''DW_OP_skip''),
     (0x30, ''DW_OP_lit0''),
     (0x31, ''DW_OP_lit1''),
     (0x32, ''DW_OP_lit2''),
     (0x33, ''DW_OP_lit3''),
     (0x34, ''DW_OP_lit4''),
     (0x35, ''DW_OP_lit5''),
     (0x36, ''DW_OP_lit6''),
     (0x37, ''DW_OP_lit7''),
     (0x38, ''DW_OP_lit8''),
     (0x39, ''DW_OP_lit9''),
     (0x3a, ''DW_OP_lit10''),
     (0x3b, ''DW_OP_lit11''),
     (0x3c, ''DW_OP_lit12''),
     (0x3d, ''DW_OP_lit13''),
     (0x3e, ''DW_OP_lit14''),
     (0x3f, ''DW_OP_lit15''),
     (0x40, ''DW_OP_lit16''),
     (0x41, ''DW_OP_lit17''),
     (0x42, ''DW_OP_lit18''),
     (0x43, ''DW_OP_lit19''),
     (0x44, ''DW_OP_lit20''),
     (0x45, ''DW_OP_lit21''),
     (0x46, ''DW_OP_lit22''),
     (0x47, ''DW_OP_lit23''),
     (0x48, ''DW_OP_lit24''),
     (0x49, ''DW_OP_lit25''),
     (0x4a, ''DW_OP_lit26''),
     (0x4b, ''DW_OP_lit27''),
     (0x4c, ''DW_OP_lit28''),
     (0x4d, ''DW_OP_lit29''),
     (0x4e, ''DW_OP_lit30''),
     (0x4f, ''DW_OP_lit31''),
     (0x50, ''DW_OP_reg0''),
     (0x51, ''DW_OP_reg1''),
     (0x52, ''DW_OP_reg2''),
     (0x53, ''DW_OP_reg3''),
     (0x54, ''DW_OP_reg4''),
     (0x55, ''DW_OP_reg5''),
     (0x56, ''DW_OP_reg6''),
     (0x57, ''DW_OP_reg7''),
     (0x58, ''DW_OP_reg8''),
     (0x59, ''DW_OP_reg9''),
     (0x5a, ''DW_OP_reg10''),
     (0x5b, ''DW_OP_reg11''),
     (0x5c, ''DW_OP_reg12''),
     (0x5d, ''DW_OP_reg13''),
     (0x5e, ''DW_OP_reg14''),
     (0x5f, ''DW_OP_reg15''),
     (0x60, ''DW_OP_reg16''),
     (0x61, ''DW_OP_reg17''),
     (0x62, ''DW_OP_reg18''),
     (0x63, ''DW_OP_reg19''),
     (0x64, ''DW_OP_reg20''),
     (0x65, ''DW_OP_reg21''),
     (0x66, ''DW_OP_reg22''),
     (0x67, ''DW_OP_reg23''),
     (0x68, ''DW_OP_reg24''),
     (0x69, ''DW_OP_reg25''),
     (0x6a, ''DW_OP_reg26''),
     (0x6b, ''DW_OP_reg27''),
     (0x6c, ''DW_OP_reg28''),
     (0x6d, ''DW_OP_reg29''),
     (0x6e, ''DW_OP_reg30''),
     (0x6f, ''DW_OP_reg31''),
     (0x70, ''DW_OP_breg0''),
     (0x71, ''DW_OP_breg1''),
     (0x72, ''DW_OP_breg2''),
     (0x73, ''DW_OP_breg3''),
     (0x74, ''DW_OP_breg4''),
     (0x75, ''DW_OP_breg5''),
     (0x76, ''DW_OP_breg6''),
     (0x77, ''DW_OP_breg7''),
     (0x78, ''DW_OP_breg8''),
     (0x79, ''DW_OP_breg9''),
     (0x7a, ''DW_OP_breg10''),
     (0x7b, ''DW_OP_breg11''),
     (0x7c, ''DW_OP_breg12''),
     (0x7d, ''DW_OP_breg13''),
     (0x7e, ''DW_OP_breg14''),
     (0x7f, ''DW_OP_breg15''),
     (0x80, ''DW_OP_breg16''),
     (0x81, ''DW_OP_breg17''),
     (0x82, ''DW_OP_breg18''),
     (0x83, ''DW_OP_breg19''),
     (0x84, ''DW_OP_breg20''),
     (0x85, ''DW_OP_breg21''),
     (0x86, ''DW_OP_breg22''),
     (0x87, ''DW_OP_breg23''),
     (0x88, ''DW_OP_breg24''),
     (0x89, ''DW_OP_breg25''),
     (0x8a, ''DW_OP_breg26''),
     (0x8b, ''DW_OP_breg27''),
     (0x8c, ''DW_OP_breg28''),
     (0x8d, ''DW_OP_breg29''),
     (0x8e, ''DW_OP_breg30''),
     (0x8f, ''DW_OP_breg31''),
     (0x90, ''DW_OP_regx''),
     (0x91, ''DW_OP_fbreg''),
     (0x92, ''DW_OP_bregx''),
     (0x93, ''DW_OP_piece''),
     (0x94, ''DW_OP_deref_size''),
     (0x95, ''DW_OP_xderef_size''),
     (0x96, ''DW_OP_nop''),
     (0x97, ''DW_OP_push_object_address''),
     (0x98, ''DW_OP_call2''),
     (0x99, ''DW_OP_call4''),
     (0x9a, ''DW_OP_call_ref''),
     (0x9b, ''DW_OP_form_tls_address''),
     (0x9c, ''DW_OP_call_frame_cfa''),
     (0x9d, ''DW_OP_bit_piece''),
     (0x9e, ''DW_OP_implicit_value''),
     (0x9f, ''DW_OP_stack_value''),
     (0xa0, ''DW_OP_implicit_pointer''),
     (0xa1, ''DW_OP_addrx''),
     (0xa2, ''DW_OP_constx''),
     (0xa3, ''DW_OP_entry_value''),
     (0xa4, ''DW_OP_const_type''),
     (0xa5, ''DW_OP_regval_type''),
     (0xa6, ''DW_OP_deref_type''),
     (0xa7, ''DW_OP_xderef_type''),
     (0xa8, ''DW_OP_convert''),
     (0xa9, ''DW_OP_reinterpret''),
     (0xe0, ''DW_OP_GNU_push_tls_address''),
     (0xed, ''DW_OP_WASM_location''),
     (0xf0, ''DW_OP_GNU_uninit''),
     (0xf1, ''DW_OP_GNU_encoded_addr''),
     (0xf2, ''DW_OP_GNU_implicit_pointer''),
     (0xf3, ''DW_OP_GNU_entry_value''),
     (0xf4, ''DW_OP_GNU_const_type''),
     (0xf5, ''DW_OP_GNU_regval_type''),
     (0xf6, ''DW_OP_GNU_deref_type''),
     (0xf7, ''DW_OP_GNU_convert''),
     (0xf8, ''DW_OP_GNU_reinterpret''),
     (0xfa, ''DW_OP_GNU_parameter_ref''),
     (0xfb, ''DW_OP_GNU_addr_index''),
     (0xfc, ''DW_OP_GNU_const_index'')]"

subsection \<open>\<open>operationToString\<close>\<close>

text \<open>The cases of the switch, in their order.\<close>

definition operation_cases :: "(u8 \<times> string) list" where
  "operation_cases = [
     (0x03, ''DW_OP_addr''),
     (0x06, ''DW_OP_deref''),
     (0x08, ''DW_OP_const1u''),
     (0x09, ''DW_OP_const1s''),
     (0x0a, ''DW_OP_const2u''),
     (0x0b, ''DW_OP_const2s''),
     (0x0c, ''DW_OP_const4u''),
     (0x0d, ''DW_OP_const4s''),
     (0x0e, ''DW_OP_const8u''),
     (0x0f, ''DW_OP_const8s''),
     (0x10, ''DW_OP_constu''),
     (0x11, ''DW_OP_consts''),
     (0x12, ''DW_OP_dup''),
     (0x13, ''DW_OP_drop''),
     (0x14, ''DW_OP_over''),
     (0x15, ''DW_OP_pick''),
     (0x16, ''DW_OP_swap''),
     (0x17, ''DW_OP_rot''),
     (0x18, ''DW_OP_xderef''),
     (0x19, ''DW_OP_abs''),
     (0x1a, ''DW_OP_and''),
     (0x1b, ''DW_OP_div''),
     (0x1c, ''DW_OP_minus''),
     (0x1d, ''DW_OP_mod''),
     (0x1e, ''DW_OP_mul''),
     (0x1f, ''DW_OP_neg''),
     (0x20, ''DW_OP_not''),
     (0x21, ''DW_OP_or''),
     (0x22, ''DW_OP_plus''),
     (0x23, ''DW_OP_plus_uconst''),
     (0x24, ''DW_OP_shl''),
     (0x25, ''DW_OP_shr''),
     (0x26, ''DW_OP_shra''),
     (0x27, ''DW_OP_xor''),
     (0x28, ''DW_OP_bra''),
     (0x29, ''DW_OP_eq''),
     (0x2a, ''DW_OP_ge''),
     (0x2b, ''DW_OP_gt''),
     (0x2c, ''DW_OP_le''),
     (0x2d, ''DW_OP_lt''),
     (0x2e, ''DW_OP_ne''),
     (0x2f, ''DW_OP_skip''),
     (0x30, ''DW_OP_lit0''),
     (0x31, ''DW_OP_lit1''),
     (0x32, ''DW_OP_lit2''),
     (0x33, ''DW_OP_lit3''),
     (0x34, ''DW_OP_lit4''),
     (0x35, ''DW_OP_lit5''),
     (0x36, ''DW_OP_lit6''),
     (0x37, ''DW_OP_lit7''),
     (0x38, ''DW_OP_lit8''),
     (0x39, ''DW_OP_lit9''),
     (0x3a, ''DW_OP_lit10''),
     (0x3b, ''DW_OP_lit11''),
     (0x3c, ''DW_OP_lit12''),
     (0x3d, ''DW_OP_lit13''),
     (0x3e, ''DW_OP_lit14''),
     (0x3f, ''DW_OP_lit15''),
     (0x40, ''DW_OP_lit16''),
     (0x41, ''DW_OP_lit17''),
     (0x42, ''DW_OP_lit18''),
     (0x43, ''DW_OP_lit19''),
     (0x44, ''DW_OP_lit20''),
     (0x45, ''DW_OP_lit21''),
     (0x46, ''DW_OP_lit22''),
     (0x47, ''DW_OP_lit23''),
     (0x48, ''DW_OP_lit24''),
     (0x49, ''DW_OP_lit25''),
     (0x4a, ''DW_OP_lit26''),
     (0x4b, ''DW_OP_lit27''),
     (0x4c, ''DW_OP_lit28''),
     (0x4d, ''DW_OP_lit29''),
     (0x4e, ''DW_OP_lit30''),
     (0x4f, ''DW_OP_lit31''),
     (0x50, ''DW_OP_reg0''),
     (0x51, ''DW_OP_reg1''),
     (0x52, ''DW_OP_reg2''),
     (0x53, ''DW_OP_reg3''),
     (0x54, ''DW_OP_reg4''),
     (0x55, ''DW_OP_reg5''),
     (0x56, ''DW_OP_reg6''),
     (0x57, ''DW_OP_reg7''),
     (0x58, ''DW_OP_reg8''),
     (0x59, ''DW_OP_reg9''),
     (0x5a, ''DW_OP_reg10''),
     (0x5b, ''DW_OP_reg11''),
     (0x5c, ''DW_OP_reg12''),
     (0x5d, ''DW_OP_reg13''),
     (0x5e, ''DW_OP_reg14''),
     (0x5f, ''DW_OP_reg15''),
     (0x60, ''DW_OP_reg16''),
     (0x61, ''DW_OP_reg17''),
     (0x62, ''DW_OP_reg18''),
     (0x63, ''DW_OP_reg19''),
     (0x64, ''DW_OP_reg20''),
     (0x65, ''DW_OP_reg21''),
     (0x66, ''DW_OP_reg22''),
     (0x67, ''DW_OP_reg23''),
     (0x68, ''DW_OP_reg24''),
     (0x69, ''DW_OP_reg25''),
     (0x6a, ''DW_OP_reg26''),
     (0x6b, ''DW_OP_reg27''),
     (0x6c, ''DW_OP_reg28''),
     (0x6d, ''DW_OP_reg29''),
     (0x6e, ''DW_OP_reg30''),
     (0x6f, ''DW_OP_reg31''),
     (0x70, ''DW_OP_breg0''),
     (0x71, ''DW_OP_breg1''),
     (0x72, ''DW_OP_breg2''),
     (0x73, ''DW_OP_breg3''),
     (0x74, ''DW_OP_breg4''),
     (0x75, ''DW_OP_breg5''),
     (0x76, ''DW_OP_breg6''),
     (0x77, ''DW_OP_breg7''),
     (0x78, ''DW_OP_breg8''),
     (0x79, ''DW_OP_breg9''),
     (0x7a, ''DW_OP_breg10''),
     (0x7b, ''DW_OP_breg11''),
     (0x7c, ''DW_OP_breg12''),
     (0x7d, ''DW_OP_breg13''),
     (0x7e, ''DW_OP_breg14''),
     (0x7f, ''DW_OP_breg15''),
     (0x80, ''DW_OP_breg16''),
     (0x81, ''DW_OP_breg17''),
     (0x82, ''DW_OP_breg18''),
     (0x83, ''DW_OP_breg19''),
     (0x84, ''DW_OP_breg20''),
     (0x85, ''DW_OP_breg21''),
     (0x86, ''DW_OP_breg22''),
     (0x87, ''DW_OP_breg23''),
     (0x88, ''DW_OP_breg24''),
     (0x89, ''DW_OP_breg25''),
     (0x8a, ''DW_OP_breg26''),
     (0x8b, ''DW_OP_breg27''),
     (0x8c, ''DW_OP_breg28''),
     (0x8d, ''DW_OP_breg29''),
     (0x8e, ''DW_OP_breg30''),
     (0x8f, ''DW_OP_breg31''),
     (0x90, ''DW_OP_regx''),
     (0x91, ''DW_OP_fbreg''),
     (0x92, ''DW_OP_bregx''),
     (0x93, ''DW_OP_piece''),
     (0x94, ''DW_OP_deref_size''),
     (0x95, ''DW_OP_xderef_size''),
     (0x96, ''DW_OP_nop''),
     (0x97, ''DW_OP_push_object_address''),
     (0x98, ''DW_OP_call2''),
     (0x99, ''DW_OP_call4''),
     (0x9a, ''DW_OP_call_ref''),
     (0x9b, ''DW_OP_form_tls_address''),
     (0x9c, ''DW_OP_call_frame_cfa''),
     (0x9d, ''DW_OP_bit_piece''),
     (0x9e, ''DW_OP_implicit_value''),
     (0x9f, ''DW_OP_stack_value''),
     (0xa0, ''DW_OP_implicit_pointer''),
     (0xa1, ''DW_OP_addrx''),
     (0xa2, ''DW_OP_constx''),
     (0xa3, ''DW_OP_entry_value''),
     (0xa4, ''DW_OP_const_type''),
     (0xa5, ''DW_OP_regval_type''),
     (0xa6, ''DW_OP_deref_type''),
     (0xa7, ''DW_OP_xderef_type''),
     (0xa8, ''DW_OP_convert''),
     (0xa9, ''DW_OP_reinterpret''),
     (0xe0, ''DW_OP_GNU_push_tls_address''),
     (0xed, ''DW_OP_WASM_location''),
     (0xf0, ''DW_OP_GNU_uninit''),
     (0xf1, ''DW_OP_GNU_encoded_addr''),
     (0xf2, ''DW_OP_GNU_implicit_pointer''),
     (0xf3, ''DW_OP_GNU_entry_value''),
     (0xf4, ''DW_OP_GNU_const_type''),
     (0xf5, ''DW_OP_GNU_regval_type''),
     (0xf6, ''DW_OP_GNU_deref_type''),
     (0xf7, ''DW_OP_GNU_convert''),
     (0xf8, ''DW_OP_GNU_reinterpret''),
     (0xfa, ''DW_OP_GNU_parameter_ref''),
     (0xfb, ''DW_OP_GNU_addr_index''),
     (0xfc, ''DW_OP_GNU_const_index'')]"

definition operationToString :: "u8 \<Rightarrow> string" where
  "operationToString op =
     (case map_of operation_cases op of
        Some s \<Rightarrow> s
      | None \<Rightarrow> ''DW_OP_unknown_0x'' @ hex_string False (unat op))"

subsection \<open>Diagnostics\<close>

definition formatAddress :: "u64 \<Rightarrow> bool \<Rightarrow> string" where
  "formatAddress address hex =
     (if hex then ''0x'' @ hex_string True (unat address) else dec_string (unat address))"

definition formatOffset :: "u64 \<Rightarrow> bool \<Rightarrow> string" where
  "formatOffset offset hex = formatAddress offset hex"

text \<open>The loop of \<open>formatKeyValueFields\<close>; \<open>any\<close> says whether a field has been written.\<close>

fun key_value_loop :: "(string \<times> string) list \<Rightarrow> string \<Rightarrow> string \<Rightarrow> bool \<Rightarrow> string \<times> bool" where
  "key_value_loop [] prefix separator any = ([], any)"
| "key_value_loop (field # fields) prefix separator any =
     (if snd field = [] then key_value_loop fields prefix separator any
      else
        let (rest, any') = key_value_loop fields prefix separator True
        in ((if any then separator else prefix)
            @ (if fst field \<noteq> [] then fst field @ ''='' else []) @ snd field @ rest, any'))"

definition formatKeyValueFields :: "(string \<times> string) list \<Rightarrow> string \<Rightarrow> string \<Rightarrow> string \<Rightarrow> string" where
  "formatKeyValueFields fields prefix separator suffix =
     (let (text, any) = key_value_loop fields prefix separator False
      in if any then text @ suffix else text)"

definition formatDiagnosticContext :: "u64 option \<Rightarrow> u64 option \<Rightarrow> string \<Rightarrow> string" where
  "formatDiagnosticContext cu_offset die_offset attr =
     formatKeyValueFields
       ((case cu_offset of None \<Rightarrow> [] | Some v \<Rightarrow> [(''cu'', formatOffset v True)])
        @ (case die_offset of None \<Rightarrow> [] | Some v \<Rightarrow> [(''die'', formatOffset v True)])
        @ (if attr \<noteq> [] then [(''attr'', attr)] else []))
       '' ['' '', '' '']''"

subsection \<open>The names are the enumerators\<close>

fun ascending :: "nat list \<Rightarrow> bool" where
  "ascending (x # y # zs) \<longleftrightarrow> x < y \<and> ascending (y # zs)"
| "ascending _ \<longleftrightarrow> True"

lemma ascending_sorted_wrt: "ascending xs \<Longrightarrow> sorted_wrt (<) xs"
  by (induction xs rule: ascending.induct) (auto intro: less_trans)

lemma operation_cases_enum: "operation_cases = DwarfOp_enum"
  by (simp add: operation_cases_def DwarfOp_enum_def)

lemma distinct_operation_cases: "distinct (map fst operation_cases)"
proof -
  have "ascending (map (unat \<circ> fst) operation_cases)" by (simp add: operation_cases_def)
  then have "distinct (map unat (map fst operation_cases))"
    using ascending_sorted_wrt strict_sorted_iff by (simp only: map_map) blast
  then show ?thesis by (simp only: distinct_map)
qed

text \<open>
  Every enumerator of \<open>DwarfOp\<close> is printed as its own name; every other byte is printed as
  an unknown operation with its code.
\<close>

theorem operationToString_enum:
  "(\<forall>(op, name)\<in>set DwarfOp_enum. operationToString op = name) \<and>
   (\<forall>op. op \<notin> fst ` set DwarfOp_enum \<longrightarrow>
      operationToString op = ''DW_OP_unknown_0x'' @ hex_string False (unat op))"
proof (intro conjI allI impI ballI, clarify)
  fix op name assume "(op, name) \<in> set DwarfOp_enum"
  then have "map_of operation_cases op = Some name"
    using distinct_operation_cases operation_cases_enum by (simp add: map_of_eq_Some_iff)
  then show "operationToString op = name" by (simp add: operationToString_def)
next
  fix op assume "op \<notin> fst ` set DwarfOp_enum"
  then have "map_of operation_cases op = None"
    using operation_cases_enum by (simp add: map_of_eq_None_iff)
  then show "operationToString op = ''DW_OP_unknown_0x'' @ hex_string False (unat op)"
    by (simp add: operationToString_def)
qed

theorem operationToString_enum_witness:
  "operationToString DW_OP_plus = ''DW_OP_plus'' \<and> operationToString 0x01 = ''DW_OP_unknown_0x'' @ hex_string False 1"
proof -
  have "(DW_OP_plus, ''DW_OP_plus'') \<in> set DwarfOp_enum" "0x01 \<notin> fst ` set DwarfOp_enum"
    by (simp_all add: DwarfOp_enum_def)
  from bspec [OF conjunct1 [OF operationToString_enum] this(1)]
    mp [OF spec [OF conjunct2 [OF operationToString_enum]] this(2)]
  show ?thesis by simp
qed

end
