(* ===== verification/EvalCore.thy ===== *)
theory EvalCore
  imports OpNames FixedWidth
begin

section \<open>The expression evaluator: state, errors, bytes and operand readers\<close>

text \<open>
  The data of \<open>include/expression_evaluator.hpp\<close> and the helpers of
  \<open>src/expression_evaluator.cpp\<close>. The evaluator object is the record \<open>eval_state\<close>, passed
  explicitly; the static byte order of \<open>DwarfUtils\<close> is its field \<open>object_le\<close>. The memory context
  is the function its \<open>readMemory\<close> computes (the constructor and \<open>setMemoryContext\<close> replace a null
  pointer by \<open>DefaultMemoryContext\<close>, so the pointer is never null). An \<open>int64_t\<close> is the word with
  the same bits.
\<close>

subsection \<open>Data\<close>

datatype VendorExpressionProfile = NONE | SYNTHETIC_V1

definition vendorExpressionProfileName :: "VendorExpressionProfile \<Rightarrow> string" where
  "vendorExpressionProfileName p = (case p of NONE \<Rightarrow> ''none'' | SYNTHETIC_V1 \<Rightarrow> ''synthetic-v1'')"

type_synonym memory_context = "u64 \<Rightarrow> nat \<Rightarrow> bytes option"

definition DefaultMemoryContext :: memory_context where
  "DefaultMemoryContext a n = None"

record BaseTypeInfo =
  bt_byte_size :: nat
  bt_bit_size :: nat
  bt_is_integer :: bool
  bt_is_signed :: bool
  bt_is_boolean :: bool
  bt_is_address :: bool
  bt_is_float :: bool
  bt_endianity :: u64
  bt_encoding :: u8

record EvaluationContext =
  frame_base :: u64
  cfa :: u64
  object_address :: u64
  tls_base :: u64
  text_base :: u64
  data_base :: u64
  function_base :: u64
  debug_addr_table :: "u64 list option"
  ctx_addr_base :: u64
  entry_registers :: "u64 list"
  ctx_address_size :: u8
  ctx_offset_size :: u8
  cu_base_offset :: u64
  vendor_expression_profile :: VendorExpressionProfile
  diagnostic_cu_offset :: "u64 option"
  diagnostic_die_offset :: "u64 option"
  diagnostic_attribute :: string
  resolve_base_type :: "(u64 \<Rightarrow> BaseTypeInfo option) option"
  resolve_dwarf_procedure :: "(u64 \<Rightarrow> u64 \<Rightarrow> bytes option) option"

definition default_context :: EvaluationContext where
  "default_context =
     \<lparr>frame_base = 0, cfa = 0, object_address = 0, tls_base = 0, text_base = 0, data_base = 0,
      function_base = 0, debug_addr_table = None, ctx_addr_base = 0, entry_registers = [],
      ctx_address_size = 8, ctx_offset_size = 4, cu_base_offset = 0,
      vendor_expression_profile = NONE, diagnostic_cu_offset = None,
      diagnostic_die_offset = None, diagnostic_attribute = [],
      resolve_base_type = None, resolve_dwarf_procedure = None\<rparr>"

datatype piece_kind = PIECE_MEMORY | PIECE_REGISTER | PIECE_IMPLICIT | PIECE_EMPTY

record PieceDescriptor =
  piece_kind :: piece_kind
  piece_location :: u64
  piece_byte_size :: u64
  piece_bit_size :: u64
  piece_bit_offset :: u64
  implicit_value :: bytes

datatype result_type = RT_ADDRESS | RT_VALUE | RT_REGISTER | RT_COMPOSITE | RT_INVALID

record ExpressionResult =
  res_type :: result_type
  res_value :: u64
  res_description :: string
  res_uninitialized :: bool
  unsupported_opcode :: "u8 option"
  unsupported_vendor_extension :: bool
  raw_value_bytes :: bytes
  res_pieces :: "PieceDescriptor list"

definition expression_result :: "result_type \<Rightarrow> u64 \<Rightarrow> string \<Rightarrow> ExpressionResult" where
  "expression_result t v desc =
     \<lparr>res_type = t, res_value = v, res_description = desc, res_uninitialized = False,
      unsupported_opcode = None, unsupported_vendor_extension = False,
      raw_value_bytes = [], res_pieces = []\<rparr>"

definition composite_result :: "PieceDescriptor list \<Rightarrow> string \<Rightarrow> ExpressionResult" where
  "composite_result p desc = (expression_result RT_COMPOSITE 0 desc)\<lparr>res_pieces := p\<rparr>"

text \<open>The stack \<open>stack_\<close> is a list with its top first.\<close>

record eval_state =
  stack :: "u64 list"
  eval_pc :: u64
  registers :: "u64 list"
  memory :: memory_context
  context_of :: EvaluationContext
  pieces :: "PieceDescriptor list"
  is_register_location :: bool
  is_implicit_value :: bool
  pending_implicit_bytes :: "bytes option"
  call_depth :: nat
  uninitialized_taint :: bool
  execution_error :: bool
  execution_error_message :: string
  object_le :: bool

definition new_evaluator :: "bool \<Rightarrow> memory_context \<Rightarrow> eval_state" where
  "new_evaluator le m =
     \<lparr>stack = [], eval_pc = 0, registers = [], memory = m, context_of = default_context, pieces = [],
      is_register_location = False, is_implicit_value = False, pending_implicit_bytes = None,
      call_depth = 0, uninitialized_taint = False, execution_error = False,
      execution_error_message = [], object_le = le\<rparr>"

definition setContext :: "EvaluationContext \<Rightarrow> eval_state \<Rightarrow> eval_state" where
  "setContext c s = s\<lparr>context_of := c\<rparr>"

definition setMemoryContext :: "memory_context option \<Rightarrow> eval_state \<Rightarrow> eval_state" where
  "setMemoryContext m s = s\<lparr>memory := (case m of Some f \<Rightarrow> f | None \<Rightarrow> DefaultMemoryContext)\<rparr>"

subsection \<open>Memory\<close>

text \<open>
  \<open>std::vector<uint8_t> buf(n); readMemory(a, n, buf.data())\<close>: the buffer is zeroed and has \<open>n\<close>
  bytes, whatever the context writes into it.
\<close>

definition mem_read :: "eval_state \<Rightarrow> u64 \<Rightarrow> nat \<Rightarrow> bytes option" where
  "mem_read s a n = map_option (\<lambda>bs. take n (bs @ replicate n 0)) (memory s a n)"

lemma mem_read_length: "mem_read s a n = Some bs \<Longrightarrow> length bs = n"
  by (auto simp: mem_read_def)

text \<open>
  The contract of a memory context: a successful read of at most \<open>limit\<close> bytes fills the buffer.
\<close>

locale reading_memory =
  fixes read_memory :: memory_context and limit :: nat
  assumes fills: "n \<le> limit \<Longrightarrow> read_memory a n = Some bs \<Longrightarrow> length bs = n"
begin

lemma mem_read_exact: "memory s = read_memory \<Longrightarrow> n \<le> limit \<Longrightarrow> mem_read s a n = read_memory a n"
  using fills [of n a] by (cases "read_memory a n") (auto simp: mem_read_def)

end

interpretation default_memory: reading_memory DefaultMemoryContext limit for limit
  by unfold_locales (simp add: DefaultMemoryContext_def)

subsection \<open>Errors and the stack\<close>

definition diagnosticContextSuffix :: "eval_state \<Rightarrow> string" where
  "diagnosticContextSuffix s =
     formatDiagnosticContext (diagnostic_cu_offset (context_of s))
       (diagnostic_die_offset (context_of s)) (diagnostic_attribute (context_of s))"

text \<open>The first error is kept.\<close>

definition setExecutionError :: "string \<Rightarrow> eval_state \<Rightarrow> eval_state" where
  "setExecutionError msg s =
     (if execution_error s then s
      else s\<lparr>execution_error := True, execution_error_message := msg @ diagnosticContextSuffix s\<rparr>)"

definition push :: "u64 \<Rightarrow> eval_state \<Rightarrow> eval_state" where
  "push v s = s\<lparr>stack := v # stack s\<rparr>"

definition pop :: "eval_state \<Rightarrow> u64 \<times> eval_state" where
  "pop s = (case stack s of [] \<Rightarrow> (0, s) | v # vs \<Rightarrow> (v, s\<lparr>stack := vs\<rparr>))"

definition top_value :: "eval_state \<Rightarrow> u64" where
  "top_value s = (case stack s of [] \<Rightarrow> 0 | v # vs \<Rightarrow> v)"

text \<open>\<open>if (!requireStack(n, op)) return;\<close> followed by \<open>k\<close>.\<close>

definition requireStack ::
  "nat \<Rightarrow> string \<Rightarrow> nat \<Rightarrow> eval_state \<Rightarrow> (eval_state \<Rightarrow> nat \<times> eval_state) \<Rightarrow> nat \<times> eval_state" where
  "requireStack n op_name off s k =
     (if n \<le> length (stack s) then k s
      else (off, setExecutionError (''Stack underflow in '' @ op_name) s))"

lemma execution_error_set [simp]: "execution_error (setExecutionError msg s)"
  by (simp add: setExecutionError_def)

lemma stack_setExecutionError [simp]: "stack (setExecutionError msg s) = stack s"
  by (simp add: setExecutionError_def)

lemma setExecutionError_latch: "execution_error s \<Longrightarrow> setExecutionError msg s = s"
  by (simp add: setExecutionError_def)

subsection \<open>Byte helpers\<close>

definition dwarfSectionOffsetBias :: "u64 \<Rightarrow> u64" where
  "dwarfSectionOffsetBias cu_offset =
     (let kLow48Mask = push_bit 48 1 - 1;
          kBiasBits = push_bit 63 1 OR push_bit 62 1
      in if cu_offset AND kBiasBits = 0 then 0
         else cu_offset AND NOT kLow48Mask)"

definition addSignedOffset :: "u64 \<Rightarrow> u64 \<Rightarrow> u64" where
  "addSignedOffset base off = (if 0 \<le>s off then base + off else base - (- off))"

lemma addSignedOffset_eq [simp]: "addSignedOffset base off = base + off"
  by (simp add: addSignedOffset_def)

definition alignOffsetUp :: "nat \<Rightarrow> nat \<Rightarrow> nat" where
  "alignOffsetUp off align =
     (if align \<le> 1 then off
      else let rem = off mod align in if rem = 0 then off else u64_add off (align - rem))"

definition maskToBytes :: "u64 \<Rightarrow> nat \<Rightarrow> u64" where
  "maskToBytes v byte_size =
     (if byte_size = 0 then v
      else if 8 \<le> byte_size then v
      else let bits = byte_size * 8 in v AND (push_bit bits 1 - 1))"

definition signExtendBytes :: "u64 \<Rightarrow> nat \<Rightarrow> u64" where
  "signExtendBytes v byte_size =
     (if byte_size = 0 then v
      else if 8 \<le> byte_size then v
      else
        let v = maskToBytes v byte_size;
            shift = 64 - byte_size * 8
        in signed_drop_bit shift (push_bit shift v))"

definition decodeU64FromBytes :: "bytes \<Rightarrow> nat \<Rightarrow> bool \<Rightarrow> u64" where
  "decodeU64FromBytes bs n little_endian =
     (if n = 0 then 0
      else
        let n = (if 8 < n then 8 else n)
        in if little_endian
           then foldl (\<lambda>v i. v OR push_bit (i * 8) (ucast (bs ! i))) 0 [0..<n]
           else foldl (\<lambda>v i. push_bit 8 v OR ucast (bs ! i)) 0 [0..<n])"

definition encodeU64ToBytes :: "u64 \<Rightarrow> nat \<Rightarrow> bool \<Rightarrow> bytes" where
  "encodeU64ToBytes v n little_endian =
     (if little_endian
      then map (\<lambda>i. ucast (drop_bit (i * 8) v AND 0xff)) [0..<n]
      else map (\<lambda>i. ucast (drop_bit ((n - 1 - i) * 8) v AND 0xff)) [0..<n])"

definition decodeResultValueFromBytes :: "bool \<Rightarrow> bytes \<Rightarrow> u64" where
  "decodeResultValueFromBytes le bs =
     (if bs = [] then 0 else decodeU64FromBytes bs (min (length bs) 8) le)"

definition lowBytesForResultValue :: "bool \<Rightarrow> u64 \<Rightarrow> nat \<Rightarrow> bytes" where
  "lowBytesForResultValue le v byte_size = encodeU64ToBytes v (min byte_size 8) le"

definition decode_buf :: "eval_state \<Rightarrow> bytes \<Rightarrow> u64" where
  "decode_buf s bs = decodeU64FromBytes bs (length bs) (object_le s)"

subsection \<open>Operand readers\<close>

text \<open>
  The readers check the remaining length first and then call the reader of \<open>DwarfUtils\<close>, which
  therefore always returns (\<open>ev_readers_return\<close>); a failed check sets the error and moves the
  offset to the end.
\<close>

definition avail :: "bytes \<Rightarrow> nat \<Rightarrow> nat" where
  "avail d off = (if off \<le> length d then length d - off else 0)"

definition checked_read ::
  "nat \<Rightarrow> string \<Rightarrow> ('v \<times> nat) outcome \<Rightarrow> 'v \<Rightarrow> bytes \<Rightarrow> nat \<Rightarrow> eval_state \<Rightarrow> 'v \<times> nat \<times> eval_state" where
  "checked_read n what r zero d off s =
     (if avail d off < n then (zero, length d, setExecutionError (''truncated '' @ what) s)
      else case r of Ret (v, off') \<Rightarrow> (v, off', s) | _ \<Rightarrow> (zero, off, s))"

definition ev_readU8 :: "bytes \<Rightarrow> nat \<Rightarrow> eval_state \<Rightarrow> u8 \<times> nat \<times> eval_state" where
  "ev_readU8 d off s = checked_read 1 ''u8'' (readU8 d off (length d)) 0 d off s"

definition ev_readU16 :: "bytes \<Rightarrow> nat \<Rightarrow> eval_state \<Rightarrow> u16 \<times> nat \<times> eval_state" where
  "ev_readU16 d off s = checked_read 2 ''u16'' (readU16 (object_le s) d off (length d)) 0 d off s"

definition ev_readU32 :: "bytes \<Rightarrow> nat \<Rightarrow> eval_state \<Rightarrow> u32 \<times> nat \<times> eval_state" where
  "ev_readU32 d off s = checked_read 4 ''u32'' (readU32 (object_le s) d off (length d)) 0 d off s"

definition ev_readU64 :: "bytes \<Rightarrow> nat \<Rightarrow> eval_state \<Rightarrow> u64 \<times> nat \<times> eval_state" where
  "ev_readU64 d off s = checked_read 8 ''u64'' (readU64 (object_le s) d off (length d)) 0 d off s"

function ev_uleb_loop :: "bytes \<Rightarrow> nat \<Rightarrow> eval_state \<Rightarrow> u64 \<Rightarrow> nat \<Rightarrow> u64 \<times> nat \<times> eval_state" where
  "ev_uleb_loop d off s result shift =
     (if length d \<le> off then (result, off, setExecutionError ''truncated uleb128'' s)
      else
        let byte = d ! off
        in if 63 < shift \<or> (shift = 63 \<and> 1 < byte AND 0x7f)
           then (result, Suc off, setExecutionError ''uleb128 overflow'' s)
           else
             let result' = result OR push_bit shift (ucast (byte AND 0x7f))
             in if byte AND 0x80 = 0 then (result', Suc off, s)
                else ev_uleb_loop d (Suc off) s result' (shift + 7))"
  by pat_completeness auto
termination
  by (relation "measure (\<lambda>(d, off, s, r, sh). length d - off)") auto

declare ev_uleb_loop.simps [simp del]

definition ev_readULEB128 :: "bytes \<Rightarrow> nat \<Rightarrow> eval_state \<Rightarrow> u64 \<times> nat \<times> eval_state" where
  "ev_readULEB128 d off s =
     (if length d \<le> off then (0, off, setExecutionError ''truncated uleb128'' s)
      else ev_uleb_loop d off s 0 0)"

text \<open>
  The signed loop ends with \<open>Inl\<close> result (an early return) or with \<open>Inr\<close> (result, shift, byte).
\<close>

function ev_sleb_loop ::
  "bytes \<Rightarrow> nat \<Rightarrow> eval_state \<Rightarrow> u64 \<Rightarrow> nat \<Rightarrow> (u64 + u64 \<times> nat \<times> u8) \<times> nat \<times> eval_state" where
  "ev_sleb_loop d off s result shift =
     (if length d \<le> off then (Inl result, off, setExecutionError ''truncated sleb128'' s)
      else
        let byte = d ! off
        in if 63 < shift \<or> (shift = 63 \<and> byte AND 0x7f \<noteq> 0 \<and> byte AND 0x7f \<noteq> 0x7f)
           then (Inl result, Suc off, setExecutionError ''sleb128 overflow'' s)
           else
             let result' = result OR push_bit shift (ucast (byte AND 0x7f))
             in if byte AND 0x80 = 0 then (Inr (result', shift + 7, byte), Suc off, s)
                else ev_sleb_loop d (Suc off) s result' (shift + 7))"
  by pat_completeness auto
termination
  by (relation "measure (\<lambda>(d, off, s, r, sh). length d - off)") auto

declare ev_sleb_loop.simps [simp del]

definition ev_readSLEB128 :: "bytes \<Rightarrow> nat \<Rightarrow> eval_state \<Rightarrow> u64 \<times> nat \<times> eval_state" where
  "ev_readSLEB128 d off s =
     (if length d \<le> off then (0, off, setExecutionError ''truncated sleb128'' s)
      else
        case ev_sleb_loop d off s 0 0 of
          (Inl result, off', s') \<Rightarrow> (result, off', s')
        | (Inr (result, shift, byte), off', s') \<Rightarrow>
            (if shift < 64 \<and> byte AND 0x40 \<noteq> 0 then result OR - push_bit shift 1 else result, off', s'))"

definition ev_readAddressSized :: "bytes \<Rightarrow> nat \<Rightarrow> eval_state \<Rightarrow> u64 \<times> nat \<times> eval_state" where
  "ev_readAddressSized d off s =
     (if ctx_address_size (context_of s) = 4
        then (case ev_readU32 d off s of (v, off', s') \<Rightarrow> (ucast v, off', s'))
      else if ctx_address_size (context_of s) = 8 then ev_readU64 d off s
      else (0, off, setExecutionError ''invalid address_size'' s))"

definition ev_readOffsetSized :: "bytes \<Rightarrow> nat \<Rightarrow> eval_state \<Rightarrow> u64 \<times> nat \<times> eval_state" where
  "ev_readOffsetSized d off s =
     (if ctx_offset_size (context_of s) = 4
        then (case ev_readU32 d off s of (v, off', s') \<Rightarrow> (ucast v, off', s'))
      else if ctx_offset_size (context_of s) = 8 then ev_readU64 d off s
      else (0, off, setExecutionError ''invalid offset_size'' s))"

definition pointerByteSize :: "string \<Rightarrow> eval_state \<Rightarrow> nat \<times> eval_state" where
  "pointerByteSize op_name s =
     (if ctx_address_size (context_of s) = 4 then (4, s)
      else if ctx_address_size (context_of s) = 8 then (8, s)
      else (0, setExecutionError (''invalid address_size in '' @ op_name) s))"

end
