(* ===== verification/EvalOps.thy ===== *)
theory EvalOps
  imports EvalCore
begin

section \<open>The expression evaluator: operation handlers\<close>

text \<open>
  One definition per handler of \<open>src/expression_evaluator.cpp\<close>. A handler gets the expression,
  the offset behind the opcode and the evaluator, and returns the new offset and evaluator; the
  families of handlers with the same body share a helper. The handlers that evaluate another
  expression return an option and take the nested evaluators as a parameter, which
  \<open>Evaluator\<close> instantiates.
\<close>

type_synonym handler = "bytes \<Rightarrow> nat \<Rightarrow> eval_state \<Rightarrow> nat \<times> eval_state"

subsection \<open>Constants\<close>

definition handleAddr :: handler where
  "handleAddr e off s =
     (case ev_readAddressSized e off s of (addr, off, s) \<Rightarrow>
        if execution_error s then (off, s) else (off, push addr s))"

definition handleConst1u :: handler where
  "handleConst1u e off s = (case ev_readU8 e off s of (v, off, s) \<Rightarrow> (off, push (ucast v) s))"

definition handleConst1s :: handler where
  "handleConst1s e off s = (case ev_readU8 e off s of (v, off, s) \<Rightarrow> (off, push (scast v) s))"

definition handleConst2u :: handler where
  "handleConst2u e off s = (case ev_readU16 e off s of (v, off, s) \<Rightarrow> (off, push (ucast v) s))"

definition handleConst2s :: handler where
  "handleConst2s e off s = (case ev_readU16 e off s of (v, off, s) \<Rightarrow> (off, push (scast v) s))"

definition handleConst4u :: handler where
  "handleConst4u e off s = (case ev_readU32 e off s of (v, off, s) \<Rightarrow> (off, push (ucast v) s))"

definition handleConst4s :: handler where
  "handleConst4s e off s = (case ev_readU32 e off s of (v, off, s) \<Rightarrow> (off, push (scast v) s))"

definition handleConst8u :: handler where
  "handleConst8u e off s = (case ev_readU64 e off s of (v, off, s) \<Rightarrow> (off, push v s))"

definition handleConst8s :: handler where
  "handleConst8s e off s = (case ev_readU64 e off s of (v, off, s) \<Rightarrow> (off, push v s))"

definition handleConstu :: handler where
  "handleConstu e off s = (case ev_readULEB128 e off s of (v, off, s) \<Rightarrow> (off, push v s))"

definition handleConsts :: handler where
  "handleConsts e off s = (case ev_readSLEB128 e off s of (v, off, s) \<Rightarrow> (off, push v s))"

definition handleLit :: handler where
  "handleLit e off s = (let opcode = e ! (off - 1) in (off, push (ucast (opcode - DW_OP_lit0)) s))"

subsection \<open>Stack operations\<close>

definition handleDup :: handler where
  "handleDup e off s = requireStack 1 ''DW_OP_dup'' off s (\<lambda>s. (off, push (hd (stack s)) s))"

definition handleDrop :: handler where
  "handleDrop e off s = requireStack 1 ''DW_OP_drop'' off s (\<lambda>s. (off, snd (pop s)))"

definition handleOver :: handler where
  "handleOver e off s = requireStack 2 ''DW_OP_over'' off s (\<lambda>s.
     case pop s of (val1, s) \<Rightarrow> case pop s of (val2, s) \<Rightarrow>
       (off, push val2 (push val1 (push val2 s))))"

text \<open>The loops over the temporary stack leave \<open>stack_\<close> as it was and copy its \<open>index\<close>-th entry.\<close>

definition handlePick :: handler where
  "handlePick e off s =
     (case ev_readU8 e off s of (index, off, s) \<Rightarrow>
        requireStack 1 ''DW_OP_pick'' off s (\<lambda>s.
          if length (stack s) \<le> unat index
          then (off, setExecutionError ''DW_OP_pick index out of range'' s)
          else (off, push (stack s ! unat index) s)))"

definition handleSwap :: handler where
  "handleSwap e off s = requireStack 2 ''DW_OP_swap'' off s (\<lambda>s.
     case pop s of (val1, s) \<Rightarrow> case pop s of (val2, s) \<Rightarrow> (off, push val2 (push val1 s)))"

definition handleRot :: handler where
  "handleRot e off s = requireStack 3 ''DW_OP_rot'' off s (\<lambda>s.
     case pop s of (val1, s) \<Rightarrow> case pop s of (val2, s) \<Rightarrow> case pop s of (val3, s) \<Rightarrow>
       (off, push val3 (push val1 (push val2 s))))"

subsection \<open>Arithmetic, logic and comparison\<close>

definition unop :: "string \<Rightarrow> (u64 \<Rightarrow> u64) \<Rightarrow> handler" where
  "unop name f e off s = requireStack 1 name off s (\<lambda>s.
     case pop s of (val, s) \<Rightarrow> (off, push (f val) s))"

definition binop :: "string \<Rightarrow> (u64 \<Rightarrow> u64 \<Rightarrow> u64) \<Rightarrow> handler" where
  "binop name f e off s = requireStack 2 name off s (\<lambda>s.
     case pop s of (val2, s) \<Rightarrow> case pop s of (val1, s) \<Rightarrow> (off, push (f val1 val2) s))"

definition truth :: "bool \<Rightarrow> u64" where
  "truth b = (if b then 1 else 0)"

definition handleAbs :: handler where
  "handleAbs = unop ''DW_OP_abs'' (\<lambda>val. if val <s 0 then - val else val)"

definition handleNeg :: handler where
  "handleNeg = unop ''DW_OP_neg'' (\<lambda>val. - val)"

definition handleNot :: handler where
  "handleNot = unop ''DW_OP_not'' (\<lambda>val. NOT val)"

definition handleAnd :: handler where
  "handleAnd = binop ''DW_OP_and'' (\<lambda>val1 val2. val1 AND val2)"

definition handleDiv :: handler where
  "handleDiv = binop ''DW_OP_div'' (\<lambda>val1 val2. if val2 \<noteq> 0 then val1 div val2 else 0)"

definition handleMinus :: handler where
  "handleMinus = binop ''DW_OP_minus'' (\<lambda>val1 val2. val1 - val2)"

definition handleMod :: handler where
  "handleMod = binop ''DW_OP_mod'' (\<lambda>val1 val2. if val2 \<noteq> 0 then val1 mod val2 else 0)"

definition handleMul :: handler where
  "handleMul = binop ''DW_OP_mul'' (\<lambda>val1 val2. val1 * val2)"

definition handleOr :: handler where
  "handleOr = binop ''DW_OP_or'' (\<lambda>val1 val2. val1 OR val2)"

definition handlePlus :: handler where
  "handlePlus = binop ''DW_OP_plus'' (\<lambda>val1 val2. val1 + val2)"

definition handleShl :: handler where
  "handleShl = binop ''DW_OP_shl'' (\<lambda>val1 val2. push_bit (unat (val2 AND 63)) val1)"

definition handleShr :: handler where
  "handleShr = binop ''DW_OP_shr'' (\<lambda>val1 val2. drop_bit (unat (val2 AND 63)) val1)"

definition handleShra :: handler where
  "handleShra = binop ''DW_OP_shra'' (\<lambda>val1 val2. signed_drop_bit (unat (val2 AND 63)) val1)"

definition handleXor :: handler where
  "handleXor = binop ''DW_OP_xor'' (\<lambda>val1 val2. val1 XOR val2)"

definition handleEq :: handler where
  "handleEq = binop ''DW_OP_eq'' (\<lambda>val1 val2. truth (val1 = val2))"

definition handleGe :: handler where
  "handleGe = binop ''DW_OP_ge'' (\<lambda>val1 val2. truth (val2 \<le>s val1))"

definition handleGt :: handler where
  "handleGt = binop ''DW_OP_gt'' (\<lambda>val1 val2. truth (val2 <s val1))"

definition handleLe :: handler where
  "handleLe = binop ''DW_OP_le'' (\<lambda>val1 val2. truth (val1 \<le>s val2))"

definition handleLt :: handler where
  "handleLt = binop ''DW_OP_lt'' (\<lambda>val1 val2. truth (val1 <s val2))"

definition handleNe :: handler where
  "handleNe = binop ''DW_OP_ne'' (\<lambda>val1 val2. truth (val1 \<noteq> val2))"

definition plus_uconst :: "string \<Rightarrow> handler" where
  "plus_uconst name e off s =
     (case ev_readULEB128 e off s of (uconst, off, s) \<Rightarrow>
        requireStack 1 name off s (\<lambda>s.
          case pop s of (val, s) \<Rightarrow> (off, push (val + uconst) s)))"

definition handlePlusUconst :: handler where
  "handlePlusUconst = plus_uconst ''DW_OP_plus_uconst''"

subsection \<open>Control flow\<close>

definition jump :: "string \<Rightarrow> u16 \<Rightarrow> handler" where
  "jump name target e off s =
     (let dest = int off + sint target
      in if dest < 0 \<or> int (length e) < dest
         then (off, setExecutionError (name @ '' target out of range'') s)
         else (nat dest, s))"

definition handleBra :: handler where
  "handleBra e off s =
     (case ev_readU16 e off s of (target, off, s) \<Rightarrow>
        requireStack 1 ''DW_OP_bra'' off s (\<lambda>s.
          case pop s of (condition, s) \<Rightarrow>
            if condition \<noteq> 0 then jump ''DW_OP_bra'' target e off s else (off, s)))"

definition handleSkip :: handler where
  "handleSkip e off s =
     (case ev_readU16 e off s of (target, off, s) \<Rightarrow> jump ''DW_OP_skip'' target e off s)"

definition handleNop :: handler where
  "handleNop e off s = (off, s)"

subsection \<open>Registers, frame and context\<close>

definition register_or_zero :: "eval_state \<Rightarrow> u64 \<Rightarrow> u64" where
  "register_or_zero s r = (if unat r < length (registers s) then registers s ! unat r else 0)"

definition handleReg :: handler where
  "handleReg e off s =
     (let opcode = e ! (off - 1)
      in (off, (push (ucast (opcode - DW_OP_reg0)) s)\<lparr>is_register_location := True\<rparr>))"

definition handleBreg :: handler where
  "handleBreg e off s =
     (let reg_num = e ! (off - 1) - DW_OP_breg0
      in case ev_readSLEB128 e off s of (offset_val, off, s) \<Rightarrow>
           (off, push (addSignedOffset (register_or_zero s (ucast reg_num)) offset_val) s))"

definition handleRegx :: handler where
  "handleRegx e off s =
     (case ev_readULEB128 e off s of (reg_num, off, s) \<Rightarrow>
        (off, (push reg_num s)\<lparr>is_register_location := True\<rparr>))"

definition handleFbreg :: handler where
  "handleFbreg e off s =
     (case ev_readSLEB128 e off s of (offset_val, off, s) \<Rightarrow>
        (off, push (addSignedOffset (frame_base (context_of s)) offset_val) s))"

definition handleBregx :: handler where
  "handleBregx e off s =
     (case ev_readULEB128 e off s of (reg_num, off, s) \<Rightarrow>
      case ev_readSLEB128 e off s of (offset_val, off, s) \<Rightarrow>
        (off, push (addSignedOffset (register_or_zero s reg_num) offset_val) s))"

definition handlePushObjectAddress :: handler where
  "handlePushObjectAddress e off s = (off, push (object_address (context_of s)) s)"

definition handleCallFrameCfa :: handler where
  "handleCallFrameCfa e off s = (off, push (cfa (context_of s)) s)"

definition handleFormTlsAddress :: handler where
  "handleFormTlsAddress = (\<lambda>e off s. requireStack 1 ''DW_OP_form_tls_address'' off s (\<lambda>s.
     case pop s of (tls_offset, s) \<Rightarrow> (off, push (tls_base (context_of s) + tls_offset) s)))"

definition handleGnuPushTlsAddress :: handler where
  "handleGnuPushTlsAddress = handleFormTlsAddress"

definition handleGnuUninit :: handler where
  "handleGnuUninit e off s = (off, s\<lparr>uninitialized_taint := True\<rparr>)"

definition indexed_address :: "string \<Rightarrow> handler" where
  "indexed_address name e off s =
     (case ev_readULEB128 e off s of (index, off, s) \<Rightarrow>
        case debug_addr_table (context_of s) of
          Some tab \<Rightarrow>
            if unat index < length tab then (off, push (tab ! unat index) s)
            else (off, setExecutionError (name @ '' index out of range or debug_addr unavailable'') s)
        | None \<Rightarrow> (off, setExecutionError (name @ '' index out of range or debug_addr unavailable'') s))"

definition handleAddrx :: handler where
  "handleAddrx = indexed_address ''DW_OP_addrx''"

definition handleConstx :: handler where
  "handleConstx = indexed_address ''DW_OP_constx''"

definition handleGnuAddrIndex :: handler where
  "handleGnuAddrIndex = handleAddrx"

definition handleGnuConstIndex :: handler where
  "handleGnuConstIndex = handleConstx"

subsection \<open>Memory\<close>

definition load_pointer :: "string \<Rightarrow> u64 \<Rightarrow> nat \<Rightarrow> eval_state \<Rightarrow> nat \<times> eval_state" where
  "load_pointer name addr off s =
     (case pointerByteSize name s of (n, s) \<Rightarrow>
        if execution_error s then (off, s)
        else case mem_read s addr n of
               Some buf \<Rightarrow> (off, push (decode_buf s buf) s)
             | None \<Rightarrow> (off, setExecutionError (name @ '' memory read failed'') s))"

definition load_sized :: "string \<Rightarrow> u64 \<Rightarrow> u8 \<Rightarrow> nat \<Rightarrow> eval_state \<Rightarrow> nat \<times> eval_state" where
  "load_sized name addr sz off s =
     (case mem_read s addr (unat sz) of
        Some buf \<Rightarrow> (off, (push (decode_buf s buf) s)\<lparr>pending_implicit_bytes := Some buf\<rparr>)
      | None \<Rightarrow> (off, setExecutionError (name @ '' memory read failed'') s))"

definition handleDeref :: handler where
  "handleDeref e off s = requireStack 1 ''DW_OP_deref'' off s (\<lambda>s.
     case pop s of (addr, s) \<Rightarrow> load_pointer ''DW_OP_deref'' addr off s)"

definition handleXderef :: handler where
  "handleXderef e off s = requireStack 2 ''DW_OP_xderef'' off s (\<lambda>s.
     case pop s of (addr, s) \<Rightarrow> case pop s of (space, s) \<Rightarrow> load_pointer ''DW_OP_xderef'' addr off s)"

definition deref_size :: "string \<Rightarrow> handler" where
  "deref_size name e off s =
     (case ev_readU8 e off s of (sz, off, s) \<Rightarrow>
        requireStack 1 name off s (\<lambda>s.
          case pop s of (addr, s) \<Rightarrow> load_sized name addr sz off s))"

definition handleDerefSize :: handler where
  "handleDerefSize = deref_size ''DW_OP_deref_size''"

definition handleXderefSize :: handler where
  "handleXderefSize e off s =
     (case ev_readU8 e off s of (sz, off, s) \<Rightarrow>
        requireStack 2 ''DW_OP_xderef_size'' off s (\<lambda>s.
          case pop s of (addr, s) \<Rightarrow> case pop s of (space, s) \<Rightarrow>
            load_sized ''DW_OP_xderef_size'' addr sz off s))"

subsection \<open>Pieces and implicit values\<close>

text \<open>
  What \<open>handlePiece\<close> and \<open>handleBitPiece\<close> do once the sizes of the piece are known.
\<close>

definition add_piece :: "PieceDescriptor \<Rightarrow> nat \<Rightarrow> eval_state \<Rightarrow> nat \<times> eval_state" where
  "add_piece piece off s =
     (off, s\<lparr>pieces := pieces s @ [piece], is_register_location := False, is_implicit_value := False,
             pending_implicit_bytes := None\<rparr>)"

definition emit_piece :: "string \<Rightarrow> PieceDescriptor \<Rightarrow> nat \<Rightarrow> eval_state \<Rightarrow> nat \<times> eval_state" where
  "emit_piece name piece off s =
     (if stack s = [] then add_piece (piece\<lparr>piece_kind := PIECE_EMPTY\<rparr>) off s
      else
        case pop s of (v, s) \<Rightarrow>
          if is_implicit_value s then
            (case pending_implicit_bytes s of
               Some bs \<Rightarrow>
                 add_piece (piece\<lparr>piece_kind := PIECE_IMPLICIT,
                   implicit_value := (if unat (piece_byte_size piece) < length bs
                                      then take (unat (piece_byte_size piece)) bs else bs)\<rparr>) off s
             | None \<Rightarrow>
                 if 8 < unat (piece_byte_size piece)
                 then (off, setExecutionError
                        (name @ '' requires explicit bytes for values wider than 8 bytes'') s)
                 else add_piece (piece\<lparr>piece_kind := PIECE_IMPLICIT,
                        implicit_value := encodeU64ToBytes v (unat (piece_byte_size piece)) (object_le s)\<rparr>)
                        off s)
          else if is_register_location s
            then add_piece (piece\<lparr>piece_kind := PIECE_REGISTER, piece_location := v\<rparr>) off s
          else add_piece (piece\<lparr>piece_kind := PIECE_MEMORY, piece_location := v\<rparr>) off s)"

definition new_piece :: "u64 \<Rightarrow> u64 \<Rightarrow> u64 \<Rightarrow> PieceDescriptor" where
  "new_piece byte_size bit_size bit_offset =
     \<lparr>piece_kind = PIECE_EMPTY, piece_location = 0, piece_byte_size = byte_size,
      piece_bit_size = bit_size, piece_bit_offset = bit_offset, implicit_value = []\<rparr>"

definition handlePiece :: handler where
  "handlePiece e off s =
     (case ev_readULEB128 e off s of (byte_size, off, s) \<Rightarrow>
        emit_piece ''DW_OP_piece'' (new_piece byte_size (byte_size * 8) 0) off s)"

definition handleBitPiece :: handler where
  "handleBitPiece e off s =
     (case ev_readULEB128 e off s of (bit_size, off, s) \<Rightarrow>
      case ev_readULEB128 e off s of (bit_offset, off, s) \<Rightarrow>
        emit_piece ''DW_OP_bit_piece'' (new_piece ((bit_size + 7) div 8) bit_size bit_offset) off s)"

definition low_value :: "bool \<Rightarrow> bytes \<Rightarrow> u64" where
  "low_value le bs =
     (if length bs = 0 then 0
      else if length bs \<le> 8 then decodeU64FromBytes bs (length bs) le
      else if le then decodeU64FromBytes bs 8 True
      else decodeU64FromBytes (drop (length bs - 8) bs) 8 False)"

definition handleImplicitValue :: handler where
  "handleImplicitValue e off s =
     (case ev_readULEB128 e off s of (sz, off, s) \<Rightarrow>
        if execution_error s then (off, s)
        else if length e < off \<or> length e - off < unat sz
          then (length e, setExecutionError ''truncated DW_OP_implicit_value payload'' s)
        else
          let bs = take (unat sz) (drop off e)
          in (off + unat sz,
              (push (low_value (object_le s) bs) s)
                \<lparr>is_implicit_value := True, pending_implicit_bytes := Some bs\<rparr>))"

definition handleStackValue :: handler where
  "handleStackValue e off s = requireStack 1 ''DW_OP_stack_value'' off s (\<lambda>s.
     let s = (if is_register_location s
              then s\<lparr>stack := register_or_zero s (top_value s) # tl (stack s),
                     is_register_location := False, pending_implicit_bytes := None\<rparr>
              else s)
     in (off, s\<lparr>is_implicit_value := True\<rparr>))"

subsection \<open>Typed operations\<close>

definition abs_type_offset :: "eval_state \<Rightarrow> u64 \<Rightarrow> u64" where
  "abs_type_offset s type_offset =
     (if type_offset = 0 then 0 else cu_base_offset (context_of s) + type_offset)"

definition adjust_value :: "BaseTypeInfo \<Rightarrow> u64 \<Rightarrow> u64" where
  "adjust_value ti v =
     (if bt_is_integer ti \<or> bt_is_boolean ti \<or> bt_is_address ti
      then (if bt_is_signed ti then signExtendBytes v (bt_byte_size ti)
            else maskToBytes v (bt_byte_size ti))
      else maskToBytes v (bt_byte_size ti))"

definition with_bytes :: "bytes \<Rightarrow> eval_state \<Rightarrow> eval_state" where
  "with_bytes bs s = s\<lparr>pending_implicit_bytes := Some bs\<rparr>"

definition handleConstType :: handler where
  "handleConstType e off s =
     (case ev_readULEB128 e off s of (type_offset, off, s) \<Rightarrow>
        if execution_error s then (off, s)
        else case ev_readU8 e off s of (sz, off, s) \<Rightarrow>
          if execution_error s then (off, s)
          else if length e < off \<or> length e - off < unat sz
            then (length e, setExecutionError ''truncated DW_OP_const_type payload'' s)
          else
            let bs = take (unat sz) (drop off e);
                off = off + unat sz;
                value = decodeResultValueFromBytes (object_le s) bs
            in case resolve_base_type (context_of s) of
                 None \<Rightarrow> (off, with_bytes bs (push value s))
               | Some resolve \<Rightarrow>
                   (case resolve (abs_type_offset s type_offset) of
                      None \<Rightarrow>
                        if type_offset \<noteq> 0
                        then (off, setExecutionError
                               ''DW_OP_const_type could not resolve referenced base type'' s)
                        else (off, with_bytes bs (push value s))
                    | Some ti \<Rightarrow>
                        if bt_byte_size ti = 0 \<or> 8 < bt_byte_size ti
                        then (off, with_bytes bs (push value s))
                        else
                          let value = adjust_value ti value
                          in (off, with_bytes (lowBytesForResultValue (object_le s) value (bt_byte_size ti))
                                     (push value s))))"

definition handleRegvalType :: handler where
  "handleRegvalType e off s =
     (case ev_readULEB128 e off s of (reg_num, off, s) \<Rightarrow>
      case ev_readULEB128 e off s of (type_offset, off, s) \<Rightarrow>
        let value = register_or_zero s reg_num
        in case resolve_base_type (context_of s) of
             None \<Rightarrow> (off, push value s)
           | Some resolve \<Rightarrow>
               (case resolve (abs_type_offset s type_offset) of
                  None \<Rightarrow>
                    if type_offset \<noteq> 0
                    then (off, setExecutionError
                           ''DW_OP_regval_type could not resolve referenced base type'' s)
                    else (off, push value s)
                | Some ti \<Rightarrow>
                    if bt_byte_size ti = 0 then (off, push value s)
                    else if 8 < bt_byte_size ti
                      then (off, setExecutionError
                             ''DW_OP_regval_type does not support base types wider than 8 bytes'' s)
                    else
                      let value = adjust_value ti value
                      in (off, push value
                            (with_bytes (lowBytesForResultValue (object_le s) value (bt_byte_size ti)) s))))"

definition load_typed :: "string \<Rightarrow> u64 \<Rightarrow> u8 \<Rightarrow> u64 \<Rightarrow> nat \<Rightarrow> eval_state \<Rightarrow> nat \<times> eval_state" where
  "load_typed name addr sz type_offset off s =
     (case mem_read s addr (unat sz) of
        None \<Rightarrow> (off, setExecutionError (name @ '' memory read failed'') s)
      | Some buf \<Rightarrow>
          let value = decode_buf s buf
          in case resolve_base_type (context_of s) of
               None \<Rightarrow> (off, with_bytes buf (push value s))
             | Some resolve \<Rightarrow>
                 (case resolve (abs_type_offset s type_offset) of
                    None \<Rightarrow>
                      if type_offset \<noteq> 0
                      then (off, setExecutionError
                             (name @ '' could not resolve referenced base type'') s)
                      else (off, with_bytes buf (push value s))
                  | Some ti \<Rightarrow>
                      if bt_byte_size ti = 0 then (off, with_bytes buf (push value s))
                      else if 8 < bt_byte_size ti
                        then (off, setExecutionError
                               (name @ '' does not support base types wider than 8 bytes'') s)
                      else
                        let value = adjust_value ti value
                        in (off, with_bytes (lowBytesForResultValue (object_le s) value (bt_byte_size ti))
                                   (push value s))))"

definition handleDerefType :: handler where
  "handleDerefType e off s =
     (case ev_readU8 e off s of (sz, off, s) \<Rightarrow>
      case ev_readULEB128 e off s of (type_offset, off, s) \<Rightarrow>
        requireStack 1 ''DW_OP_deref_type'' off s (\<lambda>s.
          case pop s of (addr, s) \<Rightarrow> load_typed ''DW_OP_deref_type'' addr sz type_offset off s))"

definition handleXderefType :: handler where
  "handleXderefType e off s =
     (case ev_readU8 e off s of (sz, off, s) \<Rightarrow>
      case ev_readULEB128 e off s of (type_offset, off, s) \<Rightarrow>
        requireStack 2 ''DW_OP_xderef_type'' off s (\<lambda>s.
          case pop s of (addr, s) \<Rightarrow> case pop s of (space, s) \<Rightarrow>
            load_typed ''DW_OP_xderef_type'' addr sz type_offset off s))"

text \<open>\<open>DW_OP_convert\<close> and \<open>DW_OP_reinterpret\<close> differ in how the value is adjusted to the type.\<close>

definition convert_with :: "string \<Rightarrow> (BaseTypeInfo \<Rightarrow> u64 \<Rightarrow> u64) \<Rightarrow> handler" where
  "convert_with name adjust e off s =
     (case ev_readULEB128 e off s of (type_offset, off, s) \<Rightarrow>
        requireStack 1 name off s (\<lambda>s.
          case pop s of (value, s) \<Rightarrow>
            (case resolve_base_type (context_of s) of
               None \<Rightarrow> (off, push value s)
             | Some resolve \<Rightarrow>
                 if type_offset = 0 then (off, push value s)
                 else case resolve (abs_type_offset s type_offset) of
                   None \<Rightarrow> (off, setExecutionError
                            (name @ '' could not resolve referenced base type'') s)
                 | Some ti \<Rightarrow>
                     if bt_byte_size ti = 0 then (off, push value s)
                     else if 8 < bt_byte_size ti
                       then (off, setExecutionError
                              (name @ '' does not support base types wider than 8 bytes'') s)
                     else
                       let value = adjust ti value
                       in (off, push value (with_bytes
                             (lowBytesForResultValue (object_le s) value (bt_byte_size ti)) s)))))"

definition handleConvert :: handler where
  "handleConvert = convert_with ''DW_OP_convert'' adjust_value"

definition handleReinterpret :: handler where
  "handleReinterpret = convert_with ''DW_OP_reinterpret'' (\<lambda>ti v. maskToBytes v (bt_byte_size ti))"

definition handleGnuConstType :: handler where
  "handleGnuConstType = handleConstType"

definition handleGnuRegvalType :: handler where
  "handleGnuRegvalType = handleRegvalType"

definition handleGnuDerefType :: handler where
  "handleGnuDerefType = handleDerefType"

definition handleGnuConvert :: handler where
  "handleGnuConvert = handleConvert"

definition handleGnuReinterpret :: handler where
  "handleGnuReinterpret = handleReinterpret"

subsection \<open>Encoded addresses and WebAssembly locations\<close>

definition read_encoded :: "u8 \<Rightarrow> bytes \<Rightarrow> nat \<Rightarrow> eval_state \<Rightarrow> u64 \<times> nat \<times> eval_state" where
  "read_encoded fmt e off s =
     (if fmt = 0x00 then ev_readAddressSized e off s
      else if fmt = 0x01 then ev_readULEB128 e off s
      else if fmt = 0x02 then (case ev_readU16 e off s of (v, off, s) \<Rightarrow> (ucast v, off, s))
      else if fmt = 0x03 then (case ev_readU32 e off s of (v, off, s) \<Rightarrow> (ucast v, off, s))
      else if fmt = 0x04 then ev_readU64 e off s
      else if fmt = 0x09 then ev_readSLEB128 e off s
      else if fmt = 0x0a then (case ev_readU16 e off s of (v, off, s) \<Rightarrow> (scast v, off, s))
      else if fmt = 0x0b then (case ev_readU32 e off s of (v, off, s) \<Rightarrow> (scast v, off, s))
      else if fmt = 0x0c then ev_readU64 e off s
      else (0, off, setExecutionError ''DW_OP_GNU_encoded_addr uses unsupported encoding format'' s))"

definition apply_mode :: "u8 \<Rightarrow> u64 \<Rightarrow> eval_state \<Rightarrow> u64 option" where
  "apply_mode app raw s =
     (if app = 0x00 then Some raw
      else if app = 0x10 then Some (eval_pc s + raw)
      else if app = 0x20 then Some (text_base (context_of s) + raw)
      else if app = 0x30 then Some (data_base (context_of s) + raw)
      else if app = 0x40 then Some (function_base (context_of s) + raw)
      else if app = 0x50 then Some raw
      else None)"

definition handleGnuEncodedAddr :: handler where
  "handleGnuEncodedAddr e off s =
     (if length e \<le> off then (off, setExecutionError ''Truncated DW_OP_GNU_encoded_addr'' s)
      else case ev_readU8 e off s of (encoding, off, s) \<Rightarrow>
        let aligned = encoding AND 0x70 = 0x50;
            (align, s) = (if aligned then pointerByteSize ''DW_OP_GNU_encoded_addr(aligned)'' s else (1, s))
        in if aligned \<and> execution_error s then (off, s)
           else
             let off = (if aligned then alignOffsetUp off align else off)
             in case read_encoded (encoding AND 0x0f) e off s of (raw, off, s) \<Rightarrow>
               if execution_error s then (off, s)
               else case apply_mode (encoding AND 0x70) raw s of
                 None \<Rightarrow> (off, setExecutionError
                          ''DW_OP_GNU_encoded_addr uses unsupported application mode'' s)
               | Some addr \<Rightarrow>
                   if encoding AND 0x80 \<noteq> 0 then
                     (case pointerByteSize ''DW_OP_GNU_encoded_addr'' s of (n, s) \<Rightarrow>
                        if execution_error s then (off, s)
                        else case mem_read s addr n of
                          Some buf \<Rightarrow> (off, push (decode_buf s buf) s)
                        | None \<Rightarrow> (off, setExecutionError
                                 ''DW_OP_GNU_encoded_addr indirect memory read failed'' s))
                   else (off, push addr s))"

definition handleWasmLocation :: handler where
  "handleWasmLocation e off s =
     (if length e \<le> off then (off, setExecutionError ''truncated DW_OP_WASM_location'' s)
      else case ev_readU8 e off s of (kind, off, s) \<Rightarrow>
        case (if kind \<le> 0x02 then ev_readULEB128 e off s else (0, off, s)) of (index, off, s) \<Rightarrow>
          if kind \<le> 0x02 \<and> execution_error s then (off, s)
          else
            let encoded = push_bit 56 (ucast kind) OR (index AND 0x00ffffffffffffff)
            in (off, (push encoded s)\<lparr>is_register_location := True\<rparr>))"

subsection \<open>Vendor operations\<close>

text \<open>
  \<open>handleVendorProfileOpcode\<close>: \<open>None\<close> when it returns false.
\<close>

definition vendor_deref_size :: handler where
  "vendor_deref_size = deref_size ''DW_OP_vendor_synthetic_deref_size''"

definition handleVendorProfileOpcode :: "u8 \<Rightarrow> bytes \<Rightarrow> nat \<Rightarrow> eval_state \<Rightarrow> (nat \<times> eval_state) option" where
  "handleVendorProfileOpcode opcode e off s =
     (if vendor_expression_profile (context_of s) \<noteq> SYNTHETIC_V1 then None
      else if opcode = 0xf9 then Some (handleConstu e off s)
      else if opcode = 0xfd then Some (plus_uconst ''DW_OP_vendor_synthetic_plus_uconst'' e off s)
      else if opcode = 0xfe then Some (vendor_deref_size e off s)
      else None)"

subsection \<open>Handlers that evaluate another expression\<close>

text \<open>
  \<open>nested_evaluate s e regs\<close> is a new evaluator with the memory context and context of \<open>s\<close>,
  running \<open>e\<close> on \<open>regs\<close>; \<open>nested_execute\<close> is \<open>executeInPlace\<close>. \<open>None\<close> means that the computation does
  not return.
\<close>

record nested_calls =
  nested_evaluate :: "eval_state \<Rightarrow> bytes \<Rightarrow> u64 list \<Rightarrow> ExpressionResult option"
  nested_execute :: "bytes \<Rightarrow> eval_state \<Rightarrow> (bool \<times> eval_state) option"

type_synonym nested_handler = "nested_calls \<Rightarrow> bytes \<Rightarrow> nat \<Rightarrow> eval_state \<Rightarrow> (nat \<times> eval_state) option"

text \<open>\<open>materializeResultAsValue\<close>: the value and the optional bytes, or \<open>None\<close> when it returns false.\<close>

definition materializeResultAsValue ::
  "ExpressionResult \<Rightarrow> u64 list \<Rightarrow> string \<Rightarrow> eval_state \<Rightarrow> (u64 \<times> bytes option) option \<times> eval_state" where
  "materializeResultAsValue r register_bank op_name s =
     (case res_type r of
        RT_VALUE \<Rightarrow>
          (Some (res_value r, if raw_value_bytes r \<noteq> [] then Some (raw_value_bytes r) else None), s)
      | RT_REGISTER \<Rightarrow>
          if unat (res_value r) < length register_bank
          then (Some (register_bank ! unat (res_value r), None), s)
          else (None, setExecutionError (op_name @ '' register unavailable in register context'') s)
      | RT_ADDRESS \<Rightarrow>
          (case pointerByteSize op_name s of (n, s) \<Rightarrow>
             if execution_error s then (None, s)
             else case mem_read s (res_value r) n of
               Some buf \<Rightarrow> (Some (decode_buf s buf, Some buf), s)
             | None \<Rightarrow> (None, setExecutionError (op_name @ '' memory read failed'') s))
      | _ \<Rightarrow> (None, setExecutionError (op_name @ '' referent produced unsupported result'') s))"

definition taint_from :: "ExpressionResult \<Rightarrow> eval_state \<Rightarrow> eval_state" where
  "taint_from r s = s\<lparr>uninitialized_taint := uninitialized_taint s \<or> res_uninitialized r\<rparr>"

text \<open>The end of \<open>handleEntryValue\<close> and \<open>handleGnuParameterRef\<close>.\<close>

definition push_materialized ::
  "ExpressionResult \<Rightarrow> u64 list \<Rightarrow> string \<Rightarrow> nat \<Rightarrow> eval_state \<Rightarrow> nat \<times> eval_state" where
  "push_materialized r bank name off s =
     (case materializeResultAsValue r bank name (taint_from r s) of
        (None, s) \<Rightarrow> (off, s)
      | (Some (value, bs), s) \<Rightarrow>
          (off, (push value s)\<lparr>is_implicit_value := True, pending_implicit_bytes := bs\<rparr>))"

definition implicit_pointer_result :: "ExpressionResult \<Rightarrow> u64 \<Rightarrow> nat \<Rightarrow> eval_state \<Rightarrow> nat \<times> eval_state" where
  "implicit_pointer_result r offset_val off s =
     (case res_type r of
        RT_ADDRESS \<Rightarrow>
          (off, (push (addSignedOffset (res_value r) offset_val) s)\<lparr>pending_implicit_bytes := None\<rparr>)
      | RT_VALUE \<Rightarrow>
          (off, (push (addSignedOffset (res_value r) offset_val) s)\<lparr>pending_implicit_bytes := None\<rparr>)
      | RT_REGISTER \<Rightarrow>
          if unat (res_value r) < length (registers s)
          then (off, (push (addSignedOffset (registers s ! unat (res_value r)) offset_val) s)
                       \<lparr>pending_implicit_bytes := None\<rparr>)
          else (off, setExecutionError ''DW_OP_implicit_pointer register referent out of range'' s)
      | _ \<Rightarrow> (off, setExecutionError ''DW_OP_implicit_pointer referent has unsupported result type'' s))"

definition handleImplicitPointer :: nested_handler where
  "handleImplicitPointer nest e off s =
     (case ev_readOffsetSized e off s of (die_offset, off, s) \<Rightarrow>
        if execution_error s then Some (off, s)
        else case ev_readSLEB128 e off s of (offset_val, off, s) \<Rightarrow>
          if execution_error s then Some (off, s)
          else
            let abs_die_offset = dwarfSectionOffsetBias (cu_base_offset (context_of s)) + die_offset
            in case resolve_dwarf_procedure (context_of s) of
                 None \<Rightarrow> Some (off, setExecutionError ''DW_OP_implicit_pointer requires DIE resolver'' s)
               | Some resolve \<Rightarrow>
                   (case resolve abs_die_offset (eval_pc s) of
                      None \<Rightarrow> Some (off, setExecutionError ''DW_OP_implicit_pointer referent not found'' s)
                    | Some proc \<Rightarrow>
                        (case nested_evaluate nest s proc (registers s) of
                           None \<Rightarrow> None
                         | Some r \<Rightarrow> Some (implicit_pointer_result r offset_val off (taint_from r s)))))"

definition handleEntryValue :: nested_handler where
  "handleEntryValue nest e off s =
     (case ev_readULEB128 e off s of (sz, off, s) \<Rightarrow>
        if execution_error s then Some (off, s)
        else if length e < off \<or> length e - off < unat sz
          then Some (length e, setExecutionError ''truncated DW_OP_entry_value subexpression'' s)
        else
          let sub_expr = take (unat sz) (drop off e);
              off = off + unat sz
          in case nested_evaluate nest s sub_expr (entry_registers (context_of s)) of
               None \<Rightarrow> None
             | Some r \<Rightarrow>
                 Some (push_materialized r (entry_registers (context_of s)) ''DW_OP_entry_value'' off s))"

definition handleGnuParameterRef :: nested_handler where
  "handleGnuParameterRef nest e off s =
     (case ev_readOffsetSized e off s of (die_offset, off, s) \<Rightarrow>
        if execution_error s then Some (off, s)
        else
          let abs_die_offset = dwarfSectionOffsetBias (cu_base_offset (context_of s)) + die_offset
          in case resolve_dwarf_procedure (context_of s) of
               None \<Rightarrow> Some (off, setExecutionError ''DW_OP_GNU_parameter_ref requires DIE resolver'' s)
             | Some resolve \<Rightarrow>
                 (case resolve abs_die_offset (eval_pc s) of
                    None \<Rightarrow> Some (off, setExecutionError ''DW_OP_GNU_parameter_ref referent not found'' s)
                  | Some proc \<Rightarrow>
                      (case nested_evaluate nest s proc (registers s) of
                         None \<Rightarrow> None
                       | Some r \<Rightarrow>
                           Some (push_materialized r (registers s) ''DW_OP_GNU_parameter_ref'' off s))))"

definition handleGnuImplicitPointer :: nested_handler where
  "handleGnuImplicitPointer = handleImplicitPointer"

definition handleGnuEntryValue :: nested_handler where
  "handleGnuEntryValue = handleEntryValue"

text \<open>The common part of the three call operations, from the resolver on.\<close>

definition call_procedure :: "string \<Rightarrow> u64 \<Rightarrow> nested_calls \<Rightarrow> nat \<Rightarrow> eval_state \<Rightarrow> (nat \<times> eval_state) option" where
  "call_procedure name abs_off nest off s =
     (case resolve_dwarf_procedure (context_of s) of
        None \<Rightarrow> Some (off, s)
      | Some resolve \<Rightarrow>
          (case resolve abs_off (eval_pc s) of
             None \<Rightarrow> Some (off, s)
           | Some expr \<Rightarrow>
               (case nested_execute nest expr s of
                  None \<Rightarrow> None
                | Some (True, s) \<Rightarrow> Some (off, s)
                | Some (False, s) \<Rightarrow>
                    if execution_error s
                    then Some (off, s\<lparr>execution_error_message :=
                                name @ '' subexpression failed: '' @ execution_error_message s\<rparr>)
                    else Some (off, setExecutionError (name @ '' subexpression failed'') s))))"

definition handleCall2 :: nested_handler where
  "handleCall2 nest e off s =
     (case ev_readU16 e off s of (die_offset, off, s) \<Rightarrow>
        call_procedure ''DW_OP_call2'' (cu_base_offset (context_of s) + ucast die_offset) nest off s)"

definition handleCall4 :: nested_handler where
  "handleCall4 nest e off s =
     (case ev_readU32 e off s of (die_offset, off, s) \<Rightarrow>
        call_procedure ''DW_OP_call4'' (cu_base_offset (context_of s) + ucast die_offset) nest off s)"

definition handleCallRef :: nested_handler where
  "handleCallRef nest e off s =
     (case ev_readOffsetSized e off s of (die_offset, off, s) \<Rightarrow>
        if execution_error s then Some (off, s)
        else call_procedure ''DW_OP_call_ref''
               (dwarfSectionOffsetBias (cu_base_offset (context_of s)) + die_offset) nest off s)"

end
