(* ===== verification/Evaluator.thy ===== *)
theory Evaluator
  imports EvalOps
begin

section \<open>The expression evaluator: dispatch, the loop, and nested evaluation\<close>

text \<open>
  \<open>initializeOpHandlers\<close> as an association list, the loop over an expression with its step limit,
  \<open>evaluate\<close> and \<open>executeInPlace\<close>. Both run the same loop and differ in what they make of its end.
  The recursion through handlers that evaluate other expressions is unbounded in the code; it is
  given fuel here, and \<open>None\<close> means that the fuel did not suffice.
\<close>

subsection \<open>Dispatch\<close>

datatype op_handler = Plain handler | Nested nested_handler

definition named_handlers :: "(u8 \<times> op_handler) list" where
  "named_handlers = [
     (DW_OP_addr, Plain handleAddr),
     (DW_OP_deref, Plain handleDeref),
     (DW_OP_const1u, Plain handleConst1u),
     (DW_OP_const1s, Plain handleConst1s),
     (DW_OP_const2u, Plain handleConst2u),
     (DW_OP_const2s, Plain handleConst2s),
     (DW_OP_const4u, Plain handleConst4u),
     (DW_OP_const4s, Plain handleConst4s),
     (DW_OP_const8u, Plain handleConst8u),
     (DW_OP_const8s, Plain handleConst8s),
     (DW_OP_constu, Plain handleConstu),
     (DW_OP_consts, Plain handleConsts),
     (DW_OP_dup, Plain handleDup),
     (DW_OP_drop, Plain handleDrop),
     (DW_OP_over, Plain handleOver),
     (DW_OP_pick, Plain handlePick),
     (DW_OP_swap, Plain handleSwap),
     (DW_OP_rot, Plain handleRot),
     (DW_OP_xderef, Plain handleXderef),
     (DW_OP_abs, Plain handleAbs),
     (DW_OP_and, Plain handleAnd),
     (DW_OP_div, Plain handleDiv),
     (DW_OP_minus, Plain handleMinus),
     (DW_OP_mod, Plain handleMod),
     (DW_OP_mul, Plain handleMul),
     (DW_OP_neg, Plain handleNeg),
     (DW_OP_not, Plain handleNot),
     (DW_OP_or, Plain handleOr),
     (DW_OP_plus, Plain handlePlus),
     (DW_OP_plus_uconst, Plain handlePlusUconst),
     (DW_OP_shl, Plain handleShl),
     (DW_OP_shr, Plain handleShr),
     (DW_OP_shra, Plain handleShra),
     (DW_OP_xor, Plain handleXor),
     (DW_OP_bra, Plain handleBra),
     (DW_OP_eq, Plain handleEq),
     (DW_OP_ge, Plain handleGe),
     (DW_OP_gt, Plain handleGt),
     (DW_OP_le, Plain handleLe),
     (DW_OP_lt, Plain handleLt),
     (DW_OP_ne, Plain handleNe),
     (DW_OP_skip, Plain handleSkip),
     (DW_OP_regx, Plain handleRegx),
     (DW_OP_fbreg, Plain handleFbreg),
     (DW_OP_bregx, Plain handleBregx),
     (DW_OP_piece, Plain handlePiece),
     (DW_OP_deref_size, Plain handleDerefSize),
     (DW_OP_xderef_size, Plain handleXderefSize),
     (DW_OP_nop, Plain handleNop),
     (DW_OP_push_object_address, Plain handlePushObjectAddress),
     (DW_OP_call_frame_cfa, Plain handleCallFrameCfa),
     (DW_OP_bit_piece, Plain handleBitPiece),
     (DW_OP_implicit_value, Plain handleImplicitValue),
     (DW_OP_stack_value, Plain handleStackValue),
     (DW_OP_implicit_pointer, Nested handleImplicitPointer),
     (DW_OP_addrx, Plain handleAddrx),
     (DW_OP_constx, Plain handleConstx),
     (DW_OP_entry_value, Nested handleEntryValue),
     (DW_OP_const_type, Plain handleConstType),
     (DW_OP_regval_type, Plain handleRegvalType),
     (DW_OP_deref_type, Plain handleDerefType),
     (DW_OP_xderef_type, Plain handleXderefType),
     (DW_OP_convert, Plain handleConvert),
     (DW_OP_reinterpret, Plain handleReinterpret),
     (DW_OP_call2, Nested handleCall2),
     (DW_OP_call4, Nested handleCall4),
     (DW_OP_call_ref, Nested handleCallRef),
     (DW_OP_form_tls_address, Plain handleFormTlsAddress),
     (DW_OP_GNU_push_tls_address, Plain handleGnuPushTlsAddress),
     (DW_OP_GNU_uninit, Plain handleGnuUninit),
     (DW_OP_GNU_encoded_addr, Plain handleGnuEncodedAddr),
     (DW_OP_GNU_implicit_pointer, Nested handleGnuImplicitPointer),
     (DW_OP_GNU_entry_value, Nested handleGnuEntryValue),
     (DW_OP_GNU_const_type, Plain handleGnuConstType),
     (DW_OP_GNU_regval_type, Plain handleGnuRegvalType),
     (DW_OP_GNU_deref_type, Plain handleGnuDerefType),
     (DW_OP_GNU_convert, Plain handleGnuConvert),
     (DW_OP_GNU_reinterpret, Plain handleGnuReinterpret),
     (DW_OP_GNU_parameter_ref, Nested handleGnuParameterRef),
     (DW_OP_GNU_addr_index, Plain handleGnuAddrIndex),
     (DW_OP_GNU_const_index, Plain handleGnuConstIndex),
     (DW_OP_WASM_location, Plain handleWasmLocation)]"

text \<open>The table, with the 32 literals, registers and register-relative addresses.\<close>

definition op_handlers :: "(u8 \<times> op_handler) list" where
  "op_handlers =
     named_handlers
     @ map (\<lambda>i. (DW_OP_lit0 + word_of_nat i, Plain handleLit)) [0..<32]
     @ map (\<lambda>i. (DW_OP_reg0 + word_of_nat i, Plain handleReg)) [0..<32]
     @ map (\<lambda>i. (DW_OP_breg0 + word_of_nat i, Plain handleBreg)) [0..<32]"

fun run_handler :: "op_handler \<Rightarrow> nested_calls \<Rightarrow> bytes \<Rightarrow> nat \<Rightarrow> eval_state \<Rightarrow> (nat \<times> eval_state) option" where
  "run_handler (Plain h) nest e off s = Some (h e off s)"
| "run_handler (Nested h) nest e off s = h nest e off s"

subsection \<open>The loop\<close>

text \<open>
  One operation: \<open>Ran\<close> with the new offset and state, or an opcode without a handler. The outer
  option is the fuel of nested evaluation.
\<close>

datatype op_end = Ran nat eval_state | NoHandler u8 eval_state

definition run_op :: "nested_calls \<Rightarrow> bytes \<Rightarrow> nat \<Rightarrow> eval_state \<Rightarrow> op_end option" where
  "run_op nest e off s =
     (case ev_readU8 e off s of (opcode, off1, s) \<Rightarrow>
        (case map_of op_handlers opcode of
           Some h \<Rightarrow> map_option (\<lambda>(off, s). Ran off s) (run_handler h nest e off1 s)
         | None \<Rightarrow>
             (case handleVendorProfileOpcode opcode e off1 s of
                Some (off, s) \<Rightarrow> Some (Ran off s)
              | None \<Rightarrow> Some (NoHandler opcode s))))"

datatype loop_end = Finished | StepLimit | OpError nat | Unsupported u8 nat

text \<open>\<open>steps\<close> is the number of steps left before \<open>++steps > max_steps\<close>.\<close>

fun run_loop :: "nested_calls \<Rightarrow> bytes \<Rightarrow> nat \<Rightarrow> nat \<Rightarrow> eval_state \<Rightarrow> (loop_end \<times> eval_state) option" where
  "run_loop nest e 0 off s = Some (if off < length e then StepLimit else Finished, s)"
| "run_loop nest e (Suc steps) off s =
     (if off < length e then
        (case run_op nest e off s of
           None \<Rightarrow> None
         | Some (NoHandler opcode s) \<Rightarrow> Some (Unsupported opcode off, s)
         | Some (Ran off' s) \<Rightarrow>
             if execution_error s then Some (OpError off, s) else run_loop nest e steps off' s)
      else Some (Finished, s))"

definition max_steps :: "bytes \<Rightarrow> nat" where
  "max_steps e = max 1024 (u64_mul (length e) 16)"

subsection \<open>Results\<close>

definition unsupportedOpMessage :: "u8 \<Rightarrow> nat \<Rightarrow> bool \<Rightarrow> string" where
  "unsupportedOpMessage opcode off subexpression =
     (if subexpression then ''Unsupported operation in subexpression: '' else ''Unsupported operation: '')
     @ operationToString opcode @ '' (opcode 0x'' @ hex_string False (unat opcode) @ '')''
     @ (if 0xe0 \<le> opcode then '' [vendor/extension opcode]'' else [])
     @ '' at offset '' @ dec_string off"

definition vendorProfileOpcodeName :: "VendorExpressionProfile \<Rightarrow> u8 \<Rightarrow> string option" where
  "vendorProfileOpcodeName profile opcode =
     (if profile = SYNTHETIC_V1 then
        if opcode = 0xf9 then Some ''DW_OP_vendor_synthetic_constu''
        else if opcode = 0xfd then Some ''DW_OP_vendor_synthetic_plus_uconst''
        else if opcode = 0xfe then Some ''DW_OP_vendor_synthetic_deref_size''
        else None
      else None)"

definition with_taint :: "bool \<Rightarrow> ExpressionResult \<Rightarrow> ExpressionResult" where
  "with_taint t r = r\<lparr>res_uninitialized := t\<rparr>"

definition with_taint_note :: "bool \<Rightarrow> ExpressionResult \<Rightarrow> ExpressionResult" where
  "with_taint_note t r =
     r\<lparr>res_uninitialized := t, res_description := res_description r @ (if t then '' [uninitialized]'' else [])\<rparr>"

definition unsupported_result :: "u8 \<Rightarrow> nat \<Rightarrow> eval_state \<Rightarrow> ExpressionResult" where
  "unsupported_result opcode op_off s =
     (let msg =
        (case vendorProfileOpcodeName (vendor_expression_profile (context_of s)) opcode of
           Some name \<Rightarrow> ''Unsupported operation: '' @ name @ '' (opcode 0x''
                          @ hex_string False (unat opcode) @ '') at offset '' @ dec_string op_off
         | None \<Rightarrow> unsupportedOpMessage opcode op_off False)
      in (with_taint (uninitialized_taint s)
            (expression_result RT_INVALID 0 (msg @ diagnosticContextSuffix s)))
          \<lparr>unsupported_opcode := Some opcode, unsupported_vendor_extension := 0xe0 \<le> opcode\<rparr>)"

text \<open>What \<open>evaluate\<close> returns when the loop has reached the end of the expression.\<close>

definition final_result :: "eval_state \<Rightarrow> ExpressionResult" where
  "final_result s =
     (let t = uninitialized_taint s in
      if pieces s \<noteq> [] then
        with_taint_note t (composite_result (pieces s)
          (''Composite location with '' @ dec_string (length (pieces s)) @ '' pieces''))
      else if stack s = [] then with_taint t (expression_result RT_INVALID 0 ''Empty stack'')
      else
        let result = top_value s in
        if is_register_location s then
          with_taint_note t (expression_result RT_REGISTER result (''Register: '' @ dec_string (unat result)))
        else if is_implicit_value s then
          with_taint_note t
            ((expression_result RT_VALUE result (''Value: '' @ dec_string (unat result)))
              \<lparr>raw_value_bytes := (case pending_implicit_bytes s of Some bs \<Rightarrow> bs | None \<Rightarrow> [])\<rparr>)
        else
          with_taint_note t
            (expression_result RT_ADDRESS result (''Address: 0x'' @ formatAddress result True)))"

definition loop_result :: "loop_end \<Rightarrow> eval_state \<Rightarrow> ExpressionResult" where
  "loop_result r s =
     (case r of
        Finished \<Rightarrow> final_result s
      | StepLimit \<Rightarrow> expression_result RT_INVALID 0 ''Expression step limit exceeded''
      | OpError op_off \<Rightarrow>
          with_taint (uninitialized_taint s)
            (expression_result RT_INVALID 0
              (execution_error_message s @ '' at offset '' @ dec_string op_off))
      | Unsupported opcode op_off \<Rightarrow> unsupported_result opcode op_off s)"

subsection \<open>\<open>evaluate\<close> and \<open>executeInPlace\<close>\<close>

definition start_state :: "EvaluationContext \<Rightarrow> u64 \<Rightarrow> u64 list \<Rightarrow> eval_state \<Rightarrow> eval_state" where
  "start_state c pc regs s =
     s\<lparr>eval_pc := pc, registers := regs, context_of := c, stack := [], pieces := [],
       is_register_location := False, is_implicit_value := False, pending_implicit_bytes := None,
       uninitialized_taint := False, execution_error := False, execution_error_message := []\<rparr>"

definition evaluate_with ::
  "nested_calls \<Rightarrow> bytes \<Rightarrow> EvaluationContext \<Rightarrow> u64 \<Rightarrow> u64 list \<Rightarrow> eval_state \<Rightarrow>
     (ExpressionResult \<times> eval_state) option" where
  "evaluate_with nest e c pc regs s =
     map_option (\<lambda>(r, s). (loop_result r s, s)) (run_loop nest e (max_steps e) 0 (start_state c pc regs s))"

definition kMaxCallDepth :: nat where
  "kMaxCallDepth = 16"

text \<open>What \<open>executeInPlace\<close> makes of the end of its loop: \<open>ok\<close>, and the state before \<open>--call_depth_\<close>.\<close>

definition subexpression_end :: "loop_end \<Rightarrow> eval_state \<Rightarrow> bool \<times> eval_state" where
  "subexpression_end r s =
     (case r of
        Finished \<Rightarrow> (True, s)
      | StepLimit \<Rightarrow> (False, setExecutionError ''DW_OP_call subexpression step limit exceeded'' s)
      | OpError _ \<Rightarrow> (False, s)
      | Unsupported opcode op_off \<Rightarrow>
          (False, setExecutionError (unsupportedOpMessage opcode op_off True) s))"

definition executeInPlace_with :: "nested_calls \<Rightarrow> bytes \<Rightarrow> eval_state \<Rightarrow> (bool \<times> eval_state) option" where
  "executeInPlace_with nest e s =
     (if e = [] then Some (True, s)
      else if kMaxCallDepth \<le> call_depth s
        then Some (False, setExecutionError ''DW_OP_call recursion depth exceeded'' s)
      else
        let s = s\<lparr>call_depth := call_depth s + 1, execution_error := False, execution_error_message := []\<rparr>
        in map_option (\<lambda>(r, s).
             case subexpression_end r s of (ok, s) \<Rightarrow> (ok, s\<lparr>call_depth := call_depth s - 1\<rparr>))
             (run_loop nest e (max_steps e) 0 s))"

text \<open>Fuel bounds the depth of nested evaluators and calls.\<close>

fun nested :: "nat \<Rightarrow> nested_calls" where
  "nested 0 = \<lparr>nested_evaluate = (\<lambda>s e regs. None), nested_execute = (\<lambda>e s. None)\<rparr>"
| "nested (Suc fuel) =
     \<lparr>nested_evaluate = (\<lambda>s e regs.
        map_option fst (evaluate_with (nested fuel) e (context_of s) (eval_pc s) regs
          (new_evaluator (object_le s) (memory s)))),
      nested_execute = executeInPlace_with (nested fuel)\<rparr>"

definition evaluate ::
  "nat \<Rightarrow> bytes \<Rightarrow> EvaluationContext \<Rightarrow> u64 \<Rightarrow> u64 list \<Rightarrow> eval_state \<Rightarrow> (ExpressionResult \<times> eval_state) option" where
  "evaluate fuel = evaluate_with (nested fuel)"

definition executeInPlace :: "nat \<Rightarrow> bytes \<Rightarrow> eval_state \<Rightarrow> (bool \<times> eval_state) option" where
  "executeInPlace fuel = executeInPlace_with (nested fuel)"

end
