(* ===== verification/EvalReaders.thy ===== *)
theory EvalReaders
  imports EvalCore
begin

section \<open>The evaluator's operand readers and byte helpers\<close>

text \<open>
  Unlike the readers of \<open>DwarfUtils\<close>, the evaluator's LEB128 readers decode the full 64-bit range
  exactly and report an overflow. The byte helpers are related to the little-endian value of
  \<open>FixedWidth\<close> and to the signed reading of a word.
\<close>

subsection \<open>Fixed-width operands\<close>

lemma avail_enough: "off + n \<le> length d \<Longrightarrow> \<not> avail d off < n"
  by (simp add: avail_def)

lemma ev_readU8_in: "off < length d \<Longrightarrow> ev_readU8 d off s = (d ! off, Suc off, s)"
  by (simp add: ev_readU8_def checked_read_def avail_def readU8_value)

lemma ev_readU8_out: "length d \<le> off \<Longrightarrow> ev_readU8 d off s = (0, length d, setExecutionError ''truncated u8'' s)"
  by (simp add: ev_readU8_def checked_read_def avail_def)

lemma ev_readU16_encoded:
  assumes "encoded_at d off (ordered (object_le s) (le_bytes 2 (unat v)))" and "length d \<le> vector_max"
  shows "ev_readU16 d off s = (v, off + 2, s)"
  using assms readU16_encoded [OF assms(1) _ order_refl assms(2)] encoded_at_length [OF assms(1)]
  by (simp add: ev_readU16_def checked_read_def avail_enough)

lemma ev_readU32_encoded:
  assumes "encoded_at d off (ordered (object_le s) (le_bytes 4 (unat v)))" and "length d \<le> vector_max"
  shows "ev_readU32 d off s = (v, off + 4, s)"
  using assms readU32_encoded [OF assms(1) _ order_refl assms(2)] encoded_at_length [OF assms(1)]
  by (simp add: ev_readU32_def checked_read_def avail_enough)

lemma ev_readU64_encoded:
  assumes "encoded_at d off (ordered (object_le s) (le_bytes 8 (unat v)))" and "length d \<le> vector_max"
  shows "ev_readU64 d off s = (v, off + 8, s)"
  using assms readU64_encoded [OF assms(1) _ order_refl assms(2)] encoded_at_length [OF assms(1)]
  by (simp add: ev_readU64_def checked_read_def avail_enough)

text \<open>Behind the check of the remaining length the readers of \<open>DwarfUtils\<close> return a value.\<close>

lemma ev_readers_return:
  assumes "length d \<le> vector_max"
  shows "\<not> avail d off < 1 \<Longrightarrow> \<exists>r. readU8 d off (length d) = Ret r"
    and "\<not> avail d off < 2 \<Longrightarrow> \<exists>r. readU16 le d off (length d) = Ret r"
    and "\<not> avail d off < 4 \<Longrightarrow> \<exists>r. readU32 le d off (length d) = Ret r"
    and "\<not> avail d off < 8 \<Longrightarrow> \<exists>r. readU64 le d off (length d) = Ret r"
  using assms readU8_value [of off "length d" d] readU16_value [of off "length d" d le]
    readU32_value [of off "length d" d le] readU64_value [of off "length d" d le]
  by (auto simp: avail_def split: if_splits)

subsection \<open>Unsigned LEB128\<close>

lemma ev_uleb_loop_encode:
  assumes "encoded_at d off (uleb_encode n)" and "m < 2 ^ sh" and "n * 2 ^ sh < 2 ^ 64"
    and "sh \<le> 63" and "7 dvd sh"
  shows "ev_uleb_loop d off s (word_of_nat m) sh =
           (word_of_nat (m + n * 2 ^ sh), off + length (uleb_encode n), s)"
  using assms
proof (induction n arbitrary: off m sh rule: uleb_encode.induct)
  case (1 n)
  show ?case
  proof (cases "n < 128")
    case True
    then have e: "uleb_encode n = [word_of_nat n]" by (subst uleb_encode.simps) simp
    with "1.prems" have off: "off < length d" "d ! off = word_of_nat n"
      by (auto simp: encoded_at_Cons)
    have "\<not> (sh = 63 \<and> 1 < (word_of_nat n :: u8))"
    proof
      assume a: "sh = 63 \<and> 1 < (word_of_nat n :: u8)"
      with "1.prems"(3) have "n \<le> 1" by simp
      with a show False by (auto simp: le_Suc_eq)
    qed
    then have "\<not> (63 < sh \<or> sh = 63 \<and> 1 < (word_of_nat n :: u8))" using "1.prems"(4) by auto
    then show ?thesis
      using off True "1.prems"(2)
      by (subst ev_uleb_loop.simps)
        (simp only: byte_last ucast_group e Let_def of_nat_or_push if_not_P not_le list.size if_True
          if_False simp_thms
          add_0 add_Suc_right One_nat_def Nat.add_0_right)
  next
    case False
    let ?g = "n mod 128"
    have e: "uleb_encode n = word_of_nat (?g + 128) # uleb_encode (n div 128)"
      using False by (subst uleb_encode.simps) simp
    with "1.prems" have off: "off < length d" "d ! off = word_of_nat (?g + 128)"
      and rest: "encoded_at d (Suc off) (uleb_encode (n div 128))"
      by (auto simp: encoded_at_Cons)
    have m': "m + ?g * 2 ^ sh < 2 ^ (sh + 7)" using "1.prems"(2) by (simp add: group_bound)
    have "n div 128 * 2 ^ (sh + 7) = 128 * (n div 128) * 2 ^ sh" by (simp add: power_add)
    also have "\<dots> \<le> n * 2 ^ sh" by (rule mult_le_mono1) simp
    finally have n': "n div 128 * 2 ^ (sh + 7) < 2 ^ 64"
      using "1.prems"(3) by (rule le_less_trans)
    have "(2 :: nat) ^ (sh + 7) = 128 * 2 ^ sh" by (simp add: power_add)
    also have "\<dots> \<le> n * 2 ^ sh" using False by (intro mult_le_mono1) simp
    also note "1.prems"(3)
    finally have "(2 :: nat) ^ (sh + 7) < 2 ^ 64" .
    then have s': "sh + 7 \<le> 63" using power_less_imp_less_exp [of "2 :: nat" "sh + 7" 64] by simp
    have sum: "m + ?g * 2 ^ sh + n div 128 * 2 ^ (sh + 7) = m + n * 2 ^ sh"
    proof -
      have "M * 2 ^ sh + D * 2 ^ (sh + 7) = (M + 128 * D) * 2 ^ sh" for M D :: nat
        by (simp add: power_add algebra_simps)
      from this [of ?g "n div 128"] show ?thesis by (simp only: mod_mult_div_eq add.assoc)
    qed
    show ?thesis
      using "1.IH" [OF False rest m' n' s'] off "1.prems"(2,4,5) sum s'
      by (subst ev_uleb_loop.simps)
        (simp add: byte_more ucast_group e Let_def of_nat_or_push add.assoc del: of_nat_add of_nat_mult)
  qed
qed

lemma ev_readULEB128_encode:
  assumes "encoded_at d off (uleb_encode n)" and "n < 2 ^ 64"
  shows "ev_readULEB128 d off s = (word_of_nat n, off + length (uleb_encode n), s)"
proof -
  have "off < length d" using encoded_at_length [OF assms(1)] uleb_encode_nonempty [of n] by linarith
  then show ?thesis
    using ev_uleb_loop_encode [of d off n 0 0 s] assms by (simp add: ev_readULEB128_def)
qed

subsection \<open>Signed LEB128\<close>

definition sleb_result :: "(u64 + u64 \<times> nat \<times> u8) \<Rightarrow> u64" where
  "sleb_result r = (case r of Inl v \<Rightarrow> v
     | Inr (v, sh, b) \<Rightarrow> if sh < 64 \<and> b AND 0x40 \<noteq> 0 then v OR - push_bit sh 1 else v)"

lemma ev_readSLEB128_loop:
  "off < length d \<Longrightarrow> ev_readSLEB128 d off s =
     (case ev_sleb_loop d off s 0 0 of (r, off', s') \<Rightarrow> (sleb_result r, off', s'))"
  by (auto simp: ev_readSLEB128_def sleb_result_def split: sum.splits prod.splits)

lemma minus_push_bit_one: "- push_bit k (1 :: u64) = push_bit k (NOT 0)"
  by (simp add: push_bit_eq_mult)

lemma ev_sleb_loop_encode:
  assumes "encoded_at d off (sleb_encode n)"
    and "m < 2 ^ sh" and "- (2 ^ 63) \<le> n * 2 ^ sh" and "n * 2 ^ sh < 2 ^ 63" and "sh \<le> 63" and "7 dvd sh"
  shows "\<exists>r. ev_sleb_loop d off s (word_of_nat m) sh = (r, off + length (sleb_encode n), s) \<and>
           sleb_result r = word_of_int (int m + n * 2 ^ sh)"
  using assms
proof (induction n arbitrary: off m sh rule: sleb_encode.induct)
  case (1 n)
  let ?g = "nat (n mod 128)"
  show ?case
  proof (cases "-64 \<le> n \<and> n < 64")
    case True
    then have e: "sleb_encode n = [word_of_nat ?g]" by (simp add: sleb_encode_last del: of_nat_nat)
    with "1.prems" have off: "off < length d" "d ! off = word_of_nat ?g"
      by (auto simp: encoded_at_Cons simp del: of_nat_nat)
    have nov: "\<not> (sh = 63 \<and> (word_of_nat ?g :: u8) \<noteq> 0 \<and> (word_of_nat ?g :: u8) \<noteq> 0x7f)"
    proof
      assume a: "sh = 63 \<and> (word_of_nat ?g :: u8) \<noteq> 0 \<and> (word_of_nat ?g :: u8) \<noteq> 0x7f"
      with "1.prems"(3,4) have "n = 0 \<or> n = -1" by auto
      with a show False by auto
    qed
    have "ev_sleb_loop d off s (word_of_nat m) sh =
        (Inr (word_of_nat (m + ?g * 2 ^ sh), sh + 7, word_of_nat ?g), Suc off, s)"
      using off "1.prems"(2,5) nat_mod_128 [of n] nov
      by (subst ev_sleb_loop.simps)
        (simp add: byte_last ucast_group of_nat_or_push Let_def del: of_nat_nat of_nat_add of_nat_mult)
    then show ?thesis
      using True sleb_finish [OF "1.prems"(2), of n, folded minus_push_bit_one] e
      by (simp add: sleb_result_def del: of_nat_nat of_nat_add of_nat_mult)
  next
    case False
    note e = sleb_encode_more [OF False]
    with "1.prems" have off: "off < length d" "d ! off = word_of_nat (?g + 128)"
      and rest: "encoded_at d (Suc off) (sleb_encode (n div 128))"
      by (auto simp: encoded_at_Cons simp del: of_nat_nat of_nat_add)
    have m': "m + ?g * 2 ^ sh < 2 ^ (sh + 7)" using "1.prems"(2) nat_mod_128 by (rule group_bound)
    note step = sleb_range_step [OF "1.prems"(3,4) False "1.prems"(5,6)]
    have "sh \<noteq> 63" using step(3) by simp
    then have "ev_sleb_loop d off s (word_of_nat m) sh =
        ev_sleb_loop d (Suc off) s (word_of_nat (m + ?g * 2 ^ sh)) (sh + 7)"
      using off "1.prems"(2,5) nat_mod_128 [of n]
      by (subst ev_sleb_loop.simps)
        (simp add: byte_more ucast_group of_nat_or_push Let_def del: of_nat_nat of_nat_add of_nat_mult)
    with "1.IH" [OF False rest m' step] "1.prems"(6) e
    show ?thesis by (simp only: sleb_group_split) (simp add: dvd_add_left_iff)
  qed
qed

lemma ev_readSLEB128_encode:
  assumes "encoded_at d off (sleb_encode n)" and "- (2 ^ 63) \<le> n" and "n < 2 ^ 63"
  shows "ev_readSLEB128 d off s = (word_of_int n, off + length (sleb_encode n), s)"
proof -
  have "off < length d" using encoded_at_length [OF assms(1)] sleb_encode_nonempty [of n] by linarith
  then show ?thesis
    using ev_sleb_loop_encode [of d off n 0 0 s] assms by (auto simp: ev_readSLEB128_loop)
qed

text \<open>
  An unsigned LEB128 operand below \<open>2^64\<close> followed by a signed one of 64 bits, as
  \<open>DW_OP_bregx\<close> has them, are decoded exactly, the second where the first ends, without an error.
\<close>

theorem operand_leb_exact:
  assumes "encoded_at d off (uleb_encode n @ sleb_encode i)" and "n < 2 ^ 64" and "- (2 ^ 63) \<le> i" and "i < 2 ^ 63"
  shows "\<exists>off'. ev_readULEB128 d off s = (word_of_nat n, off', s)
    \<and> ev_readSLEB128 d off' s = (word_of_int i, off + length (uleb_encode n) + length (sleb_encode i), s)"
  using ev_readULEB128_encode [of d off n s] ev_readSLEB128_encode [of d "off + length (uleb_encode n)" i s] assms
  by (simp add: encoded_at_append)

theorem operand_leb_exact_witness:
  "\<exists>off'. ev_readULEB128 [0xe5, 0x8e, 0x26, 0x9b, 0xf1, 0x59] 0 (new_evaluator True DefaultMemoryContext)
       = (624485, off', new_evaluator True DefaultMemoryContext)
     \<and> ev_readSLEB128 [0xe5, 0x8e, 0x26, 0x9b, 0xf1, 0x59] off' (new_evaluator True DefaultMemoryContext)
       = (- 624485, 6, new_evaluator True DefaultMemoryContext)"
proof -
  have enc: "uleb_encode 624485 = [0xe5, 0x8e, 0x26]" "sleb_encode (- 624485) = [0x9b, 0xf1, 0x59]"
    by (simp_all add: uleb_encode.simps sleb_encode.simps)
  have six: "Suc (Suc (Suc (Suc (Suc (Suc 0))))) = 6" by simp
  from enc show ?thesis
    using operand_leb_exact [of "[0xe5, 0x8e, 0x26, 0x9b, 0xf1, 0x59]" 0 624485 "- 624485"
        "new_evaluator True DefaultMemoryContext"]
    by (simp add: encoded_at_def six)
qed


subsection \<open>Values and bytes\<close>

lemma pow_256: "(2 :: nat) ^ (n * 8) = 256 ^ n" "(2 :: nat) ^ (8 * n) = 256 ^ n"
  by (simp_all add: power_mult mult.commute [of n])

lemma decode_le_fold:
  "n \<le> 8 \<Longrightarrow> n \<le> length bs \<Longrightarrow>
     foldl (\<lambda>v i. v OR push_bit (i * 8) (ucast (bs ! i))) 0 [0..<n] = (word_of_nat (le_value (take n bs)) :: u64)"
proof (induction n)
  case (Suc n)
  have "le_value (take n bs) < 2 ^ (n * 8)"
    using le_value_bound [of "take n bs"] Suc.prems by (simp add: pow_256)
  then show ?case
    using Suc by (simp add: or_byte_top take_Suc_conv_app_nth le_value_append pow_256 mult.commute)
qed simp

lemma decode_be_fold:
  "n \<le> 8 \<Longrightarrow> n \<le> length bs \<Longrightarrow>
     foldl (\<lambda>v i. push_bit 8 v OR ucast (bs ! i)) 0 [0..<n] = (word_of_nat (le_value (rev (take n bs))) :: u64)"
proof (induction n)
  case (Suc n)
  have "push_bit 8 (word_of_nat v) OR ucast b = (word_of_nat (unat b + v * 2 ^ 8) :: u64)" for v and b :: u8
    using unat_u8_bound [of b] of_nat_or_push [of "unat b" 8 v, where ?'a = 64] by (simp add: or.commute)
  then show ?case
    using Suc by (simp add: take_Suc_conv_app_nth mult.commute)
qed simp

lemma decodeU64FromBytes_value:
  assumes "n \<le> length bs" and "n \<le> 8"
  shows "decodeU64FromBytes bs n le = word_of_nat (le_value (ordered le (take n bs)))"
  using assms decode_le_fold [of n bs] decode_be_fold [of n bs]
  by (auto simp: decodeU64FromBytes_def ordered_def Let_def)

lemma byte_of_word: "(ucast (drop_bit k v AND 0xff) :: u8) = word_of_nat (unat (v :: u64) div 2 ^ k)"
proof -
  have m: "drop_bit k v AND 0xff = take_bit 8 (drop_bit k v)"
    using take_bit_eq_mask [of 8 "drop_bit k v"] by (simp add: mask_eq_exp_minus_1)
  have "unat (drop_bit k v) = unat v div 2 ^ k"
  proof -
    have "take_bit 64 (unat v) = unat v" using unat_u64_bound [of v] by (intro take_bit_nat_eq_self) simp
    then show ?thesis by (simp add: unsigned_drop_bit_eq drop_bit_nat_def)
  qed
  then have "unat (drop_bit k v AND 0xff) = unat v div 2 ^ k mod 256"
    by (simp only: m unsigned_take_bit_eq take_bit_nat_def) simp
  then have "unat (ucast (drop_bit k v AND 0xff) :: u8) = unat v div 2 ^ k mod 256"
    by (simp only: unsigned_ucast_eq take_bit_nat_def) simp
  then show ?thesis by (simp only: word_unat_eq_iff unsigned_of_nat take_bit_nat_def) simp
qed

lemma le_bytes_map: "le_bytes n v = map (\<lambda>i. word_of_nat (v div 256 ^ i)) [0..<n]"
proof (induction n arbitrary: v)
  case (Suc n)
  have "[0..<Suc n] = 0 # map Suc [0..<n]" by (simp add: map_Suc_upt upt_conv_Cons)
  then show ?case by (simp add: Suc.IH div_mult2_eq)
qed simp

lemma encodeU64ToBytes_bytes: "encodeU64ToBytes v n le = ordered le (le_bytes n (unat v))"
proof (cases le)
  case True
  then show ?thesis
    by (simp add: encodeU64ToBytes_def ordered_def le_bytes_map byte_of_word pow_256)
next
  case False
  have "rev [0..<n] = map (\<lambda>i. n - 1 - i) [0..<n]" by (rule nth_equalityI) (auto simp: rev_nth)
  then show ?thesis
    using False
    by (simp add: encodeU64ToBytes_def ordered_def le_bytes_map byte_of_word rev_map pow_256 comp_def)
qed

lemma length_encodeU64ToBytes [simp]: "length (encodeU64ToBytes v n le) = n"
  by (simp add: encodeU64ToBytes_bytes)

lemma maskToBytes_mod:
  assumes "0 < n"
  shows "maskToBytes v n = word_of_nat (unat v mod 256 ^ n)"
proof (cases "n < 8")
  case True
  have "v AND (push_bit (n * 8) 1 - 1) = take_bit (n * 8) v"
    by (simp add: take_bit_eq_mask mask_eq_exp_minus_1 push_bit_eq_mult)
  moreover have "unat (take_bit (n * 8) v) = unat v mod 256 ^ n"
    by (simp add: unsigned_take_bit_eq take_bit_nat_def pow_256)
  ultimately have "maskToBytes v n = word_of_nat (unat v mod 256 ^ n)"
    using True assms by (simp add: maskToBytes_def) (metis word_of_nat_eq_iff word_unat_eq_iff of_nat_unat ucast_id)
  then show ?thesis .
next
  case False
  have "(256 :: nat) ^ 8 \<le> 256 ^ n" using False by (intro power_increasing) auto
  then have "unat v < 256 ^ n" using unat_u64_bound [of v] by simp
  then show ?thesis using False by (simp add: maskToBytes_def)
qed

text \<open>
  Storing the low \<open>n\<close> bytes of a value and loading them back gives the value masked to
  \<open>n\<close> bytes, in either byte order.
\<close>

theorem decode_encode_bytes:
  assumes "0 < n" and "n \<le> 8"
  shows "decodeU64FromBytes (encodeU64ToBytes v n le) n le = maskToBytes v n"
  using assms by (simp add: decodeU64FromBytes_value maskToBytes_mod)
    (simp add: encodeU64ToBytes_bytes le_value_le_bytes)

theorem decode_encode_bytes_witness:
  "decodeU64FromBytes (encodeU64ToBytes 0x1122334455 3 False) 3 False = maskToBytes 0x1122334455 3"
  by (rule decode_encode_bytes) simp_all

end
