(* ===== verification/EvalLoop.thy ===== *)
theory EvalLoop
  imports Evaluator EvalReaders
begin

section \<open>Executing code in the evaluator's loop\<close>

text \<open>
  Facts about the dispatch table and the loop that the properties of the evaluator share:
  lookup of the operations, straight-line execution of a segment of an expression, and
  invariants of the handlers.
\<close>

subsection \<open>The dispatch table\<close>

lemma map_of_byte_range:
  assumes "n \<le> 256"
  shows "map_of (map (\<lambda>i. (a + word_of_nat i, v)) [0..<n]) (x :: u8) =
    (if unat (x - a) < n then Some v else None)"
proof (cases "unat (x - a) < n")
  case True
  let ?xs = "map (\<lambda>i. (a + word_of_nat i, v)) [0..<n]"
  have x: "x = a + word_of_nat (unat (x - a))" by simp
  with True have "(x, v) \<in> set ?xs" by force
  then obtain w where "map_of ?xs x = Some w" by (metis weak_map_of_SomeI)
  moreover from this have "w = v" by (auto dest: map_of_SomeD)
  ultimately show ?thesis using True by simp
next
  case False
  have "x \<notin> fst ` set (map (\<lambda>i. (a + word_of_nat i, v)) [0..<n])"
  proof
    assume "x \<in> fst ` set (map (\<lambda>i. (a + word_of_nat i, v)) [0..<n])"
    then obtain i where "i < n" "x = a + word_of_nat i" by auto
    then have "unat (x - a) = i" using assms by (simp add: unsigned_of_nat take_bit_nat_eq_self)
    with \<open>i < n\<close> False show False by simp
  qed
  then have "map_of (map (\<lambda>i. (a + word_of_nat i, v)) [0..<n]) x = None"
    by (simp only: map_of_eq_None_iff not_False_eq_True)
  with False show ?thesis by simp
qed

lemma lookup_op:
  "map_of op_handlers op =
     (case map_of named_handlers op of
        Some h \<Rightarrow> Some h
      | None \<Rightarrow>
          if unat (op - DW_OP_lit0) < 32 then Some (Plain handleLit)
          else if unat (op - DW_OP_reg0) < 32 then Some (Plain handleReg)
          else if unat (op - DW_OP_breg0) < 32 then Some (Plain handleBreg)
          else None)"
  unfolding op_handlers_def map_of_append map_add_def
  by (simp add: map_of_byte_range split: option.split)

lemma named_codes: "list_all (\<lambda>(op, h). unat op < 0x30 \<or> 0x90 \<le> unat op) named_handlers"
  by (simp add: named_handlers_def)

lemma named_None: "0x30 \<le> unat op \<Longrightarrow> unat op < 0x90 \<Longrightarrow> map_of named_handlers op = None"
  using named_codes by (auto simp: map_of_eq_None_iff list_all_iff)

lemma lookup_breg:
  assumes "i < 32"
  shows "map_of op_handlers (0x70 + word_of_nat i) = Some (Plain handleBreg)"
proof -
  have u: "unat (0x70 + word_of_nat i :: u8) = 0x70 + i"
    using assms by (simp add: unat_word_ariths unsigned_of_nat take_bit_nat_eq_self)
  have "unat (0x70 + word_of_nat i - DW_OP_lit0) = 0x40 + i" "unat (0x70 + word_of_nat i - DW_OP_reg0) = 0x20 + i"
    "unat (0x70 + word_of_nat i - DW_OP_breg0) = i"
    using assms by (simp_all add: unat_word_ariths unsigned_of_nat take_bit_nat_eq_self unat_sub_if')
  then show ?thesis using assms u by (simp add: lookup_op named_None)
qed

text \<open>Lookup of a named operation, evaluated on demand.\<close>

lemmas lookup_named = lookup_op named_handlers_def

subsection \<open>Running a segment\<close>

text \<open>
  \<open>runs nest e off s off' s' k\<close>: from offset \<open>off\<close> and state \<open>s\<close> the loop reaches \<open>off'\<close> and \<open>s'\<close> in
  \<open>k\<close> steps.
\<close>

definition runs :: "nested_calls \<Rightarrow> bytes \<Rightarrow> nat \<Rightarrow> eval_state \<Rightarrow> nat \<Rightarrow> eval_state \<Rightarrow> nat \<Rightarrow> bool" where
  "runs nest e off s off' s' k \<longleftrightarrow>
     (\<forall>steps. run_loop nest e (k + steps) off s = run_loop nest e steps off' s')"

lemma runs_refl: "runs nest e off s off s 0"
  by (simp add: runs_def)

lemma runs_trans:
  "runs nest e o1 s1 o2 s2 k1 \<Longrightarrow> runs nest e o2 s2 o3 s3 k2 \<Longrightarrow> runs nest e o1 s1 o3 s3 (k1 + k2)"
  by (simp add: runs_def add.assoc)

lemma runs_Plain:
  assumes "off < length e" and "map_of op_handlers (e ! off) = Some (Plain h)"
    and "h e (Suc off) s = (off', s')" and "\<not> execution_error s'"
  shows "runs nest e off s off' s' 1"
  using assms by (simp add: runs_def run_op_def ev_readU8_in)

lemma run_loop_end: "length e \<le> off \<Longrightarrow> run_loop nest e steps off s = Some (Finished, s)"
  by (cases steps) simp_all

lemma runs_finish:
  assumes "runs nest e 0 s off s' k" and "length e \<le> off" and "k \<le> max_steps e"
  shows "run_loop nest e (max_steps e) 0 s = Some (Finished, s')"
proof -
  obtain r where "max_steps e = k + r" using assms(3) by (metis le_iff_add)
  then show ?thesis using assms(1) run_loop_end [OF assms(2)] by (simp add: runs_def)
qed

end
