(* ===== verification/EvalInv.thy ===== *)
theory EvalInv
  imports EvalLoop
begin

section \<open>Invariants of the handlers\<close>

text \<open>
  Every handler leaves the program counter, the registers, the context, the memory and the call
  depth alone, never clears an error, and either reports an error or leaves the offset inside
  the expression. The rules below follow the structure of a handler's body; each handler is then
  one application of them.
\<close>

definition frame :: "eval_state \<Rightarrow> EvaluationContext \<times> u64 \<times> u64 list \<times> memory_context \<times> bool \<times> nat" where
  "frame s = (context_of s, eval_pc s, registers s, memory s, object_le s, call_depth s)"

definition keeps :: "bytes \<Rightarrow> eval_state \<Rightarrow> nat \<Rightarrow> eval_state \<Rightarrow> bool" where
  "keeps e s0 off s \<longleftrightarrow> frame s = frame s0 \<and> (execution_error s0 \<longrightarrow> execution_error s)
     \<and> (execution_error s \<or> off \<le> length e)"

definition sinv :: "eval_state \<Rightarrow> eval_state \<Rightarrow> bool" where
  "sinv s0 s \<longleftrightarrow> frame s = frame s0 \<and> (execution_error s0 \<longrightarrow> execution_error s)"

definition ends :: "bytes \<Rightarrow> eval_state \<Rightarrow> nat \<times> eval_state \<Rightarrow> bool" where
  "ends e s0 p \<longleftrightarrow> keeps e s0 (fst p) (snd p)"

named_theorems inv_rules

lemma sinv_refl: "sinv s s"
  by (simp add: sinv_def)

lemma inv_sinv: "keeps e s0 off s \<Longrightarrow> sinv s0 s"
  by (simp add: keeps_def sinv_def)

lemma ends_pair [inv_rules]: "keeps e s0 off s \<Longrightarrow> ends e s0 (off, s)"
  by (simp add: ends_def)

lemma frame_set_error [simp]: "frame (setExecutionError m s) = frame s"
  by (simp add: frame_def setExecutionError_def)

lemma inv_error [inv_rules]: "keeps e s0 off s \<Longrightarrow> keeps e s0 off' (setExecutionError m s)"
  by (simp add: keeps_def)

lemma inv_push [inv_rules]: "keeps e s0 off s \<Longrightarrow> keeps e s0 off (push v s)"
  by (simp add: keeps_def frame_def push_def)

lemma inv_updates [inv_rules]:
  "keeps e s0 off s \<Longrightarrow> keeps e s0 off (s\<lparr>is_register_location := b\<rparr>)"
  "keeps e s0 off s \<Longrightarrow> keeps e s0 off (s\<lparr>is_implicit_value := b\<rparr>)"
  "keeps e s0 off s \<Longrightarrow> keeps e s0 off (s\<lparr>pending_implicit_bytes := bs\<rparr>)"
  "keeps e s0 off s \<Longrightarrow> keeps e s0 off (s\<lparr>is_implicit_value := b, pending_implicit_bytes := bs\<rparr>)"
  "keeps e s0 off s \<Longrightarrow> keeps e s0 off (s\<lparr>uninitialized_taint := b\<rparr>)"
  "keeps e s0 off s \<Longrightarrow> keeps e s0 off (s\<lparr>stack := st, is_register_location := b, pending_implicit_bytes := bs\<rparr>)"
  "keeps e s0 off s \<Longrightarrow> keeps e s0 off (with_bytes bb s)"
  by (simp_all add: keeps_def frame_def with_bytes_def)

lemma inv_stack: "keeps e s0 off s \<Longrightarrow> keeps e s0 off (s\<lparr>stack := st\<rparr>)"
  by (simp add: keeps_def frame_def)

lemma ends_pop [inv_rules]:
  "keeps e s0 off s \<Longrightarrow> (\<And>v s'. keeps e s0 off s' \<Longrightarrow> ends e s0 (k v s')) \<Longrightarrow>
     ends e s0 (case pop s of (v, s') \<Rightarrow> k v s')"
  by (auto simp: pop_def inv_stack split: list.split)

lemma inv_snd_pop [inv_rules]: "keeps e s0 off s \<Longrightarrow> keeps e s0 off (snd (pop s))"
  by (auto simp: pop_def inv_stack split: list.split)

lemma ends_requireStack [inv_rules]:
  "keeps e s0 off s \<Longrightarrow> (keeps e s0 off s \<Longrightarrow> ends e s0 (k s)) \<Longrightarrow> ends e s0 (requireStack n name off s k)"
  by (auto simp: requireStack_def intro!: inv_rules)

lemma ends_if [inv_rules]: "(c \<Longrightarrow> ends e s0 a) \<Longrightarrow> (\<not> c \<Longrightarrow> ends e s0 b) \<Longrightarrow> ends e s0 (if c then a else b)"
  by simp

lemma ends_option [inv_rules]:
  "ends e s0 a \<Longrightarrow> (\<And>x. ends e s0 (f x)) \<Longrightarrow> ends e s0 (case v of None \<Rightarrow> a | Some x \<Rightarrow> f x)"
  by (cases v) auto

lemma ends_Let [inv_rules]: "ends e s0 (f x) \<Longrightarrow> ends e s0 (Let x f)"
  by simp

subsection \<open>Readers\<close>

text \<open>A reader keeps the state part and, from any offset, fails or stays inside the expression.\<close>

definition reads :: "bytes \<Rightarrow> eval_state \<Rightarrow> 'v \<times> nat \<times> eval_state \<Rightarrow> bool" where
  "reads e s0 r \<longleftrightarrow> keeps e s0 (fst (snd r)) (snd (snd r))"

lemma reads_then: "reads e s0 r \<Longrightarrow> (\<And>v off s. keeps e s0 off s \<Longrightarrow> ends e s0 (k v off s)) \<Longrightarrow>
   ends e s0 (case r of (v, off, s) \<Rightarrow> k v off s)"
  by (auto simp: reads_def split: prod.splits)

lemma reads_checked:
  assumes "sinv s0 s" and "0 < n" and "\<And>v off'. r = Ret (v, off') \<Longrightarrow> n \<le> avail e off \<Longrightarrow> off' \<le> length e"
  shows "reads e s0 (checked_read n what r z e off s)"
proof (cases "avail e off < n")
  case True
  then show ?thesis using assms(1) by (simp add: checked_read_def reads_def keeps_def sinv_def)
next
  case False
  then show ?thesis
  proof (cases r)
    case (Ret p)
    then show ?thesis using False assms
      by (cases p) (simp add: checked_read_def reads_def keeps_def sinv_def)
  next
    case (Throw x)
    then show ?thesis using False assms(1,2)
      by (cases "off \<le> length e") (auto simp: checked_read_def reads_def keeps_def sinv_def avail_def)
  next
    case (Undef u)
    then show ?thesis using False assms(1,2)
      by (cases "off \<le> length e") (auto simp: checked_read_def reads_def keeps_def sinv_def avail_def)
  qed
qed

lemma read_end:
  "readU8 d off (length d) = Ret (v8, o1) \<Longrightarrow> 1 \<le> avail d off \<Longrightarrow> o1 \<le> length d"
  "readU16 le d off (length d) = Ret (v16, o2) \<Longrightarrow> 2 \<le> avail d off \<Longrightarrow> o2 \<le> length d"
  "readU32 le d off (length d) = Ret (v32, o4) \<Longrightarrow> 4 \<le> avail d off \<Longrightarrow> o4 \<le> length d"
  "readU64 le d off (length d) = Ret (v64, o8) \<Longrightarrow> 8 \<le> avail d off \<Longrightarrow> o8 \<le> length d"
  by (auto simp: readU8_def readU16_def readU32_def readU64_def avail_def obind_eq_Ret
      split: if_splits simp del: readU64_be_loop.simps)

lemma reads_fixed:
  assumes "sinv s0 s"
  shows "reads e s0 (ev_readU8 e off s)" "reads e s0 (ev_readU16 e off s)"
    "reads e s0 (ev_readU32 e off s)" "reads e s0 (ev_readU64 e off s)"
  unfolding ev_readU8_def ev_readU16_def ev_readU32_def ev_readU64_def
  by (rule reads_checked [OF assms]; (simp; fail | erule (1) read_end))+

lemma reads_uleb_loop: "sinv s0 s \<Longrightarrow> reads e s0 (ev_uleb_loop e off s r sh)"
proof (induction e off s r sh rule: ev_uleb_loop.induct)
  case (1 e off s r sh)
  then show ?case
    by (subst ev_uleb_loop.simps)
      (auto simp: Let_def reads_def keeps_def sinv_def not_le intro: Suc_leI)
qed

lemma reads_uleb: "sinv s0 s \<Longrightarrow> reads e s0 (ev_readULEB128 e off s)"
  using reads_uleb_loop [of s0 s e off 0 0]
  by (simp add: ev_readULEB128_def) (simp add: reads_def keeps_def sinv_def)

lemma reads_sleb_loop: "sinv s0 s \<Longrightarrow> reads e s0 (ev_sleb_loop e off s r sh)"
proof (induction e off s r sh rule: ev_sleb_loop.induct)
  case (1 e off s r sh)
  then show ?case
    by (subst ev_sleb_loop.simps)
      (auto simp: Let_def reads_def keeps_def sinv_def not_le intro: Suc_leI)
qed

lemma reads_sleb: "sinv s0 s \<Longrightarrow> reads e s0 (ev_readSLEB128 e off s)"
  using reads_sleb_loop [of s0 s e off 0 0]
  by (cases "off < length e")
    (auto simp: ev_readSLEB128_loop reads_def split: prod.splits,
      auto simp: ev_readSLEB128_def reads_def keeps_def sinv_def)

lemma reads_map: "reads e s0 r \<Longrightarrow> reads e s0 (case r of (v, off, s) \<Rightarrow> (f v, off, s))"
  by (cases r) (simp add: reads_def)

lemma reads_if: "(c \<Longrightarrow> reads e s0 a) \<Longrightarrow> (\<not> c \<Longrightarrow> reads e s0 b) \<Longrightarrow> reads e s0 (if c then a else b)"
  by simp

lemma reads_fail: "sinv s0 s \<Longrightarrow> reads e s0 (v, off, setExecutionError m s)"
  by (simp add: reads_def keeps_def sinv_def)

lemma reads_address: "sinv s0 s \<Longrightarrow> reads e s0 (ev_readAddressSized e off s)"
  unfolding ev_readAddressSized_def by (intro reads_if reads_map reads_fixed reads_fail; assumption)

lemma reads_offset: "sinv s0 s \<Longrightarrow> reads e s0 (ev_readOffsetSized e off s)"
  unfolding ev_readOffsetSized_def by (intro reads_if reads_map reads_fixed reads_fail; assumption)

lemma reads_encoded: "sinv s0 s \<Longrightarrow> reads e s0 (read_encoded fmt e off s)"
  unfolding read_encoded_def
  by (intro reads_if reads_map reads_fixed reads_fail reads_address reads_uleb reads_sleb; assumption)

lemmas readers_then [inv_rules] =
  reads_then [OF reads_fixed(1) [OF inv_sinv]] reads_then [OF reads_fixed(2) [OF inv_sinv]]
  reads_then [OF reads_fixed(3) [OF inv_sinv]] reads_then [OF reads_fixed(4) [OF inv_sinv]]
  reads_then [OF reads_uleb [OF inv_sinv]] reads_then [OF reads_sleb [OF inv_sinv]]
  reads_then [OF reads_address [OF inv_sinv]] reads_then [OF reads_offset [OF inv_sinv]]

lemma ends_pointer [inv_rules]:
  "keeps e s0 off s \<Longrightarrow> (\<And>n s'. keeps e s0 off s' \<Longrightarrow> ends e s0 (k n s')) \<Longrightarrow>
     ends e s0 (case pointerByteSize name s of (n, s') \<Rightarrow> k n s')"
  by (auto simp: pointerByteSize_def intro: inv_error)

subsection \<open>The helpers of the handlers\<close>

lemma ends_load_pointer [inv_rules]: "keeps e s0 off s \<Longrightarrow> ends e s0 (load_pointer name addr off s)"
  unfolding load_pointer_def by (intro inv_rules; assumption)

lemma ends_load_sized [inv_rules]: "keeps e s0 off s \<Longrightarrow> ends e s0 (load_sized name addr sz off s)"
  unfolding load_sized_def by (intro inv_rules; assumption)

lemma ends_load_typed [inv_rules]: "keeps e s0 off s \<Longrightarrow> ends e s0 (load_typed name addr sz t off s)"
  unfolding load_typed_def by (intro inv_rules; assumption)

lemma ends_add_piece [inv_rules]: "keeps e s0 off s \<Longrightarrow> ends e s0 (add_piece p off s)"
  by (simp add: add_piece_def ends_def keeps_def frame_def)

lemma ends_emit_piece [inv_rules]: "keeps e s0 off s \<Longrightarrow> ends e s0 (emit_piece name p off s)"
  unfolding emit_piece_def by (intro inv_rules; assumption)

lemma ends_jump [inv_rules]: "keeps e s0 off s \<Longrightarrow> ends e s0 (jump name t e off s)"
  by (auto simp: jump_def Let_def ends_def keeps_def)

subsection \<open>Every handler keeps the invariant\<close>

definition handler_ok :: "handler \<Rightarrow> bool" where
  "handler_ok h \<longleftrightarrow> (\<forall>e s0 off s. keeps e s0 off s \<longrightarrow> ends e s0 (h e off s))"

named_theorems handlers_ok

lemma ok_constants [handlers_ok]:
  "handler_ok handleAddr" "handler_ok handleConst1u" "handler_ok handleConst1s" "handler_ok handleConst2u"
  "handler_ok handleConst2s" "handler_ok handleConst4u" "handler_ok handleConst4s"
  "handler_ok handleConst8u" "handler_ok handleConst8s" "handler_ok handleConstu" "handler_ok handleConsts"
  "handler_ok handleLit"
  unfolding handler_ok_def handleAddr_def handleConst1u_def handleConst1s_def handleConst2u_def
    handleConst2s_def handleConst4u_def handleConst4s_def handleConst8u_def handleConst8s_def
    handleConstu_def handleConsts_def handleLit_def
  by (intro allI impI inv_rules; assumption)+

lemma ok_stack [handlers_ok]:
  "handler_ok handleDup" "handler_ok handleDrop" "handler_ok handleOver" "handler_ok handlePick"
  "handler_ok handleSwap" "handler_ok handleRot"
  unfolding handler_ok_def handleDup_def handleDrop_def handleOver_def handlePick_def handleSwap_def handleRot_def
  by (intro allI impI inv_rules; assumption)+

lemma ok_unop: "handler_ok (unop name f)"
  unfolding handler_ok_def unop_def by (intro allI impI inv_rules; assumption)

lemma ok_binop: "handler_ok (binop name g)"
  unfolding handler_ok_def binop_def by (intro allI impI inv_rules; assumption)

lemma ok_arithmetic [handlers_ok]:
  "handler_ok handleAbs" "handler_ok handleNeg" "handler_ok handleNot" "handler_ok handleAnd"
  "handler_ok handleDiv" "handler_ok handleMinus" "handler_ok handleMod" "handler_ok handleMul"
  "handler_ok handleOr" "handler_ok handlePlus" "handler_ok handleShl" "handler_ok handleShr"
  "handler_ok handleShra" "handler_ok handleXor" "handler_ok handleEq" "handler_ok handleGe"
  "handler_ok handleGt" "handler_ok handleLe" "handler_ok handleLt" "handler_ok handleNe"
  unfolding handleAbs_def handleNeg_def handleNot_def handleAnd_def handleDiv_def handleMinus_def
    handleMod_def handleMul_def handleOr_def handlePlus_def handleShl_def handleShr_def handleShra_def
    handleXor_def handleEq_def handleGe_def handleGt_def handleLe_def handleLt_def handleNe_def
  by (rule ok_unop ok_binop)+

lemma ok_plus_uconst: "handler_ok (plus_uconst name)"
  unfolding handler_ok_def plus_uconst_def by (intro allI impI inv_rules; assumption)

lemma ok_deref_size: "handler_ok (deref_size name)"
  unfolding handler_ok_def deref_size_def by (intro allI impI inv_rules; assumption)

lemma ok_indexed: "handler_ok (indexed_address name)"
  unfolding handler_ok_def indexed_address_def by (intro allI impI inv_rules; assumption)

lemma ok_convert: "handler_ok (convert_with name f)"
  unfolding handler_ok_def convert_with_def by (intro allI impI inv_rules; assumption)

lemma ok_families [handlers_ok]:
  "handler_ok handlePlusUconst" "handler_ok handleDerefSize" "handler_ok handleAddrx"
  "handler_ok handleConstx" "handler_ok handleGnuAddrIndex" "handler_ok handleGnuConstIndex"
  "handler_ok handleConvert" "handler_ok handleReinterpret" "handler_ok handleGnuConvert"
  "handler_ok handleGnuReinterpret"
  unfolding handlePlusUconst_def handleDerefSize_def handleGnuAddrIndex_def handleGnuConstIndex_def
    handleAddrx_def handleConstx_def handleGnuConvert_def handleGnuReinterpret_def handleConvert_def
    handleReinterpret_def
  by (rule ok_plus_uconst ok_deref_size ok_indexed ok_convert)+

lemma ok_control [handlers_ok]:
  "handler_ok handleBra" "handler_ok handleSkip" "handler_ok handleNop"
  unfolding handler_ok_def handleBra_def handleSkip_def handleNop_def
  by (intro allI impI inv_rules; assumption)+

lemma ok_registers [handlers_ok]:
  "handler_ok handleReg" "handler_ok handleBreg" "handler_ok handleRegx" "handler_ok handleFbreg"
  "handler_ok handleBregx" "handler_ok handlePushObjectAddress" "handler_ok handleCallFrameCfa"
  "handler_ok handleFormTlsAddress" "handler_ok handleGnuPushTlsAddress" "handler_ok handleGnuUninit"
  unfolding handler_ok_def handleGnuPushTlsAddress_def handleReg_def handleBreg_def handleRegx_def
    handleFbreg_def handleBregx_def handlePushObjectAddress_def handleCallFrameCfa_def
    handleFormTlsAddress_def handleGnuUninit_def
  by (intro allI impI inv_rules; assumption)+

lemma ok_memory [handlers_ok]:
  "handler_ok handleDeref" "handler_ok handleXderef" "handler_ok handleXderefSize"
  "handler_ok handlePiece" "handler_ok handleBitPiece"
  "handler_ok handleDerefType" "handler_ok handleXderefType" "handler_ok handleGnuDerefType"
  unfolding handler_ok_def handleGnuDerefType_def handleDeref_def handleXderef_def handleXderefSize_def
    handlePiece_def handleBitPiece_def handleDerefType_def handleXderefType_def
  by (intro allI impI inv_rules; assumption)+

lemma inv_advance: "keeps e s0 off s \<Longrightarrow> \<not> (length e < off \<or> length e - off < n) \<Longrightarrow> keeps e s0 (off + n) s"
  by (auto simp: keeps_def)

lemma ok_values [handlers_ok]:
  "handler_ok handleImplicitValue" "handler_ok handleStackValue" "handler_ok handleConstType"
  "handler_ok handleGnuConstType" "handler_ok handleRegvalType" "handler_ok handleGnuRegvalType"
  unfolding handler_ok_def handleGnuConstType_def handleGnuRegvalType_def handleImplicitValue_def
    handleStackValue_def handleConstType_def handleRegvalType_def
  by (intro allI impI inv_rules inv_advance; (assumption | simp)?)+

lemma inv_pointer: "keeps e s0 off s \<Longrightarrow> pointerByteSize name s = (n, s') \<Longrightarrow> keeps e s0 off s'"
  by (auto simp: pointerByteSize_def intro: inv_error split: if_splits)

lemma ends_mode [inv_rules]:
  "ends e s0 a \<Longrightarrow> (\<And>x. ends e s0 (f x)) \<Longrightarrow> ends e s0 (case apply_mode m r s of None \<Rightarrow> a | Some x \<Rightarrow> f x)"
  by (rule ends_option)

lemma ends_encoded:
  assumes "sinv s0 s"
  shows "ends e s0 (case read_encoded fmt e off s of (raw, off, s) \<Rightarrow>
     if execution_error s then (off, s)
     else case apply_mode app raw s of
       None \<Rightarrow> (off, setExecutionError m1 s)
     | Some addr \<Rightarrow>
         if ind then
           (case pointerByteSize nm s of (n, s) \<Rightarrow>
              if execution_error s then (off, s)
              else case mem_read s addr n of
                Some buf \<Rightarrow> (off, push (decode_buf s buf) s)
              | None \<Rightarrow> (off, setExecutionError m2 s))
         else (off, push addr s))"
  by (rule reads_then [OF reads_encoded [OF assms]], intro inv_rules; assumption)

lemma ends_aligned:
  assumes "keeps e s0 off s" and "\<And>n s'. keeps e s0 off s' \<Longrightarrow> ends e s0 (k n s')"
  shows "ends e s0 (case (if c then pointerByteSize name s else (1, s)) of (align, s) \<Rightarrow>
     if c \<and> execution_error s then (off, s) else k align s)"
  using assms by (auto intro: ends_pair inv_pointer split: prod.split)

lemma ok_encoded [handlers_ok]: "handler_ok handleGnuEncodedAddr"
proof -
  have "ends e s0 (handleGnuEncodedAddr e off s)" if "keeps e s0 off s" for e s0 off s
    unfolding handleGnuEncodedAddr_def Let_def
    by (rule ends_if, rule ends_pair, rule inv_error [OF that], rule readers_then(1) [OF that],
        rule ends_aligned, assumption, rule ends_encoded, erule inv_sinv)
  then show ?thesis by (simp add: handler_ok_def)
qed

lemma ok_wasm [handlers_ok]: "handler_ok handleWasmLocation"
proof -
  have "ends e s0 (handleWasmLocation e off s)" if "keeps e s0 off s" for e s0 off s
    unfolding handleWasmLocation_def Let_def
    by (rule ends_if, rule ends_pair, rule inv_error [OF that], rule readers_then(1) [OF that],
        rule reads_then, rule reads_if, erule reads_uleb [OF inv_sinv])
      (auto simp: reads_def intro!: inv_rules)
  then show ?thesis by (simp add: handler_ok_def)
qed

lemma vendor_ok:
  assumes "keeps e s0 off s" and "handleVendorProfileOpcode opcode e off s = Some p"
  shows "ends e s0 p"
  using assms ok_plus_uconst ok_deref_size ok_constants(10)
  by (auto simp: handleVendorProfileOpcode_def vendor_deref_size_def handler_ok_def split: if_splits)

subsection \<open>The table\<close>

text \<open>
  What is asked of the nested evaluators: a call that runs in the caller's state leaves its frame
  alone and does not fail silently. A handler that makes such a call can clear an earlier error
  of its own operand, so of the nested handlers only the frame and the offset are promised.
\<close>

definition calls_ok :: "nested_calls \<Rightarrow> bool" where
  "calls_ok nest \<longleftrightarrow> (\<forall>e s ok s'. nested_execute nest e s = Some (ok, s') \<longrightarrow> frame s' = frame s)"

definition op_ok :: "nested_calls \<Rightarrow> op_handler \<Rightarrow> bool" where
  "op_ok nest h \<longleftrightarrow> (\<forall>e off s off' s'. run_handler h nest e off s = Some (off', s') \<longrightarrow> off \<le> length e \<longrightarrow>
     frame s' = frame s \<and> (execution_error s' \<or> off' \<le> length e))"

lemma keeps_start: "off \<le> length e \<Longrightarrow> keeps e s off s"
  by (simp add: keeps_def)

lemma op_ok_Plain: "handler_ok h \<Longrightarrow> op_ok nest (Plain h)"
  unfolding op_ok_def handler_ok_def
  by (metis ends_def fst_conv keeps_def keeps_start option.inject run_handler.simps(1) snd_conv)

lemma reads_simp: "reads e s0 (v, off, s) \<longleftrightarrow> keeps e s0 off s"
  by (simp add: reads_def)

lemma frame_simps [simp]:
  "frame (push v s) = frame s" "frame (s\<lparr>pending_implicit_bytes := pb\<rparr>) = frame s"
  "frame (s\<lparr>is_implicit_value := b\<rparr>) = frame s" "frame (s\<lparr>uninitialized_taint := b\<rparr>) = frame s"
  "frame (s\<lparr>execution_error_message := m\<rparr>) = frame s" "frame (s\<lparr>execution_error := b\<rparr>) = frame s"
  "frame (taint_from r s) = frame s"
  by (simp_all add: frame_def push_def taint_from_def)

lemma error_simps [simp]:
  "execution_error (push v s) = execution_error s"
  "execution_error (taint_from r s) = execution_error s"
  by (simp_all add: push_def taint_from_def)

lemma call_procedure_frame:
  assumes "calls_ok nest" and "call_procedure name a nest off s = Some (off', s')"
  shows "frame s' = frame s \<and> off' = off"
  using assms by (auto simp: call_procedure_def calls_ok_def split: option.splits if_splits bool.splits)

lemma materialize_frame:
  "materializeResultAsValue r bank name s = (v, s') \<Longrightarrow>
     frame s' = frame s \<and> (execution_error s \<longrightarrow> execution_error s')"
  by (auto simp: materializeResultAsValue_def pointerByteSize_def split: result_type.splits if_splits option.splits)

lemma push_materialized_frame:
  "push_materialized r bank name off s = (off', s') \<Longrightarrow>
     frame s' = frame s \<and> off' = off \<and> (execution_error s \<longrightarrow> execution_error s')"
  using materialize_frame [of r bank name "taint_from r s"]
  by (auto simp: push_materialized_def split: prod.splits option.splits)

lemma implicit_pointer_frame:
  "implicit_pointer_result r v off s = (off', s') \<Longrightarrow> frame s' = frame s \<and> off' = off"
  by (auto simp: implicit_pointer_result_def split: result_type.splits if_splits)

lemma read_inv:
  assumes "off \<le> length e"
  shows "ev_readOffsetSized e off s = (vo, o', s') \<Longrightarrow> keeps e s o' s'"
    "ev_readULEB128 e off s = (vu, o', s') \<Longrightarrow> keeps e s o' s'"
    "ev_readSLEB128 e off s = (vs, o', s') \<Longrightarrow> keeps e s o' s'"
  using reads_offset [OF sinv_refl, of e s off] reads_uleb [OF sinv_refl, of e s off]
    reads_sleb [OF sinv_refl, of e s off]
  by (simp_all add: reads_simp)

lemma checked_within:
  assumes "checked_read n what r z e off s = (v, o', s')" and "off \<le> length e"
    and "\<And>v off'. r = Ret (v, off') \<Longrightarrow> n \<le> avail e off \<Longrightarrow> off' \<le> length e"
  shows "frame s' = frame s \<and> o' \<le> length e"
  using assms by (auto simp: checked_read_def not_less split: if_splits outcome.splits)

lemma read_within:
  assumes "off \<le> length e"
  shows "ev_readU16 e off s = (v2, o', s') \<Longrightarrow> frame s' = frame s \<and> o' \<le> length e"
    "ev_readU32 e off s = (v4, o', s') \<Longrightarrow> frame s' = frame s \<and> o' \<le> length e"
  unfolding ev_readU16_def ev_readU32_def
  by (erule checked_within [OF _ assms], erule (1) read_end)+

lemma op_ok_Nested:
  assumes "\<And>e off s off' s'. off \<le> length e \<Longrightarrow> h nest e off s = Some (off', s') \<Longrightarrow>
    frame s' = frame s \<and> (execution_error s' \<or> off' \<le> length e)"
  shows "op_ok nest (Nested h)"
  using assms by (simp add: op_ok_def)

lemma op_ok_call2: "calls_ok nest \<Longrightarrow> op_ok nest (Nested handleCall2)"
proof (rule op_ok_Nested)
  fix e :: bytes and off s off' s'
  assume nest: "calls_ok nest" and len: "off \<le> length e" and run: "handleCall2 nest e off s = Some (off', s')"
  obtain v o1 s1 where r: "ev_readU16 e off s = (v, o1, s1)" by (rule prod_cases3)
  show "frame s' = frame s \<and> (execution_error s' \<or> off' \<le> length e)"
    using run read_within(1) [OF len r]
    by (auto simp: handleCall2_def r keeps_def split: if_splits dest!: call_procedure_frame [OF nest])
qed

lemma op_ok_call4: "calls_ok nest \<Longrightarrow> op_ok nest (Nested handleCall4)"
proof (rule op_ok_Nested)
  fix e :: bytes and off s off' s'
  assume nest: "calls_ok nest" and len: "off \<le> length e" and run: "handleCall4 nest e off s = Some (off', s')"
  obtain v o1 s1 where r: "ev_readU32 e off s = (v, o1, s1)" by (rule prod_cases3)
  show "frame s' = frame s \<and> (execution_error s' \<or> off' \<le> length e)"
    using run read_within(2) [OF len r]
    by (auto simp: handleCall4_def r keeps_def split: if_splits dest!: call_procedure_frame [OF nest])
qed

lemma op_ok_call_ref: "calls_ok nest \<Longrightarrow> op_ok nest (Nested handleCallRef)"
proof (rule op_ok_Nested)
  fix e :: bytes and off s off' s'
  assume nest: "calls_ok nest" and len: "off \<le> length e" and run: "handleCallRef nest e off s = Some (off', s')"
  obtain v o1 s1 where r: "ev_readOffsetSized e off s = (v, o1, s1)" by (rule prod_cases3)
  show "frame s' = frame s \<and> (execution_error s' \<or> off' \<le> length e)"
    using run read_inv(1) [OF len r]
    by (auto simp: handleCallRef_def r keeps_def split: if_splits dest!: call_procedure_frame [OF nest])
qed

lemma op_ok_implicit_pointer: "op_ok nest (Nested handleImplicitPointer)"
proof (rule op_ok_Nested)
  fix e :: bytes and off s off' s'
  assume len: "off \<le> length e" and run: "handleImplicitPointer nest e off s = Some (off', s')"
  obtain v o1 s1 where r: "ev_readOffsetSized e off s = (v, o1, s1)" by (rule prod_cases3)
  obtain w o2 s2 where q: "ev_readSLEB128 e o1 s1 = (w, o2, s2)" by (rule prod_cases3)
  note i1 = read_inv(1) [OF len r]
  have i2: "keeps e s1 o2 s2" if "\<not> execution_error s1"
    using that i1 read_inv(3) [OF _ q] by (simp add: keeps_def)
  show "frame s' = frame s \<and> (execution_error s' \<or> off' \<le> length e)"
    using run i1 i2
    by (auto simp: handleImplicitPointer_def r q keeps_def Let_def split: if_splits option.splits
        dest!: implicit_pointer_frame)
qed

lemma op_ok_entry_value: "op_ok nest (Nested handleEntryValue)"
proof (rule op_ok_Nested)
  fix e :: bytes and off s off' s'
  assume len: "off \<le> length e" and run: "handleEntryValue nest e off s = Some (off', s')"
  obtain v o1 s1 where r: "ev_readULEB128 e off s = (v, o1, s1)" by (rule prod_cases3)
  show "frame s' = frame s \<and> (execution_error s' \<or> off' \<le> length e)"
    using run read_inv(2) [OF len r]
    by (auto simp: handleEntryValue_def r keeps_def Let_def split: if_splits option.splits
        dest!: push_materialized_frame)
qed

lemma op_ok_parameter_ref: "op_ok nest (Nested handleGnuParameterRef)"
proof (rule op_ok_Nested)
  fix e :: bytes and off s off' s'
  assume len: "off \<le> length e" and run: "handleGnuParameterRef nest e off s = Some (off', s')"
  obtain v o1 s1 where r: "ev_readOffsetSized e off s = (v, o1, s1)" by (rule prod_cases3)
  show "frame s' = frame s \<and> (execution_error s' \<or> off' \<le> length e)"
    using run read_inv(1) [OF len r]
    by (auto simp: handleGnuParameterRef_def r keeps_def Let_def split: if_splits option.splits
        dest!: push_materialized_frame)
qed

lemma named_handlers_ok:
  assumes "calls_ok nest"
  shows "list_all (\<lambda>(opcode, h). op_ok nest h) named_handlers"
  unfolding named_handlers_def
  by (simp add: op_ok_Plain handlers_ok op_ok_implicit_pointer op_ok_entry_value
      op_ok_parameter_ref op_ok_call2 op_ok_call4 op_ok_call_ref handleGnuImplicitPointer_def
      handleGnuEntryValue_def assms)

lemma handlers_table_ok:
  assumes "calls_ok nest" and "map_of op_handlers opcode = Some h"
  shows "op_ok nest h"
proof -
  have "list_all (\<lambda>(opcode, h). op_ok nest h) op_handlers"
    using named_handlers_ok [OF assms(1)]
    by (auto simp: op_handlers_def list_all_iff op_ok_Plain handlers_ok)
  with assms(2) show ?thesis
    by (auto simp: list_all_iff dest!: map_of_SomeD)
qed

subsection \<open>The loop and the nested evaluators\<close>

lemma read_opcode: "off < length e \<Longrightarrow> ev_readU8 e off s = (e ! off, Suc off, s)"
  by (simp add: ev_readU8_in)

lemma run_op_ok:
  assumes "calls_ok nest" and "off < length e" and "run_op nest e off s = Some r"
  shows "case r of Ran off' s' \<Rightarrow> frame s' = frame s \<and> (execution_error s' \<or> off' \<le> length e)
    | NoHandler opcode s' \<Rightarrow> opcode = e ! off \<and> s' = s"
proof (cases "map_of op_handlers (e ! off)")
  case None
  then show ?thesis using assms(2,3) vendor_ok [OF keeps_start, of "Suc off" e "e ! off" s]
    by (auto simp: run_op_def read_opcode ends_def keeps_def split: option.splits)
next
  case (Some h)
  then show ?thesis using assms(2,3) handlers_table_ok [OF assms(1) Some]
    by (auto simp: run_op_def read_opcode op_ok_def split: option.splits)
qed

lemma run_loop_ok:
  assumes "calls_ok nest"
  shows "run_loop nest e n off s = Some (r, s') \<Longrightarrow> off \<le> length e \<Longrightarrow>
    frame s' = frame s \<and> (\<not> execution_error s \<longrightarrow> execution_error s' = (\<exists>o'. r = OpError o'))"
proof (induction n arbitrary: off s)
  case 0
  then show ?case by (auto split: if_splits)
next
  case (Suc n)
  show ?case
  proof (cases "off < length e")
    case True
    then obtain ro where ro: "run_op nest e off s = Some ro"
      using Suc.prems(1) by (auto split: option.splits)
    note ok = run_op_ok [OF assms True ro]
    show ?thesis
    proof (cases ro)
      case (Ran off' s1)
      then show ?thesis
        using Suc.prems(1) True ro ok Suc.IH [of off' s1] by (auto split: if_splits)
    next
      case (NoHandler opcode s1)
      then show ?thesis using Suc.prems(1) True ro ok by auto
    qed
  qed (use Suc.prems in auto)
qed

lemma subexpression_frame: "subexpression_end r s = (ok, s') \<Longrightarrow> frame s' = frame s"
  by (auto simp: subexpression_end_def split: loop_end.splits)

lemma frame_depth: "frame s' = frame (s\<lparr>call_depth := Suc (call_depth s)\<rparr>) \<Longrightarrow>
    frame (s'\<lparr>call_depth := call_depth s' - 1\<rparr>) = frame s"
  by (simp add: frame_def)

lemma executeInPlace_frame:
  assumes "calls_ok nest" and "executeInPlace_with nest e s = Some (ok, s')"
  shows "frame s' = frame s"
proof -
  let ?s = "s\<lparr>call_depth := call_depth s + 1, execution_error := False, execution_error_message := []\<rparr>"
  have start: "frame ?s = frame (s\<lparr>call_depth := Suc (call_depth s)\<rparr>)"
    by (simp add: frame_def)
  show ?thesis
  proof (cases "e = [] \<or> kMaxCallDepth \<le> call_depth s")
    case True
    then show ?thesis using assms(2) by (auto simp: executeInPlace_with_def split: if_splits)
  next
    case False
    then have "map_option (\<lambda>(r, s). case subexpression_end r s of (ok, s) \<Rightarrow> (ok, s\<lparr>call_depth := call_depth s - 1\<rparr>))
        (run_loop nest e (max_steps e) 0 ?s) = Some (ok, s')"
      using assms(2) by (simp add: executeInPlace_with_def Let_def)
    then obtain r s1 where run: "run_loop nest e (max_steps e) 0 ?s = Some (r, s1)"
      and s': "s' = (snd (subexpression_end r s1))\<lparr>call_depth := call_depth (snd (subexpression_end r s1)) - 1\<rparr>"
      by (cases "run_loop nest e (max_steps e) 0 ?s") (auto simp: case_prod_unfold)
    have "frame (snd (subexpression_end r s1)) = frame s1"
      by (rule subexpression_frame [OF prod.collapse [symmetric]])
    then show ?thesis
      using run_loop_ok [OF assms(1) run] frame_depth s' start by simp
  qed
qed

lemma calls_ok_nested: "calls_ok (nested fuel)"
  by (induction fuel) (auto simp: calls_ok_def intro: executeInPlace_frame [rotated])

end
