(* ===== verification/EvalCompile.thy ===== *)
theory EvalCompile
  imports EvalLoop
begin

section \<open>The evaluator computes what an expression means\<close>

text \<open>
  A small language of address computations (constants, frame- and register-relative addresses,
  unary and binary operators, a conditional), its compilation to DWARF operations, and the
  theorem that evaluating the compiled code gives the meaning of the source. The conditional is
  compiled to \<open>DW_OP_bra\<close> and \<open>DW_OP_skip\<close>.
\<close>

subsection \<open>Source language\<close>

datatype unary = UAbs | UNeg | UNot

datatype binary =
  BAnd | BDiv | BMinus | BMod | BMul | BOr | BPlus | BShl | BShr | BShra | BXor
  | BEq | BGe | BGt | BLe | BLt | BNe

datatype source =
    Const u64 | ConstU nat | FrameRel int | RegRel nat int
  | Unary unary source | Binary binary source source | AddConst source nat
  | Cond source source source

fun unary_code :: "unary \<Rightarrow> u8" where
  "unary_code UAbs = DW_OP_abs" | "unary_code UNeg = DW_OP_neg" | "unary_code UNot = DW_OP_not"

fun unary_handler :: "unary \<Rightarrow> handler" where
  "unary_handler UAbs = handleAbs" | "unary_handler UNeg = handleNeg" | "unary_handler UNot = handleNot"

fun unary_sem :: "unary \<Rightarrow> u64 \<Rightarrow> u64" where
  "unary_sem UAbs x = word_of_int \<bar>sint x\<bar>"
| "unary_sem UNeg x = word_of_int (- sint x)"
| "unary_sem UNot x = word_of_int (- sint x - 1)"

fun binary_code :: "binary \<Rightarrow> u8" where
  "binary_code BAnd = DW_OP_and" | "binary_code BDiv = DW_OP_div" | "binary_code BMinus = DW_OP_minus"
| "binary_code BMod = DW_OP_mod" | "binary_code BMul = DW_OP_mul" | "binary_code BOr = DW_OP_or"
| "binary_code BPlus = DW_OP_plus" | "binary_code BShl = DW_OP_shl" | "binary_code BShr = DW_OP_shr"
| "binary_code BShra = DW_OP_shra" | "binary_code BXor = DW_OP_xor" | "binary_code BEq = DW_OP_eq"
| "binary_code BGe = DW_OP_ge" | "binary_code BGt = DW_OP_gt" | "binary_code BLe = DW_OP_le"
| "binary_code BLt = DW_OP_lt" | "binary_code BNe = DW_OP_ne"

fun binary_handler :: "binary \<Rightarrow> handler" where
  "binary_handler BAnd = handleAnd" | "binary_handler BDiv = handleDiv"
| "binary_handler BMinus = handleMinus" | "binary_handler BMod = handleMod"
| "binary_handler BMul = handleMul" | "binary_handler BOr = handleOr"
| "binary_handler BPlus = handlePlus" | "binary_handler BShl = handleShl"
| "binary_handler BShr = handleShr" | "binary_handler BShra = handleShra"
| "binary_handler BXor = handleXor" | "binary_handler BEq = handleEq"
| "binary_handler BGe = handleGe" | "binary_handler BGt = handleGt"
| "binary_handler BLe = handleLe" | "binary_handler BLt = handleLt"
| "binary_handler BNe = handleNe"

text \<open>
  The meaning of the operators on numbers: arithmetic modulo \<open>2^64\<close>, unsigned division, shifts
  by the low six bits of the right operand, signed comparisons.
\<close>

fun binary_sem :: "binary \<Rightarrow> u64 \<Rightarrow> u64 \<Rightarrow> u64" where
  "binary_sem BAnd x y = x AND y"
| "binary_sem BDiv x y = word_of_nat (unat x div unat y)"
| "binary_sem BMinus x y = word_of_int (sint x - sint y)"
| "binary_sem BMod x y = (if y = 0 then 0 else word_of_nat (unat x mod unat y))"
| "binary_sem BMul x y = word_of_int (sint x * sint y)"
| "binary_sem BOr x y = x OR y"
| "binary_sem BPlus x y = word_of_int (sint x + sint y)"
| "binary_sem BShl x y = word_of_nat (unat x * 2 ^ (unat y mod 64))"
| "binary_sem BShr x y = word_of_nat (unat x div 2 ^ (unat y mod 64))"
| "binary_sem BShra x y = word_of_int (sint x div 2 ^ (unat y mod 64))"
| "binary_sem BXor x y = x XOR y"
| "binary_sem BEq x y = truth (sint x = sint y)"
| "binary_sem BGe x y = truth (sint y \<le> sint x)"
| "binary_sem BGt x y = truth (sint y < sint x)"
| "binary_sem BLe x y = truth (sint x \<le> sint y)"
| "binary_sem BLt x y = truth (sint x < sint y)"
| "binary_sem BNe x y = truth (sint x \<noteq> sint y)"

fun source_sem :: "EvaluationContext \<Rightarrow> u64 list \<Rightarrow> source \<Rightarrow> u64" where
  "source_sem c regs (Const v) = v"
| "source_sem c regs (ConstU n) = word_of_nat n"
| "source_sem c regs (FrameRel i) = frame_base c + word_of_int i"
| "source_sem c regs (RegRel r i) = (if r < length regs then regs ! r else 0) + word_of_int i"
| "source_sem c regs (Unary u a) = unary_sem u (source_sem c regs a)"
| "source_sem c regs (Binary b x y) = binary_sem b (source_sem c regs x) (source_sem c regs y)"
| "source_sem c regs (AddConst a n) = source_sem c regs a + word_of_nat n"
| "source_sem c regs (Cond a t f) =
     (if source_sem c regs a \<noteq> 0 then source_sem c regs t else source_sem c regs f)"

subsection \<open>Compilation\<close>

definition branch_operand :: "bool \<Rightarrow> nat \<Rightarrow> bytes" where
  "branch_operand le n = ordered le (le_bytes 2 n)"

fun compile :: "bool \<Rightarrow> source \<Rightarrow> bytes" where
  "compile le (Const v) = DW_OP_const8u # ordered le (le_bytes 8 (unat v))"
| "compile le (ConstU n) = DW_OP_constu # uleb_encode n"
| "compile le (FrameRel i) = DW_OP_fbreg # sleb_encode i"
| "compile le (RegRel r i) = (DW_OP_breg0 + word_of_nat r) # sleb_encode i"
| "compile le (Unary u a) = compile le a @ [unary_code u]"
| "compile le (Binary b x y) = compile le x @ compile le y @ [binary_code b]"
| "compile le (AddConst a n) = compile le a @ DW_OP_plus_uconst # uleb_encode n"
| "compile le (Cond a t f) =
     compile le a @ DW_OP_bra # branch_operand le (length (compile le f) + 3)
     @ compile le f @ DW_OP_skip # branch_operand le (length (compile le t)) @ compile le t"

fun in_range :: "source \<Rightarrow> bool" where
  "in_range (Const v) = True"
| "in_range (ConstU n) = (n < 2 ^ 64)"
| "in_range (FrameRel i) = (- (2 ^ 63) \<le> i \<and> i < 2 ^ 63)"
| "in_range (RegRel r i) = (r < 32 \<and> - (2 ^ 63) \<le> i \<and> i < 2 ^ 63)"
| "in_range (Unary u a) = in_range a"
| "in_range (Binary b x y) = (in_range x \<and> in_range y)"
| "in_range (AddConst a n) = (in_range a \<and> n < 2 ^ 64)"
| "in_range (Cond a t f) = (in_range a \<and> in_range t \<and> in_range f)"

subsection \<open>The operators mean what they should\<close>

lemma and_63: "unat ((y :: u64) AND 63) = unat y mod 64"
proof -
  have "y AND 63 = take_bit 6 y"
    using take_bit_eq_mask [of 6 y] by (simp add: mask_eq_exp_minus_1)
  then show ?thesis by (simp only: unsigned_take_bit_eq take_bit_nat_def) simp
qed

lemma unat_drop: "unat (drop_bit k (x :: u64)) = unat x div 2 ^ k"
proof -
  have "take_bit 64 (unat x) = unat x" using unat_u64_bound [of x] by (intro take_bit_nat_eq_self) simp
  then show ?thesis by (simp add: unsigned_drop_bit_eq drop_bit_nat_def)
qed

lemma unary_meaning: 
  "execution_error s = False \<Longrightarrow> unary_handler u e off (push x s) = (off, push (unary_sem u x) s)"
  by (cases u) (auto simp: handleAbs_def handleNeg_def handleNot_def unop_def requireStack_def push_def
      pop_def word_sless_alt not_eq_complement abs_if)

lemma binary_fun:
  "binary_handler b e off (push y (push x s)) = (off, push (binary_sem b x y) s)"
proof -
  have div: "x div y = word_of_nat (unat x div unat y)" for x y :: u64
    by (metis unat_div of_nat_unat ucast_id)
  have md: "x mod y = word_of_nat (unat x mod unat y)" for x y :: u64
    by (metis unat_mod of_nat_unat ucast_id)
  have drop: "drop_bit k x = word_of_nat (unat x div 2 ^ k)" for k and x :: u64
    by (metis unat_drop of_nat_unat ucast_id)
  have shra: "signed_drop_bit k x = word_of_int (sint x div 2 ^ k)" for k and x :: u64
  proof -
    have "signed_drop_bit k x = word_of_int (sint (signed_drop_bit k x))" by simp
    then show ?thesis by (simp only: sint_signed_drop_bit_eq drop_bit_int_def)
  qed
  have eq: "x = y \<longleftrightarrow> sint x = sint y" for x y :: u64
    by (auto intro: signed_word_eqI)
  show ?thesis
    by (cases b)
      (simp_all add: handleAnd_def handleDiv_def handleMinus_def handleMod_def handleMul_def handleOr_def
        handlePlus_def handleShl_def handleShr_def handleShra_def handleXor_def handleEq_def handleGe_def
        handleGt_def handleLe_def handleLt_def handleNe_def binop_def requireStack_def push_def pop_def
        div md drop shra and_63 push_bit_eq_mult word_sle_eq word_sless_alt eq [symmetric])
qed

subsection \<open>Running compiled code\<close>

lemma push_simps [simp]:
  "stack (push v s) = v # stack s" "context_of (push v s) = context_of s"
  "registers (push v s) = registers s" "object_le (push v s) = object_le s"
  "execution_error (push v s) = execution_error s"
  by (simp_all add: push_def)

lemma pop_push [simp]: "pop (push v s) = (v, s)"
  by (simp add: pop_def push_def)

lemma runs_head:
  assumes "encoded_at e off (op # bs)" and "map_of op_handlers op = Some (Plain h)"
    and "h e (Suc off) s = (off', s')" and "\<not> execution_error s'"
  shows "runs nest e off s off' s' 1"
  using assms by (auto simp: encoded_at_Cons runs_def run_op_def ev_readU8_in)

lemma sint_small: "n < 2 ^ 15 \<Longrightarrow> sint (word_of_nat n :: u16) = int n"
  by (simp add: signed_of_nat signed_take_bit_int_eq_self)

lemma jump_forward:
  "n < 2 ^ 15 \<Longrightarrow> off + n \<le> length e \<Longrightarrow> jump name (word_of_nat n) e off s = (off + n, s)"
  by (simp add: jump_def sint_small nat_add_distrib flip: of_nat_add)

lemma read_branch:
  assumes "encoded_at e off (branch_operand (object_le s) n)" and "n < 2 ^ 15" and "length e \<le> vector_max"
  shows "ev_readU16 e off s = (word_of_nat n, off + 2, s)"
proof -
  have "unat (word_of_nat n :: u16) = n" using assms(2) by (simp add: unsigned_of_nat take_bit_nat_eq_self)
  then show ?thesis
    using assms ev_readU16_encoded [of e off s "word_of_nat n"] by (simp add: branch_operand_def)
qed

lemma length_branch_operand [simp]: "length (branch_operand le n) = 2"
  by (simp add: branch_operand_def)

lemma lookup_codes:
  "map_of op_handlers 0x0e = Some (Plain handleConst8u)" "map_of op_handlers 0x10 = Some (Plain handleConstu)"
  "map_of op_handlers 0x91 = Some (Plain handleFbreg)" "map_of op_handlers 0x23 = Some (Plain handlePlusUconst)"
  "map_of op_handlers 0x28 = Some (Plain handleBra)" "map_of op_handlers 0x2f = Some (Plain handleSkip)"
  "map_of op_handlers 0x9f = Some (Plain handleStackValue)"
  by (simp_all add: lookup_named)

lemma lookup_unary: "map_of op_handlers (unary_code u) = Some (Plain (unary_handler u))"
  by (cases u) (simp_all add: lookup_named)

lemma lookup_binary: "map_of op_handlers (binary_code b) = Some (Plain (binary_handler b))"
  by (cases b) (simp_all add: lookup_named)

text \<open>\<open>computes\<close>: code at an offset pushes a value, in at most as many steps as it has bytes.\<close>

definition computes :: "nested_calls \<Rightarrow> bytes \<Rightarrow> nat \<Rightarrow> eval_state \<Rightarrow> nat \<Rightarrow> u64 \<Rightarrow> bool" where
  "computes nest e off s n v \<longleftrightarrow> (\<exists>k\<le>n. runs nest e off s (off + n) (push v s) k)"

lemma computes_op:
  assumes "runs nest e off s (off + n) (push v s) 1" and "0 < n"
  shows "computes nest e off s n v"
  using assms by (auto simp: computes_def intro: exI [of _ 1])

lemma computes_runs: 
  assumes "computes nest e off s n v"
  obtains k where "k \<le> n" and "runs nest e off s (off + n) (push v s) k"
  using assms by (auto simp: computes_def)

lemma compile_computes:
  assumes "encoded_at e off (compile (object_le s) a)" and "in_range a"
    and "length (compile (object_le s) a) < 2 ^ 15" and "length e \<le> vector_max" and "\<not> execution_error s"
  shows "computes nest e off s (length (compile (object_le s) a)) (source_sem (context_of s) (registers s) a)"
  using assms
proof (induction a arbitrary: off s)
  case (Const v)
  have "ev_readU64 e (Suc off) s = (v, Suc off + 8, s)"
    using Const by (intro ev_readU64_encoded) (simp_all add: encoded_at_Cons)
  with Const show ?case
    by (intro computes_op runs_head [OF _ lookup_codes(1)]) (simp_all add: handleConst8u_def)
next
  case (ConstU n)
  have "ev_readULEB128 e (Suc off) s = (word_of_nat n, Suc off + length (uleb_encode n), s)"
    using ConstU by (intro ev_readULEB128_encode) (simp_all add: encoded_at_Cons)
  with ConstU show ?case
    by (intro computes_op runs_head [OF _ lookup_codes(2)]) (simp_all add: handleConstu_def)
next
  case (FrameRel i)
  have "ev_readSLEB128 e (Suc off) s = (word_of_int i, Suc off + length (sleb_encode i), s)"
    using FrameRel by (intro ev_readSLEB128_encode) (simp_all add: encoded_at_Cons)
  with FrameRel show ?case
    by (intro computes_op runs_head [OF _ lookup_codes(3)]) (simp_all add: handleFbreg_def)
next
  case (RegRel r i)
  have "ev_readSLEB128 e (Suc off) s = (word_of_int i, Suc off + length (sleb_encode i), s)"
    using RegRel by (intro ev_readSLEB128_encode) (simp_all add: encoded_at_Cons)
  moreover have "e ! off = 0x70 + word_of_nat r" using RegRel by (simp add: encoded_at_Cons)
  moreover have "unat (ucast (word_of_nat r :: u8) :: u64) = r"
    using RegRel.prems(2) by (simp add: unsigned_of_nat take_bit_nat_eq_self)
  ultimately show ?case using RegRel
    by (intro computes_op runs_head [OF _ lookup_breg [of r]])
      (simp_all add: handleBreg_def register_or_zero_def)
next
  case (Unary u a)
  let ?n = "length (compile (object_le s) a)" and ?v = "source_sem (context_of s) (registers s) a"
  obtain k where k: "k \<le> ?n" "runs nest e off s (off + ?n) (push ?v s) k"
    using Unary.IH [of off s] Unary.prems by (auto simp: encoded_at_append elim: computes_runs)
  have "runs nest e (off + ?n) (push ?v s) (Suc (off + ?n)) (push (unary_sem u ?v) s) 1"
    using Unary.prems by (intro runs_head [OF _ lookup_unary [of u]])
      (auto simp: encoded_at_append unary_meaning)
  from runs_trans [OF k(2) this] k(1) show ?case
    by (auto simp: computes_def intro!: exI [of _ "k + 1"])
next
  case (Binary b x y)
  let ?nx = "length (compile (object_le s) x)" and ?vx = "source_sem (context_of s) (registers s) x"
  let ?ny = "length (compile (object_le s) y)" and ?vy = "source_sem (context_of s) (registers s) y"
  obtain k where k: "k \<le> ?nx" "runs nest e off s (off + ?nx) (push ?vx s) k"
    using Binary.IH(1) [of off s] Binary.prems by (auto simp: encoded_at_append elim: computes_runs)
  obtain l where l: "l \<le> ?ny" "runs nest e (off + ?nx) (push ?vx s) (off + ?nx + ?ny) (push ?vy (push ?vx s)) l"
    using Binary.IH(2) [of "off + ?nx" "push ?vx s"] Binary.prems
    by (auto simp: encoded_at_append elim: computes_runs)
  have "runs nest e (off + ?nx + ?ny) (push ?vy (push ?vx s)) (Suc (off + ?nx + ?ny))
      (push (binary_sem b ?vx ?vy) s) 1"
    using Binary.prems by (intro runs_head [OF _ lookup_binary [of b]])
      (auto simp: encoded_at_append binary_fun)
  from runs_trans [OF runs_trans [OF k(2) l(2)] this] k(1) l(1) show ?case
    by (auto simp: computes_def add.assoc intro!: exI [of _ "k + l + 1"])
next
  case (AddConst a n)
  let ?n = "length (compile (object_le s) a)" and ?v = "source_sem (context_of s) (registers s) a"
  obtain k where k: "k \<le> ?n" "runs nest e off s (off + ?n) (push ?v s) k"
    using AddConst.IH [of off s] AddConst.prems by (auto simp: encoded_at_append elim: computes_runs)
  have rd: "ev_readULEB128 e (Suc (off + ?n)) (push ?v s)
      = (word_of_nat n, Suc (off + ?n) + length (uleb_encode n), push ?v s)"
    using AddConst.prems by (intro ev_readULEB128_encode) (simp_all add: encoded_at_append encoded_at_Cons)
  have "runs nest e (off + ?n) (push ?v s) (Suc (off + ?n) + length (uleb_encode n))
      (push (?v + word_of_nat n) s) 1"
    using AddConst.prems rd by (intro runs_head [OF _ lookup_codes(4)])
      (auto simp: encoded_at_append handlePlusUconst_def plus_uconst_def requireStack_def)
  from runs_trans [OF k(2) this] k(1) show ?case
    by (auto simp: computes_def add.assoc intro!: exI [of _ "k + 1"])
next
  case (Cond a t f)
  let ?le = "object_le s" and ?sem = "source_sem (context_of s) (registers s)"
  let ?na = "length (compile ?le a)" and ?nt = "length (compile ?le t)" and ?nf = "length (compile ?le f)"
  define o1 where "o1 = off + ?na"
  define o2 where "o2 = o1 + 3"
  define o3 where "o3 = o2 + ?nf"
  define o4 where "o4 = o3 + 3"
  have len: "length (compile ?le (Cond a t f)) = ?na + 3 + ?nf + 3 + ?nt" by simp
  have small: "?nf + 3 < 2 ^ 15" "?nt < 2 ^ 15" "?na < 2 ^ 15" "?nf < 2 ^ 15"
    using Cond.prems(3) unfolding len by auto
  have enc: "encoded_at e off (compile ?le a)" "encoded_at e o1 (0x28 # branch_operand ?le (?nf + 3))"
    "encoded_at e o2 (compile ?le f)" "encoded_at e o3 (0x2f # branch_operand ?le ?nt)"
    "encoded_at e o4 (compile ?le t)"
    using Cond.prems(1)
    by (simp_all add: encoded_at_append encoded_at_Cons o1_def o2_def o3_def o4_def numeral_3_eq_3 add.assoc)
  have end_eq: "o4 + ?nt = off + length (compile ?le (Cond a t f))"
    unfolding len by (simp add: o1_def o2_def o3_def o4_def)
  have room: "o4 + ?nt \<le> length e" using encoded_at_length [OF enc(5)] .
  obtain k where k: "k \<le> ?na" "runs nest e off s o1 (push (?sem a) s) k"
    using Cond.IH(1) [of off s] Cond.prems enc(1) small by (auto simp: o1_def elim: computes_runs)
  have bra: "runs nest e o1 (push (?sem a) s) (if ?sem a \<noteq> 0 then o4 else o2) s 1"
  proof (rule runs_head [OF enc(2) lookup_codes(5)])
    have "ev_readU16 e (Suc o1) (push (?sem a) s) = (word_of_nat (?nf + 3), o2, push (?sem a) s)"
      using read_branch [of e "Suc o1" "push (?sem a) s" "?nf + 3"] enc(2) small Cond.prems(4)
      by (simp add: encoded_at_Cons o2_def)
    then show "handleBra e (Suc o1) (push (?sem a) s) = (if ?sem a \<noteq> 0 then o4 else o2, s)"
      using jump_forward [of "?nf + 3" o2 e "''DW_OP_bra''" s] small room
      by (simp add: handleBra_def requireStack_def o3_def o4_def add.assoc del: of_nat_add)
  qed (use Cond.prems in simp)
  show ?case
  proof (cases "?sem a = 0")
    case False
    obtain l where l: "l \<le> ?nt" "runs nest e o4 s (o4 + ?nt) (push (?sem t) s) l"
      using Cond.IH(2) [of o4 s] Cond.prems enc(5) small by (auto elim: computes_runs)
    have "runs nest e off s (o4 + ?nt) (push (?sem t) s) (k + 1 + l)"
      using runs_trans [OF runs_trans [OF k(2) bra]] l(2) False by simp
    then show ?thesis
      unfolding computes_def end_eq [symmetric] using False k(1) l(1) len
      by (intro exI [of _ "k + 1 + l"]) simp
  next
    case True
    obtain l where l: "l \<le> ?nf" "runs nest e o2 s o3 (push (?sem f) s) l"
      using Cond.IH(3) [of o2 s] Cond.prems enc(3) small by (auto simp: o3_def elim: computes_runs)
    have skip: "runs nest e o3 (push (?sem f) s) (o4 + ?nt) (push (?sem f) s) 1"
    proof (rule runs_head [OF enc(4) lookup_codes(6)])
      have "ev_readU16 e (Suc o3) (push (?sem f) s) = (word_of_nat ?nt, o4, push (?sem f) s)"
        using read_branch [of e "Suc o3" "push (?sem f) s" ?nt] enc(4) small Cond.prems(4)
        by (simp add: encoded_at_Cons o4_def)
      then show "handleSkip e (Suc o3) (push (?sem f) s) = (o4 + ?nt, push (?sem f) s)"
        using jump_forward [of ?nt o4 e "''DW_OP_skip''" "push (?sem f) s"] small room
        by (simp add: handleSkip_def)
    qed (use Cond.prems in simp)
    have "runs nest e off s (o4 + ?nt) (push (?sem f) s) (k + 1 + l + 1)"
      using runs_trans [OF runs_trans [OF runs_trans [OF k(2) bra]] skip] l(2) True by simp
    then show ?thesis
      unfolding computes_def end_eq [symmetric] using True k(1) l(1) len
      by (intro exI [of _ "k + 1 + l + 1"]) simp
  qed
qed

subsection \<open>The theorem\<close>

lemma max_steps_enough:
  assumes "length e < 2 ^ 60"
  shows "length e \<le> max_steps e"
proof -
  have "u64_mul (length e) 16 = length e * 16" using assms by (intro u64_mul_exact) simp
  then show ?thesis by (simp add: max_steps_def)
qed

lemma start_state_simps [simp]:
  "execution_error (start_state c pc regs s) = False" "context_of (start_state c pc regs s) = c"
  "registers (start_state c pc regs s) = regs" "object_le (start_state c pc regs s) = object_le s"
  "stack (start_state c pc regs s) = []" "pieces (start_state c pc regs s) = []"
  "is_register_location (start_state c pc regs s) = False" "memory (start_state c pc regs s) = memory s"
  "is_implicit_value (start_state c pc regs s) = False" "eval_pc (start_state c pc regs s) = pc"
  "pending_implicit_bytes (start_state c pc regs s) = None"
  "uninitialized_taint (start_state c pc regs s) = False"
  by (simp_all add: start_state_def)

lemma evaluate_compiled:
  assumes "in_range a" and "length (compile (object_le s) a) < 2 ^ 15"
  shows "\<exists>s'. evaluate fuel (compile (object_le s) a @ [DW_OP_stack_value]) c pc regs s =
    Some (expression_result RT_VALUE (source_sem c regs a)
            (''Value: '' @ dec_string (unat (source_sem c regs a))), s')"
proof -
  let ?c = "compile (object_le s) a"
  let ?e = "?c @ [DW_OP_stack_value]" and ?v = "source_sem c regs a"
  let ?s0 = "start_state c pc regs s" and ?nest = "nested fuel"
  have small: "length ?e \<le> 2 ^ 15" using assms(2) by simp
  then have vm: "length ?e \<le> vector_max" by (simp add: vector_max_numeral)
  have enc: "encoded_at ?e 0 ?c" by (simp add: encoded_at_def)
  obtain k where k: "k \<le> length ?c" "runs ?nest ?e 0 ?s0 (length ?c) (push ?v ?s0) k"
    using compile_computes [of ?e 0 ?s0 a ?nest] enc assms vm by (auto elim: computes_runs)
  let ?s1 = "(push ?v ?s0)\<lparr>is_implicit_value := True\<rparr>"
  have last: "encoded_at ?e (length ?c) [0x9f]" by (simp add: encoded_at_def)
  have "handleStackValue ?e (Suc (length ?c)) (push ?v ?s0) = (Suc (length ?c), ?s1)"
    by (simp add: handleStackValue_def requireStack_def) (simp add: push_def)
  then have sv: "runs ?nest ?e (length ?c) (push ?v ?s0) (Suc (length ?c)) ?s1 1"
    by (intro runs_head [OF last lookup_codes(7)]) simp_all
  have "k + 1 \<le> max_steps ?e"
    using max_steps_enough [of ?e] small k(1) by simp
  from runs_finish [OF runs_trans [OF k(2) sv] _ this]
  have "run_loop ?nest ?e (max_steps ?e) 0 ?s0 = Some (Finished, ?s1)" by simp
  then show ?thesis
    by (auto simp: evaluate_def evaluate_with_def loop_result_def final_result_def top_value_def
        with_taint_note_def expression_result_def Let_def push_def)
qed

text \<open>
  C4: for every source expression in range, in either byte order, the evaluator run on the
  compiled code followed by \<open>DW_OP_stack_value\<close> returns the value that the source means in the
  given frame, register file and context, without any error and within the step limit.
\<close>

theorem evaluate_compile:
  assumes "in_range a" and "length (compile (object_le s) a) < 2 ^ 15"
  shows "\<exists>s'. evaluate fuel (compile (object_le s) a @ [DW_OP_stack_value]) c pc regs s =
    Some (expression_result RT_VALUE (source_sem c regs a)
            (''Value: '' @ dec_string (unat (source_sem c regs a))), s')"
  by (rule evaluate_compiled [OF assms])

theorem evaluate_compile_witness:
  "\<exists>s'. evaluate 0 [0x70, 0x08, 0x91, 0x10, 0x22, 0x9f]
       (default_context\<lparr>frame_base := 1000\<rparr>) 0 [5] (new_evaluator True DefaultMemoryContext) =
     Some (expression_result RT_VALUE 1029 (''Value: '' @ dec_string 1029), s')"
proof -
  let ?a = "Binary BPlus (RegRel 0 8) (FrameRel 16)"
  have code: "sleb_encode 8 = [0x08]" "sleb_encode 16 = [0x10]"
    by (simp_all add: sleb_encode.simps)
  show ?thesis
    using evaluate_compile [of ?a "new_evaluator True DefaultMemoryContext" 0
        "default_context\<lparr>frame_base := 1000\<rparr>" 0 "[5]"]
    by (simp add: code new_evaluator_def)
qed

end
