(* ===== verification/EvalTermination.thy ===== *)
theory EvalTermination
  imports EvalInv EvalCompile
begin

section \<open>When evaluation returns\<close>

text \<open>
  Evaluation recurses in three ways: \<open>DW_OP_entry_value\<close> runs a part of the expression in a new
  evaluator, \<open>DW_OP_implicit_pointer\<close> and \<open>DW_OP_GNU_parameter_ref\<close> run a procedure of the resolver
  in a new evaluator, and the call operations run a procedure in place, with a depth limit. Without
  a resolver, and with call operations only, evaluation returns; the other two recursions have no
  limit in the code, and expressions on which they do not end are given.
\<close>

subsection \<open>More fuel does not change a result\<close>

definition refines_calls :: "nested_calls \<Rightarrow> nested_calls \<Rightarrow> bool" where
  "refines_calls n1 n2 \<longleftrightarrow>
     (\<forall>s e regs r. nested_evaluate n1 s e regs = Some r \<longrightarrow> nested_evaluate n2 s e regs = Some r) \<and>
     (\<forall>e s r. nested_execute n1 e s = Some r \<longrightarrow> nested_execute n2 e s = Some r)"

definition nested_op :: "u8 \<Rightarrow> nested_handler \<Rightarrow> bool" where
  "nested_op op h \<longleftrightarrow> (op \<in> {0xa0, 0xf2} \<and> h = handleImplicitPointer) \<or> (op \<in> {0xa3, 0xf3} \<and> h = handleEntryValue)
    \<or> (op = 0xfa \<and> h = handleGnuParameterRef)
    \<or> (op = 0x98 \<and> h = handleCall2) \<or> (op = 0x99 \<and> h = handleCall4) \<or> (op = 0x9a \<and> h = handleCallRef)"

lemma nested_ops:
  assumes "map_of op_handlers op = Some (Nested h)"
  shows "nested_op op h"
proof -
  have "list_all (\<lambda>(op, h). case h of Plain _ \<Rightarrow> True | Nested h \<Rightarrow> nested_op op h) named_handlers"
    by (simp add: named_handlers_def nested_op_def handleGnuImplicitPointer_def handleGnuEntryValue_def)
  moreover have "(op, Nested h) \<in> set named_handlers"
    using map_of_SomeD [OF assms] by (auto simp: op_handlers_def)
  ultimately show ?thesis by (auto simp: list_all_iff)
qed

lemma call_procedure_mono:
  assumes "refines_calls n1 n2" and "call_procedure name a n1 off s = Some r"
  shows "call_procedure name a n2 off s = Some r"
proof -
  have run: "nested_execute n2 e s = Some x" if "nested_execute n1 e s = Some x" for e x
    using that assms(1) by (cases x) (simp add: refines_calls_def)
  show ?thesis
  proof (cases "\<exists>resolve expr. resolve_dwarf_procedure (context_of s) = Some resolve
      \<and> resolve a (eval_pc s) = Some expr")
    case True
    then obtain resolve expr where "resolve_dwarf_procedure (context_of s) = Some resolve"
      and "resolve a (eval_pc s) = Some expr" by blast
    with assms(2) show ?thesis
      by (cases "nested_execute n1 expr s") (simp_all add: call_procedure_def run)
  next
    case False
    with assms(2) show ?thesis by (auto simp: call_procedure_def split: option.splits)
  qed
qed

lemma nested_handler_mono:
  assumes "refines_calls n1 n2" and "map_of op_handlers op = Some (Nested h)" and "h n1 e off s = Some r"
  shows "h n2 e off s = Some r"
proof -
  have eval: "nested_evaluate n1 s e regs = Some r \<Longrightarrow> nested_evaluate n2 s e regs = Some r" for s e regs r
    using assms(1) by (simp add: refines_calls_def)
  note call = call_procedure_mono [OF assms(1)]
  from nested_ops [OF assms(2)] assms(3) show ?thesis
    by (auto simp: nested_op_def handleImplicitPointer_def handleEntryValue_def handleGnuParameterRef_def Let_def
        handleCall2_def handleCall4_def handleCallRef_def split_beta eval call
        split: if_splits option.splits dest: eval)
qed

lemma run_op_mono:
  assumes "refines_calls n1 n2" and "run_op n1 e off s = Some r"
  shows "run_op n2 e off s = Some r"
proof (cases "map_of op_handlers (fst (ev_readU8 e off s))")
  case (Some h)
  then show ?thesis using assms nested_handler_mono [OF assms(1)]
    by (cases h) (auto simp: run_op_def split_beta)
qed (use assms in \<open>auto simp: run_op_def split_beta\<close>)

lemma run_loop_mono:
  "refines_calls n1 n2 \<Longrightarrow> run_loop n1 e k off s = Some r \<Longrightarrow> run_loop n2 e k off s = Some r"
proof (induction k arbitrary: off s)
  case (Suc k)
  then show ?case
    by (auto split: option.splits op_end.splits if_splits dest: run_op_mono)
qed simp

lemma executeInPlace_mono:
  "refines_calls n1 n2 \<Longrightarrow> executeInPlace_with n1 e s = Some r \<Longrightarrow> executeInPlace_with n2 e s = Some r"
  by (auto simp: executeInPlace_with_def Let_def split: if_splits dest: run_loop_mono)

lemma evaluate_with_mono:
  "refines_calls n1 n2 \<Longrightarrow> evaluate_with n1 e c pc regs s = Some r \<Longrightarrow> evaluate_with n2 e c pc regs s = Some r"
  by (auto simp: evaluate_with_def dest: run_loop_mono)

lemma refines_nested_step:
  assumes "refines_calls (nested k) (nested l)"
  shows "refines_calls (nested (Suc k)) (nested (Suc l))"
  using evaluate_with_mono [OF assms] executeInPlace_mono [OF assms]
  unfolding refines_calls_def nested.simps by simp blast

lemma refines_nested_Suc: "refines_calls (nested k) (nested (Suc k))"
proof (induction k)
  case 0
  show ?case by (simp add: refines_calls_def)
qed (rule refines_nested_step)

lemma refines_nested: "k \<le> l \<Longrightarrow> refines_calls (nested k) (nested l)"
proof (induction l rule: dec_induct)
  case base
  show ?case by (simp add: refines_calls_def)
next
  case (step l)
  then show ?case using refines_nested_Suc [of l] by (simp add: refines_calls_def)
qed

lemma evaluate_fuel_mono:
  "evaluate fuel e c pc regs s = Some r \<Longrightarrow> fuel \<le> fuel' \<Longrightarrow> evaluate fuel' e c pc regs s = Some r"
  unfolding evaluate_def using evaluate_with_mono [OF refines_nested] by blast

subsection \<open>Totality of a loop\<close>

lemma run_op_total:
  assumes "off < length e"
    and "\<And>h. map_of op_handlers (e ! off) = Some (Nested h) \<Longrightarrow> h nest e (Suc off) s \<noteq> None"
  shows "run_op nest e off s \<noteq> None"
proof (cases "map_of op_handlers (e ! off)")
  case None
  then show ?thesis using assms(1) by (auto simp: run_op_def read_opcode split: option.split)
next
  case (Some h)
  then show ?thesis using assms by (cases h) (auto simp: run_op_def read_opcode)
qed

lemma run_loop_total:
  assumes "calls_ok nest"
    and "\<And>off s h. off < length e \<Longrightarrow> frame s = f \<Longrightarrow> nested_op (e ! off) h \<Longrightarrow> h nest e (Suc off) s \<noteq> None"
  shows "off \<le> length e \<Longrightarrow> frame s = f \<Longrightarrow> run_loop nest e n off s \<noteq> None"
proof (induction n arbitrary: off s)
  case (Suc n)
  show ?case
  proof (cases "off < length e")
    case True
    then obtain ro where ro: "run_op nest e off s = Some ro"
      using run_op_total [OF True, of nest s] assms(2) Suc.prems nested_ops by blast
    show ?thesis
      using run_op_ok [OF assms(1) True ro] Suc ro True by (cases ro) auto
  qed simp
qed simp

lemma evaluate_with_total:
  assumes "calls_ok nest"
    and "\<And>off s' h. off < length e \<Longrightarrow> frame s' = frame (start_state c pc regs s) \<Longrightarrow> nested_op (e ! off) h \<Longrightarrow>
      h nest e (Suc off) s' \<noteq> None"
  shows "evaluate_with nest e c pc regs s \<noteq> None"
  using run_loop_total [OF assms(1), of e "frame (start_state c pc regs s)" 0 "start_state c pc regs s"] assms(2)
  by (simp add: evaluate_with_def)

lemma frame_context: "frame s = frame s' \<Longrightarrow> context_of s = context_of s' \<and> eval_pc s = eval_pc s'
    \<and> call_depth s = call_depth s' \<and> registers s = registers s'"
  by (simp add: frame_def)

subsection \<open>Without a resolver\<close>

definition procedures_return :: "nested_calls \<Rightarrow> eval_state \<Rightarrow> bool" where
  "procedures_return nest s \<longleftrightarrow> (\<forall>resolve a p. resolve_dwarf_procedure (context_of s) = Some resolve \<longrightarrow>
     resolve a (eval_pc s) = Some p \<longrightarrow> nested_execute nest p s \<noteq> None)"

lemma call_total: "procedures_return nest s \<Longrightarrow> call_procedure name a nest off s \<noteq> None"
  by (auto simp: call_procedure_def procedures_return_def simp del: not_None_eq split: option.split bool.split)

lemma calls_total:
  assumes "off \<le> length e" and "\<And>s'. frame s' = frame s \<Longrightarrow> procedures_return nest s'"
  shows "handleCall2 nest e off s \<noteq> None" "handleCall4 nest e off s \<noteq> None" "handleCallRef nest e off s \<noteq> None"
proof -
  obtain v2 o2 s2 where r2: "ev_readU16 e off s = (v2, o2, s2)" by (rule prod_cases3)
  obtain v4 o4 s4 where r4: "ev_readU32 e off s = (v4, o4, s4)" by (rule prod_cases3)
  obtain v o3 s3 where r: "ev_readOffsetSized e off s = (v, o3, s3)" by (rule prod_cases3)
  have f: "frame s2 = frame s" "frame s4 = frame s" "frame s3 = frame s"
    using read_within(1) [OF assms(1) r2] read_within(2) [OF assms(1) r4] read_inv(1) [OF assms(1) r]
    by (simp_all add: keeps_def)
  show "handleCall2 nest e off s \<noteq> None" "handleCall4 nest e off s \<noteq> None"
      "handleCallRef nest e off s \<noteq> None"
    using call_total assms(2) [OF f(1)] assms(2) [OF f(2)] assms(2) [OF f(3)]
    by (simp_all add: handleCall2_def handleCall4_def handleCallRef_def r2 r4 r)
qed

lemma pointer_total:
  assumes "off \<le> length e" and "resolve_dwarf_procedure (context_of s) = None"
  shows "handleImplicitPointer nest e off s \<noteq> None" "handleGnuParameterRef nest e off s \<noteq> None"
proof -
  obtain v o1 s1 where r: "ev_readOffsetSized e off s = (v, o1, s1)" by (rule prod_cases3)
  obtain w o2 s2 where q: "ev_readSLEB128 e o1 s1 = (w, o2, s2)" by (rule prod_cases3)
  have c1: "context_of s1 = context_of s"
    using read_inv(1) [OF assms(1) r] by (simp add: keeps_def frame_def)
  have c2: "\<not> execution_error s1 \<Longrightarrow> context_of s2 = context_of s"
    using read_inv(1) [OF assms(1) r] read_inv(3) [OF _ q] by (simp add: keeps_def frame_def)
  show "handleImplicitPointer nest e off s \<noteq> None" "handleGnuParameterRef nest e off s \<noteq> None"
    using c1 c2 assms(2) by (simp_all add: handleImplicitPointer_def handleGnuParameterRef_def r q)
qed

lemma ev_uleb_loop_forward: "ev_uleb_loop e off s r sh = (v, o', s') \<Longrightarrow> off \<le> o'"
proof (induction e off s r sh rule: ev_uleb_loop.induct)
  case (1 e off s r sh)
  show ?case
    using 1(2) by (subst (asm) ev_uleb_loop.simps) (auto simp: Let_def split: if_splits dest!: 1(1) [OF _ refl])
qed

lemma ev_readULEB128_forward: "ev_readULEB128 e off s = (v, o', s') \<Longrightarrow> off \<le> o'"
  by (auto simp: ev_readULEB128_def split: if_splits dest: ev_uleb_loop_forward)

lemma entry_total:
  assumes "off \<le> length e"
    and "\<And>s' sub. frame s' = frame s \<Longrightarrow> length sub \<le> length e - off \<Longrightarrow>
      nested_evaluate nest s' sub (entry_registers (context_of s')) \<noteq> None"
  shows "handleEntryValue nest e off s \<noteq> None"
proof -
  obtain v o1 s1 where r: "ev_readULEB128 e off s = (v, o1, s1)" by (rule prod_cases3)
  have f: "frame s1 = frame s" using read_inv(2) [OF assms(1) r] by (simp add: keeps_def)
  have "off \<le> o1" using ev_readULEB128_forward [OF r] .
  then have "length (take (unat v) (drop o1 e)) \<le> length e - off" by simp
  then obtain res where "nested_evaluate nest s1 (take (unat v) (drop o1 e)) (entry_registers (context_of s1)) = Some res"
    using assms(2) [OF f] by blast
  then show ?thesis by (simp add: handleEntryValue_def r)
qed

subsection \<open>Evaluation without a resolver returns\<close>

lemma nested_op_total:
  assumes "nested_op op h" and "off \<le> length e" and "resolve_dwarf_procedure (context_of s) = None"
    and "\<And>s' sub. frame s' = frame s \<Longrightarrow> length sub \<le> length e - off \<Longrightarrow>
      nested_evaluate nest s' sub (entry_registers (context_of s')) \<noteq> None"
  shows "h nest e off s \<noteq> None"
proof -
  have "procedures_return nest s'" if "frame s' = frame s" for s'
    using that assms(3) by (simp add: frame_def procedures_return_def)
  then show ?thesis
    using assms(1) calls_total [OF assms(2), of s nest] pointer_total [OF assms(2,3), of nest]
      entry_total [OF assms(2) assms(4)]
    by (auto simp: nested_op_def simp del: not_None_eq)
qed

lemma evaluate_total:
  "resolve_dwarf_procedure c = None \<Longrightarrow> length e \<le> fuel \<Longrightarrow> evaluate fuel e c pc regs s \<noteq> None"
proof (induction fuel arbitrary: e c pc regs s)
  case 0
  then show ?case by (simp add: evaluate_def evaluate_with_def run_loop_end)
next
  case (Suc fuel)
  show ?case
    unfolding evaluate_def
  proof (rule evaluate_with_total [OF calls_ok_nested])
    fix off s' h
    assume off: "off < length e" and f: "frame s' = frame (start_state c pc regs s)" and h: "nested_op (e ! off) h"
    have c: "context_of s' = c" using frame_context [OF f] by simp
    show "h (nested (Suc fuel)) e (Suc off) s' \<noteq> None"
    proof (rule nested_op_total [OF h])
      fix s1 :: eval_state and sub :: bytes
      assume s1: "frame s1 = frame s'" and sub: "length sub \<le> length e - Suc off"
      then have "length sub \<le> fuel" using Suc.prems(2) off by simp
      moreover have "context_of s1 = c" using frame_context [OF s1] c by simp
      ultimately show "nested_evaluate (nested (Suc fuel)) s1 sub (entry_registers (context_of s1)) \<noteq> None"
        using Suc.IH [of c sub] Suc.prems(1) by (simp add: evaluate_def)
    qed (use off c Suc.prems(1) in auto)
  qed
qed

text \<open>
  C14: evaluation returns on every expression when the context has no procedure resolver, even
  with subexpressions nested by \<open>DW_OP_entry_value\<close> and with backward branches; fuel as large as the
  expression is enough, and more does not change the result.
\<close>

theorem evaluate_returns:
  assumes "resolve_dwarf_procedure c = None"
  shows "\<exists>r s'. \<forall>fuel. length e \<le> fuel \<longrightarrow> evaluate fuel e c pc regs s = Some (r, s')"
proof -
  obtain r s' where "evaluate (length e) e c pc regs s = Some (r, s')"
    using evaluate_total [OF assms order_refl, of e pc regs s] by auto
  then show ?thesis using evaluate_fuel_mono by blast
qed

theorem evaluate_returns_witness:
  "\<exists>r s'. \<forall>fuel. 3 \<le> fuel \<longrightarrow>
     evaluate fuel [DW_OP_skip, 0xfd, 0xff] default_context 0 [] (new_evaluator True DefaultMemoryContext) = Some (r, s')"
  using evaluate_returns [of default_context "[DW_OP_skip, 0xfd, 0xff]" 0 "[]" "new_evaluator True DefaultMemoryContext"]
  by (simp add: default_context_def numeral_3_eq_3)

subsection \<open>With call operations only, evaluation returns\<close>

text \<open>
  No byte of the expression is the code of an operation that starts a new evaluator. Bytes of
  operands are counted too, so this is sufficient for every way to run the expression.
\<close>

definition no_new_evaluator :: "bytes \<Rightarrow> bool" where
  "no_new_evaluator e \<longleftrightarrow> list_all (\<lambda>b. b \<notin> {0xa0, 0xa3, 0xf2, 0xf3, 0xfa}) e"

lemma call_ops_total:
  assumes "no_new_evaluator e" and "off < length e" and "nested_op (e ! off) h"
    and "\<And>s'. frame s' = frame s \<Longrightarrow> procedures_return nest s'"
  shows "h nest e (Suc off) s \<noteq> None"
proof -
  have "e ! off \<notin> {0xa0, 0xa3, 0xf2, 0xf3, 0xfa}"
    using assms(1,2) by (auto simp: no_new_evaluator_def list_all_length)
  then show ?thesis
    using assms(3) calls_total [of "Suc off" e s nest] assms(2,4)
    by (auto simp: nested_op_def simp del: not_None_eq)
qed

lemma execute_returns:
  assumes "\<And>resolve a pc p. resolve_dwarf_procedure c = Some resolve \<Longrightarrow> resolve a pc = Some p \<Longrightarrow> no_new_evaluator p"
  shows "no_new_evaluator p \<Longrightarrow> context_of s = c \<Longrightarrow> kMaxCallDepth \<le> call_depth s + k \<Longrightarrow>
    nested_execute (nested (Suc k)) p s \<noteq> None"
proof (induction k arbitrary: p s)
  case 0
  then show ?case by (simp add: executeInPlace_with_def del: not_None_eq)
next
  case (Suc k)
  let ?s = "s\<lparr>call_depth := call_depth s + 1, execution_error := False, execution_error_message := []\<rparr>"
  let ?nest = "nested (Suc k)"
  have "run_loop ?nest p (max_steps p) 0 ?s \<noteq> None"
  proof (rule run_loop_total [OF calls_ok_nested _ le0 refl])
    fix off s1 h
    assume off: "off < length p" and f: "frame s1 = frame ?s" and h: "nested_op (p ! off) h"
    have "procedures_return ?nest s2" if "frame s2 = frame s1" for s2
    proof -
      have "context_of s2 = c" "call_depth s2 = Suc (call_depth s)"
        using that f Suc.prems(2) by (simp_all add: frame_def)
      then show ?thesis
        using Suc.IH [of _ s2] Suc.prems(3) assms by (auto simp: procedures_return_def simp del: not_None_eq nested.simps)
    qed
    then show "h ?nest p (Suc off) s1 \<noteq> None"
      by (rule call_ops_total [OF Suc.prems(1) off h])
  qed
  then show ?case by (auto simp: executeInPlace_with_def)
qed

text \<open>
  C15: when neither the expression nor any procedure of the resolver starts a new evaluator,
  evaluation returns whatever the procedures call, themselves included: the call depth is
  limited, and fuel one above that limit is enough for every expression.
\<close>

theorem evaluate_calls_return:
  assumes "no_new_evaluator e"
    and "\<And>resolve a pc p. resolve_dwarf_procedure c = Some resolve \<Longrightarrow> resolve a pc = Some p \<Longrightarrow> no_new_evaluator p"
  shows "\<exists>r s'. evaluate (Suc kMaxCallDepth) e c pc regs s = Some (r, s')"
proof -
  have "evaluate_with (nested (Suc kMaxCallDepth)) e c pc regs s \<noteq> None"
  proof (rule evaluate_with_total [OF calls_ok_nested])
    fix off s1 h
    assume off: "off < length e" and f: "frame s1 = frame (start_state c pc regs s)" and h: "nested_op (e ! off) h"
    have "procedures_return (nested (Suc kMaxCallDepth)) s2" if "frame s2 = frame s1" for s2
    proof -
      have "context_of s2 = c" using frame_context [OF that] frame_context [OF f] by simp
      then show ?thesis
        using execute_returns [OF assms(2), where s = s2 and k = kMaxCallDepth] assms(2)
        by (auto simp: procedures_return_def simp del: not_None_eq nested.simps)
    qed
    then show "h (nested (Suc kMaxCallDepth)) e (Suc off) s1 \<noteq> None"
      by (rule call_ops_total [OF assms(1) off h])
  qed
  then show ?thesis by (simp add: evaluate_def)
qed

theorem evaluate_calls_return_witness:
  "\<exists>r s'. evaluate 17 [0x98, 0, 0] (default_context\<lparr>resolve_dwarf_procedure := Some (\<lambda>a pc. Some [0x98, 0, 0])\<rparr>)
     0 [] (new_evaluator True DefaultMemoryContext) = Some (r, s')"
proof -
  have "no_new_evaluator [0x98, 0, 0]" by (simp add: no_new_evaluator_def)
  then show ?thesis
    using evaluate_calls_return [of "[0x98, 0, 0]"
        "default_context\<lparr>resolve_dwarf_procedure := Some (\<lambda>a pc. Some [0x98, 0, 0])\<rparr>" 0 "[]"
        "new_evaluator True DefaultMemoryContext"]
    by (auto simp: kMaxCallDepth_def)
qed

subsection \<open>Recursion through new evaluators has no limit\<close>

definition resolving :: "bytes \<Rightarrow> (u64 \<Rightarrow> u64 \<Rightarrow> bytes option) \<Rightarrow> EvaluationContext" where
  "resolving p f = default_context\<lparr>resolve_dwarf_procedure := Some (\<lambda>a pc. if a = 0 then Some p else f a pc)\<rparr>"

lemma resolving_simps [simp]:
  "resolve_dwarf_procedure (resolving p f) = Some (\<lambda>a pc. if a = 0 then Some p else f a pc)"
  "ctx_offset_size (resolving p f) = 4" "cu_base_offset (resolving p f) = 0"
  by (simp_all add: resolving_def default_context_def)

lemma run_first:
  assumes "0 < length e" and "map_of op_handlers (e ! 0) = Some (Nested h)" and "h nest e 1 s = None"
  shows "run_loop nest e (max_steps e) 0 s = None"
proof -
  obtain n where "max_steps e = Suc n" by (cases "max_steps e") (auto simp: max_steps_def)
  then show ?thesis using assms by (simp add: run_op_def read_opcode)
qed

lemma lookup_nested:
  "map_of op_handlers 0xa0 = Some (Nested handleImplicitPointer)"
  "map_of op_handlers 0xa3 = Some (Nested handleEntryValue)"
  "map_of op_handlers 0x98 = Some (Nested handleCall2)"
  by (simp_all add: lookup_named)

lemma le_bytes_zero: "le_bytes n 0 = replicate n 0"
  by (induction n) simp_all

lemma zero_bytes: "ordered le (le_bytes 4 0) = [0, 0, 0, 0]" "ordered le (le_bytes 2 0) = [0, 0]"
  unfolding le_bytes_zero by (simp_all add: numeral_eq_Suc ordered_def)

lemma self_pointer_step:
  assumes "context_of s = resolving [0xa0, 0, 0, 0, 0, 0] f"
    and "\<And>s'. context_of s' = context_of s \<Longrightarrow> nested_evaluate nest s' [0xa0, 0, 0, 0, 0, 0] (registers s') = None"
    and "\<not> execution_error s"
  shows "handleImplicitPointer nest [0xa0, 0, 0, 0, 0, 0] 1 s = None"
proof -
  let ?e = "[0xa0, 0, 0, 0, 0, 0] :: bytes"
  have len: "length ?e \<le> vector_max" by (simp add: vector_max_numeral)
  have "encoded_at ?e 1 (ordered (object_le s) (le_bytes 4 (unat 0)))"
    unfolding unsigned_0 zero_bytes by (simp add: encoded_at_def)
  from ev_readU32_encoded [OF this len] have u: "ev_readU32 ?e (Suc 0) s = (0, 5, s)" by simp
  have z: "sleb_encode 0 = [0]" by (simp add: sleb_encode.simps)
  have "encoded_at ?e 5 (sleb_encode 0)" unfolding z by (simp add: encoded_at_def)
  from ev_readSLEB128_encode [OF this, of s] have v: "ev_readSLEB128 ?e 5 s = (0, 6, s)" by (simp add: z)
  show ?thesis
    using assms by (simp add: handleImplicitPointer_def ev_readOffsetSized_def u v dwarfSectionOffsetBias_def)
qed

lemma call_back_steps:
  "ev_readULEB128 [0xa3, 3, 0x98, 0, 0] (Suc 0) s = (3, 2, s)" "ev_readU16 [0x98, 0, 0] (Suc 0) s = (0, 3, s)"
proof -
  have enc: "uleb_encode 3 = [3]" by (simp add: uleb_encode.simps)
  have at: "encoded_at [0xa3, 3, 0x98, 0, 0] 1 (uleb_encode 3)" unfolding enc by (simp add: encoded_at_def)
  show "ev_readULEB128 [0xa3, 3, 0x98, 0, 0] (Suc 0) s = (3, 2, s)"
    using ev_readULEB128_encode [OF at, of s] by (simp add: enc)
  have len: "length [0x98, 0, 0 :: u8] \<le> vector_max" by (simp add: vector_max_numeral)
  have "encoded_at [0x98, 0, 0] 1 (ordered (object_le s) (le_bytes 2 (unat 0)))"
    unfolding unsigned_0 zero_bytes by (simp add: encoded_at_def)
  from ev_readU16_encoded [OF this len] show "ev_readU16 [0x98, 0, 0] (Suc 0) s = (0, 3, s)" by simp
qed

lemma entry_value_step:
  assumes "\<And>s'. context_of s' = context_of s \<Longrightarrow> nested_evaluate nest s' [0x98, 0, 0] (entry_registers (context_of s')) = None"
    and "\<not> execution_error s"
  shows "handleEntryValue nest [0xa3, 3, 0x98, 0, 0] 1 s = None"
  using assms by (simp add: handleEntryValue_def call_back_steps)

lemma call_back_diverges:
  "context_of s = resolving [0xa3, 3, 0x98, 0, 0] f \<Longrightarrow> nested_evaluate (nested k) s [0x98, 0, 0] regs = None"
proof (induction k arbitrary: s regs rule: less_induct)
  case (less k)
  show ?case
  proof (cases k)
    case (Suc m)
    let ?s = "start_state (context_of s) (eval_pc s) regs (new_evaluator (object_le s) (memory s))"
    have "nested_execute (nested m) [0xa3, 3, 0x98, 0, 0] ?s = None"
    proof (cases m)
      case (Suc l)
      let ?s' = "?s\<lparr>call_depth := call_depth ?s + 1, execution_error := False, execution_error_message := []\<rparr>"
      have "handleEntryValue (nested l) [0xa3, 3, 0x98, 0, 0] 1 ?s' = None"
        by (rule entry_value_step) (use less.IH [of l] less.prems Suc \<open>k = Suc m\<close> in simp_all)
      then show ?thesis
        using Suc run_first [of "[0xa3, 3, 0x98, 0, 0]" handleEntryValue "nested l" ?s']
        by (simp add: executeInPlace_with_def kMaxCallDepth_def lookup_nested new_evaluator_def start_state_def)
    qed simp
    then have "handleCall2 (nested m) [0x98, 0, 0] 1 ?s = None"
      using less.prems by (simp add: handleCall2_def call_back_steps call_procedure_def)
    then show ?thesis
      using Suc run_first [of "[0x98, 0, 0]" handleCall2 "nested m" ?s]
      by (simp add: evaluate_with_def lookup_nested)
  qed simp
qed

text \<open>
  C16: no fuel is enough, so that the code recurses without bound, for two expressions whose
  procedure refers to itself: a \<open>DW_OP_implicit_pointer\<close> to the procedure that contains it, and a
  \<open>DW_OP_entry_value\<close> around a call of the procedure that contains it, although calls have a depth
  limit (each new evaluator starts again at depth zero). The rest of the resolver is arbitrary.
\<close>

theorem recursion_unbounded:
  "evaluate fuel [DW_OP_implicit_pointer, 0, 0, 0, 0, 0] (resolving [DW_OP_implicit_pointer, 0, 0, 0, 0, 0] f) pc regs s = None
   \<and> evaluate fuel [DW_OP_entry_value, 3, DW_OP_call2, 0, 0]
       (resolving [DW_OP_entry_value, 3, DW_OP_call2, 0, 0] f) pc regs s = None"
proof
  let ?p = "[0xa0, 0, 0, 0, 0, 0] :: bytes"
  show "evaluate fuel ?p (resolving ?p f) pc regs s = None"
  proof (induction fuel arbitrary: pc regs s)
    case 0
    have "handleImplicitPointer (nested 0) ?p 1 (start_state (resolving ?p f) pc regs s) = None"
      by (rule self_pointer_step) simp_all
    then show ?case using run_first [of ?p handleImplicitPointer "nested 0" "start_state (resolving ?p f) pc regs s"]
      by (simp add: evaluate_def evaluate_with_def lookup_nested)
  next
    case (Suc fuel)
    have "handleImplicitPointer (nested (Suc fuel)) ?p 1 (start_state (resolving ?p f) pc regs s) = None"
      by (rule self_pointer_step) (use Suc.IH in \<open>simp_all add: evaluate_def\<close>)
    then show ?case
      using run_first [of ?p handleImplicitPointer "nested (Suc fuel)" "start_state (resolving ?p f) pc regs s"]
      by (simp add: evaluate_def evaluate_with_def lookup_nested)
  qed
next
  let ?q = "[0xa3, 3, 0x98, 0, 0] :: bytes"
  let ?s = "start_state (resolving ?q f) pc regs s"
  have "handleEntryValue (nested fuel) ?q 1 ?s = None"
    by (rule entry_value_step) (simp_all add: call_back_diverges)
  then show "evaluate fuel ?q (resolving ?q f) pc regs s = None"
    using run_first [of ?q handleEntryValue "nested fuel" ?s]
    by (simp add: evaluate_def evaluate_with_def lookup_nested)
qed

end
