(* ===== verification/EvalPieces.thy ===== *)
theory EvalPieces
  imports EvalCompile
begin

section \<open>Composite locations\<close>

text \<open>
  An object in several parts: each part is a register, a place in memory given by a source
  expression, a constant given by its bytes, or missing. The description is encoded with
  \<open>DW_OP_piece\<close>, and evaluating it gives back the descriptors of the parts, in order.
\<close>

datatype part = InRegister nat | InMemory source | Bytes bytes | Missing

fun part_code :: "bool \<Rightarrow> part \<Rightarrow> bytes" where
  "part_code le (InRegister r) = [DW_OP_reg0 + word_of_nat r]"
| "part_code le (InMemory a) = compile le a"
| "part_code le (Bytes bs) = DW_OP_implicit_value # uleb_encode (length bs) @ bs"
| "part_code le Missing = []"

definition piece_code :: "bool \<Rightarrow> part \<times> nat \<Rightarrow> bytes" where
  "piece_code le p = part_code le (fst p) @ DW_OP_piece # uleb_encode (snd p)"

fun part_in_range :: "part \<Rightarrow> bool" where
  "part_in_range (InRegister r) \<longleftrightarrow> r < 32"
| "part_in_range (InMemory a) \<longleftrightarrow> in_range a"
| "part_in_range (Bytes bs) \<longleftrightarrow> True"
| "part_in_range Missing \<longleftrightarrow> True"

definition piece_in_range :: "part \<times> nat \<Rightarrow> bool" where
  "piece_in_range p \<longleftrightarrow> part_in_range (fst p) \<and> snd p < 2 ^ 64"

text \<open>The descriptor of a part of \<open>n\<close> bytes.\<close>

definition describe :: "EvaluationContext \<Rightarrow> u64 list \<Rightarrow> part \<times> nat \<Rightarrow> PieceDescriptor" where
  "describe c regs p =
     (let d = new_piece (word_of_nat (snd p)) (word_of_nat (snd p) * 8) 0 in
      case fst p of
        InRegister r \<Rightarrow> d\<lparr>piece_kind := PIECE_REGISTER, piece_location := word_of_nat r\<rparr>
      | InMemory a \<Rightarrow> d\<lparr>piece_kind := PIECE_MEMORY, piece_location := source_sem c regs a\<rparr>
      | Bytes bs \<Rightarrow> d\<lparr>piece_kind := PIECE_IMPLICIT, implicit_value := take (snd p) bs\<rparr>
      | Missing \<Rightarrow> d)"

text \<open>The evaluator between two pieces.\<close>

definition between_pieces :: "eval_state \<Rightarrow> bool" where
  "between_pieces s \<longleftrightarrow> stack s = [] \<and> \<not> is_register_location s \<and> \<not> is_implicit_value s
     \<and> pending_implicit_bytes s = None \<and> \<not> execution_error s"

lemma lookup_reg:
  assumes "i < 32"
  shows "map_of op_handlers (0x50 + word_of_nat i) = Some (Plain handleReg)"
proof -
  have u: "unat (0x50 + word_of_nat i :: u8) = 0x50 + i"
    using assms by (simp add: unat_word_ariths unsigned_of_nat take_bit_nat_eq_self)
  have "unat (0x50 + word_of_nat i - DW_OP_lit0) = 0x20 + i" "unat (0x50 + word_of_nat i - DW_OP_reg0) = i"
    using assms by (simp_all add: unat_word_ariths unsigned_of_nat take_bit_nat_eq_self unat_sub_if')
  then show ?thesis using assms u by (simp add: lookup_op named_None)
qed

lemma lookup_pieces:
  "map_of op_handlers 0x93 = Some (Plain handlePiece)"
  "map_of op_handlers 0x9e = Some (Plain handleImplicitValue)"
  by (simp_all add: lookup_named)

text \<open>The state in which \<open>DW_OP_piece\<close> finds the evaluator after the code of a part.\<close>

fun after_part :: "part \<Rightarrow> eval_state \<Rightarrow> eval_state" where
  "after_part (InRegister r) s = (push (word_of_nat r) s)\<lparr>is_register_location := True\<rparr>"
| "after_part (InMemory a) s = push (source_sem (context_of s) (registers s) a) s"
| "after_part (Bytes bs) s =
     (push (low_value (object_le s) bs) s)\<lparr>is_implicit_value := True, pending_implicit_bytes := Some bs\<rparr>"
| "after_part Missing s = s"

lemma part_runs:
  assumes "encoded_at e off (part_code (object_le s) p)" and "part_in_range p" and "between_pieces s"
    and "length e < 2 ^ 15"
  shows "\<exists>k\<le>length (part_code (object_le s) p).
    runs nest e off s (off + length (part_code (object_le s) p)) (after_part p s) k"
proof (cases p)
  case (InRegister r)
  have "e ! off = 0x50 + word_of_nat r" using assms(1) InRegister by (simp add: encoded_at_Cons)
  moreover have "ucast (word_of_nat r :: u8) = (word_of_nat r :: u64)"
    using assms(2) InRegister by (simp add: word_unat_eq_iff unsigned_of_nat take_bit_nat_eq_self)
  ultimately show ?thesis
    using assms InRegister runs_head [of e off "0x50 + word_of_nat r" "[]" handleReg s "Suc off"]
    by (auto simp: lookup_reg handleReg_def between_pieces_def intro!: exI [of _ 1])
next
  case (InMemory a)
  have "length e \<le> vector_max" using assms(4) by (simp add: vector_max_numeral)
  moreover have "length (compile (object_le s) a) < 2 ^ 15"
    using encoded_at_length [OF assms(1)] assms(4) InMemory by simp
  ultimately show ?thesis
    using compile_computes [of e off s a nest] assms InMemory
    by (simp add: between_pieces_def computes_def)
next
  case (Bytes bs)
  have small: "length bs < 2 ^ 64" using encoded_at_length [OF assms(1)] assms(4) Bytes by simp
  let ?o = "Suc off + length (uleb_encode (length bs))"
  have at: "encoded_at e (Suc off) (uleb_encode (length bs))" "encoded_at e ?o bs"
    using assms(1) Bytes by (simp_all add: encoded_at_Cons encoded_at_append)
  have "take (length bs) (drop ?o e) = bs" "?o + length bs \<le> length e"
    using at(2) encoded_at_length [OF at(2)] by (simp_all add: encoded_at_def)
  then have "handleImplicitValue e (Suc off) s = (?o + length bs, after_part p s)"
    using ev_readULEB128_encode [OF at(1) small, of s] assms(3) small Bytes
    by (auto simp: handleImplicitValue_def between_pieces_def unsigned_of_nat take_bit_nat_eq_self)
  then show ?thesis
    using assms Bytes runs_head [of e off "0x9e" _ handleImplicitValue s]
    by (auto simp: lookup_pieces between_pieces_def intro!: exI [of _ 1])
qed (auto intro!: exI [of _ 0] runs_refl)

lemma piece_step:
  assumes "between_pieces s" and "n < 2 ^ 64"
  shows "emit_piece name (new_piece (word_of_nat n) (word_of_nat n * 8) 0) off (after_part p s)
    = (off, s\<lparr>pieces := pieces s @ [describe (context_of s) (registers s) (p, n)]\<rparr>)"
proof -
  have n: "unat (word_of_nat n :: u64) = n" using assms(2) by (simp add: unsigned_of_nat take_bit_nat_eq_self)
  show ?thesis
    using assms(1)
    by (cases p) (simp_all add: emit_piece_def add_piece_def describe_def new_piece_def between_pieces_def
        pop_def push_def n Let_def)
qed

lemma after_part_keeps:
  "execution_error (after_part p s) = execution_error s" "object_le (after_part p s) = object_le s"
  by (cases p; simp add: push_def)+

lemma piece_runs:
  assumes "encoded_at e off (piece_code (object_le s) p)" and "piece_in_range p" and "between_pieces s"
    and "length e < 2 ^ 15"
  shows "\<exists>k\<le>length (piece_code (object_le s) p). runs nest e off s (off + length (piece_code (object_le s) p))
    (s\<lparr>pieces := pieces s @ [describe (context_of s) (registers s) p]\<rparr>) k"
proof -
  let ?c = "part_code (object_le s) (fst p)" and ?n = "snd p"
  let ?o = "off + length ?c" and ?s = "after_part (fst p) s"
  let ?s' = "s\<lparr>pieces := pieces s @ [describe (context_of s) (registers s) p]\<rparr>"
  have at: "encoded_at e off ?c" "encoded_at e ?o (0x93 # uleb_encode ?n)" "encoded_at e (Suc ?o) (uleb_encode ?n)"
    using assms(1) by (simp_all add: piece_code_def encoded_at_append encoded_at_Cons)
  have small: "?n < 2 ^ 64" using assms(2) by (simp add: piece_in_range_def)
  obtain k where k: "k \<le> length ?c" "runs nest e off s ?o ?s k"
    using part_runs [OF at(1) _ assms(3,4)] assms(2) by (auto simp: piece_in_range_def)
  have "handlePiece e (Suc ?o) ?s = (Suc ?o + length (uleb_encode ?n), ?s')"
    using piece_step [OF assms(3) small, of _ _ "fst p"] ev_readULEB128_encode [OF at(3) small, of ?s]
    by (simp add: handlePiece_def)
  then have "runs nest e ?o ?s (Suc ?o + length (uleb_encode ?n)) ?s' 1"
    using assms(3) by (intro runs_head [OF at(2) lookup_pieces(1)]) (simp_all add: between_pieces_def)
  from runs_trans [OF k(2) this] k(1) show ?thesis
    by (auto simp: piece_code_def add.assoc intro!: exI [of _ "k + 1"])
qed

lemma pieces_run:
  assumes "length e < 2 ^ 15"
  shows "encoded_at e off (concat (map (piece_code (object_le s)) ps)) \<Longrightarrow> list_all piece_in_range ps \<Longrightarrow>
    between_pieces s \<Longrightarrow> \<exists>k\<le>length (concat (map (piece_code (object_le s)) ps)).
      runs nest e off s (off + length (concat (map (piece_code (object_le s)) ps)))
        (s\<lparr>pieces := pieces s @ map (describe (context_of s) (registers s)) ps\<rparr>) k"
proof (induction ps arbitrary: off s)
  case Nil
  then show ?case by (auto intro: runs_refl)
next
  case (Cons p ps)
  let ?s = "s\<lparr>pieces := pieces s @ [describe (context_of s) (registers s) p]\<rparr>"
  let ?n = "length (piece_code (object_le s) p)"
  have at: "encoded_at e off (piece_code (object_le s) p)"
      "encoded_at e (off + ?n) (concat (map (piece_code (object_le s)) ps))"
    using Cons.prems(1) by (simp_all add: encoded_at_append)
  obtain k where k: "k \<le> ?n" "runs nest e off s (off + ?n) ?s k"
    using piece_runs [OF at(1) _ Cons.prems(3) assms] Cons.prems(2) by auto
  obtain l where l: "l \<le> length (concat (map (piece_code (object_le s)) ps))"
      "runs nest e (off + ?n) ?s (off + ?n + length (concat (map (piece_code (object_le s)) ps)))
        (?s\<lparr>pieces := pieces ?s @ map (describe (context_of s) (registers s)) ps\<rparr>) l"
    using Cons.IH [of "off + ?n" ?s] at(2) Cons.prems(2,3) by (auto simp: between_pieces_def)
  from runs_trans [OF k(2) l(2)] k(1) l(1) show ?case
    by (intro exI [of _ "k + l"]) (simp add: add.assoc)
qed

text \<open>A constant is cut to the size of its part; one that is shorter stays as it is.\<close>

lemma evaluate_described:
  assumes "list_all piece_in_range ps" and "ps \<noteq> []"
    and "length (concat (map (piece_code (object_le s)) ps)) < 2 ^ 15"
  shows "\<exists>s'. evaluate fuel (concat (map (piece_code (object_le s)) ps)) c pc regs s =
    Some (composite_result (map (describe c regs) ps)
            (''Composite location with '' @ dec_string (length ps) @ '' pieces''), s')"
proof -
  let ?e = "concat (map (piece_code (object_le s)) ps)" and ?s0 = "start_state c pc regs s"
  let ?s1 = "?s0\<lparr>pieces := map (describe c regs) ps\<rparr>"
  have "encoded_at ?e 0 ?e" by (simp add: encoded_at_def)
  then obtain k where k: "k \<le> length ?e" "runs (nested fuel) ?e 0 ?s0 (length ?e) ?s1 k"
    using pieces_run [OF assms(3), of 0 ?s0 ps "nested fuel"] assms(1) by (auto simp: between_pieces_def)
  have "k \<le> max_steps ?e" using max_steps_enough [of ?e] k(1) assms(3) by simp
  from runs_finish [OF k(2) _ this]
  have "run_loop (nested fuel) ?e (max_steps ?e) 0 ?s0 = Some (Finished, ?s1)" by simp
  then show ?thesis
    using assms(2) by (simp add: evaluate_def evaluate_with_def loop_result_def final_result_def
        with_taint_note_def composite_result_def expression_result_def)
qed

text \<open>Every constant has at least as many bytes as its part.\<close>

fun constant_covers :: "part \<times> nat \<Rightarrow> bool" where
  "constant_covers (Bytes bs, n) \<longleftrightarrow> n \<le> length bs"
| "constant_covers _ \<longleftrightarrow> True"

definition whole_constant :: "PieceDescriptor \<Rightarrow> bool" where
  "whole_constant d \<longleftrightarrow> piece_kind d = PIECE_IMPLICIT \<longrightarrow> length (implicit_value d) = unat (piece_byte_size d)"

lemma describe_whole: "piece_in_range p \<Longrightarrow> constant_covers p \<Longrightarrow> whole_constant (describe c regs p)"
  by (cases p; cases "fst p")
    (auto simp: whole_constant_def describe_def new_piece_def piece_in_range_def unsigned_of_nat take_bit_nat_eq_self)

text \<open>
  C10: an object described in parts evaluates to the composite location with exactly the
  descriptors of the parts, in their order and with their sizes in bytes and bits, for registers,
  memory, missing parts, and constants given by at least as many bytes as their part has, of which
  the descriptor holds as many as the part has.
\<close>

theorem evaluate_pieces:
  assumes "list_all piece_in_range ps" and "list_all constant_covers ps" and "ps \<noteq> []"
    and "length (concat (map (piece_code (object_le s)) ps)) < 2 ^ 15"
  shows "\<exists>s'. evaluate fuel (concat (map (piece_code (object_le s)) ps)) c pc regs s =
    Some (composite_result (map (describe c regs) ps)
            (''Composite location with '' @ dec_string (length ps) @ '' pieces''), s')
      \<and> list_all whole_constant (map (describe c regs) ps)"
proof -
  have "list_all whole_constant (map (describe c regs) ps)"
    using assms(1,2) describe_whole by (auto simp: list_all_iff)
  with evaluate_described [OF assms(1,3,4), of fuel c pc regs] show ?thesis by blast
qed

text \<open>
  The comment at \<open>DW_OP_piece\<close> says that the bytes of a constant are trimmed or padded to the size of
  the piece; they are only trimmed: one byte stands for a piece of four.
\<close>

theorem short_constant_not_padded:
  "\<exists>s'. evaluate fuel [0x9e, 1, 0x2a, 0x93, 4] c pc regs s =
     Some (composite_result
       [(new_piece 4 32 0)\<lparr>piece_kind := PIECE_IMPLICIT, implicit_value := [0x2a]\<rparr>]
       (''Composite location with '' @ dec_string 1 @ '' pieces''), s')"
proof -
  have code: "uleb_encode 4 = [4]" "uleb_encode (Suc 0) = [1]"
    by (simp_all add: uleb_encode.simps)
  show ?thesis
    using evaluate_described [of "[(Bytes [0x2a], 4)]" s fuel c pc regs]
    by (simp add: code piece_code_def piece_in_range_def describe_def)
qed

theorem evaluate_pieces_witness:
  "\<exists>s'. evaluate 0 [0x53, 0x93, 4, 0x93, 2, 0x9e, 1, 0x2a, 0x93, 1] default_context 0 []
       (new_evaluator True DefaultMemoryContext) =
     Some (composite_result
       [(new_piece 4 32 0)\<lparr>piece_kind := PIECE_REGISTER, piece_location := 3\<rparr>, new_piece 2 16 0,
        (new_piece 1 8 0)\<lparr>piece_kind := PIECE_IMPLICIT, implicit_value := [0x2a]\<rparr>]
       (''Composite location with '' @ dec_string 3 @ '' pieces''), s')"
proof -
  have code: "uleb_encode 4 = [4]" "uleb_encode 2 = [2]" "uleb_encode 1 = [1]" "uleb_encode (Suc 0) = [1]"
    by (simp_all add: uleb_encode.simps)
  show ?thesis
    using evaluate_pieces [of "[(InRegister 3, 4), (Missing, 2), (Bytes [0x2a], 1)]"
        "new_evaluator True DefaultMemoryContext" 0 default_context 0 "[]"]
    by (auto simp: code piece_code_def piece_in_range_def describe_def numeral_3_eq_3)
qed

end
