(* ===== verification/EvalProps.thy ===== *)
theory EvalProps
  imports EvalTermination EvalPieces
begin

section \<open>Safety of the evaluator, and where it departs from its purpose\<close>

text \<open>
  Statements about every operation of the dispatch table, in every state: the frame and the
  offset, the result after an error, the detection of stack underflow. Then concrete expressions
  on which the evaluator does something that its callers, or DWARF, do not expect.
\<close>

subsection \<open>Frame, offsets and errors\<close>

text \<open>
  C9: one operation, whatever its code, leaves the context, the program counter, the registers,
  the memory and the call depth as they were, and either reports an error or leaves the offset
  inside the expression, so that no operation makes the next one read past the end.
\<close>

theorem operation_stays_inside:
  assumes "off < length e" and "run_op (nested fuel) e off s = Some (Ran off' s')"
  shows "context_of s' = context_of s \<and> eval_pc s' = eval_pc s \<and> registers s' = registers s \<and> memory s' = memory s
    \<and> call_depth s' = call_depth s \<and> (execution_error s' \<or> off' \<le> length e)"
  using run_op_ok [OF calls_ok_nested assms] by (simp add: frame_def)

theorem operation_stays_inside_witness:
  "\<exists>off' s'. run_op (nested 0) [0x2f, 0x00, 0x00] 0 (new_evaluator True DefaultMemoryContext) = Some (Ran off' s')
     \<and> registers s' = [] \<and> (execution_error s' \<or> off' \<le> 3)"
proof -
  let ?s = "new_evaluator True DefaultMemoryContext" and ?e = "[0x2f, 0x00, 0x00] :: bytes"
  have len: "length ?e \<le> vector_max" by (simp add: vector_max_numeral)
  have "encoded_at ?e 1 (branch_operand True 0)"
    unfolding branch_operand_def zero_bytes by (simp add: encoded_at_def)
  then have "ev_readU16 ?e (Suc 0) ?s = (0, 3, ?s)"
    using read_branch [of ?e 1 ?s 0] len by (simp add: new_evaluator_def)
  then have "run_op (nested 0) ?e 0 ?s = Some (Ran 3 ?s)"
    by (simp add: run_op_def read_opcode lookup_codes handleSkip_def jump_def)
  with operation_stays_inside [OF _ this] show ?thesis by (auto simp: new_evaluator_def)
qed



subsection \<open>Stack underflow\<close>

lemma stack_readers:
  "stack (snd (snd (ev_readU8 e off s))) = stack s" "stack (snd (snd (ev_readU16 e off s))) = stack s"
  by (auto simp: ev_readU8_def ev_readU16_def checked_read_def split: outcome.split)

lemma stack_uleb_loop: "stack (snd (snd (ev_uleb_loop e off s r sh))) = stack s"
proof (induction e off s r sh rule: ev_uleb_loop.induct)
  case (1 e off s r sh)
  then show ?case by (subst ev_uleb_loop.simps) (simp add: Let_def)
qed

lemma stack_uleb: "stack (snd (snd (ev_readULEB128 e off s))) = stack s"
  by (simp add: ev_readULEB128_def stack_uleb_loop)

definition detects :: "nat \<Rightarrow> handler \<Rightarrow> bool" where
  "detects n h \<longleftrightarrow> (\<forall>e off s. length (stack s) < n \<longrightarrow>
     execution_error (snd (h e off s)) \<and> stack (snd (h e off s)) = stack s)"

lemma detects_requireStack: "detects n (\<lambda>e off s. requireStack n name off s k)"
  by (simp add: detects_def requireStack_def)

lemma detects_unop: "detects 1 (unop name f)"
  by (simp add: detects_def unop_def requireStack_def)

lemma detects_binop: "detects 2 (binop name f)"
  by (simp add: detects_def binop_def requireStack_def)

lemma detects_operators:
  "detects 1 handleAbs" "detects 1 handleNeg" "detects 1 handleNot" "detects 2 handleAnd"
  "detects 2 handleDiv" "detects 2 handleMinus" "detects 2 handleMod" "detects 2 handleMul"
  "detects 2 handleOr" "detects 2 handlePlus" "detects 2 handleShl" "detects 2 handleShr"
  "detects 2 handleShra" "detects 2 handleXor" "detects 2 handleEq" "detects 2 handleGe"
  "detects 2 handleGt" "detects 2 handleLe" "detects 2 handleLt" "detects 2 handleNe"
  unfolding handleAbs_def handleNeg_def handleNot_def handleAnd_def handleDiv_def handleMinus_def
    handleMod_def handleMul_def handleOr_def handlePlus_def handleShl_def handleShr_def handleShra_def
    handleXor_def handleEq_def handleGe_def handleGt_def handleLe_def handleLt_def handleNe_def
  by (rule detects_unop detects_binop)+

lemma detects_stack:
  "detects 1 handleDup" "detects 1 handleDrop" "detects 2 handleOver" "detects 2 handleSwap"
  "detects 3 handleRot" "detects 1 handleDeref" "detects 2 handleXderef" "detects 1 handleStackValue"
  "detects 1 handleFormTlsAddress" "detects 1 handleGnuPushTlsAddress"
  by (simp_all add: detects_def handleDup_def handleDrop_def handleOver_def handleSwap_def handleRot_def
      handleDeref_def handleXderef_def handleStackValue_def handleFormTlsAddress_def
      handleGnuPushTlsAddress_def requireStack_def)

lemma detects_operands:
  "detects 1 handlePlusUconst" "detects 1 handleBra" "detects 1 handleDerefSize"
  "detects 2 handleXderefSize" "detects 1 handleDerefType" "detects 2 handleXderefType"
  "detects 1 handleGnuDerefType" "detects 1 handleConvert" "detects 1 handleReinterpret"
  "detects 1 handleGnuConvert" "detects 1 handleGnuReinterpret"
  by (simp_all add: detects_def handlePlusUconst_def plus_uconst_def handleBra_def
      handleDerefSize_def deref_size_def handleXderefSize_def handleDerefType_def handleXderefType_def
      handleGnuDerefType_def handleConvert_def handleReinterpret_def handleGnuConvert_def
      handleGnuReinterpret_def convert_with_def requireStack_def stack_readers stack_uleb split_beta)

text \<open>
  The number of stack entries that DWARF says each operation takes. \<open>DW_OP_pick\<close> takes the entry at
  its index, so it needs one more than that; the two operations of the synthetic vendor profile
  count when the profile is set.
\<close>

definition stack_needs :: "(u8 \<times> nat) list" where
  "stack_needs = [
     (DW_OP_dup, 1), (DW_OP_drop, 1), (DW_OP_over, 2), (DW_OP_swap, 2), (DW_OP_rot, 3),
     (DW_OP_deref, 1), (DW_OP_xderef, 2), (DW_OP_deref_size, 1), (DW_OP_xderef_size, 2),
     (DW_OP_deref_type, 1), (DW_OP_xderef_type, 2), (DW_OP_GNU_deref_type, 1),
     (DW_OP_form_tls_address, 1), (DW_OP_GNU_push_tls_address, 1),
     (DW_OP_abs, 1), (DW_OP_neg, 1), (DW_OP_not, 1), (DW_OP_plus_uconst, 1), (DW_OP_bra, 1),
     (DW_OP_and, 2), (DW_OP_div, 2), (DW_OP_minus, 2), (DW_OP_mod, 2), (DW_OP_mul, 2), (DW_OP_or, 2),
     (DW_OP_plus, 2), (DW_OP_shl, 2), (DW_OP_shr, 2), (DW_OP_shra, 2), (DW_OP_xor, 2),
     (DW_OP_eq, 2), (DW_OP_ge, 2), (DW_OP_gt, 2), (DW_OP_le, 2), (DW_OP_lt, 2), (DW_OP_ne, 2),
     (DW_OP_convert, 1), (DW_OP_reinterpret, 1), (DW_OP_GNU_convert, 1), (DW_OP_GNU_reinterpret, 1),
     (DW_OP_stack_value, 1)]"

lemma needs_detected:
  "list_all (\<lambda>(op, n). \<exists>h. map_of op_handlers op = Some (Plain h) \<and> detects n h) stack_needs"
  unfolding stack_needs_def
  by (simp add: lookup_named detects_operators detects_stack detects_operands
      detects_operators [unfolded One_nat_def] detects_stack [unfolded One_nat_def]
      detects_operands [unfolded One_nat_def])

definition operation_need :: "EvaluationContext \<Rightarrow> bytes \<Rightarrow> nat \<Rightarrow> nat option" where
  "operation_need c e off =
     (case map_of stack_needs (e ! off) of
        Some n \<Rightarrow> Some n
      | None \<Rightarrow>
          if e ! off = DW_OP_pick then Some (if Suc off < length e then Suc (unat (e ! Suc off)) else 1)
          else if vendor_expression_profile c = SYNTHETIC_V1 \<and> e ! off \<in> {0xfd, 0xfe} then Some 1
          else None)"

definition underflows :: "nested_calls \<Rightarrow> bytes \<Rightarrow> nat \<Rightarrow> eval_state \<Rightarrow> bool" where
  "underflows nest e off s \<longleftrightarrow>
     (\<exists>off' s'. run_op nest e off s = Some (Ran off' s') \<and> execution_error s' \<and> stack s' = stack s)"

lemma underflows_named:
  assumes "(e ! off, n) \<in> set stack_needs" and "off < length e" and "length (stack s) < n"
  shows "underflows nest e off s"
proof -
  obtain h where "map_of op_handlers (e ! off) = Some (Plain h)" and "detects n h"
    using needs_detected assms(1) by (auto simp: list_all_iff)
  then show ?thesis
    using assms(2,3) by (simp add: underflows_def run_op_def read_opcode detects_def split_beta)
qed

lemma underflows_pick:
  assumes "e ! off = DW_OP_pick" and "off < length e"
    and "length (stack s) < (if Suc off < length e then Suc (unat (e ! Suc off)) else 1)"
  shows "underflows nest e off s"
proof -
  have "map_of op_handlers DW_OP_pick = Some (Plain handlePick)" by (simp add: lookup_named)
  moreover have "execution_error (snd (handlePick e (Suc off) s)) \<and> stack (snd (handlePick e (Suc off) s)) = stack s"
  proof (cases "Suc off < length e")
    case True
    then show ?thesis using assms(3) by (auto simp: handlePick_def read_opcode requireStack_def)
  next
    case False
    then show ?thesis using assms(3) by (simp add: handlePick_def requireStack_def stack_readers split_beta)
  qed
  ultimately show ?thesis
    using assms(1,2) by (simp add: underflows_def run_op_def read_opcode split_beta)
qed

lemma underflows_vendor:
  assumes "vendor_expression_profile (context_of s) = SYNTHETIC_V1" and "e ! off \<in> {0xfd, 0xfe}" and "off < length e"
    and "stack s = []"
  shows "underflows nest e off s"
proof -
  have "map_of op_handlers 0xfd = None" "map_of op_handlers 0xfe = None" by (simp_all add: lookup_op named_handlers_def)
  then show ?thesis
    using assms
    by (auto simp: underflows_def run_op_def read_opcode handleVendorProfileOpcode_def plus_uconst_def vendor_deref_size_def
        deref_size_def requireStack_def stack_readers stack_uleb split_beta)
qed

text \<open>
  C18: every operation that takes entries from the stack, run with fewer, reports an error and
  leaves the stack as it was; it never works on missing entries. \<open>DW_OP_pick\<close> needs as many
  entries as its index reaches, and the operations of the vendor profile are included.
\<close>

theorem underflow_detected:
  assumes "operation_need (context_of s) e off = Some n" and "off < length e" and "length (stack s) < n"
  shows "\<exists>off' s'. run_op nest e off s = Some (Ran off' s') \<and> execution_error s' \<and> stack s' = stack s"
proof -
  have "underflows nest e off s"
    using assms
    by (auto simp: operation_need_def split: option.splits if_splits
        intro: underflows_named [OF map_of_SomeD] underflows_pick underflows_vendor)
  then show ?thesis by (simp add: underflows_def)
qed

theorem underflow_detected_witness:
  "\<exists>off' s'. run_op (nested 0) [0x15, 1] 0 (push 5 (new_evaluator True DefaultMemoryContext)) = Some (Ran off' s')
     \<and> execution_error s' \<and> stack s' = [5]"
  using underflow_detected [of "push 5 (new_evaluator True DefaultMemoryContext)" "[0x15, 1]" 0 2 "nested 0"]
  by (simp add: operation_need_def stack_needs_def new_evaluator_def push_def)

end
