(* ===== verification/EvalDepartures.thy ===== *)
theory EvalDepartures
  imports EvalProps
begin

section \<open>Where the evaluator departs from its purpose\<close>

text \<open>
  Concrete expressions, in arbitrary surroundings, on which the evaluator does something that DWARF
  does not say or that loses an error.
\<close>

subsection \<open>Operators\<close>

text \<open>
  \<open>DW_OP_rot\<close> makes the third entry the top of the stack, while DWARF makes the second
  entry the top; and \<open>DW_OP_div\<close> divides the unsigned values, while DWARF's division is signed,
  so that \<open>-8 / 2\<close> is \<open>2^63 - 4\<close>.
\<close>

theorem rot_and_div_depart:
  "run_op nest [DW_OP_rot] 0 (push x (push y (push z s))) = Some (Ran 1 (push z (push x (push y s))))
   \<and> run_op nest [DW_OP_div] 0 (push 2 (push (- 8) s)) = Some (Ran 1 (push 0x7ffffffffffffffc s))"
  by (simp add: run_op_def read_opcode lookup_named handleRot_def handleDiv_def binop_def requireStack_def)

subsection \<open>Bytes of a value that has changed\<close>

lemma lookup_stale:
  "map_of op_handlers 0x94 = Some (Plain handleDerefSize)" "map_of op_handlers 0x70 = Some (Plain handleBreg)"
  by (simp_all add: lookup_named)

lemma encoded_nth: "off < length e \<Longrightarrow> e ! off = op \<Longrightarrow> encoded_at e off [op]"
  by (simp add: encoded_at_def take_Suc_conv_app_nth)

lemma one_byte_leb:
  assumes "off < length e"
  shows "e ! off = 0 \<Longrightarrow> ev_readSLEB128 e off s = (0, Suc off, s)"
    and "e ! off = 1 \<Longrightarrow> ev_readULEB128 e off s = (1, Suc off, s)"
  using assms by (simp_all add: ev_readSLEB128_def ev_sleb_loop.simps ev_readULEB128_def ev_uleb_loop.simps)

text \<open>
  The bytes that \<open>DW_OP_deref_size\<close> leaves for the result are kept when arithmetic changes the
  value: \<open>breg0 0; deref_size 1; plus_uconst 1; stack_value\<close> returns the value \<open>b + 1\<close> with the raw
  bytes of \<open>b\<close>, the byte in memory.
\<close>

theorem stale_value_bytes:
  "\<exists>r s'. evaluate 0 [DW_OP_breg0, 0, DW_OP_deref_size, 1, DW_OP_plus_uconst, 1, DW_OP_stack_value]
       default_context pc [a] (new_evaluator le (\<lambda>x n. Some (replicate n b))) = Some (r, s')
     \<and> res_type r = RT_VALUE \<and> res_value r = ucast b + 1 \<and> raw_value_bytes r = [b]"
proof -
  let ?e = "[0x70, 0, 0x94, 1, 0x23, 1, 0x9f] :: bytes" and ?n = "nested 0"
  let ?s0 = "start_state default_context pc [a] (new_evaluator le (\<lambda>x n. Some (replicate n b)))"
  let ?s1 = "push a ?s0"
  let ?s2 = "(push (ucast b) ?s0)\<lparr>pending_implicit_bytes := Some [b]\<rparr>"
  let ?s3 = "(push (ucast b + 1) ?s0)\<lparr>pending_implicit_bytes := Some [b]\<rparr>"
  let ?s4 = "?s3\<lparr>is_implicit_value := True\<rparr>"
  have r1: "runs ?n ?e 0 ?s0 2 ?s1 1"
    by (rule runs_Plain [where h = handleBreg])
      (simp_all add: lookup_stale handleBreg_def one_byte_leb register_or_zero_def)
  have "mem_read ?s0 a (Suc 0) = Some [b]" "decode_buf ?s0 [b] = ucast b"
    by (simp_all add: mem_read_def new_evaluator_def decode_buf_def decodeU64FromBytes_def)
  then have r2: "runs ?n ?e 2 ?s1 4 ?s2 1"
    by (intro runs_Plain [where h = handleDerefSize]) (simp_all add: lookup_stale handleDerefSize_def deref_size_def read_opcode
        requireStack_def load_sized_def)
  have r3: "runs ?n ?e 4 ?s2 6 ?s3 1"
    by (rule runs_Plain [where h = handlePlusUconst]) (simp_all add: lookup_codes handlePlusUconst_def plus_uconst_def one_byte_leb
        requireStack_def pop_def push_def)
  have r4: "runs ?n ?e 6 ?s3 7 ?s4 1"
    by (rule runs_Plain [where h = handleStackValue]) (simp_all add: lookup_codes handleStackValue_def requireStack_def push_def)
  have "run_loop ?n ?e (max_steps ?e) 0 ?s0 = Some (Finished, ?s4)"
    by (rule runs_finish [OF runs_trans [OF runs_trans [OF runs_trans [OF r1 r2] r3] r4]])
      (simp_all add: max_steps_def)
  then show ?thesis
    by (simp add: evaluate_def evaluate_with_def loop_result_def final_result_def top_value_def
        with_taint_note_def expression_result_def push_def Let_def)
qed

subsection \<open>A lost error\<close>

text \<open>
  A \<open>DW_OP_call2\<close> whose operand is cut off after one byte is not an error when the procedure
  at the offset zero exists and is not empty: running the procedure clears the error of the
  operand, and the truncated expression has the value of that procedure.
\<close>

theorem truncated_call_succeeds:
  "\<exists>r s'. evaluate 1 [DW_OP_call2, b] (resolving [DW_OP_lit0 + 7] f) pc regs (new_evaluator le m) = Some (r, s')
     \<and> res_type r = RT_ADDRESS \<and> res_value r = 7"
proof -
  let ?e = "[0x98, b]" and ?p = "[0x37] :: bytes" and ?n = "nested 1"
  let ?s0 = "start_state (resolving ?p f) pc regs (new_evaluator le m)"
  let ?sE = "setExecutionError ''truncated u16'' ?s0"
  let ?sC = "?sE\<lparr>call_depth := 1, execution_error := False, execution_error_message := []\<rparr>"
  have depth: "call_depth ?sE = 0" by (simp add: setExecutionError_def start_state_def new_evaluator_def)
  have "runs (nested 0) ?p 0 ?sC 1 (push 7 ?sC) 1"
    by (rule runs_Plain [where h = handleLit]) (simp_all add: lookup_named handleLit_def)
  then have "run_loop (nested 0) ?p (max_steps ?p) 0 ?sC = Some (Finished, push 7 ?sC)"
    by (rule runs_finish) (simp_all add: max_steps_def)
  then have "nested_execute ?n ?p ?sE = Some (True, (push 7 ?sC)\<lparr>call_depth := 0\<rparr>)"
    by (simp add: executeInPlace_with_def kMaxCallDepth_def depth subexpression_end_def) (simp add: push_def)
  moreover have "context_of ?sE = resolving ?p f" by (simp add: setExecutionError_def)
  moreover have "ev_readU16 ?e (Suc 0) ?s0 = (0, 2, ?sE)"
    by (simp add: ev_readU16_def checked_read_def avail_def)
  ultimately have "handleCall2 ?n ?e (Suc 0) ?s0 = Some (2, (push 7 ?sC)\<lparr>call_depth := 0\<rparr>)"
    by (simp add: handleCall2_def call_procedure_def)
  then have "run_op ?n ?e 0 ?s0 = Some (Ran 2 ((push 7 ?sC)\<lparr>call_depth := 0\<rparr>))"
    by (simp add: run_op_def read_opcode lookup_nested)
  then have "runs ?n ?e 0 ?s0 2 ((push 7 ?sC)\<lparr>call_depth := 0\<rparr>) 1"
    by (simp add: runs_def push_def)
  then have "run_loop ?n ?e (max_steps ?e) 0 ?s0 = Some (Finished, (push 7 ?sC)\<lparr>call_depth := 0\<rparr>)"
    by (rule runs_finish) (simp_all add: max_steps_def)
  then have "evaluate 1 ?e (resolving ?p f) pc regs (new_evaluator le m)
      = Some (final_result ((push 7 ?sC)\<lparr>call_depth := 0\<rparr>), (push 7 ?sC)\<lparr>call_depth := 0\<rparr>)"
    unfolding evaluate_def evaluate_with_def by (simp only: option.map prod.case loop_result_def loop_end.case)
  then show ?thesis
    by (simp add: final_result_def top_value_def with_taint_note_def expression_result_def push_def Let_def
        setExecutionError_def)
qed

subsection \<open>A loop in the expression\<close>

lemma skip_back: "handleSkip (0x2f # ordered (object_le s) [0xfd, 0xff]) 1 s = (0, s)"
proof -
  let ?e = "0x2f # ordered (object_le s) [0xfd, 0xff] :: bytes"
  have len: "length ?e \<le> vector_max" by (simp add: vector_max_numeral length_ordered)
  have "le_bytes (Suc (Suc 0)) 0xfffd = [0xfd, 0xff]" by simp
  then have le: "le_bytes 2 (unat (0xfffd :: u16)) = [0xfd, 0xff]"
    unfolding numeral_2_eq_2 by simp
  have "encoded_at ?e 1 (ordered (object_le s) (le_bytes 2 (unat (0xfffd :: u16))))"
    unfolding le by (simp add: encoded_at_def length_ordered)
  from ev_readU16_encoded [OF this len] show ?thesis
    by (simp add: handleSkip_def jump_def)
qed

text \<open>
  \<open>n\<close> operations, one behind the other, from an offset inside the expression on and without an error.
\<close>

fun executes :: "nested_calls \<Rightarrow> bytes \<Rightarrow> nat \<Rightarrow> nat \<Rightarrow> eval_state \<Rightarrow> nat \<Rightarrow> eval_state \<Rightarrow> bool" where
  "executes nest e 0 off s off' s' \<longleftrightarrow> off' = off \<and> s' = s"
| "executes nest e (Suc n) off s off' s' \<longleftrightarrow>
     off < length e \<and> (\<exists>o1 s1. run_op nest e off s = Some (Ran o1 s1) \<and> \<not> execution_error s1 \<and>
       executes nest e n o1 s1 off' s')"

lemma executes_loop:
  "executes nest e n off s off' s' \<Longrightarrow> run_loop nest e (n + k) off s = run_loop nest e k off' s'"
  by (induction n arbitrary: off s) auto

lemma run_loop_ended: "length e \<le> off \<Longrightarrow> run_loop nest e k off s = Some (Finished, s)"
  by (cases k) auto

text \<open>
  C28: the step limit is 16 operations per byte of the expression, and at least 1024. An
  evaluation that comes to the end of the expression with at most so many operations gives its
  result; one that has executed exactly so many and is still inside is stopped with an invalid result.
\<close>

theorem step_limit_exact:
  assumes "executes (nested fuel) e n 0 (start_state c pc regs s) off s'" and "length e < 2 ^ 60"
  shows "(length e \<le> off \<and> n \<le> max 1024 (16 * length e) \<longrightarrow>
            evaluate fuel e c pc regs s = Some (final_result s', s')) \<and>
         (off < length e \<and> n = max 1024 (16 * length e) \<longrightarrow>
            evaluate fuel e c pc regs s =
              Some (expression_result RT_INVALID 0 ''Expression step limit exceeded'', s'))"
proof -
  have limit: "max_steps e = max 1024 (16 * length e)"
    using assms(2) u64_mul_exact [of "length e" 16] by (simp add: max_steps_def mult.commute)
  have "run_loop (nested fuel) e (max_steps e) 0 (start_state c pc regs s) = run_loop (nested fuel) e (max_steps e - n) off s'"
    if "n \<le> max_steps e"
    using executes_loop [OF assms(1), of "max_steps e - n"] that by simp
  then show ?thesis
    by (auto simp: evaluate_def evaluate_with_def loop_result_def run_loop_ended limit)
qed

theorem step_limit_exact_witness:
  "evaluate 0 [DW_OP_skip, 0xfd, 0xff] default_context 0 [] (new_evaluator True DefaultMemoryContext) =
     Some (expression_result RT_INVALID 0 ''Expression step limit exceeded'',
           start_state default_context 0 [] (new_evaluator True DefaultMemoryContext))"
proof -
  let ?s0 = "start_state default_context 0 [] (new_evaluator True DefaultMemoryContext)"
  let ?e = "[0x2f, 0xfd, 0xff] :: bytes"
  have le: "object_le ?s0" by (simp add: start_state_def new_evaluator_def)
  have "handleSkip ?e 1 ?s0 = (0, ?s0)" using skip_back [of ?s0] unfolding ordered_def if_P [OF le] .
  then have "run_op (nested 0) ?e 0 ?s0 = Some (Ran 0 ?s0)"
    by (simp add: run_op_def read_opcode lookup_codes)
  then have "executes (nested 0) ?e n 0 ?s0 0 ?s0" for n
    by (induction n) simp_all
  from step_limit_exact [OF this [of 1024]] show ?thesis by simp
qed

end
