(* ===== verification/CfiCore.thy ===== *)
theory CfiCore
  imports EvalReaders
begin

section \<open>Call frame information: data and readers\<close>

text \<open>
  The structures of \<open>include/cfi_parser.hpp\<close> and the static readers of \<open>src/cfi_parser.cpp\<close>. A
  \<open>shared_ptr<CIE>\<close> points to an object that never changes after it has been stored, so it is
  the CIE itself; a \<open>std::map\<close> is a partial function. An \<open>int64_t\<close> is the word with the same bits,
  and its products wrap around.
\<close>

subsection \<open>Data\<close>

datatype CFA_RegRule =
    RR_UNDEFINED | RR_SAME_VALUE | RR_OFFSET | RR_VAL_OFFSET | RR_REGISTER | RR_EXPRESSION
  | RR_VAL_EXPRESSION | RR_ARCHITECTURAL

datatype CFA_Type = CFA_REGISTER_OFFSET | CFA_EXPRESSION

record RegisterRule =
  rule_type :: CFA_RegRule
  rule_offset :: u64
  rule_reg :: u64
  rule_expression :: bytes

definition new_rule :: "CFA_RegRule \<Rightarrow> RegisterRule" where
  "new_rule t = \<lparr>rule_type = t, rule_offset = 0, rule_reg = 0, rule_expression = []\<rparr>"

record CFADefinition =
  cfa_type :: CFA_Type
  cfa_reg :: u64
  cfa_offset :: u64
  cfa_expression :: bytes

definition new_cfa :: CFADefinition where
  "new_cfa = \<lparr>cfa_type = CFA_REGISTER_OFFSET, cfa_reg = 0, cfa_offset = 0, cfa_expression = []\<rparr>"

record UnwindRow =
  row_location :: u64
  row_cfa :: CFADefinition
  row_registers :: "u64 \<Rightarrow> RegisterRule option"
  row_ra_sign :: u8

definition new_row :: UnwindRow where
  "new_row = \<lparr>row_location = 0, row_cfa = new_cfa, row_registers = Map.empty, row_ra_sign = 0\<rparr>"

record CIE =
  cie_offset :: nat
  cie_length :: nat
  cie_version :: u8
  cie_augmentation :: string
  cie_address_size :: u8
  cie_segment_size :: u8
  code_alignment :: u64
  data_alignment :: u64
  cie_return_register :: u64
  initial_instructions :: bytes
  has_augmentation_data :: bool
  fde_pointer_encoding :: u8
  lsda_pointer_encoding :: u8
  personality_routine :: u64
  personality_encoding :: u8
  signal_frame :: bool
  initial_row :: UnwindRow

definition new_cie :: "nat \<Rightarrow> nat \<Rightarrow> CIE" where
  "new_cie off len =
     \<lparr>cie_offset = off, cie_length = len, cie_version = 0, cie_augmentation = [], cie_address_size = 0,
      cie_segment_size = 0, code_alignment = 0, data_alignment = 0, cie_return_register = 0,
      initial_instructions = [], has_augmentation_data = False, fde_pointer_encoding = 0,
      lsda_pointer_encoding = 0, personality_routine = 0, personality_encoding = 0,
      signal_frame = False, initial_row = new_row\<rparr>"

record FDE =
  fde_offset :: nat
  fde_length :: nat
  fde_cie_pointer :: nat
  initial_location :: u64
  fde_range :: u64
  fde_instructions :: bytes
  lsda_pointer :: u64
  fde_cie :: CIE

record cfi_parser =
  cfi_section :: bytes
  is_eh_frame :: bool
  parser_address_size :: u8
  section_base :: u64
  cies :: "CIE list"
  fdes :: "FDE list"
  cie_map :: "nat \<Rightarrow> CIE option"

definition new_cfi_parser :: "bytes \<Rightarrow> bool \<Rightarrow> u8 \<Rightarrow> cfi_parser" where
  "new_cfi_parser d eh asz =
     \<lparr>cfi_section = d, is_eh_frame = eh, parser_address_size = asz, section_base = 0,
      cies = [], fdes = [], cie_map = Map.empty\<rparr>"

definition setSectionBaseAddress :: "u64 \<Rightarrow> cfi_parser \<Rightarrow> cfi_parser" where
  "setSectionBaseAddress base p = p\<lparr>section_base := base\<rparr>"

record UnwindInfo =
  info_valid :: bool
  info_pc :: u64
  info_address_size :: u8
  info_cfa :: CFADefinition
  info_registers :: "u64 \<Rightarrow> RegisterRule option"
  info_return_register :: u64
  info_ra_sign :: u8

definition new_info :: "u64 \<Rightarrow> UnwindInfo" where
  "new_info pc =
     \<lparr>info_valid = False, info_pc = pc, info_address_size = 8, info_cfa = new_cfa,
      info_registers = Map.empty, info_return_register = 0, info_ra_sign = 0\<rparr>"

subsection \<open>Readers of instruction operands\<close>

text \<open>
  \<open>readInstr*\<close> and \<open>readBounded*\<close>: \<open>None\<close> when the reader returns false. The offset the code leaves
  behind after a failure is never used. Both pairs of LEB128 readers run the same loop, up to
  the end of the instructions or up to a given end.
\<close>

definition readInstrU8 :: "bytes \<Rightarrow> nat \<Rightarrow> (u8 \<times> nat) option" where
  "readInstrU8 d off = (if length d \<le> off then None else Some (d ! off, Suc off))"

definition returned :: "('v \<times> nat) outcome \<Rightarrow> ('v \<times> nat) option" where
  "returned r = (case r of Ret p \<Rightarrow> Some p | _ \<Rightarrow> None)"

definition readInstrU16 :: "bool \<Rightarrow> bytes \<Rightarrow> nat \<Rightarrow> (u16 \<times> nat) option" where
  "readInstrU16 le d off = (if length d < off + 2 then None else returned (readU16 le d off (length d)))"

definition readInstrU32 :: "bool \<Rightarrow> bytes \<Rightarrow> nat \<Rightarrow> (u32 \<times> nat) option" where
  "readInstrU32 le d off = (if length d < off + 4 then None else returned (readU32 le d off (length d)))"

definition readInstrU64 :: "bool \<Rightarrow> bytes \<Rightarrow> nat \<Rightarrow> (u64 \<times> nat) option" where
  "readInstrU64 le d off = (if length d < off + 8 then None else returned (readU64 le d off (length d)))"

function bounded_uleb :: "bytes \<Rightarrow> nat \<Rightarrow> nat \<Rightarrow> u64 \<Rightarrow> nat \<Rightarrow> (u64 \<times> nat) option" where
  "bounded_uleb d mx off result shift =
     (if off < mx \<and> off < length d then
        let byte = d ! off; bits = ucast (byte AND 0x7f)
        in if 63 < shift \<or> (shift = 63 \<and> 1 < bits) then None
           else
             let result' = result OR push_bit shift bits
             in if byte AND 0x80 = 0 then Some (result', Suc off)
                else bounded_uleb d mx (Suc off) result' (shift + 7)
      else None)"
  by pat_completeness auto
termination
  by (relation "measure (\<lambda>(d, mx, off, r, sh). length d - off)") auto

declare bounded_uleb.simps [simp del]

definition readInstrULEB :: "bytes \<Rightarrow> nat \<Rightarrow> (u64 \<times> nat) option" where
  "readInstrULEB d off = (if length d \<le> off then None else bounded_uleb d (length d) off 0 0)"

definition readBoundedULEB :: "bytes \<Rightarrow> nat \<Rightarrow> nat \<Rightarrow> (u64 \<times> nat) option" where
  "readBoundedULEB d off mx = (if mx \<le> off \<or> length d \<le> off then None else bounded_uleb d mx off 0 0)"

function bounded_sleb :: "bytes \<Rightarrow> nat \<Rightarrow> nat \<Rightarrow> u64 \<Rightarrow> nat \<Rightarrow> (u64 \<times> nat) option" where
  "bounded_sleb d mx off result shift =
     (if off < mx \<and> off < length d then
        let byte = d ! off
        in if 63 < shift \<or> (shift = 63 \<and> byte AND 0x7f \<noteq> 0 \<and> byte AND 0x7f \<noteq> 0x7f) then None
           else
             let result' = result OR push_bit shift (ucast (byte AND 0x7f));
                 shift' = shift + 7
             in if byte AND 0x80 = 0
                then Some (if shift' < 64 \<and> byte AND 0x40 \<noteq> 0 then result' OR - push_bit shift' 1 else result',
                           Suc off)
                else bounded_sleb d mx (Suc off) result' shift'
      else None)"
  by pat_completeness auto
termination
  by (relation "measure (\<lambda>(d, mx, off, r, sh). length d - off)") auto

declare bounded_sleb.simps [simp del]

definition readInstrSLEB :: "bytes \<Rightarrow> nat \<Rightarrow> (u64 \<times> nat) option" where
  "readInstrSLEB d off = (if length d \<le> off then None else bounded_sleb d (length d) off 0 0)"

definition readBoundedSLEB :: "bytes \<Rightarrow> nat \<Rightarrow> nat \<Rightarrow> (u64 \<times> nat) option" where
  "readBoundedSLEB d off mx = (if mx \<le> off \<or> length d \<le> off then None else bounded_sleb d mx off 0 0)"

definition readBoundedU8 :: "bytes \<Rightarrow> nat \<Rightarrow> nat \<Rightarrow> (u8 \<times> nat) option" where
  "readBoundedU8 d off mx = (if mx \<le> off \<or> length d \<le> off then None else Some (d ! off, Suc off))"

subsection \<open>The contract of an operand reader\<close>

text \<open>
  A reader that succeeds has moved forward and is still inside the buffer; the decoder of the
  instructions relies on nothing else for its progress.
\<close>

locale operand_reader =
  fixes rd :: "bytes \<Rightarrow> nat \<Rightarrow> ('v \<times> nat) option"
  assumes advances: "rd d off = Some (v, off') \<Longrightarrow> off < off' \<and> off' \<le> length d"
begin

lemma then_advances:
  assumes "\<And>v off'. rd d off = Some (v, off') \<Longrightarrow> off < off' \<Longrightarrow> off' \<le> length d \<Longrightarrow> P (f v off')"
    and "P z"
  shows "P (case rd d off of None \<Rightarrow> z | Some (v, off') \<Rightarrow> f v off')"
  using assms advances by (auto split: option.split)

end

interpretation instr_u8: operand_reader readInstrU8
  by unfold_locales (auto simp: readInstrU8_def split: if_splits)

lemma u64_add_le: "u64_add a b \<le> a + b"
  by (simp add: u64_add_def)

lemma not_u64_add: "a + Suc b \<le> n \<Longrightarrow> \<not> n \<le> u64_add a b"
  using u64_add_le [of a b] by linarith

lemma returned_Some [simp]: "returned r = Some p \<longleftrightarrow> r = Ret p"
  by (auto simp: returned_def split: outcome.split)

interpretation instr_u16: operand_reader "readInstrU16 le" for le
  by unfold_locales (auto simp: readInstrU16_def readU16_def obind_eq_Ret not_u64_add split: if_splits)

interpretation instr_u32: operand_reader "readInstrU32 le" for le
  by unfold_locales (auto simp: readInstrU32_def readU32_def obind_eq_Ret not_u64_add split: if_splits)

interpretation instr_u64: operand_reader "readInstrU64 le" for le
  by unfold_locales
    (auto simp: readInstrU64_def readU64_def obind_eq_Ret not_u64_add split: if_splits simp del: readU64_be_loop.simps)

lemma bounded_uleb_advances: "bounded_uleb d mx off r sh = Some (v, off') \<Longrightarrow> off < off' \<and> off' \<le> mx \<and> off' \<le> length d"
proof (induction d mx off r sh rule: bounded_uleb.induct)
  case (1 d mx off r sh)
  show ?case using 1(2)
    by (subst (asm) bounded_uleb.simps) (auto simp: Let_def split: if_splits dest!: "1.IH" [rotated -1])
qed

lemma bounded_sleb_advances: "bounded_sleb d mx off r sh = Some (v, off') \<Longrightarrow> off < off' \<and> off' \<le> mx \<and> off' \<le> length d"
proof (induction d mx off r sh rule: bounded_sleb.induct)
  case (1 d mx off r sh)
  show ?case using 1(2)
    by (subst (asm) bounded_sleb.simps) (auto simp: Let_def split: if_splits dest!: "1.IH" [rotated -1])
qed

interpretation instr_uleb: operand_reader readInstrULEB
  by unfold_locales (auto simp: readInstrULEB_def split: if_splits dest: bounded_uleb_advances)

interpretation instr_sleb: operand_reader readInstrSLEB
  by unfold_locales (auto simp: readInstrSLEB_def split: if_splits dest: bounded_sleb_advances)

subsection \<open>What the readers return on encoded operands\<close>

lemma one_less_ucast: "1 < (ucast (b :: u8) :: u64) \<longleftrightarrow> 1 < b"
  by (simp add: word_less_nat_alt)

lemma bounded_uleb_ev:
  "\<not> execution_error s \<Longrightarrow> bounded_uleb d (length d) off r sh =
     (case ev_uleb_loop d off s r sh of (v, off', s') \<Rightarrow> if execution_error s' then None else Some (v, off'))"
proof (induction d off s r sh rule: ev_uleb_loop.induct)
  case (1 d off s r sh)
  then show ?case
    by (subst bounded_uleb.simps, subst ev_uleb_loop.simps) (simp add: Let_def one_less_ucast)
qed

lemma readInstrULEB_encoded:
  assumes "encoded_at d off (uleb_encode n)" and "n < 2 ^ 64"
  shows "readInstrULEB d off = Some (word_of_nat n, off + length (uleb_encode n))"
proof -
  let ?s = "new_evaluator True DefaultMemoryContext"
  have "off < length d" using encoded_at_length [OF assms(1)] uleb_encode_nonempty [of n] by linarith
  then show ?thesis
    using ev_readULEB128_encode [OF assms, of ?s] bounded_uleb_ev [of ?s d off 0 0]
    by (simp add: readInstrULEB_def ev_readULEB128_def new_evaluator_def)
qed

lemma bounded_sleb_ev:
  "\<not> execution_error s \<Longrightarrow> bounded_sleb d (length d) off r sh =
     (case ev_sleb_loop d off s r sh of (x, off', s') \<Rightarrow>
        if execution_error s' then None else Some (sleb_result x, off'))"
proof (induction d off s r sh rule: ev_sleb_loop.induct)
  case (1 d off s r sh)
  then show ?case
    by (subst bounded_sleb.simps, subst ev_sleb_loop.simps) (simp add: Let_def sleb_result_def)
qed

lemma readInstrSLEB_encoded:
  assumes "encoded_at d off (sleb_encode n)" and "- (2 ^ 63) \<le> n" and "n < 2 ^ 63"
  shows "readInstrSLEB d off = Some (word_of_int n, off + length (sleb_encode n))"
proof -
  let ?s = "new_evaluator True DefaultMemoryContext"
  have "off < length d" using encoded_at_length [OF assms(1)] sleb_encode_nonempty [of n] by linarith
  then show ?thesis
    using ev_readSLEB128_encode [OF assms, of ?s] bounded_sleb_ev [of ?s d off 0 0]
    by (auto simp: readInstrSLEB_def ev_readSLEB128_loop new_evaluator_def split: prod.splits)
qed

lemma readInstr_fixed_encoded:
  assumes "length d \<le> vector_max"
  shows "encoded_at d off (ordered le (le_bytes 2 (unat v2))) \<Longrightarrow> readInstrU16 le d off = Some (v2, off + 2)"
    "encoded_at d off (ordered le (le_bytes 4 (unat v4))) \<Longrightarrow> readInstrU32 le d off = Some (v4, off + 4)"
    "encoded_at d off (ordered le (le_bytes 8 (unat v8))) \<Longrightarrow> readInstrU64 le d off = Some (v8, off + 8)"
  using assms encoded_at_length [of d off]
  by (auto simp: readInstrU16_def readInstrU32_def readInstrU64_def readU16_encoded readU32_encoded readU64_encoded
      not_less dest!: encoded_at_length)

end
