(* ===== verification/CfiExec.thy ===== *)
theory CfiExec
  imports CfiCore
begin

section \<open>Call frame information: instructions and the unwind table\<close>

text \<open>
  \<open>CFIParser::executeInstruction\<close>, one branch per instruction, the loop that runs a stream of
  instructions and records a row per location, and the lookup of the row for a program counter.
  An instruction whose operand cannot be read ends the stream: the offset becomes the length.
\<close>

subsection \<open>One instruction\<close>

type_synonym cfi_state = "nat \<times> UnwindRow \<times> UnwindRow list"

definition set_rule :: "u64 \<Rightarrow> RegisterRule \<Rightarrow> UnwindRow \<Rightarrow> UnwindRow" where
  "set_rule reg rule row = row\<lparr>row_registers := (row_registers row)(reg \<mapsto> rule)\<rparr>"

definition restore_rule :: "u64 \<Rightarrow> CIE \<Rightarrow> UnwindRow \<Rightarrow> UnwindRow" where
  "restore_rule reg cie row =
     row\<lparr>row_registers := (row_registers row)(reg := row_registers (initial_row cie) reg)\<rparr>"

definition offset_rule :: "CFA_RegRule \<Rightarrow> u64 \<Rightarrow> RegisterRule" where
  "offset_rule t off = (new_rule t)\<lparr>rule_offset := off\<rparr>"

definition advance_row :: "u64 \<Rightarrow> UnwindRow \<Rightarrow> UnwindRow" where
  "advance_row delta row = row\<lparr>row_location := row_location row + delta\<rparr>"

definition set_cfa :: "(CFADefinition \<Rightarrow> CFADefinition) \<Rightarrow> UnwindRow \<Rightarrow> UnwindRow" where
  "set_cfa f row = row\<lparr>row_cfa := f (row_cfa row)\<rparr>"

text \<open>\<open>if (!readInstr(...)) return instructions.size();\<close> followed by \<open>k\<close>.\<close>

definition operand :: "('v \<times> nat) option \<Rightarrow> cfi_state \<Rightarrow> ('v \<Rightarrow> nat \<Rightarrow> cfi_state) \<Rightarrow> cfi_state" where
  "operand r fail k = (case r of None \<Rightarrow> fail | Some (v, off) \<Rightarrow> k v off)"

text \<open>The bytes of an expression operand, when they are all there.\<close>

definition readInstrBlock :: "bytes \<Rightarrow> nat \<Rightarrow> u64 \<Rightarrow> (bytes \<times> nat) option" where
  "readInstrBlock ins off len =
     (let available = (if off \<le> length ins then length ins - off else 0)
      in if available < unat len then None
         else Some (take (unat len) (drop off ins), off + unat len))"

definition executePrimary ::
  "u8 \<Rightarrow> u8 \<Rightarrow> nat \<Rightarrow> bytes \<Rightarrow> UnwindRow \<Rightarrow> CIE \<Rightarrow> UnwindRow list \<Rightarrow> cfi_state" where
  "executePrimary primary reg6 off ins row cie st =
     (let fail = (length ins, row, st) in
      if primary = 0x40 then (off, advance_row (ucast reg6 * code_alignment cie) row, st)
      else if primary = 0x80 then
        operand (readInstrULEB ins off) fail (\<lambda>v off.
          (off, set_rule (ucast reg6) (offset_rule RR_OFFSET (v * data_alignment cie)) row, st))
      else (off, restore_rule (ucast reg6) cie row, st))"

definition executeRegular ::
  "bool \<Rightarrow> u8 \<Rightarrow> nat \<Rightarrow> bytes \<Rightarrow> UnwindRow \<Rightarrow> CIE \<Rightarrow> UnwindRow list \<Rightarrow> cfi_state" where
  "executeRegular le opcode off ins row cie st =
     (let fail = (length ins, row, st); uleb = readInstrULEB ins; sleb = readInstrSLEB ins in
      if opcode = 0x00 then (off, row, st)
      else if opcode = 0x1d then
        operand (readInstrU64 le ins off) fail (\<lambda>delta off.
          (off, advance_row (delta * code_alignment cie) row, st))
      else if opcode = 0x01 then
        (if cie_address_size cie = 8 then
           operand (readInstrU64 le ins off) fail (\<lambda>v off. (off, row\<lparr>row_location := v\<rparr>, st))
         else if cie_address_size cie = 4 then
           operand (readInstrU32 le ins off) fail (\<lambda>v off. (off, row\<lparr>row_location := ucast v\<rparr>, st))
         else fail)
      else if opcode = 0x02 then
        operand (readInstrU8 ins off) fail (\<lambda>delta off.
          (off, advance_row (ucast delta * code_alignment cie) row, st))
      else if opcode = 0x03 then
        operand (readInstrU16 le ins off) fail (\<lambda>delta off.
          (off, advance_row (ucast delta * code_alignment cie) row, st))
      else if opcode = 0x04 then
        operand (readInstrU32 le ins off) fail (\<lambda>delta off.
          (off, advance_row (ucast delta * code_alignment cie) row, st))
      else if opcode = 0x05 then
        operand (uleb off) fail (\<lambda>reg off. operand (uleb off) fail (\<lambda>v off.
          (off, set_rule reg (offset_rule RR_OFFSET (v * data_alignment cie)) row, st)))
      else if opcode = 0x06 then
        operand (uleb off) fail (\<lambda>reg off. (off, restore_rule reg cie row, st))
      else if opcode = 0x07 then
        operand (uleb off) fail (\<lambda>reg off. (off, set_rule reg (new_rule RR_UNDEFINED) row, st))
      else if opcode = 0x08 then
        operand (uleb off) fail (\<lambda>reg off. (off, set_rule reg (new_rule RR_SAME_VALUE) row, st))
      else if opcode = 0x09 then
        operand (uleb off) fail (\<lambda>reg1 off. operand (uleb off) fail (\<lambda>reg2 off.
          (off, set_rule reg1 ((new_rule RR_REGISTER)\<lparr>rule_reg := reg2\<rparr>) row, st)))
      else if opcode = 0x0a then (off, row, row # st)
      else if opcode = 0x0b then
        (case st of
           [] \<Rightarrow> (off, row, st)
         | saved # rest \<Rightarrow> (off, saved\<lparr>row_location := row_location row\<rparr>, rest))
      else if opcode = 0x0c then
        operand (uleb off) fail (\<lambda>reg off. operand (uleb off) fail (\<lambda>v off.
          (off, set_cfa (\<lambda>d. d\<lparr>cfa_type := CFA_REGISTER_OFFSET, cfa_reg := reg, cfa_offset := v\<rparr>) row, st)))
      else if opcode = 0x0d then
        operand (uleb off) fail (\<lambda>reg off.
          (off, set_cfa (\<lambda>d. d\<lparr>cfa_type := CFA_REGISTER_OFFSET, cfa_reg := reg\<rparr>) row, st))
      else if opcode = 0x0e then
        operand (uleb off) fail (\<lambda>v off.
          (off, set_cfa (\<lambda>d. d\<lparr>cfa_type := CFA_REGISTER_OFFSET, cfa_offset := v\<rparr>) row, st))
      else if opcode = 0x0f then
        (if cie_version cie < 3 then
           operand (readInstrU8 ins off) fail (\<lambda>len off.
             operand (readInstrBlock ins off (ucast len)) fail (\<lambda>skipped off. (off, row, st)))
         else
           operand (uleb off) fail (\<lambda>len off. operand (readInstrBlock ins off len) fail (\<lambda>expr off.
             (off, set_cfa (\<lambda>d. d\<lparr>cfa_type := CFA_EXPRESSION, cfa_expression := expr\<rparr>) row, st))))
      else if opcode = 0x10 then
        operand (uleb off) fail (\<lambda>reg off. operand (uleb off) fail (\<lambda>len off.
          operand (readInstrBlock ins off len) fail (\<lambda>expr off.
            (off, set_rule reg ((new_rule RR_EXPRESSION)\<lparr>rule_expression := expr\<rparr>) row, st))))
      else if opcode = 0x11 then
        operand (uleb off) fail (\<lambda>reg off. operand (sleb off) fail (\<lambda>v off.
          (off, set_rule reg (offset_rule RR_OFFSET (v * data_alignment cie)) row, st)))
      else if opcode = 0x12 then
        operand (uleb off) fail (\<lambda>reg off. operand (sleb off) fail (\<lambda>v off.
          (off, set_cfa (\<lambda>d. d\<lparr>cfa_type := CFA_REGISTER_OFFSET, cfa_reg := reg,
                                   cfa_offset := v * data_alignment cie\<rparr>) row, st)))
      else if opcode = 0x13 then
        operand (sleb off) fail (\<lambda>v off.
          (off, set_cfa (\<lambda>d. d\<lparr>cfa_type := CFA_REGISTER_OFFSET, cfa_offset := v * data_alignment cie\<rparr>) row, st))
      else if opcode = 0x14 then
        operand (uleb off) fail (\<lambda>reg off. operand (uleb off) fail (\<lambda>v off.
          (off, set_rule reg (offset_rule RR_VAL_OFFSET (v * data_alignment cie)) row, st)))
      else if opcode = 0x15 then
        operand (uleb off) fail (\<lambda>reg off. operand (sleb off) fail (\<lambda>v off.
          (off, set_rule reg (offset_rule RR_VAL_OFFSET (v * data_alignment cie)) row, st)))
      else if opcode = 0x16 then
        operand (uleb off) fail (\<lambda>reg off. operand (uleb off) fail (\<lambda>len off.
          operand (readInstrBlock ins off len) fail (\<lambda>expr off.
            (off, set_rule reg ((new_rule RR_VAL_EXPRESSION)\<lparr>rule_expression := expr\<rparr>) row, st))))
      else if opcode = 0x2d then
        (off, (if cie_return_register cie = 30 \<and> cie_address_size cie = 8
               then row\<lparr>row_ra_sign := row_ra_sign row XOR 1\<rparr> else row), st)
      else if opcode = 0x2e then operand (uleb off) fail (\<lambda>ignored off. (off, row, st))
      else if opcode = 0x2f then
        operand (uleb off) fail (\<lambda>reg off. operand (uleb off) fail (\<lambda>v off.
          (off, set_rule reg (offset_rule RR_OFFSET (- v * data_alignment cie)) row, st)))
      else fail)"

definition executeInstruction ::
  "bool \<Rightarrow> nat \<Rightarrow> bytes \<Rightarrow> UnwindRow \<Rightarrow> CIE \<Rightarrow> UnwindRow list \<Rightarrow> cfi_state" where
  "executeInstruction le off ins row cie st =
     (if length ins \<le> off then (off, row, st)
      else
        let opcode = ins ! off; primary = opcode AND 0xc0; low = opcode AND 0x3f
        in if primary = 0x40 \<or> primary = 0x80 \<or> primary = 0xc0
           then executePrimary primary low (Suc off) ins row cie st
           else executeRegular le opcode (Suc off) ins row cie st)"

subsection \<open>Every instruction makes progress\<close>

definition moves :: "nat \<Rightarrow> bytes \<Rightarrow> cfi_state \<Rightarrow> bool" where
  "moves off ins r \<longleftrightarrow> off \<le> fst r \<and> fst r \<le> length ins"

named_theorems move_rules

lemma moves_pair [move_rules]: "off \<le> off' \<Longrightarrow> off' \<le> length ins \<Longrightarrow> moves off ins (off', row, st)"
  by (simp add: moves_def)

lemma moves_fail [move_rules]: "off \<le> length ins \<Longrightarrow> moves off ins (length ins, row, st)"
  by (simp add: moves_def)

lemma moves_if [move_rules]: "(c \<Longrightarrow> moves off ins a) \<Longrightarrow> (\<not> c \<Longrightarrow> moves off ins b) \<Longrightarrow> moves off ins (if c then a else b)"
  by simp

lemma block_bounds:
  "readInstrBlock ins off len = Some (b, off') \<Longrightarrow> off \<le> off' \<and> (off \<le> length ins \<longrightarrow> off' \<le> length ins)"
  by (auto simp: readInstrBlock_def Let_def split: if_splits)

lemma moves_block [move_rules]:
  "off0 \<le> off \<Longrightarrow> off \<le> length ins \<Longrightarrow> moves off0 ins fail \<Longrightarrow>
     (\<And>v off'. off0 \<le> off' \<Longrightarrow> off' \<le> length ins \<Longrightarrow> moves off0 ins (k v off')) \<Longrightarrow>
     moves off0 ins (operand (readInstrBlock ins off len) fail k)"
  using block_bounds [of ins off len] by (fastforce simp: operand_def split: option.split)

context operand_reader
begin

lemma moves_then:
  "off0 \<le> off \<Longrightarrow> moves off0 ins fail \<Longrightarrow>
     (\<And>v off'. off0 \<le> off' \<Longrightarrow> off' \<le> length ins \<Longrightarrow> moves off0 ins (k v off')) \<Longrightarrow>
     moves off0 ins (operand (rd ins off) fail k)"
  using advances [of ins off] by (fastforce simp: operand_def split: option.split)

end

lemmas [move_rules] = instr_u8.moves_then instr_u16.moves_then instr_u32.moves_then
  instr_u64.moves_then instr_uleb.moves_then instr_sleb.moves_then

lemma executePrimary_moves: "off \<le> length ins \<Longrightarrow> moves off ins (executePrimary p r off ins row cie st)"
  unfolding executePrimary_def Let_def by (intro move_rules; (assumption | rule order_refl))

lemma executeRegular_moves:
  assumes "off \<le> length ins"
  shows "moves off ins (executeRegular le op off ins row cie st)"
proof -
  have pop: "moves off ins (case st of [] \<Rightarrow> (off, row, st)
      | saved # rest \<Rightarrow> (off, saved\<lparr>row_location := row_location row\<rparr>, rest))" for st
    using assms by (cases st) (simp_all add: moves_def)
  show ?thesis
    unfolding executeRegular_def Let_def
    by (intro move_rules pop; (assumption | rule order_refl assms))
qed

lemma executeInstruction_progress:
  assumes "off < length ins" and "executeInstruction le off ins row cie st = (off', row', st')"
  shows "off < off' \<and> off' \<le> length ins"
proof -
  have "moves (Suc off) ins (executeInstruction le off ins row cie st)"
    using assms(1) executePrimary_moves [of "Suc off" ins] executeRegular_moves [of "Suc off" ins]
    by (simp add: executeInstruction_def Let_def)
  with assms(2) show ?thesis by (simp add: moves_def)
qed

subsection \<open>A stream of instructions\<close>

text \<open>The row is recorded when its location is inside the range, once per location.\<close>

definition record_row :: "u64 \<Rightarrow> u64 \<Rightarrow> UnwindRow \<Rightarrow> UnwindRow list \<Rightarrow> UnwindRow list" where
  "record_row pc_begin pc_end row table =
     (if pc_begin \<le> row_location row \<and> row_location row < pc_end then
        if table \<noteq> [] \<and> row_location (last table) = row_location row then butlast table @ [row]
        else table @ [row]
      else table)"

function executeInstructions_loop ::
  "bool \<Rightarrow> nat \<Rightarrow> bytes \<Rightarrow> UnwindRow \<Rightarrow> CIE \<Rightarrow> UnwindRow list \<Rightarrow> u64 \<Rightarrow> u64 \<Rightarrow> UnwindRow list \<Rightarrow>
     UnwindRow \<times> UnwindRow list" where
  "executeInstructions_loop le off ins row cie st pc_begin pc_end table =
     (if length ins \<le> off then (row, table)
      else
        case executeInstruction le off ins row cie st of (off', row', st') \<Rightarrow>
          if off' \<le> off then (row', table)
          else executeInstructions_loop le off' ins row' cie st' pc_begin pc_end
                 (record_row pc_begin pc_end row' table))"
  by pat_completeness auto
termination
  by (relation "measure (\<lambda>(le, off, ins, r). length ins - off)") auto

declare executeInstructions_loop.simps [simp del]

definition executeInstructions ::
  "bool \<Rightarrow> bytes \<Rightarrow> UnwindRow \<Rightarrow> CIE \<Rightarrow> u64 \<Rightarrow> u64 \<Rightarrow> UnwindRow list \<Rightarrow> UnwindRow \<times> UnwindRow list" where
  "executeInstructions le ins row cie pc_begin pc_end table =
     executeInstructions_loop le 0 ins row cie [] pc_begin pc_end table"

subsection \<open>Lookup\<close>

fun find_fde :: "u64 \<Rightarrow> FDE list \<Rightarrow> FDE option" where
  "find_fde pc [] = None"
| "find_fde pc (f # fs) =
     (if initial_location f \<le> pc \<and> pc < initial_location f + fde_range f then Some f else find_fde pc fs)"

definition findFDE :: "u64 \<Rightarrow> cfi_parser \<Rightarrow> FDE option" where
  "findFDE pc p = find_fde pc (fdes p)"

definition better_row :: "u64 \<Rightarrow> UnwindRow \<Rightarrow> UnwindRow \<Rightarrow> UnwindRow" where
  "better_row pc best row =
     (if row_location row \<le> pc \<and> row_location best \<le> row_location row then row else best)"

definition best_row :: "u64 \<Rightarrow> UnwindRow list \<Rightarrow> UnwindRow" where
  "best_row pc table = foldl (better_row pc) (hd table) table"

definition fde_table :: "bool \<Rightarrow> FDE \<Rightarrow> UnwindRow list" where
  "fde_table le f =
     (let row = (initial_row (fde_cie f))\<lparr>row_location := initial_location f\<rparr>
      in snd (executeInstructions le (fde_instructions f) row (fde_cie f)
                (initial_location f) (initial_location f + fde_range f) [row]))"

definition getUnwindInfo :: "bool \<Rightarrow> u64 \<Rightarrow> cfi_parser \<Rightarrow> UnwindInfo" where
  "getUnwindInfo le pc p =
     (case findFDE pc p of
        None \<Rightarrow> new_info pc
      | Some f \<Rightarrow>
          let best = best_row pc (fde_table le f)
          in \<lparr>info_valid = True, info_pc = pc, info_address_size = cie_address_size (fde_cie f),
              info_cfa = row_cfa best, info_registers = row_registers best,
              info_return_register = cie_return_register (fde_cie f), info_ra_sign = row_ra_sign best\<rparr>)"

subsection \<open>The chosen row\<close>

lemma best_row_fold:
  assumes "row_location b \<le> pc"
  shows "foldl (better_row pc) b rows \<in> insert b (set rows)
    \<and> row_location (foldl (better_row pc) b rows) \<le> pc
    \<and> row_location b \<le> row_location (foldl (better_row pc) b rows)
    \<and> (\<forall>r\<in>set rows. row_location r \<le> pc \<longrightarrow> row_location r \<le> row_location (foldl (better_row pc) b rows))"
  using assms
proof (induction rows arbitrary: b)
  case (Cons r rows)
  have b: "row_location (better_row pc b r) \<le> pc" "row_location b \<le> row_location (better_row pc b r)"
    "better_row pc b r \<in> {b, r}" "row_location r \<le> pc \<Longrightarrow> row_location r \<le> row_location (better_row pc b r)"
    using Cons.prems by (auto simp: better_row_def)
  then show ?case using Cons.IH [OF b(1)] by auto
qed simp

lemma find_fde_in: "find_fde pc fs = Some f \<Longrightarrow> f \<in> set fs \<and> initial_location f \<le> pc \<and> pc < initial_location f + fde_range f"
  by (induction fs) (auto split: if_splits)

end
