(* ===== verification/CfiSpec.thy ===== *)
theory CfiSpec
  imports CfiExec
begin

section \<open>Call frame information: the instructions and their meaning\<close>

text \<open>
  The call frame instructions as a datatype, their encoding, and what each does to the row and
  the stack of remembered rows. A stream of encoded instructions is executed as the meaning of
  the instructions says, and the row that the parser returns for a program counter is the row
  in force there.
\<close>

subsection \<open>Instructions\<close>

datatype frame_instr =
    I_nop | I_advance nat | I_advance1 u8 | I_advance2 u16 | I_advance4 u32
  | I_offset nat u64 | I_offset_extended u64 u64 | I_offset_extended_sf u64 u64
  | I_restore nat | I_restore_extended u64 | I_undefined u64 | I_same_value u64 | I_register u64 u64
  | I_remember_state | I_restore_state
  | I_def_cfa u64 u64 | I_def_cfa_sf u64 u64 | I_def_cfa_register u64 | I_def_cfa_offset u64
  | I_def_cfa_offset_sf u64 | I_def_cfa_expression bytes
  | I_expression u64 bytes | I_val_expression u64 bytes | I_val_offset u64 u64 | I_val_offset_sf u64 u64
  | I_args_size u64

definition ub :: "u64 \<Rightarrow> bytes" where
  "ub v = uleb_encode (unat v)"

definition sb :: "u64 \<Rightarrow> bytes" where
  "sb v = sleb_encode (sint v)"

definition block_bytes :: "bytes \<Rightarrow> bytes" where
  "block_bytes b = uleb_encode (length b) @ b"

fun instr_bytes :: "bool \<Rightarrow> frame_instr \<Rightarrow> bytes" where
  "instr_bytes le I_nop = [0x00]"
| "instr_bytes le (I_advance n) = [0x40 + word_of_nat n]"
| "instr_bytes le (I_advance1 v) = [0x02, v]"
| "instr_bytes le (I_advance2 v) = 0x03 # ordered le (le_bytes 2 (unat v))"
| "instr_bytes le (I_advance4 v) = 0x04 # ordered le (le_bytes 4 (unat v))"
| "instr_bytes le (I_offset r v) = (0x80 + word_of_nat r) # ub v"
| "instr_bytes le (I_offset_extended r v) = 0x05 # ub r @ ub v"
| "instr_bytes le (I_offset_extended_sf r v) = 0x11 # ub r @ sb v"
| "instr_bytes le (I_restore r) = [0xc0 + word_of_nat r]"
| "instr_bytes le (I_restore_extended r) = 0x06 # ub r"
| "instr_bytes le (I_undefined r) = 0x07 # ub r"
| "instr_bytes le (I_same_value r) = 0x08 # ub r"
| "instr_bytes le (I_register r q) = 0x09 # ub r @ ub q"
| "instr_bytes le I_remember_state = [0x0a]"
| "instr_bytes le I_restore_state = [0x0b]"
| "instr_bytes le (I_def_cfa r v) = 0x0c # ub r @ ub v"
| "instr_bytes le (I_def_cfa_sf r v) = 0x12 # ub r @ sb v"
| "instr_bytes le (I_def_cfa_register r) = 0x0d # ub r"
| "instr_bytes le (I_def_cfa_offset v) = 0x0e # ub v"
| "instr_bytes le (I_def_cfa_offset_sf v) = 0x13 # sb v"
| "instr_bytes le (I_def_cfa_expression b) = 0x0f # block_bytes b"
| "instr_bytes le (I_expression r b) = 0x10 # ub r @ block_bytes b"
| "instr_bytes le (I_val_expression r b) = 0x16 # ub r @ block_bytes b"
| "instr_bytes le (I_val_offset r v) = 0x14 # ub r @ ub v"
| "instr_bytes le (I_val_offset_sf r v) = 0x15 # ub r @ sb v"
| "instr_bytes le (I_args_size v) = 0x2e # ub v"

text \<open>The operands that the six low bits of an opcode can hold.\<close>

fun instr_fits :: "frame_instr \<Rightarrow> bool" where
  "instr_fits (I_advance n) \<longleftrightarrow> n < 64"
| "instr_fits (I_offset r v) \<longleftrightarrow> r < 64"
| "instr_fits (I_restore r) \<longleftrightarrow> r < 64"
| "instr_fits _ \<longleftrightarrow> True"

type_synonym frame_state = "UnwindRow \<times> UnwindRow list"

definition code_delta :: "CIE \<Rightarrow> nat \<Rightarrow> UnwindRow \<Rightarrow> UnwindRow" where
  "code_delta cie n row = row\<lparr>row_location := row_location row + word_of_nat n * code_alignment cie\<rparr>"

definition rule_for :: "u64 \<Rightarrow> RegisterRule option \<Rightarrow> UnwindRow \<Rightarrow> UnwindRow" where
  "rule_for r rule row = row\<lparr>row_registers := (row_registers row)(r := rule)\<rparr>"

definition factored :: "CIE \<Rightarrow> CFA_RegRule \<Rightarrow> u64 \<Rightarrow> RegisterRule" where
  "factored cie t v = \<lparr>rule_type = t, rule_offset = v * data_alignment cie, rule_reg = 0, rule_expression = []\<rparr>"

definition cfa_is :: "CFA_Type \<Rightarrow> u64 \<Rightarrow> u64 \<Rightarrow> bytes \<Rightarrow> UnwindRow \<Rightarrow> UnwindRow" where
  "cfa_is t r v b row = row\<lparr>row_cfa := \<lparr>cfa_type = t, cfa_reg = r, cfa_offset = v, cfa_expression = b\<rparr>\<rparr>"

text \<open>What each instruction does.\<close>

fun meaning :: "CIE \<Rightarrow> frame_instr \<Rightarrow> frame_state \<Rightarrow> frame_state" where
  "meaning cie I_nop (row, st) = (row, st)"
| "meaning cie (I_advance n) (row, st) = (code_delta cie n row, st)"
| "meaning cie (I_advance1 v) (row, st) = (code_delta cie (unat v) row, st)"
| "meaning cie (I_advance2 v) (row, st) = (code_delta cie (unat v) row, st)"
| "meaning cie (I_advance4 v) (row, st) = (code_delta cie (unat v) row, st)"
| "meaning cie (I_offset r v) (row, st) = (rule_for (word_of_nat r) (Some (factored cie RR_OFFSET v)) row, st)"
| "meaning cie (I_offset_extended r v) (row, st) = (rule_for r (Some (factored cie RR_OFFSET v)) row, st)"
| "meaning cie (I_offset_extended_sf r v) (row, st) = (rule_for r (Some (factored cie RR_OFFSET v)) row, st)"
| "meaning cie (I_restore r) (row, st) =
     (rule_for (word_of_nat r) (row_registers (initial_row cie) (word_of_nat r)) row, st)"
| "meaning cie (I_restore_extended r) (row, st) = (rule_for r (row_registers (initial_row cie) r) row, st)"
| "meaning cie (I_undefined r) (row, st) = (rule_for r (Some (new_rule RR_UNDEFINED)) row, st)"
| "meaning cie (I_same_value r) (row, st) = (rule_for r (Some (new_rule RR_SAME_VALUE)) row, st)"
| "meaning cie (I_register r q) (row, st) = (rule_for r (Some ((new_rule RR_REGISTER)\<lparr>rule_reg := q\<rparr>)) row, st)"
| "meaning cie I_remember_state (row, st) = (row, row # st)"
| "meaning cie I_restore_state (row, []) = (row, [])"
| "meaning cie I_restore_state (row, saved # st) = (saved\<lparr>row_location := row_location row\<rparr>, st)"
| "meaning cie (I_def_cfa r v) (row, st) = (cfa_is CFA_REGISTER_OFFSET r v (cfa_expression (row_cfa row)) row, st)"
| "meaning cie (I_def_cfa_sf r v) (row, st) =
     (cfa_is CFA_REGISTER_OFFSET r (v * data_alignment cie) (cfa_expression (row_cfa row)) row, st)"
| "meaning cie (I_def_cfa_register r) (row, st) =
     (cfa_is CFA_REGISTER_OFFSET r (cfa_offset (row_cfa row)) (cfa_expression (row_cfa row)) row, st)"
| "meaning cie (I_def_cfa_offset v) (row, st) =
     (cfa_is CFA_REGISTER_OFFSET (cfa_reg (row_cfa row)) v (cfa_expression (row_cfa row)) row, st)"
| "meaning cie (I_def_cfa_offset_sf v) (row, st) =
     (cfa_is CFA_REGISTER_OFFSET (cfa_reg (row_cfa row)) (v * data_alignment cie) (cfa_expression (row_cfa row)) row, st)"
| "meaning cie (I_def_cfa_expression b) (row, st) =
     (cfa_is CFA_EXPRESSION (cfa_reg (row_cfa row)) (cfa_offset (row_cfa row)) b row, st)"
| "meaning cie (I_expression r b) (row, st) =
     (rule_for r (Some ((new_rule RR_EXPRESSION)\<lparr>rule_expression := b\<rparr>)) row, st)"
| "meaning cie (I_val_expression r b) (row, st) =
     (rule_for r (Some ((new_rule RR_VAL_EXPRESSION)\<lparr>rule_expression := b\<rparr>)) row, st)"
| "meaning cie (I_val_offset r v) (row, st) = (rule_for r (Some (factored cie RR_VAL_OFFSET v)) row, st)"
| "meaning cie (I_val_offset_sf r v) (row, st) = (rule_for r (Some (factored cie RR_VAL_OFFSET v)) row, st)"
| "meaning cie (I_args_size v) (row, st) = (row, st)"

subsection \<open>Executing one encoded instruction\<close>

lemma read_ub: "encoded_at d off (ub v) \<Longrightarrow> readInstrULEB d off = Some (v, off + length (ub v))"
  using readInstrULEB_encoded [of d off "unat v"] unat_u64_bound [of v] by (simp add: ub_def)

lemma read_sb: "encoded_at d off (sb v) \<Longrightarrow> readInstrSLEB d off = Some (v, off + length (sb v))"
  using readInstrSLEB_encoded [of d off "sint v"] sint_range_size [of v] by (simp add: sb_def word_size)

lemma read_block:
  assumes "encoded_at d off (block_bytes b)" and "length d < 2 ^ 64"
  shows "\<exists>off'. readInstrULEB d off = Some (word_of_nat (length b), off')
    \<and> readInstrBlock d off' (word_of_nat (length b)) = Some (b, off + length (block_bytes b))"
proof -
  have at: "encoded_at d off (uleb_encode (length b))" "encoded_at d (off + length (uleb_encode (length b))) b"
    using assms(1) by (simp_all add: block_bytes_def encoded_at_append)
  have small: "length b < 2 ^ 64" using encoded_at_length [OF at(2)] assms(2) by linarith
  have u: "unat (word_of_nat (length b) :: u64) = length b"
    using small by (simp add: unsigned_of_nat take_bit_nat_eq_self)
  have "take (length b) (drop (off + length (uleb_encode (length b))) d) = b"
    using at(2) by (simp add: encoded_at_def)
  then show ?thesis
    using readInstrULEB_encoded [OF at(1) small] encoded_at_length [OF at(2)]
    by (auto simp: readInstrBlock_def u block_bytes_def)
qed

lemma low_bits:
  assumes "n < 64"
  shows "(0x40 + word_of_nat n) AND 0xc0 = (0x40 :: u8)" "(0x40 + word_of_nat n) AND 0x3f = (word_of_nat n :: u8)"
    "(0x80 + word_of_nat n) AND 0xc0 = (0x80 :: u8)" "(0x80 + word_of_nat n) AND 0x3f = (word_of_nat n :: u8)"
    "(0xc0 + word_of_nat n) AND 0xc0 = (0xc0 :: u8)" "(0xc0 + word_of_nat n) AND 0x3f = (word_of_nat n :: u8)"
proof -
  have "n \<in> set [0..<64]" using assms by simp
  moreover have "\<forall>n\<in>set [0..<64]. (0x40 + word_of_nat n) AND 0xc0 = (0x40 :: u8)
     \<and> (0x40 + word_of_nat n) AND 0x3f = (word_of_nat n :: u8)
     \<and> (0x80 + word_of_nat n) AND 0xc0 = (0x80 :: u8) \<and> (0x80 + word_of_nat n) AND 0x3f = (word_of_nat n :: u8)
     \<and> (0xc0 + word_of_nat n) AND 0xc0 = (0xc0 :: u8) \<and> (0xc0 + word_of_nat n) AND 0x3f = (word_of_nat n :: u8)"
    unfolding upt_64 by simp
  ultimately show "(0x40 + word_of_nat n) AND 0xc0 = (0x40 :: u8)" "(0x40 + word_of_nat n) AND 0x3f = (word_of_nat n :: u8)"
    "(0x80 + word_of_nat n) AND 0xc0 = (0x80 :: u8)" "(0x80 + word_of_nat n) AND 0x3f = (word_of_nat n :: u8)"
    "(0xc0 + word_of_nat n) AND 0xc0 = (0xc0 :: u8)" "(0xc0 + word_of_nat n) AND 0x3f = (word_of_nat n :: u8)"
    by blast+
qed

lemma ucast_small: "n < 64 \<Longrightarrow> ucast (word_of_nat n :: u8) = (word_of_nat n :: u64)"
  by (simp add: word_unat_eq_iff unsigned_of_nat take_bit_nat_eq_self)

lemma row_shapes:
  "set_rule r x row = rule_for r (Some x) row" "restore_rule r cie row = rule_for r (row_registers (initial_row cie) r) row"
  "offset_rule t (v * data_alignment cie) = factored cie t v"
  "advance_row (word_of_nat n * code_alignment cie) row = code_delta cie n row"
  by (simp_all add: set_rule_def restore_rule_def rule_for_def offset_rule_def factored_def new_rule_def
      advance_row_def code_delta_def)

lemma ucast_u64: "(ucast (v8 :: u8) :: u64) = word_of_nat (unat v8)" "(ucast (v16 :: u16) :: u64) = word_of_nat (unat v16)"
  "(ucast (v32 :: u32) :: u64) = word_of_nat (unat v32)"
  by simp_all

lemmas run_instr = executeInstruction_def executeRegular_def executePrimary_def operand_def Let_def
  encoded_at_Cons encoded_at_append row_shapes

definition runs_as :: "bool \<Rightarrow> bytes \<Rightarrow> CIE \<Rightarrow> frame_instr \<Rightarrow> bool" where
  "runs_as le ins cie i \<longleftrightarrow> (\<forall>off row st. encoded_at ins off (instr_bytes le i) \<longrightarrow>
     executeInstruction le off ins row cie st = (off + length (instr_bytes le i), meaning cie i (row, st)))"

lemma runs_plain:
  "runs_as le ins cie I_nop" "runs_as le ins cie I_remember_state" "runs_as le ins cie I_restore_state"
  by (auto simp: runs_as_def run_instr split: list.split)

lemma runs_low:
  "n < 64 \<Longrightarrow> runs_as le ins cie (I_advance n)" "n < 64 \<Longrightarrow> runs_as le ins cie (I_offset n v)"
  "n < 64 \<Longrightarrow> runs_as le ins cie (I_restore n)"
  by (auto simp: runs_as_def run_instr low_bits ucast_small dest!: read_ub)

lemma runs_advance:
  assumes "length ins \<le> vector_max"
  shows "runs_as le ins cie (I_advance1 v1)" "runs_as le ins cie (I_advance2 v2)" "runs_as le ins cie (I_advance4 v4)"
  using row_shapes(4) [of "unat v1" cie] row_shapes(4) [of "unat v2" cie] row_shapes(4) [of "unat v4" cie]
  by (auto simp: runs_as_def run_instr readInstrU8_def dest!: readInstr_fixed_encoded [OF assms])

lemma runs_register:
  "runs_as le ins cie (I_offset_extended r v)" "runs_as le ins cie (I_offset_extended_sf r v)"
  "runs_as le ins cie (I_restore_extended r)" "runs_as le ins cie (I_undefined r)"
  "runs_as le ins cie (I_same_value r)" "runs_as le ins cie (I_register r q)"
  "runs_as le ins cie (I_val_offset r v)" "runs_as le ins cie (I_val_offset_sf r v)"
  "runs_as le ins cie (I_args_size v)"
  by (auto simp: runs_as_def run_instr dest!: read_ub read_sb)

lemma runs_cfa:
  "runs_as le ins cie (I_def_cfa r v)" "runs_as le ins cie (I_def_cfa_sf r v)" "runs_as le ins cie (I_def_cfa_register r)"
  "runs_as le ins cie (I_def_cfa_offset v)" "runs_as le ins cie (I_def_cfa_offset_sf v)"
  by (auto simp: runs_as_def run_instr set_cfa_def cfa_is_def dest!: read_ub read_sb)

lemma runs_expression:
  assumes "length ins < 2 ^ 64"
  shows "\<not> cie_version cie < 3 \<Longrightarrow> runs_as le ins cie (I_def_cfa_expression b)"
    "runs_as le ins cie (I_expression r b)" "runs_as le ins cie (I_val_expression r b)"
  by (auto simp: runs_as_def run_instr set_cfa_def cfa_is_def dest!: read_ub read_block [OF _ assms])

lemma instruction_runs:
  assumes "instr_fits i" and "length ins \<le> vector_max" and "\<not> cie_version cie < 3"
  shows "runs_as le ins cie i"
proof -
  have "length ins < 2 ^ 64" using assms(2) by (simp add: vector_max_numeral)
  note expr = runs_expression [OF this]
  show ?thesis
    using assms(1) runs_plain runs_low runs_advance [OF assms(2)] runs_register runs_cfa expr assms(3)
    by (cases i) auto
qed

end
