(* ===== verification/CfiTable.thy ===== *)
theory CfiTable
  imports CfiSpec
begin

section \<open>Call frame information: the row in force at a program counter\<close>

text \<open>
  The table that a stream of encoded instructions builds, and the row that the parser picks from
  it. When locations only ascend, that row is the state after all instructions up to the
  first one that moves beyond the program counter.
\<close>

subsection \<open>Abstract execution\<close>

fun run_instrs ::
  "CIE \<Rightarrow> u64 \<Rightarrow> u64 \<Rightarrow> UnwindRow \<Rightarrow> UnwindRow list \<Rightarrow> UnwindRow list \<Rightarrow> frame_instr list \<Rightarrow> UnwindRow \<times> UnwindRow list" where
  "run_instrs cie pb pe row st table [] = (row, table)"
| "run_instrs cie pb pe row st table (i # is) =
     (case meaning cie i (row, st) of (row', st') \<Rightarrow>
        run_instrs cie pb pe row' st' (record_row pb pe row' table) is)"

fun rules_at :: "CIE \<Rightarrow> u64 \<Rightarrow> UnwindRow \<Rightarrow> UnwindRow list \<Rightarrow> frame_instr list \<Rightarrow> UnwindRow" where
  "rules_at cie pc row st [] = row"
| "rules_at cie pc row st (i # is) =
     (case meaning cie i (row, st) of (row', st') \<Rightarrow>
        if pc < row_location row' then row else rules_at cie pc row' st' is)"

fun locations_ascend :: "CIE \<Rightarrow> UnwindRow \<Rightarrow> UnwindRow list \<Rightarrow> frame_instr list \<Rightarrow> bool" where
  "locations_ascend cie row st [] = True"
| "locations_ascend cie row st (i # is) =
     (case meaning cie i (row, st) of (row', st') \<Rightarrow>
        row_location row \<le> row_location row' \<and> locations_ascend cie row' st' is)"

subsection \<open>The code runs the abstract execution\<close>

lemma loop_end: "length ins \<le> off \<Longrightarrow> executeInstructions_loop le off ins row cie st pb pe table = (row, table)"
  by (subst executeInstructions_loop.simps) simp

lemma instr_bytes_nonempty: "instr_bytes le i \<noteq> []"
  by (cases i) auto

lemma loop_runs:
  assumes "length ins \<le> vector_max" and "\<not> cie_version cie < 3"
  shows "encoded_at ins off (concat (map (instr_bytes le) is)) \<Longrightarrow>
    length ins = off + length (concat (map (instr_bytes le) is)) \<Longrightarrow> list_all instr_fits is \<Longrightarrow>
    executeInstructions_loop le off ins row cie st pb pe table = run_instrs cie pb pe row st table is"
proof (induction "is" arbitrary: off row st table)
  case Nil
  then show ?case by (simp add: loop_end)
next
  case (Cons i "is")
  have at: "encoded_at ins off (instr_bytes le i)"
      "encoded_at ins (off + length (instr_bytes le i)) (concat (map (instr_bytes le) is))"
    using Cons.prems(1) by (simp_all add: encoded_at_append)
  have run: "executeInstruction le off ins row cie st = (off + length (instr_bytes le i), meaning cie i (row, st))"
    using instruction_runs [of i ins cie le] Cons.prems(3) assms at(1) by (simp add: runs_as_def)
  obtain row' st' where m: "meaning cie i (row, st) = (row', st')" by fastforce
  have "0 < length (instr_bytes le i)" using instr_bytes_nonempty by simp
  then show ?case
    using Cons.IH [OF at(2), of row' st' "record_row pb pe row' table"] Cons.prems(2,3) run m
    by (subst executeInstructions_loop.simps) simp
qed

lemma executeInstructions_encoded:
  assumes "length (concat (map (instr_bytes le) is)) \<le> vector_max" and "\<not> cie_version cie < 3"
    and "list_all instr_fits is"
  shows "executeInstructions le (concat (map (instr_bytes le) is)) row cie pb pe table
    = run_instrs cie pb pe row [] table is"
  unfolding executeInstructions_def
  by (rule loop_runs) (use assms in \<open>simp_all add: encoded_at_def\<close>)

subsection \<open>The table\<close>

lemma best_fold_after: "\<forall>u\<in>set us. pc < row_location u \<Longrightarrow> foldl (better_row pc) b us = b"
  by (induction us) (auto simp: better_row_def)

lemma best_fold_sorted:
  "sorted_wrt (<) (map row_location (b # rows)) \<Longrightarrow> \<forall>r\<in>set (b # rows). row_location r \<le> pc \<Longrightarrow>
     foldl (better_row pc) b rows = last (b # rows)"
  by (induction rows arbitrary: b) (auto simp: better_row_def)

lemma best_row_sorted:
  assumes "T \<noteq> []" and "sorted_wrt (<) (map row_location T)" and "\<forall>r\<in>set T. row_location r \<le> pc"
    and "\<forall>u\<in>set U. pc < row_location u"
  shows "best_row pc (T @ U) = last T"
proof (cases T)
  case (Cons b rows)
  have "better_row pc b b = b" by (simp add: better_row_def)
  then show ?thesis
    using assms best_fold_sorted [of b rows pc] best_fold_after [OF assms(4)] Cons
    by (simp add: best_row_def)
qed (use assms(1) in simp)

lemma record_after:
  assumes "\<forall>r\<in>set T. row_location r \<le> pc" and "\<forall>u\<in>set U. pc < row_location u" and "pc < row_location row"
  shows "\<exists>U'. record_row pb pe row (T @ U) = T @ U' \<and> (\<forall>u\<in>set U'. pc < row_location u)"
proof (cases "U = []")
  case True
  then have "\<not> (T @ U \<noteq> [] \<and> row_location (last (T @ U)) = row_location row)"
    using assms(1,3) by (metis append_Nil2 last_in_set leD)
  then show ?thesis using assms(2,3) True by (auto simp: record_row_def)
next
  case False
  then have "butlast (T @ U) = T @ butlast U" by (simp add: butlast_append)
  then show ?thesis
    using assms(2,3) by (auto simp: record_row_def dest: in_set_butlastD)
qed

lemma run_after:
  "\<forall>r\<in>set T. row_location r \<le> pc \<Longrightarrow> \<forall>u\<in>set U. pc < row_location u \<Longrightarrow> pc < row_location row \<Longrightarrow>
     locations_ascend cie row st is \<Longrightarrow>
     \<exists>U'. snd (run_instrs cie pb pe row st (T @ U) is) = T @ U' \<and> (\<forall>u\<in>set U'. pc < row_location u)"
proof (induction "is" arbitrary: row st U)
  case (Cons i "is")
  obtain row' st' where m: "meaning cie i (row, st) = (row', st')" by fastforce
  have later: "pc < row_location row'" "locations_ascend cie row' st' is"
    using Cons.prems(3,4) m by auto
  obtain U1 where U1: "record_row pb pe row' (T @ U) = T @ U1" "\<forall>u\<in>set U1. pc < row_location u"
    using record_after [OF Cons.prems(1,2) later(1)] by blast
  show ?case using Cons.IH [OF Cons.prems(1) U1(2) later] m U1(1) by simp
qed auto

text \<open>The table while the location has not passed the program counter.\<close>

definition in_step :: "u64 \<Rightarrow> u64 \<Rightarrow> UnwindRow \<Rightarrow> UnwindRow list \<Rightarrow> bool" where
  "in_step pb pc row table \<longleftrightarrow> table \<noteq> [] \<and> last table = row \<and> sorted_wrt (<) (map row_location table)
     \<and> pb \<le> row_location row \<and> row_location row \<le> pc"

lemma in_step_all: "in_step pb pc row table \<Longrightarrow> r \<in> set table \<Longrightarrow> row_location r \<le> pc"
proof -
  assume s: "in_step pb pc row table" and r: "r \<in> set table"
  then obtain T where T: "table = T @ [row]" by (metis append_butlast_last_id in_step_def)
  then show ?thesis using s r by (auto simp: in_step_def sorted_wrt_append)
qed

lemma in_step_record:
  assumes "in_step pb pc row table" and "row_location row \<le> row_location row'" and "row_location row' \<le> pc" and "pc < pe"
  shows "in_step pb pc row' (record_row pb pe row' table)"
proof -
  obtain T where T: "table = T @ [row]" using assms(1) by (metis append_butlast_last_id in_step_def)
  show ?thesis
    using assms unfolding T by (auto simp: in_step_def record_row_def sorted_wrt_append)
qed

lemma best_row_rules_at:
  assumes "pc < pe"
  shows "in_step pb pc row table \<Longrightarrow> locations_ascend cie row st is \<Longrightarrow>
    best_row pc (snd (run_instrs cie pb pe row st table is)) = rules_at cie pc row st is"
proof (induction "is" arbitrary: row st table)
  case Nil
  then show ?case
    using best_row_sorted [of table pc "[]"] in_step_all [OF Nil(1)] by (simp add: in_step_def)
next
  case (Cons i "is")
  obtain row' st' where m: "meaning cie i (row, st) = (row', st')" by fastforce
  have asc: "row_location row \<le> row_location row'" "locations_ascend cie row' st' is"
    using Cons.prems(2) m by auto
  show ?case
  proof (cases "pc < row_location row'")
    case True
    have all: "\<forall>r\<in>set table. row_location r \<le> pc" using in_step_all [OF Cons.prems(1)] by blast
    obtain U where U: "record_row pb pe row' table = table @ U" "\<forall>u\<in>set U. pc < row_location u"
      using record_after [OF all _ True, of "[]" pb pe] by auto
    obtain U' where U': "snd (run_instrs cie pb pe row' st' (table @ U) is) = table @ U'" "\<forall>u\<in>set U'. pc < row_location u"
      using run_after [OF all U(2) True asc(2)] by blast
    show ?thesis
      using best_row_sorted [OF _ _ all U'(2)] Cons.prems(1) m True U(1) U'(1) by (simp add: in_step_def)
  next
    case False
    then show ?thesis
      using Cons.IH [OF in_step_record [OF Cons.prems(1) asc(1) _ assms] asc(2)] m by simp
  qed
qed

subsection \<open>The answer for a program counter\<close>

text \<open>
  Where the frame description entry found for a program counter holds encoded instructions whose
  locations ascend, the unwind information is the state in force there: the row after all
  instructions up to the first one that moves beyond the program counter.
\<close>

lemma unwind_info_rules_at:
  assumes "findFDE pc p = Some f" and "fde_instructions f = concat (map (instr_bytes le) is)"
    and "list_all instr_fits is" and "length (fde_instructions f) \<le> vector_max" and "3 \<le> cie_version (fde_cie f)"
    and "locations_ascend (fde_cie f) ((initial_row (fde_cie f))\<lparr>row_location := initial_location f\<rparr>) [] is"
  shows "getUnwindInfo le pc p =
    (let row = rules_at (fde_cie f) pc ((initial_row (fde_cie f))\<lparr>row_location := initial_location f\<rparr>) [] is
     in \<lparr>info_valid = True, info_pc = pc, info_address_size = cie_address_size (fde_cie f),
         info_cfa = row_cfa row, info_registers = row_registers row,
         info_return_register = cie_return_register (fde_cie f), info_ra_sign = row_ra_sign row\<rparr>)"
proof -
  let ?row = "(initial_row (fde_cie f))\<lparr>row_location := initial_location f\<rparr>"
  have range: "initial_location f \<le> pc" "pc < initial_location f + fde_range f"
    using find_fde_in assms(1) unfolding findFDE_def by blast+
  have "fde_table le f = snd (run_instrs (fde_cie f) (initial_location f) (initial_location f + fde_range f) ?row [] [?row] is)"
    using executeInstructions_encoded [of le "is" "fde_cie f"] assms(2-5)
    by (simp add: fde_table_def not_less Let_def)
  then have "best_row pc (fde_table le f) = rules_at (fde_cie f) pc ?row [] is"
    using best_row_rules_at [OF range(2), of "initial_location f" ?row "[?row]"] range(1) assms(6)
    by (simp add: in_step_def)
  then show ?thesis using assms(1) by (simp add: getUnwindInfo_def Let_def)
qed

end
