(* ===== verification/CfiUnwind.thy ===== *)
theory CfiUnwind
  imports CfiTable EvalCompile
begin

section \<open>Call frame information: recovering the frame and the registers\<close>

text \<open>
  \<open>UnwindInfo::computeCFA\<close> and \<open>UnwindInfo::getRegisterValue\<close>. Expressions are run by the evaluator
  on a memory context that reads whole words; the first option of a result is the fuel of the
  evaluator. The function object that reads a word is not empty.
\<close>

subsection \<open>The memory context\<close>

definition encodeU64ToBuf :: "u64 \<Rightarrow> nat \<Rightarrow> bool \<Rightarrow> bytes" where
  "encodeU64ToBuf v n little_endian =
     (if n = 0 then []
      else if little_endian then map (\<lambda>i. ucast (drop_bit (i * 8) v AND 0xff)) [0..<n]
      else map (\<lambda>i. ucast (drop_bit ((n - 1 - i) * 8) v AND 0xff)) [0..<n])"

text \<open>The buffer of a read of no bytes is the null pointer, and such a read fails.\<close>

definition WordReadMemoryContext :: "(u64 \<Rightarrow> u64) \<Rightarrow> bool \<Rightarrow> memory_context" where
  "WordReadMemoryContext read_word object_little a n =
     (if n = 0 then None
      else
        let word = read_word a; k = (if n < 8 then n else 8)
        in Some (encodeU64ToBuf word k object_little))"

interpretation word_memory: reading_memory "WordReadMemoryContext rd le" 8 for rd le
  by unfold_locales (auto simp: WordReadMemoryContext_def encodeU64ToBuf_def Let_def split: if_splits)

lemma encodeU64ToBuf_bytes: "encodeU64ToBuf v n le = encodeU64ToBytes v n le"
  by (simp add: encodeU64ToBuf_def encodeU64ToBytes_def)

subsection \<open>Expressions\<close>

definition unwind_context :: "u64 \<Rightarrow> u8 \<Rightarrow> u64 list \<Rightarrow> EvaluationContext" where
  "unwind_context cfa_value asz regs =
     default_context\<lparr>cfa := cfa_value, ctx_address_size := asz, entry_registers := regs\<rparr>"

definition evalDwarfExprU64 ::
  "nat \<Rightarrow> bool \<Rightarrow> bytes \<Rightarrow> u64 list \<Rightarrow> u64 \<Rightarrow> u8 \<Rightarrow> (u64 \<Rightarrow> u64) \<Rightarrow> u64 option option" where
  "evalDwarfExprU64 fuel le expr regs cfa_value asz rd =
     (if expr = [] then Some None
      else
        map_option (\<lambda>(r, s). if res_type r = RT_INVALID then None else Some (res_value r))
          (evaluate fuel expr (unwind_context cfa_value asz regs) 0 regs
            (new_evaluator le (WordReadMemoryContext rd le))))"

subsection \<open>The canonical frame address\<close>

definition computeCFA_registers :: "UnwindInfo \<Rightarrow> u64 list \<Rightarrow> u64" where
  "computeCFA_registers info regs =
     (if cfa_type (info_cfa info) = CFA_REGISTER_OFFSET then
        if unat (cfa_reg (info_cfa info)) < length regs
        then regs ! unat (cfa_reg (info_cfa info)) + cfa_offset (info_cfa info) else 0
      else 0)"

definition computeCFA :: "nat \<Rightarrow> bool \<Rightarrow> UnwindInfo \<Rightarrow> u64 list \<Rightarrow> (u64 \<Rightarrow> u64) \<Rightarrow> u64 option" where
  "computeCFA fuel le info regs rd =
     (case cfa_type (info_cfa info) of
        CFA_REGISTER_OFFSET \<Rightarrow>
          Some (if unat (cfa_reg (info_cfa info)) < length regs
                then regs ! unat (cfa_reg (info_cfa info)) + cfa_offset (info_cfa info) else 0)
      | CFA_EXPRESSION \<Rightarrow>
          map_option (\<lambda>v. case v of Some x \<Rightarrow> x | None \<Rightarrow> 0)
            (evalDwarfExprU64 fuel le (cfa_expression (info_cfa info)) regs 0 (info_address_size info) rd))"

subsection \<open>Registers\<close>

definition stripAArch64PAC :: "u64 list \<Rightarrow> u64 \<Rightarrow> u64" where
  "stripAArch64PAC regs v =
     (if 36 < length regs \<and> regs ! 36 \<noteq> 0 then v AND NOT (regs ! 36) else v AND 0x00ffffffffffffff)"

definition rule_value ::
  "nat \<Rightarrow> bool \<Rightarrow> UnwindInfo \<Rightarrow> u64 \<Rightarrow> RegisterRule \<Rightarrow> u64 list \<Rightarrow> u64 \<Rightarrow> (u64 \<Rightarrow> u64) \<Rightarrow> u64 option option" where
  "rule_value fuel le info reg rule regs cfa_value rd =
     (case rule_type rule of
        RR_UNDEFINED \<Rightarrow> Some None
      | RR_SAME_VALUE \<Rightarrow> Some (if unat reg < length regs then Some (regs ! unat reg) else None)
      | RR_OFFSET \<Rightarrow> Some (Some (rd (cfa_value + rule_offset rule)))
      | RR_VAL_OFFSET \<Rightarrow> Some (Some (cfa_value + rule_offset rule))
      | RR_REGISTER \<Rightarrow>
          Some (if unat (rule_reg rule) < length regs then Some (regs ! unat (rule_reg rule)) else None)
      | RR_EXPRESSION \<Rightarrow>
          map_option (map_option rd)
            (evalDwarfExprU64 fuel le (rule_expression rule) regs cfa_value (info_address_size info) rd)
      | RR_VAL_EXPRESSION \<Rightarrow>
          evalDwarfExprU64 fuel le (rule_expression rule) regs cfa_value (info_address_size info) rd
      | RR_ARCHITECTURAL \<Rightarrow> Some None)"

definition getRegisterValue ::
  "nat \<Rightarrow> bool \<Rightarrow> UnwindInfo \<Rightarrow> u64 \<Rightarrow> u64 list \<Rightarrow> u64 \<Rightarrow> (u64 \<Rightarrow> u64) \<Rightarrow> u64 option option" where
  "getRegisterValue fuel le info reg regs cfa_value rd =
     (case info_registers info reg of
        None \<Rightarrow> Some None
      | Some rule \<Rightarrow>
          map_option (\<lambda>out. case out of
              None \<Rightarrow> None
            | Some v \<Rightarrow> Some (if reg = info_return_register info \<and> info_ra_sign info \<noteq> 0
                              then stripAArch64PAC regs v else v))
            (rule_value fuel le info reg rule regs cfa_value rd))"

subsection \<open>Expression rules compute what their source means\<close>

lemma compile_nonempty: "compile le a \<noteq> []"
  by (induction a) auto

lemma evaluate_address:
  assumes "in_range a" and "length (compile (object_le s) a) < 2 ^ 15"
  shows "\<exists>r s'. evaluate fuel (compile (object_le s) a) c pc regs s = Some (r, s')
    \<and> res_type r = RT_ADDRESS \<and> res_value r = source_sem c regs a"
proof -
  let ?e = "compile (object_le s) a" and ?s0 = "start_state c pc regs s"
  have "encoded_at ?e 0 ?e" by (simp add: encoded_at_def)
  moreover have "length ?e \<le> vector_max" using assms(2) by (simp add: vector_max_numeral)
  ultimately obtain k where k: "k \<le> length ?e"
      "runs (nested fuel) ?e 0 ?s0 (length ?e) (push (source_sem c regs a) ?s0) k"
    using compile_computes [of ?e 0 ?s0 a "nested fuel"] assms by (auto elim: computes_runs)
  have "k \<le> max_steps ?e" using max_steps_enough [of ?e] k(1) assms(2) by simp
  from runs_finish [OF k(2) order_refl this] show ?thesis
    by (simp add: evaluate_def evaluate_with_def loop_result_def final_result_def top_value_def
        with_taint_note_def expression_result_def push_def Let_def)
qed

lemma evalDwarfExprU64_compile:
  assumes "in_range a" and "length (compile le a) < 2 ^ 15"
  shows "evalDwarfExprU64 fuel le (compile le a) regs v asz rd = Some (Some (source_sem (unwind_context v asz regs) regs a))"
proof -
  obtain r s' where "evaluate fuel (compile le a) (unwind_context v asz regs) 0 regs
      (new_evaluator le (WordReadMemoryContext rd le)) = Some (r, s')"
    and "res_type r = RT_ADDRESS" and "res_value r = source_sem (unwind_context v asz regs) regs a"
    using evaluate_address [of a "new_evaluator le (WordReadMemoryContext rd le)" fuel "unwind_context v asz regs" 0 regs] assms
    by (auto simp: new_evaluator_def)
  then show ?thesis using compile_nonempty [of le a] by (simp add: evalDwarfExprU64_def)
qed

text \<open>
  C32: rules given by an expression are computed as the expression means: the frame address of
  an expression definition, the address read for an expression rule, and the value of a value
  expression rule (the return-address signature aside), for every compiled source expression.
\<close>

theorem unwind_expressions:
  assumes "in_range a" and "length (compile le a) < 2 ^ 15" and "info_ra_sign info = 0"
  shows "(cfa_type (info_cfa info) = CFA_EXPRESSION \<and> cfa_expression (info_cfa info) = compile le a \<longrightarrow>
       computeCFA fuel le info regs rd = Some (source_sem (unwind_context 0 (info_address_size info) regs) regs a))
     \<and> (info_registers info reg = Some ((new_rule RR_EXPRESSION)\<lparr>rule_expression := compile le a\<rparr>) \<longrightarrow>
       getRegisterValue fuel le info reg regs v rd =
         Some (Some (rd (source_sem (unwind_context v (info_address_size info) regs) regs a))))
     \<and> (info_registers info reg = Some ((new_rule RR_VAL_EXPRESSION)\<lparr>rule_expression := compile le a\<rparr>) \<longrightarrow>
       getRegisterValue fuel le info reg regs v rd =
         Some (Some (source_sem (unwind_context v (info_address_size info) regs) regs a)))"
  using assms(3)
  by (auto simp: computeCFA_def getRegisterValue_def rule_value_def new_rule_def
      evalDwarfExprU64_compile [OF assms(1,2)])

theorem unwind_expressions_witness:
  "computeCFA 0 True ((new_info 0)\<lparr>info_cfa := new_cfa\<lparr>cfa_type := CFA_EXPRESSION, cfa_expression := [0x70, 0x10]\<rparr>\<rparr>)
     [0x7000] (\<lambda>a. 0) = Some 0x7010"
proof -
  have code: "compile True (RegRel 0 16) = [0x70, 0x10]" by (simp add: sleb_encode.simps)
  show ?thesis
    using unwind_expressions [of "RegRel 0 16" True
        "(new_info 0)\<lparr>info_cfa := new_cfa\<lparr>cfa_type := CFA_EXPRESSION, cfa_expression := [0x70, 0x10]\<rparr>\<rparr>"
        0 "[0x7000]" "\<lambda>a. 0"]
    unfolding code by (simp add: new_info_def)
qed

end
