(* ===== verification/CfiParse.thy ===== *)
theory CfiParse
  imports CfiExec
begin

section \<open>Call frame information: parsing a section\<close>

text \<open>
  \<open>CFIParser::parse\<close>, \<open>parseCIE\<close>, \<open>parseFDE\<close> and the pointer decoder. The loop over the entries of
  a section takes fuel, because a wrapped entry length makes it run for ever; \<open>None\<close> means that
  the fuel did not suffice.
\<close>

subsection \<open>Encoded pointers\<close>

definition pointer_size :: "cfi_parser \<Rightarrow> nat" where
  "pointer_size p = (if parser_address_size p = 8 then 8 else 4)"

text \<open>A value of fixed width: \<open>None\<close>, with the offset at the end, when it does not fit.\<close>

definition fixed_pointer ::
  "nat \<Rightarrow> (bytes \<Rightarrow> nat \<Rightarrow> nat \<Rightarrow> ('v \<times> nat) outcome) \<Rightarrow> ('v \<Rightarrow> u64) \<Rightarrow> bytes \<Rightarrow> nat \<Rightarrow> nat \<Rightarrow>
     (u64 option \<times> nat) outcome" where
  "fixed_pointer n rd conv d off mx =
     (if off + n \<le> mx then obind (rd d off mx) (\<lambda>(v, off'). Ret (Some (conv v), off'))
      else Ret (None, mx))"

definition leb_pointer :: "(u64 \<times> nat) option \<Rightarrow> nat \<Rightarrow> (u64 option \<times> nat) outcome" where
  "leb_pointer r mx = (case r of None \<Rightarrow> Ret (None, mx) | Some (v, off') \<Rightarrow> Ret (Some v, off'))"

definition pointer_value :: "bool \<Rightarrow> cfi_parser \<Rightarrow> u8 \<Rightarrow> nat \<Rightarrow> nat \<Rightarrow> (u64 option \<times> nat) outcome" where
  "pointer_value le p fmt off mx =
     (let d = cfi_section p in
      if fmt = 0x00 then
        (if parser_address_size p = 8 then fixed_pointer 8 (readU64 le) id d off mx
         else fixed_pointer 4 (readU32 le) ucast d off mx)
      else if fmt = 0x01 then
        (if mx \<le> off then Ret (None, mx) else leb_pointer (readBoundedULEB d off mx) mx)
      else if fmt = 0x02 then fixed_pointer 2 (readU16 le) ucast d off mx
      else if fmt = 0x03 then fixed_pointer 4 (readU32 le) ucast d off mx
      else if fmt = 0x04 then fixed_pointer 8 (readU64 le) id d off mx
      else if fmt = 0x09 then
        (if mx \<le> off then Ret (None, mx) else leb_pointer (readBoundedSLEB d off mx) mx)
      else if fmt = 0x0a then fixed_pointer 2 (readU16 le) scast d off mx
      else if fmt = 0x0b then fixed_pointer 4 (readU32 le) scast d off mx
      else if fmt = 0x0c then fixed_pointer 8 (readU64 le) id d off mx
      else Ret (None, mx))"

definition pointer_base :: "cfi_parser \<Rightarrow> u8 \<Rightarrow> u64 \<Rightarrow> u64" where
  "pointer_base p app pc_rel_base =
     (if app = 0x10 then pc_rel_base else if app = 0x30 then section_base p else 0)"

text \<open>The value, \<open>*decoded_ok\<close>, and the offset behind.\<close>

definition decodePointerBounded ::
  "bool \<Rightarrow> cfi_parser \<Rightarrow> nat \<Rightarrow> nat \<Rightarrow> u8 \<Rightarrow> u64 \<Rightarrow> (u64 \<times> bool \<times> nat) outcome" where
  "decodePointerBounded le p off mx encoding pc_rel_base =
     (if encoding = 0xff then Ret (0, True, off)
      else
        let app = encoding AND 0x70; align = pointer_size p; mis = off mod align; pad = align - mis
        in if app = 0x50 \<and> mis \<noteq> 0 \<and> mx < off + pad then Ret (0, False, mx)
           else
             let off = (if app = 0x50 \<and> mis \<noteq> 0 then off + pad else off)
             in obind (pointer_value le p (encoding AND 0x0f) off mx) (\<lambda>(v, off').
                  case v of
                    None \<Rightarrow> Ret (0, False, off')
                  | Some value \<Rightarrow> Ret (pointer_base p app pc_rel_base + value, True, off')))"

definition readBlock :: "cfi_parser \<Rightarrow> nat \<Rightarrow> nat \<Rightarrow> bytes" where
  "readBlock p off sz = take sz (drop off (cfi_section p))"

subsection \<open>Common information entries\<close>

function read_augmentation :: "bytes \<Rightarrow> nat \<Rightarrow> nat \<Rightarrow> string \<Rightarrow> (string \<times> nat) option" where
  "read_augmentation d pos mx acc =
     (if pos < mx then
        (case readBoundedU8 d pos mx of
           None \<Rightarrow> None
         | Some (c, pos') \<Rightarrow>
             if c = 0 then Some (acc, Suc pos)
             else read_augmentation d (Suc pos) mx (acc @ [char_of (unat c)]))
      else None)"
  by pat_completeness auto
termination
  by (relation "measure (\<lambda>(d, pos, mx, acc). mx - pos)") auto

declare read_augmentation.simps [simp del]

text \<open>The fields of a CIE up to the return-address register.\<close>

definition cie_sizes :: "cfi_parser \<Rightarrow> nat \<Rightarrow> nat \<Rightarrow> CIE \<Rightarrow> (CIE \<times> nat) option" where
  "cie_sizes p pos mx cie =
     (if 4 \<le> cie_version cie then
        (case readBoundedU8 (cfi_section p) pos mx of
           None \<Rightarrow> None
         | Some (asz, pos) \<Rightarrow>
             (case readBoundedU8 (cfi_section p) pos mx of
                None \<Rightarrow> None
              | Some (seg, pos) \<Rightarrow> Some (cie\<lparr>cie_address_size := asz, cie_segment_size := seg\<rparr>, pos)))
      else Some (cie\<lparr>cie_address_size := parser_address_size p, cie_segment_size := 0\<rparr>, pos))"

definition cie_return :: "cfi_parser \<Rightarrow> nat \<Rightarrow> nat \<Rightarrow> CIE \<Rightarrow> (CIE \<times> nat) option" where
  "cie_return p pos mx cie =
     (if cie_version cie = 1 then
        (case readBoundedU8 (cfi_section p) pos mx of
           None \<Rightarrow> None
         | Some (ra, pos) \<Rightarrow> Some (cie\<lparr>cie_return_register := ucast ra\<rparr>, pos))
      else
        (case readBoundedULEB (cfi_section p) pos mx of
           None \<Rightarrow> None
         | Some (ra, pos) \<Rightarrow> Some (cie\<lparr>cie_return_register := ra\<rparr>, pos)))"

definition cie_fields :: "cfi_parser \<Rightarrow> nat \<Rightarrow> nat \<Rightarrow> CIE \<Rightarrow> (CIE \<times> nat) option" where
  "cie_fields p pos mx cie =
     (let d = cfi_section p in
      case readBoundedU8 d pos mx of
        None \<Rightarrow> None
      | Some (version, pos) \<Rightarrow>
     (case read_augmentation d pos mx [] of
        None \<Rightarrow> None
      | Some (aug, pos) \<Rightarrow>
     (case cie_sizes p pos mx (cie\<lparr>cie_version := version, cie_augmentation := aug\<rparr>) of
        None \<Rightarrow> None
      | Some (cie, pos) \<Rightarrow>
     (case readBoundedULEB d pos mx of
        None \<Rightarrow> None
      | Some (code_align, pos) \<Rightarrow>
     (case readBoundedSLEB d pos mx of
        None \<Rightarrow> None
      | Some (data_align, pos) \<Rightarrow>
          cie_return p pos mx (cie\<lparr>code_alignment := code_align, data_alignment := data_align\<rparr>))))))"

text \<open>The loop over the letters of the augmentation behind the \<open>z\<close>.\<close>

fun augmentation_loop :: "bool \<Rightarrow> cfi_parser \<Rightarrow> nat \<Rightarrow> string \<Rightarrow> nat \<Rightarrow> CIE \<Rightarrow> CIE outcome" where
  "augmentation_loop le p aug_end [] pos cie = Ret cie"
| "augmentation_loop le p aug_end (c # cs) pos cie =
     (let d = cfi_section p in
      if pos < aug_end then
        if c = CHR ''L'' then
          (if pos < length d
           then augmentation_loop le p aug_end cs (Suc pos) (cie\<lparr>lsda_pointer_encoding := d ! pos\<rparr>)
           else augmentation_loop le p aug_end cs pos cie)
        else if c = CHR ''P'' then
          (if pos < length d then
             let cie = cie\<lparr>personality_encoding := d ! pos\<rparr>; pos = Suc pos
             in obind (decodePointerBounded le p pos aug_end (personality_encoding cie)
                         (section_base p + word_of_nat pos)) (\<lambda>(v, ok, pos).
                  augmentation_loop le p aug_end cs pos (cie\<lparr>personality_routine := v\<rparr>))
           else augmentation_loop le p aug_end cs pos cie)
        else if c = CHR ''R'' then
          (if pos < length d
           then augmentation_loop le p aug_end cs (Suc pos) (cie\<lparr>fde_pointer_encoding := d ! pos\<rparr>)
           else augmentation_loop le p aug_end cs pos cie)
        else if c = CHR ''S'' then augmentation_loop le p aug_end cs pos (cie\<lparr>signal_frame := True\<rparr>)
        else augmentation_loop le p aug_end cs pos cie
      else Ret cie)"

text \<open>
  \<open>aug_end = pos + aug_length\<close>, clamped to the end of the entry; the sum wraps around.
\<close>

definition augmentation_end :: "nat \<Rightarrow> u64 \<Rightarrow> nat \<Rightarrow> nat" where
  "augmentation_end pos aug_length mx =
     (let aug_end = u64_add pos (unat aug_length) in if mx < aug_end then mx else aug_end)"

text \<open>The CIE with its augmentation data, and the position of the initial instructions.\<close>

definition cie_augmentation_data :: "bool \<Rightarrow> cfi_parser \<Rightarrow> nat \<Rightarrow> nat \<Rightarrow> CIE \<Rightarrow> (CIE \<times> nat) option outcome" where
  "cie_augmentation_data le p pos mx cie =
     (case cie_augmentation cie of
        [] \<Rightarrow> Ret (Some (cie, pos))
      | c # cs \<Rightarrow>
          if c = CHR ''z'' then
            (case readBoundedULEB (cfi_section p) pos mx of
               None \<Rightarrow> Ret None
             | Some (aug_length, pos) \<Rightarrow>
                 let aug_end = augmentation_end pos aug_length mx
                 in obind (augmentation_loop le p aug_end cs pos (cie\<lparr>has_augmentation_data := True\<rparr>)) (\<lambda>cie.
                      Ret (Some (cie, aug_end))))
          else Ret (Some (cie, pos)))"

text \<open>
  The initial instructions run on the row of the CIE itself: \<open>row\<close> and \<open>cie.initial_row\<close> are the
  same object, so that a restore instruction finds the current rule as the initial one.
\<close>

function initial_loop :: "bool \<Rightarrow> nat \<Rightarrow> bytes \<Rightarrow> CIE \<Rightarrow> UnwindRow list \<Rightarrow> CIE" where
  "initial_loop le off ins cie st =
     (if length ins \<le> off then cie
      else
        case executeInstruction le off ins (initial_row cie) cie st of (off', row', st') \<Rightarrow>
          if off' \<le> off then cie\<lparr>initial_row := row'\<rparr>
          else initial_loop le off' ins (cie\<lparr>initial_row := row'\<rparr>) st')"
  by pat_completeness auto
termination
  by (relation "measure (\<lambda>(le, off, ins, cie, st). length ins - off)") auto

declare initial_loop.simps [simp del]

definition header_size :: "bool \<Rightarrow> nat" where
  "header_size is_64bit = (if is_64bit then 12 else 4)"

definition id_size :: "bool \<Rightarrow> nat" where
  "id_size is_64bit = (if is_64bit then 8 else 4)"

definition add_cie :: "CIE \<Rightarrow> cfi_parser \<Rightarrow> cfi_parser" where
  "add_cie cie p = p\<lparr>cies := cies p @ [cie], cie_map := (cie_map p)(cie_offset cie \<mapsto> cie)\<rparr>"

text \<open>\<open>parseCIE\<close>: the parser is unchanged when it returns false.\<close>

definition parseCIE :: "bool \<Rightarrow> cfi_parser \<Rightarrow> nat \<Rightarrow> nat \<Rightarrow> bool \<Rightarrow> (bool \<times> cfi_parser) outcome" where
  "parseCIE le p offset len is_64bit =
     (let pos = offset + header_size is_64bit + id_size is_64bit;
          end_pos = u64_add (offset + header_size is_64bit) len
      in case cie_fields p pos end_pos (new_cie offset len) of
           None \<Rightarrow> Ret (False, p)
         | Some (cie, pos) \<Rightarrow>
             obind (cie_augmentation_data le p pos end_pos cie) (\<lambda>r.
               case r of
                 None \<Rightarrow> Ret (False, p)
               | Some (cie, pos) \<Rightarrow>
                   let cie = (if pos < end_pos
                              then cie\<lparr>initial_instructions := readBlock p pos (end_pos - pos)\<rparr> else cie);
                       cie = initial_loop le 0 (initial_instructions cie) (cie\<lparr>initial_row := new_row\<rparr>) []
                   in Ret (True, add_cie cie p)))"

subsection \<open>Frame description entries\<close>

text \<open>The position behind the augmentation data and the LSDA pointer; \<open>None\<close> when the length is cut off.\<close>

definition fde_augmentation_data :: "bool \<Rightarrow> cfi_parser \<Rightarrow> nat \<Rightarrow> nat \<Rightarrow> CIE \<Rightarrow> (u64 \<times> nat) option outcome" where
  "fde_augmentation_data le p pos mx cie =
     (if has_augmentation_data cie then
        (case readBoundedULEB (cfi_section p) pos mx of
           None \<Rightarrow> Ret None
         | Some (aug_length, pos) \<Rightarrow>
             let aug_end = augmentation_end pos aug_length mx
             in if lsda_pointer_encoding cie \<noteq> 0xff \<and> CHR ''L'' \<in> set (cie_augmentation cie)
                then obind (decodePointerBounded le p pos aug_end (lsda_pointer_encoding cie)
                              (section_base p + word_of_nat pos)) (\<lambda>(v, ok, pos'). Ret (Some (v, aug_end)))
                else Ret (Some (0, aug_end)))
      else Ret (Some (0, pos)))"

definition fde_pointer_format :: "cfi_parser \<Rightarrow> CIE \<Rightarrow> u8" where
  "fde_pointer_format p cie =
     (if fde_pointer_encoding cie = 0 then (if parser_address_size p = 8 then 0x04 else 0x03)
      else fde_pointer_encoding cie)"

definition parseFDE :: "bool \<Rightarrow> cfi_parser \<Rightarrow> nat \<Rightarrow> nat \<Rightarrow> nat \<Rightarrow> bool \<Rightarrow> (bool \<times> cfi_parser) outcome" where
  "parseFDE le p offset len cie_pointer is_64bit =
     (case cie_map p cie_pointer of
        None \<Rightarrow> Ret (False, p)
      | Some cie \<Rightarrow>
          let pos = offset + header_size is_64bit + id_size is_64bit;
              end_pos = u64_add (offset + header_size is_64bit) len;
              enc = fde_pointer_format p cie
          in obind (decodePointerBounded le p pos end_pos enc (section_base p + word_of_nat pos)) (\<lambda>(start, ok, pos).
               if \<not> ok then Ret (False, p)
               else obind (decodePointerBounded le p pos end_pos (enc AND 0x0f) (section_base p + word_of_nat pos))
                 (\<lambda>(range, ok, pos).
                   if \<not> ok then Ret (False, p)
                   else obind (fde_augmentation_data le p pos end_pos cie) (\<lambda>r.
                     case r of
                       None \<Rightarrow> Ret (False, p)
                     | Some (lsda, pos) \<Rightarrow>
                         Ret (True, p\<lparr>fdes := fdes p @ [
                           \<lparr>fde_offset = offset, fde_length = len, fde_cie_pointer = cie_pointer,
                            initial_location = start, fde_range = range,
                            fde_instructions = (if pos < end_pos then readBlock p pos (end_pos - pos) else []),
                            lsda_pointer = lsda, fde_cie = cie\<rparr>]\<rparr>)))))"

subsection \<open>The section\<close>

definition is_cie_id :: "cfi_parser \<Rightarrow> bool \<Rightarrow> u64 \<Rightarrow> bool" where
  "is_cie_id p is_64bit ident =
     (if is_eh_frame p then ident = 0
      else if is_64bit then ident = 0xffffffffffffffff else ident = 0xffffffff)"

definition cie_pointer_of :: "cfi_parser \<Rightarrow> bool \<Rightarrow> nat \<Rightarrow> u64 \<Rightarrow> nat" where
  "cie_pointer_of p is_64bit off ident =
     (if is_eh_frame p then u64_sub (u64_sub off (id_size is_64bit)) (unat ident) else unat ident)"

text \<open>
  One round of the loop: the next offset and parser, or \<open>None\<close> for \<open>break\<close>.
\<close>

definition read_word :: "bool \<Rightarrow> cfi_parser \<Rightarrow> bool \<Rightarrow> nat \<Rightarrow> (u64 \<times> nat) outcome" where
  "read_word le p wide off =
     (let d = cfi_section p in
      if wide then readU64 le d off (length d)
      else obind (readU32 le d off (length d)) (\<lambda>(v, off'). Ret (ucast v, off')))"

definition parse_entry :: "bool \<Rightarrow> cfi_parser \<Rightarrow> nat \<Rightarrow> (nat \<times> cfi_parser) option outcome" where
  "parse_entry le p entry_start =
     (let d = cfi_section p in
      obind (readU32 le d entry_start (length d)) (\<lambda>(length32, off).
        if length32 = 0 then Ret None
        else
          let is_64bit = (length32 = 0xffffffff)
          in obind (if is_64bit then readU64 le d off (length d) else Ret (ucast length32, off)) (\<lambda>(len, off).
               let entry_end = u64_add off (unat len)
               in if len = 0 then Ret None
                  else if length d < entry_end then Ret None
                  else obind (read_word le p is_64bit off) (\<lambda>(ident, off).
                    obind (if is_cie_id p is_64bit ident
                           then parseCIE le p entry_start (unat len) is_64bit
                           else parseFDE le p entry_start (unat len) (cie_pointer_of p is_64bit off ident) is_64bit)
                      (\<lambda>(ok, p'). Ret (Some (entry_end, p')))))))"

fun parse_loop :: "bool \<Rightarrow> nat \<Rightarrow> cfi_parser \<Rightarrow> nat \<Rightarrow> cfi_parser outcome option" where
  "parse_loop le 0 p off = (if off < length (cfi_section p) then None else Some (Ret p))"
| "parse_loop le (Suc fuel) p off =
     (if off < length (cfi_section p) then
        (case parse_entry le p off of
           Ret None \<Rightarrow> Some (Ret p)
         | Ret (Some (off', p')) \<Rightarrow> parse_loop le fuel p' off'
         | Throw x \<Rightarrow> Some (Throw x)
         | Undef u \<Rightarrow> Some (Undef u))
      else Some (Ret p))"

definition parse :: "bool \<Rightarrow> nat \<Rightarrow> cfi_parser \<Rightarrow> (bool \<times> cfi_parser) outcome option" where
  "parse le fuel p =
     (if cfi_section p = [] then Some (Ret (False, p))
      else map_option (\<lambda>r. obind r (\<lambda>p'. Ret (cies p' \<noteq> [], p'))) (parse_loop le fuel p 0))"

end
