(* ===== verification/CfiParseProps.thy ===== *)
theory CfiParseProps
  imports CfiParse
begin

section \<open>Call frame information: properties of the parser\<close>

text \<open>
  The parser reads only bytes of its section, the frame description entries it collects refer to
  common information entries it has collected, and it returns on every section whose 64-bit
  entry lengths do not wrap around; on others it can loop for ever.
\<close>

subsection \<open>Pointers stay inside\<close>

definition inside :: "cfi_parser \<Rightarrow> nat \<Rightarrow> bool" where
  "inside p mx \<longleftrightarrow> mx \<le> length (cfi_section p) \<and> length (cfi_section p) \<le> vector_max"

lemma inside_bounds: "inside p mx \<Longrightarrow> mx \<le> vector_max \<and> mx \<le> length (cfi_section p)"
  by (simp add: inside_def)

lemma fixed_pointer_safe:
  assumes "\<And>off. off \<le> mx \<Longrightarrow> mem_safe (rd d off mx)"
  shows "mem_safe (fixed_pointer n rd conv d off mx)"
  using assms [of off] by (auto simp: fixed_pointer_def intro!: mem_safe_obind)

lemma leb_pointer_safe [simp]: "mem_safe (leb_pointer r mx)"
  by (simp add: leb_pointer_def split: option.split)

lemma pointer_value_safe: 
  assumes "inside p mx"
  shows "mem_safe (pointer_value le p fmt off mx)"
proof -
  have rd: "mem_safe (readU16 le (cfi_section p) off mx)" "mem_safe (readU32 le (cfi_section p) off mx)"
    "mem_safe (readU64 le (cfi_section p) off mx)" if "off \<le> mx" for off
    using inside_bounds [OF assms] that
    by (simp_all add: u16_reader.rd_safe u32_reader.rd_safe u64_reader.rd_safe)
  have "mem_safe (fixed_pointer n (readU16 le) c2 (cfi_section p) off mx)"
    "mem_safe (fixed_pointer n (readU32 le) c4 (cfi_section p) off mx)"
    "mem_safe (fixed_pointer n (readU64 le) c8 (cfi_section p) off mx)" for n off c2 c4 c8
    by (rule fixed_pointer_safe, erule rd)+
  then show ?thesis by (simp add: pointer_value_def Let_def)
qed

lemma decodePointer_safe: "inside p mx \<Longrightarrow> mem_safe (decodePointerBounded le p off mx enc base)"
  unfolding decodePointerBounded_def Let_def
  by (intro mem_safe_if mem_safe_obind pointer_value_safe) (auto split: option.split)

lemma augmentation_end_le: "augmentation_end pos n mx \<le> mx"
  by (simp add: augmentation_end_def Let_def)

lemma inside_mono: "inside p mx \<Longrightarrow> m \<le> mx \<Longrightarrow> inside p m"
  by (simp add: inside_def)

lemma augmentation_loop_safe: "inside p aug_end \<Longrightarrow> mem_safe (augmentation_loop le p aug_end cs pos cie)"
proof (induction cs arbitrary: pos cie)
  case (Cons c cs)
  have "mem_safe (obind (decodePointerBounded le p pos' aug_end enc base)
      (\<lambda>(v, ok, pos). augmentation_loop le p aug_end cs pos (cie'\<lparr>personality_routine := v\<rparr>)))" for pos' enc base cie'
    by (rule mem_safe_obind [OF decodePointer_safe [OF Cons.prems]]) (auto intro: Cons)
  then show ?case by (simp add: Let_def Cons)
qed simp

lemma cie_augmentation_data_safe: "inside p mx \<Longrightarrow> mem_safe (cie_augmentation_data le p pos mx cie)"
  by (auto simp: cie_augmentation_data_def Let_def split: list.split option.split
      intro!: mem_safe_obind augmentation_loop_safe inside_mono [OF _ augmentation_end_le])

lemma fde_augmentation_data_safe: "inside p mx \<Longrightarrow> mem_safe (fde_augmentation_data le p pos mx cie)"
  by (auto simp: fde_augmentation_data_def Let_def split: option.split
      intro!: mem_safe_obind decodePointer_safe inside_mono [OF _ augmentation_end_le])

lemma parseCIE_safe:
  "inside p (u64_add (offset + header_size w) len) \<Longrightarrow> mem_safe (parseCIE le p offset len w)"
  by (auto simp: parseCIE_def Let_def split: option.split intro!: mem_safe_obind cie_augmentation_data_safe)

lemma parseFDE_safe:
  "inside p (u64_add (offset + header_size w) len) \<Longrightarrow> mem_safe (parseFDE le p offset len ptr w)"
  by (auto simp: parseFDE_def Let_def split: option.split
      intro!: mem_safe_obind decodePointer_safe fde_augmentation_data_safe)

subsection \<open>One entry\<close>

lemma read_words:
  assumes "length d \<le> vector_max" and "off \<le> length d"
  shows "readU32 le d off (length d) = Ret (v4, off') \<Longrightarrow> v4 \<noteq> 0 \<Longrightarrow> off' = off + 4 \<and> off + 4 \<le> length d"
    "readU64 le d off (length d) = Ret (v8, off') \<Longrightarrow> v8 \<noteq> 0 \<Longrightarrow> off' = off + 8 \<and> off + 8 \<le> length d"
proof -
  have "u64_add off 3 = off + 3" "u64_add off 7 = off + 7"
    using assms by (simp_all add: vector_max_numeral)
  then show "readU32 le d off (length d) = Ret (v4, off') \<Longrightarrow> v4 \<noteq> 0 \<Longrightarrow> off' = off + 4 \<and> off + 4 \<le> length d"
    "readU64 le d off (length d) = Ret (v8, off') \<Longrightarrow> v8 \<noteq> 0 \<Longrightarrow> off' = off + 8 \<and> off + 8 \<le> length d"
    by (auto simp: readU32_def readU64_def obind_eq_Ret split: if_splits simp del: readU64_be_loop.simps)
qed

text \<open>The words of an entry's head, as the loop has read them.\<close>

definition entry_head :: "bool \<Rightarrow> bytes \<Rightarrow> nat \<Rightarrow> bool \<Rightarrow> u64 \<Rightarrow> bool" where
  "entry_head le d off w len \<longleftrightarrow>
     (\<exists>v off'. readU32 le d off (length d) = Ret (v, off') \<and> v \<noteq> 0 \<and> w = (v = 0xffffffff) \<and> len \<noteq> 0 \<and>
        (if w then \<exists>off''. readU64 le d off' (length d) = Ret (len, off'') else len = ucast v))"

text \<open>Everything that a round of the loop can have done.\<close>

lemma reads_return:
  assumes "length d \<le> vector_max" and "off \<le> length d"
  shows "\<exists>v off'. readU32 le d off (length d) = Ret (v, off')" "\<exists>v off'. readU64 le d off (length d) = Ret (v, off')"
proof -
  have "u64_add off 3 = off + 3" "u64_add off 7 = off + 7"
    using assms by (simp_all add: vector_max_numeral)
  then show "\<exists>v off'. readU32 le d off (length d) = Ret (v, off')" "\<exists>v off'. readU64 le d off (length d) = Ret (v, off')"
    using readU64_be_loop_safe [of 8 off d 0]
    by (auto simp: readU32_def readU64_def simp del: readU64_be_loop.simps)
qed

text \<open>Everything that a round of the loop can have done.\<close>

lemma parse_entry_cases:
  assumes "length (cfi_section p) \<le> vector_max" and "off < length (cfi_section p)"
  obtains (stop) "parse_entry le p off = Ret None"
  | (entry) w len ident off1 where "entry_head le (cfi_section p) off w len"
      and "u64_add (off + header_size w) (unat len) \<le> length (cfi_section p)"
      and "parse_entry le p off =
        obind (if is_cie_id p w ident then parseCIE le p off (unat len) w
               else parseFDE le p off (unat len) (cie_pointer_of p w off1 ident) w)
          (\<lambda>(ok, p'). Ret (Some (u64_add (off + header_size w) (unat len), p')))"
proof -
  let ?d = "cfi_section p"
  have off: "off \<le> length ?d" using assms(2) by simp
  obtain v o1 where r1: "readU32 le ?d off (length ?d) = Ret (v, o1)"
    using reads_return(1) [OF assms(1) off] by blast
  show ?thesis
  proof (cases "v = 0")
    case True
    then show ?thesis using stop by (simp add: parse_entry_def r1)
  next
    case v: False
    have o1: "o1 = off + 4" "o1 \<le> length ?d" using read_words(1) [OF assms(1) off r1 v] by simp_all
    let ?w = "v = 0xffffffff"
    obtain len o2 where r2: "(if ?w then readU64 le ?d o1 (length ?d) else Ret (ucast v, o1)) = Ret (len, o2)"
      using reads_return(2) [OF assms(1) o1(2), of le] by (cases ?w) auto
    show ?thesis
    proof (cases "len = 0 \<or> length ?d < u64_add o2 (unat len)")
      case True
      then have "parse_entry le p off = Ret None"
        using v by (auto simp: parse_entry_def Let_def r1 r2)
      then show ?thesis by (rule stop)
    next
      case False
      have o2: "o2 = off + header_size ?w" "o2 \<le> length ?d"
        using r2 o1 False read_words(2) [OF assms(1) o1(2), of le len o2] by (simp_all add: header_size_def split: if_splits)
      have head: "entry_head le ?d off ?w len"
        using r1 r2 v False by (auto simp: entry_head_def split: if_splits)
      obtain ident o3 where r3: "read_word le p ?w o2 = Ret (ident, o3)"
        using reads_return [OF assms(1) o2(2), of le] by (cases ?w) (auto simp: read_word_def)
      show ?thesis
        by (rule entry [OF head, of ident o3]) (use False v o2(1) r1 r2 r3 in \<open>simp_all add: parse_entry_def Let_def\<close>)
    qed
  qed
qed

subsection \<open>What an entry does to the parser\<close>

text \<open>
  The section and the settings stay; every stored CIE is in the list under its own offset, and
  every frame description entry refers to one of the list, at the offset it names.
\<close>

definition parser_wf :: "cfi_parser \<Rightarrow> bool" where
  "parser_wf p \<longleftrightarrow> (\<forall>off c. cie_map p off = Some c \<longrightarrow> c \<in> set (cies p) \<and> cie_offset c = off)
     \<and> (\<forall>f\<in>set (fdes p). fde_cie f \<in> set (cies p) \<and> fde_cie_pointer f = cie_offset (fde_cie f))"

definition same_settings :: "cfi_parser \<Rightarrow> cfi_parser \<Rightarrow> bool" where
  "same_settings p q \<longleftrightarrow> cfi_section q = cfi_section p \<and> is_eh_frame q = is_eh_frame p
     \<and> parser_address_size q = parser_address_size p \<and> section_base q = section_base p"

definition grows :: "cfi_parser \<Rightarrow> cfi_parser \<Rightarrow> bool" where
  "grows p q \<longleftrightarrow> same_settings p q \<and> (parser_wf p \<longrightarrow> parser_wf q)"

lemma grows_refl [simp]: "grows p p"
  by (simp add: grows_def same_settings_def)

lemma grows_trans: "grows p q \<Longrightarrow> grows q r \<Longrightarrow> grows p r"
  by (auto simp: grows_def same_settings_def)

lemma add_cie_grows: "grows p (add_cie cie p)"
  by (auto simp: grows_def same_settings_def parser_wf_def add_cie_def)

text \<open>What holds of every value that a computation can return.\<close>

definition returns_only :: "('a \<Rightarrow> bool) \<Rightarrow> 'a outcome \<Rightarrow> bool" where
  "returns_only Q m \<longleftrightarrow> (\<forall>x. m = Ret x \<longrightarrow> Q x)"

lemma returns_only_Ret [simp]: "returns_only Q (Ret x) \<longleftrightarrow> Q x"
  by (simp add: returns_only_def)

lemma returns_only_obind: "(\<And>x. m = Ret x \<Longrightarrow> returns_only Q (f x)) \<Longrightarrow> returns_only Q (obind m f)"
  by (cases m) (auto simp: returns_only_def)

lemma returns_onlyD: "returns_only Q m \<Longrightarrow> m = Ret x \<Longrightarrow> Q x"
  by (simp add: returns_only_def)

lemma parseCIE_grows: "returns_only (\<lambda>(ok, q). grows p q) (parseCIE le p offset len w)"
  by (auto simp: parseCIE_def Let_def add_cie_grows split: option.splits intro!: returns_only_obind)

lemma add_fde_grows:
  "cie_map p (fde_cie_pointer f) = Some (fde_cie f) \<Longrightarrow> grows p (p\<lparr>fdes := fdes p @ [f]\<rparr>)"
  by (auto simp: grows_def same_settings_def parser_wf_def)

lemma parseFDE_grows: "returns_only (\<lambda>(ok, q). grows p q) (parseFDE le p offset len ptr w)"
  by (auto simp: parseFDE_def Let_def add_fde_grows split: option.splits intro!: returns_only_obind)

lemma parse_entry_grows:
  assumes "length (cfi_section p) \<le> vector_max" and "off < length (cfi_section p)"
    and "parse_entry le p off = Ret (Some (off', q))"
  shows "grows p q"
  using assms(1,2)
proof (cases rule: parse_entry_cases [where le = le])
  case stop
  then show ?thesis using assms(3) by simp
next
  case (entry w len ident off1)
  have "returns_only (\<lambda>r. case r of None \<Rightarrow> True | Some (off', q) \<Rightarrow> grows p q) (parse_entry le p off)"
    unfolding entry(3) using returns_onlyD [OF parseCIE_grows] returns_onlyD [OF parseFDE_grows]
    by (intro returns_only_obind) (force split: if_splits)
  from returns_onlyD [OF this assms(3)] show ?thesis by simp
qed

lemma parse_entry_safe:
  assumes "length (cfi_section p) \<le> vector_max" and "off < length (cfi_section p)"
  shows "mem_safe (parse_entry le p off)"
  using assms
proof (cases rule: parse_entry_cases [where le = le])
  case (entry w len ident off1)
  have "inside p (u64_add (off + header_size w) (unat len))"
    using entry(2) assms(1) by (simp add: inside_def)
  then show ?thesis
    unfolding entry(3) by (intro mem_safe_obind mem_safe_if parseCIE_safe parseFDE_safe) auto
qed simp

subsection \<open>The whole section\<close>

lemma parse_loop_result:
  "length (cfi_section p) \<le> vector_max \<Longrightarrow> parse_loop le fuel p off = Some r \<Longrightarrow>
     mem_safe r \<and> (\<forall>q. r = Ret q \<longrightarrow> grows p q)"
proof (induction fuel arbitrary: p off)
  case 0
  then show ?case by (auto split: if_splits intro: grows_refl)
next
  case (Suc fuel)
  show ?case
  proof (cases "off < length (cfi_section p)")
    case True
    note safe = parse_entry_safe [OF Suc.prems(1) True, of le]
    show ?thesis
    proof (cases "parse_entry le p off")
      case (Ret x)
      show ?thesis
      proof (cases x)
        case None
        then show ?thesis using Suc.prems(2) True Ret by (auto intro: grows_refl)
      next
        case (Some y)
        obtain off' q where y: "y = (off', q)" by (cases y)
        have g: "grows p q" using parse_entry_grows [OF Suc.prems(1) True] Ret Some y by simp
        then have "length (cfi_section q) \<le> vector_max" using Suc.prems(1) by (simp add: grows_def same_settings_def)
        then show ?thesis
          using Suc.IH [of q off'] Suc.prems(2) True Ret Some y grows_trans [OF g] by auto
      qed
    qed (use Suc.prems(2) True safe in \<open>auto simp: mem_safe_def\<close>)
  qed (use Suc.prems(2) in \<open>auto intro: grows_refl\<close>)
qed

lemma new_parser_wf: "parser_wf (new_cfi_parser d eh asz)"
  by (simp add: parser_wf_def new_cfi_parser_def)

text \<open>
  C8: whatever the bytes of the section, parsing reads no byte outside it, and the entries it
  collects are consistent: each frame description entry has a CIE of the list, found at the
  offset that the entry names.
\<close>

theorem parse_consistent:
  assumes "length d \<le> vector_max" and "parse le fuel (setSectionBaseAddress base (new_cfi_parser d eh asz)) = Some r"
  shows "mem_safe r \<and> (\<forall>ok q. r = Ret (ok, q) \<longrightarrow>
    (\<forall>f\<in>set (fdes q). fde_cie f \<in> set (cies q) \<and> fde_cie_pointer f = cie_offset (fde_cie f)))"
proof (cases "d = []")
  case True
  then show ?thesis using assms(2) by (auto simp: parse_def new_cfi_parser_def setSectionBaseAddress_def)
next
  case False
  let ?p = "setSectionBaseAddress base (new_cfi_parser d eh asz)"
  have p: "cfi_section ?p = d" "parser_wf ?p"
    by (simp_all add: new_cfi_parser_def setSectionBaseAddress_def parser_wf_def)
  obtain r' where r': "parse_loop le fuel ?p 0 = Some r'" and r: "r = obind r' (\<lambda>p'. Ret (cies p' \<noteq> [], p'))"
    using assms(2) False p(1) by (auto simp: parse_def)
  have *: "mem_safe r'" "\<And>q. r' = Ret q \<Longrightarrow> parser_wf q"
    using parse_loop_result [OF _ r'] assms(1) p by (simp_all add: grows_def)
  show ?thesis
  proof (cases r')
    case (Ret q)
    then show ?thesis using *(2) [OF Ret] by (simp add: r parser_wf_def)
  qed (use *(1) in \<open>simp_all add: r mem_safe_def\<close>)
qed

subsection \<open>Termination\<close>

text \<open>No 64-bit entry length wraps around.\<close>

definition no_wrap :: "bool \<Rightarrow> bytes \<Rightarrow> bool" where
  "no_wrap le d \<longleftrightarrow> (\<forall>off len. entry_head le d off True len \<longrightarrow> off + 12 + unat len < 2 ^ 64)"

lemma parse_entry_progress:
  assumes "length (cfi_section p) \<le> vector_max" and "off < length (cfi_section p)" and "no_wrap le (cfi_section p)"
    and "parse_entry le p off = Ret (Some (off', q))"
  shows "off < off'"
  using assms(1,2)
proof (cases rule: parse_entry_cases [where le = le])
  case (entry w len ident off1)
  have "off + header_size w + unat len < 2 ^ 64"
  proof (cases w)
    case True
    then show ?thesis using entry(1) assms(3) by (auto simp: no_wrap_def header_size_def)
  next
    case False
    then obtain v :: u32 where "len = ucast v" using entry(1) by (auto simp: entry_head_def)
    then have "unat len < 2 ^ 32"
      using unsigned_less [of v, where ?'a = nat] by (simp add: unsigned_ucast_eq take_bit_nat_eq_self)
    then show ?thesis using False assms(1,2) by (simp add: header_size_def vector_max_numeral)
  qed
  then show ?thesis
    using assms(4) entry(3) by (auto simp: obind_eq_Ret header_size_def)
qed (use assms(4) in simp)

lemma parse_loop_returns:
  "length (cfi_section p) \<le> vector_max \<Longrightarrow> no_wrap le (cfi_section p) \<Longrightarrow> length (cfi_section p) \<le> off + fuel \<Longrightarrow>
     parse_loop le fuel p off \<noteq> None"
proof (induction fuel arbitrary: p off)
  case (Suc fuel)
  show ?case
  proof (cases "off < length (cfi_section p)")
    case True
    have "parse_loop le fuel q off' \<noteq> None" if "parse_entry le p off = Ret (Some (off', q))" for off' q
    proof -
      have "cfi_section q = cfi_section p"
        using parse_entry_grows [OF Suc.prems(1) True that] by (simp add: grows_def same_settings_def)
      then show ?thesis
        using Suc.IH [of q off'] Suc.prems parse_entry_progress [OF Suc.prems(1) True Suc.prems(2) that] by simp
    qed
    then show ?thesis using True by (auto split: outcome.split option.split)
  qed simp
qed simp

text \<open>
  C29: parsing returns on every section in which no 64-bit entry length wraps around; the length
  of the section is enough fuel.
\<close>

theorem parse_returns:
  assumes "length (cfi_section p) \<le> vector_max" and "no_wrap le (cfi_section p)" and "length (cfi_section p) \<le> fuel"
  shows "\<exists>r. parse le fuel p = Some r"
  using parse_loop_returns [OF assms(1,2), of 0 fuel] assms(3) by (auto simp: parse_def)

text \<open>A section without four adjacent bytes \<open>0xff\<close> has no 64-bit entries.\<close>

lemma no_wrap_narrow:
  assumes "255 \<notin> set d" and "length d \<le> vector_max"
  shows "no_wrap True d"
proof -
  have "readU32 True d off (length d) \<noteq> Ret (0xffffffff, off')" for off off'
  proof
    assume r: "readU32 True d off (length d) = Ret (0xffffffff, off')"
    then have fit: "off + 4 \<le> length d"
      by (auto simp: readU32_def byte_at_def obind_eq_Ret split: if_splits)
    define n where "n = le_value (window d off 4)"
    have w: "window d off 4 = d ! off # window d (Suc off) 3"
      using fit by (simp add: window_numeral)
    have "n < 2 ^ 32"
      using le_value_bound [of "window d off 4"] window_length [OF fit] by (simp add: n_def)
    moreover have "(word_of_nat n :: u32) = 0xffffffff"
      using r fit assms(2) readU32_value [of off "length d" d True] by (simp add: n_def ordered_def)
    then have "unat (word_of_nat n :: u32) = 0xffffffff" by simp
    ultimately have "n = 0xffffffff" by (simp add: unsigned_of_nat take_bit_nat_eq_self)
    then have "unat (d ! off) + 256 * le_value (window d (Suc off) 3) = 0xffffffff" by (simp add: n_def w)
    then have "(unat (d ! off) + 256 * le_value (window d (Suc off) 3)) mod 256 = 0xffffffff mod 256" by simp
    then have "unat (d ! off) mod 256 = 255" by simp
    then have "unat (d ! off) = unat (255 :: u8)" using unat_u8_bound [of "d ! off"] by simp
    then have "d ! off = 255" by (simp only: word_unat_eq_iff)
    then show False using assms(1) fit nth_mem [of off d] by simp
  qed
  then show ?thesis by (auto simp: no_wrap_def entry_head_def)
qed

theorem parse_returns_witness:
  "\<exists>r. parse True 13 (new_cfi_parser [9, 0, 0, 0, 0, 0, 0, 0, 1, 0, 1, 0x78, 16] True 8) = Some r"
  using parse_returns [of "new_cfi_parser [9, 0, 0, 0, 0, 0, 0, 0, 1, 0, 1, 0x78, 16] True 8" True 13]
    no_wrap_narrow [of "[9, 0, 0, 0, 0, 0, 0, 0, 1, 0, 1, 0x78, 16]"]
  by (simp add: new_cfi_parser_def vector_max_numeral)

text \<open>
  The section of the next theorem: a 64-bit entry whose length \<open>2^64 - 12\<close> takes the end of the
  entry back to its own start.
\<close>

definition endless_section :: "bytes \<Rightarrow> bytes" where
  "endless_section rest =
     [0xff, 0xff, 0xff, 0xff, 0xf4, 0xff, 0xff, 0xff, 0xff, 0xff, 0xff, 0xff] @ rest"

lemma endless_head:
  "readU32 True (endless_section rest) 0 (length (endless_section rest)) = Ret (0xffffffff, 4)"
  "length rest \<le> vector_max - 12 \<Longrightarrow>
     readU64 True (endless_section rest) 4 (length (endless_section rest)) = Ret (0xfffffffffffffff4, 12)"
proof -
  show "readU32 True (endless_section rest) 0 (length (endless_section rest)) = Ret (0xffffffff, 4)"
    by (simp add: readU32_def endless_section_def)
  have eight: "8 = Suc (Suc (Suc (Suc (Suc (Suc (Suc (Suc 0)))))))" by simp
  have "le_bytes 8 0xfffffffffffffff4 = [0xf4, 0xff, 0xff, 0xff, 0xff, 0xff, 0xff, 0xff]"
    by (subst eight) (simp only: le_bytes.simps, simp)
  then have "encoded_at (endless_section rest) 4 (le_bytes 8 (unat (0xfffffffffffffff4 :: u64)))"
    by (simp add: encoded_at_def endless_section_def)
  then show "length rest \<le> vector_max - 12 \<Longrightarrow>
     readU64 True (endless_section rest) 4 (length (endless_section rest)) = Ret (0xfffffffffffffff4, 12)"
    using readU64_encoded [of "endless_section rest" 4 True "0xfffffffffffffff4" "length (endless_section rest)"]
    by (simp add: endless_section_def ordered_def vector_max_numeral)
qed

text \<open>No CIE ends at offset 0, and without a CIE there is no frame description entry.\<close>

lemma parse_entry_endless:
  assumes "cfi_section p = endless_section rest" and "length rest \<le> vector_max - 12" and "cie_map p = Map.empty"
  shows "parse_entry True p 0 = Ret (Some (0, p))"
proof -
  let ?d = "endless_section rest"
  have len: "12 \<le> length ?d" "length ?d \<le> vector_max" using assms(2) by (simp_all add: endless_section_def vector_max_numeral)
  obtain ident off where r: "read_word True p True 12 = Ret (ident, off)"
    using reads_return(2) [OF len(2,1), of True] assms(1) by (auto simp: read_word_def)
  have cie: "parseCIE True p 0 0xfffffffffffffff4 True = Ret (False, p)"
    by (simp add: parseCIE_def header_size_def id_size_def u64_add_def cie_fields_def readBoundedU8_def Let_def)
  have fde: "parseFDE True p 0 0xfffffffffffffff4 ptr True = Ret (False, p)" for ptr
    using assms(3) by (simp add: parseFDE_def)
  show ?thesis
    using r endless_head [of rest] assms(1,2)
    by (simp add: parse_entry_def Let_def u64_add_def cie fde)
qed

lemma parse_loop_endless:
  assumes "cfi_section p = endless_section rest" and "length rest \<le> vector_max - 12" and "cie_map p = Map.empty"
  shows "parse_loop True fuel p 0 = None"
  using assms(1)
  by (induction fuel) (simp_all add: parse_entry_endless [OF assms], simp_all add: endless_section_def)



subsection \<open>Augmentation data that ends before it starts\<close>

lemma unat_neg:
  fixes k :: u64
  assumes "0 < k"
  shows "unat (- k) = 2 ^ 64 - unat k"
proof -
  have k: "uint k \<noteq> 0" "0 \<le> uint k" "uint k < 2 ^ 64"
    using assms uint_lt2p [of k] by (auto simp: word_less_def)
  then have "uint (- k) = 2 ^ 64 - uint k"
    by (simp add: uint_word_ariths zmod_zminus1_eq_if mod_pos_pos_trivial)
  then have "nat (uint (- k)) = nat (2 ^ 64) - nat (uint k)" using k by (simp add: nat_diff_distrib)
  then show ?thesis by simp
qed

text \<open>
  C31: an augmentation length that wraps around is not clamped: the data of a frame description
  entry then ends before it starts, by as many bytes as the length is below \<open>2^64\<close>, and the
  instructions of the entry begin there.
\<close>

theorem fde_augmentation_wraps:
  assumes "has_augmentation_data cie" and "CHR ''L'' \<notin> set (cie_augmentation cie)"
    and "readBoundedULEB (cfi_section p) pos mx = Some (- k, pos')" and "0 < k" and "unat k \<le> pos'"
    and "pos' \<le> mx" and "mx < 2 ^ 64"
  shows "fde_augmentation_data le p pos mx cie = Ret (Some (0, pos' - unat k))"
proof -
  have k: "0 < unat k" using assms(4) by (simp add: word_less_nat_alt)
  have "unat (- k) = 2 ^ 64 - unat k"
    by (rule unat_neg [OF assms(4)])
  moreover have "pos' + (2 ^ 64 - unat k) = (pos' - unat k) + 2 ^ 64"
    using assms(5) unat_u64_bound [of k] by simp
  ultimately have "u64_add pos' (unat (- k)) = (pos' - unat k) mod 2 ^ 64"
    by (simp only: u64_add_def mod_add_self2)
  also have "\<dots> = pos' - unat k" using assms(6,7) by simp
  finally have sum: "u64_add pos' (unat (- k)) = pos' - unat k" .
  have "\<not> mx < pos' - unat k" using assms(6) by simp
  then show ?thesis
    using assms(1-3) sum by (simp add: fde_augmentation_data_def augmentation_end_def Let_def)
qed

theorem fde_augmentation_wraps_witness:
  "fde_augmentation_data True (new_cfi_parser [7, 7, 7, 7, 0xfd, 0xff, 0xff, 0xff, 0xff, 0xff, 0xff, 0xff, 0xff, 0x01] True 8)
     4 14 ((new_cie 0 14)\<lparr>has_augmentation_data := True, cie_augmentation := ''zR''\<rparr>) = Ret (Some (0, 11))"
proof -
  let ?p = "new_cfi_parser [7, 7, 7, 7, 0xfd, 0xff, 0xff, 0xff, 0xff, 0xff, 0xff, 0xff, 0xff, 0x01] True 8"
  let ?cie = "(new_cie 0 14)\<lparr>has_augmentation_data := True, cie_augmentation := ''zR''\<rparr>"
  have "readBoundedULEB (cfi_section ?p) 4 14 = Some (- 3, 14)"
    by (simp add: readBoundedULEB_def new_cfi_parser_def bounded_uleb.simps Let_def)
  then show ?thesis
    using fde_augmentation_wraps [of ?cie ?p 4 14 3 14 True] by simp
qed

end
