(* ===== verification/CfiRound.thy ===== *)
theory CfiRound
  imports CfiTable CfiParseProps
begin

section \<open>Call frame information: from a written section to the unwind rules\<close>

text \<open>
  An encoder of \<open>.debug_frame\<close> sections (one CIE, then frame description entries that refer to
  it), and the proof that the parser reads back exactly what was written; with the instruction
  semantics of \<open>CfiSpec\<close> this gives the answer of \<open>getUnwindInfo\<close> for a whole section.
\<close>

subsection \<open>The written section\<close>

record cie_source =
  src_version :: u8
  src_code :: nat
  src_data :: int
  src_ra :: nat
  src_initial :: bytes

record fde_source =
  src_start :: u64
  src_range :: u64
  src_instructions :: bytes

definition cie_source_ok :: "cie_source \<Rightarrow> bool" where
  "cie_source_ok c \<longleftrightarrow> src_code c < 2 ^ 64 \<and> - (2 ^ 63) \<le> src_data c \<and> src_data c < 2 ^ 63 \<and>
     src_ra c < (if src_version c = 1 then 2 ^ 8 else 2 ^ 64)"

definition cie_head :: "cie_source \<Rightarrow> bytes" where
  "cie_head c = [src_version c, 0] @ (if 4 \<le> src_version c then [8, 0] else []) @ uleb_encode (src_code c) @
     sleb_encode (src_data c) @ (if src_version c = 1 then [word_of_nat (src_ra c)] else uleb_encode (src_ra c))"

definition cie_body :: "bool \<Rightarrow> cie_source \<Rightarrow> bytes" where
  "cie_body le c = ordered le (le_bytes 4 (unat (0xffffffff :: u32))) @ cie_head c @ src_initial c"

definition fde_body :: "bool \<Rightarrow> fde_source \<Rightarrow> bytes" where
  "fde_body le s = ordered le (le_bytes 4 (unat (0 :: u32))) @ ordered le (le_bytes 8 (unat (src_start s))) @
     ordered le (le_bytes 8 (unat (src_range s))) @ src_instructions s"

definition entry_bytes :: "bool \<Rightarrow> bytes \<Rightarrow> bytes" where
  "entry_bytes le body = ordered le (le_bytes 4 (length body)) @ body"

definition body_fits :: "bytes \<Rightarrow> bool" where
  "body_fits body \<longleftrightarrow> 4 \<le> length body \<and> length body < 0xffffffff"

subsection \<open>Bounded readers\<close>

lemma encoded_at_take: "mx \<le> length d \<Longrightarrow> encoded_at (take mx d) off bs \<longleftrightarrow> encoded_at d off bs \<and> off + length bs \<le> mx"
  by (auto simp: encoded_at_def drop_take min_def take_all)

lemma bounded_uleb_take:
  "mx \<le> length d \<Longrightarrow> bounded_uleb d mx off r sh = bounded_uleb (take mx d) mx off r sh"
proof (induction d mx off r sh rule: bounded_uleb.induct)
  case (1 d mx off r sh)
  then show ?case
    by (simp add: bounded_uleb.simps [of d mx off r sh] bounded_uleb.simps [of "take mx d" mx off r sh] Let_def)
qed

lemma bounded_sleb_take:
  "mx \<le> length d \<Longrightarrow> bounded_sleb d mx off r sh = bounded_sleb (take mx d) mx off r sh"
proof (induction d mx off r sh rule: bounded_sleb.induct)
  case (1 d mx off r sh)
  then show ?case
    by (simp add: bounded_sleb.simps [of d mx off r sh] bounded_sleb.simps [of "take mx d" mx off r sh] Let_def)
qed

lemma bounded_encoded:
  assumes "mx \<le> length d"
  shows "encoded_at d off (uleb_encode n) \<Longrightarrow> off + length (uleb_encode n) \<le> mx \<Longrightarrow> n < 2 ^ 64 \<Longrightarrow>
      readBoundedULEB d off mx = Some (word_of_nat n, off + length (uleb_encode n))"
    "encoded_at d off (sleb_encode i) \<Longrightarrow> off + length (sleb_encode i) \<le> mx \<Longrightarrow> - (2 ^ 63) \<le> i \<Longrightarrow> i < 2 ^ 63 \<Longrightarrow>
      readBoundedSLEB d off mx = Some (word_of_int i, off + length (sleb_encode i))"
    "encoded_at d off [b] \<Longrightarrow> off < mx \<Longrightarrow> readBoundedU8 d off mx = Some (b, Suc off)"
proof -
  assume "encoded_at d off (uleb_encode n)" "off + length (uleb_encode n) \<le> mx" "n < 2 ^ 64"
  moreover from this(2) have lt: "off < mx" using uleb_encode_nonempty [of n] by linarith
  ultimately show "readBoundedULEB d off mx = Some (word_of_nat n, off + length (uleb_encode n))"
    using readInstrULEB_encoded [of "take mx d" off n] assms lt
    by (simp add: encoded_at_take readInstrULEB_def readBoundedULEB_def bounded_uleb_take [OF assms, of off])
next
  assume "encoded_at d off (sleb_encode i)" "off + length (sleb_encode i) \<le> mx" "- (2 ^ 63) \<le> i" "i < 2 ^ 63"
  moreover from this(2) have lt: "off < mx" using sleb_encode_nonempty [of i] by linarith
  ultimately show "readBoundedSLEB d off mx = Some (word_of_int i, off + length (sleb_encode i))"
    using readInstrSLEB_encoded [of "take mx d" off i] assms lt
    by (simp add: encoded_at_take readInstrSLEB_def readBoundedSLEB_def bounded_sleb_take [OF assms, of off])
next
  show "encoded_at d off [b] \<Longrightarrow> off < mx \<Longrightarrow> readBoundedU8 d off mx = Some (b, Suc off)"
    by (simp add: readBoundedU8_def encoded_at_Cons)
qed

subsection \<open>Reading a CIE back\<close>

definition cie_read :: "cie_source \<Rightarrow> CIE \<Rightarrow> CIE" where
  "cie_read c cie = cie\<lparr>cie_version := src_version c, cie_augmentation := [], cie_address_size := 8,
     cie_segment_size := 0, code_alignment := word_of_nat (src_code c), data_alignment := word_of_int (src_data c),
     cie_return_register := word_of_nat (src_ra c)\<rparr>"

lemma cie_fields_encoded:
  assumes "encoded_at (cfi_section p) pos (cie_head c)" and "pos + length (cie_head c) \<le> mx"
    and "mx \<le> length (cfi_section p)" and "cie_source_ok c" and "parser_address_size p = 8"
  shows "cie_fields p pos mx cie = Some (cie_read c cie, pos + length (cie_head c))"
proof -
  let ?d = "cfi_section p"
  let ?sizes = "if 4 \<le> src_version c then [8, 0] else [] :: bytes"
  let ?ra = "if src_version c = 1 then [word_of_nat (src_ra c)] else uleb_encode (src_ra c)"
  define p2 where "p2 = Suc (Suc pos)"
  define p3 where "p3 = p2 + length ?sizes"
  define p4 where "p4 = p3 + length (uleb_encode (src_code c))"
  define p5 where "p5 = p4 + length (sleb_encode (src_data c))"
  have parts: "encoded_at ?d pos [src_version c]" "encoded_at ?d (Suc pos) [0]" "encoded_at ?d p2 ?sizes"
      "encoded_at ?d p3 (uleb_encode (src_code c))" "encoded_at ?d p4 (sleb_encode (src_data c))" "encoded_at ?d p5 ?ra"
    using assms(1) unfolding cie_head_def p5_def p4_def p3_def p2_def by (auto simp: encoded_at_Cons encoded_at_append)
  have total: "p5 + length ?ra = pos + length (cie_head c)"
    unfolding cie_head_def p5_def p4_def p3_def p2_def by simp
  have "0 < length ?ra" using uleb_encode_nonempty [of "src_ra c"] by simp
  then have ends: "Suc pos < mx" "p4 \<le> mx" "p5 \<le> mx" "p5 + length ?ra \<le> mx" "p2 + length ?sizes \<le> mx"
    using total assms(2) unfolding p5_def p4_def p3_def p2_def by linarith+
  have r1: "readBoundedU8 ?d pos mx = Some (src_version c, Suc pos)"
    using parts(1) ends(1) by (simp add: bounded_encoded(3) [OF assms(3)])
  have r2: "read_augmentation ?d (Suc pos) mx [] = Some ([], p2)"
    using parts(2) ends(1) by (subst read_augmentation.simps) (simp add: p2_def bounded_encoded(3) [OF assms(3)])
  let ?c1 = "cie\<lparr>cie_version := src_version c, cie_augmentation := []\<rparr>"
  have r3: "cie_sizes p p2 mx ?c1 = Some (?c1\<lparr>cie_address_size := 8, cie_segment_size := 0\<rparr>, p3)"
    using parts(3) ends(5) assms(5)
    by (auto simp: cie_sizes_def p3_def encoded_at_Cons bounded_encoded(3) [OF assms(3)])
  have r4: "readBoundedULEB ?d p3 mx = Some (word_of_nat (src_code c), p4)"
    using parts(4) ends(2) assms(4) by (simp add: p4_def bounded_encoded(1) [OF assms(3)] cie_source_ok_def)
  have r5: "readBoundedSLEB ?d p4 mx = Some (word_of_int (src_data c), p5)"
    using parts(5) ends(3) assms(4) by (simp add: p5_def bounded_encoded(2) [OF assms(3)] cie_source_ok_def)
  have r6: "cie_return p p5 mx cie' = Some (cie'\<lparr>cie_return_register := word_of_nat (src_ra c)\<rparr>, p5 + length ?ra)"
    if "cie_version cie' = src_version c" for cie'
  proof (cases "src_version c = 1")
    case True
    have "unat (word_of_nat (src_ra c) :: u8) = src_ra c"
      using True assms(4) by (simp add: cie_source_ok_def unsigned_of_nat take_bit_nat_eq_self)
    then have "ucast (word_of_nat (src_ra c) :: u8) = (word_of_nat (src_ra c) :: u64)"
      by (simp only: ucast_byte)
    then show ?thesis
      using True that parts(6) ends(4) by (simp add: cie_return_def bounded_encoded(3) [OF assms(3)])
  next
    case False
    then show ?thesis
      using that parts(6) ends(4) assms(4) by (simp add: cie_return_def bounded_encoded(1) [OF assms(3)] cie_source_ok_def)
  qed
  show ?thesis
    unfolding total [symmetric] by (simp add: cie_fields_def Let_def r1 r2 r3 r4 r5 r6 cie_read_def)
qed

lemma initial_loop_row: "\<exists>row. initial_loop le off ins cie st = cie\<lparr>initial_row := row\<rparr>"
proof (induction le off ins cie st rule: initial_loop.induct)
  case (1 le off ins cie st)
  show ?case
  proof (cases "length ins \<le> off")
    case True
    then show ?thesis by (subst initial_loop.simps) (auto intro: exI [of _ "initial_row cie"])
  next
    case False
    obtain off' row' st' where e: "executeInstruction le off ins (initial_row cie) cie st = (off', row', st')"
      by (metis prod_cases3)
    show ?thesis
      using False "1.IH" [OF False e [symmetric] refl] by (subst initial_loop.simps) (auto simp: e)
  qed
qed

definition cie_of :: "bool \<Rightarrow> nat \<Rightarrow> cie_source \<Rightarrow> CIE" where
  "cie_of le off c = initial_loop le 0 (src_initial c)
     ((cie_read c (new_cie off (length (cie_body le c))))\<lparr>initial_instructions := src_initial c\<rparr>) []"

lemma cie_of_fields:
  "cie_offset (cie_of le off c) = off" "fde_pointer_encoding (cie_of le off c) = 0"
  "has_augmentation_data (cie_of le off c) = False" "cie_version (cie_of le off c) = src_version c"
  "cie_address_size (cie_of le off c) = 8" "code_alignment (cie_of le off c) = word_of_nat (src_code c)"
  "data_alignment (cie_of le off c) = word_of_int (src_data c)"
  "cie_return_register (cie_of le off c) = word_of_nat (src_ra c)"
proof -
  obtain row where "cie_of le off c = ((cie_read c (new_cie off (length (cie_body le c))))
      \<lparr>initial_instructions := src_initial c\<rparr>)\<lparr>initial_row := row\<rparr>"
    using initial_loop_row unfolding cie_of_def by blast
  then show "cie_offset (cie_of le off c) = off" "fde_pointer_encoding (cie_of le off c) = 0"
    "has_augmentation_data (cie_of le off c) = False" "cie_version (cie_of le off c) = src_version c"
    "cie_address_size (cie_of le off c) = 8" "code_alignment (cie_of le off c) = word_of_nat (src_code c)"
    "data_alignment (cie_of le off c) = word_of_int (src_data c)"
    "cie_return_register (cie_of le off c) = word_of_nat (src_ra c)"
    by (simp_all add: cie_read_def new_cie_def)
qed

lemma readBlock_encoded: "encoded_at (cfi_section p) off bs \<Longrightarrow> readBlock p off (length bs) = bs"
  by (simp add: readBlock_def encoded_at_def)

lemma parseCIE_encoded:
  assumes "encoded_at (cfi_section p) (off + 4) (cie_body le c)" and "length (cfi_section p) \<le> vector_max"
    and "cie_source_ok c" and "parser_address_size p = 8"
  shows "parseCIE le p off (length (cie_body le c)) False = Ret (True, add_cie (cie_of le off c) p)"
proof -
  let ?n = "length (cie_body le c)"
  define p1 where "p1 = off + 4 + 4"
  define p2 where "p2 = p1 + length (cie_head c)"
  define e where "e = off + 4 + ?n"
  define cie where "cie = cie_read c (new_cie off ?n)"
  have n: "e = p2 + length (src_initial c)" by (simp add: cie_body_def e_def p1_def p2_def)
  have fit: "e \<le> length (cfi_section p)" unfolding e_def using encoded_at_length [OF assms(1)] .
  have "off + 4 + ?n < 2 ^ 64" using fit assms(2) by (simp add: vector_max_numeral e_def)
  then have end_pos: "u64_add (off + 4) ?n = e" by (simp add: e_def)
  have parts: "encoded_at (cfi_section p) p1 (cie_head c)" "encoded_at (cfi_section p) p2 (src_initial c)"
    using assms(1) unfolding p2_def p1_def by (simp_all add: cie_body_def encoded_at_append)
  have fields: "cie_fields p p1 e (new_cie off ?n) = Some (cie, p2)"
    using cie_fields_encoded [OF parts(1) _ fit assms(3,4)] n by (simp add: p2_def cie_def)
  have cie: "cie_augmentation cie = []" "initial_instructions cie = []" "initial_row cie = new_row"
    by (simp_all add: cie_def cie_read_def new_cie_def)
  have with_code: "(if p2 < e then cie\<lparr>initial_instructions := readBlock p p2 (e - p2)\<rparr> else cie)
      = cie\<lparr>initial_instructions := src_initial c\<rparr>"
    using n readBlock_encoded [OF parts(2)] cie(2) by simp
  have row: "cie\<lparr>initial_instructions := x, initial_row := new_row\<rparr> = cie\<lparr>initial_instructions := x\<rparr>" for x
    using cie(3) by simp
  show ?thesis
    unfolding parseCIE_def header_size_def id_size_def Let_def if_False end_pos p1_def [symmetric] fields
      option.case prod.case
    by (simp add: cie_augmentation_data_def cie(1) with_code row cie_of_def flip: cie_def)
qed

subsection \<open>Reading a frame description entry back\<close>

definition fde_of :: "CIE \<Rightarrow> bool \<Rightarrow> nat \<Rightarrow> fde_source \<Rightarrow> FDE" where
  "fde_of cie le off s =
     \<lparr>fde_offset = off, fde_length = length (fde_body le s), fde_cie_pointer = 0, initial_location = src_start s,
      fde_range = src_range s, fde_instructions = src_instructions s, lsda_pointer = 0, fde_cie = cie\<rparr>"

lemma decode_u64:
  assumes "encoded_at (cfi_section p) off (ordered le (le_bytes 8 (unat v)))" and "off + 8 \<le> mx"
    and "mx \<le> length (cfi_section p)" and "length (cfi_section p) \<le> vector_max"
  shows "decodePointerBounded le p off mx 4 base = Ret (v, True, off + 8)"
  using assms readU64_encoded [OF assms(1-3)]
  by (simp add: decodePointerBounded_def Let_def pointer_value_def fixed_pointer_def pointer_base_def)

lemma parseFDE_encoded:
  assumes "encoded_at (cfi_section p) (off + 4) (fde_body le s)" and "length (cfi_section p) \<le> vector_max"
    and "cie_map p 0 = Some cie" and "fde_pointer_encoding cie = 0" and "\<not> has_augmentation_data cie"
    and "parser_address_size p = 8"
  shows "parseFDE le p off (length (fde_body le s)) 0 False = Ret (True, p\<lparr>fdes := fdes p @ [fde_of cie le off s]\<rparr>)"
proof -
  let ?n = "length (fde_body le s)"
  define p1 where "p1 = off + 4 + 4"
  define p2 where "p2 = p1 + 8"
  define p3 where "p3 = p2 + 8"
  define e where "e = off + 4 + ?n"
  have n: "e = p3 + length (src_instructions s)" by (simp add: fde_body_def e_def p1_def p2_def p3_def)
  have fit: "e \<le> length (cfi_section p)" unfolding e_def using encoded_at_length [OF assms(1)] .
  have "off + 4 + ?n < 2 ^ 64" using fit assms(2) by (simp add: vector_max_numeral e_def)
  then have end_pos: "u64_add (off + 4) ?n = e" by (simp add: e_def)
  have parts: "encoded_at (cfi_section p) p1 (ordered le (le_bytes 8 (unat (src_start s))))"
    "encoded_at (cfi_section p) p2 (ordered le (le_bytes 8 (unat (src_range s))))"
    "encoded_at (cfi_section p) p3 (src_instructions s)"
    using assms(1) unfolding p3_def p2_def p1_def by (simp_all add: fde_body_def encoded_at_append)
  have d1: "decodePointerBounded le p p1 e 4 b = Ret (src_start s, True, p2)" for b
    using decode_u64 [OF parts(1) _ fit assms(2)] n by (simp add: p2_def p3_def)
  have d2: "decodePointerBounded le p p2 e 4 b = Ret (src_range s, True, p3)" for b
    using decode_u64 [OF parts(2) _ fit assms(2)] n by (simp add: p3_def)
  have enc: "fde_pointer_format p cie = 4" "(4 :: u8) AND 0x0f = 4"
    using assms(4,6) by (simp_all add: fde_pointer_format_def)
  have code: "(if p3 < e then readBlock p p3 (e - p3) else []) = src_instructions s"
    using n readBlock_encoded [OF parts(3)] by simp
  show ?thesis
    unfolding parseFDE_def header_size_def id_size_def Let_def if_False end_pos assms(3) option.case enc
      p1_def [symmetric] d1 d2
    using assms(5) code by (simp add: fde_augmentation_data_def fde_of_def d2)
qed

subsection \<open>Reading the section back\<close>

lemma parse_entry_encoded:
  fixes ident :: u32
  assumes "encoded_at (cfi_section p) off (entry_bytes le body)" and "length (cfi_section p) \<le> vector_max"
    and "body_fits body" and "body = ordered le (le_bytes 4 (unat ident)) @ rest"
  shows "parse_entry le p off =
    obind (if is_cie_id p False (ucast ident) then parseCIE le p off (length body) False
           else parseFDE le p off (length body) (cie_pointer_of p False (off + 4 + 4) (ucast ident)) False)
      (\<lambda>(ok, p'). Ret (Some (off + 4 + length body, p')))"
proof -
  let ?d = "cfi_section p"
  define v :: u32 where "v = word_of_nat (length body)"
  have fit: "4 \<le> length body" "length body < 0xffffffff" using assms(3) by (simp_all add: body_fits_def)
  then have v: "unat v = length body" by (simp add: v_def unsigned_of_nat take_bit_nat_eq_self)
  have nz: "v \<noteq> 0" "v \<noteq> 0xffffffff" using fit v by auto
  have ucast_v: "unat (ucast v :: u64) = length body"
    using fit v by (simp add: unsigned_ucast_eq take_bit_nat_eq_self)
  then have nz': "(ucast v :: u64) \<noteq> 0" using fit by auto
  have parts: "encoded_at ?d off (ordered le (le_bytes 4 (unat v)))" "encoded_at ?d (off + 4) body"
    using assms(1) by (simp_all add: entry_bytes_def encoded_at_append v)
  have ends: "off + 4 + length body \<le> length ?d" using encoded_at_length [OF parts(2)] .
  then have bounds: "off + 4 \<le> length ?d" "off + 4 + 4 \<le> length ?d" "off + 4 + length body < 2 ^ 64"
    using fit assms(2) by (simp_all add: vector_max_numeral)
  have r1: "readU32 le ?d off (length ?d) = Ret (v, off + 4)"
    using readU32_encoded [OF parts(1) bounds(1)] assms(2) by simp
  have r2: "readU32 le ?d (off + 4) (length ?d) = Ret (ident, off + 4 + 4)"
    using readU32_encoded [of ?d "off + 4" le ident, OF _ bounds(2)] parts(2) assms(2)
    by (simp add: assms(4) encoded_at_append)
  have "u64_add (off + 4) (length body) = off + 4 + length body" using bounds(3) by simp
  then show ?thesis
    using ends nz nz' ucast_v
    by (simp add: parse_entry_def r1 r2 read_word_def Let_def del: add.assoc)
qed

fun fdes_of :: "CIE \<Rightarrow> bool \<Rightarrow> nat \<Rightarrow> fde_source list \<Rightarrow> FDE list" where
  "fdes_of cie le off [] = []"
| "fdes_of cie le off (s # ss) = fde_of cie le off s # fdes_of cie le (off + 4 + length (fde_body le s)) ss"

definition fdes_bytes :: "bool \<Rightarrow> fde_source list \<Rightarrow> bytes" where
  "fdes_bytes le ss = concat (map (\<lambda>s. entry_bytes le (fde_body le s)) ss)"

definition frame_section :: "bool \<Rightarrow> cie_source \<Rightarrow> fde_source list \<Rightarrow> bytes" where
  "frame_section le c ss = entry_bytes le (cie_body le c) @ fdes_bytes le ss"

definition frame_ok :: "bool \<Rightarrow> cie_source \<Rightarrow> fde_source list \<Rightarrow> bool" where
  "frame_ok le c ss \<longleftrightarrow> cie_source_ok c \<and> body_fits (cie_body le c) \<and>
     list_all (\<lambda>s. body_fits (fde_body le s)) ss \<and> length (frame_section le c ss) \<le> vector_max"

lemma length_entry [simp]: "length (entry_bytes le body) = 4 + length body"
  by (simp add: entry_bytes_def)

lemma parse_loop_fdes:
  assumes "length (cfi_section p) \<le> vector_max" and "\<not> is_eh_frame p" and "parser_address_size p = 8"
    and "cie_map p 0 = Some cie" and "fde_pointer_encoding cie = 0" and "\<not> has_augmentation_data cie"
    and "list_all (\<lambda>s. body_fits (fde_body le s)) ss" and "encoded_at (cfi_section p) off (fdes_bytes le ss)"
    and "length (cfi_section p) = off + length (fdes_bytes le ss)" and "length ss \<le> fuel"
  shows "parse_loop le fuel p off = Some (Ret (p\<lparr>fdes := fdes p @ fdes_of cie le off ss\<rparr>))"
  using assms
proof (induction ss arbitrary: p off fuel)
  case Nil
  then show ?case by (cases fuel) (simp_all add: fdes_bytes_def)
next
  case (Cons s ss)
  obtain fuel' where fuel: "fuel = Suc fuel'" using Cons.prems(10) by (cases fuel) auto
  let ?q = "p\<lparr>fdes := fdes p @ [fde_of cie le off s]\<rparr>"
  have parts: "encoded_at (cfi_section p) off (entry_bytes le (fde_body le s))"
    "encoded_at (cfi_section p) (off + 4 + length (fde_body le s)) (fdes_bytes le ss)"
    using Cons.prems(8) by (simp_all add: fdes_bytes_def encoded_at_append add.assoc)
  have in_body: "encoded_at (cfi_section p) (off + 4) (fde_body le s)"
    using parts(1) by (simp add: entry_bytes_def encoded_at_append)
  have "parse_entry le p off = obind (parseFDE le p off (length (fde_body le s)) 0 False)
      (\<lambda>(ok, p'). Ret (Some (off + 4 + length (fde_body le s), p')))"
    using parse_entry_encoded [OF parts(1) Cons.prems(1) _ fde_body_def] Cons.prems(2,7)
    by (simp add: is_cie_id_def cie_pointer_of_def)
  then have entry: "parse_entry le p off = Ret (Some (off + 4 + length (fde_body le s), ?q))"
    by (simp add: parseFDE_encoded [OF in_body Cons.prems(1,4,5,6,3)])
  have len: "length (cfi_section p) = off + 4 + length (fde_body le s) + length (fdes_bytes le ss)"
    using Cons.prems(9) by (simp add: fdes_bytes_def)
  have "parse_loop le fuel' ?q (off + 4 + length (fde_body le s)) =
      Some (Ret (?q\<lparr>fdes := fdes ?q @ fdes_of cie le (off + 4 + length (fde_body le s)) ss\<rparr>))"
    using Cons.prems parts(2) len fuel by (intro Cons.IH) simp_all
  then show ?case using len by (simp add: fuel entry)
qed

definition frame_parser :: "bool \<Rightarrow> cie_source \<Rightarrow> fde_source list \<Rightarrow> cfi_parser" where
  "frame_parser le c ss =
     (let cie = cie_of le 0 c in
      (new_cfi_parser (frame_section le c ss) False 8)\<lparr>cies := [cie], cie_map := [0 \<mapsto> cie],
        fdes := fdes_of cie le (4 + length (cie_body le c)) ss\<rparr>)"

lemma frame_parsed:
  assumes "frame_ok le c ss" and "length ss < fuel"
  shows "parse le fuel (new_cfi_parser (frame_section le c ss) False 8) = Some (Ret (True, frame_parser le c ss))"
proof -
  let ?p = "new_cfi_parser (frame_section le c ss) False 8"
  let ?q = "add_cie (cie_of le 0 c) ?p"
  obtain fuel' where fuel: "fuel = Suc fuel'" using assms(2) by (cases fuel) auto
  have len: "length (frame_section le c ss) \<le> vector_max" using assms(1) by (simp add: frame_ok_def)
  have parts: "encoded_at (cfi_section ?p) 0 (entry_bytes le (cie_body le c))"
    "encoded_at (cfi_section ?p) (4 + length (cie_body le c)) (fdes_bytes le ss)"
    by (simp_all add: new_cfi_parser_def frame_section_def encoded_at_def)
  have in_body: "encoded_at (cfi_section ?p) (0 + 4) (cie_body le c)"
    using parts(1) by (simp add: entry_bytes_def encoded_at_append)
  have "parse_entry le ?p 0 = obind (parseCIE le ?p 0 (length (cie_body le c)) False)
      (\<lambda>(ok, p'). Ret (Some (0 + 4 + length (cie_body le c), p')))"
    using parse_entry_encoded [OF parts(1) _ _ cie_body_def] assms(1)
    by (simp add: is_cie_id_def new_cfi_parser_def frame_ok_def)
  then have entry: "parse_entry le ?p 0 = Ret (Some (4 + length (cie_body le c), ?q))"
    using parseCIE_encoded [OF in_body] assms(1) len by (simp add: frame_ok_def new_cfi_parser_def)
  have "parse_loop le fuel' ?q (4 + length (cie_body le c)) =
      Some (Ret (?q\<lparr>fdes := fdes ?q @ fdes_of (cie_of le 0 c) le (4 + length (cie_body le c)) ss\<rparr>))"
    using assms len parts(2) fuel
    by (intro parse_loop_fdes) (simp_all add: add_cie_def new_cfi_parser_def cie_of_fields frame_ok_def frame_section_def)
  moreover have "?q\<lparr>fdes := fdes ?q @ fdes_of (cie_of le 0 c) le (4 + length (cie_body le c)) ss\<rparr> = frame_parser le c ss"
    by (simp add: frame_parser_def add_cie_def new_cfi_parser_def cie_of_fields Let_def)
  moreover have ne: "cfi_section ?p \<noteq> []"
    by (simp add: new_cfi_parser_def frame_section_def entry_bytes_def cie_body_def cie_head_def)
  ultimately have "parse_loop le fuel ?p 0 = Some (Ret (frame_parser le c ss))"
    by (simp add: fuel entry)
  then show ?thesis using ne by (simp add: parse_def frame_parser_def Let_def)
qed

text \<open>
  C7: a \<open>.debug_frame\<close> section written from a CIE and any number of frame description entries is
  parsed back to exactly these: one CIE with the written factors, return-address register and
  the row that its initial instructions leave, and the entries in order with their address
  ranges and instructions.
\<close>

theorem frame_round_trip:
  assumes "frame_ok le c ss" and "length ss < fuel"
  shows "parse le fuel (new_cfi_parser (frame_section le c ss) False 8) = Some (Ret (True, frame_parser le c ss))"
  using assms by (rule frame_parsed)

definition example_cie :: cie_source where
  "example_cie = \<lparr>src_version = 4, src_code = 1, src_data = -8, src_ra = 16, src_initial = [0x0c, 7, 8]\<rparr>"

definition example_source :: fde_source where
  "example_source = \<lparr>src_start = 0x1000, src_range = 16, src_instructions = [0x44, 0x0e, 16, 0x44, 0x0e, 8]\<rparr>"

lemma example_encodings:
  "uleb_encode (Suc 0) = [1]" "uleb_encode 16 = [16]" "sleb_encode (- 8) = [0x78]"
  by (simp_all add: uleb_encode.simps sleb_encode.simps)

lemma example_ok: "frame_ok True example_cie [example_source]"
  by (simp add: frame_ok_def cie_source_ok_def body_fits_def cie_body_def fde_body_def cie_head_def frame_section_def
      fdes_bytes_def example_cie_def example_source_def example_encodings vector_max_numeral)

theorem frame_round_trip_witness:
  "parse True 2 (new_cfi_parser (frame_section True example_cie [example_source]) False 8)
     = Some (Ret (True, frame_parser True example_cie [example_source]))"
  using frame_round_trip [OF example_ok] by simp

theorem parse_consistent_witness:
  "list_all (\<lambda>f. fde_cie f \<in> set (cies (frame_parser True example_cie [example_source])) \<and>
     fde_cie_pointer f = cie_offset (fde_cie f)) (fdes (frame_parser True example_cie [example_source]))"
proof -
  have "length (frame_section True example_cie [example_source]) \<le> vector_max"
    using example_ok by (simp add: frame_ok_def)
  moreover have "parse True 2 (setSectionBaseAddress 0 (new_cfi_parser (frame_section True example_cie [example_source]) False 8))
      = Some (Ret (True, frame_parser True example_cie [example_source]))"
    using frame_parsed [OF example_ok, of 2] by (simp add: setSectionBaseAddress_def new_cfi_parser_def)
  ultimately show ?thesis using parse_consistent unfolding list_all_iff by blast
qed

subsection \<open>From the section to the rules\<close>

text \<open>The source whose range holds a program counter, the first one as in the code.\<close>

fun source_at :: "u64 \<Rightarrow> fde_source list \<Rightarrow> fde_source option" where
  "source_at pc [] = None"
| "source_at pc (s # ss) =
     (if src_start s \<le> pc \<and> pc < src_start s + src_range s then Some s else source_at pc ss)"

lemma find_fdes_of:
  "source_at pc ss = Some s \<Longrightarrow> \<exists>off'. find_fde pc (fdes_of cie le off ss) = Some (fde_of cie le off' s)"
  by (induction ss arbitrary: off) (auto simp: fde_of_def split: if_splits)

text \<open>
  The row that encoded initial instructions leave. The row and the initial row of the CIE are
  one object while they run, so that the CIE changes with every step.
\<close>

fun initial_run :: "CIE \<Rightarrow> UnwindRow list \<Rightarrow> frame_instr list \<Rightarrow> CIE" where
  "initial_run cie st [] = cie"
| "initial_run cie st (i # is) =
     (case meaning cie i (initial_row cie, st) of (row', st') \<Rightarrow> initial_run (cie\<lparr>initial_row := row'\<rparr>) st' is)"

lemma initial_loop_encoded:
  assumes "length ins \<le> vector_max"
  shows "\<not> cie_version cie < 3 \<Longrightarrow> encoded_at ins off (concat (map (instr_bytes le) is)) \<Longrightarrow>
    length ins = off + length (concat (map (instr_bytes le) is)) \<Longrightarrow> list_all instr_fits is \<Longrightarrow>
    initial_loop le off ins cie st = initial_run cie st is"
proof (induction "is" arbitrary: off cie st)
  case Nil
  then show ?case by (subst initial_loop.simps) simp
next
  case (Cons i "is")
  have at: "encoded_at ins off (instr_bytes le i)"
      "encoded_at ins (off + length (instr_bytes le i)) (concat (map (instr_bytes le) is))"
    using Cons.prems(2) by (simp_all add: encoded_at_append)
  have run: "executeInstruction le off ins (initial_row cie) cie st
      = (off + length (instr_bytes le i), meaning cie i (initial_row cie, st))"
    using instruction_runs [of i ins cie le] Cons.prems(1,4) assms at(1) by (simp add: runs_as_def)
  obtain row' st' where m: "meaning cie i (initial_row cie, st) = (row', st')" by fastforce
  have "0 < length (instr_bytes le i)" using instr_bytes_nonempty by simp
  then show ?case
    using Cons.IH [OF _ at(2), of "cie\<lparr>initial_row := row'\<rparr>" st'] Cons.prems(1,3,4) run m
    by (subst initial_loop.simps) simp
qed

definition written_cie :: "bool \<Rightarrow> cie_source \<Rightarrow> frame_instr list \<Rightarrow> CIE" where
  "written_cie le c is = initial_run
     ((cie_read c (new_cie 0 (length (cie_body le c))))\<lparr>initial_instructions := src_initial c\<rparr>) [] is"

lemma cie_of_written:
  assumes "src_initial c = concat (map (instr_bytes le) is)" and "list_all instr_fits is"
    and "length (src_initial c) \<le> vector_max" and "3 \<le> src_version c"
  shows "cie_of le 0 c = written_cie le c is"
proof -
  have "\<not> cie_version ((cie_read c cie)\<lparr>initial_instructions := src_initial c\<rparr>) < 3" for cie
    using assms(4) by (simp add: cie_read_def not_less)
  then show ?thesis
    unfolding cie_of_def written_cie_def
    by (rule initial_loop_encoded [OF assms(3)]) (use assms in \<open>simp_all add: encoded_at_def\<close>)
qed

lemma frame_initial_length: "frame_ok le c ss \<Longrightarrow> length (src_initial c) \<le> vector_max"
  by (simp add: frame_ok_def frame_section_def cie_body_def)

text \<open>
  C3: from the bytes of a section to the rules at a program counter. Where the section is
  written from a CIE and frame description entries, with encoded instructions whose locations
  ascend, \<open>getUnwindInfo\<close> on the parsed section answers with the state in force at the
  program counter, starting from the row that the initial instructions of the CIE leave.
\<close>

theorem section_unwinds:
  assumes "frame_ok le c ss" and "length ss < fuel" and "source_at pc ss = Some s" and "3 \<le> src_version c"
    and "src_initial c = concat (map (instr_bytes le) init)" and "list_all instr_fits init"
    and "src_instructions s = concat (map (instr_bytes le) is)" and "list_all instr_fits is"
    and "length (src_instructions s) \<le> vector_max" and "cie = written_cie le c init"
    and "row0 = (initial_row cie)\<lparr>row_location := src_start s\<rparr>" and "locations_ascend cie row0 [] is"
  shows "\<exists>p. parse le fuel (new_cfi_parser (frame_section le c ss) False 8) = Some (Ret (True, p)) \<and>
    getUnwindInfo le pc p =
      (let row = rules_at cie pc row0 [] is
       in \<lparr>info_valid = True, info_pc = pc, info_address_size = 8, info_cfa = row_cfa row,
           info_registers = row_registers row, info_return_register = word_of_nat (src_ra c),
           info_ra_sign = row_ra_sign row\<rparr>)"
proof -
  have cie: "cie_of le 0 c = cie"
    using cie_of_written [OF assms(5,6) frame_initial_length [OF assms(1)] assms(4)] assms(10) by simp
  obtain off where f: "findFDE pc (frame_parser le c ss) = Some (fde_of (cie_of le 0 c) le off s)"
    using find_fdes_of [OF assms(3)] by (fastforce simp: findFDE_def frame_parser_def Let_def)
  have "getUnwindInfo le pc (frame_parser le c ss) =
      (let row = rules_at cie pc row0 [] is
       in \<lparr>info_valid = True, info_pc = pc, info_address_size = 8, info_cfa = row_cfa row,
           info_registers = row_registers row, info_return_register = word_of_nat (src_ra c),
           info_ra_sign = row_ra_sign row\<rparr>)"
    using unwind_info_rules_at [OF f, of le "is"] assms(4,7-9,11,12) cie_of_fields [of le 0 c]
    unfolding cie by (simp add: fde_of_def)
  then show ?thesis using frame_parsed [OF assms(1,2)] by blast
qed

theorem section_unwinds_witness:
  "\<exists>p. parse True 2 (new_cfi_parser (frame_section True example_cie [example_source]) False 8) = Some (Ret (True, p)) \<and>
    info_cfa (getUnwindInfo True 0x1006 p) =
      \<lparr>cfa_type = CFA_REGISTER_OFFSET, cfa_reg = 7, cfa_offset = 16, cfa_expression = []\<rparr>"
proof -
  let ?init = "[I_def_cfa 7 8]"
  let ?is = "[I_advance 4, I_def_cfa_offset 16, I_advance 4, I_def_cfa_offset 8]"
  let ?cie = "written_cie True example_cie ?init"
  let ?row = "(initial_row ?cie)\<lparr>row_location := src_start example_source\<rparr>"
  have ub: "ub 7 = [7]" "ub 8 = [8]" "ub 16 = [16]" by (simp_all add: ub_def uleb_encode.simps)
  note eval = example_cie_def example_source_def written_cie_def cie_read_def new_cie_def new_row_def new_cfa_def
    code_delta_def cfa_is_def
  have at: "source_at 0x1006 [example_source] = Some example_source" by (simp add: example_source_def)
  have code: "src_initial example_cie = concat (map (instr_bytes True) ?init)"
    "src_instructions example_source = concat (map (instr_bytes True) ?is)"
    by (simp_all add: example_cie_def example_source_def ub)
  have len: "length (src_instructions example_source) \<le> vector_max"
    by (simp add: example_source_def vector_max_numeral)
  have asc: "locations_ascend ?cie ?row [] ?is" by (simp add: eval)
  have cfa: "row_cfa (rules_at ?cie 0x1006 ?row [] ?is)
      = \<lparr>cfa_type = CFA_REGISTER_OFFSET, cfa_reg = 7, cfa_offset = 16, cfa_expression = []\<rparr>"
    by (simp add: eval)
  have version: "3 \<le> src_version example_cie" by (simp add: example_cie_def)
  show ?thesis
    using section_unwinds [OF example_ok _ at version code(1) _ code(2) _ len refl refl asc, of 2] cfa
    by (auto simp: Let_def)
qed

end
