(* ===== verification/AttrValues.thy ===== *)
theory AttrValues
  imports FixedWidth
begin

section \<open>Attribute values and forms\<close>

text \<open>
  The attribute values of \<open>include/dwarf_types.hpp\<close> and \<open>include/attribute_parser.hpp\<close>, and the
  codes of the attribute forms. A \<open>std::string\<close> is the text of its bytes; a null \<open>shared_ptr\<close> is
  \<open>None\<close>. The values that a line table preserves are plain ones, so that the two types need no
  mutual recursion.
\<close>

definition text_of :: "bytes \<Rightarrow> string" where
  "text_of bs = map (\<lambda>b. char_of (unat b)) bs"

datatype attribute_value =
    UnsignedAttributeValue u64 | SignedAttributeValue u64 | StringAttributeValue string
  | ReferenceAttributeValue u64 | BlockAttributeValue bytes | FlagAttributeValue bool
  | AddressAttributeValue u64 | ExpressionAttributeValue bytes

subsection \<open>Line tables\<close>

record LineEntry =
  entry_address :: u64
  entry_file :: u32
  entry_line :: u32
  entry_column :: u32
  entry_is_stmt :: bool
  entry_basic_block :: bool
  entry_end_sequence :: bool
  entry_prologue_end :: bool
  entry_epilogue_begin :: bool
  entry_isa :: u32
  entry_discriminator :: u32

type_synonym preserved_field = "u64 \<times> attribute_value"

record FileEntry =
  filename :: string
  dir_index :: u64
  mtime :: u64
  file_size :: u64
  md5 :: bytes
  file_fields :: "preserved_field list"

record DirectoryEntry =
  dir_path :: string
  dir_fields :: "preserved_field list"

record LineAttributeValue =
  line_rows :: "LineEntry list"
  line_directories :: "string list"
  line_files :: "FileEntry list"
  line_directory_entries :: "DirectoryEntry list"

definition empty_line_table :: LineAttributeValue where
  "empty_line_table =
     \<lparr>line_rows = [], line_directories = [], line_files = [], line_directory_entries = []\<rparr>"

definition plain_file :: "string \<Rightarrow> u64 \<Rightarrow> u64 \<Rightarrow> u64 \<Rightarrow> FileEntry" where
  "plain_file name dir time sz =
     \<lparr>filename = name, dir_index = dir, mtime = time, file_size = sz, md5 = [], file_fields = []\<rparr>"

subsection \<open>Form codes\<close>

type_synonym form = u16

abbreviation DW_FORM_addr :: form where "DW_FORM_addr \<equiv> 0x01"
abbreviation DW_FORM_block2 :: form where "DW_FORM_block2 \<equiv> 0x03"
abbreviation DW_FORM_block4 :: form where "DW_FORM_block4 \<equiv> 0x04"
abbreviation DW_FORM_data2 :: form where "DW_FORM_data2 \<equiv> 0x05"
abbreviation DW_FORM_data4 :: form where "DW_FORM_data4 \<equiv> 0x06"
abbreviation DW_FORM_data8 :: form where "DW_FORM_data8 \<equiv> 0x07"
abbreviation DW_FORM_string :: form where "DW_FORM_string \<equiv> 0x08"
abbreviation DW_FORM_block :: form where "DW_FORM_block \<equiv> 0x09"
abbreviation DW_FORM_block1 :: form where "DW_FORM_block1 \<equiv> 0x0a"
abbreviation DW_FORM_data1 :: form where "DW_FORM_data1 \<equiv> 0x0b"
abbreviation DW_FORM_flag :: form where "DW_FORM_flag \<equiv> 0x0c"
abbreviation DW_FORM_sdata :: form where "DW_FORM_sdata \<equiv> 0x0d"
abbreviation DW_FORM_strp :: form where "DW_FORM_strp \<equiv> 0x0e"
abbreviation DW_FORM_udata :: form where "DW_FORM_udata \<equiv> 0x0f"
abbreviation DW_FORM_ref_addr :: form where "DW_FORM_ref_addr \<equiv> 0x10"
abbreviation DW_FORM_ref1 :: form where "DW_FORM_ref1 \<equiv> 0x11"
abbreviation DW_FORM_ref2 :: form where "DW_FORM_ref2 \<equiv> 0x12"
abbreviation DW_FORM_ref4 :: form where "DW_FORM_ref4 \<equiv> 0x13"
abbreviation DW_FORM_ref8 :: form where "DW_FORM_ref8 \<equiv> 0x14"
abbreviation DW_FORM_ref_udata :: form where "DW_FORM_ref_udata \<equiv> 0x15"
abbreviation DW_FORM_indirect :: form where "DW_FORM_indirect \<equiv> 0x16"
abbreviation DW_FORM_sec_offset :: form where "DW_FORM_sec_offset \<equiv> 0x17"
abbreviation DW_FORM_exprloc :: form where "DW_FORM_exprloc \<equiv> 0x18"
abbreviation DW_FORM_flag_present :: form where "DW_FORM_flag_present \<equiv> 0x19"
abbreviation DW_FORM_ref_sig8 :: form where "DW_FORM_ref_sig8 \<equiv> 0x20"
abbreviation DW_FORM_strx :: form where "DW_FORM_strx \<equiv> 0x1a"
abbreviation DW_FORM_addrx :: form where "DW_FORM_addrx \<equiv> 0x1b"
abbreviation DW_FORM_ref_sup4 :: form where "DW_FORM_ref_sup4 \<equiv> 0x1c"
abbreviation DW_FORM_strp_sup :: form where "DW_FORM_strp_sup \<equiv> 0x1d"
abbreviation DW_FORM_data16 :: form where "DW_FORM_data16 \<equiv> 0x1e"
abbreviation DW_FORM_line_strp :: form where "DW_FORM_line_strp \<equiv> 0x1f"
abbreviation DW_FORM_implicit_const :: form where "DW_FORM_implicit_const \<equiv> 0x21"
abbreviation DW_FORM_loclistx :: form where "DW_FORM_loclistx \<equiv> 0x22"
abbreviation DW_FORM_rnglistx :: form where "DW_FORM_rnglistx \<equiv> 0x23"
abbreviation DW_FORM_ref_sup8 :: form where "DW_FORM_ref_sup8 \<equiv> 0x24"
abbreviation DW_FORM_strx1 :: form where "DW_FORM_strx1 \<equiv> 0x25"
abbreviation DW_FORM_strx2 :: form where "DW_FORM_strx2 \<equiv> 0x26"
abbreviation DW_FORM_strx3 :: form where "DW_FORM_strx3 \<equiv> 0x27"
abbreviation DW_FORM_strx4 :: form where "DW_FORM_strx4 \<equiv> 0x28"
abbreviation DW_FORM_addrx1 :: form where "DW_FORM_addrx1 \<equiv> 0x29"
abbreviation DW_FORM_addrx2 :: form where "DW_FORM_addrx2 \<equiv> 0x2a"
abbreviation DW_FORM_addrx3 :: form where "DW_FORM_addrx3 \<equiv> 0x2b"
abbreviation DW_FORM_addrx4 :: form where "DW_FORM_addrx4 \<equiv> 0x2c"
abbreviation DW_FORM_GNU_addr_index :: form where "DW_FORM_GNU_addr_index \<equiv> 0x1f01"
abbreviation DW_FORM_GNU_str_index :: form where "DW_FORM_GNU_str_index \<equiv> 0x1f02"
abbreviation DW_FORM_GNU_ref_alt :: form where "DW_FORM_GNU_ref_alt \<equiv> 0x1f20"
abbreviation DW_FORM_GNU_strp_alt :: form where "DW_FORM_GNU_strp_alt \<equiv> 0x1f21"

subsection \<open>Strings in a section\<close>

text \<open>
  The bytes from an offset up to the first zero byte, and whether there was one before the end.
\<close>

definition until_nul :: "bytes \<Rightarrow> nat \<Rightarrow> nat \<Rightarrow> bytes \<times> bool" where
  "until_nul d off mx =
     (let rest = take (mx - off) (drop off d); bs = takeWhile (\<lambda>b. b \<noteq> 0) rest
      in (bs, length bs < length rest))"

definition cstring_in :: "bytes \<Rightarrow> nat \<Rightarrow> string" where
  "cstring_in d off = (if length d \<le> off then [] else text_of (fst (until_nul d off (length d))))"

subsection \<open>The initial length of a unit\<close>

text \<open>
  Whether the unit is a 64-bit one, its end and the offset behind the length; \<open>None\<close> when the end is
  outside the section or before the unit. Line tables and the contributions of DWARF 5 begin so.
\<close>

definition unit_bounds :: "bool \<Rightarrow> bytes \<Rightarrow> nat \<Rightarrow> (bool \<times> nat \<times> nat) option outcome" where
  "unit_bounds le d start =
     obind (readU32 le d start (length d)) (\<lambda>(initial_length, off).
       let is64 = (initial_length = 0xffffffff) in
       obind (if is64 then readU64 le d off (length d) else Ret (ucast initial_length, off)) (\<lambda>(len, off).
         let unit_end = u64_add (start + (if is64 then 12 else 4)) (unat len)
         in if length d < unit_end \<or> unit_end < off then Ret None else Ret (Some (is64, unit_end, off))))"

definition read_offset :: "bool \<Rightarrow> bool \<Rightarrow> bytes \<Rightarrow> nat \<Rightarrow> nat \<Rightarrow> (u64 \<times> nat) outcome" where
  "read_offset le is64 d off mx =
     (if is64 then readU64 le d off mx
      else obind (readU32 le d off mx) (\<lambda>(v, off'). Ret (ucast v, off')))"

end
