(* ===== verification/LineHeader.thy ===== *)
theory LineHeader
  imports AttrValues
begin

section \<open>Line tables: the header\<close>

text \<open>
  The first part of \<open>AttributeParser::parseLineNumberProgram\<close>: the bounds of the unit, the header
  fields, and the directory and file tables of DWARF 2 to 4 (strings) and of DWARF 5 (described by
  entry formats). Most reads are bounded by the end of the unit, some by the end of the header.
\<close>

record line_unit =
  lu_data :: bytes
  lu_str :: bytes
  lu_line_str :: bytes
  lu_is64 :: bool
  lu_end :: nat
  lu_header_end :: nat
  lu_address_size :: u8

record line_header =
  min_instruction_length :: u8
  max_operations :: u8
  default_is_stmt :: bool
  line_base :: u8
  line_range :: u8
  opcode_base :: u8
  standard_opcode_lengths :: bytes

record line_tables =
  lt_directories :: "string list"
  lt_files :: "FileEntry list"
  lt_directory_entries :: "DirectoryEntry list"

definition no_tables :: line_tables where
  "no_tables = \<lparr>lt_directories = [], lt_files = [], lt_directory_entries = []\<rparr>"

subsection \<open>Strings\<close>

text \<open>
  The lambda \<open>readCString\<close>: an unterminated string is dropped and the offset is the end. The end
  is never behind the end of the section.
\<close>

definition readCString :: "bytes \<Rightarrow> nat \<Rightarrow> nat \<Rightarrow> string \<times> nat" where
  "readCString d off mx =
     (if mx \<le> off then ([], off)
      else case until_nul d off mx of (bs, terminated) \<Rightarrow>
        if terminated then (text_of bs, Suc (off + length bs)) else ([], mx))"

subsection \<open>Tables of DWARF 2 to 4\<close>

lemma readCString_forward: "off < mx \<Longrightarrow> readCString d off mx = (s, off') \<Longrightarrow> off < off'"
  by (auto simp: readCString_def split: prod.splits if_splits)

function include_directories :: "bytes \<Rightarrow> nat \<Rightarrow> nat \<Rightarrow> string list \<Rightarrow> string list \<times> nat" where
  "include_directories d off header_end acc =
     (if off < header_end then
        case readCString d off header_end of (dir, off') \<Rightarrow>
          if dir = [] then (acc, off') else include_directories d off' header_end (acc @ [dir])
      else (acc, off))"
  by pat_completeness auto
termination
proof (relation "measure (\<lambda>(d, off, mx, acc). mx - off)")
  fix d :: bytes and off header_end off' dir and acc :: "string list"
  assume "off < header_end" "(dir, off') = readCString d off header_end"
  then show "((d, off', header_end, acc @ [dir]), d, off, header_end, acc) \<in> measure (\<lambda>(d, off, mx, acc). mx - off)"
    using readCString_forward [of off header_end d dir off'] by simp
qed simp

declare include_directories.simps [simp del]

text \<open>One file entry behind its name: three numbers.\<close>

definition file_numbers :: "bytes \<Rightarrow> nat \<Rightarrow> nat \<Rightarrow> (u64 \<times> u64 \<times> u64 \<times> nat) outcome" where
  "file_numbers d off mx =
     obind (readULEB128 d off mx) (\<lambda>(dir, off).
     obind (readULEB128 d off mx) (\<lambda>(time, off).
     obind (readULEB128 d off mx) (\<lambda>(sz, off). Ret (dir, time, sz, off))))"

lemma file_numbers_forward: "file_numbers d off mx = Ret (x, y, z, off') \<Longrightarrow> off \<le> off'"
  by (auto simp: file_numbers_def obind_eq_Ret dest!: uleb_reader.rd_forward)

function file_names :: "bytes \<Rightarrow> nat \<Rightarrow> nat \<Rightarrow> nat \<Rightarrow> FileEntry list \<Rightarrow> (FileEntry list \<times> nat) outcome" where
  "file_names d off header_end unit_end acc =
     (if off < header_end then
        case readCString d off header_end of (name, off') \<Rightarrow>
          if name = [] then Ret (acc, off')
          else obind (file_numbers d off' unit_end) (\<lambda>(dir, time, sz, off'').
                 file_names d off'' header_end unit_end (acc @ [plain_file name dir time sz]))
      else Ret (acc, off))"
  by pat_completeness auto
termination
proof (relation "measure (\<lambda>(d, off, mx, ue, acc). mx - off)")
  fix d :: bytes and off header_end unit_end off' off'' name and acc :: "FileEntry list" and x y z dir time sz
  assume "off < header_end" "(name, off') = readCString d off header_end"
    and n: "file_numbers d off' unit_end = Ret x" "(dir, y) = x" "(time, z) = y" "(sz, off'') = z"
  then have "off < off'" using readCString_forward [of off header_end d name off'] by simp
  moreover have "off' \<le> off''" using file_numbers_forward [of d off' unit_end dir time sz off''] n by simp
  ultimately show "((d, off'', header_end, unit_end, acc @ [plain_file name dir time sz]), d, off, header_end, unit_end, acc)
      \<in> measure (\<lambda>(d, off, mx, ue, acc). mx - off)"
    using \<open>off < header_end\<close> by simp
qed simp

declare file_names.simps [simp del]

definition tables_v4 :: "line_unit \<Rightarrow> nat \<Rightarrow> line_tables outcome" where
  "tables_v4 u off =
     (case include_directories (lu_data u) off (lu_header_end u) [] of (dirs, off) \<Rightarrow>
        obind (file_names (lu_data u) off (lu_header_end u) (lu_end u) []) (\<lambda>(files, off).
          Ret \<lparr>lt_directories = dirs, lt_files = files, lt_directory_entries = []\<rparr>))"

subsection \<open>Fields of DWARF 5\<close>

text \<open>The lambda \<open>skipForm\<close>: the offset behind the field, \<open>None\<close> when it returns false.\<close>

definition skip_fixed :: "nat \<Rightarrow> nat \<Rightarrow> nat \<Rightarrow> nat option outcome" where
  "skip_fixed n off mx = Ret (if mx < off + n then None else Some (off + n))"

definition skip_block :: "nat \<Rightarrow> nat \<Rightarrow> nat \<Rightarrow> nat option outcome" where
  "skip_block n off mx = Ret (if mx < u64_add off n then None else Some (u64_add off n))"

definition skipForm :: "bool \<Rightarrow> line_unit \<Rightarrow> form \<Rightarrow> nat \<Rightarrow> nat option outcome" where
  "skipForm le u f off =
     (let d = lu_data u; mx = lu_header_end u in
      if f = DW_FORM_string then Ret (Some (snd (readCString d off mx)))
      else if f = DW_FORM_line_strp \<or> f = DW_FORM_strp \<or> f = DW_FORM_sec_offset then
        obind (read_offset le (lu_is64 u) d off mx) (\<lambda>(v, off'). Ret (Some off'))
      else if f = DW_FORM_udata then obind (readULEB128 d off mx) (\<lambda>(v, off'). Ret (Some off'))
      else if f = DW_FORM_sdata then obind (readSLEB128 d off mx) (\<lambda>(v, off'). Ret (Some off'))
      else if f = DW_FORM_data1 \<or> f = DW_FORM_flag \<or> f = DW_FORM_ref1 then skip_fixed 1 off mx
      else if f = DW_FORM_data2 \<or> f = DW_FORM_ref2 then skip_fixed 2 off mx
      else if f = DW_FORM_data4 \<or> f = DW_FORM_ref4 then skip_fixed 4 off mx
      else if f = DW_FORM_data8 \<or> f = DW_FORM_ref8 \<or> f = DW_FORM_ref_sig8 then skip_fixed 8 off mx
      else if f = DW_FORM_data16 then skip_fixed 16 off mx
      else if f = DW_FORM_addr then skip_fixed (unat (lu_address_size u)) off mx
      else if f = DW_FORM_flag_present then Ret (Some off)
      else if f = DW_FORM_block1 then
        (if mx < off + 1 then Ret None
         else obind (byte_at d off) (\<lambda>n. skip_block (unat n) (Suc off) mx))
      else if f = DW_FORM_block2 then
        (if mx < off + 2 then Ret None
         else obind (readU16 le d off mx) (\<lambda>(n, off). skip_block (unat n) off mx))
      else if f = DW_FORM_block4 then
        (if mx < off + 4 then Ret None
         else obind (readU32 le d off mx) (\<lambda>(n, off). skip_block (unat n) off mx))
      else if f = DW_FORM_block then
        obind (readULEB128 d off mx) (\<lambda>(n, off). skip_block (unat n) off mx)
      else Ret None)"

text \<open>
  \<open>data.assign(begin + off, begin + (off + n))\<close>: a sum that wraps around makes the range a negative
  one, which is a vector that is too long; a range that ends behind the section is read outside it.
\<close>

definition assign_block :: "bytes \<Rightarrow> nat \<Rightarrow> nat \<Rightarrow> (bytes \<times> nat) outcome" where
  "assign_block d off n =
     (if off + n \<le> length d then Ret (take n (drop off d), off + n)
      else if vector_max < n then Throw (LengthError ''cannot create std::vector larger than max_size()'')
      else Undef OobRead)"

definition block_length :: "bool \<Rightarrow> line_unit \<Rightarrow> form \<Rightarrow> nat \<Rightarrow> (nat \<times> nat) outcome" where
  "block_length le u f off =
     (let d = lu_data u; mx = lu_end u in
      if f = DW_FORM_block1 then obind (readU8 d off mx) (\<lambda>(n, off). Ret (unat n, off))
      else if f = DW_FORM_block2 then obind (readU16 le d off mx) (\<lambda>(n, off). Ret (unat n, off))
      else if f = DW_FORM_block4 then obind (readU32 le d off mx) (\<lambda>(n, off). Ret (unat n, off))
      else obind (readULEB128 d off mx) (\<lambda>(n, off). Ret (unat n, off)))"

definition line_block :: "bool \<Rightarrow> line_unit \<Rightarrow> form \<Rightarrow> nat \<Rightarrow> (attribute_value option \<times> nat) outcome" where
  "line_block le u f off =
     obind (skipForm le u f off) (\<lambda>skipped.
       case skipped of
         None \<Rightarrow> Ret (None, lu_header_end u)
       | Some _ \<Rightarrow>
           obind (block_length le u f off) (\<lambda>(n, off).
           obind (assign_block (lu_data u) off n) (\<lambda>(bs, off). Ret (Some (BlockAttributeValue bs), off))))"

text \<open>A value read by a reader, as an attribute value.\<close>

definition as_value :: "('v \<Rightarrow> attribute_value) \<Rightarrow> ('v \<times> nat) outcome \<Rightarrow> (attribute_value option \<times> nat) outcome" where
  "as_value mk r = obind r (\<lambda>(v, off). Ret (Some (mk v), off))"

definition parseLineField :: "bool \<Rightarrow> line_unit \<Rightarrow> form \<Rightarrow> nat \<Rightarrow> (attribute_value option \<times> nat) outcome" where
  "parseLineField le u f off =
     (let d = lu_data u; mx = lu_end u; header_end = lu_header_end u in
      if f = DW_FORM_string then
        (case readCString d off header_end of (s, off') \<Rightarrow> Ret (Some (StringAttributeValue s), off'))
      else if f = DW_FORM_line_strp then
        as_value (\<lambda>v. StringAttributeValue (cstring_in (lu_line_str u) (unat v))) (read_offset le (lu_is64 u) d off mx)
      else if f = DW_FORM_strp then
        as_value (\<lambda>v. StringAttributeValue (cstring_in (lu_str u) (unat v))) (read_offset le (lu_is64 u) d off mx)
      else if f = DW_FORM_udata then as_value UnsignedAttributeValue (readULEB128 d off mx)
      else if f = DW_FORM_sdata then as_value SignedAttributeValue (readSLEB128 d off mx)
      else if f = DW_FORM_data1 then as_value (\<lambda>v. UnsignedAttributeValue (ucast v)) (readU8 d off mx)
      else if f = DW_FORM_data2 then as_value (\<lambda>v. UnsignedAttributeValue (ucast v)) (readU16 le d off mx)
      else if f = DW_FORM_data4 then as_value (\<lambda>v. UnsignedAttributeValue (ucast v)) (readU32 le d off mx)
      else if f = DW_FORM_data8 then as_value UnsignedAttributeValue (readU64 le d off mx)
      else if f = DW_FORM_sec_offset then as_value UnsignedAttributeValue (read_offset le (lu_is64 u) d off mx)
      else if f = DW_FORM_flag then as_value (\<lambda>v. FlagAttributeValue (v \<noteq> 0)) (readU8 d off mx)
      else if f = DW_FORM_flag_present then Ret (Some (FlagAttributeValue True), off)
      else if f = DW_FORM_data16 then
        (if header_end < off + 16 then Ret (None, header_end)
         else Ret (Some (BlockAttributeValue (take 16 (drop off d))), off + 16))
      else if f = DW_FORM_block1 \<or> f = DW_FORM_block2 \<or> f = DW_FORM_block4 \<or> f = DW_FORM_block then
        line_block le u f off
      else if f = DW_FORM_addr then
        as_value AddressAttributeValue (read_offset le (lu_address_size u = 8) d off mx)
      else
        obind (skipForm le u f off) (\<lambda>skipped.
          case skipped of None \<Rightarrow> Ret (None, header_end) | Some off' \<Rightarrow> Ret (None, off')))"

subsection \<open>Tables of DWARF 5\<close>

text \<open>The fields of one entry; \<open>put\<close> stores a value under its content type.\<close>

fun entry_fields ::
  "bool \<Rightarrow> line_unit \<Rightarrow> (u64 \<Rightarrow> attribute_value \<Rightarrow> 'e \<Rightarrow> 'e) \<Rightarrow> (u64 \<times> form) list \<Rightarrow> nat \<Rightarrow> 'e \<Rightarrow> ('e \<times> nat) outcome" where
  "entry_fields le u put [] off e = Ret (e, off)"
| "entry_fields le u put ((content_type, f) # fs) off e =
     obind (parseLineField le u f off) (\<lambda>(v, off').
       case v of
         None \<Rightarrow> if lu_header_end u \<le> off' then Ret (e, lu_header_end u) else entry_fields le u put fs off' e
       | Some x \<Rightarrow> entry_fields le u put fs off' (put content_type x e))"

definition put_directory :: "u64 \<Rightarrow> attribute_value \<Rightarrow> DirectoryEntry \<Rightarrow> DirectoryEntry" where
  "put_directory content_type v e =
     (case v of
        StringAttributeValue s \<Rightarrow>
          if content_type = 1 then e\<lparr>dir_path := s\<rparr> else e\<lparr>dir_fields := dir_fields e @ [(content_type, v)]\<rparr>
      | _ \<Rightarrow> e\<lparr>dir_fields := dir_fields e @ [(content_type, v)]\<rparr>)"

definition put_file :: "u64 \<Rightarrow> attribute_value \<Rightarrow> FileEntry \<Rightarrow> FileEntry" where
  "put_file content_type v e =
     (let kept = e\<lparr>file_fields := file_fields e @ [(content_type, v)]\<rparr> in
      case v of
        StringAttributeValue s \<Rightarrow> if content_type = 1 then e\<lparr>filename := s\<rparr> else kept
      | UnsignedAttributeValue n \<Rightarrow>
          if content_type = 2 then e\<lparr>dir_index := n\<rparr>
          else if content_type = 3 then e\<lparr>mtime := n\<rparr>
          else if content_type = 4 then e\<lparr>file_size := n\<rparr>
          else kept
      | BlockAttributeValue b \<Rightarrow> if content_type = 5 then e\<lparr>md5 := b\<rparr> else kept
      | _ \<Rightarrow> kept)"

fun read_format :: "bytes \<Rightarrow> nat \<Rightarrow> nat \<Rightarrow> nat \<Rightarrow> ((u64 \<times> form) list \<times> nat) outcome" where
  "read_format d mx 0 off = Ret ([], off)"
| "read_format d mx (Suc n) off =
     obind (readULEB128 d off mx) (\<lambda>(content_type, off).
     obind (readULEB128 d off mx) (\<lambda>(f, off).
     obind (read_format d mx n off) (\<lambda>(fs, off). Ret ((content_type, ucast f) # fs, off))))"

fun read_entries :: "(nat \<Rightarrow> ('e \<times> nat) outcome) \<Rightarrow> nat \<Rightarrow> nat \<Rightarrow> ('e list \<times> nat) outcome" where
  "read_entries rd 0 off = Ret ([], off)"
| "read_entries rd (Suc n) off =
     obind (rd off) (\<lambda>(e, off). obind (read_entries rd n off) (\<lambda>(es, off). Ret (e # es, off)))"

text \<open>A table: the format of its entries, their number, the entries.\<close>

definition read_table ::
  "bool \<Rightarrow> line_unit \<Rightarrow> (u64 \<Rightarrow> attribute_value \<Rightarrow> 'e \<Rightarrow> 'e) \<Rightarrow> 'e \<Rightarrow> nat \<Rightarrow> ('e list \<times> nat) outcome" where
  "read_table le u put new off =
     (let d = lu_data u; mx = lu_end u in
      obind (readU8 d off mx) (\<lambda>(format_count, off).
      obind (read_format d mx (unat format_count) off) (\<lambda>(format, off).
      obind (readULEB128 d off mx) (\<lambda>(count, off).
        read_entries (\<lambda>off. entry_fields le u put format off new) (unat count) off))))"

definition tables_v5 :: "bool \<Rightarrow> line_unit \<Rightarrow> nat \<Rightarrow> line_tables outcome" where
  "tables_v5 le u off =
     obind (read_table le u put_directory \<lparr>dir_path = [], dir_fields = []\<rparr> off) (\<lambda>(dirs, off).
     obind (read_table le u put_file (plain_file [] 0 0 0) off) (\<lambda>(files, off).
       Ret \<lparr>lt_directories = map dir_path dirs, lt_files = files, lt_directory_entries = dirs\<rparr>))"

subsection \<open>The header\<close>

fun read_opcode_lengths :: "bytes \<Rightarrow> nat \<Rightarrow> nat \<Rightarrow> nat \<Rightarrow> nat \<Rightarrow> (bytes \<times> nat) outcome" where
  "read_opcode_lengths d header_end mx 0 off = Ret ([], off)"
| "read_opcode_lengths d header_end mx (Suc n) off =
     (if off < header_end then
        obind (readU8 d off mx) (\<lambda>(len, off).
        obind (read_opcode_lengths d header_end mx n off) (\<lambda>(lens, off). Ret (len # lens, off)))
      else Ret ([], off))"

text \<open>
  The header of a unit with the given bounds: the unit with the end of its header, the fields, and
  the tables. \<open>None\<close> when the header does not fit the unit.
\<close>

definition parse_line_header ::
  "bool \<Rightarrow> bytes \<Rightarrow> bytes \<Rightarrow> bytes \<Rightarrow> u8 \<Rightarrow> bool \<Rightarrow> nat \<Rightarrow> nat \<Rightarrow> (line_unit \<times> line_header \<times> line_tables) option outcome" where
  "parse_line_header le d str line_str default_asz is64 unit_end off =
     obind (readU16 le d off unit_end) (\<lambda>(version, off).
     obind (if 5 \<le> version then readU8 d off unit_end else Ret (default_asz, off)) (\<lambda>(asz, off).
     obind (if 5 \<le> version then readU8 d off unit_end else Ret (0, off)) (\<lambda>(segment_selector_size, off).
     obind (read_offset le is64 d off unit_end) (\<lambda>(header_length, off).
       let header_end = u64_add off (unat header_length) in
       if unit_end < header_end then Ret None
       else
         obind (readU8 d off unit_end) (\<lambda>(min_inst, off).
         obind (if 4 \<le> version then readU8 d off unit_end else Ret (1, off)) (\<lambda>(max_ops, off).
         obind (readU8 d off unit_end) (\<lambda>(is_stmt, off).
         obind (readU8 d off unit_end) (\<lambda>(base, off).
         obind (readU8 d off unit_end) (\<lambda>(range, off).
         obind (readU8 d off unit_end) (\<lambda>(opbase, off).
         obind (read_opcode_lengths d header_end unit_end (unat opbase - 1) off) (\<lambda>(lens, off).
           let u = \<lparr>lu_data = d, lu_str = str, lu_line_str = line_str, lu_is64 = is64, lu_end = unit_end,
                    lu_header_end = header_end, lu_address_size = asz\<rparr>;
               h = \<lparr>min_instruction_length = min_inst, max_operations = max_ops, default_is_stmt = (is_stmt \<noteq> 0),
                    line_base = base, line_range = range, opcode_base = opbase, standard_opcode_lengths = lens\<rparr>
           in obind (if version < 5 then tables_v4 u off else tables_v5 le u off) (\<lambda>t.
                Ret (Some (u, h, t))))))))))))))"

end
