(* ===== verification/LineProgram.thy ===== *)
theory LineProgram
  imports LineHeader
begin

section \<open>Line tables: the program\<close>

text \<open>
  The second part of \<open>AttributeParser::parseLineNumberProgram\<close>: the registers (\<open>LineState\<close>), one
  handler per kind of opcode, and the loop over the program. The end of an extended opcode can
  wrap around, so that the loop may run for ever; it takes fuel, and \<open>None\<close> means that the fuel did
  not suffice. Sums of signed 32-bit registers wrap around.
\<close>

subsection \<open>Registers\<close>

record LineState =
  ls_address :: u64
  ls_op_index :: u32
  ls_file :: u32
  ls_line :: u32
  ls_column :: u32
  ls_is_stmt :: bool
  ls_basic_block :: bool
  ls_end_sequence :: bool
  ls_prologue_end :: bool
  ls_epilogue_begin :: bool
  ls_isa :: u32
  ls_discriminator :: u32

definition reset_state :: "bool \<Rightarrow> LineState" where
  "reset_state is_stmt =
     \<lparr>ls_address = 0, ls_op_index = 0, ls_file = 1, ls_line = 1, ls_column = 0, ls_is_stmt = is_stmt,
      ls_basic_block = False, ls_end_sequence = False, ls_prologue_end = False, ls_epilogue_begin = False,
      ls_isa = 0, ls_discriminator = 0\<rparr>"

record line_machine =
  lm_state :: LineState
  lm_rows :: "LineEntry list"
  lm_files :: "FileEntry list"

definition with_state :: "(LineState \<Rightarrow> LineState) \<Rightarrow> line_machine \<Rightarrow> line_machine" where
  "with_state f m = m\<lparr>lm_state := f (lm_state m)\<rparr>"

definition row_of :: "LineState \<Rightarrow> LineEntry" where
  "row_of s =
     \<lparr>entry_address = ls_address s, entry_file = ls_file s, entry_line = ls_line s, entry_column = ls_column s,
      entry_is_stmt = ls_is_stmt s, entry_basic_block = ls_basic_block s, entry_end_sequence = ls_end_sequence s,
      entry_prologue_end = ls_prologue_end s, entry_epilogue_begin = ls_epilogue_begin s, entry_isa = ls_isa s,
      entry_discriminator = ls_discriminator s\<rparr>"

text \<open>The lambda \<open>appendRow\<close>.\<close>

definition appendRow :: "line_machine \<Rightarrow> line_machine" where
  "appendRow m =
     m\<lparr>lm_rows := lm_rows m @ [row_of (lm_state m)],
       lm_state := (lm_state m)\<lparr>ls_basic_block := False, ls_prologue_end := False, ls_epilogue_begin := False,
                                ls_discriminator := 0\<rparr>\<rparr>"

subsection \<open>Advancing the address\<close>

text \<open>With several operations per instruction; the computation is one of 32 bits.\<close>

definition advance_ops :: "line_header \<Rightarrow> u32 \<Rightarrow> LineState \<Rightarrow> LineState outcome" where
  "advance_ops h operation_advance s =
     (let new_op_index = ls_op_index s + operation_advance; ops = ucast (max_operations h) in
      if ops = 0 then Undef DivZero
      else Ret (s\<lparr>ls_address := ls_address s + ucast ((new_op_index div ops) * ucast (min_instruction_length h)),
                  ls_op_index := new_op_index mod ops\<rparr>))"

definition advance_pc :: "line_header \<Rightarrow> u64 \<Rightarrow> LineState \<Rightarrow> LineState outcome" where
  "advance_pc h operation_advance s =
     (if max_operations h = 1
      then Ret (s\<lparr>ls_address := ls_address s + operation_advance * ucast (min_instruction_length h)\<rparr>)
      else advance_ops h (ucast operation_advance) s)"

text \<open>The advance of a special opcode; a line range of zero is a division by zero.\<close>

definition advance_adjusted :: "line_header \<Rightarrow> u8 \<Rightarrow> LineState \<Rightarrow> LineState outcome" where
  "advance_adjusted h adjusted s =
     (if line_range h = 0 then Undef DivZero
      else if max_operations h = 1
      then Ret (s\<lparr>ls_address := ls_address s + ucast (adjusted div line_range h) * ucast (min_instruction_length h)\<rparr>)
      else advance_ops h (ucast (adjusted div line_range h)) s)"

subsection \<open>Opcodes\<close>

type_synonym line_step = "nat \<times> line_machine"

definition moved :: "nat \<Rightarrow> line_machine \<Rightarrow> LineState outcome \<Rightarrow> line_step outcome" where
  "moved off m r = obind r (\<lambda>s. Ret (off, m\<lparr>lm_state := s\<rparr>))"

fun skip_operands :: "bytes \<Rightarrow> nat \<Rightarrow> nat \<Rightarrow> nat \<Rightarrow> nat outcome" where
  "skip_operands d mx 0 off = Ret off"
| "skip_operands d mx (Suc n) off = obind (readULEB128 d off mx) (\<lambda>(v, off). skip_operands d mx n off)"

definition standard_opcode ::
  "bool \<Rightarrow> line_unit \<Rightarrow> line_header \<Rightarrow> u8 \<Rightarrow> nat \<Rightarrow> line_machine \<Rightarrow> line_step outcome" where
  "standard_opcode le u h opcode off m =
     (let d = lu_data u; mx = lu_end u in
      if opcode = 1 then Ret (off, appendRow m)
      else if opcode = 2 then
        obind (readULEB128 d off mx) (\<lambda>(v, off). moved off m (advance_pc h v (lm_state m)))
      else if opcode = 3 then
        obind (readSLEB128 d off mx) (\<lambda>(v, off). Ret (off, with_state (\<lambda>s. s\<lparr>ls_line := ls_line s + ucast v\<rparr>) m))
      else if opcode = 4 then
        obind (readULEB128 d off mx) (\<lambda>(v, off). Ret (off, with_state (\<lambda>s. s\<lparr>ls_file := ucast v\<rparr>) m))
      else if opcode = 5 then
        obind (readULEB128 d off mx) (\<lambda>(v, off). Ret (off, with_state (\<lambda>s. s\<lparr>ls_column := ucast v\<rparr>) m))
      else if opcode = 6 then Ret (off, with_state (\<lambda>s. s\<lparr>ls_is_stmt := \<not> ls_is_stmt s\<rparr>) m)
      else if opcode = 7 then Ret (off, with_state (\<lambda>s. s\<lparr>ls_basic_block := True\<rparr>) m)
      else if opcode = 8 then moved off m (advance_adjusted h (255 - opcode_base h) (lm_state m))
      else if opcode = 9 then
        obind (readU16 le d off mx) (\<lambda>(v, off).
          Ret (off, with_state (\<lambda>s. s\<lparr>ls_address := ls_address s + ucast v, ls_op_index := 0\<rparr>) m))
      else if opcode = 10 then Ret (off, with_state (\<lambda>s. s\<lparr>ls_prologue_end := True\<rparr>) m)
      else if opcode = 11 then Ret (off, with_state (\<lambda>s. s\<lparr>ls_epilogue_begin := True\<rparr>) m)
      else if opcode = 12 then
        obind (readULEB128 d off mx) (\<lambda>(v, off). Ret (off, with_state (\<lambda>s. s\<lparr>ls_isa := ucast v\<rparr>) m))
      else if unat opcode - 1 < length (standard_opcode_lengths h) then
        obind (skip_operands d mx (unat (standard_opcode_lengths h ! (unat opcode - 1))) off) (\<lambda>off. Ret (off, m))
      else Ret (off, m))"

definition special_opcode :: "line_header \<Rightarrow> u8 \<Rightarrow> nat \<Rightarrow> line_machine \<Rightarrow> line_step outcome" where
  "special_opcode h opcode off m =
     (let adjusted = opcode - opcode_base h in
      obind (advance_adjusted h adjusted (lm_state m)) (\<lambda>s.
        Ret (off, appendRow (m\<lparr>lm_state := s\<lparr>ls_line := ls_line s + scast (line_base h)
                                                    + ucast (adjusted mod line_range h)\<rparr>\<rparr>))))"

text \<open>An extended opcode whose end is \<open>ext_end\<close>, behind its code.\<close>

definition extended_body ::
  "bool \<Rightarrow> line_unit \<Rightarrow> line_header \<Rightarrow> u8 \<Rightarrow> nat \<Rightarrow> nat \<Rightarrow> line_machine \<Rightarrow> line_step outcome" where
  "extended_body le u h code ext_end off m =
     (let d = lu_data u in
      if code = 1 then
        Ret (off, (appendRow (with_state (\<lambda>s. s\<lparr>ls_end_sequence := True\<rparr>) m))\<lparr>lm_state := reset_state (default_is_stmt h)\<rparr>)
      else if code = 2 then
        obind (read_offset le (lu_address_size u = 8) d off (lu_end u)) (\<lambda>(v, off).
          Ret (off, with_state (\<lambda>s. s\<lparr>ls_address := v, ls_op_index := 0\<rparr>) m))
      else if code = 3 then
        (case readCString d off ext_end of (name, off) \<Rightarrow>
          obind (file_numbers d off ext_end) (\<lambda>(dir, time, sz, off).
            Ret (off, m\<lparr>lm_files := lm_files m @ [plain_file name dir time sz]\<rparr>)))
      else if code = 4 then
        obind (readULEB128 d off ext_end) (\<lambda>(v, off). Ret (off, with_state (\<lambda>s. s\<lparr>ls_discriminator := ucast v\<rparr>) m))
      else Ret (ext_end, m))"

text \<open>\<open>None\<close> is \<open>break\<close>.\<close>

definition extended_opcode ::
  "bool \<Rightarrow> line_unit \<Rightarrow> line_header \<Rightarrow> nat \<Rightarrow> line_machine \<Rightarrow> line_step option outcome" where
  "extended_opcode le u h off m =
     obind (readULEB128 (lu_data u) off (lu_end u)) (\<lambda>(ext_length, off).
       let ext_end = u64_add off (unat ext_length) in
       if lu_end u < ext_end \<or> lu_end u \<le> off then Ret None
       else
         obind (readU8 (lu_data u) off (lu_end u)) (\<lambda>(code, off).
         obind (extended_body le u h code ext_end off m) (\<lambda>(off, m).
           Ret (Some (if off < ext_end then ext_end else off, m)))))"

definition line_step :: "bool \<Rightarrow> line_unit \<Rightarrow> line_header \<Rightarrow> nat \<Rightarrow> line_machine \<Rightarrow> line_step option outcome" where
  "line_step le u h off m =
     obind (readU8 (lu_data u) off (lu_end u)) (\<lambda>(opcode, off).
       if opcode = 0 then extended_opcode le u h off m
       else if opcode < opcode_base h then obind (standard_opcode le u h opcode off m) (\<lambda>r. Ret (Some r))
       else obind (special_opcode h opcode off m) (\<lambda>r. Ret (Some r)))"

fun run_line :: "bool \<Rightarrow> nat \<Rightarrow> line_unit \<Rightarrow> line_header \<Rightarrow> nat \<Rightarrow> line_machine \<Rightarrow> line_machine outcome option" where
  "run_line le 0 u h off m = (if off < lu_end u then None else Some (Ret m))"
| "run_line le (Suc fuel) u h off m =
     (if off < lu_end u then
        (case line_step le u h off m of
           Ret None \<Rightarrow> Some (Ret m)
         | Ret (Some (off', m')) \<Rightarrow> run_line le fuel u h off' m'
         | Throw x \<Rightarrow> Some (Throw x)
         | Undef x \<Rightarrow> Some (Undef x))
      else Some (Ret m))"

subsection \<open>The whole program\<close>

definition line_table :: "line_tables \<Rightarrow> line_machine \<Rightarrow> LineAttributeValue" where
  "line_table t m =
     \<lparr>line_rows = lm_rows m, line_directories = lt_directories t, line_files = lm_files m,
      line_directory_entries = lt_directory_entries t\<rparr>"

definition start_machine :: "line_header \<Rightarrow> line_tables \<Rightarrow> line_machine" where
  "start_machine h t = \<lparr>lm_state = reset_state (default_is_stmt h), lm_rows = [], lm_files = lt_files t\<rparr>"

definition parseLineNumberProgram ::
  "bool \<Rightarrow> nat \<Rightarrow> bytes \<Rightarrow> bytes \<Rightarrow> bytes \<Rightarrow> u8 \<Rightarrow> nat \<Rightarrow> LineAttributeValue outcome option" where
  "parseLineNumberProgram le fuel d str line_str asz off =
     (if d = [] \<or> length d \<le> off then Some (Ret empty_line_table)
      else
        case obind (unit_bounds le d off) (\<lambda>b.
               case b of
                 None \<Rightarrow> Ret None
               | Some (is64, unit_end, off) \<Rightarrow> parse_line_header le d str line_str asz is64 unit_end off) of
          Throw x \<Rightarrow> Some (Throw x)
        | Undef x \<Rightarrow> Some (Undef x)
        | Ret None \<Rightarrow> Some (Ret empty_line_table)
        | Ret (Some (u, h, t)) \<Rightarrow>
            map_option (\<lambda>r. obind r (\<lambda>m. Ret (line_table t m)))
              (run_line le fuel u h (lu_header_end u) (start_machine h t)))"

end
