(* ===== verification/LineSpec.thy ===== *)
theory LineSpec
  imports LineProgram
begin

section \<open>Line tables: operations and rows\<close>

text \<open>
  The operations of a line program as a datatype, their encoding and their meaning as arithmetic on
  the registers, and the proof that the code runs encoded operations as they mean. On top of it
  an assembler from rows to operations, which the code takes back to the rows.
\<close>

subsection \<open>Operations\<close>

datatype line_op =
    L_copy | L_advance_pc nat | L_advance_line int | L_set_file u32 | L_set_column u32 | L_negate_stmt
  | L_basic_block | L_const_add_pc | L_fixed_advance_pc u16 | L_prologue_end | L_epilogue_begin | L_set_isa u32
  | L_special u8 | L_end_sequence | L_set_address u64 | L_discriminator u32 | L_unknown u8 bytes

definition ub32 :: "u32 \<Rightarrow> bytes" where
  "ub32 v = uleb_encode (unat v)"

definition address_bytes :: "bool \<Rightarrow> u8 \<Rightarrow> u64 \<Rightarrow> bytes" where
  "address_bytes le asz a =
     (if asz = 8 then ordered le (le_bytes 8 (unat a)) else ordered le (le_bytes 4 (unat (ucast a :: u32))))"

definition extended :: "u8 \<Rightarrow> bytes \<Rightarrow> bytes" where
  "extended code operands = [0] @ uleb_encode (Suc (length operands)) @ [code] @ operands"

fun op_bytes :: "bool \<Rightarrow> u8 \<Rightarrow> line_op \<Rightarrow> bytes" where
  "op_bytes le asz L_copy = [1]"
| "op_bytes le asz (L_advance_pc n) = 2 # uleb_encode n"
| "op_bytes le asz (L_advance_line i) = 3 # sleb_encode i"
| "op_bytes le asz (L_set_file v) = 4 # ub32 v"
| "op_bytes le asz (L_set_column v) = 5 # ub32 v"
| "op_bytes le asz L_negate_stmt = [6]"
| "op_bytes le asz L_basic_block = [7]"
| "op_bytes le asz L_const_add_pc = [8]"
| "op_bytes le asz (L_fixed_advance_pc v) = 9 # ordered le (le_bytes 2 (unat v))"
| "op_bytes le asz L_prologue_end = [10]"
| "op_bytes le asz L_epilogue_begin = [11]"
| "op_bytes le asz (L_set_isa v) = 12 # ub32 v"
| "op_bytes le asz (L_special opcode) = [opcode]"
| "op_bytes le asz L_end_sequence = extended 1 []"
| "op_bytes le asz (L_set_address a) = extended 2 (address_bytes le asz a)"
| "op_bytes le asz (L_discriminator v) = extended 4 (ub32 v)"
| "op_bytes le asz (L_unknown code operands) = extended code operands"

text \<open>
  What can be written: one operation per instruction, the twelve standard opcodes of DWARF 3, and
  operands that the readers of the code return exactly.
\<close>

definition line_header_ok :: "line_header \<Rightarrow> bool" where
  "line_header_ok h \<longleftrightarrow> max_operations h = 1 \<and> line_range h \<noteq> 0 \<and> 13 \<le> opcode_base h"

fun op_fits :: "line_unit \<Rightarrow> line_header \<Rightarrow> line_op \<Rightarrow> bool" where
  "op_fits u h (L_advance_pc n) \<longleftrightarrow> n < 2 ^ 31"
| "op_fits u h (L_advance_line i) \<longleftrightarrow> - (2 ^ 63) \<le> i \<and> i < 2 ^ 63"
| "op_fits u h (L_special opcode) \<longleftrightarrow> opcode_base h \<le> opcode"
| "op_fits u h (L_set_address a) \<longleftrightarrow> lu_address_size u = 8 \<or> a < 2 ^ 32"
| "op_fits u h (L_unknown code operands) \<longleftrightarrow> code \<notin> {1, 2, 3, 4} \<and> length operands < 2 ^ 31 - 1"
| "op_fits u h _ \<longleftrightarrow> True"

subsection \<open>What operations mean\<close>

text \<open>The advance of the address and the line by a special opcode, in numbers.\<close>

definition special_pc :: "line_header \<Rightarrow> nat \<Rightarrow> nat" where
  "special_pc h adjusted = adjusted div unat (line_range h) * unat (min_instruction_length h)"

definition special_line :: "line_header \<Rightarrow> nat \<Rightarrow> int" where
  "special_line h adjusted = sint (line_base h) + int (adjusted mod unat (line_range h))"

definition add_address :: "nat \<Rightarrow> LineState \<Rightarrow> LineState" where
  "add_address n s = s\<lparr>ls_address := ls_address s + word_of_nat n\<rparr>"

definition add_line :: "int \<Rightarrow> LineState \<Rightarrow> LineState" where
  "add_line i s = s\<lparr>ls_line := ls_line s + word_of_int i\<rparr>"

fun op_effect :: "line_header \<Rightarrow> line_op \<Rightarrow> line_machine \<Rightarrow> line_machine" where
  "op_effect h L_copy m = appendRow m"
| "op_effect h (L_advance_pc n) m = with_state (add_address (n * unat (min_instruction_length h))) m"
| "op_effect h (L_advance_line i) m = with_state (add_line i) m"
| "op_effect h (L_set_file v) m = with_state (\<lambda>s. s\<lparr>ls_file := v\<rparr>) m"
| "op_effect h (L_set_column v) m = with_state (\<lambda>s. s\<lparr>ls_column := v\<rparr>) m"
| "op_effect h L_negate_stmt m = with_state (\<lambda>s. s\<lparr>ls_is_stmt := \<not> ls_is_stmt s\<rparr>) m"
| "op_effect h L_basic_block m = with_state (\<lambda>s. s\<lparr>ls_basic_block := True\<rparr>) m"
| "op_effect h L_const_add_pc m = with_state (add_address (special_pc h (255 - unat (opcode_base h)))) m"
| "op_effect h (L_fixed_advance_pc v) m =
     with_state (\<lambda>s. (add_address (unat v) s)\<lparr>ls_op_index := 0\<rparr>) m"
| "op_effect h L_prologue_end m = with_state (\<lambda>s. s\<lparr>ls_prologue_end := True\<rparr>) m"
| "op_effect h L_epilogue_begin m = with_state (\<lambda>s. s\<lparr>ls_epilogue_begin := True\<rparr>) m"
| "op_effect h (L_set_isa v) m = with_state (\<lambda>s. s\<lparr>ls_isa := v\<rparr>) m"
| "op_effect h (L_special opcode) m =
     (let adjusted = unat opcode - unat (opcode_base h)
      in appendRow (with_state (add_line (special_line h adjusted)) (with_state (add_address (special_pc h adjusted)) m)))"
| "op_effect h L_end_sequence m =
     (appendRow (with_state (\<lambda>s. s\<lparr>ls_end_sequence := True\<rparr>) m))\<lparr>lm_state := reset_state (default_is_stmt h)\<rparr>"
| "op_effect h (L_set_address a) m = with_state (\<lambda>s. s\<lparr>ls_address := a, ls_op_index := 0\<rparr>) m"
| "op_effect h (L_discriminator v) m = with_state (\<lambda>s. s\<lparr>ls_discriminator := v\<rparr>) m"
| "op_effect h (L_unknown code operands) m = m"

subsection \<open>Running a piece of program\<close>

text \<open>The bytes at an offset of the unit take the machine to another one, in some steps.\<close>

definition line_runs ::
  "bool \<Rightarrow> line_unit \<Rightarrow> line_header \<Rightarrow> line_machine \<Rightarrow> bytes \<Rightarrow> line_machine \<Rightarrow> nat \<Rightarrow> bool" where
  "line_runs le u h m bs m' k \<longleftrightarrow>
     (\<forall>off fuel. encoded_at (lu_data u) off bs \<longrightarrow> off + length bs \<le> lu_end u \<longrightarrow>
        run_line le (k + fuel) u h off m = run_line le fuel u h (off + length bs) m')"

lemma line_runs_Nil: "line_runs le u h m [] m 0"
  by (simp add: line_runs_def)

lemma line_runs_append:
  assumes "line_runs le u h m bs m' k" and "line_runs le u h m' bs' m'' k'"
  shows "line_runs le u h m (bs @ bs') m'' (k + k')"
  unfolding line_runs_def
proof (intro allI impI)
  fix off fuel
  assume at: "encoded_at (lu_data u) off (bs @ bs')" and fit: "off + length (bs @ bs') \<le> lu_end u"
  have "run_line le (k + (k' + fuel)) u h off m = run_line le (k' + fuel) u h (off + length bs) m'"
    using assms(1) at fit unfolding line_runs_def by (simp add: encoded_at_append)
  also have "\<dots> = run_line le fuel u h (off + length bs + length bs') m''"
    using assms(2) at fit unfolding line_runs_def by (simp add: encoded_at_append)
  finally show "run_line le (k + k' + fuel) u h off m = run_line le fuel u h (off + length (bs @ bs')) m''"
    by (simp add: add.assoc)
qed

definition unit_ok :: "line_unit \<Rightarrow> bool" where
  "unit_ok u \<longleftrightarrow> lu_end u \<le> length (lu_data u) \<and> length (lu_data u) \<le> vector_max"

lemma line_runs_step:
  assumes "unit_ok u"
    and "\<And>off. encoded_at (lu_data u) off bs \<Longrightarrow> off + length bs \<le> lu_end u \<Longrightarrow>
           line_step le u h off m = Ret (Some (off + length bs, m'))"
    and "bs \<noteq> []"
  shows "line_runs le u h m bs m' (Suc 0)"
  unfolding line_runs_def
proof (intro allI impI)
  fix off fuel
  assume at: "encoded_at (lu_data u) off bs" and fit: "off + length bs \<le> lu_end u"
  have "0 < length bs" using assms(3) by simp
  then have "off < lu_end u" using fit by linarith
  then show "run_line le (Suc 0 + fuel) u h off m = run_line le fuel u h (off + length bs) m'"
    using assms(2) [OF at fit] by simp
qed

subsection \<open>Every operation runs as it means\<close>

lemma read_code:
  "encoded_at d off (b # bs) \<Longrightarrow> off + length (b # bs) \<le> mx \<Longrightarrow> readU8 d off mx = Ret (b, Suc off)"
  by (simp add: encoded_at_Cons readU8_def)

lemma below_base: "13 \<le> (b :: u8) \<Longrightarrow> k < 13 \<Longrightarrow> k < b"
  by (rule less_le_trans)

lemma standard_step:
  assumes "line_header_ok h" and "opcode \<noteq> 0" and "opcode < 13"
    and "encoded_at (lu_data u) off (opcode # bs)" and "off + length (opcode # bs) \<le> lu_end u"
    and "standard_opcode le u h opcode (Suc off) m = Ret (Suc off + length bs, m')"
  shows "line_step le u h off m = Ret (Some (off + length (opcode # bs), m'))"
  using assms(1-3,6) read_code [OF assms(4,5)]
  by (simp add: line_step_def line_header_ok_def below_base)

lemma ucast_scast_u32: "ucast (scast (v :: u32) :: u64) = v"
  by (rule bit_word_eqI) (simp add: bit_unsigned_iff bit_signed_iff)

lemma read_ub32:
  assumes "encoded_at d off (ub32 v)" and "off + length (ub32 v) \<le> mx"
  shows "readULEB128 d off mx = Ret (scast v, off + length (ub32 v))"
proof -
  have "unat v < 2 ^ 35" using unsigned_less [of v, where ?'a = nat] by simp
  then show ?thesis using readULEB128_encode [of d off "unat v" mx] assms by (simp add: ub32_def)
qed

lemma read_small_uleb:
  assumes "encoded_at d off (uleb_encode n)" and "off + length (uleb_encode n) \<le> mx" and "n < 2 ^ 31"
  shows "readULEB128 d off mx = Ret (word_of_nat n, off + length (uleb_encode n))"
  using readULEB128_encode [OF assms(1,2)] assms(3) scast_u32_u64 [of n] by simp

lemma standard_runs:
  assumes "line_header_ok h" and "unit_ok u" and "opcode \<noteq> 0" and "opcode < 13"
    and "\<And>off. encoded_at (lu_data u) off bs \<Longrightarrow> off + length bs \<le> lu_end u \<Longrightarrow>
      standard_opcode le u h opcode off m = Ret (off + length bs, m')"
  shows "line_runs le u h m (opcode # bs) m' (Suc 0)"
proof (rule line_runs_step [OF assms(2)])
  fix off
  assume at: "encoded_at (lu_data u) off (opcode # bs)" and fit: "off + length (opcode # bs) \<le> lu_end u"
  have "standard_opcode le u h opcode (Suc off) m = Ret (Suc off + length bs, m')"
    using assms(5) [of "Suc off"] at fit by (simp add: encoded_at_Cons)
  then show "line_step le u h off m = Ret (Some (off + length (opcode # bs), m'))"
    by (rule standard_step [OF assms(1,3,4) at fit])
qed simp

lemma extended_runs:
  assumes "unit_ok u" and "length operands < 2 ^ 31 - 1"
    and "\<And>off. encoded_at (lu_data u) off operands \<Longrightarrow> off + length operands \<le> lu_end u \<Longrightarrow>
      \<exists>off'. off' \<le> off + length operands \<and>
        extended_body le u h code (off + length operands) off m = Ret (off', m')"
  shows "line_runs le u h m (extended code operands) m' (Suc 0)"
proof (rule line_runs_step [OF assms(1)])
  fix off
  let ?len = "uleb_encode (Suc (length operands))"
  assume at: "encoded_at (lu_data u) off (extended code operands)"
    and fit: "off + length (extended code operands) \<le> lu_end u"
  define p where "p = Suc off + length ?len"
  have parts: "encoded_at (lu_data u) off (0 # ?len)" "encoded_at (lu_data u) (Suc off) ?len"
    "encoded_at (lu_data u) p (code # operands)" "encoded_at (lu_data u) (Suc p) operands"
    using at by (simp_all add: extended_def encoded_at_append encoded_at_Cons p_def)
  have ends: "Suc p + length operands \<le> lu_end u" "Suc off + length ?len \<le> lu_end u"
    using fit by (simp_all add: extended_def p_def)
  have all: "off + length (extended code operands) = Suc p + length operands"
    by (simp add: extended_def p_def)
  have r1: "readU8 (lu_data u) off (lu_end u) = Ret (0, Suc off)"
    using read_code [OF parts(1)] ends(2) by simp
  have r2: "readULEB128 (lu_data u) (Suc off) (lu_end u) = Ret (word_of_nat (Suc (length operands)), p)"
    using read_small_uleb [OF parts(2) ends(2)] assms(2) by (simp add: p_def)
  have "unat (word_of_nat (Suc (length operands)) :: u64) = Suc (length operands)"
    using assms(2) by (simp only: unsigned_of_nat) (simp add: take_bit_nat_eq_self)
  moreover have "p + Suc (length operands) < 2 ^ 64"
    using ends(1) assms(1) by (simp add: unit_ok_def vector_max_numeral)
  ultimately have e: "u64_add p (unat (word_of_nat (Suc (length operands)) :: u64)) = Suc p + length operands"
    by simp
  have r3: "readU8 (lu_data u) p (lu_end u) = Ret (code, Suc p)"
    using read_code [OF parts(3)] ends(1) by simp
  obtain off' where off': "off' \<le> Suc p + length operands"
    and body: "extended_body le u h code (Suc p + length operands) (Suc p) m = Ret (off', m')"
    using assms(3) [OF parts(4) ends(1)] by blast
  have "extended_opcode le u h (Suc off) m = Ret (Some (Suc p + length operands, m'))"
    using ends(1) off' body by (simp add: extended_opcode_def r2 e r3 Let_def del: of_nat_Suc)
  then show "line_step le u h off m = Ret (Some (off + length (extended code operands), m'))"
    unfolding all by (simp add: line_step_def r1)
qed (simp add: extended_def)

lemma read_address:
  assumes "encoded_at d off (address_bytes le asz a)" and "off + length (address_bytes le asz a) \<le> mx"
    and "mx \<le> length d" and "length d \<le> vector_max" and "asz = 8 \<or> a < 2 ^ 32"
  shows "read_offset le (asz = 8) d off mx = Ret (a, off + length (address_bytes le asz a))"
proof (cases "asz = 8")
  case True
  then show ?thesis
    using assms readU64_encoded [of d off le a mx] by (simp add: address_bytes_def read_offset_def)
next
  case False
  have "unat a < 2 ^ 32" using False assms(5) by (simp add: word_less_nat_alt)
  then have "ucast (ucast a :: u32) = a"
    by (simp only: word_unat_eq_iff) (simp add: unsigned_ucast_eq unsigned_take_bit_eq take_bit_nat_eq_self)
  then show ?thesis
    using False assms readU32_encoded [of d off le "ucast a" mx] by (simp add: address_bytes_def read_offset_def)
qed

lemma add_address_word:
  "ls_address s + word_of_nat n * ucast (b :: u8) = ls_address (add_address (n * unat b) s)"
  by (simp add: add_address_def)

lemma special_pc_word:
  assumes "line_range h \<noteq> 0"
  shows "(ucast (adjusted div line_range h) * ucast (min_instruction_length h) :: u64)
    = word_of_nat (special_pc h (unat adjusted))"
proof -
  have "(ucast (adjusted div line_range h) :: u64) = word_of_nat (unat adjusted div unat (line_range h))"
    by (simp only: ucast_byte unat_div)
  moreover have "(ucast (min_instruction_length h) :: u64) = word_of_nat (unat (min_instruction_length h))"
    by (rule ucast_byte)
  ultimately show ?thesis by (simp only: special_pc_def of_nat_mult)
qed

lemma special_line_word:
  "(scast (line_base h) + ucast (adjusted mod line_range h) :: u32) = word_of_int (special_line h (unat adjusted))"
proof -
  have "(ucast (adjusted mod line_range h) :: u32) = word_of_nat (unat adjusted mod unat (line_range h))"
    by (simp only: ucast_byte unat_mod)
  then show ?thesis by (simp add: special_line_def)
qed

lemma op_runs_plain:
  assumes "line_header_ok h" and "unit_ok u" and "op_fits u h op"
    and "op = L_copy \<or> op = L_negate_stmt \<or> op = L_basic_block \<or> op = L_prologue_end \<or> op = L_epilogue_begin"
  shows "line_runs le u h m (op_bytes le (lu_address_size u) op) (op_effect h op m) (Suc 0)"
  using assms(4)
  by (elim disjE; simp) (rule standard_runs [OF assms(1,2)]; simp add: standard_opcode_def)+

lemma op_runs_register:
  assumes "line_header_ok h" and "unit_ok u"
    and "op = L_set_file v \<or> op = L_set_column v \<or> op = L_set_isa v"
  shows "line_runs le u h m (op_bytes le (lu_address_size u) op) (op_effect h op m) (Suc 0)"
  using assms(3)
  by (elim disjE; simp)
    (rule standard_runs [OF assms(1,2)]; simp add: standard_opcode_def read_ub32 ucast_scast_u32)+

lemma op_runs_advance:
  assumes "line_header_ok h" and "unit_ok u" and "op_fits u h op"
    and "op = L_advance_pc n \<or> op = L_advance_line i \<or> op = L_const_add_pc \<or> op = L_fixed_advance_pc v"
  shows "line_runs le u h m (op_bytes le (lu_address_size u) op) (op_effect h op m) (Suc 0)"
  using assms(4)
proof (elim disjE)
  assume op: "op = L_advance_pc n"
  show ?thesis
    unfolding op op_bytes.simps op_effect.simps
  proof (rule standard_runs [OF assms(1,2)])
    fix off
    assume "encoded_at (lu_data u) off (uleb_encode n)" "off + length (uleb_encode n) \<le> lu_end u"
    then show "standard_opcode le u h 2 off m = Ret (off + length (uleb_encode n),
        with_state (add_address (n * unat (min_instruction_length h))) m)"
      using assms(1,3) op
      by (simp add: standard_opcode_def read_small_uleb moved_def advance_pc_def line_header_ok_def
          with_state_def add_address_def)
  qed simp_all
next
  assume op: "op = L_advance_line i"
  show ?thesis
    unfolding op op_bytes.simps op_effect.simps
  proof (rule standard_runs [OF assms(1,2)])
    fix off
    assume "encoded_at (lu_data u) off (sleb_encode i)" "off + length (sleb_encode i) \<le> lu_end u"
    moreover have "ucast (word_of_int i :: u64) = (word_of_int i :: u32)"
      by (simp add: ucast_down_wi is_down)
    ultimately show "standard_opcode le u h 3 off m = Ret (off + length (sleb_encode i), with_state (add_line i) m)"
      using assms(3) op
      by (simp add: standard_opcode_def readSLEB128_encode with_state_def add_line_def)
  qed simp_all
next
  assume op: "op = L_const_add_pc"
  have u: "unat (255 - opcode_base h) = 255 - unat (opcode_base h)"
    using unat_u8_bound [of "opcode_base h"] by (subst unat_sub) (simp_all add: word_le_nat_alt)
  show ?thesis
    unfolding op op_bytes.simps op_effect.simps
  proof (rule standard_runs [OF assms(1,2)])
    fix off
    show "standard_opcode le u h 8 off m = Ret (off + length ([] :: bytes),
        with_state (add_address (special_pc h (255 - unat (opcode_base h)))) m)"
      using assms(1) special_pc_word [of h "255 - opcode_base h"]
      by (simp add: standard_opcode_def moved_def advance_adjusted_def line_header_ok_def with_state_def
          add_address_def u)
  qed simp_all
next
  assume op: "op = L_fixed_advance_pc v"
  show ?thesis
    unfolding op op_bytes.simps op_effect.simps
  proof (rule standard_runs [OF assms(1,2)])
    fix off
    assume at: "encoded_at (lu_data u) off (ordered le (le_bytes 2 (unat v)))"
      and "off + length (ordered le (le_bytes 2 (unat v))) \<le> lu_end u"
    then have "readU16 le (lu_data u) off (lu_end u) = Ret (v, off + 2)"
      using readU16_encoded [OF at] assms(2) by (simp add: unit_ok_def)
    moreover have "(ucast v :: u64) = word_of_nat (unat v)" by simp
    ultimately show "standard_opcode le u h 9 off m = Ret (off + length (ordered le (le_bytes 2 (unat v))),
        with_state (\<lambda>s. (add_address (unat v) s)\<lparr>ls_op_index := 0\<rparr>) m)"
      by (simp add: standard_opcode_def with_state_def add_address_def)
  qed simp_all
qed

lemma op_runs_special:
  assumes "line_header_ok h" and "unit_ok u" and "opcode_base h \<le> opcode"
  shows "line_runs le u h m [opcode] (op_effect h (L_special opcode) m) (Suc 0)"
proof (rule line_runs_step [OF assms(2)])
  fix off
  assume at: "encoded_at (lu_data u) off [opcode]" and fit: "off + length [opcode] \<le> lu_end u"
  have u: "unat (opcode - opcode_base h) = unat opcode - unat (opcode_base h)"
    using assms(3) by (rule unat_sub)
  have nz: "opcode \<noteq> 0" "\<not> opcode < opcode_base h"
    using assms(1,3) by (auto simp: line_header_ok_def not_less)
  have "special_opcode h opcode (Suc off) m = Ret (Suc off, op_effect h (L_special opcode) m)"
    using assms(1) special_pc_word [of h "opcode - opcode_base h"] special_line_word [of h "opcode - opcode_base h"]
    by (simp add: special_opcode_def advance_adjusted_def line_header_ok_def with_state_def add_address_def
        add_line_def u Let_def add.assoc)
  then show "line_step le u h off m = Ret (Some (off + length [opcode], op_effect h (L_special opcode) m))"
    using read_code [OF at fit] nz by (simp add: line_step_def)
qed simp

lemma length_ub32: "length (ub32 v) < 6"
proof -
  have "length (uleb_encode n) \<le> k" if "n < 2 ^ (7 * k)" "0 < k" for n k
    using that
  proof (induction n arbitrary: k rule: uleb_encode.induct)
    case (1 n)
    show ?case
    proof (cases "n < 128")
      case True
      then show ?thesis using 1(3) by (subst uleb_encode.simps) simp
    next
      case False
      obtain j where k: "k = Suc j" using 1(3) by (cases k) auto
      have "j \<noteq> 0" using False 1(2) k by (cases j) auto
      moreover have "n div 128 < 2 ^ (7 * j)" using 1(2) k by (simp add: power_add less_mult_imp_div_less)
      ultimately show ?thesis using 1(1) [of j] False k by (subst uleb_encode.simps) simp
    qed
  qed
  from this [of "unat v" 5] show ?thesis
    using unsigned_less [of v, where ?'a = nat] by (simp add: ub32_def)
qed

lemma op_runs_extended:
  assumes "unit_ok u" and "op_fits u h op"
    and "op = L_end_sequence \<or> op = L_set_address a \<or> op = L_discriminator v \<or> op = L_unknown code operands"
  shows "line_runs le u h m (op_bytes le (lu_address_size u) op) (op_effect h op m) (Suc 0)"
  using assms(3)
proof (elim disjE)
  assume op: "op = L_end_sequence"
  show ?thesis
    unfolding op op_bytes.simps op_effect.simps
    by (rule extended_runs [OF assms(1)]) (simp_all add: extended_body_def)
next
  assume op: "op = L_set_address a"
  show ?thesis
    unfolding op op_bytes.simps op_effect.simps
  proof (rule extended_runs [OF assms(1)])
    fix off
    let ?bs = "address_bytes le (lu_address_size u) a"
    assume at: "encoded_at (lu_data u) off ?bs" and fit: "off + length ?bs \<le> lu_end u"
    have "read_offset le (lu_address_size u = 8) (lu_data u) off (lu_end u) = Ret (a, off + length ?bs)"
      using read_address [OF at fit] assms(1,2) op by (simp add: unit_ok_def)
    then show "\<exists>off'\<le>off + length ?bs. extended_body le u h 2 (off + length ?bs) off m =
        Ret (off', with_state (\<lambda>s. s\<lparr>ls_address := a, ls_op_index := 0\<rparr>) m)"
      by (simp add: extended_body_def)
  qed (simp add: address_bytes_def)
next
  assume op: "op = L_discriminator v"
  show ?thesis
    unfolding op op_bytes.simps op_effect.simps
  proof (rule extended_runs [OF assms(1)])
    fix off
    assume "encoded_at (lu_data u) off (ub32 v)"
    then have "readULEB128 (lu_data u) off (off + length (ub32 v)) = Ret (scast v, off + length (ub32 v))"
      by (rule read_ub32) simp
    then show "\<exists>off'\<le>off + length (ub32 v). extended_body le u h 4 (off + length (ub32 v)) off m =
        Ret (off', with_state (\<lambda>s. s\<lparr>ls_discriminator := v\<rparr>) m)"
      by (simp add: extended_body_def ucast_scast_u32)
  qed (use length_ub32 [of v] in simp)
next
  assume op: "op = L_unknown code operands"
  show ?thesis
    unfolding op op_bytes.simps op_effect.simps
    by (rule extended_runs [OF assms(1)]) (use assms(2) op in \<open>simp_all add: extended_body_def\<close>)
qed

lemma op_runs:
  assumes "line_header_ok h" and "unit_ok u" and "op_fits u h op"
  shows "line_runs le u h m (op_bytes le (lu_address_size u) op) (op_effect h op m) (Suc 0)"
proof (cases op)
  case (L_special opcode)
  then show ?thesis using op_runs_special [OF assms(1,2), of opcode le m] assms(3) by simp
qed (rule op_runs_plain [OF assms] op_runs_register [OF assms(1,2)] op_runs_advance [OF assms]
      op_runs_extended [OF assms(2,3)]; simp; fail)+

definition ops_bytes :: "bool \<Rightarrow> u8 \<Rightarrow> line_op list \<Rightarrow> bytes" where
  "ops_bytes le asz ops = concat (map (op_bytes le asz) ops)"

definition run_ops :: "line_header \<Rightarrow> line_op list \<Rightarrow> line_machine \<Rightarrow> line_machine" where
  "run_ops h ops m = fold (op_effect h) ops m"

lemma ops_run:
  assumes "line_header_ok h" and "unit_ok u"
  shows "list_all (op_fits u h) ops \<Longrightarrow>
    line_runs le u h m (ops_bytes le (lu_address_size u) ops) (run_ops h ops m) (length ops)"
proof (induction ops arbitrary: m)
  case Nil
  then show ?case by (simp add: ops_bytes_def run_ops_def line_runs_Nil)
next
  case (Cons op ops)
  have "line_runs le u h m (op_bytes le (lu_address_size u) op @ ops_bytes le (lu_address_size u) ops)
      (run_ops h ops (op_effect h op m)) (Suc 0 + length ops)"
    using Cons by (intro line_runs_append [OF op_runs [OF assms]]) simp_all
  then show ?case by (simp add: ops_bytes_def run_ops_def)
qed

end
