(* ===== verification/LineRound.thy ===== *)
theory LineRound
  imports LineSpec
begin

section \<open>Line tables: from rows to bytes and back\<close>

text \<open>
  An assembler that writes any list of rows as a line program, the encoding of a unit of DWARF 2
  to 4 with its directories and files, and the proof that the parser returns exactly the written
  rows, directories and files.
\<close>

subsection \<open>Rows\<close>

definition row_ops :: "LineState \<Rightarrow> LineEntry \<Rightarrow> line_op list" where
  "row_ops s r =
     [L_set_address (entry_address r), L_advance_line (sint (entry_line r - ls_line s)), L_set_file (entry_file r),
      L_set_column (entry_column r), L_set_isa (entry_isa r), L_discriminator (entry_discriminator r)]
     @ (if entry_is_stmt r = ls_is_stmt s then [] else [L_negate_stmt])
     @ (if entry_basic_block r then [L_basic_block] else [])
     @ (if entry_prologue_end r then [L_prologue_end] else [])
     @ (if entry_epilogue_begin r then [L_epilogue_begin] else [])
     @ [if entry_end_sequence r then L_end_sequence else L_copy]"

definition state_after :: "line_header \<Rightarrow> LineEntry \<Rightarrow> LineState" where
  "state_after h r =
     (if entry_end_sequence r then reset_state (default_is_stmt h)
      else \<lparr>ls_address = entry_address r, ls_op_index = 0, ls_file = entry_file r, ls_line = entry_line r,
            ls_column = entry_column r, ls_is_stmt = entry_is_stmt r, ls_basic_block = False,
            ls_end_sequence = False, ls_prologue_end = False, ls_epilogue_begin = False,
            ls_isa = entry_isa r, ls_discriminator = 0\<rparr>)"

fun rows_ops :: "line_header \<Rightarrow> LineState \<Rightarrow> LineEntry list \<Rightarrow> line_op list" where
  "rows_ops h s [] = []"
| "rows_ops h s (r # rs) = row_ops s r @ rows_ops h (state_after h r) rs"

text \<open>Between rows the flags of the next row are clear.\<close>

definition flags_clear :: "LineState \<Rightarrow> bool" where
  "flags_clear s \<longleftrightarrow> \<not> ls_basic_block s \<and> \<not> ls_end_sequence s \<and> \<not> ls_prologue_end s \<and> \<not> ls_epilogue_begin s"

lemma flags_clear_after: "flags_clear (state_after h r)"
  by (simp add: flags_clear_def state_after_def reset_state_def)

lemma run_ops_append: "run_ops h (xs @ ys) m = run_ops h ys (run_ops h xs m)"
  by (simp add: run_ops_def)

lemma line_back: "ls + word_of_int (sint (l - ls)) = (l :: u32)"
  by simp

lemma row_ops_run:
  assumes "flags_clear (lm_state m)"
  shows "run_ops h (row_ops (lm_state m) r) m = m\<lparr>lm_rows := lm_rows m @ [r], lm_state := state_after h r\<rparr>"
  using assms
  by (cases r)
    (simp add: run_ops_def row_ops_def with_state_def add_line_def appendRow_def row_of_def state_after_def flags_clear_def)

lemma rows_ops_run:
  "flags_clear (lm_state m) \<Longrightarrow> lm_rows (run_ops h (rows_ops h (lm_state m) rs) m) = lm_rows m @ rs \<and>
     lm_files (run_ops h (rows_ops h (lm_state m) rs) m) = lm_files m"
proof (induction rs arbitrary: m)
  case Nil
  then show ?case by (simp add: run_ops_def)
next
  case (Cons r rs)
  let ?m = "m\<lparr>lm_rows := lm_rows m @ [r], lm_state := state_after h r\<rparr>"
  have "run_ops h (rows_ops h (lm_state m) (r # rs)) m = run_ops h (rows_ops h (lm_state ?m) rs) ?m"
    by (simp add: run_ops_append row_ops_run [OF Cons.prems])
  then show ?case using Cons.IH [of ?m] flags_clear_after by simp
qed

lemma row_ops_fit:
  assumes "lu_address_size u = 8 \<or> entry_address r < 2 ^ 32"
  shows "list_all (op_fits u h) (row_ops s r)"
proof -
  have "- (2 ^ 31) \<le> sint (entry_line r - ls_line s)" "sint (entry_line r - ls_line s) < 2 ^ 31"
    using sint_greater_eq [of "entry_line r - ls_line s"] sint_less [of "entry_line r - ls_line s"] by simp_all
  then show ?thesis using assms by (simp add: row_ops_def)
qed

lemma rows_ops_fit:
  "list_all (\<lambda>r. lu_address_size u = 8 \<or> entry_address r < 2 ^ 32) rs \<Longrightarrow> list_all (op_fits u h) (rows_ops h s rs)"
  by (induction rs arbitrary: s) (simp_all add: row_ops_fit)

subsection \<open>Strings and tables\<close>

definition name_ok :: "bytes \<Rightarrow> bool" where
  "name_ok n \<longleftrightarrow> n \<noteq> [] \<and> 0 \<notin> set n"

lemma until_nul_encoded:
  assumes "encoded_at d off (n @ [0])" and "off + length n < mx" and "0 \<notin> set n"
  shows "until_nul d off mx = (n, True)"
proof -
  define t where "t = take (mx - off) (drop off d)"
  have "take (Suc (length n)) t = n @ [0]"
    using assms(1,2) by (simp add: encoded_at_def t_def min_def)
  then have "t = n @ 0 # drop (Suc (length n)) t"
    by (metis append.assoc append_Cons append_Nil append_take_drop_id)
  moreover have "takeWhile (\<lambda>b. b \<noteq> 0) (n @ 0 # rest) = n" for rest
    using assms(3) by (subst takeWhile_append2) auto
  ultimately have "takeWhile (\<lambda>b. b \<noteq> 0) t = n" "length n < length t"
    by (metis, metis length_append length_Cons less_add_Suc1 add_Suc_right)
  then show ?thesis by (simp add: until_nul_def Let_def flip: t_def)
qed

lemma readCString_encoded:
  "encoded_at d off (n @ [0]) \<Longrightarrow> off + length n < mx \<Longrightarrow> 0 \<notin> set n \<Longrightarrow>
     readCString d off mx = (text_of n, Suc (off + length n))"
  by (simp add: readCString_def until_nul_encoded)

definition directories_bytes :: "bytes list \<Rightarrow> bytes" where
  "directories_bytes ds = concat (map (\<lambda>d. d @ [0]) ds) @ [0]"

lemma include_directories_encoded:
  "encoded_at d off (directories_bytes ds) \<Longrightarrow> off + length (directories_bytes ds) \<le> mx \<Longrightarrow> list_all name_ok ds \<Longrightarrow>
     include_directories d off mx acc = (acc @ map text_of ds, off + length (directories_bytes ds))"
proof (induction ds arbitrary: off acc)
  case Nil
  then show ?case
    using readCString_encoded [of d off "[]" mx]
    by (subst include_directories.simps) (simp add: directories_bytes_def text_of_def)
next
  case (Cons n ds)
  have parts: "encoded_at d off (n @ [0])" "encoded_at d (Suc (off + length n)) (directories_bytes ds)"
    using Cons.prems(1) by (simp_all add: directories_bytes_def encoded_at_append encoded_at_Cons)
  have len: "length (directories_bytes (n # ds)) = Suc (length n) + length (directories_bytes ds)"
    by (simp add: directories_bytes_def)
  have "readCString d off mx = (text_of n, Suc (off + length n))"
    using readCString_encoded [OF parts(1)] Cons.prems(2,3) len by (simp add: name_ok_def)
  moreover have "text_of n \<noteq> []" using Cons.prems(3) by (simp add: name_ok_def text_of_def)
  moreover have "off < mx" using Cons.prems(2) len by linarith
  ultimately show ?case
    using Cons.IH [OF parts(2), of "acc @ [text_of n]"] Cons.prems(2,3) len
    by (subst include_directories.simps) simp
qed

record file_source =
  src_name :: bytes
  src_dir :: nat
  src_time :: nat
  src_size :: nat

definition file_ok :: "file_source \<Rightarrow> bool" where
  "file_ok f \<longleftrightarrow> name_ok (src_name f) \<and> src_dir f < 2 ^ 31 \<and> src_time f < 2 ^ 31 \<and> src_size f < 2 ^ 31"

definition file_bytes :: "file_source \<Rightarrow> bytes" where
  "file_bytes f = src_name f @ [0] @ uleb_encode (src_dir f) @ uleb_encode (src_time f) @ uleb_encode (src_size f)"

definition file_of :: "file_source \<Rightarrow> FileEntry" where
  "file_of f = plain_file (text_of (src_name f)) (word_of_nat (src_dir f)) (word_of_nat (src_time f)) (word_of_nat (src_size f))"

definition files_bytes :: "file_source list \<Rightarrow> bytes" where
  "files_bytes fs = concat (map file_bytes fs) @ [0]"

lemma file_numbers_encoded:
  assumes "encoded_at d off (uleb_encode a @ uleb_encode b @ uleb_encode c)"
    and "off + length (uleb_encode a @ uleb_encode b @ uleb_encode c) \<le> mx"
    and "a < 2 ^ 31" and "b < 2 ^ 31" and "c < 2 ^ 31"
  shows "file_numbers d off mx = Ret (word_of_nat a, word_of_nat b, word_of_nat c,
    off + length (uleb_encode a @ uleb_encode b @ uleb_encode c))"
proof -
  define p where "p = off + length (uleb_encode a)"
  define q where "q = p + length (uleb_encode b)"
  have parts: "encoded_at d off (uleb_encode a)" "encoded_at d p (uleb_encode b)" "encoded_at d q (uleb_encode c)"
    using assms(1) by (simp_all add: encoded_at_append p_def q_def)
  have ends: "p \<le> mx" "q \<le> mx" "q + length (uleb_encode c) \<le> mx"
    using assms(2) by (simp_all add: p_def q_def)
  show ?thesis
    using read_small_uleb [OF parts(1)] read_small_uleb [OF parts(2)] read_small_uleb [OF parts(3)] ends assms(3-5)
    by (simp add: file_numbers_def p_def q_def)
qed

lemma file_names_encoded:
  "encoded_at d off (files_bytes fs) \<Longrightarrow> off + length (files_bytes fs) \<le> mx \<Longrightarrow> mx \<le> ue \<Longrightarrow> list_all file_ok fs \<Longrightarrow>
     file_names d off mx ue acc = Ret (acc @ map file_of fs, off + length (files_bytes fs))"
proof (induction fs arbitrary: off acc)
  case Nil
  then show ?case
    using readCString_encoded [of d off "[]" mx]
    by (subst file_names.simps) (simp add: files_bytes_def text_of_def)
next
  case (Cons f fs)
  let ?n = "src_name f" and ?nums = "uleb_encode (src_dir f) @ uleb_encode (src_time f) @ uleb_encode (src_size f)"
  define p where "p = Suc (off + length ?n)"
  define q where "q = p + length ?nums"
  have parts: "encoded_at d off (?n @ [0])" "encoded_at d p ?nums" "encoded_at d q (files_bytes fs)"
    using Cons.prems(1) by (simp_all add: files_bytes_def file_bytes_def encoded_at_append encoded_at_Cons p_def q_def add.assoc)
  have len: "off + length (files_bytes (f # fs)) = q + length (files_bytes fs)"
    by (simp add: files_bytes_def file_bytes_def p_def q_def)
  have ok: "file_ok f" "name_ok ?n" "0 \<notin> set ?n" using Cons.prems(4) by (simp_all add: file_ok_def name_ok_def)
  have fit: "q + length (files_bytes fs) \<le> mx" using Cons.prems(2) len by simp
  have "off + length ?n < mx" using fit by (simp add: p_def q_def)
  then have name: "readCString d off mx = (text_of ?n, p)"
    using readCString_encoded [OF parts(1)] ok(3) by (simp add: p_def)
  have nums: "file_numbers d p ue = Ret (word_of_nat (src_dir f), word_of_nat (src_time f), word_of_nat (src_size f), q)"
    using file_numbers_encoded [OF parts(2), of ue] ok(1) fit Cons.prems(3) by (simp add: file_ok_def q_def)
  have "text_of ?n \<noteq> []" using ok(2) by (simp add: name_ok_def text_of_def)
  moreover have "off < mx" using \<open>off + length ?n < mx\<close> by simp
  ultimately have "file_names d off mx ue acc = file_names d q mx ue (acc @ [file_of f])"
    by (subst file_names.simps) (simp add: name nums file_of_def)
  then show ?case
    using Cons.IH [OF parts(3) fit Cons.prems(3), of "acc @ [file_of f]"] Cons.prems(4) len by simp
qed

lemma read_opcode_lengths_encoded:
  "encoded_at d off lens \<Longrightarrow> off + length lens \<le> he \<Longrightarrow> he \<le> ue \<Longrightarrow>
     read_opcode_lengths d he ue (length lens) off = Ret (lens, off + length lens)"
proof (induction lens arbitrary: off)
  case (Cons l lens)
  then show ?case
    using read_code [of d off l lens ue] Cons.IH [of "Suc off"] by (simp add: encoded_at_Cons)
qed simp

subsection \<open>The written unit\<close>

record line_source =
  src_version :: u16
  src_header :: line_header
  src_dirs :: "bytes list"
  src_files :: "file_source list"
  src_rows :: "LineEntry list"

definition bool_byte :: "bool \<Rightarrow> u8" where
  "bool_byte b = (if b then 1 else 0)"

definition header_fields :: "u16 \<Rightarrow> line_header \<Rightarrow> bytes" where
  "header_fields v h =
     [min_instruction_length h] @ (if 4 \<le> v then [max_operations h] else [])
     @ [bool_byte (default_is_stmt h), line_base h, line_range h, opcode_base h] @ standard_opcode_lengths h"

definition header_bytes :: "line_source \<Rightarrow> bytes" where
  "header_bytes l = header_fields (src_version l) (src_header l) @ directories_bytes (src_dirs l) @ files_bytes (src_files l)"

definition program_ops :: "line_source \<Rightarrow> line_op list" where
  "program_ops l = rows_ops (src_header l) (reset_state (default_is_stmt (src_header l))) (src_rows l)"

definition unit_body :: "bool \<Rightarrow> u8 \<Rightarrow> line_source \<Rightarrow> bytes" where
  "unit_body le asz l =
     ordered le (le_bytes 2 (unat (src_version l))) @ ordered le (le_bytes 4 (length (header_bytes l)))
     @ header_bytes l @ ops_bytes le asz (program_ops l)"

definition line_unit_bytes :: "bool \<Rightarrow> u8 \<Rightarrow> line_source \<Rightarrow> bytes" where
  "line_unit_bytes le asz l = ordered le (le_bytes 4 (length (unit_body le asz l))) @ unit_body le asz l"

definition line_source_ok :: "bool \<Rightarrow> u8 \<Rightarrow> line_source \<Rightarrow> bool" where
  "line_source_ok le asz l \<longleftrightarrow>
     src_version l < 5 \<and> line_header_ok (src_header l) \<and>
     length (standard_opcode_lengths (src_header l)) = unat (opcode_base (src_header l)) - 1 \<and>
     list_all name_ok (src_dirs l) \<and> list_all file_ok (src_files l) \<and>
     list_all (\<lambda>r. asz = 8 \<or> entry_address r < 2 ^ 32) (src_rows l) \<and>
     length (unit_body le asz l) < 0xffffffff"

lemma length_word:
  fixes n :: nat
  assumes "n < 0xffffffff"
  shows "unat (word_of_nat n :: u32) = n" "(word_of_nat n :: u32) \<noteq> 0xffffffff"
    "unat (ucast (word_of_nat n :: u32) :: u64) = n"
proof -
  show u: "unat (word_of_nat n :: u32) = n"
    using assms by (simp add: unsigned_of_nat take_bit_nat_eq_self)
  show "(word_of_nat n :: u32) \<noteq> 0xffffffff"
  proof
    assume "(word_of_nat n :: u32) = 0xffffffff"
    then have "unat (word_of_nat n :: u32) = unat (0xffffffff :: u32)" by (rule arg_cong)
    then show False using u assms by simp
  qed
  show "unat (ucast (word_of_nat n :: u32) :: u64) = n"
    using u assms by (simp add: unsigned_ucast_eq take_bit_nat_eq_self)
qed

lemma unit_bounds_encoded:
  assumes "encoded_at d off (ordered le (le_bytes 4 n))" and "n < 0xffffffff" and "off + 4 + n \<le> length d"
    and "length d \<le> vector_max"
  shows "unit_bounds le d off = Ret (Some (False, off + 4 + n, off + 4))"
proof -
  have "readU32 le d off (length d) = Ret (word_of_nat n, off + 4)"
    using readU32_encoded [of d off le "word_of_nat n" "length d"] assms length_word(1) [OF assms(2)] by simp
  moreover have "off + 4 + n < 2 ^ 64" using assms(3,4) by (simp add: vector_max_numeral)
  ultimately show ?thesis
    using assms(3) length_word(2,3) [OF assms(2)] by (simp add: unit_bounds_def Let_def)
qed

lemma header_fields_read:
  assumes "encoded_at d p (header_fields v h)" and "p + length (header_fields v h) \<le> he" and "he \<le> ue"
    and "max_operations h = 1" and "length (standard_opcode_lengths h) = unat (opcode_base h) - 1"
  shows "obind (readU8 d p ue) (\<lambda>(min_inst, off).
         obind (if 4 \<le> v then readU8 d off ue else Ret (1, off)) (\<lambda>(max_ops, off).
         obind (readU8 d off ue) (\<lambda>(is_stmt, off). obind (readU8 d off ue) (\<lambda>(base, off).
         obind (readU8 d off ue) (\<lambda>(range, off). obind (readU8 d off ue) (\<lambda>(opbase, off).
         obind (read_opcode_lengths d he ue (unat opbase - 1) off) (\<lambda>(lens, off).
           k min_inst max_ops is_stmt base range opbase lens off)))))))
    = k (min_instruction_length h) (max_operations h) (bool_byte (default_is_stmt h)) (line_base h) (line_range h)
        (opcode_base h) (standard_opcode_lengths h) (p + length (header_fields v h))"
proof -
  define q where "q = (if 4 \<le> v then Suc (Suc p) else Suc p)"
  have parts: "encoded_at d p [min_instruction_length h]" "4 \<le> v \<Longrightarrow> encoded_at d (Suc p) [max_operations h]"
    "encoded_at d q [bool_byte (default_is_stmt h)]" "encoded_at d (Suc q) [line_base h]"
    "encoded_at d (Suc (Suc q)) [line_range h]" "encoded_at d (Suc (Suc (Suc q))) [opcode_base h]"
    "encoded_at d (Suc (Suc (Suc (Suc q)))) (standard_opcode_lengths h)"
    using assms(1) by (auto simp: header_fields_def encoded_at_Cons encoded_at_append q_def split: if_splits)
  have len: "p + length (header_fields v h) = Suc (Suc (Suc (Suc q))) + length (standard_opcode_lengths h)"
    by (simp add: header_fields_def q_def)
  have ends: "Suc (Suc (Suc (Suc q))) + length (standard_opcode_lengths h) \<le> he" using assms(2) len by simp
  have "p < ue" "4 \<le> v \<Longrightarrow> Suc p < ue" using ends assms(3) by (auto simp: q_def split: if_splits)
  then have r: "readU8 d p ue = Ret (min_instruction_length h, Suc p)"
    "4 \<le> v \<Longrightarrow> readU8 d (Suc p) ue = Ret (max_operations h, Suc (Suc p))"
    "readU8 d q ue = Ret (bool_byte (default_is_stmt h), Suc q)"
    "readU8 d (Suc q) ue = Ret (line_base h, Suc (Suc q))"
    "readU8 d (Suc (Suc q)) ue = Ret (line_range h, Suc (Suc (Suc q)))"
    "readU8 d (Suc (Suc (Suc q))) ue = Ret (opcode_base h, Suc (Suc (Suc (Suc q))))"
    using read_code [OF parts(1)] read_code [OF parts(2)] read_code [OF parts(3)] read_code [OF parts(4)]
      read_code [OF parts(5)] read_code [OF parts(6)] ends assms(3) by simp_all
  have rl: "read_opcode_lengths d he ue (unat (opcode_base h) - 1) (Suc (Suc (Suc (Suc q))))
      = Ret (standard_opcode_lengths h, Suc (Suc (Suc (Suc q))) + length (standard_opcode_lengths h))"
    using read_opcode_lengths_encoded [OF parts(7) ends assms(3)] assms(5) by simp
  show ?thesis
  proof (cases "4 \<le> v")
    case True
    then show ?thesis unfolding len using r rl by (simp add: q_def)
  next
    case False
    then show ?thesis unfolding len using r rl assms(4) by (simp add: q_def)
  qed
qed

definition unit_of :: "bytes \<Rightarrow> bytes \<Rightarrow> bytes \<Rightarrow> u8 \<Rightarrow> nat \<Rightarrow> nat \<Rightarrow> line_unit" where
  "unit_of d str line_str asz unit_end header_end =
     \<lparr>lu_data = d, lu_str = str, lu_line_str = line_str, lu_is64 = False, lu_end = unit_end,
      lu_header_end = header_end, lu_address_size = asz\<rparr>"

definition tables_of :: "line_source \<Rightarrow> line_tables" where
  "tables_of l = \<lparr>lt_directories = map text_of (src_dirs l), lt_files = map file_of (src_files l), lt_directory_entries = []\<rparr>"

lemma tables_encoded:
  assumes "encoded_at d off (directories_bytes (src_dirs l) @ files_bytes (src_files l))"
    and "he = off + length (directories_bytes (src_dirs l) @ files_bytes (src_files l))" and "he \<le> ue"
    and "list_all name_ok (src_dirs l)" and "list_all file_ok (src_files l)"
  shows "tables_v4 (unit_of d str line_str asz ue he) off = Ret (tables_of l)"
proof -
  let ?q = "off + length (directories_bytes (src_dirs l))"
  have parts: "encoded_at d off (directories_bytes (src_dirs l))" "encoded_at d ?q (files_bytes (src_files l))"
    using assms(1) by (simp_all add: encoded_at_append)
  have dirs: "include_directories d off he [] = (map text_of (src_dirs l), ?q)"
    using include_directories_encoded [OF parts(1)] assms(2,4) by simp
  have files: "file_names d ?q he ue [] = Ret (map file_of (src_files l), he)"
    using file_names_encoded [OF parts(2) _ assms(3,5)] assms(2) by simp
  show ?thesis by (simp add: tables_v4_def unit_of_def tables_of_def dirs files)
qed

lemma parse_line_header_encoded:
  assumes "encoded_at d off (unit_body le asz l)" and "off + length (unit_body le asz l) = ue"
    and "ue \<le> length d" and "length d \<le> vector_max" and "line_source_ok le asz l"
  shows "parse_line_header le d str line_str asz False ue off =
    Ret (Some (unit_of d str line_str asz ue (off + 6 + length (header_bytes l)), src_header l, tables_of l))"
proof -
  let ?h = "src_header l" and ?v = "src_version l"
  define p where "p = off + 2 + 4"
  define he where "he = p + length (header_bytes l)"
  have ok: "\<not> 5 \<le> ?v" "max_operations ?h = 1" "length (standard_opcode_lengths ?h) = unat (opcode_base ?h) - 1"
    "list_all name_ok (src_dirs l)" "list_all file_ok (src_files l)" "length (unit_body le asz l) < 0xffffffff"
    using assms(5) by (simp_all add: line_source_ok_def line_header_ok_def not_le)
  have ue: "he \<le> ue"
    using assms(2) by (simp add: he_def p_def unit_body_def)
  have hlen: "length (header_bytes l) < 0xffffffff" using ok(6) by (simp add: unit_body_def)
  have parts: "encoded_at d off (ordered le (le_bytes 2 (unat ?v)))"
    "encoded_at d (off + 2) (ordered le (le_bytes 4 (length (header_bytes l))))"
    "encoded_at d p (header_bytes l)"
    using assms(1) by (simp_all add: unit_body_def encoded_at_append p_def)
  define q where "q = p + length (header_fields ?v ?h)"
  have fields: "encoded_at d p (header_fields ?v ?h)"
    "encoded_at d q (directories_bytes (src_dirs l) @ files_bytes (src_files l))"
    using parts(3) by (simp_all add: header_bytes_def encoded_at_append q_def add.assoc)
  have he: "he = q + length (directories_bytes (src_dirs l) @ files_bytes (src_files l))"
    by (simp add: he_def q_def header_bytes_def)
  have bounds: "off + 2 \<le> ue" "off + 2 + 4 \<le> ue" "ue \<le> vector_max" "p + length (header_bytes l) < 2 ^ 64"
    using ue he_def p_def assms(3,4) by (simp_all add: vector_max_numeral)
  have r1: "readU16 le d off ue = Ret (?v, off + 2)"
    using readU16_encoded [OF parts(1) bounds(1) assms(3) bounds(3)] .
  have r2: "read_offset le False d (off + 2) ue = Ret (ucast (word_of_nat (length (header_bytes l)) :: u32), p)"
    using readU32_encoded [of d "off + 2" le "word_of_nat (length (header_bytes l))" ue] parts(2) bounds assms(3)
      length_word(1) [OF hlen]
    by (simp add: read_offset_def p_def)
  have end_sum: "u64_add p (unat (ucast (word_of_nat (length (header_bytes l)) :: u32) :: u64)) = he"
    using bounds(4) length_word(3) [OF hlen] by (simp add: he_def)
  have "q \<le> he" using he by simp
  note chain = header_fields_read [OF fields(1) this [unfolded q_def] ue ok(2,3), folded q_def]
  have tables: "tables_v4 (unit_of d str line_str asz ue he) q = Ret (tables_of l)"
    by (rule tables_encoded [OF fields(2) he ue ok(4,5)])
  have flag: "(bool_byte (default_is_stmt ?h) \<noteq> 0) = default_is_stmt ?h" by (simp add: bool_byte_def)
  have six: "off + 6 + length (header_bytes l) = he" by (simp add: he_def p_def)
  have nue: "\<not> ue < he" using ue by simp
  have v5: "?v < 5" using ok(1) by (simp add: not_le)
  have "parse_line_header le d str line_str asz False ue off =
      obind (tables_v4 (unit_of d str line_str asz ue he) q) (\<lambda>t. Ret (Some (unit_of d str line_str asz ue he, ?h, t)))"
    unfolding parse_line_header_def
    by (simp only: r1 r2 obind.simps prod.case ok(1) if_False Let_def end_sum nue chain v5 if_True flag)
      (cases ?h, simp add: unit_of_def)
  then show ?thesis by (simp only: tables obind.simps six)
qed

text \<open>The table of a source.\<close>

definition source_table :: "line_source \<Rightarrow> LineAttributeValue" where
  "source_table l =
     \<lparr>line_rows = src_rows l, line_directories = map text_of (src_dirs l), line_files = map file_of (src_files l),
      line_directory_entries = []\<rparr>"

lemma line_table_parsed:
  assumes "line_source_ok le asz l" and "encoded_at d off (line_unit_bytes le asz l)" and "length d \<le> vector_max"
    and "length (program_ops l) \<le> fuel"
  shows "parseLineNumberProgram le fuel d str line_str asz off = Some (Ret (source_table l))"
proof -
  let ?body = "unit_body le asz l" and ?h = "src_header l"
  define ue where "ue = off + 4 + length ?body"
  define he where "he = off + 4 + 6 + length (header_bytes l)"
  let ?u = "unit_of d str line_str asz ue he"
  let ?m = "start_machine ?h (tables_of l)"
  have parts: "encoded_at d off (ordered le (le_bytes 4 (length ?body)))" "encoded_at d (off + 4) ?body"
    using assms(2) by (simp_all add: line_unit_bytes_def encoded_at_append)
  have fit: "ue \<le> length d" using encoded_at_length [OF parts(2)] by (simp add: ue_def)
  have body: "length ?body < 0xffffffff" using assms(1) by (simp add: line_source_ok_def)
  have ne: "d \<noteq> []" "\<not> length d \<le> off" using fit by (auto simp: ue_def unit_body_def)
  have bounds: "unit_bounds le d off = Ret (Some (False, ue, off + 4))"
    using unit_bounds_encoded [OF parts(1) body] fit assms(3) by (simp add: ue_def)
  have header: "parse_line_header le d str line_str asz False ue (off + 4) = Ret (Some (?u, ?h, tables_of l))"
    using parse_line_header_encoded [OF parts(2) _ fit assms(3,1)] by (simp add: ue_def he_def)
  have hdr: "line_header_ok ?h" using assms(1) by (simp add: line_source_ok_def)
  have u: "unit_ok ?u" using fit assms(3) by (simp add: unit_ok_def unit_of_def)
  have fits: "list_all (op_fits ?u ?h) (program_ops l)"
    using assms(1) rows_ops_fit [of ?u "src_rows l"] by (simp add: program_ops_def line_source_ok_def unit_of_def)
  have prog: "encoded_at d he (ops_bytes le asz (program_ops l))" "he + length (ops_bytes le asz (program_ops l)) = ue"
    using parts(2) by (simp_all add: unit_body_def encoded_at_append ue_def he_def)
  obtain rest where fuel: "fuel = length (program_ops l) + rest" using assms(4) le_Suc_ex by blast
  have "run_line le fuel ?u ?h he ?m = run_line le rest ?u ?h ue (run_ops ?h (program_ops l) ?m)"
    using ops_run [OF hdr u fits, of le ?m] prog fuel by (simp add: line_runs_def unit_of_def)
  also have "\<dots> = Some (Ret (run_ops ?h (program_ops l) ?m))"
    by (cases rest) (simp_all add: unit_of_def)
  finally have run: "run_line le fuel ?u ?h he ?m = Some (Ret (run_ops ?h (program_ops l) ?m))" .
  have "lm_state ?m = reset_state (default_is_stmt ?h)" "flags_clear (reset_state (default_is_stmt ?h))"
    by (simp_all add: start_machine_def flags_clear_def reset_state_def)
  then have "lm_rows (run_ops ?h (program_ops l) ?m) = src_rows l" "lm_files (run_ops ?h (program_ops l) ?m) = map file_of (src_files l)"
    using rows_ops_run [of ?m ?h "src_rows l"] by (simp_all add: program_ops_def start_machine_def tables_of_def)
  then have "line_table (tables_of l) (run_ops ?h (program_ops l) ?m) = source_table l"
    by (simp add: line_table_def source_table_def tables_of_def)
  moreover have "lu_header_end ?u = he" by (simp add: unit_of_def)
  ultimately show ?thesis
    using ne by (simp add: parseLineNumberProgram_def bounds header run)
qed

text \<open>
  C2: any list of rows, directories and files can be written as a line table of DWARF 2 to 4 and is
  parsed back exactly, wherever the unit stands in the section: the state machine produces the
  written rows, one by one, with every flag, across the ends of sequences.
\<close>

theorem line_table_round_trip:
  assumes "line_source_ok le asz l" and "encoded_at d off (line_unit_bytes le asz l)" and "length d \<le> vector_max"
    and "length (program_ops l) \<le> fuel"
  shows "parseLineNumberProgram le fuel d str line_str asz off = Some (Ret (source_table l))"
  using assms by (rule line_table_parsed)

end
