(* ===== verification/LineProps.thy ===== *)
theory LineProps
  imports LineRound
begin

section \<open>Line tables: termination and malformed units\<close>

text \<open>
  The parser returns on every unit in which no number read wraps an offset around; the ways in
  which a malformed unit makes it loop for ever, divide by zero or read outside the section.
\<close>

subsection \<open>Examples\<close>

definition example_line_header :: line_header where
  "example_line_header =
     \<lparr>min_instruction_length = 1, max_operations = 1, default_is_stmt = True, line_base = 251, line_range = 14,
      opcode_base = 13, standard_opcode_lengths = [0, 1, 1, 1, 1, 0, 0, 0, 1, 0, 0, 1]\<rparr>"

definition example_row :: "u64 \<Rightarrow> u32 \<Rightarrow> bool \<Rightarrow> LineEntry" where
  "example_row a l e =
     \<lparr>entry_address = a, entry_file = 1, entry_line = l, entry_column = 3, entry_is_stmt = True,
      entry_basic_block = False, entry_end_sequence = e, entry_prologue_end = False,
      entry_epilogue_begin = False, entry_isa = 0, entry_discriminator = 0\<rparr>"

definition example_line_source :: line_source where
  "example_line_source =
     \<lparr>src_version = 4, src_header = example_line_header, src_dirs = [[0x61]],
      src_files = [\<lparr>src_name = [0x62], src_dir = 1, src_time = 0, src_size = 0\<rparr>],
      src_rows = [example_row 0x1000 7 False, example_row 0x1004 6 False, example_row 0x1008 6 True]\<rparr>"

lemma example_line_source_ok: "line_source_ok True 8 example_line_source"
proof -
  have u: "uleb_encode 0 = [0]" "uleb_encode (Suc 0) = [1]" "uleb_encode 3 = [3]" "uleb_encode (Suc (Suc 0)) = [2]"
    "uleb_encode 9 = [9]"
    by (simp_all add: uleb_encode.simps)
  have s: "sleb_encode 6 = [6]" "sleb_encode (- 1) = [0x7f]" "sleb_encode 0 = [0]"
    by (simp_all add: sleb_encode.simps)
  show ?thesis
    by (simp add: line_source_ok_def example_line_source_def example_line_header_def example_row_def
        line_header_ok_def name_ok_def file_ok_def unit_body_def header_bytes_def header_fields_def directories_bytes_def
        files_bytes_def file_bytes_def program_ops_def row_ops_def state_after_def reset_state_def ops_bytes_def
        extended_def address_bytes_def ub32_def u s)
qed

theorem line_table_round_trip_witness:
  "parseLineNumberProgram True 40 (line_unit_bytes True 8 example_line_source) [] [] 8 0
     = Some (Ret (source_table example_line_source))"
  by (rule line_table_round_trip [OF example_line_source_ok])
    (use example_line_source_ok in \<open>simp_all add: encoded_at_def line_source_ok_def line_unit_bytes_def vector_max_numeral
      program_ops_def example_line_source_def row_ops_def\<close>)

subsection \<open>Opcodes one behind the other\<close>

text \<open>\<open>n\<close> opcodes of the program, from one offset and machine to another.\<close>

fun line_steps :: "bool \<Rightarrow> line_unit \<Rightarrow> line_header \<Rightarrow> nat \<Rightarrow> nat \<Rightarrow> line_machine \<Rightarrow> nat \<Rightarrow> line_machine \<Rightarrow> bool" where
  "line_steps le u h 0 off m off' m' \<longleftrightarrow> off' = off \<and> m' = m"
| "line_steps le u h (Suc n) off m off' m' \<longleftrightarrow>
     off < lu_end u \<and> (\<exists>o1 m1. line_step le u h off m = Ret (Some (o1, m1)) \<and> line_steps le u h n o1 m1 off' m')"

lemma line_steps_run: "line_steps le u h n off m off' m' \<Longrightarrow> run_line le (n + k) u h off m = run_line le k u h off' m'"
  by (induction n arbitrary: off m) auto

lemma line_steps_endless:
  assumes "line_steps le u h n off m off' m'" and "\<And>k. run_line le k u h off' m' = None"
  shows "run_line le fuel u h off m = None"
  using assms(1)
proof (induction n arbitrary: off m fuel)
  case 0
  then show ?case using assms(2) by simp
next
  case (Suc n)
  then show ?case by (cases fuel) auto
qed

text \<open>The header of the unit at an offset of the section, and the program behind it.\<close>

definition header_at ::
  "bool \<Rightarrow> bytes \<Rightarrow> bytes \<Rightarrow> bytes \<Rightarrow> u8 \<Rightarrow> nat \<Rightarrow> line_unit \<Rightarrow> line_header \<Rightarrow> line_tables \<Rightarrow> bool" where
  "header_at le d str line_str asz off u h t \<longleftrightarrow> d \<noteq> [] \<and> off < length d \<and>
     (\<exists>is64 unit_end off'. unit_bounds le d off = Ret (Some (is64, unit_end, off')) \<and>
        parse_line_header le d str line_str asz is64 unit_end off' = Ret (Some (u, h, t)))"

lemma parse_header_at:
  "header_at le d str line_str asz off u h t \<Longrightarrow>
   parseLineNumberProgram le fuel d str line_str asz off =
     map_option (\<lambda>r. obind r (\<lambda>m. Ret (line_table t m))) (run_line le fuel u h (lu_header_end u) (start_machine h t))"
  by (auto simp: header_at_def parseLineNumberProgram_def)

subsection \<open>Division by zero\<close>

text \<open>
  C35: a line range of zero in the header is not checked: whatever opcodes have run before, the
  first special opcode or \<open>DW_LNS_const_add_pc\<close> divides by zero.
\<close>

theorem line_range_zero:
  assumes "header_at le d str line_str asz off u h t" and "line_range h = 0"
    and "line_steps le u h n (lu_header_end u) (start_machine h t) o1 m1" and "o1 < lu_end u"
    and "readU8 (lu_data u) o1 (lu_end u) = Ret (opcode, o2)"
    and "opcode \<noteq> 0" and "opcode_base h \<le> opcode \<or> opcode = 8" and "n < fuel"
  shows "parseLineNumberProgram le fuel d str line_str asz off = Some (Undef DivZero)"
proof -
  have "line_step le u h o1 m1 = Undef DivZero"
    using assms(2,5-7) by (auto simp: line_step_def special_opcode_def standard_opcode_def moved_def advance_adjusted_def)
  then have "run_line le (Suc k) u h o1 m1 = Some (Undef DivZero)" for k using assms(4) by simp
  moreover obtain k where "fuel = n + Suc k" using assms(8) less_imp_Suc_add by fastforce
  ultimately show ?thesis
    using parse_header_at [OF assms(1), of fuel] line_steps_run [OF assms(3), of "Suc k"] by simp
qed

text \<open>A unit without tables whose program is \<open>DW_LNS_copy\<close> and a special opcode.\<close>

definition zero_range_unit :: bytes where
  "zero_range_unit = [16, 0, 0, 0, 2, 0, 8, 0, 0, 0, 1, 1, 251, 0, 2, 0, 0, 0, 1, 0xff]"

theorem line_range_zero_witness:
  "parseLineNumberProgram True 5 zero_range_unit [] [] 8 0 = Some (Undef DivZero)"
proof -
  let ?d = zero_range_unit
  have b: "unit_bounds True ?d 0 = Ret (Some (False, 20, 4))"
    by (simp add: unit_bounds_def zero_range_unit_def readU32_def)
  have n: "until_nul ?d 16 18 = ([], True)" "until_nul ?d 17 18 = ([], True)"
    by (simp_all add: until_nul_def zero_range_unit_def)
  define u where "u = \<lparr>lu_data = ?d, lu_str = [], lu_line_str = [], lu_is64 = False, lu_end = 20, lu_header_end = 18, lu_address_size = 8\<rparr>"
  define h where "h = \<lparr>min_instruction_length = 1, max_operations = 1, default_is_stmt = True, line_base = 251,
      line_range = 0, opcode_base = 2, standard_opcode_lengths = [0]\<rparr>"
  have t: "tables_v4 u 16 = Ret no_tables"
    by (simp add: tables_v4_def u_def include_directories.simps file_names.simps readCString_def n no_tables_def text_of_def)
  have p: "parse_line_header True ?d [] [] 8 False 20 4 = Ret (Some (u, h, no_tables))"
    using t
    by (simp add: parse_line_header_def readU16_def read_offset_def readU32_def readU8_def Let_def u_def h_def
        zero_range_unit_def)
  have hd: "header_at True ?d [] [] 8 0 u h no_tables"
    unfolding header_at_def using b p by (intro conjI exI) (assumption | simp add: zero_range_unit_def)+
  have codes: "readU8 ?d 18 20 = Ret (1, 19)" "readU8 ?d 19 20 = Ret (0xff, 20)"
    by (simp_all add: readU8_def zero_range_unit_def)
  have "line_steps True u h 1 18 m 19 (appendRow m)" for m
    using codes by (simp add: line_step_def standard_opcode_def u_def h_def)
  then show ?thesis
    using line_range_zero [OF hd, of 1 19 "appendRow (start_machine h no_tables)" "0xff" 20 5] codes
    by (simp add: u_def h_def)
qed

subsection \<open>A program that never ends\<close>

text \<open>
  An extended opcode whose length is encoded in five bytes with bit 31 set: the reader extends the
  sign, the end of the opcode wraps around to its start, and an unknown code jumps there.
\<close>

definition looping_unit :: bytes where
  "looping_unit = [21, 0, 0, 0, 2, 0, 7, 0, 0, 0, 1, 1, 251, 14, 13, 0, 0, 0, 0xfa, 0xff, 0xff, 0xff, 0x0f, 0x80, 0]"

text \<open>
  C34: a line program can run for ever: when its opcodes come to an extended opcode with a code
  other than 1 to 4 whose length, added to the offset behind it, wraps around to the start of the
  opcode, the parser does not return, however long it runs.
\<close>

theorem line_program_endless:
  assumes "header_at le d str line_str asz off u h t"
    and "line_steps le u h n (lu_header_end u) (start_machine h t) o1 m1" and "o1 < lu_end u"
    and "readU8 (lu_data u) o1 (lu_end u) = Ret (0, o2)"
    and "readULEB128 (lu_data u) o2 (lu_end u) = Ret (len, o3)" and "o3 < lu_end u" and "u64_add o3 (unat len) = o1"
    and "readU8 (lu_data u) o3 (lu_end u) = Ret (code, o4)" and "code \<notin> {1, 2, 3, 4}"
  shows "parseLineNumberProgram le fuel d str line_str asz off = None"
proof -
  have "line_step le u h o1 m = Ret (Some (o1, m))" for m
    using assms(3-9) by (simp add: line_step_def extended_opcode_def extended_body_def)
  then have "run_line le k u h o1 m1 = None" for k
    using assms(3) by (induction k) simp_all
  from line_steps_endless [OF assms(2) this] show ?thesis by (simp add: parse_header_at [OF assms(1)])
qed

theorem line_program_endless_witness:
  "parseLineNumberProgram True 1000 looping_unit [] [] 8 0 = None"
proof -
  let ?d = looping_unit
  have b: "unit_bounds True ?d 0 = Ret (Some (False, 25, 4))"
    by (simp add: unit_bounds_def looping_unit_def readU32_def)
  define u where "u = \<lparr>lu_data = ?d, lu_str = [], lu_line_str = [], lu_is64 = False, lu_end = 25, lu_header_end = 17, lu_address_size = 8\<rparr>"
  define h where "h = \<lparr>min_instruction_length = 1, max_operations = 1, default_is_stmt = True, line_base = 251,
      line_range = 14, opcode_base = 13, standard_opcode_lengths = [0, 0]\<rparr>"
  have lens: "read_opcode_lengths ?d 17 25 12 15 = Ret ([0, 0], 17)"
    by (simp add: looping_unit_def readU8_def numeral_eq_Suc)
  have t: "tables_v4 u 17 = Ret no_tables"
    by (simp add: tables_v4_def u_def include_directories.simps file_names.simps no_tables_def)
  have p: "parse_line_header True ?d [] [] 8 False 25 4 = Ret (Some (u, h, no_tables))"
    using t lens
    by (simp add: parse_line_header_def readU16_def read_offset_def readU32_def readU8_def Let_def u_def h_def
        looping_unit_def)
  have hd: "header_at True ?d [] [] 8 0 u h no_tables"
    unfolding header_at_def using b p by (intro conjI exI) (assumption | simp add: looping_unit_def)+
  have leb: "readULEB128 ?d 18 25 = Ret (0xfffffffffffffffa, 23)"
    by (simp add: readULEB128_def readULEB128_loop.simps looping_unit_def)
  have codes: "readU8 ?d 17 25 = Ret (0, 18)" "readU8 ?d 23 25 = Ret (0x80, 24)"
    by (simp_all add: readU8_def looping_unit_def)
  show ?thesis
    using line_program_endless [OF hd, of 0 17 "start_machine h no_tables" 18 "0xfffffffffffffffa" 23 "0x80" 24 1000] leb codes
    by (simp add: u_def u64_add_def)
qed

subsection \<open>Termination\<close>

definition leb_no_wrap :: "bytes \<Rightarrow> bool" where
  "leb_no_wrap d \<longleftrightarrow> (\<forall>mx off v off'. mx \<le> length d \<longrightarrow> off \<le> length d \<longrightarrow> readULEB128 d off mx = Ret (v, off') \<longrightarrow> off' + unat v < 2 ^ 64)"

text \<open>\<open>not_before off r\<close>: a value of \<open>r\<close> comes with an offset that is not before \<open>off\<close>.\<close>

definition not_before :: "nat \<Rightarrow> (nat \<times> 'b) outcome \<Rightarrow> bool" where
  "not_before off r \<longleftrightarrow> (\<forall>off' x. r = Ret (off', x) \<longrightarrow> off \<le> off')"

named_theorems forward_intros

lemma not_before_Ret [forward_intros]: "off \<le> off' \<Longrightarrow> not_before off (Ret (off', x))"
  by (simp add: not_before_def)

lemma not_before_if [forward_intros]:
  "not_before off a \<Longrightarrow> not_before off b \<Longrightarrow> not_before off (if c then a else b)"
  by simp

lemma not_before_moved [forward_intros]: "off \<le> off' \<Longrightarrow> not_before off (moved off' m r)"
  by (auto simp: not_before_def moved_def obind_eq_Ret)

lemma not_before_uleb [forward_intros]:
  "(\<And>v off'. off \<le> off' \<Longrightarrow> not_before off (f (v, off'))) \<Longrightarrow> not_before off (obind (readULEB128 d off mx) f)"
  by (fastforce simp: not_before_def obind_eq_Ret dest: uleb_reader.rd_forward)

lemma not_before_sleb [forward_intros]:
  "(\<And>v off'. off \<le> off' \<Longrightarrow> not_before off (f (v, off'))) \<Longrightarrow> not_before off (obind (readSLEB128 d off mx) f)"
  by (fastforce simp: not_before_def obind_eq_Ret dest: sleb_reader.rd_forward)

lemma not_before_u16 [forward_intros]:
  "(\<And>v off'. off \<le> off' \<Longrightarrow> not_before off (f (v, off'))) \<Longrightarrow> not_before off (obind (readU16 le d off mx) f)"
  by (fastforce simp: not_before_def obind_eq_Ret dest: u16_reader.rd_forward)

lemma skip_operands_forward: "skip_operands d mx n off = Ret off' \<Longrightarrow> off \<le> off'"
proof (induction n arbitrary: off)
  case (Suc n)
  then obtain v p where "readULEB128 d off mx = Ret (v, p)" "skip_operands d mx n p = Ret off'"
    by (auto simp: obind_eq_Ret)
  then show ?case using Suc.IH [of p] uleb_reader.rd_forward [of d off mx v p] by simp
qed simp

lemma not_before_skip [forward_intros]: "not_before off (obind (skip_operands d mx n off) (\<lambda>off. Ret (off, m)))"
  by (auto simp: not_before_def obind_eq_Ret dest: skip_operands_forward)

lemma standard_opcode_not_before: "not_before off (standard_opcode le u h opcode off m)"
  unfolding standard_opcode_def Let_def
  by (rule forward_intros order_refl | assumption | simp only: prod.case)+

lemma standard_opcode_forward: "standard_opcode le u h opcode off m = Ret (off', m') \<Longrightarrow> off \<le> off'"
  using standard_opcode_not_before [of off le u h opcode m] by (simp add: not_before_def)

lemma special_opcode_forward: "special_opcode h opcode off m = Ret (off', m') \<Longrightarrow> off = off'"
  by (auto simp: special_opcode_def obind_eq_Ret Let_def)

lemma extended_opcode_forward:
  assumes "leb_no_wrap (lu_data u)" and "lu_end u \<le> length (lu_data u)" and "off \<le> length (lu_data u)"
    and "extended_opcode le u h off m = Ret (Some (off', m'))"
  shows "off \<le> off'"
proof -
  obtain len p where r: "readULEB128 (lu_data u) off (lu_end u) = Ret (len, p)"
    and rest: "(let ext_end = u64_add p (unat len) in
       if lu_end u < ext_end \<or> lu_end u \<le> p then Ret None
       else obind (readU8 (lu_data u) p (lu_end u)) (\<lambda>(code, off).
         obind (extended_body le u h code ext_end off m) (\<lambda>(off, m).
           Ret (Some (if off < ext_end then ext_end else off, m))))) = Ret (Some (off', m'))"
    using assms(4) by (auto simp: extended_opcode_def obind_eq_Ret)
  have "p + unat len < 2 ^ 64" using assms(1-3) r unfolding leb_no_wrap_def by blast
  then have "u64_add p (unat len) = p + unat len" by simp
  then have "p \<le> off'" using rest by (auto simp: obind_eq_Ret Let_def split: if_splits)
  then show ?thesis using uleb_reader.rd_forward [OF r] by simp
qed

lemma line_step_progress:
  assumes "leb_no_wrap (lu_data u)" and "lu_end u \<le> length (lu_data u)" and "off < lu_end u"
    and "line_step le u h off m = Ret (Some (off', m'))"
  shows "off < off'"
proof -
  have r: "readU8 (lu_data u) off (lu_end u) = Ret (lu_data u ! off, Suc off)"
    using assms(2,3) by (simp add: readU8_def)
  let ?c = "lu_data u ! off"
  consider "?c = 0" | "?c \<noteq> 0" "?c < opcode_base h" | "?c \<noteq> 0" "\<not> ?c < opcode_base h" by blast
  then have "Suc off \<le> off'"
  proof cases
    case 1
    then have "extended_opcode le u h (Suc off) m = Ret (Some (off', m'))" using assms(4) r by (simp add: line_step_def)
    moreover have "Suc off \<le> length (lu_data u)" using assms(2,3) by simp
    ultimately show ?thesis using extended_opcode_forward [OF assms(1,2)] by blast
  next
    case 2
    then have "obind (standard_opcode le u h ?c (Suc off) m) (\<lambda>r. Ret (Some r)) = Ret (Some (off', m'))"
      using assms(4) r by (simp add: line_step_def)
    then show ?thesis by (auto simp only: obind_eq_Ret outcome.inject option.inject dest: standard_opcode_forward)
  next
    case 3
    then have "obind (special_opcode h ?c (Suc off) m) (\<lambda>r. Ret (Some r)) = Ret (Some (off', m'))"
      using assms(4) r by (simp add: line_step_def)
    then show ?thesis by (auto simp only: obind_eq_Ret outcome.inject option.inject dest: special_opcode_forward)
  qed
  then show ?thesis by simp
qed

lemma run_line_returns:
  assumes "leb_no_wrap (lu_data u)" and "lu_end u \<le> length (lu_data u)"
  shows "lu_end u \<le> off + fuel \<Longrightarrow> run_line le fuel u h off m \<noteq> None"
proof (induction fuel arbitrary: off m)
  case (Suc fuel)
  show ?case
  proof (cases "off < lu_end u")
    case True
    have "run_line le fuel u h off' m' \<noteq> None" if "line_step le u h off m = Ret (Some (off', m'))" for off' m'
      using Suc.IH [of off' m'] Suc.prems line_step_progress [OF assms True that] by simp
    then show ?thesis using True by (auto split: outcome.split option.split)
  qed simp
qed simp

lemma parse_line_header_unit:
  "parse_line_header le d str line_str asz is64 ue off = Ret (Some (u, h, t)) \<Longrightarrow> lu_data u = d \<and> lu_end u = ue"
  by (auto simp: parse_line_header_def obind_eq_Ret Let_def split: if_splits)

text \<open>
  Every LEB128 number that starts below some bound inside the section can be read, and the unsigned
  ones, added to the offset behind them, do not exceed 64 bits.
\<close>

definition leb_ok :: "bytes \<Rightarrow> bool" where
  "leb_ok d \<longleftrightarrow>
     (\<forall>mx off. off < mx \<and> mx \<le> length d \<longrightarrow>
        (\<exists>v off'. readULEB128 d off mx = Ret (v, off') \<and> off' + unat v < 2 ^ 64) \<and> delivers (readSLEB128 d off mx))"

lemma readULEB128_past: "mx \<le> off \<Longrightarrow> readULEB128 d off mx = Ret (0, off)"
  by (simp add: readULEB128_def readULEB128_loop.simps)

lemma leb_ok_no_wrap:
  assumes ok: "leb_ok d" and len: "length d \<le> vector_max"
  shows "leb_no_wrap d"
proof -
  have "off' + unat v < 2 ^ 64" if b: "mx \<le> length d" "off \<le> length d" and r: "readULEB128 d off mx = Ret (v, off')" for mx off v off'
  proof (cases "off < mx")
    case True
    then show ?thesis using ok b r by (fastforce simp: leb_ok_def)
  next
    case False
    then show ?thesis using b r len by (simp add: readULEB128_past vector_max_numeral)
  qed
  then show ?thesis by (simp add: leb_no_wrap_def)
qed

named_theorems delivers_intros

lemma delivers_uleb [delivers_intros]: "leb_ok d \<Longrightarrow> mx \<le> length d \<Longrightarrow> delivers (readULEB128 d off mx)"
  by (cases "off < mx") (fastforce simp: leb_ok_def delivers_def readULEB128_past)+

lemma delivers_sleb [delivers_intros]: "leb_ok d \<Longrightarrow> mx \<le> length d \<Longrightarrow> delivers (readSLEB128 d off mx)"
  by (cases "off < mx") (auto simp: leb_ok_def delivers_def readSLEB128_def readSLEB128_loop.simps)

lemma delivers_fixed [delivers_intros]:
  assumes "mx \<le> length d" and "length d \<le> vector_max" and "off \<le> mx"
  shows "delivers (readU8 d off mx)" and "delivers (readU16 le d off mx)" and "delivers (readU32 le d off mx)"
    and "delivers (readU64 le d off mx)" and "delivers (read_offset le is64 d off mx)"
proof -
  have w: "u64_add off k = off + k" if "k < 8" for k using assms that by (simp add: vector_max_numeral)
  show "delivers (readU8 d off mx)" using assms by (auto simp: readU8_def delivers_def)
  show "delivers (readU16 le d off mx)"
    using assms readU16_value [of off mx d le] by (cases "off + 2 \<le> mx") (auto simp: readU16_def w delivers_def)
  show u32: "delivers (readU32 le d off mx)"
    using assms readU32_value [of off mx d le] by (cases "off + 4 \<le> mx") (auto simp: readU32_def w delivers_def)
  show u64: "delivers (readU64 le d off mx)"
    using assms readU64_value [of off mx d le] by (cases "off + 8 \<le> mx") (auto simp: readU64_def w delivers_def)
  show "delivers (read_offset le is64 d off mx)"
    using u32 u64 by (auto simp: read_offset_def delivers_def)
qed

lemma delivers_skip_operands [delivers_intros]: "leb_ok d \<Longrightarrow> mx \<le> length d \<Longrightarrow> delivers (skip_operands d mx n off)"
  by (induction n arbitrary: off) (auto intro!: delivers_obind delivers_uleb)

lemma delivers_advance [delivers_intros]:
  assumes "max_operations h \<noteq> 0"
  shows "delivers (advance_ops h n s)" and "delivers (advance_pc h v s)" and "line_range h \<noteq> 0 \<Longrightarrow> delivers (advance_adjusted h a s)"
proof -
  have "unat (ucast (max_operations h) :: u32) = unat (max_operations h)"
    using unat_u8_bound [of "max_operations h"] by (simp add: unsigned_ucast_eq take_bit_nat_eq_self)
  then have "(ucast (max_operations h) :: u32) \<noteq> 0" using assms by (metis unat_eq_zero)
  then show ops: "delivers (advance_ops h n s)" for n by (simp add: advance_ops_def Let_def)
  show "delivers (advance_pc h v s)" using ops by (simp add: advance_pc_def)
  show "line_range h \<noteq> 0 \<Longrightarrow> delivers (advance_adjusted h a s)" using ops by (simp add: advance_adjusted_def)
qed

lemma delivers_moved [delivers_intros]: "delivers r \<Longrightarrow> delivers (moved off m r)"
  by (auto simp: moved_def delivers_def)

definition line_ready :: "line_unit \<Rightarrow> line_header \<Rightarrow> bool" where
  "line_ready u h \<longleftrightarrow> leb_ok (lu_data u) \<and> length (lu_data u) \<le> vector_max \<and> lu_end u \<le> length (lu_data u) \<and>
     line_range h \<noteq> 0 \<and> max_operations h \<noteq> 0"

lemma standard_opcode_delivers:
  assumes "line_ready u h" and "off \<le> lu_end u"
  shows "delivers (standard_opcode le u h opcode off m)"
proof -
  have r: "leb_ok (lu_data u)" "lu_end u \<le> length (lu_data u)" "length (lu_data u) \<le> vector_max" "line_range h \<noteq> 0"
      "max_operations h \<noteq> 0"
    using assms(1) by (simp_all add: line_ready_def)
  show ?thesis
    unfolding standard_opcode_def Let_def
    by (auto intro!: delivers_obind delivers_intros r assms(2) split: prod.split)
qed

lemma special_opcode_delivers: "line_ready u h \<Longrightarrow> delivers (special_opcode h opcode off m)"
  unfolding special_opcode_def Let_def line_ready_def by (auto intro!: delivers_obind delivers_intros)

lemma extended_body_delivers:
  assumes "line_ready u h" and "off \<le> lu_end u" and "ext_end \<le> lu_end u"
  shows "delivers (extended_body le u h code ext_end off m)"
proof -
  have r: "leb_ok (lu_data u)" "lu_end u \<le> length (lu_data u)" "length (lu_data u) \<le> vector_max"
    using assms(1) by (simp_all add: line_ready_def)
  have ext: "ext_end \<le> length (lu_data u)" using assms(3) r(2) by simp
  show ?thesis
    unfolding extended_body_def Let_def file_numbers_def
    by (auto intro!: delivers_obind delivers_intros r ext assms(2) split: prod.split)
qed

lemma extended_opcode_delivers:
  assumes "line_ready u h" and "off \<le> lu_end u"
  shows "delivers (extended_opcode le u h off m)"
proof -
  have r: "leb_ok (lu_data u)" "lu_end u \<le> length (lu_data u)" "length (lu_data u) \<le> vector_max"
    using assms(1) by (simp_all add: line_ready_def)
  obtain len p where len: "readULEB128 (lu_data u) off (lu_end u) = Ret (len, p)"
    using delivers_uleb [OF r(1,2), of off] by (auto simp: delivers_def)
  show ?thesis
  proof (cases "lu_end u < u64_add p (unat len) \<or> lu_end u \<le> p")
    case False
    then have "readU8 (lu_data u) p (lu_end u) = Ret (lu_data u ! p, Suc p)" using r(2) by (simp add: readU8_def)
    moreover have "delivers (extended_body le u h code (u64_add p (unat len)) (Suc p) m)" for code
      using False assms(1) by (intro extended_body_delivers) auto
    ultimately show ?thesis using len False by (auto simp: extended_opcode_def Let_def intro!: delivers_obind)
  qed (use len in \<open>auto simp: extended_opcode_def\<close>)
qed

lemma line_step_delivers:
  assumes "line_ready u h" and "off < lu_end u"
  shows "delivers (line_step le u h off m)"
proof -
  have "readU8 (lu_data u) off (lu_end u) = Ret (lu_data u ! off, Suc off)"
    using assms by (simp add: readU8_def line_ready_def)
  then show ?thesis
    using assms(2) extended_opcode_delivers [OF assms(1), of "Suc off" le m]
      standard_opcode_delivers [OF assms(1), of "Suc off" le _ m] special_opcode_delivers [OF assms(1)]
    by (auto simp: line_step_def intro!: delivers_obind)
qed

lemma run_line_ends:
  assumes "line_ready u h"
  shows "lu_end u \<le> off + fuel \<Longrightarrow> \<exists>m'. run_line le fuel u h off m = Some (Ret m')"
proof (induction fuel arbitrary: off m)
  case (Suc fuel)
  have wrap: "leb_no_wrap (lu_data u)" and le: "lu_end u \<le> length (lu_data u)"
    using assms leb_ok_no_wrap by (auto simp: line_ready_def)
  show ?case
  proof (cases "off < lu_end u")
    case True
    then obtain r where r: "line_step le u h off m = Ret r"
      using line_step_delivers [OF assms True, of le m] unfolding delivers_def by blast
    show ?thesis
    proof (cases r)
      case (Some x)
      then obtain off' m' where x: "r = Some (off', m')" by (cases x) auto
      then have "off < off'" using line_step_progress [OF wrap le True] r by simp
      then show ?thesis using Suc.IH [of off' m'] Suc.prems True r x by simp
    qed (use True r in simp)
  qed simp
qed simp

text \<open>
  C33: behind a header whose line range and operations per instruction are not zero, the program of
  a unit is run to its end and its table is returned, in a section in which every LEB128 number can
  be read and none, added to the offset behind it, exceeds 64 bits; as many rounds as the section
  has bytes are enough.
\<close>

theorem line_program_returns:
  assumes "header_at le d str line_str asz off u h t" and "line_range h \<noteq> 0" and "max_operations h \<noteq> 0"
    and "leb_ok d" and "length d \<le> vector_max" and "length d \<le> fuel"
  shows "\<exists>m. parseLineNumberProgram le fuel d str line_str asz off = Some (Ret (line_table t m))"
proof -
  obtain is64 ue off' where b: "unit_bounds le d off = Ret (Some (is64, ue, off'))"
      and p: "parse_line_header le d str line_str asz is64 ue off' = Ret (Some (u, h, t))"
    using assms(1) by (auto simp: header_at_def)
  have "ue \<le> length d" using b by (auto simp: unit_bounds_def obind_eq_Ret Let_def split: if_splits)
  then have "line_ready u h" "lu_end u \<le> lu_header_end u + fuel"
    using assms parse_line_header_unit [OF p] by (auto simp: line_ready_def)
  from run_line_ends [OF this] show ?thesis by (fastforce simp: parse_header_at [OF assms(1)])
qed

lemma uleb_single_byte:
  assumes "list_all (\<lambda>b. b AND 128 = 0 \<and> unat b < 128) d" and "mx \<le> length d" and "off \<le> length d"
    and "readULEB128 d off mx = Ret (v, off')"
  shows "off' + unat v \<le> length d + 128"
proof (cases "off < mx")
  case True
  then have "d ! off AND 128 = 0" "unat (d ! off) < 128" using assms(1,2) by (auto simp: list_all_length)
  then have "readULEB128 d off mx = Ret (scast (ucast (d ! off AND 127) :: u32), Suc off)"
    using True assms(2) by (simp add: readULEB128_def readULEB128_loop.simps)
  moreover have "unat (scast (ucast (d ! off AND 127) :: u32) :: u64) < 128"
  proof -
    define w where "w = d ! off AND 127"
    have w: "unat w < 128" by (simp add: w_def unat_and_127)
    have "ucast w = (word_of_nat (unat w) :: u32)" by simp
    then have "scast (ucast w :: u32) = (word_of_nat (unat w) :: u64)"
      using scast_u32_u64 [of "unat w"] w by simp
    then show ?thesis using w by (simp add: w_def [symmetric] unsigned_of_nat take_bit_nat_eq_self del: of_nat_unat)
  qed
  ultimately show ?thesis using assms(4) True assms(2) by simp
next
  case False
  then show ?thesis using assms(3,4) by (simp add: readULEB128_def readULEB128_loop.simps)
qed

lemma sleb_single_byte:
  assumes "list_all (\<lambda>b. b AND 128 = 0 \<and> unat b < 128) d" and "mx \<le> length d" and "off < mx"
  shows "delivers (readSLEB128 d off mx)"
proof -
  have "d ! off AND 128 = 0" using assms by (auto simp: list_all_length)
  then show ?thesis using assms(2,3) by (simp add: readSLEB128_def readSLEB128_loop.simps)
qed

lemma leb_ok_bytes:
  assumes "list_all (\<lambda>b. b AND 128 = 0 \<and> unat b < 128) d" and "length d < 2 ^ 63"
  shows "leb_ok d"
  unfolding leb_ok_def
proof (intro allI impI conjI; elim conjE)
  fix mx off assume b: "off < mx" "mx \<le> length d"
  then have "d ! off AND 128 = 0" using assms(1) by (auto simp: list_all_length)
  then obtain v off' where "readULEB128 d off mx = Ret (v, off')"
    using b by (simp add: readULEB128_def readULEB128_loop.simps)
  then show "\<exists>v off'. readULEB128 d off mx = Ret (v, off') \<and> off' + unat v < 2 ^ 64"
    using uleb_single_byte [OF assms(1), of mx off v off'] b assms(2) by auto
qed (use sleb_single_byte [OF assms(1)] in blast)

text \<open>A unit without tables: \<open>DW_LNE_set_discriminator\<close>, \<open>DW_LNS_copy\<close> and \<open>DW_LNE_end_sequence\<close>.\<close>

definition ending_unit :: bytes where
  "ending_unit = [22, 0, 0, 0, 2, 0, 8, 0, 0, 0, 1, 1, 1, 14, 2, 0, 0, 0, 0, 2, 4, 7, 1, 0, 1, 1]"

theorem line_program_returns_witness:
  "\<exists>m. parseLineNumberProgram True 30 ending_unit [] [] 8 0 = Some (Ret (line_table no_tables m))"
proof -
  let ?d = ending_unit
  have b: "unit_bounds True ?d 0 = Ret (Some (False, 26, 4))"
    by (simp add: unit_bounds_def ending_unit_def readU32_def)
  have n: "until_nul ?d 16 18 = ([], True)" "until_nul ?d 17 18 = ([], True)"
    by (simp_all add: until_nul_def ending_unit_def)
  define u where "u = \<lparr>lu_data = ?d, lu_str = [], lu_line_str = [], lu_is64 = False, lu_end = 26, lu_header_end = 18, lu_address_size = 8\<rparr>"
  define h where "h = \<lparr>min_instruction_length = 1, max_operations = 1, default_is_stmt = True, line_base = 1,
      line_range = 14, opcode_base = 2, standard_opcode_lengths = [0]\<rparr>"
  have t: "tables_v4 u 16 = Ret no_tables"
    by (simp add: tables_v4_def u_def include_directories.simps file_names.simps readCString_def n no_tables_def text_of_def)
  have p: "parse_line_header True ?d [] [] 8 False 26 4 = Ret (Some (u, h, no_tables))"
    using t
    by (simp add: parse_line_header_def readU16_def read_offset_def readU32_def readU8_def Let_def u_def h_def
        ending_unit_def)
  have hd: "header_at True ?d [] [] 8 0 u h no_tables"
    unfolding header_at_def using b p by (intro conjI exI) (assumption | simp add: ending_unit_def)+
  have "leb_ok ?d" by (rule leb_ok_bytes) (simp_all add: ending_unit_def)
  then show ?thesis
    using line_program_returns [OF hd, of 30] by (simp add: h_def vector_max_numeral) (simp add: ending_unit_def)
qed

subsection \<open>Reading outside the section\<close>

text \<open>
  A number that is cut off by the bound, when the groups in front of the bound are 0, is read as 0.
\<close>

lemma readULEB128_loop_cut:
  assumes "encoded_at d off (uleb_encode n)" and "k < length (uleb_encode n)" and "128 ^ k dvd n" and "s + 7 * k \<le> 35"
  shows "readULEB128_loop d off (off + k) r s = Ret (r, off + k)"
  using assms
proof (induction k arbitrary: n off s)
  case 0
  then show ?case by (simp add: readULEB128_loop.simps)
next
  case (Suc k)
  have big: "\<not> n < 128" using Suc.prems(2) by (subst (asm) uleb_encode.simps) (auto split: if_splits)
  have g: "n mod 128 = 0" using Suc.prems(3) by (metis dvd_imp_mod_0 dvd_mult_left power_Suc)
  have e: "uleb_encode n = 128 # uleb_encode (n div 128)" using big g by (subst uleb_encode.simps) simp
  have at: "off < length d" "d ! off = 128" "encoded_at d (Suc off) (uleb_encode (n div 128))"
    using Suc.prems(1) unfolding e by (auto simp: encoded_at_Cons)
  have "128 ^ k dvd n div 128" using Suc.prems(3) g by (auto elim!: dvdE)
  then have "readULEB128_loop d (Suc off) (Suc off + k) r (s + 7) = Ret (r, Suc off + k)"
    using Suc.IH [of "Suc off" "n div 128" "s + 7"] at(3) Suc.prems(2,4) e by simp
  then show ?case using at Suc.prems(4) by (subst readULEB128_loop.simps) (simp add: Let_def)
qed

lemma uleb_length_bound: "n < 128 ^ k \<Longrightarrow> 0 < k \<Longrightarrow> length (uleb_encode n) \<le> k"
proof (induction k arbitrary: n)
  case (Suc k)
  show ?case
  proof (cases "n < 128")
    case False
    then have "0 < k" using Suc.prems(1) by (cases k) auto
    moreover have "n div 128 < 128 ^ k" using Suc.prems(1) by (simp add: div_less_iff_less_mult mult.commute)
    ultimately show ?thesis using Suc.IH [of "n div 128"] False by (subst uleb_encode.simps) simp
  qed (subst uleb_encode.simps, simp)
qed simp

text \<open>
  C36: the length of a block field of a DWARF 5 table is checked against the end of the header but
  read up to the end of the unit. When the end of the header cuts the encoding of the length behind
  groups that are 0, the check sees an empty block, and the field is read with its full length,
  outside the section when that reaches behind it.
\<close>

theorem line_block_reads_outside:
  assumes "encoded_at (lu_data u) off (uleb_encode n)" and "off + k = lu_header_end u" and "k < length (uleb_encode n)"
    and "128 ^ k dvd n" and "off + length (uleb_encode n) \<le> lu_end u" and "n < 2 ^ 31"
    and "length (lu_data u) < off + length (uleb_encode n) + n"
    and "length (lu_data u) \<le> vector_max"
  shows "parseLineField le u DW_FORM_block off = Undef OobRead"
proof -
  let ?l = "length (uleb_encode n)"
  have "?l \<le> 5" using uleb_length_bound [of n 5] assms(6) by simp
  then have "readULEB128 (lu_data u) off (lu_header_end u) = Ret (0, lu_header_end u)"
    using readULEB128_loop_cut [OF assms(1,3,4), of 0 0] assms(2,3) by (simp add: readULEB128_def)
  moreover have "u64_add (lu_header_end u) 0 = lu_header_end u"
    using encoded_at_length [OF assms(1)] assms(2,3,8) by (simp add: vector_max_numeral)
  ultimately have "skipForm le u DW_FORM_block off = Ret (Some (lu_header_end u))"
    by (simp add: skipForm_def skip_block_def)
  moreover have "readULEB128 (lu_data u) off (lu_end u) = Ret (word_of_nat n, off + ?l)"
    using readULEB128_encode [OF assms(1,5)] scast_u32_u64 [of n] assms(6) by simp
  then have "block_length le u DW_FORM_block off = Ret (n, off + ?l)"
    using assms(6) by (simp add: block_length_def unsigned_of_nat take_bit_nat_eq_self)
  moreover have "assign_block (lu_data u) (off + ?l) n = Undef OobRead"
    using assms(6,7) by (simp add: assign_block_def vector_max_numeral)
  ultimately show ?thesis by (simp add: parseLineField_def line_block_def)
qed

text \<open>
  A DWARF 5 unit whose only directory is such a block. The length of the block is checked up to the end
  of the header (0) but read up to the end of the unit (16256).
\<close>

definition outside_unit :: bytes where
  "outside_unit =
     [20, 0, 0, 0, 5, 0, 8, 0, 11, 0, 0, 0, 1, 1, 1, 251, 14, 1, 1, 1, 9, 1, 0x80, 0x7f]"

theorem line_block_reads_outside_witness:
  "parseLineNumberProgram True 100 outside_unit [] [] 8 0 = Some (Undef OobRead)"
proof -
  let ?d = outside_unit
  have b: "unit_bounds True ?d 0 = Ret (Some (False, 24, 4))"
    by (simp add: unit_bounds_def outside_unit_def readU32_def)
  define u where "u = \<lparr>lu_data = ?d, lu_str = [], lu_line_str = [], lu_is64 = False, lu_end = 24, lu_header_end = 23, lu_address_size = 8\<rparr>"
  have u: "lu_data u = ?d" "lu_end u = 24" "lu_header_end u = 23" by (simp_all add: u_def)
  have leb: "readULEB128 ?d 19 24 = Ret (1, 20)" "readULEB128 ?d 20 24 = Ret (9, 21)" "readULEB128 ?d 21 24 = Ret (1, 22)"
    by (simp_all add: readULEB128_def readULEB128_loop.simps outside_unit_def)
  have len: "length ?d = 24" by (simp add: outside_unit_def)
  have code: "uleb_encode 16256 = [0x80, 0x7f]" by (simp add: uleb_encode.simps)
  have "encoded_at ?d 22 (uleb_encode 16256)" by (simp add: code encoded_at_def outside_unit_def)
  then have f: "parseLineField True u 9 22 = Undef OobRead"
    using line_block_reads_outside [of u 22 16256 1 True] by (simp add: u code len vector_max_numeral)
  have t: "tables_v5 True u 18 = Undef OobRead"
    using leb f by (simp add: tables_v5_def read_table_def readU8_def u len) (simp add: outside_unit_def)
  have "parse_line_header True ?d [] [] 8 False 24 4 = Undef OobRead"
    using t by (simp add: parse_line_header_def readU16_def read_offset_def readU32_def readU8_def Let_def u_def
        outside_unit_def)
  then show ?thesis using b len by (auto simp: parseLineNumberProgram_def)
qed

end
