(* ===== verification/SymTerm.thy ===== *)
theory SymTerm
  imports EvalCore
begin

section \<open>Symbolic terms\<close>

text \<open>
  The term language of \<open>include/symbolic_expression.hpp\<close> with the constructors of
  \<open>src/symbolic_expression.cpp\<close>, which fold constants and drop neutral operands, and the printed
  form of a term, by which the code compares terms. A \<open>SymExprPtr\<close> is a tree: \<open>null_expr\<close> is the
  null pointer, \<open>SymExpr\<close> a node with the fields of the struct. Terms are never changed, so that
  sharing does not show. The static byte order of \<open>DwarfUtils\<close> is the argument \<open>le\<close>.
\<close>

datatype sym_kind =
    K_CONST_U64 | K_BYTES | K_VAR | K_ADD | K_SUB | K_MUL | K_DIV | K_MOD | K_AND | K_OR | K_XOR
  | K_SHL | K_SHR | K_SHRA | K_NEG | K_NOT | K_ABS | K_EQ | K_NE | K_LT | K_LE | K_GT | K_GE
  | K_ITE | K_LOAD | K_MASK | K_SEXT | K_UNKNOWN

datatype SymExpr =
    null_expr
  | SymExpr (expr_kind: sym_kind) (const_u64: u64) (aux_bytes: u64) (raw_bytes: bytes) (expr_name: string)
      (args: "SymExpr list")

subsection \<open>Queries\<close>

fun asConst :: "SymExpr \<Rightarrow> u64 option" where
  "asConst (SymExpr K_CONST_U64 c aux raw n xs) = Some c"
| "asConst _ = None"

fun asBytes :: "SymExpr \<Rightarrow> bytes option" where
  "asBytes (SymExpr K_BYTES c aux raw n xs) = Some raw"
| "asBytes _ = None"

definition isImmediateLike :: "SymExpr \<Rightarrow> bool" where
  "isImmediateLike e \<longleftrightarrow> asConst e \<noteq> None \<or> asBytes e \<noteq> None"

subsection \<open>Printing\<close>

definition sym_malformed :: "string \<Rightarrow> string \<Rightarrow> nat \<Rightarrow> string \<Rightarrow> string" where
  "sym_malformed what op n aux = ''malformed_'' @ what @ ''('' @ op @ ''argc='' @ dec_string n @ aux @ '')''"

text \<open>The lambdas \<open>bin\<close> and \<open>un\<close> on the printed operands, and the forms with a byte count.\<close>

definition sym_bin :: "string \<Rightarrow> string list \<Rightarrow> string" where
  "sym_bin op xs =
     (case xs of
        [a, b] \<Rightarrow> ''('' @ a @ '' '' @ op @ '' '' @ b @ '')''
      | _ \<Rightarrow> sym_malformed ''bin'' (op @ '','') (length xs) [])"

definition sym_un :: "string \<Rightarrow> string list \<Rightarrow> string" where
  "sym_un op xs =
     (case xs of [a] \<Rightarrow> op @ ''('' @ a @ '')'' | _ \<Rightarrow> sym_malformed ''un'' (op @ '','') (length xs) [])"

definition sym_sized :: "string \<Rightarrow> u64 \<Rightarrow> string list \<Rightarrow> string" where
  "sym_sized op n xs =
     (case xs of
        [a] \<Rightarrow> op @ dec_string (unat n) @ ''('' @ a @ '')''
      | _ \<Rightarrow> sym_malformed op [] (length xs) ('',bytes='' @ dec_string (unat n)))"

definition sym_load :: "u64 \<Rightarrow> string list \<Rightarrow> string" where
  "sym_load n xs =
     (case xs of
        [a] \<Rightarrow> ''load('' @ a @ '','' @ dec_string (unat n) @ '')''
      | _ \<Rightarrow> sym_malformed ''load'' [] (length xs) ('',bytes='' @ dec_string (unat n)))"

definition sym_ite :: "string list \<Rightarrow> string" where
  "sym_ite xs =
     (case xs of
        [c, t, f] \<Rightarrow> ''ite('' @ c @ '','' @ t @ '','' @ f @ '')''
      | _ \<Rightarrow> sym_malformed ''ite'' [] (length xs) [])"

definition hex_byte :: "u8 \<Rightarrow> string" where
  "hex_byte b = (if b < 0x10 then ''0'' else []) @ hex_string False (unat b)"

definition node_string :: "sym_kind \<Rightarrow> u64 \<Rightarrow> u64 \<Rightarrow> bytes \<Rightarrow> string \<Rightarrow> string list \<Rightarrow> string" where
  "node_string k c n raw name xs =
     (case k of
        K_CONST_U64 \<Rightarrow> ''0x'' @ hex_string False (unat c)
      | K_BYTES \<Rightarrow> ''bytes(0x'' @ concat (map hex_byte raw) @ '')''
      | K_VAR \<Rightarrow> name
      | K_ADD \<Rightarrow> sym_bin ''+'' xs | K_SUB \<Rightarrow> sym_bin ''-'' xs | K_MUL \<Rightarrow> sym_bin ''*'' xs
      | K_DIV \<Rightarrow> sym_bin ''/'' xs | K_MOD \<Rightarrow> sym_bin ''%'' xs | K_AND \<Rightarrow> sym_bin ''&'' xs
      | K_OR \<Rightarrow> sym_bin ''|'' xs | K_XOR \<Rightarrow> sym_bin ''^'' xs | K_SHL \<Rightarrow> sym_bin ''<<'' xs
      | K_SHR \<Rightarrow> sym_bin ''>>'' xs | K_SHRA \<Rightarrow> sym_bin ''>>a'' xs
      | K_NEG \<Rightarrow> sym_un ''neg'' xs | K_NOT \<Rightarrow> sym_un ''not'' xs | K_ABS \<Rightarrow> sym_un ''abs'' xs
      | K_EQ \<Rightarrow> sym_bin ''=='' xs | K_NE \<Rightarrow> sym_bin ''!='' xs | K_LT \<Rightarrow> sym_bin ''<'' xs
      | K_LE \<Rightarrow> sym_bin ''<='' xs | K_GT \<Rightarrow> sym_bin ''>'' xs | K_GE \<Rightarrow> sym_bin ''>='' xs
      | K_ITE \<Rightarrow> sym_ite xs | K_LOAD \<Rightarrow> sym_load n xs
      | K_MASK \<Rightarrow> sym_sized ''mask'' n xs | K_SEXT \<Rightarrow> sym_sized ''sext'' n xs
      | K_UNKNOWN \<Rightarrow> ''unknown('' @ name @ '')'')"

fun toString :: "SymExpr \<Rightarrow> string" where
  "toString null_expr = ''null_expr''"
| "toString (SymExpr k c n raw name xs) = node_string k c n raw name (map toString xs)"

text \<open>Two terms are taken for the same when they are printed alike.\<close>

definition symExprEquivalent :: "SymExpr \<Rightarrow> SymExpr \<Rightarrow> bool" where
  "symExprEquivalent a b =
     (if a = b then True else if a = null_expr \<or> b = null_expr then False else toString a = toString b)"

definition same_text :: "SymExpr \<Rightarrow> SymExpr \<Rightarrow> bool" where
  "same_text a b \<longleftrightarrow> a \<noteq> null_expr \<and> b \<noteq> null_expr \<and> toString a = toString b"

subsection \<open>Constructors\<close>

definition sym_node :: "sym_kind \<Rightarrow> SymExpr list \<Rightarrow> SymExpr" where
  "sym_node k xs = SymExpr k 0 0 [] [] xs"

definition makeConst :: "u64 \<Rightarrow> SymExpr" where
  "makeConst v = SymExpr K_CONST_U64 v 0 [] [] []"

definition makeBytes :: "bytes \<Rightarrow> SymExpr" where
  "makeBytes bs = SymExpr K_BYTES 0 0 bs [] []"

definition makeVar :: "string \<Rightarrow> SymExpr" where
  "makeVar n = SymExpr K_VAR 0 0 [] n []"

definition makeUnknown :: "string \<Rightarrow> SymExpr" where
  "makeUnknown why = SymExpr K_UNKNOWN 0 0 [] why []"

definition makeUnary :: "sym_kind \<Rightarrow> SymExpr \<Rightarrow> SymExpr" where
  "makeUnary k a =
     (case asConst a of
        Some c \<Rightarrow>
          if k = K_NEG then makeConst (- c)
          else if k = K_NOT then makeConst (NOT c)
          else if k = K_ABS then makeConst (if c <s 0 then - c else c)
          else sym_node k [a]
      | None \<Rightarrow> sym_node k [a])"

definition bool_const :: "bool \<Rightarrow> SymExpr" where
  "bool_const b = makeConst (if b then 1 else 0)"

fun fold_words :: "sym_kind \<Rightarrow> u64 \<Rightarrow> u64 \<Rightarrow> SymExpr option" where
  "fold_words K_ADD x y = Some (makeConst (x + y))"
| "fold_words K_SUB x y = Some (makeConst (x - y))"
| "fold_words K_MUL x y = Some (makeConst (x * y))"
| "fold_words K_DIV x y = Some (if y = 0 then makeUnknown ''div0'' else makeConst (x div y))"
| "fold_words K_MOD x y = Some (if y = 0 then makeUnknown ''mod0'' else makeConst (x mod y))"
| "fold_words K_AND x y = Some (makeConst (x AND y))"
| "fold_words K_OR x y = Some (makeConst (x OR y))"
| "fold_words K_XOR x y = Some (makeConst (x XOR y))"
| "fold_words K_SHL x y = Some (makeConst (push_bit (unat (y AND 63)) x))"
| "fold_words K_SHR x y = Some (makeConst (drop_bit (unat (y AND 63)) x))"
| "fold_words K_SHRA x y = Some (makeConst (signed_drop_bit (unat (y AND 63)) x))"
| "fold_words K_EQ x y = Some (bool_const (x = y))"
| "fold_words K_NE x y = Some (bool_const (x \<noteq> y))"
| "fold_words K_LT x y = Some (bool_const (x <s y))"
| "fold_words K_LE x y = Some (bool_const (x \<le>s y))"
| "fold_words K_GT x y = Some (bool_const (y <s x))"
| "fold_words K_GE x y = Some (bool_const (y \<le>s x))"
| "fold_words _ x y = None"

definition foldBinary :: "sym_kind \<Rightarrow> SymExpr \<Rightarrow> SymExpr \<Rightarrow> SymExpr option" where
  "foldBinary k a b =
     (case (asBytes a, asBytes b) of
        (Some ba, Some bb) \<Rightarrow>
          if k = K_EQ then Some (bool_const (ba = bb)) else if k = K_NE then Some (bool_const (ba \<noteq> bb)) else None
      | _ \<Rightarrow> (case (asConst a, asConst b) of (Some x, Some y) \<Rightarrow> fold_words k x y | _ \<Rightarrow> None))"

definition makeBinary :: "sym_kind \<Rightarrow> SymExpr \<Rightarrow> SymExpr \<Rightarrow> SymExpr" where
  "makeBinary k a b =
     (case foldBinary k a b of
        Some e \<Rightarrow> e
      | None \<Rightarrow>
          if (k = K_EQ \<or> k = K_NE) \<and> same_text a b then bool_const (k = K_EQ)
          else if k = K_ADD \<and> asConst b = Some 0 then a
          else if k = K_ADD \<and> asConst a = Some 0 then b
          else if k = K_SUB \<and> asConst b = Some 0 then a
          else if k = K_MUL \<and> asConst b = Some 1 then a
          else if k = K_MUL \<and> asConst a = Some 1 then b
          else if k = K_MUL \<and> (asConst b = Some 0 \<or> asConst a = Some 0) then makeConst 0
          else sym_node k [a, b])"

definition makeITE :: "SymExpr \<Rightarrow> SymExpr \<Rightarrow> SymExpr \<Rightarrow> SymExpr" where
  "makeITE c t f =
     (case asConst c of
        Some v \<Rightarrow> if v \<noteq> 0 then t else f
      | None \<Rightarrow> if same_text t f then t else sym_node K_ITE [c, t, f])"

definition sized_node :: "sym_kind \<Rightarrow> u64 \<Rightarrow> SymExpr \<Rightarrow> SymExpr" where
  "sized_node k n a = SymExpr k 0 n [] [] [a]"

definition makeLoad :: "SymExpr \<Rightarrow> u64 \<Rightarrow> SymExpr" where
  "makeLoad addr size_bytes = sized_node K_LOAD size_bytes addr"

text \<open>
  \<open>decodeLowBytesU64\<close>; its two loops are those of \<open>decodeU64FromBytes\<close>. The masks are
  \<open>maskToBytes\<close> and \<open>signExtendBytes\<close> of the evaluator, whose code the file repeats.
\<close>

definition decodeLowBytesU64 :: "bool \<Rightarrow> bytes \<Rightarrow> u64 \<Rightarrow> u64" where
  "decodeLowBytesU64 le bs byte_size =
     (if byte_size = 0 \<or> bs = [] then 0
      else if 8 < byte_size then 0
      else
        let n = min (unat byte_size) (length bs)
        in if le then decodeU64FromBytes bs n True
           else decodeU64FromBytes (drop (length bs - n) bs) n False)"

definition makeMask :: "bool \<Rightarrow> SymExpr \<Rightarrow> u64 \<Rightarrow> SymExpr" where
  "makeMask le v size_bytes =
     (case asConst v of
        Some c \<Rightarrow> makeConst (maskToBytes c (unat size_bytes))
      | None \<Rightarrow>
          (case asBytes v of
             Some b \<Rightarrow>
               if size_bytes \<le> 8 then makeConst (maskToBytes (decodeLowBytesU64 le b size_bytes) (unat size_bytes))
               else sized_node K_MASK size_bytes v
           | None \<Rightarrow> sized_node K_MASK size_bytes v))"

definition makeSExt :: "bool \<Rightarrow> SymExpr \<Rightarrow> u64 \<Rightarrow> SymExpr" where
  "makeSExt le v size_bytes =
     (case asConst v of
        Some c \<Rightarrow> makeConst (signExtendBytes c (unat size_bytes))
      | None \<Rightarrow>
          (case asBytes v of
             Some b \<Rightarrow>
               if size_bytes \<le> 8 then makeConst (signExtendBytes (decodeLowBytesU64 le b size_bytes) (unat size_bytes))
               else sized_node K_SEXT size_bytes v
           | None \<Rightarrow> sized_node K_SEXT size_bytes v))"

end
