(* ===== verification/SymRewrite.thy ===== *)
theory SymRewrite
  imports SymTerm
begin

section \<open>Symbolic terms: rewriting and comparison keys\<close>

text \<open>
  The rewriter and the comparison keys of \<open>src/expression_compare.cpp\<close>, and the relocation of
  address constants of \<open>src/symbolic_expression.cpp\<close>. The reference arguments \<open>changed\<close> and
  \<open>rule_class\<close> are threaded as a pair.
\<close>

type_synonym rewrite_note = "bool \<times> string"

text \<open>The lambda \<open>markRule\<close>.\<close>

definition markRule :: "string \<Rightarrow> rewrite_note \<Rightarrow> rewrite_note" where
  "markRule rule n =
     (True, if snd n = [] then rule else if snd n \<noteq> rule then ''algebraic_identity'' else snd n)"

definition isConstValue :: "SymExpr \<Rightarrow> u64 \<Rightarrow> bool" where
  "isConstValue e v \<longleftrightarrow> asConst e = Some v"

definition isZeroExpr :: "SymExpr \<Rightarrow> bool" where
  "isZeroExpr e = isConstValue e 0"

definition isOneExpr :: "SymExpr \<Rightarrow> bool" where
  "isOneExpr e = isConstValue e 1"

definition isCommutativeRewriteKind :: "sym_kind \<Rightarrow> bool" where
  "isCommutativeRewriteKind k \<longleftrightarrow> k \<in> {K_ADD, K_MUL, K_AND, K_OR, K_XOR, K_EQ, K_NE}"

definition isCommutativeExprKind :: "sym_kind \<Rightarrow> bool" where
  "isCommutativeExprKind k \<longleftrightarrow> k \<in> {K_ADD, K_MUL, K_AND, K_OR, K_XOR, K_EQ, K_NE}"

text \<open>\<open>operator<\<close> of \<open>std::string\<close>.\<close>

fun string_less :: "string \<Rightarrow> string \<Rightarrow> bool" where
  "string_less [] ys = (ys \<noteq> [])"
| "string_less (x # xs) [] = False"
| "string_less (x # xs) (y # ys) =
     (if x = y then string_less xs ys else (of_char x :: nat) < of_char y)"

text \<open>The operand of a unary node of the given kind.\<close>

fun inner_of :: "sym_kind \<Rightarrow> SymExpr \<Rightarrow> SymExpr option" where
  "inner_of k null_expr = None"
| "inner_of k (SymExpr k' c n raw name xs) = (if k' = k then (case xs of [] \<Rightarrow> None | x # _ \<Rightarrow> Some x) else None)"

text \<open>
  The switch over the kind of the node, on its rewritten operands: the name of the rule with the
  term it returns, if one applies.
\<close>

definition unary_rule :: "string \<Rightarrow> sym_kind \<Rightarrow> SymExpr list \<Rightarrow> (string \<times> SymExpr) option" where
  "unary_rule rule k xs =
     (case xs of [a] \<Rightarrow> (case inner_of k a of Some x \<Rightarrow> Some (rule, x) | None \<Rightarrow> None) | _ \<Rightarrow> None)"

definition identity_rule :: "string \<Rightarrow> SymExpr \<Rightarrow> SymExpr \<Rightarrow> (string \<times> SymExpr) option" where
  "identity_rule rule a b =
     (if isZeroExpr a then Some (rule, b) else if isZeroExpr b then Some (rule, a) else None)"

definition binary_rule :: "sym_kind \<Rightarrow> SymExpr \<Rightarrow> SymExpr \<Rightarrow> (string \<times> SymExpr) option" where
  "binary_rule k a b =
     (case k of
        K_ADD \<Rightarrow> identity_rule ''add_identity'' a b
      | K_SUB \<Rightarrow>
          if isZeroExpr b then Some (''sub_identity'', a)
          else if same_text a b then Some (''sub_self'', makeConst 0) else None
      | K_MUL \<Rightarrow>
          if isZeroExpr a \<or> isZeroExpr b then Some (''mul_zero'', makeConst 0)
          else if isOneExpr a then Some (''mul_identity'', b)
          else if isOneExpr b then Some (''mul_identity'', a) else None
      | K_DIV \<Rightarrow> if isOneExpr b then Some (''div_identity'', a) else None
      | K_OR \<Rightarrow> identity_rule ''or_identity'' a b
      | K_XOR \<Rightarrow>
          (case identity_rule ''xor_identity'' a b of
             Some r \<Rightarrow> Some r
           | None \<Rightarrow> if same_text a b then Some (''xor_self'', makeConst 0) else None)
      | K_AND \<Rightarrow> if isZeroExpr a \<or> isZeroExpr b then Some (''and_zero'', makeConst 0) else None
      | _ \<Rightarrow> None)"

definition node_rule :: "sym_kind \<Rightarrow> SymExpr list \<Rightarrow> (string \<times> SymExpr) option" where
  "node_rule k xs =
     (case k of
        K_NEG \<Rightarrow> unary_rule ''double_negation'' K_NEG xs
      | K_NOT \<Rightarrow> unary_rule ''double_not'' K_NOT xs
      | K_ITE \<Rightarrow>
          (case xs of [c, t, f] \<Rightarrow> if same_text t f then Some (''ite_same_branch'', t) else None | _ \<Rightarrow> None)
      | _ \<Rightarrow> (case xs of [a, b] \<Rightarrow> binary_rule k a b | _ \<Rightarrow> None))"

text \<open>The operands of a commutative node are put into the order of their printed forms.\<close>

definition order_args :: "sym_kind \<Rightarrow> SymExpr list \<Rightarrow> rewrite_note \<Rightarrow> SymExpr list \<times> rewrite_note" where
  "order_args k xs n =
     (case xs of
        [a, b] \<Rightarrow>
          if isCommutativeRewriteKind k \<and> a \<noteq> null_expr \<and> b \<noteq> null_expr \<and> string_less (toString b) (toString a)
          then ([b, a], markRule ''commutative_order'' n) else (xs, n)
      | _ \<Rightarrow> (xs, n))"

definition rewrite_node ::
  "sym_kind \<Rightarrow> u64 \<Rightarrow> u64 \<Rightarrow> bytes \<Rightarrow> string \<Rightarrow> SymExpr list \<Rightarrow> rewrite_note \<Rightarrow> SymExpr \<times> rewrite_note" where
  "rewrite_node k c n raw name xs note =
     (case node_rule k xs of
        Some (rule, e) \<Rightarrow> (e, markRule rule note)
      | None \<Rightarrow> (case order_args k xs note of (ys, note) \<Rightarrow> (SymExpr k c n raw name ys, note)))"

fun rewriteSymExprImpl :: "SymExpr \<Rightarrow> rewrite_note \<Rightarrow> SymExpr \<times> rewrite_note"
  and rewrite_args :: "SymExpr list \<Rightarrow> rewrite_note \<Rightarrow> SymExpr list \<times> rewrite_note" where
  "rewriteSymExprImpl null_expr note = (null_expr, note)"
| "rewriteSymExprImpl (SymExpr k c n raw name xs) note =
     (case rewrite_args xs note of (ys, note) \<Rightarrow> rewrite_node k c n raw name ys note)"
| "rewrite_args [] note = ([], note)"
| "rewrite_args (x # xs) note =
     (case rewriteSymExprImpl x note of (y, note) \<Rightarrow> case rewrite_args xs note of (ys, note) \<Rightarrow> (y # ys, note))"

definition rewriteSymExpr :: "SymExpr \<Rightarrow> rewrite_note \<Rightarrow> SymExpr \<times> rewrite_note" where
  "rewriteSymExpr e note = rewriteSymExprImpl e note"

subsection \<open>Comparison keys\<close>

definition canonicalizeBytes :: "bytes \<Rightarrow> string" where
  "canonicalizeBytes bs = ''bytes:'' @ concat (map hex_byte bs)"

definition kind_key :: "sym_kind \<Rightarrow> u64 \<Rightarrow> string" where
  "kind_key k n =
     (case k of
        K_LOAD \<Rightarrow> ''load['' @ dec_string (unat n) @ '']''
      | K_MASK \<Rightarrow> ''mask['' @ dec_string (unat n) @ '']''
      | K_SEXT \<Rightarrow> ''sext['' @ dec_string (unat n) @ '']''
      | K_ADD \<Rightarrow> ''add'' | K_SUB \<Rightarrow> ''sub'' | K_MUL \<Rightarrow> ''mul'' | K_DIV \<Rightarrow> ''div'' | K_MOD \<Rightarrow> ''mod''
      | K_AND \<Rightarrow> ''and'' | K_OR \<Rightarrow> ''or'' | K_XOR \<Rightarrow> ''xor'' | K_SHL \<Rightarrow> ''shl'' | K_SHR \<Rightarrow> ''shr''
      | K_SHRA \<Rightarrow> ''shra'' | K_NEG \<Rightarrow> ''neg'' | K_NOT \<Rightarrow> ''not'' | K_ABS \<Rightarrow> ''abs'' | K_EQ \<Rightarrow> ''eq''
      | K_NE \<Rightarrow> ''ne'' | K_LT \<Rightarrow> ''lt'' | K_LE \<Rightarrow> ''le'' | K_GT \<Rightarrow> ''gt'' | K_GE \<Rightarrow> ''ge'' | K_ITE \<Rightarrow> ''ite''
      | _ \<Rightarrow> [])"

fun joined :: "string list \<Rightarrow> string" where
  "joined [] = []"
| "joined [x] = x"
| "joined (x # xs) = x @ '','' @ joined xs"

fun insert_string :: "string \<Rightarrow> string list \<Rightarrow> string list" where
  "insert_string x [] = [x]"
| "insert_string x (y # ys) = (if string_less y x then y # insert_string x ys else x # y # ys)"

text \<open>\<open>std::sort\<close> on strings: equal strings cannot be told apart, so the result is unique.\<close>

definition sort_strings :: "string list \<Rightarrow> string list" where
  "sort_strings xs = foldr insert_string xs []"

definition node_key :: "sym_kind \<Rightarrow> u64 \<Rightarrow> u64 \<Rightarrow> bytes \<Rightarrow> string \<Rightarrow> string list \<Rightarrow> string" where
  "node_key k c n raw name keys =
     (case k of
        K_CONST_U64 \<Rightarrow> ''const:0x'' @ hex_string False (unat c)
      | K_BYTES \<Rightarrow> canonicalizeBytes raw
      | K_VAR \<Rightarrow> ''var:'' @ name
      | K_UNKNOWN \<Rightarrow> ''unknown:'' @ name
      | _ \<Rightarrow> kind_key k n @ ''('' @ joined (if isCommutativeExprKind k then sort_strings keys else keys) @ '')'')"

fun canonicalizeSymExpr :: "SymExpr \<Rightarrow> string" where
  "canonicalizeSymExpr null_expr = ''null''"
| "canonicalizeSymExpr (SymExpr k c n raw name xs) = node_key k c n raw name (map canonicalizeSymExpr xs)"

subsection \<open>Relocated addresses\<close>

text \<open>
  \<open>rewriteAddressConstants\<close>; \<open>None\<close> is an empty \<open>remap\<close>. A node none of whose operands changed is
  returned itself, which is the node rebuilt.
\<close>

fun remap_constants :: "(u64 \<Rightarrow> u64 option) \<Rightarrow> SymExpr \<Rightarrow> bool \<Rightarrow> SymExpr \<times> bool"
  and remap_args :: "(u64 \<Rightarrow> u64 option) \<Rightarrow> SymExpr list \<Rightarrow> bool \<Rightarrow> SymExpr list \<times> bool" where
  "remap_constants remap null_expr changed = (null_expr, changed)"
| "remap_constants remap (SymExpr k c n raw name xs) changed =
     (if k = K_CONST_U64 then
        (case remap c of
           Some c' \<Rightarrow> if c' \<noteq> c then (makeConst c', True) else (SymExpr k c n raw name xs, changed)
         | None \<Rightarrow> (SymExpr k c n raw name xs, changed))
      else case remap_args remap xs changed of (ys, changed) \<Rightarrow> (SymExpr k c n raw name ys, changed))"
| "remap_args remap [] changed = ([], changed)"
| "remap_args remap (x # xs) changed =
     (case remap_constants remap x changed of (y, changed) \<Rightarrow>
      case remap_args remap xs changed of (ys, changed) \<Rightarrow> (y # ys, changed))"

definition rewriteAddressConstants :: "SymExpr \<Rightarrow> (u64 \<Rightarrow> u64 option) option \<Rightarrow> bool \<Rightarrow> SymExpr \<times> bool" where
  "rewriteAddressConstants e remap changed =
     (case remap of None \<Rightarrow> (e, changed) | Some f \<Rightarrow> remap_constants f e changed)"

end
