(* ===== verification/SymSem.thy ===== *)
theory SymSem
  imports SymRewrite
begin

section \<open>Symbolic terms: meaning\<close>

text \<open>
  What a term means in a given world, which the code never computes: the specification that the
  constructors and the rewriter are proved against. A world gives a value to every variable and to
  every memory read; a term means a word or a sequence of bytes, or nothing (an unknown, a division
  by zero, an operand of the wrong type, a node of the wrong shape).
\<close>

datatype sym_value = Word u64 | Bytes bytes

record sym_world =
  world_var :: "string \<Rightarrow> u64"
  world_load :: "u64 \<Rightarrow> u64 \<Rightarrow> u64"

fun sem_unary :: "sym_kind \<Rightarrow> u64 \<Rightarrow> u64 option" where
  "sem_unary K_NEG x = Some (- x)"
| "sem_unary K_NOT x = Some (NOT x)"
| "sem_unary K_ABS x = Some (if x <s 0 then - x else x)"
| "sem_unary k x = None"

definition truth_word :: "bool \<Rightarrow> u64" where
  "truth_word b = (if b then 1 else 0)"

fun sem_binary :: "sym_kind \<Rightarrow> u64 \<Rightarrow> u64 \<Rightarrow> u64 option" where
  "sem_binary K_ADD x y = Some (x + y)"
| "sem_binary K_SUB x y = Some (x - y)"
| "sem_binary K_MUL x y = Some (x * y)"
| "sem_binary K_DIV x y = (if y = 0 then None else Some (x div y))"
| "sem_binary K_MOD x y = (if y = 0 then None else Some (x mod y))"
| "sem_binary K_AND x y = Some (x AND y)"
| "sem_binary K_OR x y = Some (x OR y)"
| "sem_binary K_XOR x y = Some (x XOR y)"
| "sem_binary K_SHL x y = Some (push_bit (unat (y AND 63)) x)"
| "sem_binary K_SHR x y = Some (drop_bit (unat (y AND 63)) x)"
| "sem_binary K_SHRA x y = Some (signed_drop_bit (unat (y AND 63)) x)"
| "sem_binary K_EQ x y = Some (truth_word (x = y))"
| "sem_binary K_NE x y = Some (truth_word (x \<noteq> y))"
| "sem_binary K_LT x y = Some (truth_word (x <s y))"
| "sem_binary K_LE x y = Some (truth_word (x \<le>s y))"
| "sem_binary K_GT x y = Some (truth_word (y <s x))"
| "sem_binary K_GE x y = Some (truth_word (y \<le>s x))"
| "sem_binary k x y = None"

definition sem_bytes :: "sym_kind \<Rightarrow> bytes \<Rightarrow> bytes \<Rightarrow> u64 option" where
  "sem_bytes k x y =
     (if k = K_EQ then Some (truth_word (x = y)) else if k = K_NE then Some (truth_word (x \<noteq> y)) else None)"

fun sem_sized :: "bool \<Rightarrow> (u64 \<Rightarrow> nat \<Rightarrow> u64) \<Rightarrow> u64 \<Rightarrow> sym_value \<Rightarrow> u64 option" where
  "sem_sized le f n (Word x) = Some (f x (unat n))"
| "sem_sized le f n (Bytes b) = (if n \<le> 8 then Some (f (decodeLowBytesU64 le b n) (unat n)) else None)"

definition sem_one :: "bool \<Rightarrow> sym_world \<Rightarrow> sym_kind \<Rightarrow> u64 \<Rightarrow> sym_value \<Rightarrow> u64 option" where
  "sem_one le w k n v =
     (if k = K_MASK then sem_sized le maskToBytes n v
      else if k = K_SEXT then sem_sized le signExtendBytes n v
      else case v of
        Word x \<Rightarrow> if k = K_LOAD then Some (world_load w x n) else sem_unary k x
      | Bytes b \<Rightarrow> None)"

definition sem_two :: "sym_kind \<Rightarrow> sym_value \<Rightarrow> sym_value \<Rightarrow> u64 option" where
  "sem_two k v v' =
     (case (v, v') of
        (Word x, Word y) \<Rightarrow> sem_binary k x y
      | (Bytes x, Bytes y) \<Rightarrow> sem_bytes k x y
      | _ \<Rightarrow> None)"

definition sem_ite :: "sym_value option \<Rightarrow> sym_value option \<Rightarrow> sym_value option \<Rightarrow> sym_value option" where
  "sem_ite c t f = (case c of Some (Word x) \<Rightarrow> if x \<noteq> 0 then t else f | _ \<Rightarrow> None)"

definition node_value ::
  "bool \<Rightarrow> sym_world \<Rightarrow> sym_kind \<Rightarrow> u64 \<Rightarrow> u64 \<Rightarrow> bytes \<Rightarrow> string \<Rightarrow> sym_value option list \<Rightarrow> sym_value option" where
  "node_value le w k c n raw name vs =
     (if k = K_CONST_U64 then Some (Word c)
      else if k = K_BYTES then Some (Bytes raw)
      else if k = K_VAR then Some (Word (world_var w name))
      else if k = K_UNKNOWN then None
      else case vs of
        [Some v] \<Rightarrow> map_option Word (sem_one le w k n v)
      | [Some v, Some v'] \<Rightarrow> map_option Word (sem_two k v v')
      | [cv, t, f] \<Rightarrow> if k = K_ITE then sem_ite cv t f else None
      | _ \<Rightarrow> None)"

fun denote :: "bool \<Rightarrow> sym_world \<Rightarrow> SymExpr \<Rightarrow> sym_value option" where
  "denote le w null_expr = None"
| "denote le w (SymExpr k c n raw name xs) = node_value le w k c n raw name (map (denote le w) xs)"

subsection \<open>Meaning of the constructors\<close>

lemma asConst_Some: "asConst e = Some v \<Longrightarrow> denote le w e = Some (Word v)"
  by (cases e rule: asConst.cases) (auto simp: node_value_def)

lemma asBytes_Some: "asBytes e = Some b \<Longrightarrow> denote le w e = Some (Bytes b)"
  by (cases e rule: asBytes.cases) (auto simp: node_value_def)

lemma denote_makeConst [simp]: "denote le w (makeConst v) = Some (Word v)"
  by (simp add: makeConst_def node_value_def)

lemma denote_makeBytes [simp]: "denote le w (makeBytes b) = Some (Bytes b)"
  by (simp add: makeBytes_def node_value_def)

lemma denote_makeVar [simp]: "denote le w (makeVar n) = Some (Word (world_var w n))"
  by (simp add: makeVar_def node_value_def)

lemma denote_makeUnknown [simp]: "denote le w (makeUnknown n) = None"
  by (simp add: makeUnknown_def node_value_def)

lemma denote_bool_const [simp]: "denote le w (bool_const b) = Some (Word (truth_word b))"
  by (simp add: bool_const_def truth_word_def)

definition is_unary :: "sym_kind \<Rightarrow> bool" where
  "is_unary k \<longleftrightarrow> k \<in> {K_NEG, K_NOT, K_ABS}"

definition is_binary :: "sym_kind \<Rightarrow> bool" where
  "is_binary k \<longleftrightarrow> k \<in> {K_ADD, K_SUB, K_MUL, K_DIV, K_MOD, K_AND, K_OR, K_XOR, K_SHL, K_SHR, K_SHRA,
                       K_EQ, K_NE, K_LT, K_LE, K_GT, K_GE}"

lemma unary_cases:
  assumes "is_unary k"
  obtains "k = K_NEG" | "k = K_NOT" | "k = K_ABS"
  using assms by (auto simp: is_unary_def)

definition value_of_one :: "bool \<Rightarrow> sym_world \<Rightarrow> sym_kind \<Rightarrow> u64 \<Rightarrow> sym_value option \<Rightarrow> sym_value option" where
  "value_of_one le w k n v = Option.bind v (\<lambda>v. map_option Word (sem_one le w k n v))"

definition value_of_two :: "sym_kind \<Rightarrow> sym_value option \<Rightarrow> sym_value option \<Rightarrow> sym_value option" where
  "value_of_two k v v' = Option.bind v (\<lambda>v. Option.bind v' (\<lambda>v'. map_option Word (sem_two k v v')))"

definition sized_kind :: "sym_kind \<Rightarrow> bool" where
  "sized_kind k \<longleftrightarrow> k \<in> {K_LOAD, K_MASK, K_SEXT}"

lemma denote_node_one:
  "is_unary k \<or> sized_kind k \<Longrightarrow> denote le w (SymExpr k c n raw name [a]) = value_of_one le w k n (denote le w a)"
  by (auto simp: node_value_def value_of_one_def is_unary_def sized_kind_def split: option.split)

lemma denote_node_two:
  "is_binary k \<Longrightarrow> denote le w (SymExpr k c n raw name [a, b]) = value_of_two k (denote le w a) (denote le w b)"
  by (auto simp: node_value_def value_of_two_def is_binary_def split: option.split)

lemma denote_node_ite:
  "denote le w (SymExpr K_ITE c n raw name [x, t, f]) = sem_ite (denote le w x) (denote le w t) (denote le w f)"
  by (simp add: node_value_def split: option.split)

lemma denote_makeUnary:
  assumes "is_unary k"
  shows "denote le w (makeUnary k a) = value_of_one le w k 0 (denote le w a)"
proof (cases "asConst a")
  case None
  then show ?thesis using assms by (simp add: makeUnary_def sym_node_def denote_node_one del: denote.simps)
next
  case (Some c)
  with assms show ?thesis
    by (auto simp: makeUnary_def asConst_Some value_of_one_def sem_one_def elim: unary_cases)
qed

lemma denote_makeLoad [simp]: "denote le w (makeLoad a n) = value_of_one le w K_LOAD n (denote le w a)"
  by (simp add: makeLoad_def sized_node_def denote_node_one sized_kind_def del: denote.simps)

lemma denote_makeMask: "denote le w (makeMask le a n) = value_of_one le w K_MASK n (denote le w a)"
proof (cases "asConst a")
  case None
  show ?thesis
  proof (cases "asBytes a")
    case None
    with \<open>asConst a = None\<close> show ?thesis
      by (simp add: makeMask_def sized_node_def denote_node_one sized_kind_def del: denote.simps)
  next
    case (Some b)
    with \<open>asConst a = None\<close> show ?thesis
      by (simp add: makeMask_def sized_node_def denote_node_one sized_kind_def asBytes_Some value_of_one_def sem_one_def
          del: denote.simps)
  qed
next
  case (Some c)
  then show ?thesis by (simp add: makeMask_def asConst_Some value_of_one_def sem_one_def)
qed

lemma denote_makeSExt: "denote le w (makeSExt le a n) = value_of_one le w K_SEXT n (denote le w a)"
proof (cases "asConst a")
  case None
  show ?thesis
  proof (cases "asBytes a")
    case None
    with \<open>asConst a = None\<close> show ?thesis
      by (simp add: makeSExt_def sized_node_def denote_node_one sized_kind_def del: denote.simps)
  next
    case (Some b)
    with \<open>asConst a = None\<close> show ?thesis
      by (simp add: makeSExt_def sized_node_def denote_node_one sized_kind_def asBytes_Some value_of_one_def sem_one_def
          del: denote.simps)
  qed
next
  case (Some c)
  then show ?thesis by (simp add: makeSExt_def asConst_Some value_of_one_def sem_one_def)
qed

subsection \<open>Folding\<close>

lemma fold_words_value:
  "fold_words k x y = Some e \<Longrightarrow> is_binary k \<Longrightarrow> denote le w e = map_option Word (sem_binary k x y)"
  by (cases k) (auto simp: is_binary_def split: if_splits)

lemma foldBinary_value:
  assumes "foldBinary k a b = Some e" and "is_binary k"
  shows "denote le w e = value_of_two k (denote le w a) (denote le w b)"
proof (cases "\<exists>x y. asBytes a = Some x \<and> asBytes b = Some y")
  case True
  then obtain x y where "asBytes a = Some x" "asBytes b = Some y" by blast
  with assms show ?thesis
    by (auto simp: foldBinary_def asBytes_Some value_of_two_def sem_two_def sem_bytes_def split: if_splits)
next
  case False
  then obtain x y where "asConst a = Some x" "asConst b = Some y" "fold_words k x y = Some e"
    using assms(1) by (auto simp: foldBinary_def split: option.splits)
  then show ?thesis using assms(2) by (simp add: asConst_Some value_of_two_def sem_two_def fold_words_value)
qed

end
