(* ===== verification/SymText.thy ===== *)
theory SymText
  imports SymSem
begin

section \<open>Symbolic terms: printing is unambiguous\<close>

text \<open>
  The code compares terms by their printed forms. For well-formed terms, two terms printed alike
  mean the same in every world, and so do two terms with the same comparison key. Both notations are
  read by the same argument: a printed term is an \<open>item\<close>, text whose parentheses are balanced and
  that has no comma and no space outside of them, so that it ends where such a character, a closing
  parenthesis or the end follows.
\<close>

subsection \<open>Numbers\<close>

lemma digit_char_inj: "x < 16 \<Longrightarrow> y < 16 \<Longrightarrow> digit_char u x = digit_char u y \<Longrightarrow> x = y"
  by (auto simp: digit_char_def char_of_eq_iff take_bit_nat_eq_self dest!: arg_cong [of _ _ "of_char :: char \<Rightarrow> nat"] split: if_splits)

lemma radix_string_inj:
  assumes "2 \<le> b" and "b \<le> 16"
  shows "radix_string u b n = radix_string u b m \<Longrightarrow> n = m"
proof (induction n arbitrary: m rule: less_induct)
  case (less n)
  have digit: "n mod b < 16" "m mod b < 16" using assms by (auto intro: less_le_trans [OF mod_less_divisor])
  show ?case
  proof (cases "n < b")
    case True
    then have rn: "radix_string u b n = [digit_char u n]" by (subst radix_string.simps) simp
    have "m < b"
    proof (rule ccontr)
      assume "\<not> m < b"
      then have "radix_string u b m = radix_string u b (m div b) @ [digit_char u (m mod b)]"
        using assms by (subst radix_string.simps) simp
      then show False using less.prems rn radix_string_nonempty [of u b "m div b"] by simp
    qed
    then have "radix_string u b m = [digit_char u m]" by (subst radix_string.simps) simp
    then show ?thesis using less.prems rn True \<open>m < b\<close> assms digit_char_inj [of n m u] by simp
  next
    case False
    then have rn: "radix_string u b n = radix_string u b (n div b) @ [digit_char u (n mod b)]"
      using assms by (subst radix_string.simps) simp
    have "\<not> m < b"
    proof
      assume "m < b"
      then have "radix_string u b m = [digit_char u m]" by (subst radix_string.simps) simp
      then show False using less.prems rn radix_string_nonempty [of u b "n div b"] by simp
    qed
    then have rm: "radix_string u b m = radix_string u b (m div b) @ [digit_char u (m mod b)]"
      using assms by (subst radix_string.simps) simp
    have "n div b < n" using False assms by (simp add: div_less_dividend)
    then have "n div b = m div b" using less.IH [of "n div b" "m div b"] less.prems rn rm by simp
    moreover have "n mod b = m mod b"
      using less.prems rn rm digit by (intro digit_char_inj [where u = u]) simp_all
    ultimately show ?thesis by (metis div_mult_mod_eq)
  qed
qed

lemma dec_string_eq [simp]: "dec_string n = dec_string m \<longleftrightarrow> n = m"
  using radix_string_inj [of 10 False n m] by (auto simp: dec_string_def)

lemma hex_string_eq [simp]: "hex_string u n = hex_string u m \<longleftrightarrow> n = m"
  using radix_string_inj [of 16 u n m] by (auto simp: hex_string_def)

definition delimiter :: "char \<Rightarrow> bool" where
  "delimiter c \<longleftrightarrow> c = CHR ''('' \<or> c = CHR '')'' \<or> c = CHR '','' \<or> c = CHR '' ''"

definition plain :: "string \<Rightarrow> bool" where
  "plain s \<longleftrightarrow> list_all (\<lambda>c. \<not> delimiter c) s"

lemma plain_simps [simp]: "plain []" "plain (c # s) \<longleftrightarrow> \<not> delimiter c \<and> plain s" "plain (s @ t) \<longleftrightarrow> plain s \<and> plain t"
  by (simp_all add: plain_def)

lemma digit_char_plain: "n < 16 \<Longrightarrow> \<not> delimiter (digit_char u n)"
proof -
  assume "n < 16"
  moreover have "list_all (\<lambda>n. \<not> delimiter (digit_char u n)) [0..<16]"
    by (cases u) (simp_all add: digit_char_def delimiter_def char_of_def upt_rec)
  ultimately show ?thesis by (simp add: list_all_iff)
qed

lemma radix_string_plain: "2 \<le> b \<Longrightarrow> b \<le> 16 \<Longrightarrow> plain (radix_string u b n)"
proof (induction n rule: less_induct)
  case (less n)
  have "n mod b < 16" using less.prems by (auto intro: less_le_trans [OF mod_less_divisor])
  then show ?case using less digit_char_plain by (subst radix_string.simps) (simp add: div_less_dividend)
qed

lemma dec_string_plain [simp]: "plain (dec_string n)" and hex_string_plain [simp]: "plain (hex_string u n)"
  by (simp_all add: dec_string_def hex_string_def radix_string_plain)

lemma hex_byte_plain [simp]: "plain (hex_byte b)"
  by (simp add: hex_byte_def delimiter_def)

lemma hex_bytes_plain [simp]: "plain (concat (map hex_byte bs))"
  by (induction bs) simp_all

lemma hex_byte_digits:
  "hex_byte b = [digit_char False (unat b div 16), digit_char False (unat b mod 16)]"
proof (cases "unat b < 16")
  case True
  then show ?thesis
    by (simp add: hex_byte_def hex_string_def radix_string.simps word_less_nat_alt) (simp add: digit_char_def char_of_def bit_iff_odd)
next
  case False
  have "unat b div 16 < 16" using unat_u8_bound [of b] by simp
  then show ?thesis using False
    by (simp add: hex_byte_def hex_string_def word_less_nat_alt radix_string.simps [of _ _ "unat b"]
        radix_string.simps [of _ _ "unat b div 16"])
qed

lemma length_hex_byte: "length (hex_byte b) = 2"
  by (simp add: hex_byte_digits)

lemma hex_byte_inj: "hex_byte x = hex_byte y \<Longrightarrow> x = y"
proof -
  assume "hex_byte x = hex_byte y"
  moreover have "unat x div 16 < 16" "unat y div 16 < 16" using unat_u8_bound [of x] unat_u8_bound [of y] by auto
  ultimately have "unat x div 16 = unat y div 16" "unat x mod 16 = unat y mod 16"
    using digit_char_inj [of "unat x mod 16" "unat y mod 16" False]
    by (auto simp: hex_byte_digits dest: digit_char_inj)
  then have "unat x = unat y" by (metis div_mult_mod_eq)
  then show ?thesis by (simp add: word_unat_eq_iff)
qed

lemma hex_bytes_inj: "concat (map hex_byte xs) = concat (map hex_byte ys) \<Longrightarrow> xs = ys"
proof (induction xs arbitrary: ys)
  case Nil
  then show ?case by (cases ys) (auto simp: hex_byte_digits)
next
  case (Cons x xs)
  then obtain y zs where ys: "ys = y # zs" using length_hex_byte [of x] by (cases ys) auto
  then have "hex_byte x = hex_byte y \<and> concat (map hex_byte xs) = concat (map hex_byte zs)"
    using Cons.prems length_hex_byte by simp
  then show ?case using Cons.IH hex_byte_inj ys by blast
qed

subsection \<open>Items\<close>

fun scan :: "nat \<Rightarrow> string \<Rightarrow> bool" where
  "scan d [] \<longleftrightarrow> d = 0"
| "scan d (c # s) \<longleftrightarrow>
     (if c = CHR ''('' then scan (Suc d) s
      else if c = CHR '')'' then 0 < d \<and> scan (d - 1) s
      else (d = 0 \<longrightarrow> \<not> delimiter c) \<and> scan d s)"

definition item :: "string \<Rightarrow> bool" where
  "item s \<longleftrightarrow> scan 0 s"

definition stops :: "string \<Rightarrow> bool" where
  "stops s \<longleftrightarrow> (case s of [] \<Rightarrow> True | c # _ \<Rightarrow> delimiter c \<and> c \<noteq> CHR ''('')"

lemma stops_simps [simp]:
  "stops []" "stops (CHR '')'' # s)" "stops (CHR '','' # s)" "stops (CHR '' '' # s)"
  by (simp_all add: stops_def delimiter_def)

lemma scan_split:
  "scan d x \<Longrightarrow> scan d y \<Longrightarrow> x @ r = y @ s \<Longrightarrow> stops r \<Longrightarrow> stops s \<Longrightarrow> x = y \<and> r = s"
proof (induction x arbitrary: d y)
  case Nil
  then show ?case by (cases y) (auto simp: stops_def delimiter_def split: if_splits)
next
  case (Cons c x)
  show ?case
  proof (cases y)
    case Nil
    then show ?thesis using Cons.prems by (auto simp: stops_def delimiter_def split: if_splits)
  next
    case (Cons c' y')
    then show ?thesis using Cons.prems Cons.IH [of _ y'] by (auto split: if_splits)
  qed
qed

lemma item_split: "item x \<Longrightarrow> item y \<Longrightarrow> x @ r = y @ s \<Longrightarrow> stops r \<Longrightarrow> stops s \<Longrightarrow> x = y \<and> r = s"
  unfolding item_def by (rule scan_split)

lemma scan_append: "scan e x \<Longrightarrow> scan (e + d) (x @ y) = scan d y"
proof (induction x arbitrary: e)
  case (Cons c x)
  then show ?case
    using Cons.IH [of "Suc e"] Cons.IH [of "e - 1"] Cons.IH [of e] by (cases e) (auto split: if_splits)
qed simp

lemma scan_item [simp]: "item x \<Longrightarrow> scan d (x @ y) = scan d y"
  using scan_append [of 0 x d y] by (simp add: item_def)

lemma plain_item: "plain s \<Longrightarrow> item s"
  unfolding item_def by (induction s) (auto simp: delimiter_def)

lemma item_wrap: "plain h \<Longrightarrow> scan (Suc 0) b \<Longrightarrow> item (h @ CHR ''('' # b)"
  using plain_item [of h] by (simp add: item_def)

end
