(* ===== verification/SymPrint.thy ===== *)
theory SymPrint
  imports SymText
begin

section \<open>Symbolic terms: terms printed alike mean the same\<close>

text \<open>
  Well-formed terms: every node has the operands of its kind, no null pointer, and names that cannot
  be mistaken for other text. All terms that the evaluator builds are such.
\<close>

definition var_name_ok :: "string \<Rightarrow> bool" where
  "var_name_ok s \<longleftrightarrow> plain s \<and> s \<noteq> [] \<and> take 2 s \<noteq> ''0x''"

definition node_ok :: "sym_kind \<Rightarrow> string \<Rightarrow> nat \<Rightarrow> bool" where
  "node_ok k name n \<longleftrightarrow>
     (if k = K_VAR then var_name_ok name
      else if k = K_UNKNOWN then item name
      else if is_unary k \<or> sized_kind k then n = 1
      else if is_binary k then n = 2
      else if k = K_ITE then n = 3
      else True)"

fun sym_ok :: "SymExpr \<Rightarrow> bool" where
  "sym_ok null_expr \<longleftrightarrow> False"
| "sym_ok (SymExpr k c n raw name xs) \<longleftrightarrow> node_ok k name (length xs) \<and> (\<forall>x\<in>set xs. sym_ok x)"

subsection \<open>Shapes\<close>

definition bin_symbol :: "sym_kind \<Rightarrow> string" where
  "bin_symbol k =
     (case k of
        K_ADD \<Rightarrow> ''+'' | K_SUB \<Rightarrow> ''-'' | K_MUL \<Rightarrow> ''*'' | K_DIV \<Rightarrow> ''/'' | K_MOD \<Rightarrow> ''%'' | K_AND \<Rightarrow> ''&''
      | K_OR \<Rightarrow> ''|'' | K_XOR \<Rightarrow> ''^'' | K_SHL \<Rightarrow> ''<<'' | K_SHR \<Rightarrow> ''>>'' | K_SHRA \<Rightarrow> ''>>a'' | K_EQ \<Rightarrow> ''==''
      | K_NE \<Rightarrow> ''!='' | K_LT \<Rightarrow> ''<'' | K_LE \<Rightarrow> ''<='' | K_GT \<Rightarrow> ''>'' | K_GE \<Rightarrow> ''>='' | _ \<Rightarrow> [])"

definition un_symbol :: "sym_kind \<Rightarrow> string" where
  "un_symbol k = (case k of K_NEG \<Rightarrow> ''neg'' | K_NOT \<Rightarrow> ''not'' | K_ABS \<Rightarrow> ''abs'' | _ \<Rightarrow> [])"

definition sized_symbol :: "sym_kind \<Rightarrow> string" where
  "sized_symbol k = (case k of K_MASK \<Rightarrow> ''mask'' | K_SEXT \<Rightarrow> ''sext'' | _ \<Rightarrow> [])"

lemma bin_symbol_inj: "is_binary k \<Longrightarrow> is_binary k' \<Longrightarrow> bin_symbol k = bin_symbol k' \<Longrightarrow> k = k'"
  by (auto simp: is_binary_def bin_symbol_def)

lemma bin_symbol_plain: "is_binary k \<Longrightarrow> plain (bin_symbol k)"
  by (auto simp: is_binary_def bin_symbol_def delimiter_def)

lemma un_symbol_inj: "is_unary k \<Longrightarrow> is_unary k' \<Longrightarrow> un_symbol k = un_symbol k' \<Longrightarrow> k = k'"
  by (auto simp: is_unary_def un_symbol_def)

datatype sym_shape =
    Shape_const u64 | Shape_bytes bytes | Shape_var string | Shape_unknown string
  | Shape_un sym_kind SymExpr | Shape_bin sym_kind SymExpr SymExpr | Shape_ite SymExpr SymExpr SymExpr
  | Shape_load u64 SymExpr | Shape_sized sym_kind u64 SymExpr

definition shape_of :: "sym_kind \<Rightarrow> u64 \<Rightarrow> u64 \<Rightarrow> bytes \<Rightarrow> string \<Rightarrow> SymExpr list \<Rightarrow> sym_shape" where
  "shape_of k c n raw name xs =
     (if k = K_CONST_U64 then Shape_const c
      else if k = K_BYTES then Shape_bytes raw
      else if k = K_VAR then Shape_var name
      else if k = K_UNKNOWN then Shape_unknown name
      else if k = K_ITE then Shape_ite (xs ! 0) (xs ! 1) (xs ! 2)
      else if k = K_LOAD then Shape_load n (xs ! 0)
      else if k = K_MASK \<or> k = K_SEXT then Shape_sized k n (xs ! 0)
      else if is_unary k then Shape_un k (xs ! 0)
      else Shape_bin k (xs ! 0) (xs ! 1))"

fun shape_ok :: "sym_shape \<Rightarrow> bool" where
  "shape_ok (Shape_const c) \<longleftrightarrow> True"
| "shape_ok (Shape_bytes b) \<longleftrightarrow> True"
| "shape_ok (Shape_var s) \<longleftrightarrow> var_name_ok s"
| "shape_ok (Shape_unknown s) \<longleftrightarrow> item s"
| "shape_ok (Shape_un k a) \<longleftrightarrow> is_unary k \<and> sym_ok a"
| "shape_ok (Shape_bin k a b) \<longleftrightarrow> is_binary k \<and> sym_ok a \<and> sym_ok b"
| "shape_ok (Shape_ite a b c) \<longleftrightarrow> sym_ok a \<and> sym_ok b \<and> sym_ok c"
| "shape_ok (Shape_load n a) \<longleftrightarrow> sym_ok a"
| "shape_ok (Shape_sized k n a) \<longleftrightarrow> (k = K_MASK \<or> k = K_SEXT) \<and> sym_ok a"

fun shape_text :: "sym_shape \<Rightarrow> string" where
  "shape_text (Shape_const c) = ''0x'' @ hex_string False (unat c)"
| "shape_text (Shape_bytes b) = ''bytes'' @ ''(0x'' @ concat (map hex_byte b) @ '')''"
| "shape_text (Shape_var s) = s"
| "shape_text (Shape_unknown s) = ''unknown'' @ ''('' @ s @ '')''"
| "shape_text (Shape_un k a) = un_symbol k @ ''('' @ toString a @ '')''"
| "shape_text (Shape_bin k a b) = ''('' @ toString a @ '' '' @ bin_symbol k @ '' '' @ toString b @ '')''"
| "shape_text (Shape_ite a b c) = ''ite'' @ ''('' @ toString a @ '','' @ toString b @ '','' @ toString c @ '')''"
| "shape_text (Shape_load n a) = ''load'' @ ''('' @ toString a @ '','' @ dec_string (unat n) @ '')''"
| "shape_text (Shape_sized k n a) = sized_symbol k @ dec_string (unat n) @ ''('' @ toString a @ '')''"

fun shape_value :: "bool \<Rightarrow> sym_world \<Rightarrow> sym_shape \<Rightarrow> sym_value option" where
  "shape_value le w (Shape_const c) = Some (Word c)"
| "shape_value le w (Shape_bytes b) = Some (Bytes b)"
| "shape_value le w (Shape_var s) = Some (Word (world_var w s))"
| "shape_value le w (Shape_unknown s) = None"
| "shape_value le w (Shape_un k a) = value_of_one le w k 0 (denote le w a)"
| "shape_value le w (Shape_bin k a b) = value_of_two k (denote le w a) (denote le w b)"
| "shape_value le w (Shape_ite a b c) = sem_ite (denote le w a) (denote le w b) (denote le w c)"
| "shape_value le w (Shape_load n a) = value_of_one le w K_LOAD n (denote le w a)"
| "shape_value le w (Shape_sized k n a) = value_of_one le w k n (denote le w a)"

text \<open>A well-formed node is determined by its shape.\<close>

lemma kind_classes: "\<not> (is_unary k \<and> is_binary k)" "\<not> (sized_kind k \<and> is_binary k)" "\<not> (is_unary k \<and> sized_kind k)"
  by (auto simp: is_unary_def is_binary_def sized_kind_def)

lemma value_of_one_unary: "is_unary k \<Longrightarrow> value_of_one le w k n v = value_of_one le w k 0 v"
  by (cases v) (auto simp: value_of_one_def sem_one_def is_unary_def split: sym_value.split)

lemma length_1_2_3: "length xs = Suc 0 \<longleftrightarrow> (\<exists>a. xs = [a])" "length xs = 2 \<longleftrightarrow> (\<exists>a b. xs = [a, b])"
  "length xs = 3 \<longleftrightarrow> (\<exists>a b c. xs = [a, b, c])"
  by (auto simp: length_Suc_conv numeral_2_eq_2 numeral_3_eq_3)

lemma node_shape:
  assumes "sym_ok (SymExpr k c n raw name xs)"
  shows "shape_ok (shape_of k c n raw name xs)"
    and "toString (SymExpr k c n raw name xs) = shape_text (shape_of k c n raw name xs)"
    and "denote le w (SymExpr k c n raw name xs) = shape_value le w (shape_of k c n raw name xs)"
proof -
  let ?e = "SymExpr k c n raw name xs" and ?s = "shape_of k c n raw name xs"
  have all: "shape_ok ?s \<and> toString ?e = shape_text ?s \<and> denote le w ?e = shape_value le w ?s"
  proof (cases k)
    case K_CONST_U64 then show ?thesis by (simp add: shape_of_def node_string_def node_value_def)
  next
    case K_BYTES then show ?thesis by (simp add: shape_of_def node_string_def node_value_def)
  next
    case K_VAR then show ?thesis using assms by (simp add: shape_of_def node_string_def node_value_def node_ok_def)
  next
    case K_UNKNOWN then show ?thesis using assms by (simp add: shape_of_def node_string_def node_value_def node_ok_def)
  next
    case K_ITE
    then obtain a b d where "xs = [a, b, d]"
      using assms by (auto simp: node_ok_def is_unary_def sized_kind_def is_binary_def length_1_2_3)
    with K_ITE assms show ?thesis
      by (simp add: shape_of_def node_string_def sym_ite_def node_value_def split: option.split)
  qed (use assms in \<open>auto simp: shape_of_def node_string_def node_ok_def is_unary_def sized_kind_def is_binary_def
      length_1_2_3 sym_bin_def sym_un_def sym_load_def sym_sized_def bin_symbol_def un_symbol_def sized_symbol_def
      denote_node_one denote_node_two value_of_one_unary [of _ _ _ n] simp del: denote.simps\<close>)
  then show "shape_ok ?s" "toString ?e = shape_text ?s" "denote le w ?e = shape_value le w ?s" by blast+
qed


subsection \<open>Printed terms are items\<close>

fun shape_subs :: "sym_shape \<Rightarrow> SymExpr list" where
  "shape_subs (Shape_un k a) = [a]"
| "shape_subs (Shape_bin k a b) = [a, b]"
| "shape_subs (Shape_ite a b c) = [a, b, c]"
| "shape_subs (Shape_load n a) = [a]"
| "shape_subs (Shape_sized k n a) = [a]"
| "shape_subs _ = []"

lemma node_subs: "sym_ok (SymExpr k c n raw name xs) \<Longrightarrow> set (shape_subs (shape_of k c n raw name xs)) \<subseteq> set xs"
  by (cases k) (auto simp: shape_of_def node_ok_def is_unary_def sized_kind_def is_binary_def length_1_2_3)

definition shape_head :: "sym_shape \<Rightarrow> string" where
  "shape_head s =
     (case s of
        Shape_const c \<Rightarrow> ''0x'' @ hex_string False (unat c)
      | Shape_bytes b \<Rightarrow> ''bytes''
      | Shape_var n \<Rightarrow> n
      | Shape_unknown n \<Rightarrow> ''unknown''
      | Shape_un k a \<Rightarrow> un_symbol k
      | Shape_bin k a b \<Rightarrow> []
      | Shape_ite a b c \<Rightarrow> ''ite''
      | Shape_load n a \<Rightarrow> ''load''
      | Shape_sized k n a \<Rightarrow> sized_symbol k @ dec_string (unat n))"

definition shape_body :: "sym_shape \<Rightarrow> string option" where
  "shape_body s =
     (case s of
        Shape_const c \<Rightarrow> None
      | Shape_var n \<Rightarrow> None
      | Shape_bytes b \<Rightarrow> Some (''0x'' @ concat (map hex_byte b) @ '')'')
      | Shape_unknown n \<Rightarrow> Some (n @ '')'')
      | Shape_un k a \<Rightarrow> Some (toString a @ '')'')
      | Shape_bin k a b \<Rightarrow> Some (toString a @ '' '' @ bin_symbol k @ '' '' @ toString b @ '')'')
      | Shape_ite a b c \<Rightarrow> Some (toString a @ '','' @ toString b @ '','' @ toString c @ '')'')
      | Shape_load n a \<Rightarrow> Some (toString a @ '','' @ dec_string (unat n) @ '')'')
      | Shape_sized k n a \<Rightarrow> Some (toString a @ '')''))"

definition opened :: "string option \<Rightarrow> string" where
  "opened b = (case b of None \<Rightarrow> [] | Some s \<Rightarrow> CHR ''('' # s)"

lemma shape_split: "shape_text s = shape_head s @ opened (shape_body s)"
  by (cases s) (simp_all add: shape_head_def shape_body_def opened_def)

lemma shape_head_plain: "shape_ok s \<Longrightarrow> plain (shape_head s)"
  by (cases s) (auto simp: shape_head_def var_name_ok_def delimiter_def un_symbol_def is_unary_def sized_symbol_def)

lemma scan_plain [simp]: "plain s \<Longrightarrow> scan d (s @ t) = scan d t"
  by (intro scan_item plain_item)

lemma shape_item:
  assumes "shape_ok s" and "\<And>a. a \<in> set (shape_subs s) \<Longrightarrow> item (toString a)"
  shows "item (shape_text s)"
proof (cases "shape_body s")
  case None
  then show ?thesis using shape_head_plain [OF assms(1)] by (simp add: shape_split opened_def plain_item)
next
  case (Some b)
  have "scan (Suc 0) b"
    using assms Some bin_symbol_plain by (cases s) (auto simp: shape_body_def delimiter_def)
  then show ?thesis using shape_head_plain [OF assms(1)] Some by (simp add: shape_split opened_def item_wrap)
qed

lemma toString_item: "sym_ok e \<Longrightarrow> item (toString e)"
proof (induction e)
  case (SymExpr k c n raw name xs)
  then show ?case
    using shape_item [OF node_shape(1) [OF SymExpr.prems]] node_subs [OF SymExpr.prems]
    by (auto simp: node_shape(2) [OF SymExpr.prems] simp del: toString.simps)
qed simp

subsection \<open>Terms printed alike\<close>

lemma plain_paren_split:
  "plain h \<Longrightarrow> plain h' \<Longrightarrow> h @ opened b = h' @ opened b' \<Longrightarrow> h = h' \<and> b = b'"
proof (induction h arbitrary: h')
  case Nil
  then show ?case by (cases h') (auto simp: opened_def delimiter_def split: option.splits)
next
  case (Cons c h)
  then show ?case by (cases h') (auto simp: opened_def delimiter_def split: option.splits)
qed

lemma shape_text_split:
  assumes "shape_text s = shape_text s'" and "shape_ok s" and "shape_ok s'"
  shows "shape_head s = shape_head s'" and "shape_body s = shape_body s'"
  using plain_paren_split [OF shape_head_plain [OF assms(2)] shape_head_plain [OF assms(3)]] assms(1)
  by (auto simp: shape_split)

definition same_meaning :: "SymExpr \<Rightarrow> SymExpr \<Rightarrow> bool" where
  "same_meaning a b \<longleftrightarrow> (\<forall>le w. denote le w a = denote le w b)"

lemma toString_next:
  "sym_ok a \<Longrightarrow> sym_ok b \<Longrightarrow> toString a @ r = toString b @ s \<Longrightarrow> stops r \<Longrightarrow> stops s \<Longrightarrow> toString a = toString b \<and> r = s"
  by (intro item_split toString_item)

lemma symbol_next:
  "plain p \<Longrightarrow> plain q \<Longrightarrow> p @ CHR '' '' # r = q @ CHR '' '' # s \<Longrightarrow> p = q \<and> r = s"
  using item_split [of p q "CHR '' '' # r" "CHR '' '' # s"] plain_item by simp

text \<open>Two shapes of the same kind with operands that print alike.\<close>

definition similar :: "sym_shape \<Rightarrow> sym_shape \<Rightarrow> bool" where
  "similar s s' \<longleftrightarrow>
     (case s of
        Shape_un k a \<Rightarrow> (\<exists>a'. s' = Shape_un k a' \<and> toString a = toString a')
      | Shape_bin k a b \<Rightarrow> (\<exists>a' b'. s' = Shape_bin k a' b' \<and> toString a = toString a' \<and> toString b = toString b')
      | Shape_ite a b c \<Rightarrow>
          (\<exists>a' b' c'. s' = Shape_ite a' b' c' \<and> toString a = toString a' \<and> toString b = toString b' \<and> toString c = toString c')
      | Shape_load n a \<Rightarrow> (\<exists>a'. s' = Shape_load n a' \<and> toString a = toString a')
      | Shape_sized k n a \<Rightarrow> (\<exists>a'. s' = Shape_sized k n a' \<and> toString a = toString a')
      | _ \<Rightarrow> s = s')"

lemma similar_bin:
  assumes "toString a @ '' '' @ bin_symbol k @ '' '' @ toString b @ '')'' = toString a' @ '' '' @ bin_symbol k' @ '' '' @ toString b' @ '')''"
    and "is_binary k" "is_binary k'" "sym_ok a" "sym_ok a'" "sym_ok b" "sym_ok b'"
  shows "k = k' \<and> toString a = toString a' \<and> toString b = toString b'"
proof -
  have 1: "toString a = toString a' \<and> '' '' @ bin_symbol k @ '' '' @ toString b @ '')'' = '' '' @ bin_symbol k' @ '' '' @ toString b' @ '')''"
    using toString_next [OF assms(4,5,1)] by simp
  then have "bin_symbol k @ CHR '' '' # toString b @ '')'' = bin_symbol k' @ CHR '' '' # toString b' @ '')''" by simp
  from symbol_next [OF bin_symbol_plain [OF assms(2)] bin_symbol_plain [OF assms(3)] this]
  have "bin_symbol k = bin_symbol k'" "toString b = toString b'" by simp_all
  then show ?thesis using 1 bin_symbol_inj [OF assms(2,3)] by simp
qed

lemma similar_ite:
  assumes "toString a @ '','' @ toString b @ '','' @ toString c @ '')'' = toString a' @ '','' @ toString b' @ '','' @ toString c' @ '')''"
    and "sym_ok a" "sym_ok a'" "sym_ok b" "sym_ok b'"
  shows "toString a = toString a' \<and> toString b = toString b' \<and> toString c = toString c'"
proof -
  have 1: "toString a = toString a' \<and> toString b @ '','' @ toString c @ '')'' = toString b' @ '','' @ toString c' @ '')''"
    using toString_next [OF assms(2,3,1)] by simp
  then have 2: "toString b @ '','' @ toString c @ '')'' = toString b' @ '','' @ toString c' @ '')''" by simp
  have "toString b = toString b' \<and> '','' @ toString c @ '')'' = '','' @ toString c' @ '')''"
    using toString_next [OF assms(4,5) 2] by simp
  then show ?thesis using 1 by simp
qed

lemma similar_load:
  assumes "toString a @ '','' @ s @ '')'' = toString a' @ '','' @ s' @ '')''" and "sym_ok a" "sym_ok a'"
  shows "toString a = toString a' \<and> s = s'"
proof -
  have "toString a = toString a' \<and> '','' @ s @ '')'' = '','' @ s' @ '')''"
    using toString_next [OF assms(2,3,1)] by simp
  then show ?thesis by simp
qed

lemma shapes_similar:
  assumes "shape_text s = shape_text s'" and "shape_ok s" and "shape_ok s'"
  shows "similar s s'"
proof -
  note h = shape_text_split(1) [OF assms] and b = shape_text_split(2) [OF assms]
  show ?thesis
  proof (cases s)
    case (Shape_bin k x y)
    note s = this
    show ?thesis
    proof (cases s')
      case (Shape_bin k' x' y')
      then have "toString x @ '' '' @ bin_symbol k @ '' '' @ toString y @ '')'' =
          toString x' @ '' '' @ bin_symbol k' @ '' '' @ toString y' @ '')''"
        using b s by (simp add: shape_body_def)
      from similar_bin [OF this] show ?thesis using s Shape_bin assms(2,3) by (simp add: similar_def)
    qed (use s h b assms(2,3) in \<open>auto simp: similar_def shape_head_def shape_body_def is_unary_def un_symbol_def sized_symbol_def\<close>)
  next
    case (Shape_ite x y z)
    note s = this
    show ?thesis
    proof (cases s')
      case (Shape_ite x' y' z')
      then have "toString x @ '','' @ toString y @ '','' @ toString z @ '')'' =
          toString x' @ '','' @ toString y' @ '','' @ toString z' @ '')''"
        using b s by (simp add: shape_body_def)
      from similar_ite [OF this] show ?thesis using s Shape_ite assms(2,3) by (simp add: similar_def)
    qed (use s h b assms(2,3) in \<open>auto simp: similar_def shape_head_def shape_body_def is_unary_def un_symbol_def sized_symbol_def\<close>)
  next
    case (Shape_load n x)
    note s = this
    show ?thesis
    proof (cases s')
      case (Shape_load n' x')
      then have "toString x @ '','' @ dec_string (unat n) @ '')'' = toString x' @ '','' @ dec_string (unat n') @ '')''"
        using b s by (simp add: shape_body_def)
      from similar_load [OF this] show ?thesis using s Shape_load assms(2,3) by (simp add: similar_def word_unat_eq_iff)
    qed (use s h b assms(2,3) in \<open>auto simp: similar_def shape_head_def shape_body_def is_unary_def un_symbol_def sized_symbol_def\<close>)
  next
    case (Shape_un k x)
    then show ?thesis using h b assms(2,3)
      by (cases s') (auto simp: similar_def shape_head_def shape_body_def is_unary_def un_symbol_def sized_symbol_def)
  next
    case (Shape_sized k n x)
    then show ?thesis using h b assms(2,3)
      by (cases s') (auto simp: similar_def shape_head_def shape_body_def is_unary_def un_symbol_def sized_symbol_def word_unat_eq_iff)
  next
    case (Shape_bytes x)
    then show ?thesis using h b assms(2,3)
      by (cases s') (auto simp: similar_def shape_head_def shape_body_def is_unary_def un_symbol_def sized_symbol_def hex_bytes_inj)
  next
    case (Shape_unknown x)
    then show ?thesis using h b assms(2,3)
      by (cases s') (auto simp: similar_def shape_head_def shape_body_def is_unary_def un_symbol_def sized_symbol_def)
  next
    case (Shape_const x)
    then show ?thesis using h b assms(2,3)
      by (cases s') (auto simp: similar_def shape_head_def shape_body_def var_name_ok_def word_unat_eq_iff)
  next
    case (Shape_var x)
    then show ?thesis using h b assms(2,3)
      by (cases s') (auto simp: similar_def shape_head_def shape_body_def var_name_ok_def word_unat_eq_iff)
  qed
qed

lemma similar_value:
  assumes "similar s s'" and "shape_ok s" and "shape_ok s'"
    and "\<And>a b. a \<in> set (shape_subs s) \<Longrightarrow> sym_ok b \<Longrightarrow> toString a = toString b \<Longrightarrow> same_meaning a b"
  shows "shape_value le w s = shape_value le w s'"
proof -
  have sub: "denote le w a = denote le w b" if "a \<in> set (shape_subs s)" "sym_ok b" "toString a = toString b" for a b
    using assms(4) [OF that] by (simp add: same_meaning_def)
  show ?thesis
  proof (cases s)
    case (Shape_un k a)
    with assms(1,3) show ?thesis using sub [of a] by (auto simp: similar_def)
  next
    case (Shape_bin k a b)
    with assms(1,3) show ?thesis using sub [of a] sub [of b] by (auto simp: similar_def)
  next
    case (Shape_ite a b c)
    with assms(1,3) show ?thesis using sub [of a] sub [of b] sub [of c] by (auto simp: similar_def)
  next
    case (Shape_load n a)
    with assms(1,3) show ?thesis using sub [of a] by (auto simp: similar_def)
  next
    case (Shape_sized k n a)
    with assms(1,3) show ?thesis using sub [of a] by (auto simp: similar_def)
  qed (use assms(1) in \<open>simp_all add: similar_def\<close>)
qed

lemma printed_alike:
  "sym_ok a \<Longrightarrow> sym_ok b \<Longrightarrow> toString a = toString b \<Longrightarrow> same_meaning a b"
proof (induction a arbitrary: b)
  case (SymExpr k c n raw name xs)
  obtain k' c' n' raw' name' xs' where b: "b = SymExpr k' c' n' raw' name' xs'" using SymExpr.prems(2) by (cases b) auto
  note ok = SymExpr.prems(1) SymExpr.prems(2) [unfolded b]
  have "similar (shape_of k c n raw name xs) (shape_of k' c' n' raw' name' xs')"
    using shapes_similar node_shape(1) [OF ok(1)] node_shape(1) [OF ok(2)] SymExpr.prems(3)
    unfolding b node_shape(2) [OF ok(1)] node_shape(2) [OF ok(2)] by blast
  moreover have "same_meaning a e" if "a \<in> set (shape_subs (shape_of k c n raw name xs))" "sym_ok e" "toString a = toString e" for a e
    using SymExpr.IH [OF _ _ that(2,3)] that(1) node_subs [OF ok(1)] ok(1) by auto
  ultimately have "shape_value le w (shape_of k c n raw name xs) = shape_value le w (shape_of k' c' n' raw' name' xs')" for le w
    using similar_value node_shape(1) [OF ok(1)] node_shape(1) [OF ok(2)] by blast
  then show ?case unfolding same_meaning_def b node_shape(3) [OF ok(1)] node_shape(3) [OF ok(2)] by blast
qed simp

lemma same_text_meaning: "sym_ok a \<Longrightarrow> sym_ok b \<Longrightarrow> same_text a b \<Longrightarrow> denote le w a = denote le w b"
  using printed_alike [of a b] by (simp add: same_text_def same_meaning_def)

end
