(* ===== verification/SymProps.thy ===== *)
theory SymProps
  imports SymPrint
begin

section \<open>Symbolic terms: constructors, rewriting and comparison are sound\<close>

declare sym_ok.simps(2) [simp del] and denote.simps(2) [simp del]

subsection \<open>Constructors\<close>

lemma sym_ok_leaves [simp]:
  "sym_ok (makeConst v)" "sym_ok (makeBytes b)" "sym_ok (bool_const p)"
  "sym_ok (makeVar n) = var_name_ok n" "sym_ok (makeUnknown n) = item n"
  by (simp_all add: makeConst_def makeBytes_def bool_const_def makeVar_def makeUnknown_def node_ok_def
      is_unary_def is_binary_def sized_kind_def sym_ok.simps)

lemma sym_ok_nodes [simp]:
  "is_unary k \<or> sized_kind k \<Longrightarrow> sym_ok (SymExpr k c n raw name [a]) = sym_ok a"
  "is_binary k \<Longrightarrow> sym_ok (SymExpr k c n raw name [a, b]) = (sym_ok a \<and> sym_ok b)"
  "sym_ok (SymExpr K_ITE c n raw name [a, b, d]) = (sym_ok a \<and> sym_ok b \<and> sym_ok d)"
  by (auto simp: sym_ok.simps node_ok_def is_unary_def is_binary_def sized_kind_def)

lemma item_names: "item ''div0''" "item ''mod0''"
  by (simp_all add: item_def delimiter_def)

lemma sym_ok_makeUnary: "is_unary k \<Longrightarrow> sym_ok a \<Longrightarrow> sym_ok (makeUnary k a)"
  by (auto simp: makeUnary_def sym_node_def split: option.split)

lemma sym_ok_fold_words: "fold_words k x y = Some e \<Longrightarrow> sym_ok e"
  by (induction k x y rule: fold_words.induct) (auto simp: item_names split: if_splits)

lemma sym_ok_foldBinary: "foldBinary k a b = Some e \<Longrightarrow> sym_ok e"
  by (auto simp: foldBinary_def split: option.splits if_splits dest: sym_ok_fold_words)

lemma sym_ok_makeBinary: "is_binary k \<Longrightarrow> sym_ok a \<Longrightarrow> sym_ok b \<Longrightarrow> sym_ok (makeBinary k a b)"
  by (cases "foldBinary k a b") (simp_all add: makeBinary_def sym_node_def sym_ok_foldBinary)

lemma sym_ok_makeITE: "sym_ok c \<Longrightarrow> sym_ok t \<Longrightarrow> sym_ok f \<Longrightarrow> sym_ok (makeITE c t f)"
  by (auto simp: makeITE_def sym_node_def split: option.split)

lemma sym_ok_sized [simp]: "sized_kind k \<Longrightarrow> sym_ok (sized_node k n a) = sym_ok a"
  by (simp add: sized_node_def)

lemma sized_kinds [simp]: "sized_kind K_LOAD" "sized_kind K_MASK" "sized_kind K_SEXT"
  by (simp_all add: sized_kind_def)

lemma sym_ok_makeLoad [simp]: "sym_ok (makeLoad a n) = sym_ok a"
  by (simp add: makeLoad_def)

lemma sym_ok_makeMask: "sym_ok a \<Longrightarrow> sym_ok (makeMask le a n)"
  by (simp add: makeMask_def split: option.split)

lemma sym_ok_makeSExt: "sym_ok a \<Longrightarrow> sym_ok (makeSExt le a n)"
  by (simp add: makeSExt_def split: option.split)

lemma value_of_two_Some:
  "value_of_two k v v' = Some r \<longleftrightarrow> (\<exists>x y z. v = Some x \<and> v' = Some y \<and> sem_two k x y = Some z \<and> r = Word z)"
  by (auto simp: value_of_two_def bind_eq_Some_conv)

lemma sem_two_words: "sem_two k v v' = Some z \<Longrightarrow> k \<noteq> K_EQ \<Longrightarrow> k \<noteq> K_NE \<Longrightarrow> \<exists>x y. v = Word x \<and> v' = Word y"
  by (cases v; cases v') (simp_all add: sem_two_def sem_bytes_def)

lemma sem_two_self: "sem_two K_EQ v v = Some 1" "sem_two K_NE v v = Some 0"
  by (cases v; simp add: sem_two_def sem_bytes_def truth_word_def)+

text \<open>Unfolded at the operands of \<open>makeBinary\<close> with a constant.\<close>

lemma value_with_const:
  assumes "value_of_two k (denote le w a) (denote le w b) = Some r" and "k \<noteq> K_EQ" and "k \<noteq> K_NE"
  obtains x y z where "denote le w a = Some (Word x)" and "denote le w b = Some (Word y)" and "sem_binary k x y = Some z"
    and "r = Word z" and "\<And>c. asConst a = Some c \<Longrightarrow> x = c" and "\<And>c. asConst b = Some c \<Longrightarrow> y = c"
proof -
  obtain v v' z where v: "denote le w a = Some v" "denote le w b = Some v'" "sem_two k v v' = Some z" "r = Word z"
    using assms(1) by (auto simp: value_of_two_Some)
  obtain x y where "v = Word x" "v' = Word y" using sem_two_words [OF v(3) assms(2,3)] by blast
  then show thesis using v that [of x y z] asConst_Some [of a _ le w] asConst_Some [of b _ le w] by (auto simp: sem_two_def)
qed

lemma makeBinary_sound:
  assumes "is_binary k" and "sym_ok a" and "sym_ok b"
    and "value_of_two k (denote le w a) (denote le w b) = Some r"
  shows "denote le w (makeBinary k a b) = Some r"
proof (cases "foldBinary k a b")
  case (Some e)
  then show ?thesis using assms by (simp add: makeBinary_def foldBinary_value)
next
  case None
  show ?thesis
  proof (cases "k = K_EQ \<or> k = K_NE")
    case True
    show ?thesis
    proof (cases "same_text a b")
      case True
      then have "denote le w a = denote le w b" using assms(2,3) by (intro same_text_meaning)
      then show ?thesis using \<open>k = K_EQ \<or> k = K_NE\<close> True None assms(4)
        by (auto simp: makeBinary_def value_of_two_Some sem_two_self truth_word_def)
    next
      case False
      with \<open>k = K_EQ \<or> k = K_NE\<close> None assms show ?thesis
        by (auto simp: makeBinary_def sym_node_def denote_node_two)
    qed
  next
    case False
    then obtain x y z where v: "denote le w a = Some (Word x)" "denote le w b = Some (Word y)" "sem_binary k x y = Some z"
        "r = Word z" "\<And>c. asConst a = Some c \<Longrightarrow> x = c" "\<And>c. asConst b = Some c \<Longrightarrow> y = c"
      using value_with_const [OF assms(4)] by blast
    have n: "denote le w (sym_node k [a, b]) = Some r"
      using assms(1,4) by (simp add: sym_node_def denote_node_two)
    show ?thesis using False None v n by (auto simp: makeBinary_def)
  qed
qed

lemma makeITE_sound:
  assumes "sym_ok t" and "sym_ok f" and "sem_ite (denote le w c) (denote le w t) (denote le w f) = Some r"
  shows "denote le w (makeITE c t f) = Some r"
proof (cases "asConst c")
  case None
  show ?thesis
  proof (cases "same_text t f")
    case True
    then have "denote le w t = denote le w f" using assms(1,2) by (intro same_text_meaning)
    then show ?thesis using True None assms(3) by (auto simp: makeITE_def sem_ite_def split: option.splits sym_value.splits if_splits)
  next
    case False
    then show ?thesis using None assms(3) by (simp add: makeITE_def sym_node_def denote_node_ite)
  qed
next
  case (Some v)
  then show ?thesis using assms(3) by (simp add: makeITE_def asConst_Some sem_ite_def split: if_splits)
qed

subsection \<open>Rewriting\<close>

lemma inner_of_Some:
  assumes "inner_of k e = Some x" and "sym_ok e" and "is_unary k"
  shows "sym_ok x" and "denote le w e = value_of_one le w k 0 (denote le w x)"
proof -
  obtain c n raw name where e: "e = SymExpr k c n raw name [x]"
    using assms by (cases e) (auto simp: sym_ok.simps node_ok_def is_unary_def length_1_2_3 split: if_splits list.splits)
  show "sym_ok x" using assms(2,3) e by (simp)
  show "denote le w e = value_of_one le w k 0 (denote le w x)"
    unfolding e using assms(3) by (simp add: denote_node_one value_of_one_unary [of _ _ _ n])
qed

lemma double_unary:
  assumes "value_of_one le w k n (value_of_one le w k 0 v) = Some r" and "k = K_NEG \<or> k = K_NOT"
  shows "v = Some r"
proof (cases v)
  case (Some u)
  then show ?thesis using assms by (cases u) (auto simp: value_of_one_def sem_one_def)
qed (use assms in \<open>simp add: value_of_one_def\<close>)

text \<open>What a rule returns is well-formed and means what the node means.\<close>

lemma binary_rule_sound:
  assumes "binary_rule k a b = Some (rule, e)" and "sym_ok a" and "sym_ok b"
  shows "sym_ok e" and "value_of_two k (denote le w a) (denote le w b) = Some r \<Longrightarrow> denote le w e = Some r"
proof -
  show "sym_ok e" using assms
    by (auto simp: binary_rule_def identity_rule_def split: sym_kind.splits if_splits)
  assume r: "value_of_two k (denote le w a) (denote le w b) = Some r"
  have "k \<noteq> K_EQ" "k \<noteq> K_NE" using assms(1) by (auto simp: binary_rule_def)
  then obtain x y z where v: "denote le w a = Some (Word x)" "denote le w b = Some (Word y)" "sem_binary k x y = Some z"
      "r = Word z" "\<And>c. asConst a = Some c \<Longrightarrow> x = c" "\<And>c. asConst b = Some c \<Longrightarrow> y = c"
    using value_with_const [OF r] by blast
  have same: "same_text a b \<Longrightarrow> x = y" using same_text_meaning [OF assms(2,3), of le w] v(1,2) by simp
  show "denote le w e = Some r" using assms(1) v same
    by (auto simp: binary_rule_def identity_rule_def isZeroExpr_def isOneExpr_def isConstValue_def
        split: sym_kind.splits if_splits)
qed

lemma node_rule_sound:
  assumes "node_rule k xs = Some (rule, e)" and "sym_ok (SymExpr k c n raw name xs)"
  shows "sym_ok e" and "denote le w (SymExpr k c n raw name xs) = Some r \<Longrightarrow> denote le w e = Some r"
proof -
  consider (un) "k = K_NEG \<or> k = K_NOT" | (ite) "k = K_ITE" | (two) a b where "xs = [a, b]" "binary_rule k a b = Some (rule, e)"
    using assms(1) by (auto simp: node_rule_def split: sym_kind.splits list.splits)
  then have "sym_ok e \<and> (denote le w (SymExpr k c n raw name xs) = Some r \<longrightarrow> denote le w e = Some r)"
  proof cases
    case un
    then obtain a where a: "xs = [a]" "inner_of k a = Some e" "is_unary k" "sym_ok a"
      using assms by (auto simp: node_rule_def unary_rule_def is_unary_def split: list.splits option.splits)
    show ?thesis
      using inner_of_Some [OF a(2,4,3)] double_unary [OF _ un] a(1,3)
      by (auto simp: denote_node_one)
  next
    case ite
    then obtain d t f where x: "xs = [d, t, f]" "same_text t f" "e = t"
      using assms(1) by (auto simp: node_rule_def split: list.splits if_splits)
    then have "denote le w t = denote le w f" using assms(2) ite by (intro same_text_meaning) simp_all
    then show ?thesis using x assms(2) ite
      by (auto simp: denote_node_ite sem_ite_def split: option.splits sym_value.splits if_splits)
  next
    case two
    then have "is_binary k" by (auto simp: binary_rule_def is_binary_def split: sym_kind.splits)
    then show ?thesis using two(1) binary_rule_sound [OF two(2)] assms(2)
      by (auto simp: denote_node_two)
  qed
  then show "sym_ok e" and "denote le w (SymExpr k c n raw name xs) = Some r \<Longrightarrow> denote le w e = Some r" by blast+
qed

lemma sem_two_commutes: "isCommutativeRewriteKind k \<Longrightarrow> sem_two k v v' = sem_two k v' v"
  by (cases v; cases v') (auto simp: isCommutativeRewriteKind_def sem_two_def sem_bytes_def truth_word_def ac_simps)

lemma value_of_two_commutes: "isCommutativeRewriteKind k \<Longrightarrow> value_of_two k v v' = value_of_two k v' v"
  using sem_two_commutes by (cases v; cases v') (simp_all add: value_of_two_def)

lemma order_args_sound:
  assumes "order_args k xs nt = (ys, nt')" and "sym_ok (SymExpr k c n raw name xs)"
  shows "sym_ok (SymExpr k c n raw name ys)" and "denote le w (SymExpr k c n raw name ys) = denote le w (SymExpr k c n raw name xs)"
proof -
  have "sym_ok (SymExpr k c n raw name ys) \<and> denote le w (SymExpr k c n raw name ys) = denote le w (SymExpr k c n raw name xs)"
  proof (cases "ys = xs")
    case False
    then obtain a b where ab: "xs = [a, b]" "ys = [b, a]" "isCommutativeRewriteKind k"
      using assms(1) by (auto simp: order_args_def split: list.splits if_splits)
    then have "is_binary k" by (auto simp: isCommutativeRewriteKind_def is_binary_def)
    then show ?thesis using ab assms(2) value_of_two_commutes [OF ab(3), of "denote le w b"] by (simp add: denote_node_two)
  qed (use assms in simp)
  then show "sym_ok (SymExpr k c n raw name ys)"
    "denote le w (SymExpr k c n raw name ys) = denote le w (SymExpr k c n raw name xs)" by blast+
qed

text \<open>Operands replaced by ones that mean as much.\<close>

definition refined :: "bool \<Rightarrow> sym_world \<Rightarrow> SymExpr \<Rightarrow> SymExpr \<Rightarrow> bool" where
  "refined le w a b \<longleftrightarrow> sym_ok b \<and> (\<forall>r. denote le w a = Some r \<longrightarrow> denote le w b = Some r)"

lemma node_value_mono:
  assumes "list_all2 (\<lambda>v v'. \<forall>r. v = Some r \<longrightarrow> v' = Some r) vs vs'" and "node_value le w k c n raw name vs = Some r"
  shows "node_value le w k c n raw name vs' = Some r"
  using assms by (auto simp: node_value_def sem_ite_def list_all2_Cons1 split: if_splits list.splits option.splits sym_value.splits)

lemma node_refined:
  assumes "list_all2 (refined le w) xs ys" and "sym_ok (SymExpr k c n raw name xs)"
  shows "refined le w (SymExpr k c n raw name xs) (SymExpr k c n raw name ys)"
proof -
  have "list_all2 (\<lambda>v v'. \<forall>r. v = Some r \<longrightarrow> v' = Some r) (map (denote le w) xs) (map (denote le w) ys)"
    using assms(1) by (auto simp: list_all2_map1 list_all2_map2 refined_def elim: list_all2_mono)
  moreover have "length ys = length xs" "\<forall>y\<in>set ys. sym_ok y"
    using assms(1) by (induction rule: list_all2_induct) (simp_all add: refined_def)
  ultimately show ?thesis using assms(2) node_value_mono [of "map (denote le w) xs" "map (denote le w) ys" le w k c n raw name]
    by (simp add: refined_def sym_ok.simps denote.simps)
qed

lemma rewrite_refined:
  "sym_ok e \<Longrightarrow> refined le w e (fst (rewriteSymExprImpl e nt))"
  "(\<forall>x\<in>set xs. sym_ok x) \<Longrightarrow> list_all2 (refined le w) xs (fst (rewrite_args xs nt))"
proof (induction e nt and xs nt rule: rewriteSymExprImpl_rewrite_args.induct)
  case (2 k c n raw name xs nt)
  obtain ys nt' where ys: "rewrite_args xs nt = (ys, nt')" by (cases "rewrite_args xs nt")
  have "list_all2 (refined le w) xs ys" using 2 ys by (simp add: sym_ok.simps)
  then have step: "refined le w (SymExpr k c n raw name xs) (SymExpr k c n raw name ys)"
    using "2.prems" by (intro node_refined)
  then have ok: "sym_ok (SymExpr k c n raw name ys)" by (simp add: refined_def)
  have "refined le w (SymExpr k c n raw name ys) (fst (rewrite_node k c n raw name ys nt'))"
  proof (cases "node_rule k ys")
    case None
    obtain zs nt'' where zs: "order_args k ys nt' = (zs, nt'')" by (cases "order_args k ys nt'")
    then show ?thesis using None order_args_sound [OF zs ok] by (simp add: rewrite_node_def refined_def)
  next
    case (Some p)
    then obtain rule e where "node_rule k ys = Some (rule, e)" by (cases p) simp
    then show ?thesis using node_rule_sound [OF _ ok, of rule e] by (simp add: rewrite_node_def refined_def)
  qed
  then show ?case using step ys by (auto simp: refined_def)
next
  case (4 x xs nt)
  then show ?case by (auto split: prod.splits)
qed simp_all

text \<open>
  Rewriting keeps the meaning of every well-formed term: in each world the rewritten term has
  the value the term had, and it is well-formed.
\<close>

theorem rewrite_sound:
  assumes "sym_ok e" and "denote le w e = Some v"
  shows "denote le w (fst (rewriteSymExpr e nt)) = Some v \<and> sym_ok (fst (rewriteSymExpr e nt))"
  using rewrite_refined(1) [OF assms(1), of le w nt] assms(2) by (simp add: rewriteSymExpr_def refined_def)

text \<open>\<open>(x - ~~x) + x * 1\<close> is rewritten to \<open>0 + x\<close>'s operand: the printed form is the variable alone.\<close>

definition example_term :: SymExpr where
  "example_term =
     (let x = makeVar ''reg5'' in
      sym_node K_ADD [sym_node K_SUB [x, sym_node K_NOT [sym_node K_NOT [x]]], sym_node K_MUL [x, makeConst 1]])"

lemma example_rewritten: "fst (rewriteSymExpr example_term (False, [])) = makeVar ''reg5''"
  by (simp add: example_term_def rewriteSymExpr_def sym_node_def makeVar_def makeConst_def rewrite_node_def node_rule_def
      unary_rule_def binary_rule_def identity_rule_def same_text_def isZeroExpr_def isOneExpr_def isConstValue_def
      order_args_def Let_def node_string_def)

theorem rewrite_sound_witness:
  "denote True \<lparr>world_var = (\<lambda>s. 7), world_load = (\<lambda>a n. 0)\<rparr> (fst (rewriteSymExpr example_term (False, []))) = Some (Word 7) \<and>
   sym_ok (fst (rewriteSymExpr example_term (False, [])))"
proof (rule rewrite_sound)
  show "sym_ok example_term"
    by (simp add: example_term_def sym_node_def is_unary_def is_binary_def Let_def var_name_ok_def delimiter_def)
  show "denote True \<lparr>world_var = (\<lambda>s. 7), world_load = (\<lambda>a n. 0)\<rparr> example_term = Some (Word 7)"
    by (simp add: example_term_def sym_node_def Let_def denote_node_two denote_node_one is_unary_def is_binary_def
        value_of_two_def value_of_one_def sem_one_def sem_two_def)
qed

end
