(* ===== verification/SymKeys.thy ===== *)
theory SymKeys
  imports SymProps
begin

section \<open>Symbolic terms: equal comparison keys\<close>

text \<open>
  Two well-formed terms with the same comparison key mean the same, although the keys order the
  operands of commutative operations.
\<close>

lemma delimiter_simps [simp]:
  "delimiter CHR ''[''  = False" "delimiter CHR '']'' = False" "delimiter CHR '':'' = False"
  by (simp_all add: delimiter_def)

definition leaf_kind :: "sym_kind \<Rightarrow> bool" where
  "leaf_kind k \<longleftrightarrow> k \<in> {K_CONST_U64, K_BYTES, K_VAR, K_UNKNOWN}"

definition ordered_keys :: "sym_kind \<Rightarrow> string list \<Rightarrow> string list" where
  "ordered_keys k ks = (if isCommutativeExprKind k then sort_strings ks else ks)"

lemma node_key_inner:
  "\<not> leaf_kind k \<Longrightarrow>
     node_key k c n raw name ks = kind_key k n @ CHR ''('' # joined (ordered_keys k ks) @ '')''"
  by (cases k) (simp_all add: leaf_kind_def node_key_def ordered_keys_def)

lemma kind_key_plain: "plain (kind_key k n)"
  by (cases k) (simp_all add: kind_key_def delimiter_def)

lemma kind_key_first: "\<not> leaf_kind k \<Longrightarrow> kind_key k n \<noteq> [] \<and> hd (kind_key k n) \<noteq> CHR ''u''"
  by (cases k) (simp_all add: kind_key_def leaf_kind_def)

definition kind_code :: "sym_kind \<Rightarrow> string" where
  "kind_code k = takeWhile (\<lambda>c. c \<noteq> CHR ''['') (kind_key k 0)"

lemma kind_code: "takeWhile (\<lambda>c. c \<noteq> CHR ''['') (kind_key k n) = kind_code k"
  by (cases k) (simp_all add: kind_key_def kind_code_def)

lemma kind_code_inj: "\<not> leaf_kind k \<Longrightarrow> \<not> leaf_kind k' \<Longrightarrow> kind_code k = kind_code k' \<Longrightarrow> k = k'"
  by (cases k; cases k') (simp_all add: leaf_kind_def kind_code_def kind_key_def)

lemma kind_key_inj:
  assumes "kind_key k n = kind_key k' n'" and "\<not> leaf_kind k" and "\<not> leaf_kind k'"
  shows "k = k'" and "sized_kind k \<Longrightarrow> n = n'"
proof -
  have "kind_code k = kind_code k'" using arg_cong [OF assms(1), of "takeWhile (\<lambda>c. c \<noteq> CHR ''['')"] by (simp add: kind_code)
  then show k: "k = k'" using kind_code_inj assms(2,3) by blast
  show "n = n'" if "sized_kind k" using that assms(1) k by (auto simp: sized_kind_def kind_key_def word_unat_eq_iff)
qed

subsection \<open>Keys are items\<close>

lemma sort_strings_two: "sort_strings [x, y] = (if string_less y x then [y, x] else [x, y])"
  by (simp add: sort_strings_def)

lemma insert_string_set: "set (insert_string x ys) = insert x (set ys)" "length (insert_string x ys) = Suc (length ys)"
  by (induction ys) auto

lemma sort_strings_set: "set (sort_strings xs) = set xs" "length (sort_strings xs) = length xs"
  by (induction xs) (simp_all add: sort_strings_def insert_string_set)

lemma ordered_keys_set [simp]: "set (ordered_keys k ks) = set ks" "length (ordered_keys k ks) = length ks"
  by (simp_all add: ordered_keys_def sort_strings_set)

lemma scan_joined: "(\<forall>k\<in>set ks. item k) \<Longrightarrow> scan (Suc 0) (joined ks @ '')'')"
  by (induction ks rule: joined.induct) simp_all

lemma unknown_item: "item s \<Longrightarrow> item (CHR ''u'' # CHR ''n'' # CHR ''k'' # CHR ''n'' # CHR ''o'' # CHR ''w'' # CHR ''n'' # CHR '':'' # s)"
  by (simp add: item_def delimiter_def)

lemma node_key_item:
  assumes "node_ok k name m" and "\<forall>k\<in>set ks. item k"
  shows "item (node_key k c n raw name ks)"
proof (cases "leaf_kind k")
  case True
  show ?thesis
  proof (cases "k = K_UNKNOWN")
    case True
    then show ?thesis using assms(1) by (simp add: node_key_def node_ok_def unknown_item)
  next
    case False
    then show ?thesis using assms(1) \<open>leaf_kind k\<close>
      by (auto simp: leaf_kind_def node_key_def canonicalizeBytes_def node_ok_def var_name_ok_def delimiter_def
          intro!: plain_item)
  qed
next
  case False
  then show ?thesis unfolding node_key_inner [OF False]
    by (intro item_wrap kind_key_plain scan_joined) (use assms(2) in simp)
qed

lemma key_item: "sym_ok e \<Longrightarrow> item (canonicalizeSymExpr e)"
  by (induction e) (auto simp: sym_ok.simps intro!: node_key_item)

subsection \<open>Equal keys\<close>

lemma joined_inj:
  assumes "length xs = length ys" and "\<forall>x\<in>set xs. item x" and "\<forall>y\<in>set ys. item y"
    and "joined xs @ '')'' = joined ys @ '')''"
  shows "xs = ys"
  using assms
proof (induction xs ys rule: list_induct2)
  case (Cons x xs y ys)
  show ?case
  proof (cases xs)
    case Nil
    then show ?thesis using Cons by simp
  next
    case (Cons x' xs')
    then obtain y' ys' where ys: "ys = y' # ys'" using Cons.hyps by (cases ys) auto
    have "x @ '','' @ joined xs @ '')'' = y @ '','' @ joined ys @ '')''" using Cons.prems(3) Cons ys by simp
    then have "x = y \<and> '','' @ joined xs @ '')'' = '','' @ joined ys @ '')''"
      using Cons.prems(1,2) by (intro item_split) simp_all
    then show ?thesis using Cons.IH Cons.prems(1,2) by simp
  qed
qed simp

lemma sort_two_eq:
  "sort_strings [x, y] = sort_strings [x', y'] \<Longrightarrow> x = x' \<and> y = y' \<or> x = y' \<and> y = x'"
  by (auto simp: sort_strings_two split: if_splits)

lemma comm_arity: "isCommutativeExprKind k \<Longrightarrow> is_binary k \<and> isCommutativeRewriteKind k"
  by (auto simp: isCommutativeExprKind_def isCommutativeRewriteKind_def is_binary_def)

lemma node_arity:
  assumes "node_ok k name (length xs)" and "node_ok k name' (length ys)" and "\<not> leaf_kind k"
  shows "length xs = length ys"
  using assms by (cases k) (simp_all add: node_ok_def leaf_kind_def is_unary_def is_binary_def sized_kind_def)

text \<open>The size field matters for sized nodes only.\<close>

lemma node_value_cong:
  assumes "\<not> leaf_kind k" and "sized_kind k \<Longrightarrow> n = n'"
  shows "node_value le w k c n raw name vs = node_value le w k c' n' raw' name' vs"
proof -
  have "sem_one le w k n v = sem_one le w k n' v" for v
    using assms(2) by (cases "sized_kind k") (auto simp: sem_one_def sized_kind_def split: sym_value.split)
  then have "sem_one le w k n = sem_one le w k n'" by blast
  then show ?thesis using assms(1) by (simp only: node_value_def leaf_kind_def) simp
qed

lemma denote_swap:
  "isCommutativeExprKind k \<Longrightarrow> node_value le w k c n raw name [v, v'] = node_value le w k c n raw name [v', v]"
  using sem_two_commutes [of k] comm_arity [of k]
  by (auto simp: node_value_def isCommutativeExprKind_def split: option.split)

lemma leaf_key_leaf:
  assumes "node_key k c n raw name ks = node_key k' c' n' raw' name' ks'" and "leaf_kind k"
    and "node_ok k name m" and "node_ok k' name' m'"
  shows "leaf_kind k'"
proof (rule ccontr)
  assume k': "\<not> leaf_kind k'"
  let ?h = "kind_key k' n'" and ?b = "Some (joined (ordered_keys k' ks') @ '')'')"
  have eq: "node_key k c n raw name ks = ?h @ opened ?b" using assms(1) node_key_inner [OF k'] by (simp add: opened_def)
  show False
  proof (cases "k = K_UNKNOWN")
    case True
    then show ?thesis using eq kind_key_first [OF k', of n'] by (cases ?h) (simp_all add: node_key_def)
  next
    case False
    then have "plain (node_key k c n raw name ks)"
      using assms(2,3) by (auto simp: leaf_kind_def node_key_def canonicalizeBytes_def node_ok_def var_name_ok_def delimiter_def)
    then show ?thesis
      using plain_paren_split [of "node_key k c n raw name ks" ?h None ?b] eq kind_key_plain by (simp add: opened_def)
  qed
qed

lemma leaf_values:
  assumes "node_key k c n raw name ks = node_key k' c' n' raw' name' ks'" and "leaf_kind k" and "leaf_kind k'"
  shows "node_value le w k c n raw name vs = node_value le w k' c' n' raw' name' vs'"
  using assms
  by (auto simp: leaf_kind_def node_key_def canonicalizeBytes_def node_value_def word_unat_eq_iff dest: hex_bytes_inj)

text \<open>
  Two well-formed terms with the same comparison key mean the same in every world.
\<close>

lemma same_key_meaning:
  "sym_ok a \<Longrightarrow> sym_ok b \<Longrightarrow> canonicalizeSymExpr a = canonicalizeSymExpr b \<Longrightarrow> denote le w a = denote le w b"
proof (induction a arbitrary: b)
  case (SymExpr k c n raw name xs)
  obtain k' c' n' raw' name' ys where b: "b = SymExpr k' c' n' raw' name' ys" using SymExpr.prems(2) by (cases b) auto
  have ok: "node_ok k name (length xs)" "node_ok k' name' (length ys)" "\<forall>x\<in>set xs. sym_ok x" "\<forall>y\<in>set ys. sym_ok y"
    using SymExpr.prems(1,2) by (simp_all add: b sym_ok.simps)
  let ?kx = "map canonicalizeSymExpr xs" and ?ky = "map canonicalizeSymExpr ys"
  have eq: "node_key k c n raw name ?kx = node_key k' c' n' raw' name' ?ky" using SymExpr.prems(3) by (simp add: b)
  have IH: "denote le w x = denote le w y" if "x \<in> set xs" "y \<in> set ys" "canonicalizeSymExpr x = canonicalizeSymExpr y" for x y
    using SymExpr.IH [OF that(1), of y] that ok(3,4) by blast
  show ?case
  proof (cases "leaf_kind k")
    case True
    then have "leaf_kind k'" using leaf_key_leaf [OF eq] ok by blast
    then show ?thesis using leaf_values [OF eq True] by (simp add: b denote.simps)
  next
    case False
    have k': "\<not> leaf_kind k'" using leaf_key_leaf [OF eq [symmetric]] ok False by blast
    have "kind_key k n @ opened (Some (joined (ordered_keys k ?kx) @ '')'')) =
        kind_key k' n' @ opened (Some (joined (ordered_keys k' ?ky) @ '')''))"
      using eq node_key_inner [OF False] node_key_inner [OF k'] by (simp add: opened_def)
    from plain_paren_split [OF kind_key_plain kind_key_plain this]
    have key: "kind_key k n = kind_key k' n'" and j: "joined (ordered_keys k ?kx) @ '')'' = joined (ordered_keys k' ?ky) @ '')''"
      by simp_all
    note kk = kind_key_inj [OF key False k']
    have len: "length xs = length ys" using node_arity ok(1,2) False kk(1) by blast
    have items: "\<forall>x\<in>set ?kx. item x" "\<forall>y\<in>set ?ky. item y" using ok(3,4) key_item by auto
    have keys: "ordered_keys k ?kx = ordered_keys k ?ky"
      using joined_inj [of "ordered_keys k ?kx" "ordered_keys k ?ky"] j len items kk(1) by simp
    have direct: "map (denote le w) xs = map (denote le w) ys" if "?kx = ?ky"
      using that len IH by (auto simp: list_eq_iff_nth_eq)
    have "node_value le w k c n raw name (map (denote le w) xs) = node_value le w k c n raw name (map (denote le w) ys)"
    proof (cases "isCommutativeExprKind k")
      case True
      then obtain x1 x2 y1 y2 where l: "xs = [x1, x2]" "ys = [y1, y2]"
        using ok(1) len comm_arity [OF True] kind_classes [of k]
        by (auto simp: node_ok_def isCommutativeExprKind_def length_1_2_3 is_unary_def is_binary_def sized_kind_def length_Suc_conv)
      then have "?kx = ?ky \<or> canonicalizeSymExpr x1 = canonicalizeSymExpr y2 \<and> canonicalizeSymExpr x2 = canonicalizeSymExpr y1"
        using keys True sort_two_eq by (fastforce simp: ordered_keys_def)
      then show ?thesis
      proof
        assume "?kx = ?ky"
        then show ?thesis using direct by simp
      next
        assume "canonicalizeSymExpr x1 = canonicalizeSymExpr y2 \<and> canonicalizeSymExpr x2 = canonicalizeSymExpr y1"
        then have "denote le w x1 = denote le w y2" "denote le w x2 = denote le w y1" using IH l by auto
        then show ?thesis
          using l denote_swap [OF True, of le w c n raw name "denote le w y1" "denote le w y2"] by simp
      qed
    next
      case False
      then show ?thesis using keys direct by (simp add: ordered_keys_def)
    qed
    also have "\<dots> = node_value le w k' c' n' raw' name' (map (denote le w) ys)"
      using node_value_cong [OF False kk(2), of le w c raw name _ c' raw' name'] kk(1) by simp
    finally show ?thesis by (simp add: b denote.simps)
  qed
qed simp

end
