(* ===== verification/SymState.thy ===== *)
theory SymState
  imports SymTerm Evaluator
begin

section \<open>The symbolic evaluator: state, operand readers, results\<close>

text \<open>
  The data of \<open>SymbolicExpressionEvaluator\<close>. The three parallel vectors of the stack (terms, kinds,
  implicit bytes) are pushed and popped together and are one list of entries, its top first. The
  thread-local decode error is the field \<open>decode_error\<close>; \<open>DecodeStateScope\<close> clears it for an
  expression and restores it behind it. Operands are read in little-endian order whatever the byte
  order of the object.
\<close>

datatype SymStackValueKind = SK_ADDRESS | SK_VALUE | SK_REGISTER

record sym_entry =
  entry_term :: SymExpr
  entry_sort :: SymStackValueKind
  entry_implicit :: "bytes option"

record SymPiece =
  sp_kind :: piece_kind
  sp_location :: SymExpr
  sp_byte_size :: u64
  sp_bit_size :: u64
  sp_bit_offset :: u64
  sp_implicit :: bytes

record SymbolicExpressionResult =
  sr_type :: result_type
  sr_expression :: SymExpr
  sr_pieces :: "SymPiece list"
  sr_error :: string
  sr_uninitialized :: bool
  sr_unsupported :: "u8 option"
  sr_vendor :: bool

definition sym_result :: "result_type \<Rightarrow> SymExpr \<Rightarrow> SymbolicExpressionResult" where
  "sym_result t e =
     \<lparr>sr_type = t, sr_expression = e, sr_pieces = [], sr_error = [], sr_uninitialized = False,
      sr_unsupported = None, sr_vendor = False\<rparr>"

definition sym_invalid :: "string \<Rightarrow> SymbolicExpressionResult" where
  "sym_invalid msg = (sym_result RT_INVALID null_expr)\<lparr>sr_error := msg\<rparr>"

record sym_eval =
  se_pc :: u64
  se_ctx :: EvaluationContext
  se_regs :: "u64 list"
  se_call_depth :: nat
  se_branch_depth :: nat
  se_stack :: "sym_entry list"
  se_pieces :: "SymPiece list"
  se_taint :: bool
  decode_error :: "string option"

definition new_sym_eval :: "nat \<Rightarrow> nat \<Rightarrow> sym_eval" where
  "new_sym_eval cd bd =
     \<lparr>se_pc = 0, se_ctx = default_context, se_regs = [], se_call_depth = cd, se_branch_depth = bd,
      se_stack = [], se_pieces = [], se_taint = False, decode_error = None\<rparr>"

definition setDecodeError :: "string \<Rightarrow> sym_eval \<Rightarrow> sym_eval" where
  "setDecodeError msg s = (if decode_error s = None then s\<lparr>decode_error := Some msg\<rparr> else s)"

subsection \<open>The stack\<close>

definition sym_push_as :: "SymExpr \<Rightarrow> SymStackValueKind \<Rightarrow> sym_eval \<Rightarrow> sym_eval" where
  "sym_push_as v k s = s\<lparr>se_stack := \<lparr>entry_term = v, entry_sort = k, entry_implicit = None\<rparr> # se_stack s\<rparr>"

definition pushWithImplicitBytes :: "SymExpr \<Rightarrow> bytes \<Rightarrow> SymStackValueKind \<Rightarrow> sym_eval \<Rightarrow> sym_eval" where
  "pushWithImplicitBytes v bs k s =
     s\<lparr>se_stack := \<lparr>entry_term = v, entry_sort = k, entry_implicit = Some bs\<rparr> # se_stack s\<rparr>"

text \<open>A copy of an entry (\<open>DW_OP_dup\<close>, \<open>DW_OP_over\<close>, \<open>DW_OP_pick\<close>).\<close>

definition sym_copy :: "sym_entry \<Rightarrow> sym_eval \<Rightarrow> sym_eval" where
  "sym_copy e s =
     (case entry_implicit e of
        Some bs \<Rightarrow> pushWithImplicitBytes (entry_term e) bs (entry_sort e) s
      | None \<Rightarrow> sym_push_as (entry_term e) (entry_sort e) s)"

definition sym_pop :: "sym_eval \<Rightarrow> SymExpr \<times> sym_eval" where
  "sym_pop s =
     (case se_stack s of
        [] \<Rightarrow> (makeUnknown ''empty_stack'', s)
      | e # es \<Rightarrow> (entry_term e, s\<lparr>se_stack := es\<rparr>))"

definition topKind :: "sym_eval \<Rightarrow> SymStackValueKind" where
  "topKind s = (case se_stack s of [] \<Rightarrow> SK_ADDRESS | e # es \<Rightarrow> entry_sort e)"

definition topImplicitBytes :: "sym_eval \<Rightarrow> bytes option" where
  "topImplicitBytes s = (case se_stack s of [] \<Rightarrow> None | e # es \<Rightarrow> entry_implicit e)"

definition setTopKind :: "SymStackValueKind \<Rightarrow> sym_eval \<Rightarrow> sym_eval" where
  "setTopKind k s = (case se_stack s of [] \<Rightarrow> s | e # es \<Rightarrow> s\<lparr>se_stack := e\<lparr>entry_sort := k\<rparr> # es\<rparr>)"

definition register_term :: "u64 list \<Rightarrow> u64 \<Rightarrow> SymExpr" where
  "register_term regs n =
     (if unat n < length regs then makeConst (regs ! unat n) else makeVar (''reg'' @ dec_string (unat n)))"

definition regValueExpr :: "sym_eval \<Rightarrow> u64 \<Rightarrow> SymExpr" where
  "regValueExpr s regnum = register_term (se_regs s) regnum"

definition materializeForComputation :: "sym_eval \<Rightarrow> SymExpr \<Rightarrow> SymStackValueKind \<Rightarrow> SymExpr" where
  "materializeForComputation s v k =
     (if k \<noteq> SK_REGISTER then v
      else case asConst v of None \<Rightarrow> makeUnknown ''reg?'' | Some r \<Rightarrow> regValueExpr s r)"

text \<open>\<open>auto k = topKind(); auto a = materializeForComputation(pop(), k);\<close>\<close>

definition sym_operand :: "sym_eval \<Rightarrow> SymExpr \<times> sym_eval" where
  "sym_operand s = (case sym_pop s of (v, s') \<Rightarrow> (materializeForComputation s v (topKind s), s'))"

definition context_term :: "u64 \<Rightarrow> string \<Rightarrow> SymExpr" where
  "context_term v n = (if v \<noteq> 0 then makeConst v else makeVar n)"

definition frameBaseExpr :: "sym_eval \<Rightarrow> SymExpr" where
  "frameBaseExpr s = context_term (frame_base (se_ctx s)) ''frame_base''"

definition cfaExpr :: "sym_eval \<Rightarrow> SymExpr" where
  "cfaExpr s = context_term (cfa (se_ctx s)) ''cfa''"

definition tlsBaseExpr :: "sym_eval \<Rightarrow> SymExpr" where
  "tlsBaseExpr s = context_term (tls_base (se_ctx s)) ''tls_base''"

definition objectAddrExpr :: "sym_eval \<Rightarrow> SymExpr" where
  "objectAddrExpr s = context_term (object_address (se_ctx s)) ''object_address''"

subsection \<open>Operand readers\<close>

type_synonym 'v sym_read = "'v \<times> nat \<times> sym_eval"

definition sym_readU8 :: "bytes \<Rightarrow> nat \<Rightarrow> sym_eval \<Rightarrow> u8 sym_read" where
  "sym_readU8 b off s = (if length b \<le> off then (0, off, setDecodeError ''truncated u8'' s) else (b ! off, Suc off, s))"

definition sym_readU16 :: "bytes \<Rightarrow> nat \<Rightarrow> sym_eval \<Rightarrow> u64 sym_read" where
  "sym_readU16 b off s =
     (if avail b off < 2 then (0, length b, setDecodeError ''truncated u16'' s)
      else (ucast (b ! off) OR push_bit 8 (ucast (b ! (off + 1))), off + 2, s))"

definition sym_readU32 :: "bytes \<Rightarrow> nat \<Rightarrow> sym_eval \<Rightarrow> u64 sym_read" where
  "sym_readU32 b off s =
     (if avail b off < 4 then (0, length b, setDecodeError ''truncated u32'' s)
      else (ucast (b ! off) OR push_bit 8 (ucast (b ! (off + 1))) OR push_bit 16 (ucast (b ! (off + 2)))
              OR push_bit 24 (ucast (b ! (off + 3))), off + 4, s))"

definition sym_readU64 :: "bytes \<Rightarrow> nat \<Rightarrow> sym_eval \<Rightarrow> u64 sym_read" where
  "sym_readU64 b off s =
     (if avail b off < 8 then (0, length b, setDecodeError ''truncated u64'' s)
      else (foldl (\<lambda>v i. v OR push_bit (i * 8) (ucast (b ! (off + i)))) 0 [0..<8], off + 8, s))"

definition readAddressSized :: "bytes \<Rightarrow> nat \<Rightarrow> u8 \<Rightarrow> sym_eval \<Rightarrow> u64 sym_read" where
  "readAddressSized b off address_size s =
     (if address_size = 4 then sym_readU32 b off s
      else if address_size = 8 then sym_readU64 b off s
      else (0, off, setDecodeError ''invalid address_size'' s))"

definition readOffsetSized :: "bytes \<Rightarrow> nat \<Rightarrow> u8 \<Rightarrow> sym_eval \<Rightarrow> u64 sym_read" where
  "readOffsetSized b off offset_size s =
     (if offset_size = 4 then sym_readU32 b off s
      else if offset_size = 8 then sym_readU64 b off s
      else (0, off, setDecodeError ''invalid offset_size'' s))"

function sym_uleb_loop :: "bytes \<Rightarrow> nat \<Rightarrow> sym_eval \<Rightarrow> u64 \<Rightarrow> nat \<Rightarrow> u64 sym_read" where
  "sym_uleb_loop b off s result shift =
     (if length b \<le> off then (result, off, setDecodeError ''truncated uleb128'' s)
      else
        let byte = b ! off
        in if 63 < shift \<or> (shift = 63 \<and> 1 < byte AND 0x7f)
           then (result, Suc off, setDecodeError ''uleb128 overflow'' s)
           else
             let result' = result OR push_bit shift (ucast (byte AND 0x7f))
             in if byte AND 0x80 = 0 then (result', Suc off, s) else sym_uleb_loop b (Suc off) s result' (shift + 7))"
  by pat_completeness auto
termination
  by (relation "measure (\<lambda>(b, off, s, r, sh). length b - off)") auto

declare sym_uleb_loop.simps [simp del]

definition readULEB :: "bytes \<Rightarrow> nat \<Rightarrow> sym_eval \<Rightarrow> u64 sym_read" where
  "readULEB b off s =
     (if length b \<le> off then (0, off, setDecodeError ''truncated uleb128'' s) else sym_uleb_loop b off s 0 0)"

function sym_sleb_loop ::
  "bytes \<Rightarrow> nat \<Rightarrow> sym_eval \<Rightarrow> u64 \<Rightarrow> nat \<Rightarrow> (u64 + u64 \<times> nat \<times> u8) sym_read" where
  "sym_sleb_loop b off s result shift =
     (if length b \<le> off then (Inl result, off, setDecodeError ''truncated sleb128'' s)
      else
        let byte = b ! off
        in if 63 < shift \<or> (shift = 63 \<and> byte AND 0x7f \<noteq> 0 \<and> byte AND 0x7f \<noteq> 0x7f)
           then (Inl result, Suc off, setDecodeError ''sleb128 overflow'' s)
           else
             let result' = result OR push_bit shift (ucast (byte AND 0x7f))
             in if byte AND 0x80 = 0 then (Inr (result', shift + 7, byte), Suc off, s)
                else sym_sleb_loop b (Suc off) s result' (shift + 7))"
  by pat_completeness auto
termination
  by (relation "measure (\<lambda>(b, off, s, r, sh). length b - off)") auto

declare sym_sleb_loop.simps [simp del]

definition readSLEB :: "bytes \<Rightarrow> nat \<Rightarrow> sym_eval \<Rightarrow> u64 sym_read" where
  "readSLEB b off s =
     (if length b \<le> off then (0, off, setDecodeError ''truncated sleb128'' s)
      else
        case sym_sleb_loop b off s 0 0 of
          (Inl result, off, s) \<Rightarrow> (result, off, s)
        | (Inr (result, shift, byte), off, s) \<Rightarrow>
            (if shift < 64 \<and> byte AND 0x40 \<noteq> 0 then result OR - push_bit shift 1 else result, off, s))"

definition decodeBytes :: "bytes \<Rightarrow> nat \<Rightarrow> u64 \<Rightarrow> sym_eval \<Rightarrow> bytes sym_read" where
  "decodeBytes b off len s =
     (let available = avail b off in
      if available < unat len
      then (take available (drop off b), off + available, setDecodeError ''truncated byte payload'' s)
      else (take (unat len) (drop off b), off + unat len, s))"

definition decodeAsU64ConstOrUnknown :: "bool \<Rightarrow> bytes \<Rightarrow> SymExpr" where
  "decodeAsU64ConstOrUnknown le bs =
     (if bs = [] then makeConst 0
      else if 8 < length bs then makeUnknown ''bytes>8''
      else makeConst (decodeU64FromBytes bs (length bs) le))"

definition decodeAsValueExprPreserveBytes :: "bool \<Rightarrow> bytes \<Rightarrow> SymExpr" where
  "decodeAsValueExprPreserveBytes le bs =
     (if length bs \<le> 8 then decodeAsU64ConstOrUnknown le bs else makeBytes bs)"

subsection \<open>Merging the results of two branches\<close>

definition merged_result ::
  "result_type \<Rightarrow> SymExpr \<Rightarrow> SymPiece list \<Rightarrow> SymbolicExpressionResult \<Rightarrow> SymbolicExpressionResult \<Rightarrow> SymbolicExpressionResult" where
  "merged_result t e ps taken fall =
     (let r = (sym_result t e)\<lparr>sr_pieces := ps, sr_uninitialized := sr_uninitialized taken \<or> sr_uninitialized fall\<rparr> in
      if sr_unsupported taken \<noteq> None \<and> sr_unsupported taken = sr_unsupported fall \<and> sr_vendor taken = sr_vendor fall
      then r\<lparr>sr_unsupported := sr_unsupported taken, sr_vendor := sr_vendor taken\<rparr>
      else r)"

text \<open>The lambda \<open>asRegisterValueExpr\<close>.\<close>

definition register_value :: "u64 list \<Rightarrow> SymExpr \<Rightarrow> SymExpr" where
  "register_value regs e = (case asConst e of None \<Rightarrow> makeUnknown ''reg?'' | Some n \<Rightarrow> register_term regs n)"

text \<open>The lambda \<open>asValueExpr\<close>; a null pointer when the result has no value.\<close>

definition result_value_term :: "u8 \<Rightarrow> u64 list \<Rightarrow> SymbolicExpressionResult \<Rightarrow> SymExpr" where
  "result_value_term address_size regs r =
     (if sr_expression r = null_expr then null_expr
      else case sr_type r of
        RT_VALUE \<Rightarrow> sr_expression r
      | RT_ADDRESS \<Rightarrow> makeLoad (sr_expression r) (ucast address_size)
      | RT_REGISTER \<Rightarrow> register_value regs (sr_expression r)
      | _ \<Rightarrow> null_expr)"

definition memory_piece_term :: "u8 \<Rightarrow> SymPiece \<Rightarrow> SymExpr" where
  "memory_piece_term address_size p =
     (let load_size =
            (if sp_byte_size p \<noteq> 0 then sp_byte_size p
             else if sp_bit_size p \<noteq> 0 then (sp_bit_offset p + sp_bit_size p + 7) div 8
             else ucast address_size);
          v = makeLoad (sp_location p) load_size;
          shifted = (if sp_bit_offset p \<noteq> 0 then makeBinary K_SHR v (makeConst (sp_bit_offset p)) else v)
      in if sp_bit_size p = 0 then v
         else if sp_bit_size p < 64 then makeBinary K_AND shifted (makeConst (push_bit (unat (sp_bit_size p)) 1 - 1))
         else shifted)"

text \<open>The lambda \<open>pieceAsValueExpr\<close>.\<close>

definition piece_value_term :: "bool \<Rightarrow> u8 \<Rightarrow> u64 list \<Rightarrow> SymPiece \<Rightarrow> SymExpr" where
  "piece_value_term le address_size regs p =
     (case sp_kind p of
        PIECE_MEMORY \<Rightarrow> if sp_location p = null_expr then null_expr else memory_piece_term address_size p
      | PIECE_REGISTER \<Rightarrow> if sp_location p = null_expr then null_expr else register_value regs (sp_location p)
      | PIECE_IMPLICIT \<Rightarrow>
          if sp_location p \<noteq> null_expr then sp_location p else decodeAsValueExprPreserveBytes le (sp_implicit p)
      | PIECE_EMPTY \<Rightarrow>
          if sp_bit_size p \<noteq> 0 then makeUnknown (''unavail_bit_piece'' @ dec_string (unat (sp_bit_size p)))
          else makeUnknown (''unavail_piece'' @ dec_string (unat (sp_byte_size p))))"

definition choose_value :: "SymExpr \<Rightarrow> SymExpr \<Rightarrow> SymExpr \<Rightarrow> SymPiece \<Rightarrow> SymPiece" where
  "choose_value c tv fv p =
     p\<lparr>sp_implicit := [], sp_location := (if symExprEquivalent tv fv then tv else makeITE c tv fv)\<rparr>"

text \<open>Two pieces with a location each: the same location, or a choice between the two values.\<close>

definition merge_located :: "SymExpr \<Rightarrow> SymExpr \<Rightarrow> SymExpr \<Rightarrow> SymPiece \<Rightarrow> SymPiece \<Rightarrow> string + SymPiece" where
  "merge_located c tv fv tp fp =
     (if sp_location tp = null_expr \<or> sp_location fp = null_expr then Inl ''symbolic bra composite missing location''
      else if symExprEquivalent (sp_location tp) (sp_location fp) then Inr tp
      else if tv = null_expr \<or> fv = null_expr then Inl ''symbolic bra composite kind mismatch''
      else Inr (tp\<lparr>sp_kind := PIECE_IMPLICIT, sp_implicit := [], sp_location := makeITE c tv fv\<rparr>))"

definition merge_implicit :: "bool \<Rightarrow> SymExpr \<Rightarrow> SymPiece \<Rightarrow> SymPiece \<Rightarrow> string + SymPiece" where
  "merge_implicit le c tp fp =
     (if sp_location tp = null_expr \<and> sp_location fp = null_expr \<and> sp_implicit tp = sp_implicit fp then Inr tp
      else
        let tv = (if sp_location tp \<noteq> null_expr then sp_location tp else decodeAsValueExprPreserveBytes le (sp_implicit tp));
            fv = (if sp_location fp \<noteq> null_expr then sp_location fp else decodeAsValueExprPreserveBytes le (sp_implicit fp))
        in if tv = null_expr \<or> fv = null_expr then Inl ''symbolic bra implicit piece missing value''
           else Inr (choose_value c tv fv tp))"

definition merge_piece ::
  "bool \<Rightarrow> SymExpr \<Rightarrow> u8 \<Rightarrow> u64 list \<Rightarrow> SymPiece \<Rightarrow> SymPiece \<Rightarrow> string + SymPiece" where
  "merge_piece le c address_size regs tp fp =
     (let tv = piece_value_term le address_size regs tp; fv = piece_value_term le address_size regs fp in
      if sp_byte_size tp \<noteq> sp_byte_size fp \<or> sp_bit_size tp \<noteq> sp_bit_size fp \<or> sp_bit_offset tp \<noteq> sp_bit_offset fp
      then Inl ''symbolic bra composite shape mismatch''
      else if sp_kind tp = sp_kind fp then
        (case sp_kind tp of
           PIECE_MEMORY \<Rightarrow> merge_located c tv fv tp fp
         | PIECE_REGISTER \<Rightarrow> merge_located c tv fv tp fp
         | PIECE_IMPLICIT \<Rightarrow> merge_implicit le c tp fp
         | PIECE_EMPTY \<Rightarrow> Inr (tp\<lparr>sp_location := null_expr\<rparr>))
      else if tv = null_expr \<or> fv = null_expr then Inl ''symbolic bra composite kind mismatch''
      else Inr ((choose_value c tv fv tp)\<lparr>sp_kind := PIECE_IMPLICIT\<rparr>))"

fun merge_pieces ::
  "bool \<Rightarrow> SymExpr \<Rightarrow> u8 \<Rightarrow> u64 list \<Rightarrow> SymPiece list \<Rightarrow> SymPiece list \<Rightarrow> string + SymPiece list" where
  "merge_pieces le c asz regs (tp # tps) (fp # fps) =
     (case merge_piece le c asz regs tp fp of
        Inl msg \<Rightarrow> Inl msg
      | Inr p \<Rightarrow> (case merge_pieces le c asz regs tps fps of Inl msg \<Rightarrow> Inl msg | Inr ps \<Rightarrow> Inr (p # ps)))"
| "merge_pieces le c asz regs _ _ = Inr []"

text \<open>The switch over the common type of the two results.\<close>

definition merge_same_type ::
  "bool \<Rightarrow> SymExpr \<Rightarrow> u8 \<Rightarrow> u64 list \<Rightarrow> SymbolicExpressionResult \<Rightarrow> SymbolicExpressionResult \<Rightarrow> SymbolicExpressionResult" where
  "merge_same_type le c asz regs taken fall =
     (let te = sr_expression taken; fe = sr_expression fall; missing = te = null_expr \<or> fe = null_expr in
      case sr_type taken of
        RT_ADDRESS \<Rightarrow>
          if missing then sym_invalid ''symbolic bra missing expression''
          else if \<not> symExprEquivalent te fe
          then merged_result RT_VALUE (makeITE c (makeLoad te (ucast asz)) (makeLoad fe (ucast asz))) [] taken fall
          else merged_result RT_ADDRESS te [] taken fall
      | RT_VALUE \<Rightarrow>
          if missing then sym_invalid ''symbolic bra missing expression''
          else merged_result RT_VALUE (makeITE c te fe) [] taken fall
      | RT_REGISTER \<Rightarrow>
          if missing then sym_invalid ''symbolic bra missing register expression''
          else if \<not> symExprEquivalent te fe
          then merged_result RT_VALUE (makeITE c (register_value regs te) (register_value regs fe)) [] taken fall
          else taken\<lparr>sr_uninitialized := sr_uninitialized taken \<or> sr_uninitialized fall\<rparr>
      | RT_COMPOSITE \<Rightarrow>
          if length (sr_pieces taken) \<noteq> length (sr_pieces fall) then sym_invalid ''symbolic bra composite size mismatch''
          else (case merge_pieces le c asz regs (sr_pieces taken) (sr_pieces fall) of
                  Inl msg \<Rightarrow> sym_invalid msg
                | Inr ps \<Rightarrow> merged_result RT_COMPOSITE null_expr ps taken fall)
      | RT_INVALID \<Rightarrow> taken)"

definition mergeBranchResults ::
  "bool \<Rightarrow> SymExpr \<Rightarrow> SymbolicExpressionResult \<Rightarrow> SymbolicExpressionResult \<Rightarrow> u8 \<Rightarrow> u64 list \<Rightarrow> SymbolicExpressionResult" where
  "mergeBranchResults le c taken fall asz regs =
     (if sr_type taken = RT_INVALID then taken
      else if sr_type fall = RT_INVALID then fall
      else if sr_type taken \<noteq> sr_type fall then
        (let tv = result_value_term asz regs taken; fv = result_value_term asz regs fall in
         if tv \<noteq> null_expr \<and> fv \<noteq> null_expr then merged_result RT_VALUE (makeITE c tv fv) [] taken fall
         else sym_invalid ''symbolic bra type mismatch'')
      else merge_same_type le c asz regs taken fall)"

end
