(* ===== verification/SymEval.thy ===== *)
theory SymEval
  imports SymState
begin

section \<open>The symbolic evaluator\<close>

text \<open>
  The operations of \<open>SymbolicExpressionEvaluator::evaluateFromOffset\<close>, its loop, and the nested
  evaluations: a branch on an unknown condition evaluates both continuations on copies of the
  evaluator and merges their results; a call runs the procedure on a copy and takes over its stack.
  The code limits calls to depth 8 and branches to depth 16, so that the recursion is bounded by
  what is left of the two.
\<close>

text \<open>An operation ends the evaluation or goes on.\<close>

datatype sym_next = Stop SymbolicExpressionResult sym_eval | Go nat sym_eval

text \<open>
  The recursive calls: the rest of the expression on a copy, a procedure on a copy, and a new
  evaluator (\<open>evaluate\<close>) with its register bank.
\<close>

record sym_nested =
  sn_branch :: "bytes \<Rightarrow> nat \<Rightarrow> sym_eval \<Rightarrow> SymbolicExpressionResult \<times> sym_eval"
  sn_call :: "bytes \<Rightarrow> sym_eval \<Rightarrow> SymbolicExpressionResult \<times> sym_eval"
  sn_fresh :: "bytes \<Rightarrow> sym_eval \<Rightarrow> u64 list \<Rightarrow> SymbolicExpressionResult"

type_synonym sym_handler = "sym_nested \<Rightarrow> bytes \<Rightarrow> nat \<Rightarrow> nat \<Rightarrow> sym_eval \<Rightarrow> sym_next"

subsection \<open>Errors\<close>

definition sym_stop :: "string \<Rightarrow> sym_eval \<Rightarrow> sym_next" where
  "sym_stop msg s = Stop (sym_invalid msg) s"

definition stackUnderflow :: "nat \<Rightarrow> nat \<Rightarrow> sym_eval \<Rightarrow> sym_next" where
  "stackUnderflow op_off need s =
     sym_stop (''stack underflow at '' @ dec_string op_off @ '' need '' @ dec_string need @ '' have ''
       @ dec_string (length (se_stack s))) s"

definition sym_need :: "nat \<Rightarrow> nat \<Rightarrow> sym_eval \<Rightarrow> sym_next \<Rightarrow> sym_next" where
  "sym_need op_off n s k = (if length (se_stack s) < n then stackUnderflow op_off n s else k)"

text \<open>\<open>if (hasDecodeError()) return decodeFailure();\<close>\<close>

definition sym_decoded :: "nat \<Rightarrow> sym_eval \<Rightarrow> sym_next \<Rightarrow> sym_next" where
  "sym_decoded op_off s k =
     (case decode_error s of Some msg \<Rightarrow> sym_stop (msg @ '' at '' @ dec_string op_off) s | None \<Rightarrow> k)"

definition address_size_ok :: "sym_eval \<Rightarrow> bool" where
  "address_size_ok s \<longleftrightarrow> ctx_address_size (se_ctx s) = 4 \<or> ctx_address_size (se_ctx s) = 8"

definition normalizeComputationKind :: "SymStackValueKind \<Rightarrow> SymExpr \<Rightarrow> SymStackValueKind" where
  "normalizeComputationKind k e =
     (if k = SK_REGISTER then SK_VALUE else if k = SK_ADDRESS \<and> isImmediateLike e then SK_VALUE else k)"

subsection \<open>Constants, registers, addresses\<close>

definition sym_const :: "SymStackValueKind \<Rightarrow> (bytes \<Rightarrow> nat \<Rightarrow> sym_eval \<Rightarrow> 'v sym_read) \<Rightarrow> ('v \<Rightarrow> u64) \<Rightarrow> sym_handler" where
  "sym_const k rd f nest e op_off off s =
     (case rd e off s of (v, off, s) \<Rightarrow> Go off (sym_push_as (makeConst (f v)) k s))"

definition sym_addr :: sym_handler where
  "sym_addr nest e op_off off s =
     sym_const SK_ADDRESS (\<lambda>e off s. readAddressSized e off (ctx_address_size (se_ctx s)) s) (\<lambda>v. v) nest e op_off off s"

definition sym_relative :: "SymExpr \<Rightarrow> u64 \<Rightarrow> sym_eval \<Rightarrow> sym_eval" where
  "sym_relative base disp s = sym_push_as (makeBinary K_ADD base (makeConst disp)) SK_ADDRESS s"

definition sym_breg :: "u8 \<Rightarrow> sym_handler" where
  "sym_breg opb nest e op_off off s =
     (case readSLEB e off s of (disp, off, s) \<Rightarrow>
        sym_decoded op_off s (Go off (sym_relative (regValueExpr s (ucast (opb - DW_OP_breg0))) disp s)))"

definition sym_regx :: sym_handler where
  "sym_regx nest e op_off off s =
     (case readULEB e off s of (reg, off, s) \<Rightarrow>
        sym_decoded op_off s (Go off (sym_push_as (makeConst reg) SK_REGISTER s)))"

definition sym_bregx :: sym_handler where
  "sym_bregx nest e op_off off s =
     (case readULEB e off s of (reg, off, s) \<Rightarrow> case readSLEB e off s of (disp, off, s) \<Rightarrow>
        sym_decoded op_off s (Go off (sym_relative (regValueExpr s reg) disp s)))"

definition sym_fbreg :: sym_handler where
  "sym_fbreg nest e op_off off s =
     (case readSLEB e off s of (disp, off, s) \<Rightarrow>
        sym_decoded op_off s (Go off (sym_relative (frameBaseExpr s) disp s)))"

definition sym_context :: "(sym_eval \<Rightarrow> SymExpr) \<Rightarrow> sym_handler" where
  "sym_context f nest e op_off off s = Go off (sym_push_as (f s) SK_ADDRESS s)"

definition sym_tls :: sym_handler where
  "sym_tls nest e op_off off s =
     sym_need op_off 1 s
       (case sym_operand s of (a, s) \<Rightarrow> Go off (sym_push_as (makeBinary K_ADD (tlsBaseExpr s) a) SK_ADDRESS s))"

definition sym_indexed :: "bool \<Rightarrow> sym_handler" where
  "sym_indexed is_addr nest e op_off off s =
     (case readULEB e off s of (idx, off, s) \<Rightarrow>
        sym_decoded op_off s
          (let k = (if is_addr then SK_ADDRESS else SK_VALUE);
               unresolved = makeUnknown ((if is_addr then ''addrx('' else ''constx('') @ dec_string (unat idx) @ '')'')
           in Go off (sym_push_as
                (case debug_addr_table (se_ctx s) of
                   Some tab \<Rightarrow> if unat idx < length tab then makeConst (tab ! unat idx) else unresolved
                 | None \<Rightarrow> unresolved) k s)))"

definition sym_wasm_location :: sym_handler where
  "sym_wasm_location nest e op_off off s =
     (if length e \<le> off then sym_stop ((case decode_error s of Some m \<Rightarrow> m | None \<Rightarrow> []) @ '' at '' @ dec_string op_off) s
      else case sym_readU8 e off s of (kind, off, s) \<Rightarrow>
        sym_decoded op_off s
          (case (if kind \<le> 2 then readULEB e off s else (0, off, s)) of (index, off, s) \<Rightarrow>
             sym_decoded op_off s
               (Go off (sym_push_as
                  (makeConst (push_bit 56 (ucast kind) OR (index AND 0x00ffffffffffffff))) SK_REGISTER s))))"

subsection \<open>Stack operations\<close>

definition sym_dup :: sym_handler where
  "sym_dup nest e op_off off s = sym_need op_off 1 s (Go off (sym_copy (hd (se_stack s)) s))"

definition sym_drop :: sym_handler where
  "sym_drop nest e op_off off s = sym_need op_off 1 s (Go off (snd (sym_pop s)))"

definition sym_over :: sym_handler where
  "sym_over nest e op_off off s = sym_need op_off 2 s (Go off (sym_copy (se_stack s ! 1) s))"

definition sym_pick :: sym_handler where
  "sym_pick nest e op_off off s =
     (case sym_readU8 e off s of (idx, off, s) \<Rightarrow>
        sym_decoded op_off s
          (if length (se_stack s) \<le> unat idx then stackUnderflow op_off (unat idx + 1) s
           else Go off (sym_copy (se_stack s ! unat idx) s)))"

definition sym_swap :: sym_handler where
  "sym_swap nest e op_off off s =
     sym_need op_off 2 s
       (case se_stack s of x # y # r \<Rightarrow> Go off (s\<lparr>se_stack := y # x # r\<rparr>) | _ \<Rightarrow> Go off s)"

text \<open>The third entry becomes the top.\<close>

definition sym_rot :: sym_handler where
  "sym_rot nest e op_off off s =
     sym_need op_off 3 s
       (case se_stack s of c # b # a # r \<Rightarrow> Go off (s\<lparr>se_stack := a # c # b # r\<rparr>) | _ \<Rightarrow> Go off s)"

subsection \<open>Arithmetic\<close>

definition sym_unop :: "sym_kind \<Rightarrow> sym_handler" where
  "sym_unop k nest e op_off off s =
     sym_need op_off 1 s (case sym_operand s of (a, s) \<Rightarrow> Go off (sym_push_as (makeUnary k a) SK_VALUE s))"

definition sym_binop :: "sym_kind \<Rightarrow> sym_handler" where
  "sym_binop k nest e op_off off s =
     sym_need op_off 2 s
       (case sym_operand s of (b, s) \<Rightarrow> case sym_operand s of (a, s) \<Rightarrow>
          Go off (sym_push_as (makeBinary k a b) SK_VALUE s))"

text \<open>\<open>DW_OP_plus\<close> and \<open>DW_OP_minus\<close> keep track of what is an address.\<close>

definition sum_kind :: "SymStackValueKind \<Rightarrow> SymStackValueKind \<Rightarrow> SymStackValueKind" where
  "sum_kind a b =
     (if a = SK_ADDRESS \<and> b = SK_VALUE \<or> a = SK_VALUE \<and> b = SK_ADDRESS \<or> a = SK_ADDRESS \<and> b = SK_ADDRESS
      then SK_ADDRESS else SK_VALUE)"

definition difference_kind :: "SymStackValueKind \<Rightarrow> SymStackValueKind \<Rightarrow> SymStackValueKind" where
  "difference_kind a b = (if a = SK_ADDRESS \<and> b = SK_VALUE then SK_ADDRESS else SK_VALUE)"

definition sym_address_binop ::
  "sym_kind \<Rightarrow> (SymStackValueKind \<Rightarrow> SymStackValueKind \<Rightarrow> SymStackValueKind) \<Rightarrow> sym_handler" where
  "sym_address_binop k result_kind nest e op_off off s =
     sym_need op_off 2 s
       (let kb = topKind s in case sym_pop s of (b_raw, s) \<Rightarrow>
        let ka = topKind s in case sym_pop s of (a_raw, s) \<Rightarrow>
        let b = materializeForComputation s b_raw kb; a = materializeForComputation s a_raw ka
        in Go off (sym_push_as (makeBinary k a b)
             (result_kind (normalizeComputationKind ka a_raw) (normalizeComputationKind kb b_raw)) s))"

definition sym_plus_uconst :: sym_handler where
  "sym_plus_uconst nest e op_off off s =
     (case readULEB e off s of (u, off, s) \<Rightarrow>
        sym_decoded op_off s (sym_need op_off 1 s
          (let ka = topKind s in case sym_pop s of (a_raw, s) \<Rightarrow>
           let k = (if normalizeComputationKind ka a_raw = SK_ADDRESS then SK_ADDRESS else SK_VALUE)
           in Go off (sym_push_as (makeBinary K_ADD (materializeForComputation s a_raw ka) (makeConst u)) k s))))"

subsection \<open>Memory\<close>

definition sym_deref :: sym_handler where
  "sym_deref nest e op_off off s =
     sym_need op_off 1 s
       (if \<not> address_size_ok s then sym_stop ''invalid address_size'' s
        else case sym_operand s of (addr, s) \<Rightarrow>
          Go off (sym_push_as (makeLoad addr (ucast (ctx_address_size (se_ctx s)))) SK_VALUE s))"

definition sym_xderef :: sym_handler where
  "sym_xderef nest e op_off off s =
     sym_need op_off 2 s
       (if \<not> address_size_ok s then sym_stop ''invalid address_size'' s
        else case sym_operand s of (addr, s) \<Rightarrow>
          Go off (sym_push_as (makeLoad addr (ucast (ctx_address_size (se_ctx s)))) SK_VALUE (snd (sym_pop s))))"

definition sym_deref_size :: sym_handler where
  "sym_deref_size nest e op_off off s =
     (case sym_readU8 e off s of (sz, off, s) \<Rightarrow>
        sym_decoded op_off s (sym_need op_off 1 s
          (case sym_operand s of (addr, s) \<Rightarrow> Go off (sym_push_as (makeLoad addr (ucast sz)) SK_VALUE s))))"

definition sym_xderef_size :: sym_handler where
  "sym_xderef_size nest e op_off off s =
     (case sym_readU8 e off s of (sz, off, s) \<Rightarrow>
        sym_decoded op_off s (sym_need op_off 2 s
          (case sym_operand s of (addr, s) \<Rightarrow>
             Go off (sym_push_as (makeLoad addr (ucast sz)) SK_VALUE (snd (sym_pop s))))))"

subsection \<open>Typed operations\<close>

text \<open>The base type an operand names, if it is known and has at most eight bytes.\<close>

definition sym_base_type :: "u64 \<Rightarrow> sym_eval \<Rightarrow> BaseTypeInfo option" where
  "sym_base_type type_offset s =
     (if type_offset = 0 then None
      else case resolve_base_type (se_ctx s) of
        None \<Rightarrow> None
      | Some f \<Rightarrow>
          (case f (cu_base_offset (se_ctx s) + type_offset) of
             None \<Rightarrow> None
           | Some ti \<Rightarrow> if 0 < bt_byte_size ti \<and> bt_byte_size ti \<le> 8 then Some ti else None))"

definition sym_cast :: "bool \<Rightarrow> u64 \<Rightarrow> sym_eval \<Rightarrow> SymExpr \<Rightarrow> SymExpr" where
  "sym_cast le type_offset s v =
     (case sym_base_type type_offset s of
        None \<Rightarrow> v
      | Some ti \<Rightarrow>
          if bt_is_integer ti \<and> bt_is_signed ti then makeSExt le v (word_of_nat (bt_byte_size ti))
          else makeMask le v (word_of_nat (bt_byte_size ti)))"

definition sym_const_type :: "bool \<Rightarrow> sym_handler" where
  "sym_const_type le nest e op_off off s =
     (case readULEB e off s of (type_offset, off, s) \<Rightarrow> case sym_readU8 e off s of (sz, off, s) \<Rightarrow>
        sym_decoded op_off s
          (if avail e off < unat sz then sym_stop ''truncated const_type'' s
           else case decodeBytes e off (ucast sz) s of (bs, off, s) \<Rightarrow>
             Go off (pushWithImplicitBytes (sym_cast le type_offset s (decodeAsValueExprPreserveBytes le bs)) bs SK_VALUE s)))"

definition sym_regval_type :: "bool \<Rightarrow> sym_handler" where
  "sym_regval_type le nest e op_off off s =
     (case readULEB e off s of (reg, off, s) \<Rightarrow> case readULEB e off s of (type_offset, off, s) \<Rightarrow>
        sym_decoded op_off s
          (Go off (sym_push_as (sym_cast le type_offset s (regValueExpr s reg)) SK_VALUE s)))"

definition sym_deref_type :: "bool \<Rightarrow> sym_handler" where
  "sym_deref_type le nest e op_off off s =
     (case sym_readU8 e off s of (sz, off, s) \<Rightarrow> case readULEB e off s of (type_offset, off, s) \<Rightarrow>
        sym_decoded op_off s (sym_need op_off 1 s
          (case sym_operand s of (addr, s) \<Rightarrow>
             Go off (sym_push_as (sym_cast le type_offset s (makeLoad addr (ucast sz))) SK_VALUE s))))"

definition sym_xderef_type :: "bool \<Rightarrow> sym_handler" where
  "sym_xderef_type le nest e op_off off s =
     (case sym_readU8 e off s of (sz, off, s) \<Rightarrow> case readULEB e off s of (type_offset, off, s) \<Rightarrow>
        sym_decoded op_off s (sym_need op_off 2 s
          (case sym_operand s of (addr, s) \<Rightarrow>
           let s = snd (sym_pop s)
           in Go off (sym_push_as (sym_cast le type_offset s (makeLoad addr (ucast sz))) SK_VALUE s))))"

definition sym_convert :: "bool \<Rightarrow> sym_handler" where
  "sym_convert le nest e op_off off s =
     (case readULEB e off s of (type_offset, off, s) \<Rightarrow>
        sym_decoded op_off s (sym_need op_off 1 s
          (case sym_operand s of (v, s) \<Rightarrow> Go off (sym_push_as (sym_cast le type_offset s v) SK_VALUE s))))"

definition sym_reinterpret :: "bool \<Rightarrow> sym_handler" where
  "sym_reinterpret le nest e op_off off s =
     (case readULEB e off s of (type_offset, off, s) \<Rightarrow>
        sym_decoded op_off s (sym_need op_off 1 s
          (case sym_operand s of (v, s) \<Rightarrow>
             Go off (sym_push_as
               (case sym_base_type type_offset s of
                  None \<Rightarrow> v | Some ti \<Rightarrow> makeMask le v (word_of_nat (bt_byte_size ti))) SK_VALUE s))))"

end
