(* ===== verification/SymFlow.thy ===== *)
theory SymFlow
  imports SymEval
begin

section \<open>The symbolic evaluator: control flow, nested expressions, results\<close>

text \<open>
  Jumps, branches, calls, entry values and pieces; the dispatch of \<open>evaluateFromOffset\<close>, its loop,
  \<open>evaluate\<close>, and the levels of nested evaluation. \<open>call_depth_\<close> stays below 8 and
  \<open>branch_depth_\<close> below 16, so that \<open>sym_level\<close> recurs on what is left of the two; its first argument
  stands for calls beyond the limits, which the code refuses.
\<close>

subsection \<open>Jumps and branches\<close>

definition kMaxBranchDepth :: nat where
  "kMaxBranchDepth = 16"

definition kMaxDepth :: nat where
  "kMaxDepth = 8"

definition sym_target :: "bytes \<Rightarrow> nat \<Rightarrow> u64 \<Rightarrow> nat option" where
  "sym_target e off rel =
     (let next = int off + sint (ucast rel :: u16)
      in if next < 0 \<or> int (length e) < next then None else Some (nat next))"

definition sym_skip :: sym_handler where
  "sym_skip nest e op_off off s =
     (case sym_readU16 e off s of (rel, off, s) \<Rightarrow>
        sym_decoded op_off s
          (case sym_target e off rel of None \<Rightarrow> sym_stop ''skip out of range'' s | Some next \<Rightarrow> Go next s))"

text \<open>A branch on an unknown condition.\<close>

definition sym_fork :: "bool \<Rightarrow> sym_nested \<Rightarrow> bytes \<Rightarrow> nat \<Rightarrow> u64 \<Rightarrow> SymExpr \<Rightarrow> sym_eval \<Rightarrow> sym_next" where
  "sym_fork le nest e off rel cond s =
     (if kMaxBranchDepth \<le> se_branch_depth s then sym_stop ''symbolic bra depth limit'' s
      else
        case sym_target e off rel of
          None \<Rightarrow> sym_stop ''bra out of range'' s
        | Some next \<Rightarrow>
            let copy = s\<lparr>se_branch_depth := se_branch_depth s + 1\<rparr>;
                rf = fst (sn_branch nest e off copy);
                rt = fst (sn_branch nest e next copy)
            in Stop (mergeBranchResults le cond rt rf (ctx_address_size (se_ctx s)) (se_regs s)) s)"

definition sym_bra :: "bool \<Rightarrow> sym_handler" where
  "sym_bra le nest e op_off off s =
     (case sym_readU16 e off s of (rel, off, s) \<Rightarrow>
        sym_decoded op_off s (sym_need op_off 1 s
          (case sym_operand s of (cond, s) \<Rightarrow>
             (case asConst cond of
                None \<Rightarrow> sym_fork le nest e off rel cond s
              | Some c \<Rightarrow>
                  if c = 0 then Go off s
                  else (case sym_target e off rel of
                          None \<Rightarrow> sym_stop ''bra out of range'' s | Some next \<Rightarrow> Go next s)))))"

subsection \<open>Procedures\<close>

definition sym_subexpr :: "sym_eval \<Rightarrow> u64 \<Rightarrow> bytes option" where
  "sym_subexpr s a = (case resolve_dwarf_procedure (se_ctx s) of None \<Rightarrow> None | Some f \<Rightarrow> f a (se_pc s))"

definition executeProcedureSubexprInPlace :: "sym_nested \<Rightarrow> bytes \<Rightarrow> sym_eval \<Rightarrow> bool \<times> sym_eval" where
  "executeProcedureSubexprInPlace nest subexpr s =
     (case sn_call nest subexpr s of (r, sub) \<Rightarrow>
        if sr_type r = RT_INVALID \<and> sr_error r \<noteq> ''empty stack'' then (False, s)
        else (True, s\<lparr>se_stack := se_stack sub,
                      se_pieces := (if sr_type r = RT_COMPOSITE then sr_pieces r else se_pieces sub),
                      se_taint := se_taint sub\<rparr>))"

definition sym_call_at :: "string \<Rightarrow> u64 \<Rightarrow> sym_nested \<Rightarrow> nat \<Rightarrow> sym_eval \<Rightarrow> sym_next" where
  "sym_call_at name a nest off s =
     (case sym_subexpr s a of
        None \<Rightarrow> Go off s
      | Some sub \<Rightarrow>
          if kMaxDepth \<le> se_call_depth s then sym_stop ''call depth limit'' s
          else
            case executeProcedureSubexprInPlace nest sub (s\<lparr>se_call_depth := se_call_depth s + 1\<rparr>) of (ok, s) \<Rightarrow>
            let s = s\<lparr>se_call_depth := se_call_depth s - 1\<rparr>
            in if ok then Go off s else sym_stop (name @ '' subexpression failed'') s)"

definition sym_call2 :: sym_handler where
  "sym_call2 nest e op_off off s =
     (case sym_readU16 e off s of (die_offset, off, s) \<Rightarrow>
        sym_decoded op_off s (sym_call_at ''DW_OP_call2'' (cu_base_offset (se_ctx s) + die_offset) nest off s))"

definition sym_call4 :: sym_handler where
  "sym_call4 nest e op_off off s =
     (case sym_readU32 e off s of (die_offset, off, s) \<Rightarrow>
        sym_decoded op_off s (sym_call_at ''DW_OP_call4'' (cu_base_offset (se_ctx s) + die_offset) nest off s))"

text \<open>The address of a reference into the section: \<open>dwarfSectionOffsetBias(cu) + readOffsetSized(..)\<close>.\<close>

definition sym_section_ref :: "bytes \<Rightarrow> nat \<Rightarrow> sym_eval \<Rightarrow> u64 sym_read" where
  "sym_section_ref e off s =
     (case readOffsetSized e off (ctx_offset_size (se_ctx s)) s of (v, off, s) \<Rightarrow>
        (dwarfSectionOffsetBias (cu_base_offset (se_ctx s)) + v, off, s))"

definition sym_call_ref :: sym_handler where
  "sym_call_ref nest e op_off off s =
     (case sym_section_ref e off s of (a, off, s) \<Rightarrow>
        sym_decoded op_off s (sym_call_at ''DW_OP_call_ref'' a nest off s))"

subsection \<open>Values of nested expressions\<close>

definition sym_materializeResultAsValue ::
  "sym_eval \<Rightarrow> SymbolicExpressionResult \<Rightarrow> u64 list \<Rightarrow> string \<Rightarrow> SymbolicExpressionResult" where
  "sym_materializeResultAsValue s r bank op_name =
     (let marked = (\<lambda>out. out\<lparr>sr_uninitialized := sr_uninitialized r, sr_unsupported := sr_unsupported r,
                             sr_vendor := sr_vendor r\<rparr>);
          out = (\<lambda>e. marked (sym_result RT_VALUE e));
          err = (\<lambda>msg. marked (sym_invalid (op_name @ msg)))
      in case sr_type r of
           RT_VALUE \<Rightarrow>
             out (if sr_expression r \<noteq> null_expr then sr_expression r else makeUnknown (op_name @ ''(empty)''))
         | RT_REGISTER \<Rightarrow>
             if sr_expression r = null_expr then err '' register missing''
             else (case asConst (sr_expression r) of
                     None \<Rightarrow> err '' non-const regnum''
                   | Some n \<Rightarrow>
                       if bank \<noteq> [] \<and> unat n < length bank then out (makeConst (bank ! unat n))
                       else if op_name = ''entry_value'' then out (makeVar (''entry_reg'' @ dec_string (unat n)))
                       else out (makeVar (''reg'' @ dec_string (unat n))))
         | RT_ADDRESS \<Rightarrow>
             if \<not> address_size_ok s then err '' invalid address_size''
             else out (makeLoad
                    (if sr_expression r \<noteq> null_expr then sr_expression r else makeUnknown (op_name @ ''_addr''))
                    (ucast (ctx_address_size (se_ctx s))))
         | _ \<Rightarrow> err '' unsupported result'')"

text \<open>\<open>s\<close> has the call depth of the new evaluator.\<close>

definition evalEntryValueSubexpr :: "sym_nested \<Rightarrow> bytes \<Rightarrow> sym_eval \<Rightarrow> SymbolicExpressionResult" where
  "evalEntryValueSubexpr nest subexpr s =
     (let regs = (if entry_registers (se_ctx s) = [] then se_regs s else entry_registers (se_ctx s))
      in sym_materializeResultAsValue s (sn_fresh nest subexpr s regs) (entry_registers (se_ctx s)) ''entry_value'')"

definition sym_entry_value :: sym_handler where
  "sym_entry_value nest e op_off off s =
     (if kMaxDepth \<le> se_call_depth s then sym_stop ''entry_value depth limit'' s
      else case readULEB e off s of (len, off, s) \<Rightarrow>
        sym_decoded op_off s
          (if avail e off < unat len then sym_stop ''truncated entry_value'' s
           else
             let sub = take (unat len) (drop off e);
                 sr = evalEntryValueSubexpr nest sub (s\<lparr>se_call_depth := se_call_depth s + 1\<rparr>)
             in if sr_type sr = RT_INVALID then Stop sr s
                else Go (off + unat len)
                       (sym_push_as (if sr_expression sr \<noteq> null_expr then sr_expression sr
                                     else makeUnknown ''entry_value'') SK_VALUE s)))"

definition implicit_pointer_base :: "sym_eval \<Rightarrow> SymbolicExpressionResult \<Rightarrow> SymExpr" where
  "implicit_pointer_base s sr =
     (if (sr_type sr = RT_ADDRESS \<or> sr_type sr = RT_VALUE) \<and> sr_expression sr \<noteq> null_expr then sr_expression sr
      else if sr_type sr = RT_REGISTER \<and> sr_expression sr \<noteq> null_expr then
        (case asConst (sr_expression sr) of
           Some r \<Rightarrow> regValueExpr s r
         | None \<Rightarrow> makeUnknown ''implicit_pointer(reg?)'')
      else makeUnknown ''implicit_pointer(unsupported)'')"

definition sym_implicit_pointer :: sym_handler where
  "sym_implicit_pointer nest e op_off off s =
     (case sym_section_ref e off s of (die_ref, off, s) \<Rightarrow> case readSLEB e off s of (disp, off, s) \<Rightarrow>
        sym_decoded op_off s
          (let finish = (\<lambda>base s. Go off (sym_push_as (makeBinary K_ADD base (makeConst disp)) SK_VALUE s))
           in if resolve_dwarf_procedure (se_ctx s) = None
              then finish (makeUnknown ''implicit_pointer(no_resolver)'') s
              else case sym_subexpr s die_ref of
                None \<Rightarrow> finish (makeUnknown ''implicit_pointer(no_proc)'') s
              | Some sub \<Rightarrow>
                  if kMaxDepth \<le> se_call_depth s then sym_stop ''implicit_pointer depth limit'' s
                  else
                    let sr = sn_fresh nest sub (s\<lparr>se_call_depth := se_call_depth s + 1\<rparr>) (se_regs s)
                    in finish (implicit_pointer_base s sr) (s\<lparr>se_taint := se_taint s \<or> sr_uninitialized sr\<rparr>)))"

definition sym_parameter_ref :: sym_handler where
  "sym_parameter_ref nest e op_off off s =
     (case sym_section_ref e off s of (a, off, s) \<Rightarrow>
        sym_decoded op_off s
          (if resolve_dwarf_procedure (se_ctx s) = None
           then Go off (sym_push_as (makeUnknown ''gnu_parameter_ref(no_resolver)'') SK_VALUE s)
           else case sym_subexpr s a of
             None \<Rightarrow> Go off (sym_push_as (makeUnknown ''gnu_parameter_ref(no_proc)'') SK_VALUE s)
           | Some sub \<Rightarrow>
               if kMaxDepth \<le> se_call_depth s then sym_stop ''gnu_parameter_ref depth limit'' s
               else
                 let sr = sn_fresh nest sub (s\<lparr>se_call_depth := se_call_depth s + 1\<rparr>) (se_regs s);
                     s = s\<lparr>se_taint := se_taint s \<or> sr_uninitialized sr\<rparr>;
                     m = sym_materializeResultAsValue s sr (se_regs s) ''gnu_parameter_ref''
                 in if sr_type m = RT_INVALID then Stop m s
                    else Go off (sym_push_as (if sr_expression m \<noteq> null_expr then sr_expression m
                                              else makeUnknown ''gnu_parameter_ref(empty)'') SK_VALUE s)))"

subsection \<open>Values and pieces\<close>

definition sym_stack_value :: sym_handler where
  "sym_stack_value nest e op_off off s =
     sym_need op_off 1 s
       (if topKind s = SK_REGISTER then
          (case sym_pop s of (loc, s) \<Rightarrow>
             Go off (sym_push_as
               (case asConst loc of Some r \<Rightarrow> regValueExpr s r | None \<Rightarrow> makeUnknown ''stack_value(reg?)'') SK_VALUE s))
        else Go off (setTopKind SK_VALUE s))"

definition sym_implicit_value :: "bool \<Rightarrow> sym_handler" where
  "sym_implicit_value le nest e op_off off s =
     (case readULEB e off s of (len, off, s) \<Rightarrow>
        sym_decoded op_off s
          (case decodeBytes e off len s of (bs, off, s) \<Rightarrow>
             Go off (pushWithImplicitBytes (decodeAsValueExprPreserveBytes le bs) bs SK_VALUE s)))"

definition sym_take_piece :: "u64 \<Rightarrow> u64 \<Rightarrow> u64 \<Rightarrow> sym_eval \<Rightarrow> sym_eval" where
  "sym_take_piece byte_size bit_size bit_off s =
     (let piece = (\<lambda>k loc bs. \<lparr>sp_kind = k, sp_location = loc, sp_byte_size = byte_size, sp_bit_size = bit_size,
                              sp_bit_offset = bit_off, sp_implicit = bs\<rparr>);
          add = (\<lambda>p s. s\<lparr>se_pieces := se_pieces s @ [p]\<rparr>)
      in if se_stack s = [] then add (piece PIECE_EMPTY null_expr []) s
         else case sym_pop s of (loc, s') \<Rightarrow>
           (case topImplicitBytes s of
              Some bs \<Rightarrow> add (piece PIECE_IMPLICIT null_expr bs) s'
            | None \<Rightarrow>
                add (piece (case topKind s of
                              SK_REGISTER \<Rightarrow> PIECE_REGISTER | SK_VALUE \<Rightarrow> PIECE_IMPLICIT | SK_ADDRESS \<Rightarrow> PIECE_MEMORY)
                       loc []) s'))"

definition sym_piece :: sym_handler where
  "sym_piece nest e op_off off s =
     (case readULEB e off s of (n, off, s) \<Rightarrow> sym_decoded op_off s (Go off (sym_take_piece n 0 0 s)))"

definition sym_bit_piece :: sym_handler where
  "sym_bit_piece nest e op_off off s =
     (case readULEB e off s of (bit_size, off, s) \<Rightarrow> case readULEB e off s of (bit_off, off, s) \<Rightarrow>
        sym_decoded op_off s (Go off (sym_take_piece 0 bit_size bit_off s)))"

definition sym_uninit :: sym_handler where
  "sym_uninit nest e op_off off s = Go off (s\<lparr>se_taint := True\<rparr>)"

definition sym_nop :: sym_handler where
  "sym_nop nest e op_off off s = Go off s"

subsection \<open>Encoded addresses\<close>

definition sym_read_encoded :: "u8 \<Rightarrow> bytes \<Rightarrow> nat \<Rightarrow> sym_eval \<Rightarrow> u64 sym_read option" where
  "sym_read_encoded fmt e off s =
     (if fmt = 0x00 then Some (readAddressSized e off (ctx_address_size (se_ctx s)) s)
      else if fmt = 0x01 then Some (readULEB e off s)
      else if fmt = 0x02 then Some (sym_readU16 e off s)
      else if fmt = 0x03 then Some (sym_readU32 e off s)
      else if fmt = 0x04 then Some (sym_readU64 e off s)
      else if fmt = 0x09 then Some (readSLEB e off s)
      else if fmt = 0x0a then Some (case sym_readU16 e off s of (v, off, s) \<Rightarrow> (scast (ucast v :: u16), off, s))
      else if fmt = 0x0b then Some (case sym_readU32 e off s of (v, off, s) \<Rightarrow> (scast (ucast v :: u32), off, s))
      else if fmt = 0x0c then Some (sym_readU64 e off s)
      else None)"

definition sym_apply_mode :: "u8 \<Rightarrow> SymExpr \<Rightarrow> sym_eval \<Rightarrow> SymExpr option" where
  "sym_apply_mode app raw s =
     (let relative = (\<lambda>base. Some (makeBinary K_ADD (makeConst base) raw)) in
      if app = 0x00 then Some raw
      else if app = 0x10 then relative (se_pc s)
      else if app = 0x20 then relative (text_base (se_ctx s))
      else if app = 0x30 then relative (data_base (se_ctx s))
      else if app = 0x40 then relative (function_base (se_ctx s))
      else if app = 0x50 then Some raw
      else None)"

definition sym_encoded_addr :: sym_handler where
  "sym_encoded_addr nest e op_off off s =
     (if avail e off < 1 then sym_stop ''truncated gnu_encoded_addr'' s
      else case sym_readU8 e off s of (encoding, off, s) \<Rightarrow>
        let aligned = encoding AND 0x70 = 0x50 in
        if aligned \<and> \<not> address_size_ok s then sym_stop ''invalid address_size'' s
        else
          let off = (if aligned then alignOffsetUp off (unat (ctx_address_size (se_ctx s))) else off) in
          case sym_read_encoded (encoding AND 0x0f) e off s of
            None \<Rightarrow> sym_stop ''DW_OP_GNU_encoded_addr unsupported encoding format'' s
          | Some (raw, off, s) \<Rightarrow>
              (case sym_apply_mode (encoding AND 0x70) (makeConst raw) s of
                 None \<Rightarrow> sym_stop ''DW_OP_GNU_encoded_addr unsupported application mode'' s
               | Some addr \<Rightarrow>
                   if encoding AND 0x80 \<noteq> 0 then
                     if \<not> address_size_ok s then sym_stop ''invalid address_size'' s
                     else Go off (sym_push_as (makeLoad addr (ucast (ctx_address_size (se_ctx s)))) SK_VALUE s)
                   else Go off (sym_push_as addr SK_ADDRESS s)))"

subsection \<open>Vendor operations and unknown ones\<close>

definition sym_vendor_constu :: sym_handler where
  "sym_vendor_constu = sym_const SK_VALUE readULEB (\<lambda>v. v)"

definition sym_vendor_plus_uconst :: sym_handler where
  "sym_vendor_plus_uconst nest e op_off off s =
     (case readULEB e off s of (u, off, s) \<Rightarrow>
        (case decode_error s of
           Some msg \<Rightarrow> sym_stop msg s
         | None \<Rightarrow>
             if se_stack s = [] then sym_stop ''stack underflow in vendor synthetic plus_uconst'' s
             else
               let kind = topKind s in case sym_operand s of (v, s) \<Rightarrow>
               Go off (sym_push_as (makeBinary K_ADD v (makeConst u))
                         (if kind = SK_ADDRESS then SK_ADDRESS else SK_VALUE) s)))"

definition sym_vendor_deref_size :: sym_handler where
  "sym_vendor_deref_size nest e op_off off s =
     (if length e \<le> off then sym_stop ''truncated vendor synthetic deref_size'' s
      else case sym_readU8 e off s of (sz, off, s) \<Rightarrow>
        (case decode_error s of
           Some msg \<Rightarrow> sym_stop msg s
         | None \<Rightarrow>
             if se_stack s = [] then sym_stop ''stack underflow in vendor synthetic deref_size'' s
             else case sym_operand s of (addr, s) \<Rightarrow>
               Go off (sym_push_as (makeLoad addr (ucast sz)) SK_VALUE s)))"

definition sym_handleVendorProfileOpcode :: "u8 \<Rightarrow> sym_eval \<Rightarrow> sym_handler option" where
  "sym_handleVendorProfileOpcode opcode s =
     (if vendor_expression_profile (se_ctx s) \<noteq> SYNTHETIC_V1 then None
      else if opcode = 0xf9 then Some sym_vendor_constu
      else if opcode = 0xfd then Some sym_vendor_plus_uconst
      else if opcode = 0xfe then Some sym_vendor_deref_size
      else None)"

definition sym_unsupportedOpMessage :: "u8 \<Rightarrow> nat \<Rightarrow> string" where
  "sym_unsupportedOpMessage opcode off =
     ''unsupported op '' @ operationToString opcode @ '' (opcode 0x'' @ hex_string False (unat opcode) @ '')''
     @ (if 0xe0 \<le> opcode then '' [vendor/extension opcode]'' else []) @ '' at '' @ dec_string off"

definition sym_unsupported :: "u8 \<Rightarrow> nat \<Rightarrow> sym_eval \<Rightarrow> SymbolicExpressionResult" where
  "sym_unsupported op op_off s =
     (sym_invalid
       (case vendorProfileOpcodeName (vendor_expression_profile (se_ctx s)) op of
          Some name \<Rightarrow> ''unsupported op '' @ name @ '' (opcode 0x'' @ hex_string False (unat op) @ '') at ''
                         @ dec_string op_off
        | None \<Rightarrow> sym_unsupportedOpMessage op op_off))
       \<lparr>sr_uninitialized := se_taint s, sr_unsupported := Some op, sr_vendor := 0xe0 \<le> op\<rparr>"

definition sym_default :: "u8 \<Rightarrow> sym_handler" where
  "sym_default op nest e op_off off s =
     (case sym_handleVendorProfileOpcode op s of
        Some h \<Rightarrow>
          (case h nest e op_off off s of
             Stop r s \<Rightarrow> Stop (r\<lparr>sr_uninitialized := sr_uninitialized r \<or> se_taint s\<rparr>) s
           | Go off s \<Rightarrow> Go off s)
      | None \<Rightarrow> Stop (sym_unsupported op op_off s) s)"

subsection \<open>Dispatch\<close>

definition sym_handlers :: "bool \<Rightarrow> (u8 \<times> sym_handler) list" where
  "sym_handlers le = [
     (DW_OP_skip, sym_skip),
     (DW_OP_bra, sym_bra le),
     (DW_OP_addr, sym_addr),
     (DW_OP_const1u, sym_const SK_VALUE sym_readU8 ucast),
     (DW_OP_const2u, sym_const SK_VALUE sym_readU16 (\<lambda>v. v)),
     (DW_OP_const4u, sym_const SK_VALUE sym_readU32 (\<lambda>v. v)),
     (DW_OP_const8u, sym_const SK_VALUE sym_readU64 (\<lambda>v. v)),
     (DW_OP_const1s, sym_const SK_VALUE sym_readU8 scast),
     (DW_OP_const2s, sym_const SK_VALUE sym_readU16 (\<lambda>v. scast (ucast v :: u16))),
     (DW_OP_const4s, sym_const SK_VALUE sym_readU32 (\<lambda>v. scast (ucast v :: u32))),
     (DW_OP_const8s, sym_const SK_VALUE sym_readU64 (\<lambda>v. v)),
     (DW_OP_constu, sym_const SK_VALUE readULEB (\<lambda>v. v)),
     (DW_OP_consts, sym_const SK_VALUE readSLEB (\<lambda>v. v)),
     (DW_OP_dup, sym_dup),
     (DW_OP_drop, sym_drop),
     (DW_OP_over, sym_over),
     (DW_OP_pick, sym_pick),
     (DW_OP_swap, sym_swap),
     (DW_OP_rot, sym_rot),
     (DW_OP_abs, sym_unop K_ABS),
     (DW_OP_neg, sym_unop K_NEG),
     (DW_OP_not, sym_unop K_NOT),
     (DW_OP_plus, sym_address_binop K_ADD sum_kind),
     (DW_OP_minus, sym_address_binop K_SUB difference_kind),
     (DW_OP_mul, sym_binop K_MUL),
     (DW_OP_div, sym_binop K_DIV),
     (DW_OP_mod, sym_binop K_MOD),
     (DW_OP_and, sym_binop K_AND),
     (DW_OP_or, sym_binop K_OR),
     (DW_OP_xor, sym_binop K_XOR),
     (DW_OP_shl, sym_binop K_SHL),
     (DW_OP_shr, sym_binop K_SHR),
     (DW_OP_shra, sym_binop K_SHRA),
     (DW_OP_plus_uconst, sym_plus_uconst),
     (DW_OP_eq, sym_binop K_EQ),
     (DW_OP_ne, sym_binop K_NE),
     (DW_OP_lt, sym_binop K_LT),
     (DW_OP_le, sym_binop K_LE),
     (DW_OP_gt, sym_binop K_GT),
     (DW_OP_ge, sym_binop K_GE),
     (DW_OP_deref, sym_deref),
     (DW_OP_deref_size, sym_deref_size),
     (DW_OP_xderef, sym_xderef),
     (DW_OP_xderef_size, sym_xderef_size),
     (DW_OP_const_type, sym_const_type le),
     (DW_OP_GNU_const_type, sym_const_type le),
     (DW_OP_regval_type, sym_regval_type le),
     (DW_OP_GNU_regval_type, sym_regval_type le),
     (DW_OP_deref_type, sym_deref_type le),
     (DW_OP_GNU_deref_type, sym_deref_type le),
     (DW_OP_xderef_type, sym_xderef_type le),
     (DW_OP_convert, sym_convert le),
     (DW_OP_GNU_convert, sym_convert le),
     (DW_OP_reinterpret, sym_reinterpret le),
     (DW_OP_GNU_reinterpret, sym_reinterpret le),
     (DW_OP_implicit_pointer, sym_implicit_pointer),
     (DW_OP_GNU_implicit_pointer, sym_implicit_pointer),
     (DW_OP_call2, sym_call2),
     (DW_OP_call4, sym_call4),
     (DW_OP_call_ref, sym_call_ref),
     (DW_OP_regx, sym_regx),
     (DW_OP_bregx, sym_bregx),
     (DW_OP_fbreg, sym_fbreg),
     (DW_OP_call_frame_cfa, sym_context cfaExpr),
     (DW_OP_push_object_address, sym_context objectAddrExpr),
     (DW_OP_form_tls_address, sym_tls),
     (DW_OP_GNU_push_tls_address, sym_tls),
     (DW_OP_GNU_uninit, sym_uninit),
     (DW_OP_GNU_encoded_addr, sym_encoded_addr),
     (DW_OP_GNU_parameter_ref, sym_parameter_ref),
     (DW_OP_WASM_location, sym_wasm_location),
     (DW_OP_addrx, sym_indexed True),
     (DW_OP_constx, sym_indexed False),
     (DW_OP_GNU_addr_index, sym_indexed True),
     (DW_OP_GNU_const_index, sym_indexed False),
     (DW_OP_entry_value, sym_entry_value),
     (DW_OP_GNU_entry_value, sym_entry_value),
     (DW_OP_stack_value, sym_stack_value),
     (DW_OP_implicit_value, sym_implicit_value le),
     (DW_OP_piece, sym_piece),
     (DW_OP_bit_piece, sym_bit_piece),
     (DW_OP_nop, sym_nop)]"

text \<open>An operation of the switch, with the check for a decode error behind it.\<close>

definition sym_switch :: "bool \<Rightarrow> u8 \<Rightarrow> sym_handler" where
  "sym_switch le op nest e op_off off s =
     (case (case map_of (sym_handlers le) op of
              Some h \<Rightarrow> h nest e op_off off s
            | None \<Rightarrow> sym_default op nest e op_off off s) of
        Stop r s \<Rightarrow> Stop r s
      | Go off s \<Rightarrow> sym_decoded op_off s (Go off s))"

definition sym_step :: "bool \<Rightarrow> sym_nested \<Rightarrow> bytes \<Rightarrow> nat \<Rightarrow> sym_eval \<Rightarrow> sym_next" where
  "sym_step le nest e op_off s =
     (case sym_readU8 e op_off s of (op, off, s) \<Rightarrow>
        if unat (op - DW_OP_lit0) < 32
        then Go off (sym_push_as (makeConst (ucast (op - DW_OP_lit0))) SK_VALUE s)
        else if unat (op - DW_OP_reg0) < 32
        then Go off (sym_push_as (makeConst (ucast (op - DW_OP_reg0))) SK_REGISTER s)
        else if unat (op - DW_OP_breg0) < 32 then sym_breg op nest e op_off off s
        else sym_switch le op nest e op_off off s)"

subsection \<open>The loop and \<open>evaluate\<close>\<close>

definition sym_finish :: "sym_eval \<Rightarrow> SymbolicExpressionResult \<times> sym_eval" where
  "sym_finish s =
     (if se_pieces s \<noteq> []
      then ((sym_result RT_COMPOSITE null_expr)\<lparr>sr_pieces := se_pieces s, sr_uninitialized := se_taint s\<rparr>,
            s\<lparr>se_pieces := []\<rparr>)
      else case se_stack s of
        [] \<Rightarrow> (sym_invalid ''empty stack'', s)
      | x # xs \<Rightarrow>
          ((sym_result (case entry_sort x of SK_REGISTER \<Rightarrow> RT_REGISTER | SK_VALUE \<Rightarrow> RT_VALUE | SK_ADDRESS \<Rightarrow> RT_ADDRESS)
              (entry_term x))\<lparr>sr_uninitialized := se_taint s\<rparr>, s))"

fun sym_loop ::
  "bool \<Rightarrow> sym_nested \<Rightarrow> bytes \<Rightarrow> nat \<Rightarrow> nat \<Rightarrow> sym_eval \<Rightarrow> SymbolicExpressionResult \<times> sym_eval" where
  "sym_loop le nest e 0 off s =
     (if off < length e then (sym_invalid ''step limit exceeded'', s) else sym_finish s)"
| "sym_loop le nest e (Suc steps) off s =
     (if off < length e then
        (case sym_step le nest e off s of Stop r s \<Rightarrow> (r, s) | Go off s \<Rightarrow> sym_loop le nest e steps off s)
      else sym_finish s)"

definition evaluateFromOffset ::
  "bool \<Rightarrow> sym_nested \<Rightarrow> bytes \<Rightarrow> nat \<Rightarrow> sym_eval \<Rightarrow> SymbolicExpressionResult \<times> sym_eval" where
  "evaluateFromOffset le nest e off s =
     (case sym_loop le nest e (max_steps e) off (s\<lparr>decode_error := None\<rparr>) of
        (r, t) \<Rightarrow> (r, t\<lparr>decode_error := decode_error s\<rparr>))"

fun occurs_in :: "string \<Rightarrow> string \<Rightarrow> bool" where
  "occurs_in sub [] \<longleftrightarrow> sub = []"
| "occurs_in sub (c # cs) \<longleftrightarrow> take (length sub) (c # cs) = sub \<or> occurs_in sub cs"

definition appendDiagnosticContext :: "EvaluationContext \<Rightarrow> SymbolicExpressionResult \<Rightarrow> SymbolicExpressionResult" where
  "appendDiagnosticContext c r =
     (if sr_type r \<noteq> RT_INVALID then r
      else
        let suffix = formatDiagnosticContext (diagnostic_cu_offset c) (diagnostic_die_offset c) (diagnostic_attribute c)
        in if suffix = [] \<or> occurs_in suffix (sr_error r) then r else r\<lparr>sr_error := sr_error r @ suffix\<rparr>)"

definition sym_start :: "EvaluationContext \<Rightarrow> u64 \<Rightarrow> u64 list \<Rightarrow> sym_eval \<Rightarrow> sym_eval" where
  "sym_start c pc regs s =
     s\<lparr>se_pc := pc, se_ctx := c, se_regs := regs, se_branch_depth := 0, se_stack := [], se_pieces := [],
       se_taint := False\<rparr>"

definition sym_evaluate_with ::
  "bool \<Rightarrow> sym_nested \<Rightarrow> bytes \<Rightarrow> EvaluationContext \<Rightarrow> u64 \<Rightarrow> u64 list \<Rightarrow> sym_eval \<Rightarrow> SymbolicExpressionResult" where
  "sym_evaluate_with le nest e c pc regs s =
     (case evaluateFromOffset le nest e 0 (sym_start c pc regs s) of (r, t) \<Rightarrow>
        appendDiagnosticContext c (r\<lparr>sr_uninitialized := sr_uninitialized r \<or> se_taint t\<rparr>))"

text \<open>A new evaluator for the expression of an operation of \<open>s\<close>.\<close>

definition sym_new_evaluator ::
  "bool \<Rightarrow> sym_nested \<Rightarrow> bytes \<Rightarrow> sym_eval \<Rightarrow> u64 list \<Rightarrow> SymbolicExpressionResult" where
  "sym_new_evaluator le nest e s regs =
     sym_evaluate_with le nest e (se_ctx s) (se_pc s) regs (new_sym_eval (se_call_depth s) (se_branch_depth s))"

text \<open>The nested evaluations that \<open>cl\<close> further calls and \<open>bl\<close> further branches allow.\<close>

fun sym_level :: "bool \<Rightarrow> sym_nested \<Rightarrow> nat \<Rightarrow> nat \<Rightarrow> sym_nested" where
  "sym_level le deep cl bl =
     \<lparr>sn_branch = (case bl of 0 \<Rightarrow> sn_branch deep | Suc bl' \<Rightarrow> evaluateFromOffset le (sym_level le deep cl bl')),
      sn_call = (case cl of 0 \<Rightarrow> sn_call deep
                 | Suc cl' \<Rightarrow> (\<lambda>e s. evaluateFromOffset le (sym_level le deep cl' bl) e 0 s)),
      sn_fresh = (case cl of 0 \<Rightarrow> sn_fresh deep
                  | Suc cl' \<Rightarrow> sym_new_evaluator le (sym_level le deep cl' kMaxBranchDepth))\<rparr>"

declare sym_level.simps [simp del]

definition sym_evaluate ::
  "bool \<Rightarrow> sym_nested \<Rightarrow> bytes \<Rightarrow> EvaluationContext \<Rightarrow> u64 \<Rightarrow> u64 list \<Rightarrow> SymbolicExpressionResult" where
  "sym_evaluate le deep e c pc regs =
     sym_evaluate_with le (sym_level le deep kMaxDepth kMaxBranchDepth) e c pc regs (new_sym_eval 0 0)"

end
