(* ===== verification/SymBound.thy ===== *)
theory SymBound
  imports SymFlow
begin

section \<open>Symbolic evaluation is bounded\<close>

text \<open>
  The operations keep the call and branch depths of the evaluator and make a nested call only below
  the limits, so that the result does not depend on what stands for the calls beyond them.
\<close>

subsection \<open>Depths\<close>

definition same_depths :: "sym_eval \<Rightarrow> sym_eval \<Rightarrow> bool" where
  "same_depths s t \<longleftrightarrow> se_call_depth t = se_call_depth s \<and> se_branch_depth t = se_branch_depth s"

definition similar_calls :: "sym_eval \<Rightarrow> sym_nested \<Rightarrow> sym_nested \<Rightarrow> bool" where
  "similar_calls s n n' \<longleftrightarrow>
     (se_branch_depth s < kMaxBranchDepth \<longrightarrow>
        (\<forall>e off t. se_call_depth t = se_call_depth s \<and> se_branch_depth t = se_branch_depth s + 1 \<longrightarrow>
           sn_branch n e off t = sn_branch n' e off t)) \<and>
     (se_call_depth s < kMaxDepth \<longrightarrow>
        (\<forall>e t. se_call_depth t = se_call_depth s + 1 \<and> se_branch_depth t = se_branch_depth s \<longrightarrow>
           sn_call n e t = sn_call n' e t) \<and>
        (\<forall>e t regs. se_call_depth t = se_call_depth s + 1 \<longrightarrow> sn_fresh n e t regs = sn_fresh n' e t regs))"

fun next_keeps :: "sym_eval \<Rightarrow> sym_next \<Rightarrow> bool" where
  "next_keeps s (Go off t) \<longleftrightarrow> same_depths s t"
| "next_keeps s (Stop r t) \<longleftrightarrow> True"

definition bounded_calls :: "sym_handler \<Rightarrow> bool" where
  "bounded_calls h \<longleftrightarrow>
     (\<forall>n n' e op_off off s. similar_calls s n n' \<longrightarrow>
        h n e op_off off s = h n' e op_off off s \<and> next_keeps s (h n e op_off off s))"

lemma same_depths_refl [simp]: "same_depths s s"
  by (simp add: same_depths_def)

lemma similar_same: "same_depths s t \<Longrightarrow> similar_calls t n n' = similar_calls s n n'"
  by (simp add: same_depths_def similar_calls_def)

subsection \<open>What the readers and the stack operations keep\<close>

lemma depths_setDecodeError [simp]:
  "se_call_depth (setDecodeError m s) = se_call_depth s" "se_branch_depth (setDecodeError m s) = se_branch_depth s"
  by (simp_all add: setDecodeError_def)

lemma depths_uleb_loop:
  "se_call_depth (snd (snd (sym_uleb_loop b off s r k))) = se_call_depth s \<and>
   se_branch_depth (snd (snd (sym_uleb_loop b off s r k))) = se_branch_depth s"
  by (induction b off s r k rule: sym_uleb_loop.induct) (subst (1 2) sym_uleb_loop.simps, simp add: Let_def)

lemma depths_sleb_loop:
  "se_call_depth (snd (snd (sym_sleb_loop b off s r k))) = se_call_depth s \<and>
   se_branch_depth (snd (snd (sym_sleb_loop b off s r k))) = se_branch_depth s"
  by (induction b off s r k rule: sym_sleb_loop.induct) (subst (1 2) sym_sleb_loop.simps, simp add: Let_def)

lemma depths_readers:
  "same_depths s (snd (snd (sym_readU8 b off s)))" "same_depths s (snd (snd (sym_readU16 b off s)))"
  "same_depths s (snd (snd (sym_readU32 b off s)))" "same_depths s (snd (snd (sym_readU64 b off s)))"
  "same_depths s (snd (snd (readULEB b off s)))" "same_depths s (snd (snd (readSLEB b off s)))"
  "same_depths s (snd (snd (decodeBytes b off len s)))"
  by (simp_all add: same_depths_def sym_readU8_def sym_readU16_def sym_readU32_def sym_readU64_def
      readULEB_def readSLEB_def decodeBytes_def Let_def depths_uleb_loop
      split: prod.split sum.split)
    (use depths_sleb_loop in \<open>metis snd_conv\<close>)+

lemmas depth_equations [simp] = depths_readers [unfolded same_depths_def, THEN conjunct1]
  depths_readers [unfolded same_depths_def, THEN conjunct2]

lemma depths_sized [simp]:
  "se_call_depth (snd (snd (readAddressSized b off n s))) = se_call_depth s"
  "se_branch_depth (snd (snd (readAddressSized b off n s))) = se_branch_depth s"
  "se_call_depth (snd (snd (readOffsetSized b off n s))) = se_call_depth s"
  "se_branch_depth (snd (snd (readOffsetSized b off n s))) = se_branch_depth s"
  "se_call_depth (snd (snd (sym_section_ref b off s))) = se_call_depth s"
  "se_branch_depth (snd (snd (sym_section_ref b off s))) = se_branch_depth s"
  by (simp_all add: readAddressSized_def readOffsetSized_def sym_section_ref_def split_beta)

lemma depths_stack [simp]:
  "se_call_depth (sym_push_as v k s) = se_call_depth s" "se_branch_depth (sym_push_as v k s) = se_branch_depth s"
  "se_call_depth (pushWithImplicitBytes v bs k s) = se_call_depth s"
  "se_branch_depth (pushWithImplicitBytes v bs k s) = se_branch_depth s"
  "se_call_depth (sym_copy x s) = se_call_depth s" "se_branch_depth (sym_copy x s) = se_branch_depth s"
  "se_call_depth (snd (sym_pop s)) = se_call_depth s" "se_branch_depth (snd (sym_pop s)) = se_branch_depth s"
  "se_call_depth (snd (sym_operand s)) = se_call_depth s" "se_branch_depth (snd (sym_operand s)) = se_branch_depth s"
  "se_call_depth (setTopKind k s) = se_call_depth s" "se_branch_depth (setTopKind k s) = se_branch_depth s"
  "se_call_depth (sym_relative base d s) = se_call_depth s" "se_branch_depth (sym_relative base d s) = se_branch_depth s"
  "se_call_depth (sym_take_piece i j b s) = se_call_depth s"
  "se_branch_depth (sym_take_piece i j b s) = se_branch_depth s"
  by (simp_all add: sym_push_as_def pushWithImplicitBytes_def sym_copy_def sym_pop_def sym_operand_def
      setTopKind_def sym_relative_def sym_take_piece_def Let_def split: list.split option.split prod.split)

lemma next_sym_need [simp]: "next_keeps s (sym_need op n t k) \<longleftrightarrow> length (se_stack t) < n \<or> next_keeps s k"
  by (simp add: sym_need_def stackUnderflow_def sym_stop_def)

lemma next_sym_decoded [simp]: "next_keeps s (sym_decoded op t k) \<longleftrightarrow> decode_error t \<noteq> None \<or> next_keeps s k"
  by (auto simp: sym_decoded_def sym_stop_def split: option.split)

lemma next_sym_stop [simp]: "next_keeps s (sym_stop m t)" "next_keeps s (stackUnderflow op n t)"
  by (simp_all add: sym_stop_def stackUnderflow_def)

subsection \<open>Operations without nested calls\<close>

text \<open>An operation that ignores the nested calls and keeps the depths.\<close>

lemma bounded_plain:
  assumes "\<And>n n' e op_off off s. h n e op_off off s = h n' e op_off off s"
    and "\<And>n e op_off off s. next_keeps s (h n e op_off off s)"
  shows "bounded_calls h"
  unfolding bounded_calls_def using assms by blast

named_theorems plain_operation \<open>operations without nested calls\<close>

lemmas depth_simps = same_depths_def split_beta Let_def

lemma bounded_constants [plain_operation]:
  "bounded_calls (sym_const k sym_readU8 f8)" "bounded_calls (sym_const k sym_readU16 f)"
  "bounded_calls (sym_const k sym_readU32 f)" "bounded_calls (sym_const k sym_readU64 f)"
  "bounded_calls (sym_const k readULEB f)" "bounded_calls (sym_const k readSLEB f)"
  "bounded_calls sym_addr" "bounded_calls (sym_breg op)" "bounded_calls sym_regx" "bounded_calls sym_bregx"
  "bounded_calls sym_fbreg" "bounded_calls (sym_context g)" "bounded_calls sym_tls"
  by (rule bounded_plain;
      simp add: sym_const_def sym_addr_def sym_breg_def sym_regx_def sym_bregx_def sym_fbreg_def sym_context_def
        sym_tls_def depth_simps)+

lemma bounded_indexed [plain_operation]: "bounded_calls (sym_indexed is_addr)" "bounded_calls sym_wasm_location"
  by (rule bounded_plain; simp add: sym_indexed_def sym_wasm_location_def depth_simps)+

lemma bounded_stack [plain_operation]:
  "bounded_calls sym_dup" "bounded_calls sym_drop" "bounded_calls sym_over" "bounded_calls sym_pick"
  "bounded_calls sym_swap" "bounded_calls sym_rot"
  by (rule bounded_plain;
      simp add: sym_dup_def sym_drop_def sym_over_def sym_pick_def sym_swap_def sym_rot_def depth_simps
        split: list.split)+

lemma bounded_arithmetic [plain_operation]:
  "bounded_calls (sym_unop k)" "bounded_calls (sym_binop k)" "bounded_calls (sym_address_binop k f)"
  "bounded_calls sym_plus_uconst"
  by (rule bounded_plain;
      simp add: sym_unop_def sym_binop_def sym_address_binop_def sym_plus_uconst_def depth_simps)+

lemma bounded_memory [plain_operation]:
  "bounded_calls sym_deref" "bounded_calls sym_xderef" "bounded_calls sym_deref_size" "bounded_calls sym_xderef_size"
  "bounded_calls (sym_const_type le)" "bounded_calls (sym_regval_type le)" "bounded_calls (sym_deref_type le)"
  "bounded_calls (sym_xderef_type le)" "bounded_calls (sym_convert le)" "bounded_calls (sym_reinterpret le)"
  by (rule bounded_plain;
      simp add: sym_deref_def sym_xderef_def sym_deref_size_def sym_xderef_size_def sym_const_type_def
        sym_regval_type_def sym_deref_type_def sym_xderef_type_def sym_convert_def sym_reinterpret_def
        depth_simps)+

lemma bounded_values [plain_operation]:
  "bounded_calls sym_stack_value" "bounded_calls (sym_implicit_value le)" "bounded_calls sym_piece"
  "bounded_calls sym_bit_piece" "bounded_calls sym_uninit" "bounded_calls sym_nop" "bounded_calls sym_skip"
  by (rule bounded_plain;
      simp add: sym_stack_value_def sym_implicit_value_def sym_piece_def sym_bit_piece_def sym_uninit_def
        sym_nop_def sym_skip_def depth_simps split: option.split)+

lemma encoded_keeps:
  "sym_read_encoded fmt e off s = Some p \<Longrightarrow> same_depths s (snd (snd p))"
  by (auto simp: sym_read_encoded_def same_depths_def split_beta split: if_splits)

lemma next_encoded: "next_keeps s (sym_encoded_addr n e op_off off s)"
proof -
  have "se_call_depth (snd (snd p)) = se_call_depth s" "se_branch_depth (snd (snd p)) = se_branch_depth s"
    if "sym_read_encoded fmt e off' (snd (snd (sym_readU8 e off s))) = Some p" for fmt off' p
    using encoded_keeps [OF that] by (simp_all add: same_depths_def)
  then show ?thesis
    by (auto simp: sym_encoded_addr_def depth_simps split: option.split)
qed

lemma bounded_encoded_addr [plain_operation]: "bounded_calls sym_encoded_addr"
  by (rule bounded_plain) (simp_all add: next_encoded, simp add: sym_encoded_addr_def)

subsection \<open>Operations with nested calls\<close>

lemma bounded_bra: "bounded_calls (sym_bra le)"
proof -
  have fork: "sym_fork le n e off rel c t = sym_fork le n' e off rel c t"
    if "similar_calls t n n'" for n n' e off rel c t
    using that by (auto simp: sym_fork_def similar_calls_def Let_def sym_stop_def split: option.split)
  have stops: "next_keeps s (sym_fork le n e off rel c t)" for n e off rel c s t
    by (simp add: sym_fork_def Let_def split: option.split)
  have keeps: "same_depths s (snd (sym_operand (snd (snd (sym_readU16 e off s)))))" for e off s
    by (simp add: same_depths_def)
  show ?thesis
    unfolding bounded_calls_def sym_bra_def split_beta
    using fork similar_same [OF keeps] keeps
    by (auto simp: stops sym_need_def sym_decoded_def stackUnderflow_def sym_stop_def split: option.split)
qed

lemma call_at_bounded:
  assumes "similar_calls s n n'" and "same_depths s t"
  shows "sym_call_at name a n off t = sym_call_at name a n' off t \<and> next_keeps s (sym_call_at name a n off t)"
proof -
  have "executeProcedureSubexprInPlace n sub (t\<lparr>se_call_depth := se_call_depth t + 1\<rparr>) =
      executeProcedureSubexprInPlace n' sub (t\<lparr>se_call_depth := se_call_depth t + 1\<rparr>)"
    if "se_call_depth t < kMaxDepth" for sub
    using that assms by (simp add: executeProcedureSubexprInPlace_def similar_calls_def same_depths_def)
  moreover have "se_call_depth (snd (executeProcedureSubexprInPlace m sub t')) = se_call_depth t'"
    "se_branch_depth (snd (executeProcedureSubexprInPlace m sub t')) = se_branch_depth t'" for m sub t'
    by (simp_all add: executeProcedureSubexprInPlace_def split_beta)
  ultimately show ?thesis
    using assms(2) by (auto simp: sym_call_at_def depth_simps not_le sym_stop_def split: option.split)
qed

lemma decoded_call_bounded:
  assumes "similar_calls s n n'" and "same_depths s t"
  shows "sym_decoded op t (sym_call_at name a n off t) = sym_decoded op t (sym_call_at name a n' off t) \<and>
    next_keeps s (sym_decoded op t (sym_call_at name a n off t))"
proof -
  have eq: "sym_call_at name a n off t = sym_call_at name a n' off t"
    using call_at_bounded [OF assms] by (rule conjunct1)
  have "next_keeps s (sym_call_at name a n' off t)"
    using call_at_bounded [OF assms] unfolding eq [symmetric] by (rule conjunct2)
  then show ?thesis by (simp add: eq)
qed

lemma bounded_calls_ops:
  "bounded_calls sym_call2" "bounded_calls sym_call4" "bounded_calls sym_call_ref"
  unfolding bounded_calls_def sym_call2_def sym_call4_def sym_call_ref_def split_beta
  by (intro allI impI, rule decoded_call_bounded, assumption, simp add: same_depths_def)+

lemma fresh_bounded:
  assumes "similar_calls s n n'" and "same_depths s t" and "se_call_depth t < kMaxDepth"
  shows "sn_fresh n sub (t\<lparr>se_call_depth := se_call_depth t + 1\<rparr>) regs =
    sn_fresh n' sub (t\<lparr>se_call_depth := se_call_depth t + 1\<rparr>) regs"
  using assms by (simp add: similar_calls_def same_depths_def)

lemma bounded_entry_value: "bounded_calls sym_entry_value"
proof (unfold bounded_calls_def, intro allI impI)
  fix n n' e op_off off s assume sim: "similar_calls s n n'"
  obtain len off1 t where len: "readULEB e off s = (len, off1, t)" by (cases "readULEB e off s")
  have depths: "se_call_depth t = se_call_depth s" "se_branch_depth t = se_branch_depth s"
    using depths_readers(5) [of s e off] len by (auto simp: same_depths_def)
  then have entry: "\<not> kMaxDepth \<le> se_call_depth s \<Longrightarrow>
      evalEntryValueSubexpr n sub (t\<lparr>se_call_depth := Suc (se_call_depth s)\<rparr>) =
      evalEntryValueSubexpr n' sub (t\<lparr>se_call_depth := Suc (se_call_depth s)\<rparr>)" for sub
    using fresh_bounded [OF sim, of t] by (simp add: same_depths_def evalEntryValueSubexpr_def)
  show "sym_entry_value n e op_off off s = sym_entry_value n' e op_off off s \<and>
      next_keeps s (sym_entry_value n e op_off off s)"
    by (simp add: sym_entry_value_def len Let_def same_depths_def depths entry)
qed

lemma bounded_implicit_pointer: "bounded_calls sym_implicit_pointer"
proof (unfold bounded_calls_def, intro allI impI)
  fix n n' e op_off off s assume sim: "similar_calls s n n'"
  obtain a off1 s1 where a: "sym_section_ref e off s = (a, off1, s1)" by (cases "sym_section_ref e off s")
  obtain d off2 t where d: "readSLEB e off1 s1 = (d, off2, t)" by (cases "readSLEB e off1 s1")
  have depths: "se_call_depth t = se_call_depth s" "se_branch_depth t = se_branch_depth s"
    using depths_sized(5,6) [of e off s] depths_readers(6) [of s1 e off1] a d by (auto simp: same_depths_def)
  then have fresh: "\<not> kMaxDepth \<le> se_call_depth s \<Longrightarrow>
      sn_fresh n sub (t\<lparr>se_call_depth := Suc (se_call_depth s)\<rparr>) regs =
      sn_fresh n' sub (t\<lparr>se_call_depth := Suc (se_call_depth s)\<rparr>) regs" for sub regs
    using fresh_bounded [OF sim, of t] by (simp add: same_depths_def)
  show "sym_implicit_pointer n e op_off off s = sym_implicit_pointer n' e op_off off s \<and>
      next_keeps s (sym_implicit_pointer n e op_off off s)"
    by (simp add: sym_implicit_pointer_def a d Let_def same_depths_def depths fresh split: option.split)
qed

lemma bounded_parameter_ref: "bounded_calls sym_parameter_ref"
proof (unfold bounded_calls_def, intro allI impI)
  fix n n' e op_off off s assume sim: "similar_calls s n n'"
  obtain a off1 t where a: "sym_section_ref e off s = (a, off1, t)" by (cases "sym_section_ref e off s")
  have depths: "se_call_depth t = se_call_depth s" "se_branch_depth t = se_branch_depth s"
    using depths_sized(5,6) [of e off s] a by auto
  then have fresh: "\<not> kMaxDepth \<le> se_call_depth s \<Longrightarrow>
      sn_fresh n sub (t\<lparr>se_call_depth := Suc (se_call_depth s)\<rparr>) regs =
      sn_fresh n' sub (t\<lparr>se_call_depth := Suc (se_call_depth s)\<rparr>) regs" for sub regs
    using fresh_bounded [OF sim, of t] by (simp add: same_depths_def)
  show "sym_parameter_ref n e op_off off s = sym_parameter_ref n' e op_off off s \<and>
      next_keeps s (sym_parameter_ref n e op_off off s)"
    by (simp add: sym_parameter_ref_def a Let_def same_depths_def depths fresh split: option.split)
qed

lemma bounded_handlers: "(op, h) \<in> set (sym_handlers le) \<Longrightarrow> bounded_calls h"
proof -
  have "list_all (bounded_calls \<circ> snd) (sym_handlers le)"
    by (simp add: sym_handlers_def plain_operation bounded_bra bounded_calls_ops bounded_entry_value
        bounded_implicit_pointer bounded_parameter_ref)
  then show "(op, h) \<in> set (sym_handlers le) \<Longrightarrow> bounded_calls h"
    by (auto simp: list_all_iff)
qed

lemma similar_refl: "similar_calls s n n"
  by (simp add: similar_calls_def)

lemma bounded_keeps: "bounded_calls h \<Longrightarrow> next_keeps s (h n e op_off off s)"
  unfolding bounded_calls_def by (metis similar_refl)

lemma bounded_same: "bounded_calls h \<Longrightarrow> similar_calls s n n' \<Longrightarrow> h n e op_off off s = h n' e op_off off s"
  by (simp add: bounded_calls_def)

lemma bounded_after:
  assumes "bounded_calls h" and "\<And>r t. next_keeps s (stop r t)" and "\<And>off t. same_depths s t \<Longrightarrow> next_keeps s (go off t)"
    and "similar_calls s n n'"
  shows "case_sym_next stop go (h n e op_off off s) = case_sym_next stop go (h n' e op_off off s) \<and>
    next_keeps s (case_sym_next stop go (h n e op_off off s))"
  using bounded_keeps [OF assms(1), of s n e op_off off] assms(2,3) bounded_same [OF assms(1,4), of e op_off off]
  by (auto split: sym_next.split)

lemma bounded_default: "bounded_calls (sym_default op)"
proof -
  have vendor: "bounded_calls h" if "sym_handleVendorProfileOpcode op s = Some h" for h s
  proof -
    have plus: "bounded_calls sym_vendor_plus_uconst"
      by (rule bounded_plain; simp add: sym_vendor_plus_uconst_def depth_simps split: option.split)
    have deref: "bounded_calls sym_vendor_deref_size"
      by (rule bounded_plain; simp add: sym_vendor_deref_size_def depth_simps split: option.split)
    show ?thesis
      using that plus deref bounded_constants(5)
      by (auto simp: sym_handleVendorProfileOpcode_def sym_vendor_constu_def split: if_splits)
  qed
  show ?thesis
    by (auto simp: bounded_calls_def [of "sym_default op"] sym_default_def split: option.split
        intro!: bounded_after [OF vendor, THEN conjunct1] bounded_after [OF vendor, THEN conjunct2])
qed

lemma bounded_switch: "bounded_calls (sym_switch le op)"
proof -
  define h where "h = (case map_of (sym_handlers le) op of Some h \<Rightarrow> h | None \<Rightarrow> sym_default op)"
  have h: "bounded_calls h"
    unfolding h_def by (auto intro: bounded_default bounded_handlers dest: map_of_SomeD split: option.split)
  have "sym_switch le op n e op_off off s =
      (case h n e op_off off s of Stop r t \<Rightarrow> Stop r t | Go off t \<Rightarrow> sym_decoded op_off t (Go off t))" for n e op_off off s
    by (simp add: sym_switch_def h_def split: option.split)
  then show ?thesis
    unfolding bounded_calls_def by (auto intro!: bounded_after [OF h, THEN conjunct1] bounded_after [OF h, THEN conjunct2])
qed

subsection \<open>The loop and the levels\<close>

lemma step_bounded:
  assumes "similar_calls s n n'"
  shows "sym_step le n e off s = sym_step le n' e off s \<and> next_keeps s (sym_step le n e off s)"
proof -
  obtain op off1 t where r: "sym_readU8 e off s = (op, off1, t)" by (cases "sym_readU8 e off s")
  then have t: "same_depths s t" using depths_readers(1) [of s e off] by simp
  then have sim: "similar_calls t n n'" using assms by (simp add: similar_same)
  have keep: "next_keeps s x" if "next_keeps t x" for x
    using that t by (cases x) (simp_all add: same_depths_def)
  show ?thesis
    using bounded_same [OF bounded_switch sim] bounded_same [OF bounded_constants(8) sim]
      keep [OF bounded_keeps [OF bounded_switch]] keep [OF bounded_keeps [OF bounded_constants(8)]] t
    by (simp add: sym_step_def r same_depths_def)
qed

lemma loop_bounded:
  "similar_calls s n n' \<Longrightarrow> sym_loop le n e steps off s = sym_loop le n' e steps off s"
proof (induction steps arbitrary: off s)
  case (Suc steps)
  show ?case
  proof (cases "off < length e")
    case True
    have eq: "sym_step le n e off s = sym_step le n' e off s"
      and keeps: "next_keeps s (sym_step le n e off s)"
      using step_bounded [OF Suc.prems] by blast+
    show ?thesis
      using True keeps Suc.IH Suc.prems by (auto simp: eq similar_same split: sym_next.split)
  qed simp
qed simp

lemma evaluateFromOffset_bounded:
  "similar_calls s n n' \<Longrightarrow> evaluateFromOffset le n e off s = evaluateFromOffset le n' e off s"
  using loop_bounded [of "s\<lparr>decode_error := None\<rparr>" n n'] similar_same [of s "s\<lparr>decode_error := None\<rparr>" n n']
  by (simp add: evaluateFromOffset_def same_depths_def)

lemma evaluate_bounded:
  assumes "similar_calls (s\<lparr>se_branch_depth := 0\<rparr>) n n'"
  shows "sym_evaluate_with le n e c pc regs s = sym_evaluate_with le n' e c pc regs s"
proof -
  have "similar_calls (sym_start c pc regs s) n n'"
    using assms similar_same [of "s\<lparr>se_branch_depth := 0\<rparr>" "sym_start c pc regs s" n n']
    by (simp add: same_depths_def sym_start_def)
  then show ?thesis by (simp add: sym_evaluate_with_def evaluateFromOffset_bounded)
qed

lemma level_simps:
  "sn_branch (sym_level le deep cl (Suc bl)) = evaluateFromOffset le (sym_level le deep cl bl)"
  "sn_call (sym_level le deep (Suc cl) bl) = (\<lambda>e s. evaluateFromOffset le (sym_level le deep cl bl) e 0 s)"
  "sn_fresh (sym_level le deep (Suc cl) bl) = sym_new_evaluator le (sym_level le deep cl kMaxBranchDepth)"
  by (simp_all add: sym_level.simps)

lemma levels_similar:
  "se_call_depth s + cl = kMaxDepth \<Longrightarrow> se_branch_depth s + bl = kMaxBranchDepth \<Longrightarrow>
   similar_calls s (sym_level le deep cl bl) (sym_level le deep' cl bl)"
proof (induction le deep cl bl arbitrary: s rule: sym_level.induct)
  case (1 le deep cl bl)
  show ?case
    unfolding similar_calls_def
  proof (intro conjI impI allI)
    fix e off and t :: sym_eval
    assume "se_branch_depth s < kMaxBranchDepth"
      and t: "se_call_depth t = se_call_depth s \<and> se_branch_depth t = se_branch_depth s + 1"
    then obtain bl' where bl: "bl = Suc bl'" using "1.prems" by (cases bl) auto
    then show "sn_branch (sym_level le deep cl bl) e off t = sn_branch (sym_level le deep' cl bl) e off t"
      using evaluateFromOffset_bounded [OF "1.IH"(1) [OF bl]] "1.prems" t
      by (simp add: bl level_simps)
  next
    fix e and t :: sym_eval
    assume "se_call_depth s < kMaxDepth"
      and t: "se_call_depth t = se_call_depth s + 1 \<and> se_branch_depth t = se_branch_depth s"
    then obtain cl' where cl: "cl = Suc cl'" using "1.prems" by (cases cl) auto
    then show "sn_call (sym_level le deep cl bl) e t = sn_call (sym_level le deep' cl bl) e t"
      using evaluateFromOffset_bounded [OF "1.IH"(2) [OF cl]] "1.prems" t
      by (simp add: cl level_simps)
  next
    fix e regs and t :: sym_eval
    assume "se_call_depth s < kMaxDepth" and t: "se_call_depth t = se_call_depth s + 1"
    then obtain cl' where cl: "cl = Suc cl'" using "1.prems" by (cases cl) auto
    then show "sn_fresh (sym_level le deep cl bl) e t regs = sn_fresh (sym_level le deep' cl bl) e t regs"
      using evaluate_bounded [OF "1.IH"(3) [OF cl]] "1.prems" t
      by (simp add: cl level_simps sym_new_evaluator_def new_sym_eval_def)
  qed
qed

text \<open>
  What stands for the calls and branches beyond the limits is never reached: the fuel of the model is
  enough, and the result does not depend on it.
\<close>

lemma evaluate_any_deep: "sym_evaluate le deep e c pc regs = sym_evaluate le deep' e c pc regs"
  unfolding sym_evaluate_def
  by (intro evaluate_bounded levels_similar) (simp_all add: new_sym_eval_def)

end
