(* ===== verification/SymWell.thy ===== *)
theory SymWell
  imports SymBound SymProps
begin

section \<open>The symbolic evaluator builds well-formed terms\<close>

text \<open>
  Every term on the stack, in a piece or in a result of the symbolic evaluator is well formed, so
  that what is proved of well-formed terms holds of all terms the evaluator hands to the comparison.
\<close>

definition ok_term :: "SymExpr \<Rightarrow> bool" where
  "ok_term e \<longleftrightarrow> e = null_expr \<or> sym_ok e"

definition ok_pieces :: "SymPiece list \<Rightarrow> bool" where
  "ok_pieces ps \<longleftrightarrow> (\<forall>p\<in>set ps. ok_term (sp_location p))"

definition ok_state :: "sym_eval \<Rightarrow> bool" where
  "ok_state s \<longleftrightarrow> (\<forall>x\<in>set (se_stack s). sym_ok (entry_term x)) \<and> ok_pieces (se_pieces s)"

definition ok_result :: "SymbolicExpressionResult \<Rightarrow> bool" where
  "ok_result r \<longleftrightarrow> ok_term (sr_expression r) \<and> ok_pieces (sr_pieces r)"

definition ok_nested :: "sym_nested \<Rightarrow> bool" where
  "ok_nested n \<longleftrightarrow>
     (\<forall>e off s. ok_state s \<longrightarrow> ok_result (fst (sn_branch n e off s)) \<and> ok_state (snd (sn_branch n e off s))) \<and>
     (\<forall>e s. ok_state s \<longrightarrow> ok_result (fst (sn_call n e s)) \<and> ok_state (snd (sn_call n e s))) \<and>
     (\<forall>e s regs. ok_result (sn_fresh n e s regs))"

fun ok_next :: "sym_next \<Rightarrow> bool" where
  "ok_next (Stop r t) \<longleftrightarrow> ok_result r \<and> ok_state t"
| "ok_next (Go off t) \<longleftrightarrow> ok_state t"

definition well_formed :: "sym_handler \<Rightarrow> bool" where
  "well_formed h \<longleftrightarrow> (\<forall>n e op_off off s. ok_nested n \<longrightarrow> ok_state s \<longrightarrow> ok_next (h n e op_off off s))"

subsection \<open>Terms\<close>

lemma ok_term_simps [simp]: "ok_term null_expr" "sym_ok e \<Longrightarrow> ok_term e"
  by (simp_all add: ok_term_def)

lemma ok_pieces_simps [simp]:
  "ok_pieces []" "ok_pieces (p # ps) \<longleftrightarrow> ok_term (sp_location p) \<and> ok_pieces ps"
  "ok_pieces (ps @ qs) \<longleftrightarrow> ok_pieces ps \<and> ok_pieces qs"
  by (auto simp: ok_pieces_def)

lemma ok_result_simps [simp]:
  "ok_result (sym_result t e) = ok_term e" "ok_result (sym_invalid m)"
  "ok_result (r\<lparr>sr_uninitialized := b\<rparr>) = ok_result r" "ok_result (r\<lparr>sr_unsupported := o'\<rparr>) = ok_result r"
  "ok_result (r\<lparr>sr_vendor := b\<rparr>) = ok_result r" "ok_result (r\<lparr>sr_error := m\<rparr>) = ok_result r"
  by (simp_all add: ok_result_def sym_result_def sym_invalid_def)

lemma unknown_names [simp]:
  "item ''reg?''" "item ''empty_stack''" "item ''bytes>8''" "item ''stack_value(reg?)''" "item ''entry_value''"
  "item ''implicit_pointer(reg?)''" "item ''implicit_pointer(unsupported)''" "item ''implicit_pointer(no_proc)''"
  "item ''implicit_pointer(no_resolver)''" "item ''gnu_parameter_ref(no_resolver)''"
  "item ''gnu_parameter_ref(no_proc)''" "item ''gnu_parameter_ref(empty)''" "item ''gnu_parameter_ref_addr''"
  "item ''entry_value(empty)''" "item ''entry_value_addr''"
  by (simp_all add: item_def delimiter_def)

lemma plain_scan: "plain s \<Longrightarrow> scan d (s @ t) = scan d t"
  using scan_item [OF plain_item] .

lemma numbered_names:
  "item (''addrx('' @ dec_string n @ '')'')" "item (''constx('' @ dec_string n @ '')'')"
  "item (''unavail_bit_piece'' @ dec_string n)" "item (''unavail_piece'' @ dec_string n)"
  by (simp_all add: item_def delimiter_def plain_scan plain_item [unfolded item_def])

lemma numbered_vars: "var_name_ok (''reg'' @ dec_string n)" "var_name_ok (''entry_reg'' @ dec_string n)"
  by (simp_all add: var_name_ok_def delimiter_def)

lemmas numbered_simps [simp] = numbered_names [simplified append_Cons append_Nil] numbered_vars [simplified append_Cons append_Nil]

lemma ok_value_terms [simp]:
  "sym_ok (register_term regs n)" "sym_ok (regValueExpr s n)" "sym_ok (register_value regs e)"
  "sym_ok (frameBaseExpr s)" "sym_ok (cfaExpr s)" "sym_ok (tlsBaseExpr s)" "sym_ok (objectAddrExpr s)"
  "sym_ok (decodeAsU64ConstOrUnknown le bs)" "sym_ok (decodeAsValueExprPreserveBytes le bs)"
  using numbered_vars(1)
  by (simp_all add: register_term_def regValueExpr_def register_value_def frameBaseExpr_def cfaExpr_def tlsBaseExpr_def
      objectAddrExpr_def context_term_def decodeAsU64ConstOrUnknown_def decodeAsValueExprPreserveBytes_def
      var_name_ok_def delimiter_def split: option.split)

lemma ok_materialize: "sym_ok v \<Longrightarrow> sym_ok (materializeForComputation s v k)"
  by (simp add: materializeForComputation_def split: option.split)

lemma ok_add [simp]: "sym_ok a \<Longrightarrow> sym_ok b \<Longrightarrow> sym_ok (makeBinary K_ADD a b)"
  by (rule sym_ok_makeBinary) (simp_all add: is_binary_def)

lemma ok_cast: "sym_ok v \<Longrightarrow> sym_ok (sym_cast le t s v)"
  by (simp add: sym_cast_def sym_ok_makeMask sym_ok_makeSExt split: option.split)

subsection \<open>States\<close>

lemma stack_setDecodeError [simp]:
  "se_stack (setDecodeError m s) = se_stack s" "se_pieces (setDecodeError m s) = se_pieces s"
  by (simp_all add: setDecodeError_def)

lemma ok_state_error [simp]: "ok_state (setDecodeError m s) = ok_state s"
  by (simp add: ok_state_def)

lemma ok_uleb_loop: "ok_state (snd (snd (sym_uleb_loop b off s r k))) = ok_state s"
  by (induction b off s r k rule: sym_uleb_loop.induct) (subst sym_uleb_loop.simps, simp add: Let_def)

lemma ok_sleb_loop: "ok_state (snd (snd (sym_sleb_loop b off s r k))) = ok_state s"
  by (induction b off s r k rule: sym_sleb_loop.induct) (subst sym_sleb_loop.simps, simp add: Let_def)

lemma ok_readSLEB [simp]: "ok_state (snd (snd (readSLEB b off s))) = ok_state s"
proof -
  obtain x o' t where "sym_sleb_loop b off s 0 0 = (x, o', t)" by (cases "sym_sleb_loop b off s 0 0")
  then show ?thesis using ok_sleb_loop [of b off s 0 0] by (cases x) (auto simp: readSLEB_def)
qed

lemma ok_readers [simp]:
  "ok_state (snd (snd (sym_readU8 b off s))) = ok_state s" "ok_state (snd (snd (sym_readU16 b off s))) = ok_state s"
  "ok_state (snd (snd (sym_readU32 b off s))) = ok_state s" "ok_state (snd (snd (sym_readU64 b off s))) = ok_state s"
  "ok_state (snd (snd (readULEB b off s))) = ok_state s" "ok_state (snd (snd (decodeBytes b off len s))) = ok_state s"
  by (simp_all add: sym_readU8_def sym_readU16_def sym_readU32_def sym_readU64_def readULEB_def decodeBytes_def
      Let_def ok_uleb_loop)

lemma ok_sized_readers [simp]:
  "ok_state (snd (snd (readAddressSized b off n s))) = ok_state s"
  "ok_state (snd (snd (readOffsetSized b off n s))) = ok_state s"
  "ok_state (snd (snd (sym_section_ref b off s))) = ok_state s"
  by (simp_all add: readAddressSized_def readOffsetSized_def sym_section_ref_def split_beta)

lemma ok_push [simp]:
  "ok_state (sym_push_as v k s) \<longleftrightarrow> sym_ok v \<and> ok_state s"
  "ok_state (pushWithImplicitBytes v bs k s) \<longleftrightarrow> sym_ok v \<and> ok_state s"
  by (auto simp: ok_state_def sym_push_as_def pushWithImplicitBytes_def)

lemma ok_updates [simp]:
  "ok_state (s\<lparr>se_taint := b\<rparr>) = ok_state s" "ok_state (s\<lparr>se_branch_depth := i\<rparr>) = ok_state s"
  "ok_state (s\<lparr>se_call_depth := i\<rparr>) = ok_state s" "ok_state (s\<lparr>decode_error := e\<rparr>) = ok_state s"
  by (simp_all add: ok_state_def)

lemma ok_pop: "ok_state s \<Longrightarrow> sym_ok (fst (sym_pop s)) \<and> ok_state (snd (sym_pop s))"
  by (auto simp: ok_state_def sym_pop_def split: list.split)

lemma ok_operand: "ok_state s \<Longrightarrow> sym_ok (fst (sym_operand s)) \<and> ok_state (snd (sym_operand s))"
  using ok_pop [of s] by (simp add: sym_operand_def split_beta ok_materialize)

lemmas ok_popped [simp] = ok_pop [THEN conjunct1] ok_pop [THEN conjunct2] ok_operand [THEN conjunct1]
  ok_operand [THEN conjunct2]

lemma ok_copy: "x \<in> set (se_stack s) \<Longrightarrow> ok_state s \<Longrightarrow> ok_state (sym_copy x s)"
  by (auto simp: sym_copy_def ok_state_def sym_push_as_def pushWithImplicitBytes_def split: option.split)

lemma ok_setTopKind [simp]: "ok_state (setTopKind k s) = ok_state s"
  by (simp add: setTopKind_def ok_state_def split: list.split)

lemma ok_take_piece [simp]: "ok_state s \<Longrightarrow> ok_state (sym_take_piece i j b s)"
  using ok_pop [of s] by (auto simp: sym_take_piece_def Let_def ok_state_def simp del: ok_popped
      split: list.split option.split prod.split)

lemma ok_stops [simp]: "ok_next (sym_stop m t) = ok_state t" "ok_next (stackUnderflow op n t) = ok_state t"
  by (simp_all add: sym_stop_def stackUnderflow_def)

lemma ok_need [simp]: "ok_next (sym_need op n s k) \<longleftrightarrow> (if length (se_stack s) < n then ok_state s else ok_next k)"
  by (simp add: sym_need_def)

lemma ok_decoded [simp]: "ok_next (sym_decoded op s k) \<longleftrightarrow> (if decode_error s = None then ok_next k else ok_state s)"
  by (auto simp: sym_decoded_def split: option.split)

subsection \<open>Operations\<close>

lemma well_formedI:
  assumes "\<And>n e op_off off s. ok_nested n \<Longrightarrow> ok_state s \<Longrightarrow> ok_next (h n e op_off off s)"
  shows "well_formed h"
  using assms by (simp add: well_formed_def)

named_theorems well_formed_operation \<open>operations that keep terms well formed\<close>

lemmas term_simps = split_beta Let_def ok_materialize ok_cast sym_ok_makeMask

lemma well_constants [well_formed_operation]:
  "well_formed (sym_const k sym_readU8 f8)" "well_formed (sym_const k sym_readU16 f)"
  "well_formed (sym_const k sym_readU32 f)" "well_formed (sym_const k sym_readU64 f)"
  "well_formed (sym_const k readULEB f)" "well_formed (sym_const k readSLEB f)"
  "well_formed sym_addr" "well_formed (sym_breg op)" "well_formed sym_regx" "well_formed sym_bregx"
  "well_formed sym_fbreg" "well_formed sym_tls" "well_formed (sym_context cfaExpr)"
  "well_formed (sym_context objectAddrExpr)"
  by (rule well_formedI;
      simp add: sym_const_def sym_addr_def sym_breg_def sym_regx_def sym_bregx_def sym_fbreg_def sym_context_def
        sym_tls_def sym_relative_def term_simps)+

lemma well_indexed [well_formed_operation]: "well_formed (sym_indexed is_addr)" "well_formed sym_wasm_location"
  using numbered_names(1,2)
  by (auto intro!: well_formedI simp: sym_indexed_def sym_wasm_location_def term_simps split: option.split)

lemma well_stack [well_formed_operation]:
  "well_formed sym_dup" "well_formed sym_drop" "well_formed sym_over" "well_formed sym_pick"
  "well_formed sym_swap" "well_formed sym_rot"
  by (rule well_formedI;
      auto simp: sym_dup_def sym_drop_def sym_over_def sym_pick_def sym_swap_def sym_rot_def term_simps
        intro!: ok_copy split: list.split; auto simp: ok_state_def)+

lemma well_arithmetic [well_formed_operation]:
  "is_unary k \<Longrightarrow> well_formed (sym_unop k)" "is_binary k \<Longrightarrow> well_formed (sym_binop k)"
  "is_binary k \<Longrightarrow> well_formed (sym_address_binop k f)" "well_formed sym_plus_uconst"
  by (rule well_formedI;
      simp add: sym_unop_def sym_binop_def sym_address_binop_def sym_plus_uconst_def term_simps
        sym_ok_makeUnary sym_ok_makeBinary)+

lemma well_memory [well_formed_operation]:
  "well_formed sym_deref" "well_formed sym_xderef" "well_formed sym_deref_size" "well_formed sym_xderef_size"
  "well_formed (sym_const_type le)" "well_formed (sym_regval_type le)" "well_formed (sym_deref_type le)"
  "well_formed (sym_xderef_type le)" "well_formed (sym_convert le)" "well_formed (sym_reinterpret le)"
  by (rule well_formedI;
      simp add: sym_deref_def sym_xderef_def sym_deref_size_def sym_xderef_size_def sym_const_type_def
        sym_regval_type_def sym_deref_type_def sym_xderef_type_def sym_convert_def sym_reinterpret_def
        term_simps split: option.split)+

lemma well_values [well_formed_operation]:
  "well_formed sym_stack_value" "well_formed (sym_implicit_value le)" "well_formed sym_piece"
  "well_formed sym_bit_piece" "well_formed sym_uninit" "well_formed sym_nop" "well_formed sym_skip"
  by (rule well_formedI;
      simp add: sym_stack_value_def sym_implicit_value_def sym_piece_def sym_bit_piece_def sym_uninit_def
        sym_nop_def sym_skip_def term_simps split: option.split)+

lemma read_encoded_ok:
  "ok_state s \<Longrightarrow> sym_read_encoded fmt e off s = Some p \<Longrightarrow> ok_state (snd (snd p))"
  by (auto simp: sym_read_encoded_def split_beta split: if_splits)

lemma apply_mode_ok: "sym_apply_mode app raw s = Some a \<Longrightarrow> sym_ok raw \<Longrightarrow> sym_ok a"
  by (auto simp: sym_apply_mode_def Let_def split: if_splits)

lemma well_encoded [well_formed_operation]: "well_formed sym_encoded_addr"
proof (rule well_formedI)
  fix n e op_off off s assume "ok_state s"
  obtain c o1 s1 where r: "sym_readU8 e off s = (c, o1, s1)" by (cases "sym_readU8 e off s")
  then have s1: "ok_state s1" using ok_readers(1) [of e off s] \<open>ok_state s\<close> by simp
  have rd: "ok_state t" if "sym_read_encoded fmt e o' s1 = Some (v, o2, t)" for fmt o' v o2 t
    using read_encoded_ok [OF s1 that] by simp
  have ap: "sym_ok a" if "sym_apply_mode app (makeConst v) t = Some a" for app v t a
    using apply_mode_ok [OF that] by simp
  show "ok_next (sym_encoded_addr n e op_off off s)"
    using s1 \<open>ok_state s\<close> by (auto simp: sym_encoded_addr_def r Let_def split: option.split dest: rd ap)
qed

subsection \<open>Nested expressions and branches\<close>

lemma ok_merge_piece:
  assumes "merge_piece le c asz regs tp fp = Inr p" and "sym_ok c" and "ok_term (sp_location tp)" and "ok_term (sp_location fp)"
  shows "ok_term (sp_location p)"
proof -
  have "sym_ok (memory_piece_term asz q)" if "sym_ok (sp_location q)" for q
    using that by (simp add: memory_piece_term_def Let_def sym_ok_makeBinary is_binary_def)
  then have val: "ok_term (piece_value_term le asz regs q)" if "ok_term (sp_location q)" for q
    using that by (auto simp: piece_value_term_def ok_term_def split: piece_kind.split)
  have loc: "ok_term (if sp_location q \<noteq> null_expr then sp_location q else decodeAsValueExprPreserveBytes le bs)"
    if "ok_term (sp_location q)" for q bs using that by simp
  show ?thesis
    using assms val [OF assms(3)] val [OF assms(4)] loc [OF assms(3)] loc [OF assms(4)]
    by (auto simp: merge_piece_def merge_located_def merge_implicit_def choose_value_def Let_def ok_term_def
        sym_ok_makeITE split: if_splits piece_kind.splits)
qed

lemma ok_merge_pieces:
  "merge_pieces le c asz regs tps fps = Inr ps \<Longrightarrow> sym_ok c \<Longrightarrow> ok_pieces tps \<Longrightarrow> ok_pieces fps \<Longrightarrow> ok_pieces ps"
  by (induction le c asz regs tps fps arbitrary: ps rule: merge_pieces.induct)
    (auto split: sum.splits intro: ok_merge_piece)

lemma ok_merged [simp]: "ok_result (merged_result t e ps r1 r2) \<longleftrightarrow> ok_term e \<and> ok_pieces ps"
  by (simp add: merged_result_def Let_def ok_result_def sym_result_def)

lemma ok_merge_results:
  assumes "sym_ok c" and "ok_result r1" and "ok_result r2"
  shows "ok_result (mergeBranchResults le c r1 r2 asz regs)"
proof -
  have val: "ok_term (result_value_term asz regs r)" if "ok_result r" for r
    using that by (auto simp: result_value_term_def ok_result_def ok_term_def split: result_type.split)
  have "ok_result (merge_same_type le c asz regs r1 r2)"
    using assms
    by (auto simp: merge_same_type_def Let_def ok_result_def [of r1] ok_result_def [of r2] ok_term_def sym_ok_makeITE
        split: result_type.split sum.split intro: ok_merge_pieces)
  then show ?thesis
    using assms val [OF assms(2)] val [OF assms(3)]
    by (auto simp: mergeBranchResults_def Let_def ok_term_def sym_ok_makeITE)
qed

lemma well_bra: "well_formed (sym_bra le)"
proof (rule well_formedI)
  fix n e op_off off s assume n: "ok_nested n" and s: "ok_state s"
  have fork: "ok_next (sym_fork le n e o' rel c t)" if "sym_ok c" "ok_state t" for o' rel c t
    using that n by (auto simp: sym_fork_def Let_def ok_nested_def intro!: ok_merge_results split: option.split)
  show "ok_next (sym_bra le n e op_off off s)"
    using s fork by (auto simp: sym_bra_def split_beta split: option.split)
qed

lemma ok_execute:
  assumes "ok_nested n" and "ok_state s"
  shows "ok_state (snd (executeProcedureSubexprInPlace n e s))"
proof -
  obtain r t where rt: "sn_call n e s = (r, t)" by (cases "sn_call n e s")
  then have "ok_result r" "ok_state t" using assms unfolding ok_nested_def by (metis fst_conv, metis snd_conv)
  then show ?thesis
    using assms(2) by (simp add: executeProcedureSubexprInPlace_def rt ok_state_def ok_result_def)
qed

lemma ok_call_at: "ok_nested n \<Longrightarrow> ok_state s \<Longrightarrow> ok_next (sym_call_at name a n off s)"
  using ok_execute [of n "s\<lparr>se_call_depth := se_call_depth s + 1\<rparr>"]
  by (simp add: sym_call_at_def split_beta Let_def split: option.split)

lemma well_calls: "well_formed sym_call2" "well_formed sym_call4" "well_formed sym_call_ref"
  by (rule well_formedI; simp add: sym_call2_def sym_call4_def sym_call_ref_def split_beta ok_call_at)+

lemma ok_materialized:
  assumes "ok_result r" and "op = ''entry_value'' \<or> op = ''gnu_parameter_ref''"
  shows "ok_result (sym_materializeResultAsValue s r bank op)"
  using assms numbered_vars
  by (auto simp: sym_materializeResultAsValue_def Let_def ok_result_def sym_result_def sym_invalid_def ok_term_def
      split: result_type.split option.split)

lemma ok_fresh: "ok_nested n \<Longrightarrow> ok_result (sn_fresh n e s regs)"
  by (simp add: ok_nested_def)

lemma ok_result_term: "ok_result r \<Longrightarrow> sr_expression r \<noteq> null_expr \<Longrightarrow> sym_ok (sr_expression r)"
  by (simp add: ok_result_def ok_term_def)

lemma ok_entry_result: "ok_nested n \<Longrightarrow> ok_result (evalEntryValueSubexpr n e s)"
  unfolding evalEntryValueSubexpr_def Let_def by (intro ok_materialized ok_fresh) simp_all

lemma ok_pointer_base: "ok_result r \<Longrightarrow> sym_ok (implicit_pointer_base s r)"
  using ok_result_term [of r] by (simp add: implicit_pointer_base_def split: option.split)

lemma ok_materialized_term:
  "ok_result r \<Longrightarrow> op = ''entry_value'' \<or> op = ''gnu_parameter_ref'' \<Longrightarrow>
   sr_expression (sym_materializeResultAsValue s r bank op) \<noteq> null_expr \<Longrightarrow>
   sym_ok (sr_expression (sym_materializeResultAsValue s r bank op))"
  by (intro ok_result_term ok_materialized)

lemma well_nested: "well_formed sym_entry_value" "well_formed sym_implicit_pointer" "well_formed sym_parameter_ref"
  by (rule well_formedI;
      auto simp: sym_entry_value_def sym_implicit_pointer_def sym_parameter_ref_def split_beta Let_def
        ok_entry_result ok_result_term ok_fresh intro!: ok_add ok_pointer_base ok_materialized ok_materialized_term split: option.split)+

lemma binary_kinds [simp]:
  "is_binary K_ADD" "is_binary K_SUB" "is_binary K_MUL" "is_binary K_DIV" "is_binary K_MOD" "is_binary K_AND"
  "is_binary K_OR" "is_binary K_XOR" "is_binary K_SHL" "is_binary K_SHR" "is_binary K_SHRA" "is_binary K_EQ"
  "is_binary K_NE" "is_binary K_LT" "is_binary K_LE" "is_binary K_GT" "is_binary K_GE"
  by (simp_all add: is_binary_def)

lemma unary_kinds [simp]: "is_unary K_ABS" "is_unary K_NEG" "is_unary K_NOT"
  by (simp_all add: is_unary_def)

lemma well_handlers: "(op, h) \<in> set (sym_handlers le) \<Longrightarrow> well_formed h"
proof -
  have "list_all (well_formed \<circ> snd) (sym_handlers le)"
    by (simp add: sym_handlers_def well_formed_operation well_bra well_calls well_nested)
  then show "(op, h) \<in> set (sym_handlers le) \<Longrightarrow> well_formed h"
    by (auto simp: list_all_iff)
qed

lemma well_default: "well_formed (sym_default op)"
proof -
  have "well_formed sym_vendor_plus_uconst" "well_formed sym_vendor_deref_size"
    by (rule well_formedI;
        simp add: sym_vendor_plus_uconst_def sym_vendor_deref_size_def split_beta Let_def split: option.split)+
  then have "well_formed h" if "sym_handleVendorProfileOpcode op s = Some h" for h s
    using that well_constants(5)
    by (auto simp: sym_handleVendorProfileOpcode_def sym_vendor_constu_def split: if_splits)
  then have vendor: "ok_next (h n e o1 off s)" if "sym_handleVendorProfileOpcode op s = Some h" "ok_nested n" "ok_state s"
    for h n e o1 off s using that unfolding well_formed_def by blast
  have other: "ok_result (sym_unsupported op o1 s)" for o1 s by (simp add: sym_unsupported_def)
  show ?thesis
  proof (rule well_formedI)
    fix n e o1 off s assume "ok_nested n" "ok_state s"
    with vendor [of s _ n e o1 off] other show "ok_next (sym_default op n e o1 off s)"
      by (fastforce simp: sym_default_def split: option.split sym_next.split)
  qed
qed

lemma ok_switch: "ok_nested n \<Longrightarrow> ok_state s \<Longrightarrow> ok_next (sym_switch le op n e o1 off s)"
proof -
  assume n: "ok_nested n" and s: "ok_state s"
  define h where "h = (case map_of (sym_handlers le) op of Some h \<Rightarrow> h | None \<Rightarrow> sym_default op)"
  have "well_formed h"
    unfolding h_def by (auto intro: well_default well_handlers dest: map_of_SomeD split: option.split)
  then have "ok_next (h n e o1 off s)" using n s by (simp add: well_formed_def)
  moreover have "sym_switch le op n e o1 off s =
      (case h n e o1 off s of Stop r t \<Rightarrow> Stop r t | Go off t \<Rightarrow> sym_decoded o1 t (Go off t))"
    by (simp add: sym_switch_def h_def split: option.split)
  ultimately show ?thesis by (cases "h n e o1 off s") simp_all
qed

lemma ok_step: "ok_nested n \<Longrightarrow> ok_state s \<Longrightarrow> ok_next (sym_step le n e off s)"
  using ok_switch well_constants(8) by (simp add: sym_step_def split_beta well_formed_def)

lemma ok_finish: "ok_state s \<Longrightarrow> ok_result (fst (sym_finish s)) \<and> ok_state (snd (sym_finish s))"
  by (auto simp: sym_finish_def ok_state_def ok_result_def sym_result_def sym_invalid_def split: list.split)

lemma ok_loop:
  "ok_nested n \<Longrightarrow> ok_state s \<Longrightarrow>
   ok_result (fst (sym_loop le n e steps off s)) \<and> ok_state (snd (sym_loop le n e steps off s))"
proof (induction steps arbitrary: off s)
  case (Suc steps)
  show ?case
    using ok_step [OF Suc.prems, of le e off] Suc.IH [OF Suc.prems(1)] ok_finish [OF Suc.prems(2)]
    by (cases "sym_step le n e off s") simp_all
qed (simp add: ok_finish)

lemma ok_from_offset:
  "ok_nested n \<Longrightarrow> ok_state s \<Longrightarrow>
   ok_result (fst (evaluateFromOffset le n e off s)) \<and> ok_state (snd (evaluateFromOffset le n e off s))"
  using ok_loop [of n "s\<lparr>decode_error := None\<rparr>" le e "max_steps e" off] by (simp add: evaluateFromOffset_def split_beta)

lemma ok_evaluate: "ok_nested n \<Longrightarrow> ok_result (sym_evaluate_with le n e c pc regs s)"
  using ok_from_offset [of n "sym_start c pc regs s" le e 0]
  by (simp add: sym_evaluate_with_def split_beta appendDiagnosticContext_def Let_def)
    (simp add: ok_state_def sym_start_def)

lemma ok_levels: "ok_nested deep \<Longrightarrow> ok_nested (sym_level le deep cl bl)"
proof (induction le deep cl bl rule: sym_level.induct)
  case (1 le deep cl bl)
  show ?case
    using "1.prems" ok_from_offset [OF "1.IH"(1)] ok_from_offset [OF "1.IH"(2)] ok_evaluate [OF "1.IH"(3)]
    by (cases bl; cases cl) (simp_all add: ok_nested_def sym_level.simps sym_new_evaluator_def)
qed

lemma evaluate_well_formed: "ok_result (sym_evaluate le deep e c pc regs)"
proof -
  define none where
    "none = \<lparr>sn_branch = \<lambda>e off s. (sym_invalid [], s), sn_call = \<lambda>e s. (sym_invalid [], s),
             sn_fresh = \<lambda>e s regs. sym_invalid []\<rparr>"
  have "ok_nested none" by (simp add: none_def ok_nested_def)
  then have "ok_result (sym_evaluate le none e c pc regs)"
    unfolding sym_evaluate_def by (intro ok_evaluate ok_levels)
  then show ?thesis using evaluate_any_deep [of le deep e c pc regs none] by simp
qed

text \<open>
  C38: whatever the expression, the context and the registers, the term of the result of a symbolic
  evaluation is well formed, and so are the locations of its pieces.
\<close>
theorem sym_evaluate_well_formed:
  "ok_result (sym_evaluate le deep e c pc regs)"
  by (rule evaluate_well_formed)

end
