(* ===== verification/SymReaders.thy ===== *)
theory SymReaders
  imports SymFlow EvalCompile
begin

section \<open>The symbolic evaluator's operand readers\<close>

text \<open>
  On encoded operands the readers of the symbolic evaluator give what those of the evaluator give
  in little-endian order, and move the offset behind the operand without a decode error.
\<close>

lemma uleb_transfer:
  "\<not> execution_error es \<Longrightarrow> \<not> execution_error (snd (snd (ev_uleb_loop b off es r sh))) \<Longrightarrow>
   sym_uleb_loop b off s r sh = (fst (ev_uleb_loop b off es r sh), fst (snd (ev_uleb_loop b off es r sh)), s)"
proof (induction b off es r sh rule: ev_uleb_loop.induct)
  case (1 b off es r sh)
  note unroll = ev_uleb_loop.simps [of b off es r sh]
  show ?case
    using "1.prems" "1.IH" unfolding sym_uleb_loop.simps [of b off s r sh] unroll
    by (auto simp: Let_def split: if_splits)
qed

lemma sleb_transfer:
  "\<not> execution_error es \<Longrightarrow> \<not> execution_error (snd (snd (ev_sleb_loop b off es r sh))) \<Longrightarrow>
   sym_sleb_loop b off s r sh = (fst (ev_sleb_loop b off es r sh), fst (snd (ev_sleb_loop b off es r sh)), s)"
proof (induction b off es r sh rule: ev_sleb_loop.induct)
  case (1 b off es r sh)
  note unroll = ev_sleb_loop.simps [of b off es r sh]
  show ?case
    using "1.prems" "1.IH" unfolding sym_sleb_loop.simps [of b off s r sh] unroll
    by (auto simp: Let_def split: if_splits)
qed

lemma readULEB_encode:
  assumes "encoded_at e off (uleb_encode n)" and "n < 2 ^ 64"
  shows "readULEB e off s = (word_of_nat n, off + length (uleb_encode n), s)"
proof -
  let ?es = "new_evaluator True DefaultMemoryContext"
  have "off < length e" using encoded_at_length [OF assms(1)] uleb_encode_nonempty [of n] by linarith
  moreover have "ev_uleb_loop e off ?es 0 0 = (word_of_nat n, off + length (uleb_encode n), ?es)"
    using ev_uleb_loop_encode [of e off n 0 0 ?es] assms by simp
  ultimately show ?thesis using uleb_transfer [of ?es e off 0 0 s] by (simp add: readULEB_def new_evaluator_def)
qed

lemma readSLEB_encode:
  assumes "encoded_at e off (sleb_encode n)" and "- (2 ^ 63) \<le> n" and "n < 2 ^ 63"
  shows "readSLEB e off s = (word_of_int n, off + length (sleb_encode n), s)"
proof -
  let ?es = "new_evaluator True DefaultMemoryContext"
  have "off < length e" using encoded_at_length [OF assms(1)] sleb_encode_nonempty [of n] by linarith
  moreover obtain r where r: "ev_sleb_loop e off ?es 0 0 = (r, off + length (sleb_encode n), ?es)" "sleb_result r = word_of_int n"
    using ev_sleb_loop_encode [of e off n 0 0 ?es] assms by auto
  moreover have "sym_sleb_loop e off s 0 0 = (r, off + length (sleb_encode n), s)"
    using sleb_transfer [of ?es e off 0 0 s] r(1) by (simp add: new_evaluator_def)
  ultimately show ?thesis by (auto simp: readSLEB_def sleb_result_def split: sum.split)
qed

lemma readU8_in: "off < length e \<Longrightarrow> sym_readU8 e off s = (e ! off, Suc off, s)"
  by (simp add: sym_readU8_def)

lemma encoded_at_nth:
  assumes "encoded_at e off bs" and "i < length bs"
  shows "e ! (off + i) = bs ! i"
proof -
  have "bs ! i = take (length bs) (drop off e) ! i" using assms(1) by (simp add: encoded_at_def)
  then show ?thesis using assms by (simp add: encoded_at_def)
qed

lemma readU64_encode:
  assumes "encoded_at e off (le_bytes 8 (unat v))"
  shows "sym_readU64 e off s = (v, off + 8, s)"
proof -
  let ?bs = "le_bytes 8 (unat v)"
  have "off + 8 \<le> length e" using encoded_at_length [OF assms] by simp
  moreover have "foldl (\<lambda>v i. v OR push_bit (i * 8) (ucast (e ! (off + i)))) 0 [0..<8] =
      foldl (\<lambda>v i. v OR push_bit (i * 8) (ucast (?bs ! i))) (0 :: u64) [0..<8]"
    using encoded_at_nth [OF assms] by (intro foldl_cong) auto
  moreover have "\<dots> = v" using decode_le_fold [of 8 ?bs] unat_u64_bound [of v] by (simp add: le_value_le_bytes)
  ultimately show ?thesis using avail_enough [of off 8 e] by (simp add: sym_readU64_def)
qed

lemma readU16_encode:
  assumes "encoded_at e off (branch_operand True n)" and "n < 2 ^ 15"
  shows "sym_readU16 e off s = (word_of_nat n, off + 2, s)"
proof -
  let ?bs = "le_bytes 2 n"
  have enc: "encoded_at e off ?bs" using assms(1) by (simp add: branch_operand_def ordered_def)
  have "off + 2 \<le> length e" using encoded_at_length [OF enc] by simp
  moreover have "e ! off = ?bs ! 0" "e ! Suc off = ?bs ! 1"
    using encoded_at_nth [OF enc, of 0] encoded_at_nth [OF enc, of 1] by simp_all
  moreover have "ucast (?bs ! 0) OR push_bit 8 (ucast (?bs ! 1)) = (word_of_nat (le_value ?bs) :: u64)"
    using decode_le_fold [of 2 ?bs] by (simp add: upt_rec)
  moreover have "le_value ?bs = n" using assms(2) by (simp add: le_value_le_bytes)
  ultimately show ?thesis using avail_enough [of off 2 e] by (simp add: sym_readU16_def)
qed

lemma target_forward:
  assumes "n < 2 ^ 15" and "off + n \<le> length e"
  shows "sym_target e off (word_of_nat n) = Some (off + n)"
proof -
  have "(ucast (word_of_nat n :: u64) :: u16) = word_of_nat n"
    using assms(1) by (simp add: unsigned_ucast_eq unsigned_of_nat take_bit_nat_eq_self word_unat_eq_iff)
  then show ?thesis using assms sint_small [of n] by (simp add: sym_target_def nat_add_distrib)
qed

end
