(* ===== verification/SymAgree.thy ===== *)
theory SymAgree
  imports SymReaders SymProps SymBound
begin

section \<open>Symbolic and concrete evaluation agree\<close>

text \<open>
  The compiled source expressions of \<open>EvalCompile\<close>, evaluated symbolically: whatever the code does
  not know (the registers it was not given, a zero frame base) is a variable, branches on unknown
  conditions are merged, and the resulting term means, in every world, what the evaluator computes
  with the registers and the frame base of that world.
\<close>

subsection \<open>Where a source expression has a value\<close>

fun binary_kind :: "binary \<Rightarrow> sym_kind" where
  "binary_kind BAnd = K_AND" | "binary_kind BDiv = K_DIV" | "binary_kind BMinus = K_SUB"
| "binary_kind BMod = K_MOD" | "binary_kind BMul = K_MUL" | "binary_kind BOr = K_OR"
| "binary_kind BPlus = K_ADD" | "binary_kind BShl = K_SHL" | "binary_kind BShr = K_SHR"
| "binary_kind BShra = K_SHRA" | "binary_kind BXor = K_XOR" | "binary_kind BEq = K_EQ"
| "binary_kind BGe = K_GE" | "binary_kind BGt = K_GT" | "binary_kind BLe = K_LE"
| "binary_kind BLt = K_LT" | "binary_kind BNe = K_NE"

fun unary_kind :: "unary \<Rightarrow> sym_kind" where
  "unary_kind UAbs = K_ABS" | "unary_kind UNeg = K_NEG" | "unary_kind UNot = K_NOT"

text \<open>The value of a source expression, undefined where it divides by zero.\<close>

fun source_val :: "EvaluationContext \<Rightarrow> u64 list \<Rightarrow> source \<Rightarrow> u64 option" where
  "source_val c regs (Unary u a) = map_option (unary_sem u) (source_val c regs a)"
| "source_val c regs (Binary b x y) =
     Option.bind (source_val c regs x) (\<lambda>v. Option.bind (source_val c regs y) (\<lambda>v'.
       if b \<in> {BDiv, BMod} \<and> v' = 0 then None else Some (binary_sem b v v')))"
| "source_val c regs (AddConst a n) = map_option (\<lambda>v. v + word_of_nat n) (source_val c regs a)"
| "source_val c regs (Cond a t f) =
     Option.bind (source_val c regs a) (\<lambda>v. if v \<noteq> 0 then source_val c regs t else source_val c regs f)"
| "source_val c regs a = Some (source_sem c regs a)"

lemma source_val_sem: "source_val c regs a = Some v \<Longrightarrow> source_sem c regs a = v"
  by (induction a arbitrary: v) (auto simp: bind_eq_Some_conv split: if_splits)

text \<open>The branches that may be taken one inside the other.\<close>

fun conditions :: "source \<Rightarrow> nat" where
  "conditions (Unary u a) = conditions a"
| "conditions (Binary b x y) = conditions x + conditions y"
| "conditions (AddConst a n) = conditions a"
| "conditions (Cond a t f) = conditions a + 1 + max (conditions t) (conditions f)"
| "conditions a = 0"

lemma sem_binary_source:
  "\<not> (b \<in> {BDiv, BMod} \<and> y = 0) \<Longrightarrow> sem_binary (binary_kind b) x y = Some (binary_sem b x y)"
proof -
  assume ok: "\<not> (b \<in> {BDiv, BMod} \<and> y = 0)"
  have div: "x div y = word_of_nat (unat x div unat y)" for x y :: u64
    by (metis unat_div of_nat_unat ucast_id)
  have md: "x mod y = word_of_nat (unat x mod unat y)" for x y :: u64
    by (metis unat_mod of_nat_unat ucast_id)
  have drop: "drop_bit k x = word_of_nat (unat x div 2 ^ k)" for k and x :: u64
    by (metis unat_drop of_nat_unat ucast_id)
  have shra: "signed_drop_bit k x = word_of_int (sint x div 2 ^ k)" for k and x :: u64
  proof -
    have "signed_drop_bit k x = word_of_int (sint (signed_drop_bit k x))" by simp
    then show ?thesis by (simp only: sint_signed_drop_bit_eq drop_bit_int_def)
  qed
  have eq: "sint x = sint y \<longleftrightarrow> x = y" for x y :: u64
    by (auto intro: signed_word_eqI)
  show ?thesis
    using ok by (cases b)
      (simp_all add: div md drop shra and_63 push_bit_eq_mult word_sle_eq word_sless_alt eq truth_def truth_word_def)
qed

lemma sem_unary_source: "sem_unary (unary_kind u) x = Some (unary_sem u x)"
  by (cases u) (auto simp: word_sless_alt not_eq_complement abs_if)

lemma kinds [simp]: "is_binary (binary_kind b)" "is_unary (unary_kind u)"
  by (cases b; simp add: is_binary_def) (cases u; simp add: is_unary_def)

subsection \<open>States that represent a stack of values\<close>

definition refines :: "bool \<Rightarrow> sym_world \<Rightarrow> SymExpr \<Rightarrow> u64 option \<Rightarrow> bool" where
  "refines le w e ov \<longleftrightarrow> sym_ok e \<and> (\<forall>v. ov = Some v \<longrightarrow> denote le w e = Some (Word v))"

definition represents :: "bool \<Rightarrow> sym_world \<Rightarrow> sym_entry \<Rightarrow> u64 option \<Rightarrow> bool" where
  "represents le w x ov \<longleftrightarrow> entry_sort x \<noteq> SK_REGISTER \<and> refines le w (entry_term x) ov"

definition sym_rel ::
  "bool \<Rightarrow> sym_world \<Rightarrow> EvaluationContext \<Rightarrow> u64 list \<Rightarrow> nat \<Rightarrow> u64 option list \<Rightarrow> sym_eval \<Rightarrow> bool" where
  "sym_rel le w cs rs bd vs s \<longleftrightarrow>
     se_ctx s = cs \<and> se_regs s = rs \<and> se_pieces s = [] \<and> decode_error s = None \<and> se_branch_depth s = bd \<and>
     list_all2 (represents le w) (se_stack s) vs"

lemma refines_const [simp]: "refines le w (makeConst v) (Some v)"
  by (simp add: refines_def)

lemma refines_binary:
  assumes "refines le w a x" and "refines le w b y"
  shows "refines le w (makeBinary (binary_kind k) a b)
    (Option.bind x (\<lambda>v. Option.bind y (\<lambda>v'. if k \<in> {BDiv, BMod} \<and> v' = 0 then None else Some (binary_sem k v v'))))"
proof -
  have "denote le w (makeBinary (binary_kind k) a b) = Some (Word r)"
    if "x = Some v" "y = Some v'" "\<not> (k \<in> {BDiv, BMod} \<and> v' = 0)" "r = binary_sem k v v'" for v v' r
    using assms that sem_binary_source [of k v' v]
    by (intro makeBinary_sound) (auto simp: refines_def value_of_two_def sem_two_def)
  then show ?thesis
    using assms by (auto simp: refines_def sym_ok_makeBinary bind_eq_Some_conv split: if_splits)
qed

lemma refines_unary:
  assumes "refines le w a x"
  shows "refines le w (makeUnary (unary_kind u) a) (map_option (unary_sem u) x)"
proof -
  have "sem_one le w (unary_kind u) 0 (Word v) = Some (unary_sem u v)" for v
    using sem_unary_source [of u v] by (cases u) (auto simp: sem_one_def)
  then show ?thesis
    using assms by (auto simp: refines_def sym_ok_makeUnary denote_makeUnary value_of_one_def)
qed

lemma refines_add:
  assumes "refines le w a x" and "refines le w b y"
  shows "refines le w (makeBinary K_ADD a b) (Option.bind x (\<lambda>v. map_option (\<lambda>v'. v + v') y))"
proof -
  have "binary_sem BPlus v v' = v + v'" for v v' by simp
  then have "(\<lambda>v. Option.bind y (\<lambda>v'. if BPlus \<in> {BDiv, BMod} \<and> v' = 0 then None else Some (binary_sem BPlus v v'))) =
      (\<lambda>v. map_option (\<lambda>v'. v + v') y)"
    by (cases y) simp_all
  then show ?thesis using refines_binary [OF assms, of BPlus] by simp
qed

lemma refines_ite:
  assumes "refines le w c x" and "refines le w t y" and "refines le w f z"
  shows "refines le w (makeITE c t f) (Option.bind x (\<lambda>v. if v \<noteq> 0 then y else z))"
proof -
  have "denote le w (makeITE c t f) = Some (Word r)"
    if "x = Some v" "(if v \<noteq> 0 then y else z) = Some r" for v r
    using assms that by (intro makeITE_sound) (auto simp: refines_def sem_ite_def split: if_splits)
  then show ?thesis
    using assms by (auto simp: refines_def sym_ok_makeITE bind_eq_Some_conv)
qed

subsection \<open>Continuations\<close>

text \<open>
  \<open>safe .. n m off F\<close>: from \<open>off\<close>, on a state that represents at least \<open>n\<close> values \<open>vs\<close> and has \<open>m\<close>
  branches left, the loop ends with a value that refines \<open>F vs\<close>.
\<close>

definition final :: "bool \<Rightarrow> sym_world \<Rightarrow> u64 option \<Rightarrow> SymbolicExpressionResult \<Rightarrow> bool" where
  "final le w ov r \<longleftrightarrow> sr_type r = RT_VALUE \<and> refines le w (sr_expression r) ov"

record sym_setup =
  su_le :: bool
  su_world :: sym_world
  su_ctx :: EvaluationContext
  su_regs :: "u64 list"
  su_code :: bytes
  su_level :: "nat \<Rightarrow> sym_nested"

definition state_of :: "sym_setup \<Rightarrow> nat \<Rightarrow> u64 option list \<Rightarrow> sym_eval \<Rightarrow> bool" where
  "state_of u = sym_rel (su_le u) (su_world u) (su_ctx u) (su_regs u)"

definition safe :: "sym_setup \<Rightarrow> nat \<Rightarrow> nat \<Rightarrow> nat \<Rightarrow> (u64 option list \<Rightarrow> u64 option) \<Rightarrow> bool" where
  "safe u n m off F \<longleftrightarrow>
     (\<forall>bl bd s vs steps. m \<le> bl \<and> bd + bl = kMaxBranchDepth \<and> state_of u bd vs s \<and> n \<le> length vs \<and>
        length (su_code u) \<le> off + steps \<longrightarrow>
        final (su_le u) (su_world u) (F vs) (fst (sym_loop (su_le u) (su_level u bl) (su_code u) steps off s)))"

definition good_setup :: "sym_setup \<Rightarrow> bool" where
  "good_setup u \<longleftrightarrow>
     (\<forall>bl. sn_branch (su_level u (Suc bl)) = evaluateFromOffset (su_le u) (su_level u bl)) \<and> length (su_code u) < 2 ^ 15 + 1"

lemma safe_mono: "safe u n m off F \<Longrightarrow> n \<le> n' \<Longrightarrow> m \<le> m' \<Longrightarrow> safe u n' m' off F"
  unfolding safe_def by (meson le_trans)

lemma safeD:
  assumes "safe u n m off F" and "m \<le> bl" and "bd + bl = kMaxBranchDepth" and "state_of u bd vs s"
    and "n \<le> length vs" and "length (su_code u) \<le> off + steps"
  shows "final (su_le u) (su_world u) (F vs) (fst (sym_loop (su_le u) (su_level u bl) (su_code u) steps off s))"
  using assms unfolding safe_def by blast

text \<open>An operation in front of a safe continuation.\<close>

lemma safe_step:
  assumes "safe u n' m off' F" and "off < off'" and "off < length (su_code u)"
    and "\<And>nest bd s vs. state_of u bd vs s \<Longrightarrow> n \<le> length vs \<Longrightarrow>
      \<exists>s'. sym_step (su_le u) nest (su_code u) off s = Go off' s' \<and> state_of u bd (g vs) s' \<and> n' \<le> length (g vs)"
  shows "safe u n m off (\<lambda>vs. F (g vs))"
  unfolding safe_def
proof (intro allI impI)
  fix bl bd s vs steps
  assume a: "m \<le> bl \<and> bd + bl = kMaxBranchDepth \<and> state_of u bd vs s \<and> n \<le> length vs \<and>
    length (su_code u) \<le> off + steps"
  obtain steps' where steps: "steps = Suc steps'" using a assms(3) by (cases steps) auto
  obtain s' where s': "sym_step (su_le u) (su_level u bl) (su_code u) off s = Go off' s'"
    "state_of u bd (g vs) s'" "n' \<le> length (g vs)"
    using assms(4) a by blast
  have "length (su_code u) \<le> off' + steps'" using a steps assms(2) by simp
  then show "final (su_le u) (su_world u) (F (g vs)) (fst (sym_loop (su_le u) (su_level u bl) (su_code u) steps off s))"
    using assms(1,3) a s' by (auto simp: steps safe_def)
qed

subsection \<open>The operations\<close>

lemma handler_codes:
  "map_of (sym_handlers le) 0x0e = Some (sym_const SK_VALUE sym_readU64 (\<lambda>v. v))"
  "map_of (sym_handlers le) 0x10 = Some (sym_const SK_VALUE readULEB (\<lambda>v. v))"
  "map_of (sym_handlers le) 0x91 = Some sym_fbreg" "map_of (sym_handlers le) 0x23 = Some sym_plus_uconst"
  "map_of (sym_handlers le) 0x28 = Some (sym_bra le)" "map_of (sym_handlers le) 0x2f = Some sym_skip"
  "map_of (sym_handlers le) 0x9f = Some sym_stack_value"
  by (simp_all add: sym_handlers_def)

lemma switch_codes:
  "unat ((0x0e :: u8) - 0x30) \<ge> 0x60" "unat ((0x10 :: u8) - 0x30) \<ge> 0x60" "unat ((0x91 :: u8) - 0x30) \<ge> 0x60"
  "unat ((0x23 :: u8) - 0x30) \<ge> 0x60" "unat ((0x28 :: u8) - 0x30) \<ge> 0x60" "unat ((0x2f :: u8) - 0x30) \<ge> 0x60"
  "unat ((0x9f :: u8) - 0x30) \<ge> 0x60"
  by (simp_all add: unsigned_minus_1_eq_mask mask_eq_exp_minus_1)

lemma step_switch:
  assumes "off < length e" and "0x60 \<le> unat (e ! off - 0x30)" and "map_of (sym_handlers le) (e ! off) = Some h"
    and "h nest e off (Suc off) s = Go off' s'" and "decode_error s' = None"
  shows "sym_step le nest e off s = Go off' s'"
proof -
  define x where "x = e ! off - 0x30"
  have "e ! off - 0x50 = x - 0x20" "e ! off - 0x70 = x - 0x40" by (simp_all add: x_def)
  moreover have "0x60 \<le> unat x" using assms(2) by (simp add: x_def)
  then have "\<not> unat x < 32" "\<not> unat (x - 0x20) < 32" "\<not> unat (x - 0x40) < 32"
    by (simp_all add: unat_sub_if')
  ultimately show ?thesis
    using assms by (simp add: sym_step_def sym_readU8_def sym_switch_def sym_decoded_def x_def [symmetric])
qed

lemma step_code:
  assumes "map_of (sym_handlers le) op = Some h" and "0x60 \<le> unat (op - 0x30)" and "encoded_at e off (op # bs)"
    and "h nest e off (Suc off) s = Go off' s'" and "decode_error s' = None"
  shows "sym_step le nest e off s = Go off' s'"
  using step_switch [of off e le h nest s off' s'] assms by (auto simp: encoded_at_Cons)

lemma stack_rel:
  "state_of u bd (v # vs) s \<Longrightarrow> \<exists>x s'. se_stack s = x # s' \<and> represents (su_le u) (su_world u) x v"
  by (auto simp: state_of_def sym_rel_def list_all2_Cons2)

lemma push_rel:
  "state_of u bd vs s \<Longrightarrow> k \<noteq> SK_REGISTER \<Longrightarrow> refines (su_le u) (su_world u) t v \<Longrightarrow>
   state_of u bd (v # vs) (sym_push_as t k s)"
  by (simp add: state_of_def sym_rel_def sym_push_as_def represents_def)

lemma operand_rel:
  assumes "state_of u bd (v # vs) s"
  obtains t s' where "sym_operand s = (t, s')" and "refines (su_le u) (su_world u) t v" and "state_of u bd vs s'"
proof -
  obtain x xs where x: "se_stack s = x # xs" "represents (su_le u) (su_world u) x v"
    using stack_rel [OF assms] by blast
  have "sym_operand s = (entry_term x, s\<lparr>se_stack := xs\<rparr>)"
    using x by (simp add: sym_operand_def sym_pop_def topKind_def materializeForComputation_def represents_def)
  moreover have "state_of u bd vs (s\<lparr>se_stack := xs\<rparr>)"
    using assms x(1) by (simp add: state_of_def sym_rel_def)
  ultimately show thesis using x(2) that by (simp add: represents_def)
qed

lemma rel_decoded: "state_of u bd vs s \<Longrightarrow> decode_error s = None"
  by (simp add: state_of_def sym_rel_def)

lemma unop_rel:
  assumes "state_of u bd (v # vs) s"
  shows "\<exists>s'. sym_unop (unary_kind k) nest e o1 off s = Go off s' \<and> state_of u bd (map_option (unary_sem k) v # vs) s'"
proof -
  obtain t s' where "sym_operand s = (t, s')" "refines (su_le u) (su_world u) t v" "state_of u bd vs s'"
    using operand_rel [OF assms] .
  moreover have "se_stack s \<noteq> []" using stack_rel [OF assms] by auto
  ultimately show ?thesis
    by (auto simp: sym_unop_def sym_need_def Suc_le_eq intro!: push_rel refines_unary)
qed

definition binary_value :: "binary \<Rightarrow> u64 option \<Rightarrow> u64 option \<Rightarrow> u64 option" where
  "binary_value b x y = Option.bind x (\<lambda>v. Option.bind y (\<lambda>v'.
     if b \<in> {BDiv, BMod} \<and> v' = 0 then None else Some (binary_sem b v v')))"

definition binary_operation :: "binary \<Rightarrow> sym_handler" where
  "binary_operation b =
     (if b = BPlus then sym_address_binop K_ADD sum_kind
      else if b = BMinus then sym_address_binop K_SUB difference_kind
      else sym_binop (binary_kind b))"

lemma binary_codes:
  "map_of (sym_handlers le) (binary_code b) = Some (binary_operation b)" "0x60 \<le> unat (binary_code b - 0x30)"
  by (cases b; simp add: sym_handlers_def binary_operation_def)+

lemma unary_codes:
  "map_of (sym_handlers le) (unary_code k) = Some (sym_unop (unary_kind k))" "0x60 \<le> unat (unary_code k - 0x30)"
  by (cases k; simp add: sym_handlers_def)+

lemma binop_rel:
  assumes "state_of u bd (y # x # vs) s"
  shows "\<exists>s'. binary_operation b nest e o1 off s = Go off s' \<and> state_of u bd (binary_value b x y # vs) s'"
proof -
  obtain ty s1 where y: "sym_operand s = (ty, s1)" "refines (su_le u) (su_world u) ty y" "state_of u bd (x # vs) s1"
    using operand_rel [OF assms] .
  obtain tx s2 where x: "sym_operand s1 = (tx, s2)" "refines (su_le u) (su_world u) tx x" "state_of u bd vs s2"
    using operand_rel [OF y(3)] .
  have need: "\<not> length (se_stack s) < 2"
    using assms by (auto simp: state_of_def sym_rel_def list_all2_Cons2)
  have res: "refines (su_le u) (su_world u) (makeBinary (binary_kind b) tx ty) (binary_value b x y)"
    unfolding binary_value_def by (rule refines_binary [OF x(2) y(2)])
  have address: "\<exists>k'. k' \<noteq> SK_REGISTER \<and>
      sym_address_binop k f nest e o1 off s = Go off (sym_push_as (makeBinary k tx ty) k' s2)"
    if "\<And>a b. f a b \<noteq> SK_REGISTER" for k f
  proof -
    obtain xe ye r where st: "se_stack s = ye # xe # r" "entry_sort xe \<noteq> SK_REGISTER" "entry_sort ye \<noteq> SK_REGISTER"
      using assms by (auto simp: state_of_def sym_rel_def list_all2_Cons2 represents_def)
    then show ?thesis
      using y(1) x(1) that
      by (auto simp: sym_address_binop_def sym_need_def sym_pop_def topKind_def materializeForComputation_def
          sym_operand_def Let_def) (use that in blast)
  qed
  show ?thesis
  proof (cases "b = BPlus \<or> b = BMinus")
    case True
    have kinds: "sum_kind i j \<noteq> SK_REGISTER" "difference_kind i j \<noteq> SK_REGISTER" for i j
      by (simp_all add: sum_kind_def difference_kind_def)
    show ?thesis
      using True address [of sum_kind K_ADD, OF kinds(1)] address [of difference_kind K_SUB, OF kinds(2)] res
        push_rel [OF x(3)]
      by (auto simp: binary_operation_def)
  next
    case False
    then show ?thesis
      using y(1) x(1) need res x(3)
      by (auto simp: binary_operation_def sym_binop_def sym_need_def intro!: push_rel)
  qed
qed

lemma plus_uconst_rel:
  assumes "state_of u bd (v # vs) s" and "readULEB e off s = (w, off', s)"
  shows "\<exists>s'. sym_plus_uconst nest e o1 off s = Go off' s' \<and> state_of u bd (map_option (\<lambda>x. x + w) v # vs) s'"
proof -
  obtain x r where st: "se_stack s = x # r" "represents (su_le u) (su_world u) x v"
    using stack_rel [OF assms(1)] by blast
  have rest: "state_of u bd vs (s\<lparr>se_stack := r\<rparr>)"
    using assms(1) st by (simp add: state_of_def sym_rel_def)
  have "refines (su_le u) (su_world u) (makeBinary K_ADD (entry_term x) (makeConst w)) (map_option (\<lambda>x. x + w) v)"
    using refines_add [of "su_le u" "su_world u" "entry_term x" v "makeConst w" "Some w"] st(2)
    by (cases v) (simp_all add: represents_def)
  moreover let ?k = "if normalizeComputationKind (entry_sort x) (entry_term x) = SK_ADDRESS then SK_ADDRESS else SK_VALUE"
  have "sym_plus_uconst nest e o1 off s =
      Go off' (sym_push_as (makeBinary K_ADD (entry_term x) (makeConst w)) ?k (s\<lparr>se_stack := r\<rparr>))"
    using st assms(2) rel_decoded [OF assms(1)]
    by (simp add: sym_plus_uconst_def sym_decoded_def sym_need_def topKind_def sym_pop_def Let_def
        materializeForComputation_def represents_def)
  ultimately show ?thesis using push_rel [OF rest, of ?k] by auto
qed

definition known_world :: "sym_world \<Rightarrow> EvaluationContext \<Rightarrow> u64 list \<Rightarrow> EvaluationContext \<Rightarrow> u64 list \<Rightarrow> bool" where
  "known_world w cs rs c regs \<longleftrightarrow>
     frame_base c = (if frame_base cs \<noteq> 0 then frame_base cs else world_var w ''frame_base'') \<and>
     (\<forall>r<32. (if r < length regs then regs ! r else 0) =
       (if r < length rs then rs ! r else world_var w (''reg'' @ dec_string r)))"

lemma relative_rel:
  assumes "state_of u bd vs s" and "refines (su_le u) (su_world u) base (Some v)"
  shows "state_of u bd (Some (v + d) # vs) (sym_relative base d s)"
  using refines_add [OF assms(2), of "makeConst d" "Some d"] push_rel [OF assms(1)]
  by (simp add: sym_relative_def)

lemma var_names: "var_name_ok ''frame_base''" "var_name_ok (''reg'' @ dec_string n)"
  by (simp_all add: var_name_ok_def delimiter_def)

subsection \<open>Compiled code\<close>

text \<open>
  Code of a source expression in front of a safe continuation for one more value, which is undefined
  where that value is: the code uses up at most its conditions.
\<close>

definition code_safe :: "sym_setup \<Rightarrow> EvaluationContext \<Rightarrow> u64 list \<Rightarrow> source \<Rightarrow> bool" where
  "code_safe u c regs a \<longleftrightarrow>
     (\<forall>off n m F. encoded_at (su_code u) off (compile True a) \<longrightarrow> (\<forall>vs. F (None # vs) = None) \<longrightarrow>
        safe u (Suc n) m (off + length (compile True a)) F \<longrightarrow>
        safe u n (m + conditions a) off (\<lambda>vs. F (source_val c regs a # vs)))"

lemma safe_push:
  assumes "encoded_at (su_code u) off (op # bs)" and "safe u (Suc n) m (off + length (op # bs)) F"
    and "\<And>nest bd s vs. state_of u bd vs s \<Longrightarrow>
      \<exists>s'. sym_step (su_le u) nest (su_code u) off s = Go (off + length (op # bs)) s' \<and> state_of u bd (v # vs) s'"
  shows "safe u n m off (\<lambda>vs. F (v # vs))"
  by (rule safe_step [OF assms(2), where g = "\<lambda>vs. v # vs"])
    (use assms in \<open>auto simp: encoded_at_Cons\<close>)

lemma code_safeD:
  assumes "code_safe u c regs a" and "encoded_at (su_code u) off (compile True a)" and "\<And>vs. F (None # vs) = None"
    and "safe u (Suc n) m (off + length (compile True a)) F"
  shows "safe u n (m + conditions a) off (\<lambda>vs. F (source_val c regs a # vs))"
  using assms unfolding code_safe_def by blast

lemma const_safe: "code_safe u c regs (Const v)"
  unfolding code_safe_def
proof (intro allI impI)
  fix off n m F
  assume enc: "encoded_at (su_code u) off (compile True (Const v))"
    and k: "safe u (Suc n) m (off + length (compile True (Const v))) F"
  have code: "off < length (su_code u)" "su_code u ! off = 0x0e" "encoded_at (su_code u) (Suc off) (le_bytes 8 (unat v))"
    using enc by (simp_all add: encoded_at_Cons ordered_def)
  have "\<exists>s'. sym_step (su_le u) nest (su_code u) off s = Go (off + 9) s' \<and> state_of u bd (Some v # vs) s'"
    if "state_of u bd vs s" for nest bd s vs
  proof -
    have rel: "state_of u bd (Some v # vs) (sym_push_as (makeConst v) SK_VALUE s)"
      using push_rel [OF that] by simp
    show ?thesis
      using step_code [OF handler_codes(1) switch_codes(1) enc [unfolded compile.simps]] readU64_encode [OF code(3), of s]
        rel rel_decoded [OF rel] by (auto simp: sym_const_def)
  qed
  then show "safe u n (m + conditions (Const v)) off (\<lambda>vs. F (source_val c regs (Const v) # vs))"
    using safe_push [of u off "0x0e" "ordered True (le_bytes 8 (unat v))" n m F "Some v"] enc k by simp
qed

lemma constu_safe:
  assumes "n < 2 ^ 64"
  shows "code_safe u c regs (ConstU n)"
  unfolding code_safe_def
proof (intro allI impI)
  fix off j m F
  assume enc: "encoded_at (su_code u) off (compile True (ConstU n))"
    and k: "safe u (Suc j) m (off + length (compile True (ConstU n))) F"
  have code: "encoded_at (su_code u) (Suc off) (uleb_encode n)" using enc by (simp add: encoded_at_Cons)
  have "\<exists>s'. sym_step (su_le u) nest (su_code u) off s = Go (off + length (0x10 # uleb_encode n)) s' \<and>
      state_of u bd (Some (word_of_nat n) # vs) s'" if "state_of u bd vs s" for nest bd s vs
  proof -
    have rel: "state_of u bd (Some (word_of_nat n) # vs) (sym_push_as (makeConst (word_of_nat n)) SK_VALUE s)"
      using push_rel [OF that] by simp
    show ?thesis
      using step_code [OF handler_codes(2) switch_codes(2) enc [unfolded compile.simps]] readULEB_encode [OF code assms, of s]
        rel rel_decoded [OF rel] by (auto simp: sym_const_def)
  qed
  then show "safe u j (m + conditions (ConstU n)) off (\<lambda>vs. F (source_val c regs (ConstU n) # vs))"
    using safe_push [of u off "0x10" "uleb_encode n" j m F "Some (word_of_nat n)"] enc k by simp
qed

lemma frame_safe:
  assumes "- (2 ^ 63) \<le> i" and "i < 2 ^ 63" and "known_world (su_world u) (su_ctx u) (su_regs u) c regs"
  shows "code_safe u c regs (FrameRel i)"
  unfolding code_safe_def
proof (intro allI impI)
  fix off j m F
  assume enc: "encoded_at (su_code u) off (compile True (FrameRel i))"
    and k: "safe u (Suc j) m (off + length (compile True (FrameRel i))) F"
  let ?v = "Some (frame_base c + word_of_int i)"
  have code: "encoded_at (su_code u) (Suc off) (sleb_encode i)" using enc by (simp add: encoded_at_Cons)
  have "\<exists>s'. sym_step (su_le u) nest (su_code u) off s = Go (off + length (0x91 # sleb_encode i)) s' \<and>
      state_of u bd (?v # vs) s'" if "state_of u bd vs s" for nest bd s vs
  proof -
    have "refines (su_le u) (su_world u) (frameBaseExpr s) (Some (frame_base c))"
      using that assms(3) var_names by (simp add: frameBaseExpr_def context_term_def state_of_def sym_rel_def
          known_world_def refines_def)
    then have rel: "state_of u bd (?v # vs) (sym_relative (frameBaseExpr s) (word_of_int i) s)"
      by (rule relative_rel [OF that])
    show ?thesis
      using step_code [OF handler_codes(3) switch_codes(3) enc [unfolded compile.simps]]
        readSLEB_encode [OF code assms(1,2), of s] rel rel_decoded [OF rel] rel_decoded [OF that]
      by (auto simp: sym_fbreg_def sym_decoded_def)
  qed
  then show "safe u j (m + conditions (FrameRel i)) off (\<lambda>vs. F (source_val c regs (FrameRel i) # vs))"
    using safe_push [of u off "0x91" "sleb_encode i" j m F ?v] enc k by simp
qed

lemma breg_step:
  assumes "r < 32" and "encoded_at e off ((0x70 + word_of_nat r) # bs)"
  shows "sym_step le nest e off s = sym_breg (0x70 + word_of_nat r) nest e off (Suc off) s"
proof -
  have u: "unat (0x70 + word_of_nat r :: u8) = 0x70 + r"
    using assms(1) by (simp add: unat_word_ariths unsigned_of_nat take_bit_nat_eq_self)
  have "unat (0x70 + word_of_nat r - DW_OP_lit0) = 0x40 + r" "unat (0x70 + word_of_nat r - DW_OP_reg0) = 0x20 + r"
    "unat (0x70 + word_of_nat r - DW_OP_breg0) = r"
    using assms(1) by (simp_all add: unat_word_ariths unsigned_of_nat take_bit_nat_eq_self unat_sub_if')
  then show ?thesis using assms by (simp add: sym_step_def encoded_at_Cons sym_readU8_def)
qed

lemma reg_safe:
  assumes "r < 32" and "- (2 ^ 63) \<le> i" and "i < 2 ^ 63" and "known_world (su_world u) (su_ctx u) (su_regs u) c regs"
  shows "code_safe u c regs (RegRel r i)"
  unfolding code_safe_def
proof (intro allI impI)
  fix off j m F
  assume enc: "encoded_at (su_code u) off (compile True (RegRel r i))"
    and k: "safe u (Suc j) m (off + length (compile True (RegRel r i))) F"
  let ?op = "0x70 + word_of_nat r" and ?v = "Some ((if r < length regs then regs ! r else 0) + word_of_int i)"
  have code: "encoded_at (su_code u) (Suc off) (sleb_encode i)" using enc by (simp add: encoded_at_Cons)
  have r: "unat (ucast (word_of_nat r :: u8) :: u64) = r" "unat (word_of_nat r :: u8) = r"
    using assms(1) by (simp_all add: unsigned_of_nat take_bit_nat_eq_self)
  have "\<exists>s'. sym_step (su_le u) nest (su_code u) off s = Go (off + length (?op # sleb_encode i)) s' \<and>
      state_of u bd (?v # vs) s'" if "state_of u bd vs s" for nest bd s vs
  proof -
    have "refines (su_le u) (su_world u) (regValueExpr s (ucast (word_of_nat r :: u8)))
        (Some (if r < length regs then regs ! r else 0))"
      using that assms(1,4) var_names by (simp add: regValueExpr_def register_term_def r state_of_def sym_rel_def
          known_world_def refines_def)
    then have rel: "state_of u bd (?v # vs) (sym_relative (regValueExpr s (ucast (word_of_nat r :: u8))) (word_of_int i) s)"
      by (rule relative_rel [OF that])
    have "sym_breg ?op nest (su_code u) off (Suc off) s = Go (off + length (?op # sleb_encode i))
        (sym_relative (regValueExpr s (ucast (word_of_nat r :: u8))) (word_of_int i) s)"
      using readSLEB_encode [OF code assms(2,3), of s] rel_decoded [OF that] by (simp add: sym_breg_def sym_decoded_def)
    then show ?thesis using breg_step [OF assms(1) enc [unfolded compile.simps]] rel by auto
  qed
  then show "safe u j (m + conditions (RegRel r i)) off (\<lambda>vs. F (source_val c regs (RegRel r i) # vs))"
    using safe_push [of u off ?op "sleb_encode i" j m F ?v] enc k by simp
qed

lemma unary_safe:
  assumes "code_safe u c regs a"
  shows "code_safe u c regs (Unary k a)"
  unfolding code_safe_def
proof (intro allI impI)
  fix off j m F
  let ?n = "length (compile True a)"
  define g where "g vs = (case vs of [] \<Rightarrow> [] | v # vs \<Rightarrow> map_option (unary_sem k) v # vs)" for vs
  assume "encoded_at (su_code u) off (compile True (Unary k a))" and strict: "\<forall>vs. F (None # vs) = None"
    and k: "safe u (Suc j) m (off + length (compile True (Unary k a))) F"
  then have enc: "encoded_at (su_code u) off (compile True a)" "encoded_at (su_code u) (off + ?n) [unary_code k]"
    by (simp_all add: encoded_at_append)
  have "safe u (Suc j) m (off + ?n) (\<lambda>vs. F (g vs))"
  proof (rule safe_step)
    show "safe u (Suc j) m (Suc (off + ?n)) F" using k by simp
    fix nest bd s vs assume rel: "state_of u bd vs s" and "Suc j \<le> length vs"
    then obtain v vs' where vs: "vs = v # vs'" by (cases vs) auto
    obtain s' where s': "sym_unop (unary_kind k) nest (su_code u) (off + ?n) (Suc (off + ?n)) s = Go (Suc (off + ?n)) s'"
      "state_of u bd (g vs) s'"
      using unop_rel [of u bd v vs' s k nest "su_code u"] rel unfolding vs g_def by fastforce
    then show "\<exists>s'. sym_step (su_le u) nest (su_code u) (off + ?n) s = Go (Suc (off + ?n)) s' \<and> state_of u bd (g vs) s' \<and>
        Suc j \<le> length (g vs)"
      using step_code [OF unary_codes enc(2) s'(1) rel_decoded [OF s'(2)]] \<open>Suc j \<le> length vs\<close> vs
      by (auto simp: g_def)
  qed (use enc(2) in \<open>auto simp: encoded_at_Cons\<close>)
  then have "safe u j (m + conditions a) off (\<lambda>vs. F (g (source_val c regs a # vs)))"
    using code_safeD [OF assms enc(1), of "\<lambda>vs. F (g vs)"] strict by (simp add: g_def)
  then show "safe u j (m + conditions (Unary k a)) off (\<lambda>vs. F (source_val c regs (Unary k a) # vs))"
    by (simp add: g_def)
qed

lemma add_safe:
  assumes "code_safe u c regs a" and "i < 2 ^ 64"
  shows "code_safe u c regs (AddConst a i)"
  unfolding code_safe_def
proof (intro allI impI)
  fix off j m F
  let ?n = "length (compile True a)" and ?w = "word_of_nat i :: u64"
  define g where "g vs = (case vs of [] \<Rightarrow> [] | v # vs \<Rightarrow> map_option (\<lambda>x. x + ?w) v # vs)" for vs
  let ?o = "Suc (off + ?n) + length (uleb_encode i)"
  assume "encoded_at (su_code u) off (compile True (AddConst a i))" and strict: "\<forall>vs. F (None # vs) = None"
    and k: "safe u (Suc j) m (off + length (compile True (AddConst a i))) F"
  then have enc: "encoded_at (su_code u) off (compile True a)" "encoded_at (su_code u) (off + ?n) (0x23 # uleb_encode i)"
    by (simp_all add: encoded_at_append)
  then have code: "encoded_at (su_code u) (Suc (off + ?n)) (uleb_encode i)" by (simp add: encoded_at_Cons)
  have "safe u (Suc j) m (off + ?n) (\<lambda>vs. F (g vs))"
  proof (rule safe_step)
    show "safe u (Suc j) m ?o F" using k by (simp add: add.assoc)
    fix nest bd s vs assume rel: "state_of u bd vs s" and "Suc j \<le> length vs"
    then obtain v vs' where vs: "vs = v # vs'" by (cases vs) auto
    obtain s' where s': "sym_plus_uconst nest (su_code u) (off + ?n) (Suc (off + ?n)) s = Go ?o s'"
      "state_of u bd (g vs) s'"
      using plus_uconst_rel [OF rel [unfolded vs] readULEB_encode [OF code assms(2), of s]] unfolding vs g_def by fastforce
    then show "\<exists>s'. sym_step (su_le u) nest (su_code u) (off + ?n) s = Go ?o s' \<and> state_of u bd (g vs) s' \<and>
        Suc j \<le> length (g vs)"
      using step_code [OF handler_codes(4) switch_codes(4) enc(2) s'(1) rel_decoded [OF s'(2)]] \<open>Suc j \<le> length vs\<close> vs
      by (auto simp: g_def)
  qed (use enc(2) in \<open>auto simp: encoded_at_Cons\<close>)
  then have "safe u j (m + conditions a) off (\<lambda>vs. F (g (source_val c regs a # vs)))"
    using code_safeD [OF assms(1) enc(1), of "\<lambda>vs. F (g vs)"] strict by (simp add: g_def)
  then show "safe u j (m + conditions (AddConst a i)) off (\<lambda>vs. F (source_val c regs (AddConst a i) # vs))"
    by (simp add: g_def)
qed

lemma binary_safe:
  assumes "code_safe u c regs x" and "code_safe u c regs y"
  shows "code_safe u c regs (Binary b x y)"
  unfolding code_safe_def
proof (intro allI impI)
  fix off j m F
  let ?nx = "length (compile True x)" and ?ny = "length (compile True y)"
  let ?o = "off + ?nx + ?ny"
  define g where "g vs = (case vs of y # x # vs \<Rightarrow> binary_value b x y # vs | _ \<Rightarrow> [None])" for vs
  assume "encoded_at (su_code u) off (compile True (Binary b x y))" and strict: "\<forall>vs. F (None # vs) = None"
    and k: "safe u (Suc j) m (off + length (compile True (Binary b x y))) F"
  then have enc: "encoded_at (su_code u) off (compile True x)" "encoded_at (su_code u) (off + ?nx) (compile True y)"
    "encoded_at (su_code u) ?o [binary_code b]"
    by (simp_all add: encoded_at_append)
  have "safe u (Suc (Suc j)) m ?o (\<lambda>vs. F (g vs))"
  proof (rule safe_step)
    show "safe u (Suc j) m (Suc ?o) F" using k by (simp add: add.assoc)
    fix nest bd s vs assume rel: "state_of u bd vs s" and len: "Suc (Suc j) \<le> length vs"
    then obtain v v' vs' where vs: "vs = v # v' # vs'" by (cases vs; cases "tl vs") auto
    obtain s' where s': "binary_operation b nest (su_code u) ?o (Suc ?o) s = Go (Suc ?o) s'" "state_of u bd (g vs) s'"
      using binop_rel [of u bd v v' vs' s b nest "su_code u"] rel unfolding vs g_def by fastforce
    then show "\<exists>s'. sym_step (su_le u) nest (su_code u) ?o s = Go (Suc ?o) s' \<and> state_of u bd (g vs) s' \<and>
        Suc j \<le> length (g vs)"
      using step_code [OF binary_codes enc(3) s'(1) rel_decoded [OF s'(2)]] len vs by (auto simp: g_def)
  qed (use enc(3) in \<open>auto simp: encoded_at_Cons\<close>)
  moreover have "F (g (None # vs)) = None" for vs
    using strict by (cases vs) (auto simp: g_def binary_value_def)
  ultimately have "safe u (Suc j) (m + conditions y) (off + ?nx) (\<lambda>vs. F (g (source_val c regs y # vs)))"
    using code_safeD [OF assms(2) enc(2), of "\<lambda>vs. F (g vs)"] by simp
  moreover have "F (g (source_val c regs y # None # vs)) = None" for vs
    using strict by (simp add: g_def binary_value_def)
  ultimately have "safe u j (m + conditions y + conditions x) off
      (\<lambda>vs. F (g (source_val c regs y # source_val c regs x # vs)))"
    using code_safeD [OF assms(1) enc(1), of "\<lambda>vs. F (g (source_val c regs y # vs))"] by simp
  then show "safe u j (m + conditions (Binary b x y)) off (\<lambda>vs. F (source_val c regs (Binary b x y) # vs))"
    by (simp add: g_def binary_value_def add.assoc add.commute [of "conditions y"])
qed

text \<open>A branch: the condition is known, or both continuations are run and merged.\<close>

lemma final_weaken: "final le w ov r \<Longrightarrow> final le w None r"
  by (simp add: final_def refines_def)

lemma merged_final:
  assumes "refines le w cond v" and "final le w x rt" and "final le w y rf"
  shows "final le w (Option.bind v (\<lambda>v. if v \<noteq> 0 then x else y)) (mergeBranchResults le' cond rt rf asz regs)"
proof -
  have "sr_expression rt \<noteq> null_expr" "sr_expression rf \<noteq> null_expr"
    using assms by (auto simp: final_def refines_def)
  then show ?thesis
    using assms refines_ite [OF assms(1), of "sr_expression rt" x "sr_expression rf" y]
    by (simp add: final_def mergeBranchResults_def merge_same_type_def merged_result_def sym_result_def Let_def)
qed

lemma branch_safe:
  assumes good: "good_setup u" and enc: "encoded_at (su_code u) o1 (0x28 # branch_operand True n)" and n: "n < 2 ^ 15"
    and room: "o1 + 3 + n \<le> length (su_code u)"
    and taken: "safe u j m (o1 + 3 + n) T" and fall: "safe u j m (o1 + 3) E"
  shows "safe u (Suc j) (m + 1) o1
    (\<lambda>vs. Option.bind (hd vs) (\<lambda>v. if v \<noteq> 0 then T (tl vs) else E (tl vs)))"
  unfolding safe_def
proof (intro allI impI)
  fix bl bd s vs steps
  let ?e = "su_code u" and ?le = "su_le u" and ?w = "su_world u"
  let ?G = "Option.bind (hd vs) (\<lambda>v. if v \<noteq> 0 then T (tl vs) else E (tl vs))"
  assume a: "m + 1 \<le> bl \<and> bd + bl = kMaxBranchDepth \<and> state_of u bd vs s \<and> Suc j \<le> length vs \<and>
    length ?e \<le> o1 + steps"
  obtain v vs' where vs: "vs = v # vs'" using a by (cases vs) auto
  obtain bl' where bl: "bl = Suc bl'" using a by (cases bl) auto
  have op: "o1 < length ?e" using enc by (simp add: encoded_at_Cons)
  then obtain steps' where steps: "steps = Suc steps'" using a by (cases steps) auto
  obtain t s1 where t: "sym_operand s = (t, s1)" "refines ?le ?w t v" "state_of u bd vs' s1"
    using operand_rel [of u bd v vs' s] a unfolding vs by blast
  have rd: "sym_readU16 ?e (Suc o1) s = (word_of_nat n, o1 + 3, s)"
    using readU16_encode [of ?e "Suc o1" n s] enc n by (simp add: encoded_at_Cons)
  have bra: "sym_bra ?le nest ?e o1 (Suc o1) s =
      (case asConst t of
         None \<Rightarrow> sym_fork ?le nest ?e (o1 + 3) (word_of_nat n) t s1
       | Some x \<Rightarrow> if x = 0 then Go (o1 + 3) s1 else Go (o1 + 3 + n) s1)" for nest
    using rd t(1) a target_forward [OF n room] stack_rel [of u bd v vs' s] rel_decoded [of u bd vs s] unfolding vs
    by (auto simp: sym_bra_def sym_decoded_def sym_need_def split: option.split)
  have go: "final ?le ?w (R vs') (fst (sym_loop ?le (su_level u bl) ?e steps' off s1))"
    if "safe u j m off R" "o1 + 1 \<le> off" for R off
    using that a t(3) unfolding safe_def by (auto simp: steps vs)
  show "final ?le ?w ?G (fst (sym_loop ?le (su_level u bl) ?e steps o1 s))"
  proof (cases "asConst t")
    case (Some x)
    have "sym_step ?le (su_level u bl) ?e o1 s = (if x = 0 then Go (o1 + 3) s1 else Go (o1 + 3 + n) s1)"
      using step_code [OF handler_codes(5) switch_codes(5) enc, of ?le "su_level u bl" s _ s1] bra Some rel_decoded [OF t(3)]
      by simp
    moreover have "v = None \<or> v = Some x"
      using t(2) asConst_Some [OF Some, of ?le ?w] by (cases v) (auto simp: refines_def)
    ultimately show ?thesis
      using go [OF taken] go [OF fall] op by (auto simp: steps vs intro: final_weaken)
  next
    case None
    let ?copy = "s1\<lparr>se_branch_depth := se_branch_depth s1 + 1\<rparr>"
    let ?run = "\<lambda>off. fst (evaluateFromOffset ?le (su_level u bl') ?e off ?copy)"
    have depth: "se_branch_depth s1 = bd" using t(3) by (simp add: state_of_def sym_rel_def)
    have copy: "state_of u (bd + 1) vs' (?copy\<lparr>decode_error := None\<rparr>)"
      using t(3) by (simp add: state_of_def sym_rel_def)
    have enough: "length ?e \<le> max_steps ?e" using good max_steps_enough [of ?e] by (simp add: good_setup_def)
    have run: "final ?le ?w (R vs') (?run off)" if "safe u j m off R" for R off
      using safeD [OF that _ _ copy, of bl' "max_steps ?e"] a enough
      by (simp add: evaluateFromOffset_def bl vs split_beta)
    have "sym_step ?le (su_level u bl) ?e o1 s =
        Stop (mergeBranchResults ?le t (?run (o1 + 3 + n)) (?run (o1 + 3)) (ctx_address_size (se_ctx s1)) (se_regs s1)) s1"
      using good bra [of "su_level u bl"] None a depth op enc handler_codes(5) [of ?le] target_forward [OF n room]
      by (simp add: sym_step_def sym_readU8_def sym_switch_def sym_fork_def good_setup_def bl Let_def encoded_at_Cons)
    then show ?thesis
      using merged_final [OF t(2) run [OF taken] run [OF fall]] op unfolding steps vs list.sel by simp
  qed
qed

lemma skip_safe:
  assumes enc: "encoded_at (su_code u) off (0x2f # branch_operand True n)" and n: "n < 2 ^ 15"
    and room: "off + 3 + n \<le> length (su_code u)" and k: "safe u j m (off + 3 + n) F"
  shows "safe u j m off F"
proof -
  have "safe u j m off (\<lambda>vs. F (id vs))"
  proof (rule safe_step [OF k])
    fix nest bd s vs assume rel: "state_of u bd vs s" and len: "j \<le> length vs"
    have "sym_readU16 (su_code u) (Suc off) s = (word_of_nat n, off + 3, s)"
      using readU16_encode [of "su_code u" "Suc off" n s] enc n by (simp add: encoded_at_Cons)
    then have "sym_skip nest (su_code u) off (Suc off) s = Go (off + 3 + n) s"
      using target_forward [OF n room] rel_decoded [OF rel] by (simp add: sym_skip_def sym_decoded_def)
    then show "\<exists>s'. sym_step (su_le u) nest (su_code u) off s = Go (off + 3 + n) s' \<and> state_of u bd (id vs) s' \<and>
        j \<le> length (id vs)"
      using step_code [OF handler_codes(6) switch_codes(6) enc _ rel_decoded [OF rel]] rel len by auto
  qed (use enc in \<open>auto simp: encoded_at_Cons\<close>)
  then show ?thesis by simp
qed

lemma cond_safe:
  assumes "code_safe u c regs a" and "code_safe u c regs t" and "code_safe u c regs f" and "good_setup u"
  shows "code_safe u c regs (Cond a t f)"
  unfolding code_safe_def
proof (intro allI impI)
  fix off j m F
  let ?na = "length (compile True a)" and ?nt = "length (compile True t)" and ?nf = "length (compile True f)"
  let ?val = "source_val c regs"
  define o1 where "o1 = off + ?na"
  define o3 where "o3 = o1 + 3 + ?nf"
  assume code: "encoded_at (su_code u) off (compile True (Cond a t f))" and strict: "\<forall>vs. F (None # vs) = None"
    and k: "safe u (Suc j) m (off + length (compile True (Cond a t f))) F"
  have enc: "encoded_at (su_code u) off (compile True a)" "encoded_at (su_code u) o1 (0x28 # branch_operand True (?nf + 3))"
    "encoded_at (su_code u) (o1 + 3) (compile True f)" "encoded_at (su_code u) o3 (0x2f # branch_operand True ?nt)"
    "encoded_at (su_code u) (o3 + 3) (compile True t)"
    using code by (simp_all add: encoded_at_append encoded_at_Cons o1_def o3_def numeral_3_eq_3 add.assoc)
  have end_eq: "off + length (compile True (Cond a t f)) = o3 + 3 + ?nt" by (simp add: o1_def o3_def)
  have room: "o3 + 3 + ?nt \<le> length (su_code u)" using encoded_at_length [OF enc(5)] .
  have small: "?nt < 2 ^ 15" "?nf + 3 < 2 ^ 15"
    using room assms(4) by (simp_all add: good_setup_def o3_def)
  have last: "safe u (Suc j) m (o3 + 3 + ?nt) F" using k unfolding end_eq .
  have "safe u j (m + conditions t) (o3 + 3) (\<lambda>vs. F (?val t # vs))"
    using code_safeD [OF assms(2) enc(5) _ last] strict by simp
  then have taken: "safe u j (m + max (conditions t) (conditions f)) (o1 + 3 + (?nf + 3)) (\<lambda>vs. F (?val t # vs))"
    using safe_mono [of u j "m + conditions t" "o3 + 3" "\<lambda>vs. F (?val t # vs)" j "m + max (conditions t) (conditions f)"]
    by (simp add: o3_def add.assoc)
  have "safe u j (m + conditions f) (o1 + 3) (\<lambda>vs. F (?val f # vs))"
    using code_safeD [OF assms(3) enc(3), of F j m] skip_safe [OF enc(4) small(1) room last] strict by (simp add: o3_def)
  then have fall: "safe u j (m + max (conditions t) (conditions f)) (o1 + 3) (\<lambda>vs. F (?val f # vs))"
    by (rule safe_mono) simp_all
  define G where "G vs = Option.bind (hd vs) (\<lambda>v. if v \<noteq> 0 then F (?val t # tl vs) else F (?val f # tl vs))" for vs
  have "safe u (Suc j) (m + max (conditions t) (conditions f) + 1) o1 G"
    unfolding G_def using branch_safe [OF assms(4) enc(2) small(2) _ taken fall] room by (simp add: o3_def add.assoc)
  then have "safe u j (m + max (conditions t) (conditions f) + 1 + conditions a) off (\<lambda>vs. G (?val a # vs))"
    unfolding o1_def by - (rule code_safeD [OF assms(1) enc(1)], simp add: G_def, assumption)
  moreover have "G (?val a # vs) = F (?val (Cond a t f) # vs)" for vs
    using strict by (cases "?val a") (simp_all add: G_def)
  ultimately show "safe u j (m + conditions (Cond a t f)) off (\<lambda>vs. F (?val (Cond a t f) # vs))"
    by (simp add: ac_simps)
qed

lemma compile_safe:
  assumes "good_setup u" and "known_world (su_world u) (su_ctx u) (su_regs u) c regs"
  shows "in_range a \<Longrightarrow> code_safe u c regs a"
  by (induction a) (auto simp: const_safe constu_safe frame_safe reg_safe unary_safe binary_safe add_safe cond_safe assms)

lemma stack_value_safe:
  assumes "encoded_at (su_code u) off [0x9f]" and "length (su_code u) = Suc off"
  shows "safe u 1 0 off hd"
  unfolding safe_def
proof (intro allI impI)
  fix bl bd s vs steps
  let ?e = "su_code u" and ?le = "su_le u"
  assume a: "0 \<le> bl \<and> bd + bl = kMaxBranchDepth \<and> state_of u bd vs s \<and> 1 \<le> length vs \<and> length ?e \<le> off + steps"
  then obtain v vs' where vs: "vs = v # vs'" by (cases vs) auto
  obtain steps' where steps: "steps = Suc steps'" using a assms(2) by (cases steps) auto
  obtain x r where x: "se_stack s = x # r" "represents ?le (su_world u) x v"
    using stack_rel [of u bd v vs' s] a unfolding vs by blast
  let ?s = "s\<lparr>se_stack := x\<lparr>entry_sort := SK_VALUE\<rparr> # r\<rparr>"
  have dec: "decode_error ?s = None" "se_pieces ?s = []" using a by (simp_all add: state_of_def sym_rel_def)
  have "sym_stack_value nest ?e off (Suc off) s = Go (Suc off) ?s" for nest
    using x by (simp add: sym_stack_value_def sym_need_def topKind_def setTopKind_def represents_def)
  then have "sym_step ?le (su_level u bl) ?e off s = Go (Suc off) ?s"
    using step_code [OF handler_codes(7) switch_codes(7) assms(1) _ dec(1)] by blast
  moreover have "sym_loop ?le (su_level u bl) ?e steps' (Suc off) ?s = sym_finish ?s"
    using assms(2) by (cases steps') simp_all
  ultimately have "fst (sym_loop ?le (su_level u bl) ?e steps off s) = fst (sym_finish ?s)"
    using assms(2) by (simp add: steps)
  then show "final ?le (su_world u) (hd vs) (fst (sym_loop ?le (su_level u bl) ?e steps off s))"
    using x(2) dec(2) by (simp add: vs final_def sym_finish_def represents_def sym_result_def)
qed

subsection \<open>The theorem\<close>

lemma symbolic_value:
  assumes "in_range a" and "length (compile True a) < 2 ^ 15" and "conditions a \<le> kMaxBranchDepth"
    and "known_world w cs rs c regs" and "source_val c regs a = Some v"
  shows "sr_type (sym_evaluate le deep (compile True a @ [0x9f]) cs pc rs) = RT_VALUE \<and>
    denote le w (sr_expression (sym_evaluate le deep (compile True a @ [0x9f]) cs pc rs)) = Some (Word v)"
proof -
  let ?e = "compile True a @ [0x9f]" and ?nest = "sym_level le deep kMaxDepth"
  define u where "u = \<lparr>su_le = le, su_world = w, su_ctx = cs, su_regs = rs, su_code = ?e, su_level = ?nest\<rparr>"
  define s where "s = (sym_start cs pc rs (new_sym_eval 0 0))\<lparr>decode_error := None\<rparr>"
  have good: "good_setup u"
    using assms(2) by (simp add: good_setup_def u_def level_simps)
  have fits: "encoded_at (su_code u) 0 (compile True a)" "encoded_at (su_code u) (length (compile True a)) [0x9f]"
    "length (su_code u) = Suc (length (compile True a))"
    by (simp_all add: u_def encoded_at_def)
  have code: "code_safe u c regs a"
    using compile_safe [OF good _ assms(1)] assms(4) by (simp add: u_def)
  have last: "safe u (Suc 0) 0 (0 + length (compile True a)) hd"
    using stack_value_safe [OF fits(2,3)] by simp
  have "safe u 0 (0 + conditions a) 0 (\<lambda>vs. hd (source_val c regs a # vs))"
    using code_safeD [OF code fits(1) _ last] by simp
  moreover have "state_of u 0 [] s"
    by (simp add: s_def state_of_def sym_rel_def u_def sym_start_def new_sym_eval_def)
  moreover have "length ?e \<le> max_steps ?e" using max_steps_enough [of ?e] assms(2) by simp
  ultimately have "final le w (Some v) (fst (sym_loop le (?nest kMaxBranchDepth) ?e (max_steps ?e) 0 s))"
    using safeD [of u 0 "conditions a" 0 _ kMaxBranchDepth 0 "[]" s "max_steps ?e"] assms(3,5) by (simp add: u_def)
  then show ?thesis
    by (simp add: sym_evaluate_def sym_evaluate_with_def evaluateFromOffset_def split_beta appendDiagnosticContext_def
        final_def refines_def s_def)
qed

text \<open>
  C6: the symbolic evaluator and the evaluator agree. For every compiled source expression with at
  most 16 conditions, the symbolic evaluation that knows only some registers and perhaps no frame
  base returns a value whose term means, in each world, what the evaluator returns with the registers
  and the frame base of that world, unless the expression divides by zero there.
\<close>
theorem symbolic_agrees:
  assumes "in_range a" and "length (compile True a) < 2 ^ 15" and "conditions a \<le> kMaxBranchDepth"
    and "known_world w cs rs c regs" and "source_val c regs a \<noteq> None" and "object_le s"
  shows "\<exists>r s'. evaluate fuel (compile True a @ [DW_OP_stack_value]) c pc regs s = Some (r, s') \<and> res_type r = RT_VALUE \<and>
    sr_type (sym_evaluate le deep (compile True a @ [DW_OP_stack_value]) cs pc' rs) = RT_VALUE \<and>
    denote le w (sr_expression (sym_evaluate le deep (compile True a @ [DW_OP_stack_value]) cs pc' rs)) =
      Some (Word (res_value r))"
proof -
  obtain v where v: "source_val c regs a = Some v" using assms(5) by auto
  show ?thesis
    using evaluate_compiled [of a s fuel c pc regs] symbolic_value [OF assms(1-4) v, of le deep pc']
      source_val_sem [OF v] assms by (auto simp: expression_result_def)
qed

text \<open>Register 3 is unknown: the term is a choice between \<open>reg3 + 1\<close> and 7 over the condition \<open>reg3\<close>.\<close>

theorem symbolic_agrees_witness:
  "\<exists>r s'. evaluate 0 (compile True (Cond (RegRel 3 0) (AddConst (RegRel 3 0) 1) (Const 7)) @ [DW_OP_stack_value])
        default_context 0 [0, 0, 0, 41] (new_evaluator True DefaultMemoryContext) = Some (r, s') \<and> res_type r = RT_VALUE \<and>
    sr_type (sym_evaluate True \<lparr>sn_branch = \<lambda>e off s. (sym_invalid [], s), sn_call = \<lambda>e s. (sym_invalid [], s),
        sn_fresh = \<lambda>e s regs. sym_invalid []\<rparr>
      (compile True (Cond (RegRel 3 0) (AddConst (RegRel 3 0) 1) (Const 7)) @ [DW_OP_stack_value]) default_context 0 []) = RT_VALUE \<and>
    denote True \<lparr>world_var = (\<lambda>n. if n = ''reg3'' then 41 else 0), world_load = (\<lambda>a n. 0)\<rparr>
      (sr_expression (sym_evaluate True \<lparr>sn_branch = \<lambda>e off s. (sym_invalid [], s), sn_call = \<lambda>e s. (sym_invalid [], s),
          sn_fresh = \<lambda>e s regs. sym_invalid []\<rparr>
        (compile True (Cond (RegRel 3 0) (AddConst (RegRel 3 0) 1) (Const 7)) @ [DW_OP_stack_value]) default_context 0 [])) =
      Some (Word (res_value r))"
proof (rule symbolic_agrees)
  have reg: "(''reg'' @ dec_string r = ''reg3'') = (r = 3)" for r
  proof -
    have "dec_string 3 = ''3''" by (simp add: dec_string_def radix_string.simps digit_char_def char_of_def bit_iff_odd)
    then show ?thesis using dec_string_eq [of r 3] by simp
  qed
  show "known_world \<lparr>world_var = (\<lambda>n. if n = ''reg3'' then 41 else 0), world_load = (\<lambda>a n. 0)\<rparr> default_context []
      default_context [0, 0, 0, 41]"
    using reg by (auto simp: known_world_def default_context_def nth_Cons split: nat.split)
qed (simp_all add: new_evaluator_def kMaxBranchDepth_def uleb_encode.simps sleb_encode.simps)

end
