(* ===== verification/SymCompare.thy ===== *)
theory SymCompare
  imports SymKeys SymWell SymAgree
begin

section \<open>Comparison by normal forms\<close>

text \<open>
  \<open>normalizeExpressionSemantically\<close> of \<open>expression_compare.cpp\<close>: evaluate symbolically, move
  relocated addresses, rewrite, and print the comparison key. Two expressions with the same key are
  taken for equivalent; the theorems say that they are.
\<close>

record NormalizedExpressionInfo =
  ni_available :: bool
  ni_kind :: string
  ni_key :: string
  ni_rule_class :: string
  ni_address_remapped :: bool

subsection \<open>Keys of results\<close>

definition canonicalizeCompositePiece :: "SymPiece \<Rightarrow> string" where
  "canonicalizeCompositePiece p =
     ''piece('' @ (case sp_kind p of PIECE_MEMORY \<Rightarrow> ''mem'' | PIECE_REGISTER \<Rightarrow> ''reg'' | PIECE_IMPLICIT \<Rightarrow> ''impl''
                   | PIECE_EMPTY \<Rightarrow> ''empty'')
     @ '',bs='' @ dec_string (unat (sp_byte_size p)) @ '',bits='' @ dec_string (unat (sp_bit_size p))
     @ '',bo='' @ dec_string (unat (sp_bit_offset p))
     @ (if sp_implicit p \<noteq> [] then '','' @ canonicalizeBytes (sp_implicit p)
        else if sp_location p \<noteq> null_expr then '','' @ canonicalizeSymExpr (sp_location p) else [])
     @ '')''"

fun separated :: "string \<Rightarrow> string list \<Rightarrow> string" where
  "separated sep [] = []"
| "separated sep [x] = x"
| "separated sep (x # xs) = x @ sep @ separated sep xs"

definition pieces_key :: "string \<Rightarrow> SymPiece list \<Rightarrow> string" where
  "pieces_key prefix ps = prefix @ ''['' @ separated '';'' (map canonicalizeCompositePiece ps) @ '']''"

definition type_prefix :: "result_type \<Rightarrow> string" where
  "type_prefix t =
     (case t of
        RT_ADDRESS \<Rightarrow> ''symbolic_address'' | RT_VALUE \<Rightarrow> ''symbolic_value'' | RT_REGISTER \<Rightarrow> ''symbolic_register'' | _ \<Rightarrow> [])"

definition canonicalizeResultKindAndKey :: "SymbolicExpressionResult \<Rightarrow> string \<times> string" where
  "canonicalizeResultKindAndKey r =
     (if sr_type r = RT_INVALID then ([], [])
      else if sr_type r = RT_COMPOSITE then (''symbolic_composite'', pieces_key ''composite'' (sr_pieces r))
      else if sr_expression r = null_expr then ([], [])
      else (type_prefix (sr_type r), canonicalizeSymExpr (sr_expression r)))"

definition rawResultKindAndKey :: "SymbolicExpressionResult \<Rightarrow> string" where
  "rawResultKindAndKey r =
     (if sr_type r = RT_INVALID then []
      else if sr_type r = RT_COMPOSITE then pieces_key ''symbolic_composite'' (sr_pieces r)
      else if sr_expression r = null_expr then []
      else type_prefix (sr_type r) @ '':'' @ toString (sr_expression r))"

definition summarizeSymbolicPiece :: "SymPiece \<Rightarrow> string" where
  "summarizeSymbolicPiece p =
     ''k='' @ dec_string (case sp_kind p of PIECE_MEMORY \<Rightarrow> 0 | PIECE_REGISTER \<Rightarrow> 1 | PIECE_IMPLICIT \<Rightarrow> 2 | PIECE_EMPTY \<Rightarrow> 3)
     @ '',bs='' @ dec_string (unat (sp_byte_size p)) @ '',bits='' @ dec_string (unat (sp_bit_size p))
     @ '',bo='' @ dec_string (unat (sp_bit_offset p))
     @ (if sp_location p \<noteq> null_expr then '',loc='' @ toString (sp_location p) else [])
     @ (if sp_implicit p \<noteq> [] then '',impl='' @ concat (map hex_byte (sp_implicit p)) else [])"

definition summarizeSymbolicResult :: "SymbolicExpressionResult \<Rightarrow> string" where
  "summarizeSymbolicResult r =
     (let text = (if sr_expression r \<noteq> null_expr then toString (sr_expression r) else ''<null>'') in
      case sr_type r of
        RT_ADDRESS \<Rightarrow> ''ADDRESS:'' @ text
      | RT_VALUE \<Rightarrow> ''VALUE:'' @ text
      | RT_REGISTER \<Rightarrow> ''REGISTER:'' @ text
      | RT_COMPOSITE \<Rightarrow> ''COMPOSITE['' @ separated '';'' (map summarizeSymbolicPiece (sr_pieces r)) @ '']''
      | RT_INVALID \<Rightarrow> ''INVALID:'' @ sr_error r)"

subsection \<open>Normalization\<close>

text \<open>The two optional steps between evaluation and printing; \<open>None\<close> is an empty callback.\<close>

definition remap_result ::
  "(u64 \<Rightarrow> u64 option) option \<Rightarrow> SymbolicExpressionResult \<Rightarrow> SymbolicExpressionResult \<times> bool" where
  "remap_result remap r =
     (if remap \<noteq> None \<and> sr_expression r \<noteq> null_expr \<and> sr_type r = RT_ADDRESS then
        (case rewriteAddressConstants (sr_expression r) remap False of
           (e, changed) \<Rightarrow> if changed then (r\<lparr>sr_expression := e\<rparr>, True) else (r, False))
      else (r, False))"

definition rewrite_result :: "SymbolicExpressionResult \<Rightarrow> SymbolicExpressionResult \<times> string" where
  "rewrite_result r =
     (if sr_expression r = null_expr then (r, [])
      else case rewriteSymExprImpl (sr_expression r) (False, []) of
        (e, changed, rule) \<Rightarrow>
          if changed then (r\<lparr>sr_expression := e\<rparr>, if rule = [] then ''algebraic_identity'' else rule) else (r, []))"

definition normalizeExpressionSemantically ::
  "bool \<Rightarrow> sym_nested \<Rightarrow> bytes \<Rightarrow> EvaluationContext \<Rightarrow> u64 \<Rightarrow> u64 list \<Rightarrow> (u64 \<Rightarrow> u64 option) option \<Rightarrow> NormalizedExpressionInfo" where
  "normalizeExpressionSemantically le deep e c pc regs remap =
     (if e = [] then \<lparr>ni_available = False, ni_kind = [], ni_key = [], ni_rule_class = [], ni_address_remapped = False\<rparr>
      else
        case remap_result remap (sym_evaluate le deep e c pc regs) of (r, remapped) \<Rightarrow>
        case rewrite_result r of (r, rule) \<Rightarrow>
        case canonicalizeResultKindAndKey r of (kind, key) \<Rightarrow>
        \<lparr>ni_available = key \<noteq> [], ni_kind = kind, ni_key = key, ni_rule_class = rule, ni_address_remapped = remapped\<rparr>)"

subsection \<open>Equal keys\<close>

lemma rewrite_result_refined:
  assumes "sym_ok (sr_expression r)"
  shows "sym_ok (sr_expression (fst (rewrite_result r))) \<and> sr_type (fst (rewrite_result r)) = sr_type r \<and>
    (denote le w (sr_expression r) = Some v \<longrightarrow> denote le w (sr_expression (fst (rewrite_result r))) = Some v)"
proof -
  obtain e changed rule where e: "rewriteSymExprImpl (sr_expression r) (False, []) = (e, changed, rule)"
    by (cases "rewriteSymExprImpl (sr_expression r) (False, [])") auto
  have "refined le w (sr_expression r) e"
    using rewrite_refined(1) [OF assms, of le w "(False, [])"] by (simp add: e)
  then show ?thesis using assms by (auto simp: rewrite_result_def e refined_def)
qed

text \<open>What an available normal form of a term comes from.\<close>

lemma normal_form_term:
  assumes "normalizeExpressionSemantically le deep e c pc regs None = n" and "ni_available n"
    and "ni_kind n \<noteq> ''symbolic_composite''"
  obtains t where "sym_ok t" and "ni_key n = canonicalizeSymExpr t"
    and "\<And>v. denote le w (sr_expression (sym_evaluate le deep e c pc regs)) = Some v \<Longrightarrow> denote le w t = Some v"
    and "ni_kind n = type_prefix (sr_type (sym_evaluate le deep e c pc regs))"
proof -
  let ?r = "sym_evaluate le deep e c pc regs"
  let ?t = "fst (rewrite_result ?r)"
  have n: "e \<noteq> []" "canonicalizeResultKindAndKey ?t = (ni_kind n, ni_key n)" "ni_key n \<noteq> []"
    using assms(1,2) by (auto simp: normalizeExpressionSemantically_def remap_result_def split: prod.splits if_splits)
  have "sr_expression ?r \<noteq> null_expr"
  proof
    assume "sr_expression ?r = null_expr"
    then have "?t = ?r" by (simp add: rewrite_result_def)
    with n assms(3) \<open>sr_expression ?r = null_expr\<close> show False
      by (auto simp: canonicalizeResultKindAndKey_def split: if_splits)
  qed
  then have ok: "sym_ok (sr_expression ?r)" using evaluate_well_formed [of le deep e c pc regs] by (simp add: ok_result_def ok_term_def)
  note ref = rewrite_result_refined [OF ok]
  show thesis
  proof (rule that [of "sr_expression ?t"])
    show "sym_ok (sr_expression ?t)" using ref by blast
    show "ni_key n = canonicalizeSymExpr (sr_expression ?t)" "ni_kind n = type_prefix (sr_type ?r)"
      using n assms(3) ref by (auto simp: canonicalizeResultKindAndKey_def split: if_splits)
    show "denote le w (sr_expression ?t) = Some v" if "denote le w (sr_expression ?r) = Some v" for v
      using ref that by blast
  qed
qed

lemma same_normal_form:
  assumes "normalizeExpressionSemantically le deep e1 c1 pc1 regs1 None = n1"
    and "normalizeExpressionSemantically le deep e2 c2 pc2 regs2 None = n2"
    and "ni_available n1" and "ni_available n2" and "ni_key n1 = ni_key n2"
    and "ni_kind n1 \<noteq> ''symbolic_composite''" and "ni_kind n2 \<noteq> ''symbolic_composite''"
    and "denote le w (sr_expression (sym_evaluate le deep e1 c1 pc1 regs1)) = Some v1"
    and "denote le w (sr_expression (sym_evaluate le deep e2 c2 pc2 regs2)) = Some v2"
  shows "v1 = v2"
proof -
  obtain t1 where t1: "sym_ok t1" "ni_key n1 = canonicalizeSymExpr t1" "denote le w t1 = Some v1"
    using normal_form_term [OF assms(1,3,6), of w] assms(8) by metis
  obtain t2 where t2: "sym_ok t2" "ni_key n2 = canonicalizeSymExpr t2" "denote le w t2 = Some v2"
    using normal_form_term [OF assms(2,4,7), of w] assms(9) by metis
  have "denote le w t1 = denote le w t2" using same_key_meaning [OF t1(1) t2(1)] t1 t2 assms(5) by simp
  then show ?thesis using t1 t2 by simp
qed

text \<open>
  C37: two expressions whose normal forms have the same key, neither of them composite, have results
  that mean the same in every world in which both mean anything, whatever contexts and registers
  they were evaluated with.
\<close>
theorem normal_form_sound:
  assumes "normalizeExpressionSemantically le deep e1 c1 pc1 regs1 None = n1"
    and "normalizeExpressionSemantically le deep e2 c2 pc2 regs2 None = n2"
    and "ni_available n1" and "ni_available n2" and "ni_key n1 = ni_key n2"
    and "ni_kind n1 \<noteq> ''symbolic_composite''" and "ni_kind n2 \<noteq> ''symbolic_composite''"
    and "denote le w (sr_expression (sym_evaluate le deep e1 c1 pc1 regs1)) = Some v1"
    and "denote le w (sr_expression (sym_evaluate le deep e2 c2 pc2 regs2)) = Some v2"
  shows "v1 = v2"
  using same_normal_form [OF assms] .

subsection \<open>Equivalent expressions compute the same\<close>

text \<open>The world of a register file and a frame base.\<close>

definition world_of :: "EvaluationContext \<Rightarrow> u64 list \<Rightarrow> sym_world" where
  "world_of c regs =
     \<lparr>world_var = (\<lambda>n. case List.find (\<lambda>r. n = ''reg'' @ dec_string r) [0..<32] of
                     Some r \<Rightarrow> if r < length regs then regs ! r else 0
                   | None \<Rightarrow> if n = ''frame_base'' then frame_base c else 0),
      world_load = (\<lambda>a n. 0)\<rparr>"

lemma find_register_below:
  assumes "r < n"
  shows "List.find (\<lambda>i. ''reg'' @ dec_string r = ''reg'' @ dec_string i) [0..<n] = Some r"
proof -
  have "[0..<n] ! i = i" if "i < n" for i using that by simp
  then show ?thesis using assms unfolding find_Some_iff by (intro exI [of _ r]) auto
qed

lemmas find_register = find_register_below [of _ 32]

lemma find_frame_base: "List.find (\<lambda>i. ''frame_base'' = ''reg'' @ dec_string i) [0..<32] = None"
  by (simp add: find_None_iff)

lemma known_world_of:
  "frame_base cs = 0 \<or> frame_base cs = frame_base c \<Longrightarrow> known_world (world_of c regs) cs [] c regs"
  using find_register find_frame_base by (auto simp: known_world_def world_of_def)

lemma key_nonempty: "sym_ok e \<Longrightarrow> canonicalizeSymExpr e \<noteq> []"
  by (cases e) (auto simp: node_key_def canonicalizeBytes_def split: sym_kind.split)

text \<open>A value always has a normal form.\<close>

lemma value_normal_form:
  assumes "e \<noteq> []" and "sr_type (sym_evaluate le deep e c pc regs) = RT_VALUE"
    and "denote le w (sr_expression (sym_evaluate le deep e c pc regs)) = Some v"
  shows "ni_available (normalizeExpressionSemantically le deep e c pc regs None)"
    and "ni_kind (normalizeExpressionSemantically le deep e c pc regs None) = ''symbolic_value''"
proof -
  let ?r = "sym_evaluate le deep e c pc regs"
  have "sr_expression ?r \<noteq> null_expr" using assms(3) by auto
  then have "sym_ok (sr_expression ?r)"
    using evaluate_well_formed [of le deep e c pc regs] by (simp add: ok_result_def ok_term_def)
  note ref = rewrite_result_refined [OF this]
  then have ok: "sym_ok (sr_expression (fst (rewrite_result ?r)))" by blast
  then have "sr_expression (fst (rewrite_result ?r)) \<noteq> null_expr" by auto
  then show "ni_available (normalizeExpressionSemantically le deep e c pc regs None)"
    "ni_kind (normalizeExpressionSemantically le deep e c pc regs None) = ''symbolic_value''"
    using assms(1,2) ref key_nonempty [OF ok]
    by (auto simp: normalizeExpressionSemantically_def remap_result_def canonicalizeResultKindAndKey_def type_prefix_def
        split_beta)
qed

text \<open>
  C5: two compiled expressions that compare equal without knowing any register or frame base compute the
  same value: for every register file and frame base where neither divides by zero, the evaluator
  returns the same number for both.
\<close>
theorem equal_keys_equal_values:
  assumes "in_range a" and "length (compile True a) < 2 ^ 15" and "conditions a \<le> kMaxBranchDepth"
    and "in_range b" and "length (compile True b) < 2 ^ 15" and "conditions b \<le> kMaxBranchDepth"
    and "ni_key (normalizeExpressionSemantically le deep (compile True a @ [DW_OP_stack_value]) cs pc [] None) =
         ni_key (normalizeExpressionSemantically le deep (compile True b @ [DW_OP_stack_value]) cs pc [] None)"
    and "frame_base cs = 0" and "object_le s"
    and "source_val c regs a \<noteq> None" and "source_val c regs b \<noteq> None"
  shows "\<exists>ra sa rb sb.
    evaluate fuel (compile True a @ [DW_OP_stack_value]) c pc' regs s = Some (ra, sa) \<and>
    evaluate fuel (compile True b @ [DW_OP_stack_value]) c pc' regs s = Some (rb, sb) \<and>
    res_type ra = RT_VALUE \<and> res_type rb = RT_VALUE \<and> res_value ra = res_value rb"
proof -
  let ?a = "compile True a @ [0x9f]" and ?b = "compile True b @ [0x9f]" and ?w = "world_of c regs"
  obtain v v' where v: "source_val c regs a = Some v" "source_val c regs b = Some v'"
    using assms(10,11) by auto
  have world: "known_world ?w cs [] c regs" using assms(8) by (simp add: known_world_of)
  note sa = symbolic_value [OF assms(1-3) world v(1), of le deep pc]
  note sb = symbolic_value [OF assms(4-6) world v(2), of le deep pc]
  have na: "ni_available (normalizeExpressionSemantically le deep ?a cs pc [] None)"
    "ni_kind (normalizeExpressionSemantically le deep ?a cs pc [] None) = ''symbolic_value''"
    using value_normal_form [of ?a le deep cs pc "[]"] sa by auto
  have nb: "ni_available (normalizeExpressionSemantically le deep ?b cs pc [] None)"
    "ni_kind (normalizeExpressionSemantically le deep ?b cs pc [] None) = ''symbolic_value''"
    using value_normal_form [of ?b le deep cs pc "[]"] sb by auto
  have "Word v = Word v'"
    by (rule same_normal_form [OF refl refl na(1) nb(1) assms(7), where w = ?w]) (use na(2) nb(2) sa sb in simp_all)
  then show ?thesis
    using evaluate_compiled [of a s fuel c pc' regs] evaluate_compiled [of b s fuel c pc' regs] assms
      source_val_sem [OF v(1)] source_val_sem [OF v(2)] by (auto simp: expression_result_def)
qed

text \<open>The operands of an addition in either order.\<close>

definition sum_one :: source where
  "sum_one = Binary BPlus (RegRel 3 0) (FrameRel 8)"

definition sum_two :: source where
  "sum_two = Binary BPlus (FrameRel 8) (RegRel 3 0)"

definition no_nested :: sym_nested where
  "no_nested = \<lparr>sn_branch = \<lambda>e off s. (sym_invalid [], s), sn_call = \<lambda>e s. (sym_invalid [], s),
                sn_fresh = \<lambda>e s regs. sym_invalid []\<rparr>"

lemma sums_compiled:
  "compile True sum_one @ [DW_OP_stack_value] = [0x73, 0x00, 0x91, 0x08, 0x22, 0x9f]"
  "compile True sum_two @ [DW_OP_stack_value] = [0x91, 0x08, 0x73, 0x00, 0x22, 0x9f]"
  by (simp_all add: sum_one_def sum_two_def sleb_encode.simps)

lemma loop_go:
  "off < length e \<Longrightarrow> sym_step le n e off s = Go off' s' \<Longrightarrow> sym_loop le n e (Suc steps) off s = sym_loop le n e steps off' s'"
  by simp

definition sum_start :: sym_eval where
  "sum_start = (sym_start default_context 0 [] (new_sym_eval 0 0))\<lparr>decode_error := None\<rparr>"

lemma sum_start_fields:
  "se_stack sum_start = []" "se_regs sum_start = []" "se_ctx sum_start = default_context" "se_pieces sum_start = []"
  "decode_error sum_start = None"
  by (simp_all add: sum_start_def sym_start_def new_sym_eval_def)

lemma sum_terms:
  "makeBinary K_ADD (makeVar ''reg3'') (makeConst 0) = makeVar ''reg3''"
  "makeBinary K_ADD (makeVar ''frame_base'') (makeConst 8) = sym_node K_ADD [makeVar ''frame_base'', makeConst 8]"
  by (simp_all add: makeBinary_def foldBinary_def makeVar_def makeConst_def sym_node_def)

lemma reg3_name: "dec_string 3 = ''3''"
  by (simp add: dec_string_def radix_string.simps digit_char_def char_of_def bit_iff_odd)

lemma sum_steps:
  assumes "decode_error s = None" and "se_regs s = []" and "se_ctx s = default_context"
  shows "encoded_at e off [0x73, 0x00] \<Longrightarrow> sym_step True n e off s = Go (off + 2) (sym_push_as (makeVar ''reg3'') SK_ADDRESS s)"
    and "encoded_at e off [0x91, 0x08] \<Longrightarrow>
      sym_step True n e off s = Go (off + 2) (sym_push_as (sym_node K_ADD [makeVar ''frame_base'', makeConst 8]) SK_ADDRESS s)"
proof -
  assume enc: "encoded_at e off [0x73, 0x00]"
  then have code: "encoded_at e (Suc off) (sleb_encode 0)" "encoded_at e off ((0x70 + word_of_nat 3) # [0])"
    by (simp_all add: encoded_at_Cons sleb_encode.simps)
  have "readSLEB e (Suc off) s = (0, off + 2, s)"
    using readSLEB_encode [OF code(1), of s] by (simp add: sleb_encode.simps)
  then show "sym_step True n e off s = Go (off + 2) (sym_push_as (makeVar ''reg3'') SK_ADDRESS s)"
    using breg_step [OF _ code(2), of True n s] assms
    by (simp add: sym_breg_def sym_decoded_def sym_relative_def regValueExpr_def register_term_def reg3_name sum_terms)
next
  assume enc: "encoded_at e off [0x91, 0x08]"
  then have code: "encoded_at e (Suc off) (sleb_encode 8)" by (simp add: encoded_at_Cons sleb_encode.simps)
  have "readSLEB e (Suc off) s = (8, off + 2, s)"
    using readSLEB_encode [OF code, of s] by (simp add: sleb_encode.simps)
  then show "sym_step True n e off s =
      Go (off + 2) (sym_push_as (sym_node K_ADD [makeVar ''frame_base'', makeConst 8]) SK_ADDRESS s)"
    using step_code [OF handler_codes(3) switch_codes(3) enc, where le = True and nest = n and s = s] assms
    by (simp add: sym_fbreg_def sym_decoded_def sym_relative_def frameBaseExpr_def context_term_def default_context_def
        sum_terms sym_push_as_def)
qed

lemma sum_plus:
  assumes "encoded_at e off [0x22]" and "decode_error s = None" and "se_stack s = y # x # r"
    and "entry_sort x = SK_ADDRESS" and "entry_sort y = SK_ADDRESS"
    and "asConst (entry_term x) = None" and "asConst (entry_term y) = None"
    and "asBytes (entry_term x) = None" and "asBytes (entry_term y) = None"
  shows "sym_step True n e off s =
    Go (Suc off) (sym_push_as (sym_node K_ADD [entry_term x, entry_term y]) SK_ADDRESS (s\<lparr>se_stack := r\<rparr>))"
proof -
  have "makeBinary K_ADD (entry_term x) (entry_term y) = sym_node K_ADD [entry_term x, entry_term y]"
    using assms by (simp add: makeBinary_def foldBinary_def)
  then have "sym_address_binop K_ADD sum_kind n e off (Suc off) s =
      Go (Suc off) (sym_push_as (sym_node K_ADD [entry_term x, entry_term y]) SK_ADDRESS (s\<lparr>se_stack := r\<rparr>))"
    using assms by (simp add: sym_address_binop_def sym_need_def sym_pop_def topKind_def Let_def
        materializeForComputation_def sum_kind_def normalizeComputationKind_def isImmediateLike_def)
  moreover have "decode_error (sym_push_as t k (s\<lparr>se_stack := r\<rparr>)) = None" for t k
    using assms(2) by (simp add: sym_push_as_def)
  ultimately show ?thesis
    using step_code [OF _ _ assms(1), where le = True and h = "sym_address_binop K_ADD sum_kind" and nest = n and s = s]
    by (simp add: sym_handlers_def)
qed

lemma sum_stack_value:
  assumes "encoded_at e off [0x9f]" and "decode_error s = None" and "se_stack s = x # r" and "entry_sort x = SK_ADDRESS"
  shows "sym_step True n e off s = Go (Suc off) (setTopKind SK_VALUE s)"
proof -
  have "sym_stack_value n e off (Suc off) s = Go (Suc off) (setTopKind SK_VALUE s)"
    using assms by (simp add: sym_stack_value_def sym_need_def topKind_def)
  moreover have "decode_error (setTopKind SK_VALUE s) = None"
    using assms(2) by (simp add: setTopKind_def split: list.split)
  ultimately show ?thesis
    using step_code [OF handler_codes(7) switch_codes(7) assms(1), where le = True and nest = n and s = s] by simp
qed

lemma four_steps:
  assumes "length e = 6" and "\<And>n. sym_step True n e 0 sum_start = Go 2 s1" and "\<And>n. sym_step True n e 2 s1 = Go 4 s2"
    and "\<And>n. sym_step True n e 4 s2 = Go 5 s3" and "\<And>n. sym_step True n e 5 s3 = Go 6 s4"
    and "se_pieces s4 = []" and "se_stack s4 = x # r" and "entry_sort x = SK_VALUE"
  shows "sr_type (sym_evaluate True deep e default_context 0 []) = RT_VALUE \<and>
    sr_expression (sym_evaluate True deep e default_context 0 []) = entry_term x"
proof -
  have "1024 \<le> max_steps e" by (simp add: max_steps_def)
  then obtain m where "max_steps e = 1024 + m" using le_Suc_ex by blast
  then obtain k where k: "max_steps e = Suc (Suc (Suc (Suc k)))" by (rule_tac that [of "1020 + m"]) simp
  have last: "sym_loop True n e i 6 s4 = sym_finish s4" for n i
    using assms(1) by (cases i) simp_all
  have "sym_loop True n e (max_steps e) 0 sum_start = sym_finish s4" for n
    using assms(1-5) by (simp add: k last)
  then show ?thesis
    using assms(6-8) by (simp add: sym_evaluate_def sym_evaluate_with_def evaluateFromOffset_def split_beta
        appendDiagnosticContext_def sum_start_def sym_finish_def sym_result_def)
qed

lemma sum_evaluated:
  assumes "length e = 6" and "e ! 4 = 0x22" and "e ! 5 = 0x9f"
    and "\<And>n. sym_step True n e 0 sum_start = Go 2 (sym_push_as a SK_ADDRESS sum_start)"
    and "\<And>n. sym_step True n e 2 (sym_push_as a SK_ADDRESS sum_start) =
      Go 4 (sym_push_as b SK_ADDRESS (sym_push_as a SK_ADDRESS sum_start))"
    and "asConst a = None" and "asConst b = None" and "asBytes a = None" and "asBytes b = None"
  shows "sr_type (sym_evaluate True deep e default_context 0 []) = RT_VALUE \<and>
    sr_expression (sym_evaluate True deep e default_context 0 []) = sym_node K_ADD [a, b]"
proof -
  let ?s2 = "sym_push_as b SK_ADDRESS (sym_push_as a SK_ADDRESS sum_start)"
  let ?s3 = "sym_push_as (sym_node K_ADD [a, b]) SK_ADDRESS (?s2\<lparr>se_stack := []\<rparr>)"
  have code: "encoded_at e 4 [0x22]" "encoded_at e 5 [0x9f]"
    using assms(1-3) by (simp_all add: encoded_at_Cons)
  have plus: "sym_step True n e 4 ?s2 = Go 5 ?s3" for n
    using sum_plus [OF code(1), of ?s2 _ _ "[]" n] assms(6-9) by (simp add: sym_push_as_def sum_start_fields)
  have val: "sym_step True n e 5 ?s3 = Go 6 (setTopKind SK_VALUE ?s3)" for n
    using sum_stack_value [OF code(2), of ?s3 _ "[]" n] by (simp add: sym_push_as_def sum_start_fields)
  show ?thesis
    using four_steps [OF assms(1) assms(4,5) plus val, of "\<lparr>entry_term = sym_node K_ADD [a, b], entry_sort = SK_VALUE,
        entry_implicit = None\<rparr>" "[]" deep]
    by (simp add: setTopKind_def sym_push_as_def sum_start_fields)
qed

lemma sums_evaluated:
  defines "t \<equiv> sym_node K_ADD [makeVar ''frame_base'', makeConst 8]" and "r \<equiv> makeVar ''reg3''"
  shows "sr_type (sym_evaluate True deep [0x73, 0x00, 0x91, 0x08, 0x22, 0x9f] default_context 0 []) = RT_VALUE \<and>
      sr_expression (sym_evaluate True deep [0x73, 0x00, 0x91, 0x08, 0x22, 0x9f] default_context 0 []) = sym_node K_ADD [r, t]"
    and "sr_type (sym_evaluate True deep [0x91, 0x08, 0x73, 0x00, 0x22, 0x9f] default_context 0 []) = RT_VALUE \<and>
      sr_expression (sym_evaluate True deep [0x91, 0x08, 0x73, 0x00, 0x22, 0x9f] default_context 0 []) = sym_node K_ADD [t, r]"
proof -
  have leaf: "asConst t = None" "asBytes t = None" "asConst r = None" "asBytes r = None"
    by (simp_all add: sym_node_def makeVar_def t_def r_def)
  have pushed: "decode_error (sym_push_as x SK_ADDRESS sum_start) = None" "se_regs (sym_push_as x SK_ADDRESS sum_start) = []"
    "se_ctx (sym_push_as x SK_ADDRESS sum_start) = default_context" for x
    by (simp_all add: sym_push_as_def sum_start_fields)
  note start = sum_start_fields(5,2,3)
  let ?e1 = "[0x73, 0x00, 0x91, 0x08, 0x22, 0x9f] :: bytes" and ?e2 = "[0x91, 0x08, 0x73, 0x00, 0x22, 0x9f] :: bytes"
  have at: "encoded_at ?e1 0 [0x73, 0x00]" "encoded_at ?e1 2 [0x91, 0x08]"
    "encoded_at ?e2 0 [0x91, 0x08]" "encoded_at ?e2 2 [0x73, 0x00]"
    by (simp_all add: encoded_at_def)
  show "sr_type (sym_evaluate True deep ?e1 default_context 0 []) = RT_VALUE \<and>
      sr_expression (sym_evaluate True deep ?e1 default_context 0 []) = sym_node K_ADD [r, t]"
    using sum_steps(1) [OF start at(1)] sum_steps(2) [OF pushed at(2)] leaf
    by (intro sum_evaluated) (simp_all add: t_def r_def)
  show "sr_type (sym_evaluate True deep ?e2 default_context 0 []) = RT_VALUE \<and>
      sr_expression (sym_evaluate True deep ?e2 default_context 0 []) = sym_node K_ADD [t, r]"
    using sum_steps(2) [OF start at(3)] sum_steps(1) [OF pushed at(4)] leaf
    by (intro sum_evaluated) (simp_all add: t_def r_def)
qed

lemma sums_rewritten:
  defines "t \<equiv> sym_node K_ADD [makeVar ''frame_base'', makeConst 8]" and "r \<equiv> makeVar ''reg3''"
  shows "canonicalizeSymExpr (sr_expression (fst (rewrite_result (sym_result RT_VALUE (sym_node K_ADD [r, t]))))) =
    canonicalizeSymExpr (sr_expression (fst (rewrite_result (sym_result RT_VALUE (sym_node K_ADD [t, r])))))"
  by (simp add: t_def r_def rewrite_result_def sym_result_def sym_node_def makeVar_def makeConst_def rewrite_node_def
      node_rule_def unary_rule_def binary_rule_def identity_rule_def same_text_def isZeroExpr_def isOneExpr_def
      isConstValue_def order_args_def Let_def node_string_def sym_bin_def node_key_def kind_key_def isCommutativeExprKind_def
      isCommutativeRewriteKind_def sort_strings_def markRule_def split: prod.split)

lemma value_key:
  assumes "e \<noteq> []" and "sr_type (sym_evaluate le deep e c pc regs) = RT_VALUE"
    and "sr_expression (sym_evaluate le deep e c pc regs) = x" and "sym_ok x"
  shows "ni_key (normalizeExpressionSemantically le deep e c pc regs None) =
    canonicalizeSymExpr (sr_expression (fst (rewrite_result (sym_result RT_VALUE x))))"
proof -
  let ?r = "sym_evaluate le deep e c pc regs"
  have ok: "sym_ok (sr_expression ?r)" using assms(3,4) by simp
  have "sr_expression (fst (rewrite_result ?r)) \<noteq> null_expr" "sr_type (fst (rewrite_result ?r)) = RT_VALUE"
    using rewrite_result_refined [OF ok] assms(2) by auto
  moreover have "sr_expression (fst (rewrite_result ?r)) = sr_expression (fst (rewrite_result (sym_result RT_VALUE x)))"
    using assms(3) by (simp add: rewrite_result_def sym_result_def split_beta)
  ultimately show ?thesis
    using assms(1) by (simp add: normalizeExpressionSemantically_def remap_result_def canonicalizeResultKindAndKey_def
        split_beta)
qed

lemma sums_same_key:
  "ni_key (normalizeExpressionSemantically True deep (compile True sum_one @ [DW_OP_stack_value]) default_context 0 [] None) =
   ni_key (normalizeExpressionSemantically True deep (compile True sum_two @ [DW_OP_stack_value]) default_context 0 [] None)"
proof -
  have ok: "sym_ok (makeVar ''reg3'')" "sym_ok (makeVar ''frame_base'')"
    by (simp_all add: var_name_ok_def delimiter_def)
  show ?thesis
    unfolding sums_compiled
    using value_key [OF _ sums_evaluated(1) [THEN conjunct1] sums_evaluated(1) [THEN conjunct2], of deep]
      value_key [OF _ sums_evaluated(2) [THEN conjunct1] sums_evaluated(2) [THEN conjunct2], of deep]
      sums_rewritten ok by (simp add: sym_node_def)
qed

theorem equal_keys_equal_values_witness:
  "\<exists>ra sa rb sb.
    evaluate 0 (compile True sum_one @ [DW_OP_stack_value]) default_context 0 [0, 0, 0, 41]
      (new_evaluator True DefaultMemoryContext) = Some (ra, sa) \<and>
    evaluate 0 (compile True sum_two @ [DW_OP_stack_value]) default_context 0 [0, 0, 0, 41]
      (new_evaluator True DefaultMemoryContext) = Some (rb, sb) \<and>
    res_type ra = RT_VALUE \<and> res_type rb = RT_VALUE \<and> res_value ra = res_value rb"
  by (rule equal_keys_equal_values [OF _ _ _ _ _ _ sums_same_key [of no_nested]])
    (simp_all add: sum_one_def sum_two_def kMaxBranchDepth_def sleb_encode.simps default_context_def new_evaluator_def)

text \<open>Register 3 holds 41 and the frame base is 100.\<close>

definition sum_world :: sym_world where
  "sum_world = world_of (default_context\<lparr>frame_base := 100\<rparr>) [0, 0, 0, 41]"

lemma sum_values:
  "denote True sum_world (sr_expression (sym_evaluate True deep (compile True sum_one @ [DW_OP_stack_value]) default_context 0 []))
     = Some (Word 149)"
  "denote True sum_world (sr_expression (sym_evaluate True deep (compile True sum_two @ [DW_OP_stack_value]) default_context 0 []))
     = Some (Word 149)"
proof -
  have "world_var sum_world ''reg3'' = 41" "world_var sum_world ''frame_base'' = 100"
    using find_register [of 3] find_frame_base by (simp_all add: sum_world_def world_of_def reg3_name)
  then show "denote True sum_world (sr_expression (sym_evaluate True deep (compile True sum_one @ [DW_OP_stack_value]) default_context 0 []))
     = Some (Word 149)"
    "denote True sum_world (sr_expression (sym_evaluate True deep (compile True sum_two @ [DW_OP_stack_value]) default_context 0 []))
     = Some (Word 149)"
    using sums_evaluated [of deep]
    by (simp_all add: sums_compiled sym_node_def makeVar_def makeConst_def node_value_def sem_two_def denote.simps)
qed

theorem normal_form_sound_witness:
  "the (denote True sum_world (sr_expression
      (sym_evaluate True no_nested (compile True sum_one @ [DW_OP_stack_value]) default_context 0 []))) =
   the (denote True sum_world (sr_expression
      (sym_evaluate True no_nested (compile True sum_two @ [DW_OP_stack_value]) default_context 0 [])))"
proof -
  let ?e1 = "compile True sum_one @ [0x9f]" and ?e2 = "compile True sum_two @ [0x9f]"
  have t: "sr_type (sym_evaluate True no_nested ?e1 default_context 0 []) = RT_VALUE"
    "sr_type (sym_evaluate True no_nested ?e2 default_context 0 []) = RT_VALUE"
    using sums_evaluated [of no_nested] by (simp_all add: sums_compiled)
  note nf1 = value_normal_form [OF _ t(1) sum_values(1)] and nf2 = value_normal_form [OF _ t(2) sum_values(2)]
  show ?thesis
    by (rule normal_form_sound [OF refl refl nf1(1) nf2(1) sums_same_key _ _ , where w = sum_world])
      (use nf1(2) nf2(2) sum_values in simp_all)
qed

end
