(* ===== verification/FormSize.thy ===== *)
theory FormSize
  imports AttrValues
begin

section \<open>The size of an attribute (\<open>DwarfUtils::getFormSize\<close>)\<close>

text \<open>
  How many bytes an attribute of a given form takes, as \<open>src/dwarf_utils.cpp\<close> computes it: limited to
  what is left before \<open>max_offset\<close>. The indirect form recurs on the form that it reads, which
  consumes at least a byte.
\<close>

record SizeContext =
  sc_address_size :: u8
  sc_offset_size :: u8
  sc_ref_addr_size :: u8
  sc_ref_addr_uses_address_size :: bool

definition default_sizes :: SizeContext where
  "default_sizes =
     \<lparr>sc_address_size = 4, sc_offset_size = 4, sc_ref_addr_size = 0, sc_ref_addr_uses_address_size = False\<rparr>"

text \<open>\<open>n\<close> bytes, or what is left.\<close>

definition limited :: "nat \<Rightarrow> nat \<Rightarrow> nat \<Rightarrow> nat" where
  "limited n off mx = (if n \<le> mx - off then n else mx - off)"

definition wide :: "u8 \<Rightarrow> nat" where
  "wide sz = (if sz = 8 then 8 else 4)"

function string_end :: "bytes \<Rightarrow> nat \<Rightarrow> nat \<Rightarrow> nat outcome" where
  "string_end d i mx =
     (if i < mx then obind (byte_at d i) (\<lambda>b. if b = 0 then Ret i else string_end d (Suc i) mx) else Ret i)"
  by pat_completeness auto
termination
  by (relation "measure (\<lambda>(d, i, mx). mx - i)") auto

declare string_end.simps [simp del]

text \<open>A block behind its length: \<open>head\<close> bytes of length and at most \<open>len\<close> bytes of data.\<close>

definition block_size :: "nat \<Rightarrow> nat \<Rightarrow> nat \<Rightarrow> nat \<Rightarrow> nat" where
  "block_size head len off mx = head + min len (mx - (off + head))"

definition fixed_forms :: "(form \<times> nat) list" where
  "fixed_forms =
     [(DW_FORM_data1, 1), (DW_FORM_flag, 1), (DW_FORM_ref1, 1), (DW_FORM_strx1, 1), (DW_FORM_addrx1, 1),
      (DW_FORM_data2, 2), (DW_FORM_ref2, 2), (DW_FORM_strx2, 2), (DW_FORM_addrx2, 2),
      (DW_FORM_data4, 4), (DW_FORM_ref4, 4), (DW_FORM_ref_sup4, 4), (DW_FORM_strx4, 4), (DW_FORM_addrx4, 4),
      (DW_FORM_data8, 8), (DW_FORM_ref8, 8), (DW_FORM_ref_sig8, 8), (DW_FORM_ref_sup8, 8),
      (DW_FORM_data16, 16), (DW_FORM_strx3, 3), (DW_FORM_addrx3, 3)]"

definition leb_forms :: "form list" where
  "leb_forms =
     [DW_FORM_udata, DW_FORM_sdata, DW_FORM_ref_udata, DW_FORM_strx, DW_FORM_GNU_str_index, DW_FORM_addrx,
      DW_FORM_GNU_addr_index, DW_FORM_loclistx, DW_FORM_rnglistx]"

definition offset_forms :: "form list" where
  "offset_forms =
     [DW_FORM_strp, DW_FORM_line_strp, DW_FORM_sec_offset, DW_FORM_strp_sup, DW_FORM_GNU_strp_alt, DW_FORM_GNU_ref_alt]"

definition ref_addr_bytes :: "SizeContext \<Rightarrow> u8" where
  "ref_addr_bytes c =
     (if sc_ref_addr_size c = 0
      then if sc_ref_addr_uses_address_size c then sc_address_size c else sc_offset_size c
      else sc_ref_addr_size c)"

text \<open>Every form but the indirect one.\<close>

definition direct_size :: "bool \<Rightarrow> bytes \<Rightarrow> form \<Rightarrow> nat \<Rightarrow> nat \<Rightarrow> SizeContext \<Rightarrow> nat outcome" where
  "direct_size le d form off mx c =
     (case map_of fixed_forms form of
        Some n \<Rightarrow> Ret (limited n off mx)
      | None \<Rightarrow>
          if form = DW_FORM_string then
            obind (string_end d off mx) (\<lambda>i. Ret (if mx \<le> i then mx - off else (i - off) + 1))
          else if form = DW_FORM_block1 then
            if mx < u64_add off 1 then Ret 0
            else obind (byte_at d off) (\<lambda>len. Ret (block_size 1 (unat len) off mx))
          else if form = DW_FORM_block2 then
            if mx < u64_add off 2 then Ret 0
            else obind (readU16 le d off mx) (\<lambda>(len, _). Ret (block_size 2 (unat len) off mx))
          else if form = DW_FORM_block4 then
            if mx < u64_add off 4 then Ret 0
            else obind (readU32 le d off mx) (\<lambda>(len, _). Ret (block_size 4 (unat len) off mx))
          else if form = DW_FORM_block \<or> form = DW_FORM_exprloc then
            obind (readULEB128 d off mx) (\<lambda>(len, tmp). Ret ((tmp - off) + min (unat len) (mx - tmp)))
          else if form \<in> set leb_forms then obind (readULEB128 d off mx) (\<lambda>(_, tmp). Ret (tmp - off))
          else if form = DW_FORM_addr then Ret (limited (wide (sc_address_size c)) off mx)
          else if form \<in> set offset_forms then Ret (limited (wide (sc_offset_size c)) off mx)
          else if form = DW_FORM_ref_addr then Ret (limited (wide (ref_addr_bytes c)) off mx)
          else Ret 0)"

lemma readULEB128_advances:
  "readULEB128 d off mx = Ret (v, off') \<Longrightarrow> off < mx \<Longrightarrow> off < off' \<and> off' \<le> mx"
  using readULEB128_loop_forward [of d off mx 0 0 v off'] by (simp add: readULEB128_def)

function getFormSize :: "bool \<Rightarrow> bytes \<Rightarrow> form \<Rightarrow> nat \<Rightarrow> nat \<Rightarrow> SizeContext \<Rightarrow> nat outcome" where
  "getFormSize le d form off mx c =
     (if mx \<le> off then Ret 0
      else if form = DW_FORM_indirect then
        obind (readULEB128 d off mx) (\<lambda>(f, tmp).
          obind (getFormSize le d (ucast f) tmp mx c) (\<lambda>tail. Ret ((tmp - off) + tail)))
      else direct_size le d form off mx c)"
  by pat_completeness auto
termination
  by (relation "measure (\<lambda>(le, d, form, off, mx, c). mx - off)")
    (auto dest: readULEB128_advances)

declare getFormSize.simps [simp del]

subsection \<open>A size never reaches behind the end\<close>

lemma string_end_bounds: "string_end d i mx = Ret j \<Longrightarrow> i \<le> j \<and> j \<le> max i mx"
proof (induction d i mx rule: string_end.induct)
  case (1 d i mx)
  then show ?case by (subst (asm) string_end.simps) (auto simp: obind_eq_Ret split: if_splits)
qed

lemma limited_bound: "off \<le> mx \<Longrightarrow> off + limited n off mx \<le> mx"
  by (auto simp: limited_def)

lemma block_size_bound: "off + head \<le> mx \<Longrightarrow> off + block_size head len off mx \<le> mx"
  by (simp add: block_size_def)

lemma direct_size_bound:
  assumes "direct_size le d form off mx c = Ret n" and "off < mx" and "mx \<le> vector_max"
  shows "off + n \<le> mx"
proof -
  have off: "off + 4 < 18446744073709551616" using assms(2,3) by (simp add: vector_max_def)
  have str: "off \<le> i \<Longrightarrow> i < mx \<Longrightarrow> off + (Suc i - off) \<le> mx" for i using assms(2) by simp
  show ?thesis
    using assms off
    by (auto simp: direct_size_def obind_eq_Ret limited_bound block_size_bound
        split: option.splits if_splits dest!: readULEB128_advances string_end_bounds)
qed

lemma getFormSize_bound:
  "getFormSize le d form off mx c = Ret n \<Longrightarrow> off \<le> mx \<Longrightarrow> mx \<le> vector_max \<Longrightarrow> off + n \<le> mx"
proof (induction le d form off mx c arbitrary: n rule: getFormSize.induct)
  case (1 le d form off mx c)
  show ?case
  proof (cases "mx \<le> off \<or> form \<noteq> DW_FORM_indirect")
    case True
    then show ?thesis using "1.prems" direct_size_bound [of le d form off mx c n]
      by (auto simp: getFormSize.simps split: if_splits)
  next
    case False
    with "1.prems"(1) obtain f tmp tail where
      st: "readULEB128 d off mx = Ret (f, tmp)" "getFormSize le d (ucast f) tmp mx c = Ret tail" "n = (tmp - off) + tail"
      by (subst (asm) getFormSize.simps) (auto simp: obind_eq_Ret)
    have adv: "off < tmp" "tmp \<le> mx" using readULEB128_advances [OF st(1)] False by auto
    show ?thesis using "1.IH" [OF _ _ _ _ st(2)] st adv False "1.prems"(3) by simp
  qed
qed

end
