(* ===== verification/AttrCore.thy ===== *)
theory AttrCore
  imports FormSize RngLists LocLists
begin

section \<open>The attribute parser: values, state, the context of a unit\<close>

text \<open>
  The state of \<open>AttributeParser\<close> (\<open>include/attribute_parser.hpp\<close>): the sections, the context of the
  current unit, and the statistics of skipped vendor forms. \<open>setCUContext\<close> normalizes the
  bases of a unit: each may point at the table or at the header of its contribution.
\<close>

subsection \<open>Values\<close>

datatype LocationType = LT_EXPRESSION | LT_LIST | LT_INVALID

record LocationEntry =
  le_start :: u64
  le_end :: u64
  le_expression :: bytes
  le_default :: bool

record RangeEntry =
  re_start :: u64
  re_end :: u64
  re_is_base :: bool

datatype attr_val =
    Plain attribute_value
  | LocationValue LocationType bytes "LocationEntry list"
  | RangeValue "RangeEntry list"
  | LineValue LineAttributeValue
  | TypeValue u64 string bool

text \<open>The two constructors of \<open>LocationAttributeValue\<close>.\<close>

definition location_of_bytes :: "LocationType \<Rightarrow> bytes \<Rightarrow> attr_val" where
  "location_of_bytes t bs = LocationValue t bs []"

definition location_of_entries :: "LocationEntry list \<Rightarrow> attr_val" where
  "location_of_entries es =
     LocationValue LT_LIST
       (case List.find (\<lambda>e. le_expression e \<noteq> [] \<and> \<not> le_default e) es of
          Some e \<Rightarrow> le_expression e | None \<Rightarrow> []) es"

definition getExpressionForPC :: "attr_val \<Rightarrow> u64 \<Rightarrow> bytes" where
  "getExpressionForPC v pc =
     (case v of
        LocationValue t bs es \<Rightarrow>
          if t = LT_EXPRESSION then bs
          else (case List.find (\<lambda>e. \<not> le_default e \<and> le_start e \<le> pc \<and> pc < le_end e) es of
                  Some e \<Rightarrow> le_expression e
                | None \<Rightarrow> (case List.find le_default es of Some e \<Rightarrow> le_expression e | None \<Rightarrow> []))
      | _ \<Rightarrow> [])"

definition containsPC :: "attr_val \<Rightarrow> u64 \<Rightarrow> bool" where
  "containsPC v pc =
     (case v of
        LocationValue t bs es \<Rightarrow>
          t = LT_EXPRESSION \<or> list_ex (\<lambda>e. le_default e \<or> le_start e \<le> pc \<and> pc < le_end e) es
      | _ \<Rightarrow> False)"

subsection \<open>State\<close>

record attr_sections =
  sec_info :: bytes
  sec_str :: bytes
  sec_str_sup :: bytes
  sec_line :: bytes
  sec_ranges :: bytes
  sec_loc :: bytes
  sec_str_offsets :: bytes
  sec_addr :: bytes
  sec_line_str :: bytes
  sec_rnglists :: bytes
  sec_loclists :: bytes

record lists_context =
  lc_base :: nat
  lc_end :: nat
  lc_offsets_end :: nat
  lc_is64 :: bool
  lc_seg_size :: u8

record cu_context =
  cu_offset :: u64
  cu_end :: nat
  cu_rnglists :: lists_context
  cu_loclists :: lists_context
  cu_addr_base :: nat
  cu_addr_end :: nat
  cu_addr_seg_size :: u8
  cu_addr_stride :: u8
  cu_str_base :: nat
  cu_str_end :: nat
  cu_base_address :: u64

record VendorFormSkipSample =
  vs_form :: form
  vs_offset :: nat
  vs_severity :: string

record vendor_skips =
  skip_count :: nat
  skip_samples :: "VendorFormSkipSample list"
  skip_histogram :: "form \<Rightarrow> nat"
  skip_severities :: "string \<Rightarrow> nat"

record attr_parser =
  ap_sections :: attr_sections
  ap_cu :: cu_context
  ap_address_size :: u8
  ap_version :: u8
  ap_is64 :: bool
  ap_bias :: u64
  ap_sup_bias :: u64
  ap_implicit :: "u64 option"
  ap_skips :: vendor_skips
  ap_rnglists_parser :: "list_parser option"
  ap_loclists_parser :: "list_parser option"

definition no_skips :: vendor_skips where
  "no_skips = \<lparr>skip_count = 0, skip_samples = [], skip_histogram = (\<lambda>f. 0), skip_severities = (\<lambda>s. 0)\<rparr>"

text \<open>The defaults of a unit without contributions: the tables are the whole sections.\<close>

definition whole_lists :: "bytes \<Rightarrow> nat \<Rightarrow> bool \<Rightarrow> lists_context" where
  "whole_lists d base is64 =
     \<lparr>lc_base = base, lc_end = length d, lc_offsets_end = length d, lc_is64 = is64, lc_seg_size = 0\<rparr>"

definition new_attr_parser :: "attr_sections \<Rightarrow> attr_parser" where
  "new_attr_parser s =
     \<lparr>ap_sections = s,
      ap_cu = \<lparr>cu_offset = 0, cu_end = length (sec_info s), cu_rnglists = whole_lists (sec_rnglists s) 0 False,
               cu_loclists = whole_lists (sec_loclists s) 0 False, cu_addr_base = 0, cu_addr_end = length (sec_addr s),
               cu_addr_seg_size = 0, cu_addr_stride = 8, cu_str_base = 0, cu_str_end = length (sec_str_offsets s),
               cu_base_address = 0\<rparr>,
      ap_address_size = 8, ap_version = 4, ap_is64 = False, ap_bias = 0, ap_sup_bias = 0, ap_implicit = None,
      ap_skips = no_skips,
      ap_rnglists_parser = (if sec_rnglists s = [] then None else Some (new_list_parser (sec_rnglists s) (sec_addr s))),
      ap_loclists_parser = (if sec_loclists s = [] then None else Some (new_list_parser (sec_loclists s) (sec_addr s)))\<rparr>"

definition setCUOffset :: "u64 \<Rightarrow> attr_parser \<Rightarrow> attr_parser" where
  "setCUOffset off p = p\<lparr>ap_cu := (ap_cu p)\<lparr>cu_offset := off\<rparr>\<rparr>"

definition setCUDebugInfoEnd :: "nat \<Rightarrow> attr_parser \<Rightarrow> attr_parser" where
  "setCUDebugInfoEnd e p =
     p\<lparr>ap_cu := (ap_cu p)\<lparr>cu_end := (if e \<le> length (sec_info (ap_sections p)) then e
                                    else length (sec_info (ap_sections p)))\<rparr>\<rparr>"

definition setAddressSize :: "u8 \<Rightarrow> attr_parser \<Rightarrow> attr_parser" where
  "setAddressSize sz p = p\<lparr>ap_address_size := sz\<rparr>"

definition setDwarfVersion :: "u8 \<Rightarrow> attr_parser \<Rightarrow> attr_parser" where
  "setDwarfVersion v p = p\<lparr>ap_version := v\<rparr>"

definition setIsDwarf64 :: "bool \<Rightarrow> attr_parser \<Rightarrow> attr_parser" where
  "setIsDwarf64 b p = p\<lparr>ap_is64 := b\<rparr>"

definition setDebugInfoOffsetBias :: "u64 \<Rightarrow> attr_parser \<Rightarrow> attr_parser" where
  "setDebugInfoOffsetBias b p = p\<lparr>ap_bias := b\<rparr>"

definition setSupplementaryDebugInfoOffsetBias :: "u64 \<Rightarrow> attr_parser \<Rightarrow> attr_parser" where
  "setSupplementaryDebugInfoOffsetBias b p = p\<lparr>ap_sup_bias := b\<rparr>"

definition setImplicitConstValue :: "u64 option \<Rightarrow> attr_parser \<Rightarrow> attr_parser" where
  "setImplicitConstValue v p = p\<lparr>ap_implicit := v\<rparr>"

subsection \<open>Contributions\<close>

text \<open>
  The header of a contribution to \<open>.debug_rnglists\<close> or \<open>.debug_loclists\<close>; the two lambdas of
  \<open>setCUContext\<close> differ only in the section.
\<close>

definition tryParseListsContributionAt :: "bool \<Rightarrow> bytes \<Rightarrow> u8 \<Rightarrow> nat \<Rightarrow> lists_context option outcome" where
  "tryParseListsContributionAt le d asz start =
     (if d = [] \<or> length d \<le> start then Ret None
      else obind (unit_bounds le d start) (\<lambda>b.
        case b of
          None \<Rightarrow> Ret None
        | Some (is64, unit_end, off) \<Rightarrow>
            obind (readU16 le d off unit_end) (\<lambda>(version, off).
            obind (readU8 d off unit_end) (\<lambda>(addr_size, off).
            obind (readU8 d off unit_end) (\<lambda>(seg_size, off).
            obind (readU32 le d off unit_end) (\<lambda>(count, off).
              if version \<noteq> 5 \<or> addr_size \<noteq> asz then Ret None
              else
                let offsets_end = u64_add off (unat count * (if is64 then 8 else 4))
                in if unit_end < offsets_end then Ret None
                   else Ret (Some \<lparr>lc_base = off, lc_end = unit_end, lc_offsets_end = offsets_end,
                                  lc_is64 = is64, lc_seg_size = seg_size\<rparr>)))))))"

record addr_contribution =
  ac_table_start :: nat
  ac_unit_end :: nat
  ac_seg_size :: u8
  ac_stride :: u8

definition tryParseDebugAddrContributionAt :: "bool \<Rightarrow> bytes \<Rightarrow> u8 \<Rightarrow> nat \<Rightarrow> addr_contribution option outcome" where
  "tryParseDebugAddrContributionAt le d asz start =
     (if d = [] \<or> length d \<le> start then Ret None
      else obind (unit_bounds le d start) (\<lambda>b.
        case b of
          None \<Rightarrow> Ret None
        | Some (is64, unit_end, off) \<Rightarrow>
            obind (readU16 le d off unit_end) (\<lambda>(version, off).
            obind (readU8 d off unit_end) (\<lambda>(addr_size, off).
            obind (readU8 d off unit_end) (\<lambda>(seg_size, off).
              if version \<noteq> 5 \<or> addr_size \<noteq> asz \<or> seg_size + addr_size = 0 then Ret None
              else Ret (Some \<lparr>ac_table_start = off, ac_unit_end = unit_end, ac_seg_size = seg_size,
                             ac_stride = seg_size + addr_size\<rparr>))))))"

text \<open>The start of the table and the end of the contribution.\<close>

definition tryParseStrOffsetsContributionAt :: "bool \<Rightarrow> bytes \<Rightarrow> nat \<Rightarrow> (nat \<times> nat) option outcome" where
  "tryParseStrOffsetsContributionAt le d start =
     (if d = [] \<or> length d \<le> start then Ret None
      else obind (unit_bounds le d start) (\<lambda>b.
        case b of
          None \<Rightarrow> Ret None
        | Some (is64, unit_end, off) \<Rightarrow>
            obind (readU16 le d off unit_end) (\<lambda>(version, off).
            obind (readU16 le d off unit_end) (\<lambda>(padding, off).
              if version \<noteq> 5 \<or> padding \<noteq> 0 then Ret None else Ret (Some (off, unit_end))))))"

text \<open>
  A base may point at the header or behind it: \<open>parse_at\<close> is tried at the base, and then at
  the places where a header of either format would begin, whose table must be the base.
\<close>

definition normalizeBase ::
  "(nat \<Rightarrow> 'c option outcome) \<Rightarrow> ('c \<Rightarrow> nat) \<Rightarrow> nat \<Rightarrow> nat \<Rightarrow> bytes \<Rightarrow> nat \<Rightarrow> 'c option outcome" where
  "normalizeBase parse_at table h32 h64 d base =
     (let at_header = (\<lambda>h next.
            if base < h then next
            else obind (parse_at (base - h)) (\<lambda>c.
              case c of Some c \<Rightarrow> if table c = base then Ret (Some c) else next | None \<Rightarrow> next))
      in if d = [] \<or> length d \<le> base then Ret None
         else obind (parse_at base) (\<lambda>c.
           case c of Some c \<Rightarrow> Ret (Some c) | None \<Rightarrow> at_header h32 (at_header h64 (Ret None))))"

definition normalizeListsBaseAndContribution :: "bool \<Rightarrow> bytes \<Rightarrow> u8 \<Rightarrow> nat \<Rightarrow> lists_context option outcome" where
  "normalizeListsBaseAndContribution le d asz base =
     normalizeBase (tryParseListsContributionAt le d asz) lc_base 12 20 d base"

definition normalizeAddrBaseAndContribution :: "bool \<Rightarrow> bytes \<Rightarrow> u8 \<Rightarrow> nat \<Rightarrow> addr_contribution option outcome" where
  "normalizeAddrBaseAndContribution le d asz base =
     normalizeBase (tryParseDebugAddrContributionAt le d asz) ac_table_start 8 16 d base"

definition normalizeStrOffsetsBaseAndContribution :: "bool \<Rightarrow> bytes \<Rightarrow> nat \<Rightarrow> (nat \<times> nat) option outcome" where
  "normalizeStrOffsetsBaseAndContribution le d base =
     normalizeBase (tryParseStrOffsetsContributionAt le d) fst 8 16 d base"

definition normalizeStrOffsetsBase :: "bool \<Rightarrow> bytes \<Rightarrow> nat \<Rightarrow> nat outcome" where
  "normalizeStrOffsetsBase le d base =
     obind (tryParseStrOffsetsContributionAt le d base) (\<lambda>c.
       Ret (case c of Some (table, _) \<Rightarrow> table | None \<Rightarrow> base))"

subsection \<open>\<open>setCUContext\<close>\<close>

definition lists_or_whole :: "bool \<Rightarrow> attr_parser \<Rightarrow> bytes \<Rightarrow> nat \<Rightarrow> lists_context outcome" where
  "lists_or_whole le p d base =
     obind (normalizeListsBaseAndContribution le d (ap_address_size p) base) (\<lambda>c.
       Ret (case c of Some c \<Rightarrow> c | None \<Rightarrow> whole_lists d base (ap_is64 p)))"

definition with_addr_table :: "attr_parser \<Rightarrow> cu_context \<Rightarrow> list_parser \<Rightarrow> list_parser" where
  "with_addr_table p cu =
     setDebugAddr (sec_addr (ap_sections p)) (cu_addr_base cu) (cu_addr_seg_size cu) (cu_addr_stride cu) (cu_addr_end cu)"

definition setCUContext :: "bool \<Rightarrow> nat \<Rightarrow> nat \<Rightarrow> nat \<Rightarrow> nat \<Rightarrow> u64 \<Rightarrow> attr_parser \<Rightarrow> attr_parser outcome" where
  "setCUContext le rnglists_base loclists_base addr_table str_offsets_base base_address p =
     (let s = ap_sections p in
      obind (lists_or_whole le p (sec_rnglists s) rnglists_base) (\<lambda>rng.
      obind (lists_or_whole le p (sec_loclists s) loclists_base) (\<lambda>loc.
      obind (normalizeAddrBaseAndContribution le (sec_addr s) (ap_address_size p) addr_table) (\<lambda>addr.
      obind (normalizeStrOffsetsBaseAndContribution le (sec_str_offsets s) str_offsets_base) (\<lambda>str.
      obind (normalizeStrOffsetsBase le (sec_str_offsets s) str_offsets_base) (\<lambda>str_base.
        let cu = (ap_cu p)\<lparr>cu_rnglists := rng, cu_loclists := loc, cu_base_address := base_address\<rparr>;
            cu = (case addr of
                    Some c \<Rightarrow> cu\<lparr>cu_addr_base := ac_table_start c, cu_addr_end := ac_unit_end c,
                                cu_addr_seg_size := ac_seg_size c, cu_addr_stride := ac_stride c\<rparr>
                  | None \<Rightarrow> cu\<lparr>cu_addr_base := addr_table, cu_addr_end := length (sec_addr s),
                              cu_addr_seg_size := 0, cu_addr_stride := ap_address_size p\<rparr>);
            cu = (case str of
                    Some (table, e) \<Rightarrow> cu\<lparr>cu_str_base := table, cu_str_end := e\<rparr>
                  | None \<Rightarrow> cu\<lparr>cu_str_base := str_base, cu_str_end := length (sec_str_offsets s)\<rparr>)
        in Ret (p\<lparr>ap_cu := cu,
                  ap_rnglists_parser := map_option (with_addr_table p cu) (ap_rnglists_parser p),
                  ap_loclists_parser := map_option (with_addr_table p cu) (ap_loclists_parser p)\<rparr>)))))))"

subsection \<open>Helpers\<close>

definition currentDebugInfoEnd :: "attr_parser \<Rightarrow> nat" where
  "currentDebugInfoEnd p =
     (let mx = length (sec_info (ap_sections p)) in if cu_end (ap_cu p) \<le> mx then cu_end (ap_cu p) else mx)"

definition advanceOffsetBounded :: "attr_parser \<Rightarrow> nat \<Rightarrow> nat \<Rightarrow> nat" where
  "advanceOffsetBounded p off amount =
     (let mx = currentDebugInfoEnd p
      in if mx \<le> off then mx else if mx - off < amount then mx else off + amount)"

text \<open>The string at an offset of a section that ends at \<open>e\<close>, and how many bytes it takes there.\<close>

definition readCStringFromSection :: "bytes \<Rightarrow> nat \<Rightarrow> nat \<Rightarrow> string \<times> nat" where
  "readCStringFromSection d e off =
     (if e \<le> off then ([], 0)
      else case until_nul d off e of (bs, terminated) \<Rightarrow>
        (text_of bs, if terminated then Suc (length bs) else length bs))"

definition string_at :: "bytes \<Rightarrow> nat \<Rightarrow> string" where
  "string_at d off = fst (readCStringFromSection d (length d) off)"

definition getString :: "attr_parser \<Rightarrow> nat \<Rightarrow> string" where
  "getString p off = string_at (sec_str (ap_sections p)) off"

definition readString :: "attr_parser \<Rightarrow> nat \<Rightarrow> string \<times> nat" where
  "readString p off =
     (let d = sec_str (ap_sections p); mx = length d in
      case readCStringFromSection d mx off of (v, consumed) \<Rightarrow>
        if consumed = 0 then (v, off)
        else (v, if mx < off then mx else if mx - off < consumed then mx else off + consumed))"

definition getBlock :: "attr_parser \<Rightarrow> nat \<Rightarrow> nat \<Rightarrow> bytes" where
  "getBlock p off sz =
     (let mx = currentDebugInfoEnd p
      in if mx < off then [] else if mx - off < sz then [] else take sz (drop off (sec_info (ap_sections p))))"

definition ap_readULEB128 :: "attr_parser \<Rightarrow> nat \<Rightarrow> (u64 \<times> nat) outcome" where
  "ap_readULEB128 p off = readULEB128 (sec_info (ap_sections p)) off (currentDebugInfoEnd p)"

definition ap_readSLEB128 :: "attr_parser \<Rightarrow> nat \<Rightarrow> (u64 \<times> nat) outcome" where
  "ap_readSLEB128 p off = readSLEB128 (sec_info (ap_sections p)) off (currentDebugInfoEnd p)"

definition ap_readU8 :: "attr_parser \<Rightarrow> nat \<Rightarrow> (u8 \<times> nat) outcome" where
  "ap_readU8 p off = readU8 (sec_info (ap_sections p)) off (currentDebugInfoEnd p)"

definition ap_readU16 :: "bool \<Rightarrow> attr_parser \<Rightarrow> nat \<Rightarrow> (u16 \<times> nat) outcome" where
  "ap_readU16 le p off = readU16 le (sec_info (ap_sections p)) off (currentDebugInfoEnd p)"

definition ap_readU32 :: "bool \<Rightarrow> attr_parser \<Rightarrow> nat \<Rightarrow> (u32 \<times> nat) outcome" where
  "ap_readU32 le p off = readU32 le (sec_info (ap_sections p)) off (currentDebugInfoEnd p)"

definition ap_readU64 :: "bool \<Rightarrow> attr_parser \<Rightarrow> nat \<Rightarrow> (u64 \<times> nat) outcome" where
  "ap_readU64 le p off = readU64 le (sec_info (ap_sections p)) off (currentDebugInfoEnd p)"

end
