(* ===== verification/AttrForms.thy ===== *)
theory AttrForms
  imports AttrCore
begin

section \<open>The attribute parser: one parser per form\<close>

text \<open>
  \<open>parseFormX\<close> of \<open>src/attribute_parser.cpp\<close> for each form, and \<open>parseAttribute\<close> by form alone. A
  parser returns the value (\<open>None\<close> is a null pointer) and the offset behind it. Forms that the
  switch does not know are skipped by their size; vendor forms are skipped by the size of the
  standard form with the same low byte, and counted.
\<close>

type_synonym form_parser = "bool \<Rightarrow> attr_parser \<Rightarrow> nat \<Rightarrow> (attr_val option \<times> nat) outcome"

definition some_plain :: "attribute_value \<Rightarrow> nat \<Rightarrow> (attr_val option \<times> nat) outcome" where
  "some_plain v off = Ret (Some (Plain v), off)"

subsection \<open>Numbers\<close>

definition ap_read_offset :: "bool \<Rightarrow> bool \<Rightarrow> attr_parser \<Rightarrow> nat \<Rightarrow> (u64 \<times> nat) outcome" where
  "ap_read_offset le wide8 p off =
     (if wide8 then ap_readU64 le p off else obind (ap_readU32 le p off) (\<lambda>(v, off). Ret (ucast v, off)))"

definition parseFormAddr :: form_parser where
  "parseFormAddr le p off =
     obind (ap_read_offset le (ap_address_size p = 8) p off) (\<lambda>(v, off). some_plain (AddressAttributeValue v) off)"

definition parseFormData1 :: form_parser where
  "parseFormData1 le p off = obind (ap_readU8 p off) (\<lambda>(v, off). some_plain (UnsignedAttributeValue (ucast v)) off)"

definition parseFormData2 :: form_parser where
  "parseFormData2 le p off = obind (ap_readU16 le p off) (\<lambda>(v, off). some_plain (UnsignedAttributeValue (ucast v)) off)"

definition parseFormData4 :: form_parser where
  "parseFormData4 le p off = obind (ap_readU32 le p off) (\<lambda>(v, off). some_plain (UnsignedAttributeValue (ucast v)) off)"

definition parseFormData8 :: form_parser where
  "parseFormData8 le p off = obind (ap_readU64 le p off) (\<lambda>(v, off). some_plain (UnsignedAttributeValue v) off)"

definition parseFormSdata :: form_parser where
  "parseFormSdata le p off = obind (ap_readSLEB128 p off) (\<lambda>(v, off). some_plain (SignedAttributeValue v) off)"

definition parseFormUdata :: form_parser where
  "parseFormUdata le p off = obind (ap_readULEB128 p off) (\<lambda>(v, off). some_plain (UnsignedAttributeValue v) off)"

definition parseFormSecOffset :: form_parser where
  "parseFormSecOffset le p off =
     obind (ap_read_offset le (ap_is64 p) p off) (\<lambda>(v, off). some_plain (UnsignedAttributeValue v) off)"

definition parseFormImplicitConst :: form_parser where
  "parseFormImplicitConst le p off =
     some_plain (SignedAttributeValue (case ap_implicit p of Some v \<Rightarrow> v | None \<Rightarrow> 0)) off"

subsection \<open>Flags\<close>

definition parseFormFlag :: form_parser where
  "parseFormFlag le p off = obind (ap_readU8 p off) (\<lambda>(v, off). some_plain (FlagAttributeValue (v \<noteq> 0)) off)"

definition parseFormFlagPresent :: form_parser where
  "parseFormFlagPresent le p off = some_plain (FlagAttributeValue True) off"

subsection \<open>Strings\<close>

definition parseFormString :: form_parser where
  "parseFormString le p off =
     (case readCStringFromSection (sec_info (ap_sections p)) (currentDebugInfoEnd p) off of (v, consumed) \<Rightarrow>
        some_plain (StringAttributeValue v) (advanceOffsetBounded p off consumed))"

definition parseFormStrp :: form_parser where
  "parseFormStrp le p off =
     obind (ap_read_offset le (ap_is64 p) p off) (\<lambda>(o', off).
       some_plain (StringAttributeValue (getString p (unat o'))) off)"

text \<open>A string of another section, or a placeholder when the offset is outside it.\<close>

definition parse_string_in :: "string \<Rightarrow> bytes \<Rightarrow> form_parser" where
  "parse_string_in label d le p off =
     obind (ap_read_offset le (ap_is64 p) p off) (\<lambda>(o', off).
       some_plain (StringAttributeValue
         (if unat o' < length d then string_at d (unat o')
          else ''<'' @ label @ '':'' @ dec_string (unat o') @ ''>'')) off)"

definition parseFormStrpSup :: form_parser where
  "parseFormStrpSup le p = parse_string_in ''strp_sup'' (sec_str_sup (ap_sections p)) le p"

definition parseFormGnuStrpAlt :: form_parser where
  "parseFormGnuStrpAlt le p = parse_string_in ''gnu_strp_alt'' (sec_str_sup (ap_sections p)) le p"

definition parseFormLineStrp :: form_parser where
  "parseFormLineStrp le p = parse_string_in ''line_strp'' (sec_line_str (ap_sections p)) le p"

subsection \<open>References\<close>

definition reference :: "u64 \<Rightarrow> u64 \<times> nat \<Rightarrow> (attr_val option \<times> nat) outcome" where
  "reference base r = some_plain (ReferenceAttributeValue (base + fst r)) (snd r)"

definition parseFormRef1 :: form_parser where
  "parseFormRef1 le p off = obind (ap_readU8 p off) (\<lambda>(v, off). reference (cu_offset (ap_cu p)) (ucast v, off))"

definition parseFormRef2 :: form_parser where
  "parseFormRef2 le p off = obind (ap_readU16 le p off) (\<lambda>(v, off). reference (cu_offset (ap_cu p)) (ucast v, off))"

definition parseFormRef4 :: form_parser where
  "parseFormRef4 le p off = obind (ap_readU32 le p off) (\<lambda>(v, off). reference (cu_offset (ap_cu p)) (ucast v, off))"

definition parseFormRef8 :: form_parser where
  "parseFormRef8 le p off = obind (ap_readU64 le p off) (reference (cu_offset (ap_cu p)))"

definition parseFormRefUdata :: form_parser where
  "parseFormRefUdata le p off = obind (ap_readULEB128 p off) (reference (cu_offset (ap_cu p)))"

definition parseFormRefSup4 :: form_parser where
  "parseFormRefSup4 le p off = obind (ap_readU32 le p off) (\<lambda>(v, off). reference (ap_sup_bias p) (ucast v, off))"

definition parseFormRefSup8 :: form_parser where
  "parseFormRefSup8 le p off = obind (ap_readU64 le p off) (reference (ap_sup_bias p))"

definition parseFormGnuRefAlt :: form_parser where
  "parseFormGnuRefAlt le p off = obind (ap_read_offset le (ap_is64 p) p off) (reference (ap_sup_bias p))"

definition parseFormRefAddr :: form_parser where
  "parseFormRefAddr le p off =
     (let sz = (if ap_version p = 2 then ap_address_size p else if ap_is64 p then 8 else 4)
      in obind (ap_read_offset le (sz = 8) p off) (reference (ap_bias p)))"

definition parseFormRefSig8 :: form_parser where
  "parseFormRefSig8 le p off = obind (ap_readU64 le p off) (reference 0)"

subsection \<open>Blocks\<close>

definition counted_block :: "(bytes \<Rightarrow> attr_val) \<Rightarrow> attr_parser \<Rightarrow> nat \<Rightarrow> nat \<Rightarrow> (attr_val option \<times> nat) outcome" where
  "counted_block mk p len off = Ret (Some (mk (getBlock p off len)), advanceOffsetBounded p off len)"

definition block_value :: "bytes \<Rightarrow> attr_val" where
  "block_value bs = Plain (BlockAttributeValue bs)"

definition parseFormBlock1 :: form_parser where
  "parseFormBlock1 le p off = obind (ap_readU8 p off) (\<lambda>(len, off). counted_block block_value p (unat len) off)"

definition parseFormBlock2 :: form_parser where
  "parseFormBlock2 le p off = obind (ap_readU16 le p off) (\<lambda>(len, off). counted_block block_value p (unat len) off)"

definition parseFormBlock4 :: form_parser where
  "parseFormBlock4 le p off = obind (ap_readU32 le p off) (\<lambda>(len, off). counted_block block_value p (unat len) off)"

definition parseFormBlock :: form_parser where
  "parseFormBlock le p off = obind (ap_readULEB128 p off) (\<lambda>(len, off). counted_block block_value p (unat len) off)"

definition parseFormExprloc :: form_parser where
  "parseFormExprloc le p off =
     obind (ap_readULEB128 p off) (\<lambda>(len, off).
       counted_block (\<lambda>bs. Plain (ExpressionAttributeValue bs)) p (unat len) off)"

definition parseFormData16 :: form_parser where
  "parseFormData16 le p off = counted_block block_value p 16 off"

subsection \<open>Indices into the tables of the unit\<close>

definition strx_value :: "bool \<Rightarrow> attr_parser \<Rightarrow> nat \<Rightarrow> attr_val option outcome" where
  "strx_value le p index =
     (let d = sec_str_offsets (ap_sections p);
          offset_size = (if ap_is64 p then 8 else 4);
          pos = u64_add (cu_str_base (ap_cu p)) (u64_mul index offset_size)
      in if cu_str_end (ap_cu p) < u64_add pos offset_size then Ret None
         else obind (read_offset le (ap_is64 p) d pos (length d)) (\<lambda>(o', _).
           Ret (if unat o' < length (sec_str (ap_sections p))
                then Some (Plain (StringAttributeValue (getString p (unat o')))) else None)))"

definition addrx_value :: "bool \<Rightarrow> attr_parser \<Rightarrow> nat \<Rightarrow> attr_val option outcome" where
  "addrx_value le p index =
     (let d = sec_addr (ap_sections p); cu = ap_cu p;
          addr_offset = u64_add (cu_addr_base cu) (u64_mul index (unat (cu_addr_stride cu)));
          field = u64_add addr_offset (unat (cu_addr_seg_size cu))
      in if cu_addr_end cu < u64_add field (unat (ap_address_size p)) then Ret None
         else obind (read_offset le (ap_address_size p = 8) d field (length d)) (\<lambda>(v, _).
           Ret (Some (Plain (AddressAttributeValue v)))))"

definition indexed :: "(nat \<Rightarrow> attr_val option outcome) \<Rightarrow> nat \<times> nat \<Rightarrow> (attr_val option \<times> nat) outcome" where
  "indexed look r = obind (look (fst r)) (\<lambda>v. Ret (v, snd r))"

text \<open>
  The three-byte index; the order of the three reads is unspecified in C++ and taken from left to
  right.
\<close>

definition read_index3 :: "attr_parser \<Rightarrow> nat \<Rightarrow> (u32 \<times> nat) outcome" where
  "read_index3 p off =
     obind (ap_readU8 p off) (\<lambda>(b0, off). obind (ap_readU8 p off) (\<lambda>(b1, off).
     obind (ap_readU8 p off) (\<lambda>(b2, off).
       Ret (ucast b0 OR push_bit 8 (ucast b1) OR push_bit 16 (ucast b2), off))))"

definition parseFormStrx :: form_parser where
  "parseFormStrx le p off = obind (ap_readULEB128 p off) (\<lambda>(i, off). indexed (strx_value le p) (unat i, off))"

definition parseFormStrx1 :: form_parser where
  "parseFormStrx1 le p off = obind (ap_readU8 p off) (\<lambda>(i, off). indexed (strx_value le p) (unat i, off))"

definition parseFormStrx2 :: form_parser where
  "parseFormStrx2 le p off = obind (ap_readU16 le p off) (\<lambda>(i, off). indexed (strx_value le p) (unat i, off))"

definition parseFormStrx3 :: form_parser where
  "parseFormStrx3 le p off = obind (read_index3 p off) (\<lambda>(i, off). indexed (strx_value le p) (unat i, off))"

definition parseFormStrx4 :: form_parser where
  "parseFormStrx4 le p off = obind (ap_readU32 le p off) (\<lambda>(i, off). indexed (strx_value le p) (unat i, off))"

definition parseFormAddrx :: form_parser where
  "parseFormAddrx le p off = obind (ap_readULEB128 p off) (\<lambda>(i, off). indexed (addrx_value le p) (unat i, off))"

definition parseFormAddrx1 :: form_parser where
  "parseFormAddrx1 le p off = obind (ap_readU8 p off) (\<lambda>(i, off). indexed (addrx_value le p) (unat i, off))"

definition parseFormAddrx2 :: form_parser where
  "parseFormAddrx2 le p off = obind (ap_readU16 le p off) (\<lambda>(i, off). indexed (addrx_value le p) (unat i, off))"

definition parseFormAddrx3 :: form_parser where
  "parseFormAddrx3 le p off = obind (read_index3 p off) (\<lambda>(i, off). indexed (addrx_value le p) (unat i, off))"

definition parseFormAddrx4 :: form_parser where
  "parseFormAddrx4 le p off = obind (ap_readU32 le p off) (\<lambda>(i, off). indexed (addrx_value le p) (unat i, off))"

subsection \<open>Indices of lists\<close>

definition range_entries :: "RngListEntry list \<Rightarrow> RangeEntry list" where
  "range_entries es =
     map (\<lambda>e. \<lparr>re_start = rng_start e, re_end = rng_end e, re_is_base = is_base_address e\<rparr>)
       (filter (\<lambda>e. rng_type e \<noteq> DW_RLE_end_of_list) es)"

definition location_entries :: "LocListEntry list \<Rightarrow> LocationEntry list" where
  "location_entries es =
     map (\<lambda>e. \<lparr>le_start = loc_start e, le_end = loc_end e, le_expression = loc_expression e, le_default = is_default e\<rparr>)
       (filter (\<lambda>e. loc_type e \<noteq> DW_LLE_end_of_list) es)"

definition rnglistx_value :: "bool \<Rightarrow> attr_parser \<Rightarrow> nat \<Rightarrow> attr_val option outcome" where
  "rnglistx_value le p index =
     (case ap_rnglists_parser p of
        None \<Rightarrow> Ret None
      | Some lp \<Rightarrow>
          let c = cu_rnglists (ap_cu p) in
          obind (resolveRngListx le lp index 0 (lc_base c) (lc_is64 c) (lc_offsets_end c) (lc_end c)) (\<lambda>list_offset.
            if list_offset = 0 then Ret None
            else obind (parseRangeList le lp list_offset (cu_base_address (ap_cu p)) (ap_address_size p)
                          (lc_end c) (lc_seg_size c)) (\<lambda>es.
              Ret (Some (RangeValue (range_entries es))))))"

definition loclistx_value :: "bool \<Rightarrow> attr_parser \<Rightarrow> nat \<Rightarrow> attr_val option outcome" where
  "loclistx_value le p index =
     (case ap_loclists_parser p of
        None \<Rightarrow> Ret None
      | Some lp \<Rightarrow>
          let c = cu_loclists (ap_cu p) in
          obind (resolveLocListx le lp index 0 (lc_base c) (lc_is64 c) (lc_offsets_end c) (lc_end c)) (\<lambda>list_offset.
            if list_offset = 0 then Ret None
            else obind (parseLocationList le lp list_offset (cu_base_address (ap_cu p)) (ap_address_size p)
                          (lc_end c) (lc_seg_size c)) (\<lambda>es.
              Ret (if location_entries es = [] then None else Some (location_of_entries (location_entries es))))))"

definition parseFormRnglistx :: form_parser where
  "parseFormRnglistx le p off = obind (ap_readULEB128 p off) (\<lambda>(i, off). indexed (rnglistx_value le p) (unat i, off))"

definition parseFormLoclistx :: form_parser where
  "parseFormLoclistx le p off = obind (ap_readULEB128 p off) (\<lambda>(i, off). indexed (loclistx_value le p) (unat i, off))"

subsection \<open>The switch over the forms\<close>

definition form_parsers :: "(form \<times> form_parser) list" where
  "form_parsers =
     [(DW_FORM_addr, parseFormAddr), (DW_FORM_data1, parseFormData1), (DW_FORM_data2, parseFormData2),
      (DW_FORM_data4, parseFormData4), (DW_FORM_data8, parseFormData8), (DW_FORM_sdata, parseFormSdata),
      (DW_FORM_udata, parseFormUdata), (DW_FORM_string, parseFormString), (DW_FORM_strp, parseFormStrp),
      (DW_FORM_strp_sup, parseFormStrpSup), (DW_FORM_GNU_strp_alt, parseFormGnuStrpAlt),
      (DW_FORM_ref1, parseFormRef1), (DW_FORM_ref2, parseFormRef2), (DW_FORM_ref4, parseFormRef4),
      (DW_FORM_ref8, parseFormRef8), (DW_FORM_ref_sup4, parseFormRefSup4), (DW_FORM_ref_sup8, parseFormRefSup8),
      (DW_FORM_GNU_ref_alt, parseFormGnuRefAlt), (DW_FORM_ref_udata, parseFormRefUdata),
      (DW_FORM_flag, parseFormFlag), (DW_FORM_flag_present, parseFormFlagPresent),
      (DW_FORM_block1, parseFormBlock1), (DW_FORM_block2, parseFormBlock2), (DW_FORM_block4, parseFormBlock4),
      (DW_FORM_block, parseFormBlock), (DW_FORM_exprloc, parseFormExprloc), (DW_FORM_sec_offset, parseFormSecOffset),
      (DW_FORM_ref_addr, parseFormRefAddr), (DW_FORM_ref_sig8, parseFormRefSig8), (DW_FORM_strx, parseFormStrx),
      (DW_FORM_GNU_str_index, parseFormStrx), (DW_FORM_addrx, parseFormAddrx), (DW_FORM_GNU_addr_index, parseFormAddrx),
      (DW_FORM_data16, parseFormData16), (DW_FORM_line_strp, parseFormLineStrp),
      (DW_FORM_implicit_const, parseFormImplicitConst), (DW_FORM_loclistx, parseFormLoclistx),
      (DW_FORM_rnglistx, parseFormRnglistx), (DW_FORM_addrx1, parseFormAddrx1), (DW_FORM_addrx2, parseFormAddrx2),
      (DW_FORM_addrx3, parseFormAddrx3), (DW_FORM_addrx4, parseFormAddrx4), (DW_FORM_strx1, parseFormStrx1),
      (DW_FORM_strx2, parseFormStrx2), (DW_FORM_strx3, parseFormStrx3), (DW_FORM_strx4, parseFormStrx4)]"

subsection \<open>Forms that are skipped\<close>

definition isVendorExtensionForm :: "form \<Rightarrow> bool" where
  "isVendorExtensionForm f \<longleftrightarrow> 0xff < f"

definition usesLegacyOffsetSizedVendorFallback :: "form \<Rightarrow> bool" where
  "usesLegacyOffsetSizedVendorFallback f \<longleftrightarrow> f AND 0xff00 = 0x1f00"

definition isBoundedMirroredVendorLowByte :: "u8 \<Rightarrow> bool" where
  "isBoundedMirroredVendorLowByte low \<longleftrightarrow> low = 0x01 \<or> 0x03 \<le> low \<and> low \<le> 0x2c"

definition size_context :: "attr_parser \<Rightarrow> SizeContext" where
  "size_context p =
     \<lparr>sc_address_size = ap_address_size p, sc_offset_size = (if ap_is64 p then 8 else 4), sc_ref_addr_size = 0,
      sc_ref_addr_uses_address_size = (ap_version p = 2)\<rparr>"

definition ap_form_size :: "bool \<Rightarrow> attr_parser \<Rightarrow> form \<Rightarrow> nat \<Rightarrow> nat outcome" where
  "ap_form_size le p f off =
     getFormSize le (sec_info (ap_sections p)) f off (currentDebugInfoEnd p) (size_context p)"

definition nonzero_size :: "nat outcome \<Rightarrow> nat option outcome" where
  "nonzero_size r = obind r (\<lambda>n. Ret (if n = 0 then None else Some n))"

fun mirroredVendorFormSize :: "bool \<Rightarrow> attr_parser \<Rightarrow> nat \<Rightarrow> form \<Rightarrow> nat \<Rightarrow> nat option outcome" where
  "mirroredVendorFormSize le p 0 f off = Ret None"
| "mirroredVendorFormSize le p (Suc depth) f off =
     (if \<not> isVendorExtensionForm f then nonzero_size (ap_form_size le p f off)
      else
        let low = ucast f in
        if \<not> isBoundedMirroredVendorLowByte low then Ret None
        else if low = 0x16 then
          obind (ap_readULEB128 p off) (\<lambda>(nested, nested_off).
            if nested_off = off then Ret None
            else obind (mirroredVendorFormSize le p depth (ucast nested) nested_off) (\<lambda>tail.
              Ret (map_option (\<lambda>n. (nested_off - off) + n) tail)))
        else if low = 0x21 then Ret (Some 0)
        else nonzero_size (ap_form_size le p (ucast low) off))"

text \<open>The size to skip and the severity, which is empty for a form of known size.\<close>

definition skipped_size :: "bool \<Rightarrow> attr_parser \<Rightarrow> form \<Rightarrow> nat \<Rightarrow> (nat \<times> string) outcome" where
  "skipped_size le p f off =
     obind (ap_form_size le p f off) (\<lambda>n.
       if n \<noteq> 0 then Ret (n, [])
       else obind (if isVendorExtensionForm f then mirroredVendorFormSize le p 4 f off else Ret None) (\<lambda>m.
         let (n, severity) = (case m of Some n \<Rightarrow> (n, ''known_shape'') | None \<Rightarrow> (0, []))
         in Ret (if n = 0 \<and> usesLegacyOffsetSizedVendorFallback f
                 then (if ap_is64 p then 8 else 4, ''fallback_offset_sized'') else (n, severity))))"

definition count_skip :: "form \<Rightarrow> nat \<Rightarrow> string \<Rightarrow> vendor_skips \<Rightarrow> vendor_skips" where
  "count_skip f off severity v =
     (let sev = (if severity = [] then ''unspecified'' else severity)
      in \<lparr>skip_count = skip_count v + 1,
          skip_samples = (if length (skip_samples v) < 8
                          then skip_samples v @ [\<lparr>vs_form = f, vs_offset = off, vs_severity = sev\<rparr>] else skip_samples v),
          skip_histogram = (skip_histogram v)(f := skip_histogram v f + 1),
          skip_severities = (skip_severities v)(sev := skip_severities v sev + 1)\<rparr>)"

type_synonym parsed = "(attr_val option \<times> nat \<times> attr_parser) outcome"

definition skipUnsupportedForm :: "bool \<Rightarrow> attr_parser \<Rightarrow> form \<Rightarrow> nat \<Rightarrow> parsed" where
  "skipUnsupportedForm le p f off =
     (if sec_info (ap_sections p) = [] then Ret (None, off, p)
      else obind (skipped_size le p f off) (\<lambda>(n, severity).
        let p' = (if n \<noteq> 0 \<and> isVendorExtensionForm f then p\<lparr>ap_skips := count_skip f off severity (ap_skips p)\<rparr> else p)
        in Ret (None, advanceOffsetBounded p off n, p')))"

subsection \<open>\<open>parseAttribute\<close> by form\<close>

definition run_form :: "attr_parser \<Rightarrow> (attr_val option \<times> nat) outcome \<Rightarrow> parsed" where
  "run_form p r = obind r (\<lambda>(v, off). Ret (v, off, p))"

definition parse_direct :: "bool \<Rightarrow> attr_parser \<Rightarrow> form \<Rightarrow> nat \<Rightarrow> parsed" where
  "parse_direct le p f off =
     (case map_of form_parsers f of
        Some parser \<Rightarrow> run_form p (parser le p off)
      | None \<Rightarrow> skipUnsupportedForm le p f off)"

lemma readULEB128_at_end: "mx \<le> off \<Longrightarrow> readULEB128 d off mx = Ret (0, off)"
  by (simp add: readULEB128_def readULEB128_loop.simps)

text \<open>An indirect form at the end of the unit reads form 0.\<close>

function parseAttribute :: "bool \<Rightarrow> attr_parser \<Rightarrow> form \<Rightarrow> nat \<Rightarrow> parsed" where
  "parseAttribute le p f off =
     (if f = DW_FORM_indirect then
        obind (ap_readULEB128 p off) (\<lambda>(f', off'). parseAttribute le p (ucast f') off')
      else parse_direct le p f off)"
  by pat_completeness auto
termination
proof (relation "measures [\<lambda>(le, p, f, off). currentDebugInfoEnd p - off, \<lambda>(le, p, f, off). if f = DW_FORM_indirect then 1 else 0]",
    goal_cases)
  case (2 le p f off x f' off')
  then show ?case
    by (cases "currentDebugInfoEnd p \<le> off")
      (auto simp: ap_readULEB128_def readULEB128_at_end dest!: readULEB128_advances)
qed simp

declare parseAttribute.simps [simp del]

end
