(* ===== verification/Names.thy ===== *)
theory Names
  imports AttrValues
begin

section \<open>Tags, attributes and their names\<close>

text \<open>
  The enumerators of \<open>DwarfTag\<close> and \<open>DwarfAttribute\<close> (\<open>include/dwarf_types.hpp\<close>, both \<open>uint16_t\<close>), and the
  conversions of \<open>src/dwarf_utils.cpp\<close> between codes and names: a switch one way, a chain of
  comparisons the other way, each with its own table in the order of the source.
\<close>

subsection \<open>\<open>DwarfTag\<close> and \<open>DwarfAttribute\<close>\<close>

abbreviation DW_TAG_compile_unit :: u16 where "DW_TAG_compile_unit \<equiv> 0x11"
abbreviation DW_TAG_imported_declaration :: u16 where "DW_TAG_imported_declaration \<equiv> 0x08"
abbreviation DW_TAG_label :: u16 where "DW_TAG_label \<equiv> 0x0a"
abbreviation DW_TAG_partial_unit :: u16 where "DW_TAG_partial_unit \<equiv> 0x3c"
abbreviation DW_TAG_type_unit :: u16 where "DW_TAG_type_unit \<equiv> 0x41"
abbreviation DW_TAG_skeleton_unit :: u16 where "DW_TAG_skeleton_unit \<equiv> 0x4a"
abbreviation DW_TAG_split_compile_unit :: u16 where "DW_TAG_split_compile_unit \<equiv> 0x1b"
abbreviation DW_TAG_split_type_unit :: u16 where "DW_TAG_split_type_unit \<equiv> 0x43"
abbreviation DW_TAG_subprogram :: u16 where "DW_TAG_subprogram \<equiv> 0x2e"
abbreviation DW_TAG_variable :: u16 where "DW_TAG_variable \<equiv> 0x34"
abbreviation DW_TAG_formal_parameter :: u16 where "DW_TAG_formal_parameter \<equiv> 0x05"
abbreviation DW_TAG_base_type :: u16 where "DW_TAG_base_type \<equiv> 0x24"
abbreviation DW_TAG_unspecified_type :: u16 where "DW_TAG_unspecified_type \<equiv> 0x3b"
abbreviation DW_TAG_string_type :: u16 where "DW_TAG_string_type \<equiv> 0x12"
abbreviation DW_TAG_set_type :: u16 where "DW_TAG_set_type \<equiv> 0x20"
abbreviation DW_TAG_file_type :: u16 where "DW_TAG_file_type \<equiv> 0x29"
abbreviation DW_TAG_pointer_type :: u16 where "DW_TAG_pointer_type \<equiv> 0x0f"
abbreviation DW_TAG_ptr_to_member_type :: u16 where "DW_TAG_ptr_to_member_type \<equiv> 0x1f"
abbreviation DW_TAG_array_type :: u16 where "DW_TAG_array_type \<equiv> 0x01"
abbreviation DW_TAG_structure_type :: u16 where "DW_TAG_structure_type \<equiv> 0x13"
abbreviation DW_TAG_union_type :: u16 where "DW_TAG_union_type \<equiv> 0x17"
abbreviation DW_TAG_enumeration_type :: u16 where "DW_TAG_enumeration_type \<equiv> 0x04"
abbreviation DW_TAG_typedef :: u16 where "DW_TAG_typedef \<equiv> 0x16"
abbreviation DW_TAG_const_type :: u16 where "DW_TAG_const_type \<equiv> 0x26"
abbreviation DW_TAG_volatile_type :: u16 where "DW_TAG_volatile_type \<equiv> 0x35"
abbreviation DW_TAG_restrict_type :: u16 where "DW_TAG_restrict_type \<equiv> 0x37"
abbreviation DW_TAG_reference_type :: u16 where "DW_TAG_reference_type \<equiv> 0x10"
abbreviation DW_TAG_rvalue_reference_type :: u16 where "DW_TAG_rvalue_reference_type \<equiv> 0x42"
abbreviation DW_TAG_atomic_type :: u16 where "DW_TAG_atomic_type \<equiv> 0x47"
abbreviation DW_TAG_subrange_type :: u16 where "DW_TAG_subrange_type \<equiv> 0x21"
abbreviation DW_TAG_class_type :: u16 where "DW_TAG_class_type \<equiv> 0x02"
abbreviation DW_TAG_interface_type :: u16 where "DW_TAG_interface_type \<equiv> 0x38"
abbreviation DW_TAG_module :: u16 where "DW_TAG_module \<equiv> 0x1e"
abbreviation DW_TAG_namespace :: u16 where "DW_TAG_namespace \<equiv> 0x39"
abbreviation DW_TAG_imported_unit :: u16 where "DW_TAG_imported_unit \<equiv> 0x3d"
abbreviation DW_TAG_subroutine_type :: u16 where "DW_TAG_subroutine_type \<equiv> 0x15"
abbreviation DW_TAG_enumerator :: u16 where "DW_TAG_enumerator \<equiv> 0x28"
abbreviation DW_TAG_member :: u16 where "DW_TAG_member \<equiv> 0x0d"
abbreviation DW_TAG_inheritance :: u16 where "DW_TAG_inheritance \<equiv> 0x1c"
abbreviation DW_TAG_inlined_subroutine :: u16 where "DW_TAG_inlined_subroutine \<equiv> 0x1d"
abbreviation DW_TAG_lexical_block :: u16 where "DW_TAG_lexical_block \<equiv> 0x0b"
abbreviation DW_TAG_unspecified_parameters :: u16 where "DW_TAG_unspecified_parameters \<equiv> 0x18"

abbreviation DW_AT_sibling :: u16 where "DW_AT_sibling \<equiv> 0x01"
abbreviation DW_AT_location :: u16 where "DW_AT_location \<equiv> 0x02"
abbreviation DW_AT_name :: u16 where "DW_AT_name \<equiv> 0x03"
abbreviation DW_AT_ordering :: u16 where "DW_AT_ordering \<equiv> 0x09"
abbreviation DW_AT_byte_size :: u16 where "DW_AT_byte_size \<equiv> 0x0b"
abbreviation DW_AT_bit_offset :: u16 where "DW_AT_bit_offset \<equiv> 0x0c"
abbreviation DW_AT_bit_size :: u16 where "DW_AT_bit_size \<equiv> 0x0d"
abbreviation DW_AT_stmt_list :: u16 where "DW_AT_stmt_list \<equiv> 0x10"
abbreviation DW_AT_low_pc :: u16 where "DW_AT_low_pc \<equiv> 0x11"
abbreviation DW_AT_high_pc :: u16 where "DW_AT_high_pc \<equiv> 0x12"
abbreviation DW_AT_language :: u16 where "DW_AT_language \<equiv> 0x13"
abbreviation DW_AT_discr :: u16 where "DW_AT_discr \<equiv> 0x15"
abbreviation DW_AT_discr_value :: u16 where "DW_AT_discr_value \<equiv> 0x16"
abbreviation DW_AT_visibility :: u16 where "DW_AT_visibility \<equiv> 0x17"
abbreviation DW_AT_import :: u16 where "DW_AT_import \<equiv> 0x18"
abbreviation DW_AT_string_length :: u16 where "DW_AT_string_length \<equiv> 0x19"
abbreviation DW_AT_common_reference :: u16 where "DW_AT_common_reference \<equiv> 0x1a"
abbreviation DW_AT_comp_dir :: u16 where "DW_AT_comp_dir \<equiv> 0x1b"
abbreviation DW_AT_const_value :: u16 where "DW_AT_const_value \<equiv> 0x1c"
abbreviation DW_AT_containing_type :: u16 where "DW_AT_containing_type \<equiv> 0x1d"
abbreviation DW_AT_default_value :: u16 where "DW_AT_default_value \<equiv> 0x1e"
abbreviation DW_AT_inline :: u16 where "DW_AT_inline \<equiv> 0x20"
abbreviation DW_AT_is_optional :: u16 where "DW_AT_is_optional \<equiv> 0x21"
abbreviation DW_AT_lower_bound :: u16 where "DW_AT_lower_bound \<equiv> 0x22"
abbreviation DW_AT_producer :: u16 where "DW_AT_producer \<equiv> 0x25"
abbreviation DW_AT_prototyped :: u16 where "DW_AT_prototyped \<equiv> 0x27"
abbreviation DW_AT_return_addr :: u16 where "DW_AT_return_addr \<equiv> 0x2a"
abbreviation DW_AT_start_scope :: u16 where "DW_AT_start_scope \<equiv> 0x2c"
abbreviation DW_AT_bit_stride :: u16 where "DW_AT_bit_stride \<equiv> 0x2e"
abbreviation DW_AT_upper_bound :: u16 where "DW_AT_upper_bound \<equiv> 0x2f"
abbreviation DW_AT_abstract_origin :: u16 where "DW_AT_abstract_origin \<equiv> 0x31"
abbreviation DW_AT_accessibility :: u16 where "DW_AT_accessibility \<equiv> 0x32"
abbreviation DW_AT_address_class :: u16 where "DW_AT_address_class \<equiv> 0x33"
abbreviation DW_AT_artificial :: u16 where "DW_AT_artificial \<equiv> 0x34"
abbreviation DW_AT_base_types :: u16 where "DW_AT_base_types \<equiv> 0x35"
abbreviation DW_AT_calling_convention :: u16 where "DW_AT_calling_convention \<equiv> 0x36"
abbreviation DW_AT_count :: u16 where "DW_AT_count \<equiv> 0x37"
abbreviation DW_AT_data_member_location :: u16 where "DW_AT_data_member_location \<equiv> 0x38"
abbreviation DW_AT_decl_column :: u16 where "DW_AT_decl_column \<equiv> 0x39"
abbreviation DW_AT_decl_file :: u16 where "DW_AT_decl_file \<equiv> 0x3a"
abbreviation DW_AT_decl_line :: u16 where "DW_AT_decl_line \<equiv> 0x3b"
abbreviation DW_AT_declaration :: u16 where "DW_AT_declaration \<equiv> 0x3c"
abbreviation DW_AT_discr_list :: u16 where "DW_AT_discr_list \<equiv> 0x3d"
abbreviation DW_AT_encoding :: u16 where "DW_AT_encoding \<equiv> 0x3e"
abbreviation DW_AT_external :: u16 where "DW_AT_external \<equiv> 0x3f"
abbreviation DW_AT_frame_base :: u16 where "DW_AT_frame_base \<equiv> 0x40"
abbreviation DW_AT_friend :: u16 where "DW_AT_friend \<equiv> 0x41"
abbreviation DW_AT_identifier_case :: u16 where "DW_AT_identifier_case \<equiv> 0x42"
abbreviation DW_AT_macro_info :: u16 where "DW_AT_macro_info \<equiv> 0x43"
abbreviation DW_AT_namelist_item :: u16 where "DW_AT_namelist_item \<equiv> 0x44"
abbreviation DW_AT_volatile :: u16 where "DW_AT_volatile \<equiv> 0x2100"
abbreviation DW_AT_priority :: u16 where "DW_AT_priority \<equiv> 0x45"
abbreviation DW_AT_segment :: u16 where "DW_AT_segment \<equiv> 0x46"
abbreviation DW_AT_specification :: u16 where "DW_AT_specification \<equiv> 0x47"
abbreviation DW_AT_static_link :: u16 where "DW_AT_static_link \<equiv> 0x48"
abbreviation DW_AT_type :: u16 where "DW_AT_type \<equiv> 0x49"
abbreviation DW_AT_use_location :: u16 where "DW_AT_use_location \<equiv> 0x4a"
abbreviation DW_AT_variable_parameter :: u16 where "DW_AT_variable_parameter \<equiv> 0x4b"
abbreviation DW_AT_virtuality :: u16 where "DW_AT_virtuality \<equiv> 0x4c"
abbreviation DW_AT_vtable_elem_location :: u16 where "DW_AT_vtable_elem_location \<equiv> 0x4d"
abbreviation DW_AT_allocated :: u16 where "DW_AT_allocated \<equiv> 0x4e"
abbreviation DW_AT_associated :: u16 where "DW_AT_associated \<equiv> 0x4f"
abbreviation DW_AT_data_location :: u16 where "DW_AT_data_location \<equiv> 0x50"
abbreviation DW_AT_byte_stride :: u16 where "DW_AT_byte_stride \<equiv> 0x51"
abbreviation DW_AT_entry_pc :: u16 where "DW_AT_entry_pc \<equiv> 0x52"
abbreviation DW_AT_use_UTF8 :: u16 where "DW_AT_use_UTF8 \<equiv> 0x53"
abbreviation DW_AT_extension :: u16 where "DW_AT_extension \<equiv> 0x54"
abbreviation DW_AT_ranges :: u16 where "DW_AT_ranges \<equiv> 0x55"
abbreviation DW_AT_trampoline :: u16 where "DW_AT_trampoline \<equiv> 0x56"
abbreviation DW_AT_call_column :: u16 where "DW_AT_call_column \<equiv> 0x57"
abbreviation DW_AT_call_file :: u16 where "DW_AT_call_file \<equiv> 0x58"
abbreviation DW_AT_call_line :: u16 where "DW_AT_call_line \<equiv> 0x59"
abbreviation DW_AT_description :: u16 where "DW_AT_description \<equiv> 0x5a"
abbreviation DW_AT_binary_scale :: u16 where "DW_AT_binary_scale \<equiv> 0x5b"
abbreviation DW_AT_decimal_scale :: u16 where "DW_AT_decimal_scale \<equiv> 0x5c"
abbreviation DW_AT_small :: u16 where "DW_AT_small \<equiv> 0x5d"
abbreviation DW_AT_decimal_sign :: u16 where "DW_AT_decimal_sign \<equiv> 0x5e"
abbreviation DW_AT_digit_count :: u16 where "DW_AT_digit_count \<equiv> 0x5f"
abbreviation DW_AT_picture_string :: u16 where "DW_AT_picture_string \<equiv> 0x60"
abbreviation DW_AT_mutable :: u16 where "DW_AT_mutable \<equiv> 0x61"
abbreviation DW_AT_threads_scaled :: u16 where "DW_AT_threads_scaled \<equiv> 0x62"
abbreviation DW_AT_explicit :: u16 where "DW_AT_explicit \<equiv> 0x63"
abbreviation DW_AT_object_pointer :: u16 where "DW_AT_object_pointer \<equiv> 0x64"
abbreviation DW_AT_endianity :: u16 where "DW_AT_endianity \<equiv> 0x65"
abbreviation DW_AT_elemental :: u16 where "DW_AT_elemental \<equiv> 0x66"
abbreviation DW_AT_pure :: u16 where "DW_AT_pure \<equiv> 0x67"
abbreviation DW_AT_recursive :: u16 where "DW_AT_recursive \<equiv> 0x68"
abbreviation DW_AT_signature :: u16 where "DW_AT_signature \<equiv> 0x69"
abbreviation DW_AT_main_subprogram :: u16 where "DW_AT_main_subprogram \<equiv> 0x6a"
abbreviation DW_AT_data_bit_offset :: u16 where "DW_AT_data_bit_offset \<equiv> 0x6b"
abbreviation DW_AT_const_expr :: u16 where "DW_AT_const_expr \<equiv> 0x6c"
abbreviation DW_AT_enum_class :: u16 where "DW_AT_enum_class \<equiv> 0x6d"
abbreviation DW_AT_linkage_name :: u16 where "DW_AT_linkage_name \<equiv> 0x6e"
abbreviation DW_AT_string_length_bit_size :: u16 where "DW_AT_string_length_bit_size \<equiv> 0x6f"
abbreviation DW_AT_string_length_byte_size :: u16 where "DW_AT_string_length_byte_size \<equiv> 0x70"
abbreviation DW_AT_rank :: u16 where "DW_AT_rank \<equiv> 0x71"
abbreviation DW_AT_str_offsets_base :: u16 where "DW_AT_str_offsets_base \<equiv> 0x72"
abbreviation DW_AT_addr_base :: u16 where "DW_AT_addr_base \<equiv> 0x73"
abbreviation DW_AT_rnglists_base :: u16 where "DW_AT_rnglists_base \<equiv> 0x74"
abbreviation DW_AT_dwo_id :: u16 where "DW_AT_dwo_id \<equiv> 0x75"
abbreviation DW_AT_dwo_name :: u16 where "DW_AT_dwo_name \<equiv> 0x76"
abbreviation DW_AT_reference :: u16 where "DW_AT_reference \<equiv> 0x77"
abbreviation DW_AT_rvalue_reference :: u16 where "DW_AT_rvalue_reference \<equiv> 0x78"
abbreviation DW_AT_macros :: u16 where "DW_AT_macros \<equiv> 0x79"
abbreviation DW_AT_call_all_calls :: u16 where "DW_AT_call_all_calls \<equiv> 0x7a"
abbreviation DW_AT_call_all_source_calls :: u16 where "DW_AT_call_all_source_calls \<equiv> 0x7b"
abbreviation DW_AT_call_all_tail_calls :: u16 where "DW_AT_call_all_tail_calls \<equiv> 0x7c"
abbreviation DW_AT_call_return_pc :: u16 where "DW_AT_call_return_pc \<equiv> 0x7d"
abbreviation DW_AT_call_value :: u16 where "DW_AT_call_value \<equiv> 0x7e"
abbreviation DW_AT_call_origin :: u16 where "DW_AT_call_origin \<equiv> 0x7f"
abbreviation DW_AT_call_parameter :: u16 where "DW_AT_call_parameter \<equiv> 0x80"
abbreviation DW_AT_loclists_base :: u16 where "DW_AT_loclists_base \<equiv> 0x8c"
abbreviation DW_AT_GNU_dwo_name :: u16 where "DW_AT_GNU_dwo_name \<equiv> 0x2130"
abbreviation DW_AT_GNU_dwo_id :: u16 where "DW_AT_GNU_dwo_id \<equiv> 0x2131"

subsection \<open>The tables\<close>

definition tagToString_cases :: "(u16 \<times> string) list" where
  "tagToString_cases =
     [(DW_TAG_imported_declaration, ''DW_TAG_imported_declaration''), (DW_TAG_label, ''DW_TAG_label''),
      (DW_TAG_compile_unit, ''DW_TAG_compile_unit''), (DW_TAG_partial_unit, ''DW_TAG_partial_unit''),
      (DW_TAG_type_unit, ''DW_TAG_type_unit''), (DW_TAG_skeleton_unit, ''DW_TAG_skeleton_unit''),
      (DW_TAG_split_compile_unit, ''DW_TAG_split_compile_unit''),
      (DW_TAG_split_type_unit, ''DW_TAG_split_type_unit''), (DW_TAG_subprogram, ''DW_TAG_subprogram''),
      (DW_TAG_variable, ''DW_TAG_variable''), (DW_TAG_formal_parameter, ''DW_TAG_formal_parameter''),
      (DW_TAG_base_type, ''DW_TAG_base_type''), (DW_TAG_unspecified_type, ''DW_TAG_unspecified_type''),
      (DW_TAG_string_type, ''DW_TAG_string_type''), (DW_TAG_set_type, ''DW_TAG_set_type''),
      (DW_TAG_file_type, ''DW_TAG_file_type''), (DW_TAG_pointer_type, ''DW_TAG_pointer_type''),
      (DW_TAG_ptr_to_member_type, ''DW_TAG_ptr_to_member_type''), (DW_TAG_array_type, ''DW_TAG_array_type''),
      (DW_TAG_structure_type, ''DW_TAG_structure_type''), (DW_TAG_union_type, ''DW_TAG_union_type''),
      (DW_TAG_enumeration_type, ''DW_TAG_enumeration_type''), (DW_TAG_typedef, ''DW_TAG_typedef''),
      (DW_TAG_const_type, ''DW_TAG_const_type''), (DW_TAG_volatile_type, ''DW_TAG_volatile_type''),
      (DW_TAG_restrict_type, ''DW_TAG_restrict_type''), (DW_TAG_reference_type, ''DW_TAG_reference_type''),
      (DW_TAG_rvalue_reference_type, ''DW_TAG_rvalue_reference_type''),
      (DW_TAG_atomic_type, ''DW_TAG_atomic_type''), (DW_TAG_subrange_type, ''DW_TAG_subrange_type''),
      (DW_TAG_class_type, ''DW_TAG_class_type''), (DW_TAG_interface_type, ''DW_TAG_interface_type''),
      (DW_TAG_module, ''DW_TAG_module''), (DW_TAG_namespace, ''DW_TAG_namespace''),
      (DW_TAG_imported_unit, ''DW_TAG_imported_unit''), (DW_TAG_subroutine_type, ''DW_TAG_subroutine_type''),
      (DW_TAG_enumerator, ''DW_TAG_enumerator''), (DW_TAG_member, ''DW_TAG_member''),
      (DW_TAG_inheritance, ''DW_TAG_inheritance''), (DW_TAG_inlined_subroutine, ''DW_TAG_inlined_subroutine''),
      (DW_TAG_lexical_block, ''DW_TAG_lexical_block''),
      (DW_TAG_unspecified_parameters, ''DW_TAG_unspecified_parameters'')]"

definition stringToTag_cases :: "(string \<times> u16) list" where
  "stringToTag_cases =
     [(''DW_TAG_imported_declaration'', DW_TAG_imported_declaration), (''DW_TAG_label'', DW_TAG_label),
      (''DW_TAG_compile_unit'', DW_TAG_compile_unit), (''DW_TAG_partial_unit'', DW_TAG_partial_unit),
      (''DW_TAG_type_unit'', DW_TAG_type_unit), (''DW_TAG_skeleton_unit'', DW_TAG_skeleton_unit),
      (''DW_TAG_split_compile_unit'', DW_TAG_split_compile_unit),
      (''DW_TAG_split_type_unit'', DW_TAG_split_type_unit), (''DW_TAG_subprogram'', DW_TAG_subprogram),
      (''DW_TAG_variable'', DW_TAG_variable), (''DW_TAG_formal_parameter'', DW_TAG_formal_parameter),
      (''DW_TAG_base_type'', DW_TAG_base_type), (''DW_TAG_unspecified_type'', DW_TAG_unspecified_type),
      (''DW_TAG_string_type'', DW_TAG_string_type), (''DW_TAG_set_type'', DW_TAG_set_type),
      (''DW_TAG_file_type'', DW_TAG_file_type), (''DW_TAG_pointer_type'', DW_TAG_pointer_type),
      (''DW_TAG_ptr_to_member_type'', DW_TAG_ptr_to_member_type), (''DW_TAG_array_type'', DW_TAG_array_type),
      (''DW_TAG_structure_type'', DW_TAG_structure_type), (''DW_TAG_union_type'', DW_TAG_union_type),
      (''DW_TAG_enumeration_type'', DW_TAG_enumeration_type), (''DW_TAG_typedef'', DW_TAG_typedef),
      (''DW_TAG_const_type'', DW_TAG_const_type), (''DW_TAG_volatile_type'', DW_TAG_volatile_type),
      (''DW_TAG_restrict_type'', DW_TAG_restrict_type), (''DW_TAG_reference_type'', DW_TAG_reference_type),
      (''DW_TAG_rvalue_reference_type'', DW_TAG_rvalue_reference_type),
      (''DW_TAG_atomic_type'', DW_TAG_atomic_type), (''DW_TAG_subrange_type'', DW_TAG_subrange_type),
      (''DW_TAG_class_type'', DW_TAG_class_type), (''DW_TAG_interface_type'', DW_TAG_interface_type),
      (''DW_TAG_module'', DW_TAG_module), (''DW_TAG_namespace'', DW_TAG_namespace),
      (''DW_TAG_imported_unit'', DW_TAG_imported_unit), (''DW_TAG_subroutine_type'', DW_TAG_subroutine_type),
      (''DW_TAG_enumerator'', DW_TAG_enumerator), (''DW_TAG_member'', DW_TAG_member),
      (''DW_TAG_inheritance'', DW_TAG_inheritance), (''DW_TAG_inlined_subroutine'', DW_TAG_inlined_subroutine),
      (''DW_TAG_lexical_block'', DW_TAG_lexical_block),
      (''DW_TAG_unspecified_parameters'', DW_TAG_unspecified_parameters)]"

definition attributeToString_cases :: "(u16 \<times> string) list" where
  "attributeToString_cases =
     [(DW_AT_sibling, ''DW_AT_sibling''), (DW_AT_location, ''DW_AT_location''), (DW_AT_name, ''DW_AT_name''),
      (DW_AT_ordering, ''DW_AT_ordering''), (DW_AT_byte_size, ''DW_AT_byte_size''),
      (DW_AT_bit_offset, ''DW_AT_bit_offset''), (DW_AT_bit_size, ''DW_AT_bit_size''),
      (DW_AT_stmt_list, ''DW_AT_stmt_list''), (DW_AT_type, ''DW_AT_type''), (DW_AT_low_pc, ''DW_AT_low_pc''),
      (DW_AT_high_pc, ''DW_AT_high_pc''), (DW_AT_language, ''DW_AT_language''), (DW_AT_discr, ''DW_AT_discr''),
      (DW_AT_discr_value, ''DW_AT_discr_value''), (DW_AT_visibility, ''DW_AT_visibility''),
      (DW_AT_import, ''DW_AT_import''), (DW_AT_string_length, ''DW_AT_string_length''),
      (DW_AT_common_reference, ''DW_AT_common_reference''), (DW_AT_comp_dir, ''DW_AT_comp_dir''),
      (DW_AT_const_value, ''DW_AT_const_value''), (DW_AT_containing_type, ''DW_AT_containing_type''),
      (DW_AT_default_value, ''DW_AT_default_value''), (DW_AT_inline, ''DW_AT_inline''),
      (DW_AT_is_optional, ''DW_AT_is_optional''), (DW_AT_lower_bound, ''DW_AT_lower_bound''),
      (DW_AT_producer, ''DW_AT_producer''), (DW_AT_prototyped, ''DW_AT_prototyped''),
      (DW_AT_return_addr, ''DW_AT_return_addr''), (DW_AT_start_scope, ''DW_AT_start_scope''),
      (DW_AT_bit_stride, ''DW_AT_bit_stride''), (DW_AT_upper_bound, ''DW_AT_upper_bound''),
      (DW_AT_abstract_origin, ''DW_AT_abstract_origin''), (DW_AT_accessibility, ''DW_AT_accessibility''),
      (DW_AT_address_class, ''DW_AT_address_class''), (DW_AT_artificial, ''DW_AT_artificial''),
      (DW_AT_base_types, ''DW_AT_base_types''), (DW_AT_calling_convention, ''DW_AT_calling_convention''),
      (DW_AT_count, ''DW_AT_count''), (DW_AT_data_member_location, ''DW_AT_data_member_location''),
      (DW_AT_encoding, ''DW_AT_encoding''), (DW_AT_decl_file, ''DW_AT_decl_file''),
      (DW_AT_decl_line, ''DW_AT_decl_line''), (DW_AT_decl_column, ''DW_AT_decl_column''),
      (DW_AT_declaration, ''DW_AT_declaration''), (DW_AT_discr_list, ''DW_AT_discr_list''),
      (DW_AT_external, ''DW_AT_external''), (DW_AT_frame_base, ''DW_AT_frame_base''),
      (DW_AT_friend, ''DW_AT_friend''), (DW_AT_identifier_case, ''DW_AT_identifier_case''),
      (DW_AT_macro_info, ''DW_AT_macro_info''), (DW_AT_namelist_item, ''DW_AT_namelist_item''),
      (DW_AT_priority, ''DW_AT_priority''), (DW_AT_segment, ''DW_AT_segment''),
      (DW_AT_specification, ''DW_AT_specification''), (DW_AT_static_link, ''DW_AT_static_link''),
      (DW_AT_use_location, ''DW_AT_use_location''), (DW_AT_variable_parameter, ''DW_AT_variable_parameter''),
      (DW_AT_virtuality, ''DW_AT_virtuality''), (DW_AT_vtable_elem_location, ''DW_AT_vtable_elem_location''),
      (DW_AT_allocated, ''DW_AT_allocated''), (DW_AT_associated, ''DW_AT_associated''),
      (DW_AT_data_location, ''DW_AT_data_location''), (DW_AT_byte_stride, ''DW_AT_byte_stride''),
      (DW_AT_entry_pc, ''DW_AT_entry_pc''), (DW_AT_use_UTF8, ''DW_AT_use_UTF8''),
      (DW_AT_extension, ''DW_AT_extension''), (DW_AT_ranges, ''DW_AT_ranges''),
      (DW_AT_trampoline, ''DW_AT_trampoline''), (DW_AT_call_column, ''DW_AT_call_column''),
      (DW_AT_call_file, ''DW_AT_call_file''), (DW_AT_call_line, ''DW_AT_call_line''),
      (DW_AT_description, ''DW_AT_description''), (DW_AT_binary_scale, ''DW_AT_binary_scale''),
      (DW_AT_decimal_scale, ''DW_AT_decimal_scale''), (DW_AT_small, ''DW_AT_small''),
      (DW_AT_decimal_sign, ''DW_AT_decimal_sign''), (DW_AT_digit_count, ''DW_AT_digit_count''),
      (DW_AT_picture_string, ''DW_AT_picture_string''), (DW_AT_mutable, ''DW_AT_mutable''),
      (DW_AT_threads_scaled, ''DW_AT_threads_scaled''), (DW_AT_explicit, ''DW_AT_explicit''),
      (DW_AT_object_pointer, ''DW_AT_object_pointer''), (DW_AT_endianity, ''DW_AT_endianity''),
      (DW_AT_elemental, ''DW_AT_elemental''), (DW_AT_pure, ''DW_AT_pure''),
      (DW_AT_recursive, ''DW_AT_recursive''), (DW_AT_signature, ''DW_AT_signature''),
      (DW_AT_main_subprogram, ''DW_AT_main_subprogram''), (DW_AT_data_bit_offset, ''DW_AT_data_bit_offset''),
      (DW_AT_const_expr, ''DW_AT_const_expr''), (DW_AT_enum_class, ''DW_AT_enum_class''),
      (DW_AT_linkage_name, ''DW_AT_linkage_name''),
      (DW_AT_string_length_bit_size, ''DW_AT_string_length_bit_size''),
      (DW_AT_string_length_byte_size, ''DW_AT_string_length_byte_size''), (DW_AT_rank, ''DW_AT_rank''),
      (DW_AT_addr_base, ''DW_AT_addr_base''), (DW_AT_rnglists_base, ''DW_AT_rnglists_base''),
      (DW_AT_loclists_base, ''DW_AT_loclists_base''), (DW_AT_str_offsets_base, ''DW_AT_str_offsets_base''),
      (DW_AT_reference, ''DW_AT_reference''), (DW_AT_rvalue_reference, ''DW_AT_rvalue_reference''),
      (DW_AT_macros, ''DW_AT_macros''), (DW_AT_call_all_calls, ''DW_AT_call_all_calls''),
      (DW_AT_call_all_source_calls, ''DW_AT_call_all_source_calls''),
      (DW_AT_call_all_tail_calls, ''DW_AT_call_all_tail_calls''),
      (DW_AT_call_return_pc, ''DW_AT_call_return_pc''), (DW_AT_call_value, ''DW_AT_call_value''),
      (DW_AT_call_origin, ''DW_AT_call_origin''), (DW_AT_call_parameter, ''DW_AT_call_parameter''),
      (DW_AT_dwo_name, ''DW_AT_dwo_name''), (DW_AT_dwo_id, ''DW_AT_dwo_id''),
      (DW_AT_GNU_dwo_name, ''DW_AT_GNU_dwo_name''), (DW_AT_GNU_dwo_id, ''DW_AT_GNU_dwo_id''),
      (DW_AT_volatile, ''DW_AT_volatile'')]"

definition stringToAttribute_cases :: "(string \<times> u16) list" where
  "stringToAttribute_cases =
     [(''DW_AT_sibling'', DW_AT_sibling), (''DW_AT_location'', DW_AT_location), (''DW_AT_name'', DW_AT_name),
      (''DW_AT_ordering'', DW_AT_ordering), (''DW_AT_byte_size'', DW_AT_byte_size),
      (''DW_AT_bit_offset'', DW_AT_bit_offset), (''DW_AT_bit_size'', DW_AT_bit_size),
      (''DW_AT_stmt_list'', DW_AT_stmt_list), (''DW_AT_type'', DW_AT_type), (''DW_AT_low_pc'', DW_AT_low_pc),
      (''DW_AT_high_pc'', DW_AT_high_pc), (''DW_AT_language'', DW_AT_language), (''DW_AT_discr'', DW_AT_discr),
      (''DW_AT_discr_value'', DW_AT_discr_value), (''DW_AT_visibility'', DW_AT_visibility),
      (''DW_AT_import'', DW_AT_import), (''DW_AT_string_length'', DW_AT_string_length),
      (''DW_AT_common_reference'', DW_AT_common_reference), (''DW_AT_comp_dir'', DW_AT_comp_dir),
      (''DW_AT_const_value'', DW_AT_const_value), (''DW_AT_containing_type'', DW_AT_containing_type),
      (''DW_AT_default_value'', DW_AT_default_value), (''DW_AT_inline'', DW_AT_inline),
      (''DW_AT_is_optional'', DW_AT_is_optional), (''DW_AT_lower_bound'', DW_AT_lower_bound),
      (''DW_AT_producer'', DW_AT_producer), (''DW_AT_prototyped'', DW_AT_prototyped),
      (''DW_AT_return_addr'', DW_AT_return_addr), (''DW_AT_start_scope'', DW_AT_start_scope),
      (''DW_AT_bit_stride'', DW_AT_bit_stride), (''DW_AT_upper_bound'', DW_AT_upper_bound),
      (''DW_AT_abstract_origin'', DW_AT_abstract_origin), (''DW_AT_accessibility'', DW_AT_accessibility),
      (''DW_AT_address_class'', DW_AT_address_class), (''DW_AT_artificial'', DW_AT_artificial),
      (''DW_AT_base_types'', DW_AT_base_types), (''DW_AT_calling_convention'', DW_AT_calling_convention),
      (''DW_AT_count'', DW_AT_count), (''DW_AT_data_member_location'', DW_AT_data_member_location),
      (''DW_AT_encoding'', DW_AT_encoding), (''DW_AT_decl_file'', DW_AT_decl_file),
      (''DW_AT_decl_line'', DW_AT_decl_line), (''DW_AT_decl_column'', DW_AT_decl_column),
      (''DW_AT_declaration'', DW_AT_declaration), (''DW_AT_discr_list'', DW_AT_discr_list),
      (''DW_AT_external'', DW_AT_external), (''DW_AT_frame_base'', DW_AT_frame_base),
      (''DW_AT_friend'', DW_AT_friend), (''DW_AT_identifier_case'', DW_AT_identifier_case),
      (''DW_AT_macro_info'', DW_AT_macro_info), (''DW_AT_namelist_item'', DW_AT_namelist_item),
      (''DW_AT_priority'', DW_AT_priority), (''DW_AT_segment'', DW_AT_segment),
      (''DW_AT_specification'', DW_AT_specification), (''DW_AT_static_link'', DW_AT_static_link),
      (''DW_AT_use_location'', DW_AT_use_location), (''DW_AT_variable_parameter'', DW_AT_variable_parameter),
      (''DW_AT_virtuality'', DW_AT_virtuality), (''DW_AT_vtable_elem_location'', DW_AT_vtable_elem_location),
      (''DW_AT_allocated'', DW_AT_allocated), (''DW_AT_associated'', DW_AT_associated),
      (''DW_AT_data_location'', DW_AT_data_location), (''DW_AT_byte_stride'', DW_AT_byte_stride),
      (''DW_AT_entry_pc'', DW_AT_entry_pc), (''DW_AT_use_UTF8'', DW_AT_use_UTF8),
      (''DW_AT_extension'', DW_AT_extension), (''DW_AT_ranges'', DW_AT_ranges),
      (''DW_AT_trampoline'', DW_AT_trampoline), (''DW_AT_call_column'', DW_AT_call_column),
      (''DW_AT_call_file'', DW_AT_call_file), (''DW_AT_call_line'', DW_AT_call_line),
      (''DW_AT_description'', DW_AT_description), (''DW_AT_binary_scale'', DW_AT_binary_scale),
      (''DW_AT_decimal_scale'', DW_AT_decimal_scale), (''DW_AT_small'', DW_AT_small),
      (''DW_AT_decimal_sign'', DW_AT_decimal_sign), (''DW_AT_digit_count'', DW_AT_digit_count),
      (''DW_AT_picture_string'', DW_AT_picture_string), (''DW_AT_mutable'', DW_AT_mutable),
      (''DW_AT_threads_scaled'', DW_AT_threads_scaled), (''DW_AT_explicit'', DW_AT_explicit),
      (''DW_AT_object_pointer'', DW_AT_object_pointer), (''DW_AT_endianity'', DW_AT_endianity),
      (''DW_AT_elemental'', DW_AT_elemental), (''DW_AT_pure'', DW_AT_pure),
      (''DW_AT_recursive'', DW_AT_recursive), (''DW_AT_signature'', DW_AT_signature),
      (''DW_AT_main_subprogram'', DW_AT_main_subprogram), (''DW_AT_data_bit_offset'', DW_AT_data_bit_offset),
      (''DW_AT_const_expr'', DW_AT_const_expr), (''DW_AT_enum_class'', DW_AT_enum_class),
      (''DW_AT_linkage_name'', DW_AT_linkage_name),
      (''DW_AT_string_length_bit_size'', DW_AT_string_length_bit_size),
      (''DW_AT_string_length_byte_size'', DW_AT_string_length_byte_size), (''DW_AT_rank'', DW_AT_rank),
      (''DW_AT_addr_base'', DW_AT_addr_base), (''DW_AT_rnglists_base'', DW_AT_rnglists_base),
      (''DW_AT_loclists_base'', DW_AT_loclists_base), (''DW_AT_str_offsets_base'', DW_AT_str_offsets_base),
      (''DW_AT_reference'', DW_AT_reference), (''DW_AT_rvalue_reference'', DW_AT_rvalue_reference),
      (''DW_AT_macros'', DW_AT_macros), (''DW_AT_call_all_calls'', DW_AT_call_all_calls),
      (''DW_AT_call_all_source_calls'', DW_AT_call_all_source_calls),
      (''DW_AT_call_all_tail_calls'', DW_AT_call_all_tail_calls),
      (''DW_AT_call_return_pc'', DW_AT_call_return_pc), (''DW_AT_call_value'', DW_AT_call_value),
      (''DW_AT_call_origin'', DW_AT_call_origin), (''DW_AT_call_parameter'', DW_AT_call_parameter),
      (''DW_AT_dwo_name'', DW_AT_dwo_name), (''DW_AT_dwo_id'', DW_AT_dwo_id),
      (''DW_AT_GNU_dwo_name'', DW_AT_GNU_dwo_name), (''DW_AT_GNU_dwo_id'', DW_AT_GNU_dwo_id),
      (''DW_AT_volatile'', DW_AT_volatile)]"

definition formToString_cases :: "(form \<times> string) list" where
  "formToString_cases =
     [(DW_FORM_addr, ''DW_FORM_addr''), (DW_FORM_block2, ''DW_FORM_block2''),
      (DW_FORM_block4, ''DW_FORM_block4''), (DW_FORM_data2, ''DW_FORM_data2''),
      (DW_FORM_data4, ''DW_FORM_data4''), (DW_FORM_data8, ''DW_FORM_data8''),
      (DW_FORM_string, ''DW_FORM_string''), (DW_FORM_block, ''DW_FORM_block''),
      (DW_FORM_block1, ''DW_FORM_block1''), (DW_FORM_data1, ''DW_FORM_data1''),
      (DW_FORM_flag, ''DW_FORM_flag''), (DW_FORM_sdata, ''DW_FORM_sdata''), (DW_FORM_strp, ''DW_FORM_strp''),
      (DW_FORM_udata, ''DW_FORM_udata''), (DW_FORM_ref_addr, ''DW_FORM_ref_addr''),
      (DW_FORM_ref1, ''DW_FORM_ref1''), (DW_FORM_ref2, ''DW_FORM_ref2''), (DW_FORM_ref4, ''DW_FORM_ref4''),
      (DW_FORM_ref8, ''DW_FORM_ref8''), (DW_FORM_ref_udata, ''DW_FORM_ref_udata''),
      (DW_FORM_indirect, ''DW_FORM_indirect''), (DW_FORM_sec_offset, ''DW_FORM_sec_offset''),
      (DW_FORM_exprloc, ''DW_FORM_exprloc''), (DW_FORM_flag_present, ''DW_FORM_flag_present''),
      (DW_FORM_strx, ''DW_FORM_strx''), (DW_FORM_addrx, ''DW_FORM_addrx''),
      (DW_FORM_ref_sup4, ''DW_FORM_ref_sup4''), (DW_FORM_strp_sup, ''DW_FORM_strp_sup''),
      (DW_FORM_data16, ''DW_FORM_data16''), (DW_FORM_line_strp, ''DW_FORM_line_strp''),
      (DW_FORM_ref_sig8, ''DW_FORM_ref_sig8''), (DW_FORM_implicit_const, ''DW_FORM_implicit_const''),
      (DW_FORM_loclistx, ''DW_FORM_loclistx''), (DW_FORM_rnglistx, ''DW_FORM_rnglistx''),
      (DW_FORM_ref_sup8, ''DW_FORM_ref_sup8''), (DW_FORM_strx1, ''DW_FORM_strx1''),
      (DW_FORM_strx2, ''DW_FORM_strx2''), (DW_FORM_strx3, ''DW_FORM_strx3''),
      (DW_FORM_strx4, ''DW_FORM_strx4''), (DW_FORM_addrx1, ''DW_FORM_addrx1''),
      (DW_FORM_addrx2, ''DW_FORM_addrx2''), (DW_FORM_addrx3, ''DW_FORM_addrx3''),
      (DW_FORM_addrx4, ''DW_FORM_addrx4''), (DW_FORM_GNU_addr_index, ''DW_FORM_GNU_addr_index''),
      (DW_FORM_GNU_str_index, ''DW_FORM_GNU_str_index''), (DW_FORM_GNU_ref_alt, ''DW_FORM_GNU_ref_alt''),
      (DW_FORM_GNU_strp_alt, ''DW_FORM_GNU_strp_alt'')]"

definition stringToForm_cases :: "(string \<times> form) list" where
  "stringToForm_cases =
     [(''DW_FORM_addr'', DW_FORM_addr), (''DW_FORM_block2'', DW_FORM_block2),
      (''DW_FORM_block4'', DW_FORM_block4), (''DW_FORM_data2'', DW_FORM_data2),
      (''DW_FORM_data4'', DW_FORM_data4), (''DW_FORM_data8'', DW_FORM_data8),
      (''DW_FORM_string'', DW_FORM_string), (''DW_FORM_block'', DW_FORM_block),
      (''DW_FORM_block1'', DW_FORM_block1), (''DW_FORM_data1'', DW_FORM_data1),
      (''DW_FORM_flag'', DW_FORM_flag), (''DW_FORM_sdata'', DW_FORM_sdata), (''DW_FORM_strp'', DW_FORM_strp),
      (''DW_FORM_udata'', DW_FORM_udata), (''DW_FORM_ref_addr'', DW_FORM_ref_addr),
      (''DW_FORM_ref1'', DW_FORM_ref1), (''DW_FORM_ref2'', DW_FORM_ref2), (''DW_FORM_ref4'', DW_FORM_ref4),
      (''DW_FORM_ref8'', DW_FORM_ref8), (''DW_FORM_ref_udata'', DW_FORM_ref_udata),
      (''DW_FORM_indirect'', DW_FORM_indirect), (''DW_FORM_sec_offset'', DW_FORM_sec_offset),
      (''DW_FORM_exprloc'', DW_FORM_exprloc), (''DW_FORM_flag_present'', DW_FORM_flag_present),
      (''DW_FORM_strx'', DW_FORM_strx), (''DW_FORM_addrx'', DW_FORM_addrx),
      (''DW_FORM_ref_sup4'', DW_FORM_ref_sup4), (''DW_FORM_strp_sup'', DW_FORM_strp_sup),
      (''DW_FORM_data16'', DW_FORM_data16), (''DW_FORM_line_strp'', DW_FORM_line_strp),
      (''DW_FORM_ref_sig8'', DW_FORM_ref_sig8), (''DW_FORM_implicit_const'', DW_FORM_implicit_const),
      (''DW_FORM_loclistx'', DW_FORM_loclistx), (''DW_FORM_rnglistx'', DW_FORM_rnglistx),
      (''DW_FORM_ref_sup8'', DW_FORM_ref_sup8), (''DW_FORM_strx1'', DW_FORM_strx1),
      (''DW_FORM_strx2'', DW_FORM_strx2), (''DW_FORM_strx3'', DW_FORM_strx3),
      (''DW_FORM_strx4'', DW_FORM_strx4), (''DW_FORM_addrx1'', DW_FORM_addrx1),
      (''DW_FORM_addrx2'', DW_FORM_addrx2), (''DW_FORM_addrx3'', DW_FORM_addrx3),
      (''DW_FORM_addrx4'', DW_FORM_addrx4), (''DW_FORM_GNU_addr_index'', DW_FORM_GNU_addr_index),
      (''DW_FORM_GNU_str_index'', DW_FORM_GNU_str_index), (''DW_FORM_GNU_ref_alt'', DW_FORM_GNU_ref_alt),
      (''DW_FORM_GNU_strp_alt'', DW_FORM_GNU_strp_alt)]"

subsection \<open>The conversions\<close>

definition tagToString :: "u16 \<Rightarrow> string" where
  "tagToString tag =
     (case map_of tagToString_cases tag of Some s \<Rightarrow> s | None \<Rightarrow> ''DW_TAG_unknown_'' @ dec_string (unat tag))"

definition stringToTag :: "string \<Rightarrow> u16" where
  "stringToTag str = (case map_of stringToTag_cases str of Some c \<Rightarrow> c | None \<Rightarrow> 0)"

definition attributeToString :: "u16 \<Rightarrow> string" where
  "attributeToString attr =
     (case map_of attributeToString_cases attr of Some s \<Rightarrow> s | None \<Rightarrow> ''DW_AT_unknown_'' @ dec_string (unat attr))"

definition stringToAttribute :: "string \<Rightarrow> u16" where
  "stringToAttribute str = (case map_of stringToAttribute_cases str of Some c \<Rightarrow> c | None \<Rightarrow> 0)"

definition formToString :: "form \<Rightarrow> string" where
  "formToString form =
     (case map_of formToString_cases form of Some s \<Rightarrow> s | None \<Rightarrow> ''DW_FORM_unknown_'' @ dec_string (unat form))"

definition stringToForm :: "string \<Rightarrow> form" where
  "stringToForm str = (case map_of stringToForm_cases str of Some c \<Rightarrow> c | None \<Rightarrow> 0)"

subsection \<open>Kinds of tags\<close>

definition isValidCode :: "u16 \<Rightarrow> bool" where
  "isValidCode c \<longleftrightarrow> c \<noteq> 0"

definition isTypeTag :: "u16 \<Rightarrow> bool" where
  "isTypeTag tag \<longleftrightarrow>
     tag \<in> {DW_TAG_base_type, DW_TAG_unspecified_type, DW_TAG_string_type, DW_TAG_set_type, DW_TAG_file_type,
            DW_TAG_pointer_type, DW_TAG_ptr_to_member_type, DW_TAG_array_type, DW_TAG_structure_type,
            DW_TAG_union_type, DW_TAG_enumeration_type, DW_TAG_typedef, DW_TAG_const_type, DW_TAG_volatile_type,
            DW_TAG_restrict_type, DW_TAG_reference_type, DW_TAG_rvalue_reference_type, DW_TAG_atomic_type,
            DW_TAG_subrange_type, DW_TAG_class_type, DW_TAG_interface_type, DW_TAG_subroutine_type}"

definition isSubprogramTag :: "u16 \<Rightarrow> bool" where
  "isSubprogramTag tag \<longleftrightarrow> tag = DW_TAG_subprogram"

definition isVariableTag :: "u16 \<Rightarrow> bool" where
  "isVariableTag tag \<longleftrightarrow> tag = DW_TAG_variable \<or> tag = DW_TAG_formal_parameter"

definition isScopeTag :: "u16 \<Rightarrow> bool" where
  "isScopeTag tag \<longleftrightarrow>
     tag \<in> {DW_TAG_compile_unit, DW_TAG_subprogram, DW_TAG_lexical_block, DW_TAG_inlined_subroutine}"

subsection \<open>Names and codes correspond\<close>

definition inverse_tables :: "('a \<times> 'b) list \<Rightarrow> ('b \<times> 'a) list \<Rightarrow> bool" where
  "inverse_tables t u \<longleftrightarrow> u = map prod.swap t \<and> distinct (map fst t) \<and> distinct (map snd t)"

lemma inverse_tables_lookup:
  assumes "inverse_tables t u"
  shows "map_of t c = Some n \<longleftrightarrow> map_of u n = Some c"
proof -
  have "distinct (map fst u)" "set u = prod.swap ` set t"
    using assms by (simp_all add: inverse_tables_def comp_def)
  then show ?thesis
    using assms by (force simp: inverse_tables_def map_of_eq_Some_iff)
qed

lemma inverse_tables_back: "inverse_tables t u \<Longrightarrow> map_of t c = Some n \<Longrightarrow> map_of u n = Some c"
  using inverse_tables_lookup by metis

lemma inverse_tables_forth: "inverse_tables t u \<Longrightarrow> map_of u n = Some c \<Longrightarrow> map_of t c = Some n"
  using inverse_tables_lookup by metis

lemma table_known: "x \<in> fst ` set t \<Longrightarrow> \<exists>y. map_of t x = Some y"
  by (metis map_of_eq_None_iff option.exhaust)

lemma tag_tables: "inverse_tables tagToString_cases stringToTag_cases"
  by code_simp

lemma form_tables: "inverse_tables formToString_cases stringToForm_cases"
  by code_simp

lemma distinct_attribute_names: "distinct (map (drop 6) (map snd attributeToString_cases))"
  by (simp add: attributeToString_cases_def)

lemma distinct_attribute_codes: "distinct (map fst attributeToString_cases)"
  by (simp add: attributeToString_cases_def)

lemma attribute_tables: "inverse_tables attributeToString_cases stringToAttribute_cases"
proof -
  have "stringToAttribute_cases = map prod.swap attributeToString_cases"
    by (simp add: stringToAttribute_cases_def attributeToString_cases_def)
  moreover note distinct_attribute_codes
  moreover have "distinct (map snd attributeToString_cases)"
    using distinct_attribute_names by (simp only: distinct_map)
  ultimately show ?thesis by (simp add: inverse_tables_def)
qed

text \<open>Looking up in one table and then in the other.\<close>

lemma back_and_forth:
  assumes "inverse_tables t u"
  shows "c \<in> fst ` set t \<Longrightarrow>
      (case map_of u (case map_of t c of Some n \<Rightarrow> n | None \<Rightarrow> other c) of Some c \<Rightarrow> c | None \<Rightarrow> d) = c"
    and "n \<in> fst ` set u \<Longrightarrow>
      (case map_of t (case map_of u n of Some c \<Rightarrow> c | None \<Rightarrow> d) of Some n \<Rightarrow> n | None \<Rightarrow> other' n) = n"
proof -
  show "(case map_of u (case map_of t c of Some n \<Rightarrow> n | None \<Rightarrow> other c) of Some c \<Rightarrow> c | None \<Rightarrow> d) = c"
    if c: "c \<in> fst ` set t"
  proof -
    obtain n where n: "map_of t c = Some n" using table_known [OF c] by blast
    then have "map_of u n = Some c" by (rule inverse_tables_back [OF assms])
    then show ?thesis using n by simp
  qed
  show "(case map_of t (case map_of u n of Some c \<Rightarrow> c | None \<Rightarrow> d) of Some n \<Rightarrow> n | None \<Rightarrow> other' n) = n"
    if n: "n \<in> fst ` set u"
  proof -
    obtain c where c: "map_of u n = Some c" using table_known [OF n] by blast
    then have "map_of t c = Some n" by (rule inverse_tables_forth [OF assms])
    then show ?thesis using c by simp
  qed
qed

text \<open>
  C39: names and codes correspond: converting the name of a named tag, attribute or form back
  gives its code, and a name is converted to the code that has this name.
\<close>
theorem names_round_trip:
  "(tag \<in> fst ` set tagToString_cases \<longrightarrow> stringToTag (tagToString tag) = tag) \<and>
   (attr \<in> fst ` set attributeToString_cases \<longrightarrow> stringToAttribute (attributeToString attr) = attr) \<and>
   (f \<in> fst ` set formToString_cases \<longrightarrow> stringToForm (formToString f) = f) \<and>
   (s \<in> fst ` set stringToTag_cases \<longrightarrow> tagToString (stringToTag s) = s) \<and>
   (s \<in> fst ` set stringToAttribute_cases \<longrightarrow> attributeToString (stringToAttribute s) = s) \<and>
   (s \<in> fst ` set stringToForm_cases \<longrightarrow> formToString (stringToForm s) = s)"
  unfolding tagToString_def stringToTag_def attributeToString_def stringToAttribute_def formToString_def stringToForm_def
  using back_and_forth [OF tag_tables] back_and_forth [OF attribute_tables] back_and_forth [OF form_tables]
  by (intro conjI impI) assumption+

end
