(* ===== verification/AttrParse.thy ===== *)
theory AttrParse
  imports AttrForms Names LineProgram
begin

section \<open>The attribute parser: attributes\<close>

text \<open>
  \<open>parseAttribute\<close> of an attribute and its form (\<open>src/attribute_parser.cpp\<close>): the attribute selects a
  class of values; a form outside the class is parsed all the same, to stay aligned, and its value is
  dropped. A line table may make the parser run for ever, so that the result is an outcome or \<open>None\<close>.
\<close>

type_synonym 'a run = "'a outcome option"

fun rbind :: "'a run \<Rightarrow> ('a \<Rightarrow> 'b run) \<Rightarrow> 'b run" where
  "rbind None f = None"
| "rbind (Some (Ret x)) f = f x"
| "rbind (Some (Throw e)) f = Some (Throw e)"
| "rbind (Some (Undef u)) f = Some (Undef u)"

subsection \<open>Lists of DWARF 2 to 4\<close>

definition read_list_address :: "bool \<Rightarrow> u8 \<Rightarrow> bytes \<Rightarrow> nat \<Rightarrow> (u64 \<times> nat) outcome" where
  "read_list_address le asz d off = read_offset le (asz = 8) d off (length d)"

lemma read_offset_shape:
  assumes "read_offset le w d off mx = Ret (v, off')"
  shows "off \<le> off'" and "v \<noteq> 0 \<Longrightarrow> off < off' \<and> off' \<le> length d"
proof -
  have in64: "off + 7 < length d" if "readU64_be_loop d off 8 0 = Ret r" for r
    using that by (simp add: eval_nat_numeral obind_eq_Ret byte_at_def split: if_splits)
  show "off \<le> off'"
    using assms by (auto simp: read_offset_def readU64_def readU32_def obind_eq_Ret
        simp del: readU64_be_loop.simps split: if_splits)
  show "off < off' \<and> off' \<le> length d" if "v \<noteq> 0"
    using assms that in64 by (fastforce simp: read_offset_def readU64_def readU32_def obind_eq_Ret byte_at_def
        simp del: readU64_be_loop.simps split: if_splits)
qed

definition max_address :: "u8 \<Rightarrow> u64" where
  "max_address asz = (if asz = 8 then 0xffffffffffffffff else 0xffffffff)"

text \<open>\<open>readLocBlock\<close>: a block that does not fit is empty and takes no bytes.\<close>

definition read_loc_block :: "bytes \<Rightarrow> nat \<Rightarrow> nat \<Rightarrow> bytes \<times> nat" where
  "read_loc_block d off sz =
     (if length d < u64_add off sz then ([], off) else (take sz (drop off d), off + sz))"

lemma read_loc_block_forward: "read_loc_block d off sz = (bs, off') \<Longrightarrow> off \<le> off'"
  by (auto simp: read_loc_block_def split: if_splits)

lemma readU16_forward: "readU16 le d off mx = Ret (v, off') \<Longrightarrow> off \<le> off'"
  by (rule u16_reader.rd_forward)

function attr_parseLocationList ::
  "bool \<Rightarrow> u8 \<Rightarrow> bytes \<Rightarrow> u64 \<Rightarrow> LocationEntry list \<Rightarrow> nat \<Rightarrow> LocationEntry list outcome" where
  "attr_parseLocationList le asz d base acc off =
     (if off < length d then
        obind (read_list_address le asz d off) (\<lambda>(s, off1). obind (read_list_address le asz d off1) (\<lambda>(e, off2).
          if s = 0 \<and> e = 0 then Ret acc
          else if s = max_address asz then attr_parseLocationList le asz d e acc off2
          else obind (readU16 le d off2 (length d)) (\<lambda>(len, off3).
            case read_loc_block d off3 (unat len) of (expr, off4) \<Rightarrow>
              attr_parseLocationList le asz d base
                (acc @ [\<lparr>le_start = base + s, le_end = base + e, le_expression = expr, le_default = False\<rparr>]) off4)))
      else Ret acc)"
  by pat_completeness auto
termination
proof (relation "measure (\<lambda>(le, asz, d, base, acc, off). length d - off)", goal_cases)
  case (2 le asz d base acc off x s off1 y e off2)
  then show ?case
    using read_offset_shape [of le "asz = 8" d off "length d" s off1]
      read_offset_shape [of le "asz = 8" d off1 "length d" e off2]
    by (auto simp: read_list_address_def max_address_def split: if_splits)
next
  case (3 le asz d base acc off x s off1 y e off2 z len off3 expr off4)
  then show ?case
    using read_offset_shape [of le "asz = 8" d off "length d" s off1]
      read_offset_shape [of le "asz = 8" d off1 "length d" e off2]
      readU16_forward [of le d off2 "length d" len off3] read_loc_block_forward [of d off3 "unat len" expr off4]
    by (auto simp: read_list_address_def)
qed simp

declare attr_parseLocationList.simps [simp del]

function attr_parseRangeList ::
  "bool \<Rightarrow> u8 \<Rightarrow> bytes \<Rightarrow> u64 \<Rightarrow> RangeEntry list \<Rightarrow> nat \<Rightarrow> RangeEntry list outcome" where
  "attr_parseRangeList le asz d base acc off =
     (if off < length d then
        obind (read_list_address le asz d off) (\<lambda>(s, off1). obind (read_list_address le asz d off1) (\<lambda>(e, off2).
          if s = 0 \<and> e = 0 then Ret acc
          else if s = max_address asz \<and> e = max_address asz then Ret acc
          else if s = max_address asz then
            attr_parseRangeList le asz d e (acc @ [\<lparr>re_start = e, re_end = 0, re_is_base = True\<rparr>]) off2
          else
            attr_parseRangeList le asz d base
              (acc @ [\<lparr>re_start = base + s, re_end = base + e, re_is_base = False\<rparr>]) off2))
      else Ret acc)"
  by pat_completeness auto
termination
proof (relation "measure (\<lambda>(le, asz, d, base, acc, off). length d - off)", goal_cases)
  case (2 le asz d base acc off x s off1 y e off2)
  then show ?case
    using read_offset_shape [of le "asz = 8" d off "length d" s off1]
      read_offset_shape [of le "asz = 8" d off1 "length d" e off2]
    by (auto simp: read_list_address_def max_address_def split: if_splits)
next
  case (3 le asz d base acc off x s off1 y e off2)
  then show ?case
    using read_offset_shape [of le "asz = 8" d off "length d" s off1]
      read_offset_shape [of le "asz = 8" d off1 "length d" e off2]
    by (auto simp: read_list_address_def)
qed simp

declare attr_parseRangeList.simps [simp del]

subsection \<open>Section pointers\<close>

text \<open>The entries of DWARF 5 when there are some, otherwise the list in \<open>.debug_loc\<close>.\<close>

definition location_list_v4 :: "bool \<Rightarrow> attr_parser \<Rightarrow> nat \<Rightarrow> attr_val outcome" where
  "location_list_v4 le p list_offset =
     (let d = sec_loc (ap_sections p)
      in if list_offset < length d then
           obind (attr_parseLocationList le (ap_address_size p) d (cu_base_address (ap_cu p)) [] list_offset) (\<lambda>es.
             Ret (if es = [] then location_of_bytes LT_LIST [] else location_of_entries es))
         else Ret (location_of_bytes LT_LIST []))"

definition parseLocationListPointer :: form_parser where
  "parseLocationListPointer le p off =
     obind (ap_read_offset le (ap_is64 p) p off) (\<lambda>(o', off).
       obind
         (case ap_loclists_parser p of
            Some lp \<Rightarrow>
              if 5 \<le> ap_version p \<and> unat o' < length (sec_loclists (ap_sections p)) then
                obind (parseLocationList le lp (unat o') (cu_base_address (ap_cu p)) (ap_address_size p) 0 0) (\<lambda>es.
                  Ret (location_entries es))
              else Ret []
          | None \<Rightarrow> Ret []) (\<lambda>es.
         obind (if es = [] then location_list_v4 le p (unat o') else Ret (location_of_entries es)) (\<lambda>v.
           Ret (Some v, off))))"

definition range_list_v4 :: "bool \<Rightarrow> attr_parser \<Rightarrow> nat \<Rightarrow> attr_val outcome" where
  "range_list_v4 le p list_offset =
     (let d = sec_ranges (ap_sections p)
      in if list_offset < length d then
           obind (attr_parseRangeList le (ap_address_size p) d (cu_base_address (ap_cu p)) [] list_offset) (\<lambda>rs.
             Ret (RangeValue rs))
         else Ret (RangeValue []))"

definition parseRangeListPointer :: form_parser where
  "parseRangeListPointer le p off =
     obind (ap_read_offset le (ap_is64 p) p off) (\<lambda>(o', off).
       obind
         (case ap_rnglists_parser p of
            Some lp \<Rightarrow>
              if 5 \<le> ap_version p \<and> unat o' < length (sec_rnglists (ap_sections p)) then
                obind (parseRangeList le lp (unat o') (cu_base_address (ap_cu p)) (ap_address_size p) 0 0) (\<lambda>es.
                  Ret (RangeValue (range_entries es)))
              else range_list_v4 le p (unat o')
          | None \<Rightarrow> range_list_v4 le p (unat o')) (\<lambda>v.
         Ret (Some v, off)))"

definition parseLineNumberProgramPointer :: "bool \<Rightarrow> nat \<Rightarrow> attr_parser \<Rightarrow> nat \<Rightarrow> (attr_val option \<times> nat) run" where
  "parseLineNumberProgramPointer le fuel p off =
     rbind (Some (ap_read_offset le (ap_is64 p) p off)) (\<lambda>(o', off).
       let s = ap_sections p in
       if unat o' < length (sec_line s) then
         rbind (parseLineNumberProgram le fuel (sec_line s) (sec_str s) (sec_line_str s) (ap_address_size p) (unat o'))
           (\<lambda>t. Some (Ret (Some (LineValue t), off)))
       else Some (Ret (Some (LineValue empty_line_table), off)))"

subsection \<open>Forms of a class\<close>

definition by_form :: "form list \<Rightarrow> bool \<Rightarrow> attr_parser \<Rightarrow> form \<Rightarrow> nat \<Rightarrow> (attr_val option \<times> nat) outcome" where
  "by_form fs le p f off =
     (if f \<in> set fs
      then (case map_of form_parsers f of Some parser \<Rightarrow> parser le p off | None \<Rightarrow> Ret (None, off))
      else Ret (None, off))"

definition parseAddressAttribute :: "bool \<Rightarrow> attr_parser \<Rightarrow> form \<Rightarrow> nat \<Rightarrow> (attr_val option \<times> nat) outcome" where
  "parseAddressAttribute =
     by_form [DW_FORM_addr, DW_FORM_addrx, DW_FORM_GNU_addr_index, DW_FORM_addrx1, DW_FORM_addrx2, DW_FORM_addrx3,
              DW_FORM_addrx4]"

definition parseDataAttribute :: "bool \<Rightarrow> attr_parser \<Rightarrow> form \<Rightarrow> nat \<Rightarrow> (attr_val option \<times> nat) outcome" where
  "parseDataAttribute =
     by_form [DW_FORM_data1, DW_FORM_data2, DW_FORM_data4, DW_FORM_data8, DW_FORM_sdata, DW_FORM_udata, DW_FORM_data16]"

definition string_forms :: "form list" where
  "string_forms =
     [DW_FORM_string, DW_FORM_strp, DW_FORM_strp_sup, DW_FORM_GNU_strp_alt, DW_FORM_strx, DW_FORM_GNU_str_index,
      DW_FORM_strx1, DW_FORM_strx2, DW_FORM_strx3, DW_FORM_strx4, DW_FORM_line_strp]"

definition parseStringAttribute :: "bool \<Rightarrow> attr_parser \<Rightarrow> form \<Rightarrow> nat \<Rightarrow> (attr_val option \<times> nat) outcome" where
  "parseStringAttribute = by_form string_forms"

definition reference_forms :: "form list" where
  "reference_forms =
     [DW_FORM_ref1, DW_FORM_ref2, DW_FORM_ref4, DW_FORM_ref8, DW_FORM_ref_sup4, DW_FORM_ref_sup8, DW_FORM_GNU_ref_alt,
      DW_FORM_ref_udata, DW_FORM_ref_addr]"

definition parseReferenceAttribute :: "bool \<Rightarrow> attr_parser \<Rightarrow> form \<Rightarrow> nat \<Rightarrow> (attr_val option \<times> nat) outcome" where
  "parseReferenceAttribute = by_form (reference_forms @ [DW_FORM_ref_sig8])"

definition block_forms :: "form list" where
  "block_forms = [DW_FORM_block1, DW_FORM_block2, DW_FORM_block4, DW_FORM_block]"

definition parseBlockAttribute :: "bool \<Rightarrow> attr_parser \<Rightarrow> form \<Rightarrow> nat \<Rightarrow> (attr_val option \<times> nat) outcome" where
  "parseBlockAttribute = by_form block_forms"

definition parseExpressionAttribute :: "bool \<Rightarrow> attr_parser \<Rightarrow> form \<Rightarrow> nat \<Rightarrow> (attr_val option \<times> nat) outcome" where
  "parseExpressionAttribute = by_form [DW_FORM_exprloc]"

definition parseFlagAttribute :: "bool \<Rightarrow> attr_parser \<Rightarrow> form \<Rightarrow> nat \<Rightarrow> (attr_val option \<times> nat) outcome" where
  "parseFlagAttribute = by_form [DW_FORM_flag, DW_FORM_flag_present]"

definition parseConstantValue :: "bool \<Rightarrow> attr_parser \<Rightarrow> form \<Rightarrow> nat \<Rightarrow> (attr_val option \<times> nat) outcome" where
  "parseConstantValue =
     by_form ([DW_FORM_data1, DW_FORM_data2, DW_FORM_data4, DW_FORM_data8, DW_FORM_udata, DW_FORM_sdata, DW_FORM_flag,
               DW_FORM_flag_present] @ string_forms @ block_forms @ [DW_FORM_exprloc, DW_FORM_implicit_const])"

subsection \<open>Classes of attributes\<close>

type_synonym attr_class_parser = "bool \<Rightarrow> attr_parser \<Rightarrow> form \<Rightarrow> nat \<Rightarrow> parsed"

text \<open>Parse the form for its size; only a vendor form keeps what that returned.\<close>

definition raw_attribute :: attr_class_parser where
  "raw_attribute le p f off =
     obind (parseAttribute le p f off) (\<lambda>(v, off, p). Ret (if isVendorExtensionForm f then v else None, off, p))"

text \<open>The first of several parsers that gives a value, each from where the one before it stopped.\<close>

fun first_of :: "(bool \<Rightarrow> attr_parser \<Rightarrow> form \<Rightarrow> nat \<Rightarrow> (attr_val option \<times> nat) outcome) list \<Rightarrow> attr_class_parser" where
  "first_of [] le p f off = raw_attribute le p f off"
| "first_of (q # qs) le p f off =
     obind (q le p f off) (\<lambda>(v, off). case v of Some v \<Rightarrow> Ret (Some v, off, p) | None \<Rightarrow> first_of qs le p f off)"

definition implicit_const :: "bool \<Rightarrow> attr_parser \<Rightarrow> form \<Rightarrow> nat \<Rightarrow> (attr_val option \<times> nat) outcome" where
  "implicit_const = by_form [DW_FORM_implicit_const]"

definition parseConstValueAttribute :: attr_class_parser where
  "parseConstValueAttribute = first_of [parseConstantValue]"

definition parseReferenceMetadataAttribute :: attr_class_parser where
  "parseReferenceMetadataAttribute = first_of [parseReferenceAttribute]"

definition parseAddressMetadataAttribute :: attr_class_parser where
  "parseAddressMetadataAttribute = first_of [parseAddressAttribute]"

definition parseHighPCAttribute :: attr_class_parser where
  "parseHighPCAttribute = first_of [parseAddressAttribute, parseDataAttribute, implicit_const]"

definition parseScalarMetadataAttribute :: attr_class_parser where
  "parseScalarMetadataAttribute = first_of [parseDataAttribute, implicit_const]"

definition offset_or_data :: "bool \<Rightarrow> attr_parser \<Rightarrow> form \<Rightarrow> nat \<Rightarrow> (attr_val option \<times> nat) outcome" where
  "offset_or_data le p f off =
     (if f = DW_FORM_sec_offset then parseFormSecOffset le p off else parseDataAttribute le p f off)"

definition parseOffsetScalarMetadataAttribute :: attr_class_parser where
  "parseOffsetScalarMetadataAttribute = first_of [offset_or_data]"

definition parseStringMetadataAttribute :: attr_class_parser where
  "parseStringMetadataAttribute = first_of [parseStringAttribute]"

definition parseFlagMetadataAttribute :: attr_class_parser where
  "parseFlagMetadataAttribute = first_of [parseFlagAttribute]"

definition parseExpressionBlockMetadataAttribute :: attr_class_parser where
  "parseExpressionBlockMetadataAttribute = first_of [parseExpressionAttribute, parseBlockAttribute]"

definition parseConstantReferenceExpressionMetadataAttribute :: attr_class_parser where
  "parseConstantReferenceExpressionMetadataAttribute =
     first_of [parseDataAttribute, implicit_const, parseExpressionAttribute, parseReferenceAttribute]"

text \<open>Classes with a value of their own for a form outside the class.\<close>

definition discard_attribute :: "attr_val \<Rightarrow> attr_class_parser" where
  "discard_attribute v le p f off =
     obind (parseAttribute le p f off) (\<lambda>(_, off, p). Ret (if isVendorExtensionForm f then None else Some v, off, p))"

definition location_block :: "attr_val option \<Rightarrow> attr_val option" where
  "location_block v =
     (case v of Some (Plain (BlockAttributeValue bs)) \<Rightarrow> Some (location_of_bytes LT_EXPRESSION bs) | _ \<Rightarrow> None)"

definition parseLocationExpression :: form_parser where
  "parseLocationExpression le p off =
     obind (ap_readULEB128 p off) (\<lambda>(len, off). counted_block (location_of_bytes LT_EXPRESSION) p (unat len) off)"

definition parseLocationAttribute :: attr_class_parser where
  "parseLocationAttribute le p f off =
     (if f = DW_FORM_exprloc then run_form p (parseLocationExpression le p off)
      else if f = DW_FORM_loclistx then run_form p (parseFormLoclistx le p off)
      else if f = DW_FORM_sec_offset then run_form p (parseLocationListPointer le p off)
      else if f \<in> set block_forms then
        run_form p (obind (parseBlockAttribute le p f off) (\<lambda>(v, off). Ret (location_block v, off)))
      else discard_attribute (location_of_bytes LT_INVALID []) le p f off)"

definition parseRangeAttribute :: attr_class_parser where
  "parseRangeAttribute le p f off =
     (if f = DW_FORM_sec_offset then run_form p (parseRangeListPointer le p off)
      else if f = DW_FORM_rnglistx then run_form p (parseFormRnglistx le p off)
      else discard_attribute (RangeValue []) le p f off)"

definition run_line_pointer :: "attr_parser \<Rightarrow> (attr_val option \<times> nat) run \<Rightarrow> (attr_val option \<times> nat \<times> attr_parser) run" where
  "run_line_pointer p r = rbind r (\<lambda>(v, off). Some (Ret (v, off, p)))"

definition parseLineAttribute ::
  "bool \<Rightarrow> nat \<Rightarrow> attr_parser \<Rightarrow> form \<Rightarrow> nat \<Rightarrow> (attr_val option \<times> nat \<times> attr_parser) run" where
  "parseLineAttribute le fuel p f off =
     (if f = DW_FORM_sec_offset then run_line_pointer p (parseLineNumberProgramPointer le fuel p off)
      else Some (discard_attribute (LineValue empty_line_table) le p f off))"

definition type_reference :: "attr_val option \<Rightarrow> attr_val option" where
  "type_reference v =
     (case v of Some (Plain (ReferenceAttributeValue r)) \<Rightarrow> Some (TypeValue r [] False) | _ \<Rightarrow> None)"

definition parseTypeSignature :: form_parser where
  "parseTypeSignature le p off = obind (ap_readU64 le p off) (\<lambda>(v, off). Ret (Some (TypeValue v ''<signature>'' True), off))"

definition parseTypeAttribute :: attr_class_parser where
  "parseTypeAttribute le p f off =
     (if f \<in> set reference_forms then
        run_form p (obind (parseReferenceAttribute le p f off) (\<lambda>(v, off). Ret (type_reference v, off)))
      else if f = DW_FORM_ref_sig8 then run_form p (parseTypeSignature le p off)
      else discard_attribute (TypeValue 0 [] False) le p f off)"

subsection \<open>The switch over the attributes\<close>

datatype attr_class =
    OffsetScalarMetadata | ReferenceMetadata | LocationClass | RangeClass | StringMetadata | TypeClass | AddressMetadata
  | HighPC | ScalarMetadata | FlagMetadata | ExpressionBlockMetadata | ConstValue | ConstantReferenceExpression | AnyForm

definition attribute_classes :: "(u16 list \<times> attr_class) list" where
  "attribute_classes =
     [([DW_AT_str_offsets_base], OffsetScalarMetadata),
      ([DW_AT_sibling, DW_AT_discr], ReferenceMetadata),
      ([DW_AT_location, DW_AT_frame_base, DW_AT_data_member_location, DW_AT_vtable_elem_location, DW_AT_segment,
        DW_AT_static_link, DW_AT_use_location, DW_AT_return_addr], LocationClass),
      ([DW_AT_ranges], RangeClass),
      ([DW_AT_name, DW_AT_linkage_name, DW_AT_GNU_dwo_name], StringMetadata),
      ([DW_AT_type, DW_AT_abstract_origin, DW_AT_specification, DW_AT_import], TypeClass),
      ([DW_AT_containing_type, DW_AT_friend, DW_AT_common_reference, DW_AT_call_origin, DW_AT_base_types,
        DW_AT_namelist_item, DW_AT_trampoline, DW_AT_extension], ReferenceMetadata),
      ([DW_AT_entry_pc, DW_AT_call_return_pc, DW_AT_low_pc], AddressMetadata),
      ([DW_AT_high_pc], HighPC),
      ([DW_AT_binary_scale, DW_AT_decimal_scale, DW_AT_decimal_sign, DW_AT_digit_count, DW_AT_endianity,
        DW_AT_address_class, DW_AT_visibility, DW_AT_accessibility, DW_AT_virtuality, DW_AT_inline, DW_AT_priority,
        DW_AT_calling_convention, DW_AT_encoding, DW_AT_identifier_case, DW_AT_ordering, DW_AT_language,
        DW_AT_discr_value, DW_AT_decl_column, DW_AT_decl_file, DW_AT_decl_line, DW_AT_call_column, DW_AT_call_file,
        DW_AT_call_line, DW_AT_string_length_bit_size, DW_AT_string_length_byte_size, DW_AT_signature, DW_AT_dwo_id,
        DW_AT_GNU_dwo_id], ScalarMetadata),
      ([DW_AT_addr_base, DW_AT_rnglists_base, DW_AT_loclists_base, DW_AT_macro_info, DW_AT_macros],
        OffsetScalarMetadata),
      ([DW_AT_picture_string, DW_AT_description, DW_AT_producer, DW_AT_comp_dir, DW_AT_dwo_name],
        StringMetadata),
      ([DW_AT_small, DW_AT_threads_scaled, DW_AT_mutable, DW_AT_declaration, DW_AT_external, DW_AT_volatile,
        DW_AT_artificial, DW_AT_variable_parameter, DW_AT_object_pointer, DW_AT_is_optional, DW_AT_prototyped,
        DW_AT_use_UTF8, DW_AT_explicit, DW_AT_elemental, DW_AT_pure, DW_AT_recursive, DW_AT_main_subprogram,
        DW_AT_const_expr, DW_AT_enum_class, DW_AT_reference, DW_AT_rvalue_reference, DW_AT_call_all_calls,
        DW_AT_call_all_source_calls, DW_AT_call_all_tail_calls], FlagMetadata),
      ([DW_AT_call_value, DW_AT_call_parameter, DW_AT_discr_list], ExpressionBlockMetadata),
      ([DW_AT_const_value, DW_AT_default_value, DW_AT_data_location, DW_AT_string_length, DW_AT_lower_bound,
        DW_AT_upper_bound, DW_AT_count, DW_AT_allocated, DW_AT_associated, DW_AT_rank, DW_AT_byte_stride,
        DW_AT_bit_stride, DW_AT_start_scope, DW_AT_data_bit_offset], ConstValue),
      ([DW_AT_byte_size, DW_AT_bit_offset, DW_AT_bit_size], ConstantReferenceExpression)]"

definition attribute_class :: "u16 \<Rightarrow> attr_class" where
  "attribute_class attr =
     (case List.find (\<lambda>(attrs, _). attr \<in> set attrs) attribute_classes of Some (_, c) \<Rightarrow> c | None \<Rightarrow> AnyForm)"

fun class_parser :: "attr_class \<Rightarrow> attr_class_parser" where
  "class_parser OffsetScalarMetadata = parseOffsetScalarMetadataAttribute"
| "class_parser ReferenceMetadata = parseReferenceMetadataAttribute"
| "class_parser LocationClass = parseLocationAttribute"
| "class_parser RangeClass = parseRangeAttribute"
| "class_parser StringMetadata = parseStringMetadataAttribute"
| "class_parser TypeClass = parseTypeAttribute"
| "class_parser AddressMetadata = parseAddressMetadataAttribute"
| "class_parser HighPC = parseHighPCAttribute"
| "class_parser ScalarMetadata = parseScalarMetadataAttribute"
| "class_parser FlagMetadata = parseFlagMetadataAttribute"
| "class_parser ExpressionBlockMetadata = parseExpressionBlockMetadataAttribute"
| "class_parser ConstValue = parseConstValueAttribute"
| "class_parser ConstantReferenceExpression = parseConstantReferenceExpressionMetadataAttribute"
| "class_parser AnyForm = parseAttribute"

definition parseAttributeValue ::
  "bool \<Rightarrow> nat \<Rightarrow> attr_parser \<Rightarrow> u16 \<Rightarrow> form \<Rightarrow> nat \<Rightarrow> (attr_val option \<times> nat \<times> attr_parser) run" where
  "parseAttributeValue le fuel p attr f off =
     (if attr = DW_AT_stmt_list then parseLineAttribute le fuel p f off
      else Some (class_parser (attribute_class attr) le p f off))"

fun parseAttributeList ::
  "bool \<Rightarrow> nat \<Rightarrow> attr_parser \<Rightarrow> (u16 \<times> form) list \<Rightarrow> nat \<Rightarrow> (attr_val list \<times> nat \<times> attr_parser) run" where
  "parseAttributeList le fuel p [] off = Some (Ret ([], off, p))"
| "parseAttributeList le fuel p ((attr, f) # specs) off =
     rbind (parseAttributeValue le fuel p attr f off) (\<lambda>(v, off, p).
     rbind (parseAttributeList le fuel p specs off) (\<lambda>(vs, off, p).
       Some (Ret (case v of Some v \<Rightarrow> v # vs | None \<Rightarrow> vs, off, p))))"

end
