(* ===== verification/DieCore.thy ===== *)
theory DieCore
  imports AttrParse
begin

section \<open>Debugging information entries and abbreviations\<close>

text \<open>
  The data of \<open>src/die_parser.cpp\<close>: entries (\<open>DIE\<close>), abbreviation tables and their parser, and the
  state of \<open>DIEParser\<close>. Its own readers report a truncated or too long number in the flag
  \<open>decode_error_\<close>, which is passed along with the offset; an abbreviation table is parsed once and
  cached under its offset.
\<close>

subsection \<open>Entries\<close>

datatype DIE =
  DIE (die_tag: u16) (die_offset: u64) (die_size: nat) (die_cu_base: u64) (die_offset_size: u8)
    (die_attributes: "u16 \<Rightarrow> attr_val option") (die_children: "DIE list")

definition hasAttribute :: "DIE \<Rightarrow> u16 \<Rightarrow> bool" where
  "hasAttribute d a \<longleftrightarrow> die_attributes d a \<noteq> None"

definition getAttribute :: "DIE \<Rightarrow> u16 \<Rightarrow> attr_val option" where
  "getAttribute d a = die_attributes d a"

definition addAttribute :: "u16 \<Rightarrow> attr_val \<Rightarrow> DIE \<Rightarrow> DIE" where
  "addAttribute a v d =
     (case d of DIE tag off sz cu os attrs ch \<Rightarrow> DIE tag off sz cu os (attrs(a \<mapsto> v)) ch)"

definition addChild :: "DIE \<Rightarrow> DIE \<Rightarrow> DIE" where
  "addChild c d = (case d of DIE tag off sz cu os attrs ch \<Rightarrow> DIE tag off sz cu os attrs (ch @ [c]))"

definition getName :: "DIE \<Rightarrow> string" where
  "getName d = (case getAttribute d DW_AT_name of Some (Plain (StringAttributeValue s)) \<Rightarrow> s | _ \<Rightarrow> [])"

definition getByteSize :: "DIE \<Rightarrow> u64" where
  "getByteSize d = (case getAttribute d DW_AT_byte_size of Some (Plain (UnsignedAttributeValue v)) \<Rightarrow> v | _ \<Rightarrow> 0)"

definition isType :: "DIE \<Rightarrow> bool" where
  "isType d \<longleftrightarrow>
     die_tag d \<in> {DW_TAG_base_type, DW_TAG_unspecified_type, DW_TAG_string_type, DW_TAG_set_type, DW_TAG_file_type,
       DW_TAG_pointer_type, DW_TAG_ptr_to_member_type, DW_TAG_array_type, DW_TAG_structure_type, DW_TAG_union_type,
       DW_TAG_class_type, DW_TAG_interface_type, DW_TAG_enumeration_type, DW_TAG_typedef, DW_TAG_const_type,
       DW_TAG_volatile_type, DW_TAG_restrict_type, DW_TAG_reference_type, DW_TAG_rvalue_reference_type,
       DW_TAG_atomic_type, DW_TAG_subrange_type, DW_TAG_subroutine_type}"

subsection \<open>Readers\<close>

text \<open>\<open>readULEB128\<close> and \<open>readULEB128FromAbbrev\<close> are the same code on two sections.\<close>

type_synonym 'a die_read = "'a \<times> nat \<times> bool"

function die_uleb_loop :: "bytes \<Rightarrow> nat \<Rightarrow> u64 \<Rightarrow> nat \<Rightarrow> bool \<Rightarrow> u64 die_read" where
  "die_uleb_loop d off result shift err =
     (if off < length d then
        let byte = d ! off; bits = ucast (byte AND 0x7f) :: u64 in
        if 64 \<le> shift \<and> bits \<noteq> 0 then (0, Suc off, True)
        else
          let result' = result OR push_bit shift bits in
          if byte AND 0x80 = 0 then (result', Suc off, err)
          else if 64 \<le> shift + 7 then (0, Suc off, True)
          else die_uleb_loop d (Suc off) result' (shift + 7) err
      else (0, off, True))"
  by pat_completeness auto
termination
  by (relation "measure (\<lambda>(d, off, r, s, e). length d - off)") auto

declare die_uleb_loop.simps [simp del]

definition die_readULEB128 :: "bytes \<Rightarrow> nat \<Rightarrow> bool \<Rightarrow> u64 die_read" where
  "die_readULEB128 d off err = (if length d \<le> off then (0, off, True) else die_uleb_loop d off 0 0 err)"

function die_sleb_loop :: "bytes \<Rightarrow> nat \<Rightarrow> u64 \<Rightarrow> nat \<Rightarrow> bool \<Rightarrow> u64 die_read" where
  "die_sleb_loop d off result shift err =
     (if off < length d then
        let byte = d ! off; bits = ucast (byte AND 0x7f) :: u64 in
        if 64 \<le> shift \<and> bits \<noteq> 0 then (0, Suc off, True)
        else
          let result' = result OR push_bit shift bits; shift' = shift + 7 in
          if byte AND 0x80 = 0 then
            (if shift' < 64 \<and> byte AND 0x40 \<noteq> 0 then result' OR push_bit shift' (NOT 0) else result', Suc off, err)
          else if 64 \<le> shift' then (0, Suc off, True)
          else die_sleb_loop d (Suc off) result' shift' err
      else (0, off, True))"
  by pat_completeness auto
termination
  by (relation "measure (\<lambda>(d, off, r, s, e). length d - off)") auto

declare die_sleb_loop.simps [simp del]

definition die_readSLEB128 :: "bytes \<Rightarrow> nat \<Rightarrow> bool \<Rightarrow> u64 die_read" where
  "die_readSLEB128 d off err = (if length d \<le> off then (0, off, True) else die_sleb_loop d off 0 0 err)"

definition die_read :: "nat \<Rightarrow> (bytes \<Rightarrow> nat \<Rightarrow> nat \<Rightarrow> ('a::zero \<times> nat) outcome) \<Rightarrow> bytes \<Rightarrow> nat \<Rightarrow> bool \<Rightarrow> 'a die_read outcome" where
  "die_read n rd d off err =
     (if length d < u64_add off n then Ret (0, off, True)
      else obind (rd d off (length d)) (\<lambda>(v, off). Ret (v, off, err)))"

definition die_readU8 :: "bytes \<Rightarrow> nat \<Rightarrow> bool \<Rightarrow> u8 die_read outcome" where
  "die_readU8 = die_read 1 readU8"

definition die_readU16 :: "bool \<Rightarrow> bytes \<Rightarrow> nat \<Rightarrow> bool \<Rightarrow> u16 die_read outcome" where
  "die_readU16 le = die_read 2 (readU16 le)"

definition die_readU32 :: "bool \<Rightarrow> bytes \<Rightarrow> nat \<Rightarrow> bool \<Rightarrow> u32 die_read outcome" where
  "die_readU32 le = die_read 4 (readU32 le)"

definition die_readU64 :: "bool \<Rightarrow> bytes \<Rightarrow> nat \<Rightarrow> bool \<Rightarrow> u64 die_read outcome" where
  "die_readU64 le = die_read 8 (readU64 le)"

subsection \<open>Abbreviations\<close>

record AbbreviationAttrSpec =
  as_attr :: u16
  as_form :: form
  as_implicit :: u64
  as_has_implicit :: bool

record AbbreviationEntry =
  ab_code :: u64
  ab_tag :: u16
  ab_children :: bool
  ab_attributes :: "AbbreviationAttrSpec list"

definition no_abbreviation :: AbbreviationEntry where
  "no_abbreviation = \<lparr>ab_code = 0, ab_tag = 0, ab_children = False, ab_attributes = []\<rparr>"

lemma die_uleb_loop_shape: "die_uleb_loop d off r s e = (v, off', e') \<Longrightarrow> off \<le> off' \<and> (off < length d \<longrightarrow> off < off')"
proof (induction d off r s e rule: die_uleb_loop.induct)
  case (1 d off r s e)
  show ?case
    using "1.prems" "1.IH" [OF _ refl refl _ refl]
    by (subst (asm) die_uleb_loop.simps) (auto simp: Let_def split: if_splits)
qed

lemma die_sleb_loop_shape: "die_sleb_loop d off r s e = (v, off', e') \<Longrightarrow> off \<le> off' \<and> (off < length d \<longrightarrow> off < off')"
proof (induction d off r s e rule: die_sleb_loop.induct)
  case (1 d off r s e)
  show ?case
    using "1.prems" "1.IH" [OF _ refl refl _ refl refl]
    by (subst (asm) die_sleb_loop.simps) (auto simp: Let_def split: if_splits)
qed

lemma die_readULEB128_shape: "die_readULEB128 d off e = (v, off', e') \<Longrightarrow> off \<le> off' \<and> (off < length d \<longrightarrow> off < off')"
  using die_uleb_loop_shape [of d off 0 0 e v off' e'] by (auto simp: die_readULEB128_def split: if_splits)

lemma die_readSLEB128_shape: "die_readSLEB128 d off e = (v, off', e') \<Longrightarrow> off \<le> off' \<and> (off < length d \<longrightarrow> off < off')"
  using die_sleb_loop_shape [of d off 0 0 e v off' e'] by (auto simp: die_readSLEB128_def split: if_splits)

text \<open>
  The attribute specifications up to the pair of zeros; \<open>None\<close> is a decode error. The constant of
  an implicit form follows its specification.
\<close>

function abbreviation_specs ::
  "bytes \<Rightarrow> nat \<Rightarrow> AbbreviationAttrSpec list \<Rightarrow> (AbbreviationAttrSpec list \<times> nat) option" where
  "abbreviation_specs d off acc =
     (if off < length d then
        case die_readULEB128 d off False of (name, off1, err1) \<Rightarrow>
        case die_readULEB128 d off1 err1 of (form, off2, err2) \<Rightarrow>
          if err2 then None
          else if name = 0 \<and> form = 0 then Some (acc, off2)
          else if (ucast form :: form) = DW_FORM_implicit_const then
            (case die_readSLEB128 d off2 False of (c, off3, err3) \<Rightarrow>
               if err3 then None
               else abbreviation_specs d off3
                      (acc @ [\<lparr>as_attr = ucast name, as_form = ucast form, as_implicit = c, as_has_implicit = True\<rparr>]))
          else abbreviation_specs d off2
                 (acc @ [\<lparr>as_attr = ucast name, as_form = ucast form, as_implicit = 0, as_has_implicit = False\<rparr>])
      else Some (acc, off))"
  by pat_completeness auto
termination
  by (relation "measure (\<lambda>(d, off, acc). length d - off)")
    (fastforce dest!: die_readULEB128_shape [OF sym] die_readSLEB128_shape [OF sym])+

declare abbreviation_specs.simps [simp del]

definition parseAbbreviationEntry :: "bytes \<Rightarrow> nat \<Rightarrow> (AbbreviationEntry \<times> nat) outcome" where
  "parseAbbreviationEntry d off =
     (if length d \<le> off then Ret (no_abbreviation, off)
      else case die_readULEB128 d off False of (code, off, err) \<Rightarrow>
        if err then Ret (no_abbreviation, length d)
        else if code = 0 then Ret (no_abbreviation, off)
        else case die_readULEB128 d off False of (tag, off, err) \<Rightarrow>
          obind (die_readU8 d off err) (\<lambda>(children, off, err).
            if err then Ret (no_abbreviation, length d)
            else Ret (case abbreviation_specs d off [] of
                        None \<Rightarrow> (no_abbreviation, length d)
                      | Some (specs, off) \<Rightarrow>
                          (\<lparr>ab_code = code, ab_tag = ucast tag, ab_children = (children \<noteq> 0), ab_attributes = specs\<rparr>, off))))"

lemma die_readU8_shape: "die_readU8 d off e = Ret (v, off', e') \<Longrightarrow> off \<le> off'"
  by (auto simp: die_readU8_def die_read_def readU8_def obind_eq_Ret split: if_splits)

lemma abbreviation_specs_shape: "abbreviation_specs d off acc = Some (specs, off') \<Longrightarrow> off \<le> off'"
proof (induction d off acc rule: abbreviation_specs.induct)
  case (1 d off acc)
  obtain name off1 err1 where r1: "die_readULEB128 d off False = (name, off1, err1)" by (metis prod_cases3)
  obtain form off2 err2 where r2: "die_readULEB128 d off1 err1 = (form, off2, err2)" by (metis prod_cases3)
  obtain c off3 err3 where r3: "die_readSLEB128 d off2 False = (c, off3, err3)" by (metis prod_cases3)
  note IH = "1.IH" [OF _ r1 [symmetric] refl r2 [symmetric] refl]
  show ?case
    using "1.prems" IH(1) [OF _ _ _ _ r3 [symmetric] refl] IH(2)
      die_readULEB128_shape [OF r1] die_readULEB128_shape [OF r2] die_readSLEB128_shape [OF r3] r1 r2 r3
    by (subst (asm) abbreviation_specs.simps) (fastforce split: if_splits)
qed

lemma parseAbbreviationEntry_shape:
  assumes "parseAbbreviationEntry d off = Ret (a, off')" and "off < length d"
  shows "off < off'"
proof -
  obtain code off1 err1 where r1: "die_readULEB128 d off False = (code, off1, err1)" by (metis prod_cases3)
  obtain tag off2 err2 where r2: "die_readULEB128 d off1 False = (tag, off2, err2)" by (metis prod_cases3)
  show ?thesis
    using assms die_readULEB128_shape [OF r1] die_readULEB128_shape [OF r2]
    by (auto simp: parseAbbreviationEntry_def r1 r2 obind_eq_Ret split: if_splits option.splits
        dest!: die_readU8_shape abbreviation_specs_shape)
qed

text \<open>The table at an offset ends with the code 0; the first of two entries with a code is kept.\<close>

type_synonym abbreviation_table = "u64 \<Rightarrow> AbbreviationEntry option"

definition emplace :: "AbbreviationEntry \<Rightarrow> abbreviation_table \<Rightarrow> abbreviation_table" where
  "emplace a t = (if t (ab_code a) = None then t(ab_code a \<mapsto> a) else t)"

function abbreviation_table_loop :: "bytes \<Rightarrow> nat \<Rightarrow> abbreviation_table \<Rightarrow> abbreviation_table outcome" where
  "abbreviation_table_loop d off t =
     (if off < length d then
        obind (parseAbbreviationEntry d off) (\<lambda>(a, off').
          if ab_code a = 0 then Ret t
          else if off' \<le> off then Ret (emplace a t)
          else abbreviation_table_loop d off' (emplace a t))
      else Ret t)"
  by pat_completeness auto
termination
  by (relation "measure (\<lambda>(d, off, t). length d - off)") auto

declare abbreviation_table_loop.simps [simp del]

text \<open>\<open>parseAbbreviationTable\<close> reads the whole section as one table; here the last entry is kept.\<close>

function parseAbbreviationTable_loop :: "bytes \<Rightarrow> nat \<Rightarrow> abbreviation_table \<Rightarrow> abbreviation_table outcome" where
  "parseAbbreviationTable_loop d off t =
     (if off < length d then
        obind (parseAbbreviationEntry d off) (\<lambda>(a, off').
          let t' = (if ab_code a \<noteq> 0 then t(ab_code a \<mapsto> a) else t)
          in if off' \<le> off then Ret t' else parseAbbreviationTable_loop d off' t')
      else Ret t)"
  by pat_completeness auto
termination
  by (relation "measure (\<lambda>(d, off, t). length d - off)") auto

declare parseAbbreviationTable_loop.simps [simp del]

definition parseAbbreviationTable :: "bytes \<Rightarrow> abbreviation_table outcome" where
  "parseAbbreviationTable d = parseAbbreviationTable_loop d 0 Map.empty"

subsection \<open>The parser's state\<close>

record VendorFormSkipDetail =
  vd_form :: form
  vd_payload_offset :: nat
  vd_cu_offset :: u64
  vd_die_offset :: u64
  vd_attr :: u16
  vd_is_unit_die :: bool
  vd_severity :: string

record die_parser =
  dp_abbrev :: bytes
  dp_attr :: attr_parser
  dp_details :: "VendorFormSkipDetail list"
  dp_cache :: "nat \<Rightarrow> abbreviation_table option"

definition dp_info :: "die_parser \<Rightarrow> bytes" where
  "dp_info dp = sec_info (ap_sections (dp_attr dp))"

definition new_die_parser :: "attr_sections \<Rightarrow> bytes \<Rightarrow> u64 \<Rightarrow> u64 \<Rightarrow> die_parser" where
  "new_die_parser s abbrev bias sup_bias =
     \<lparr>dp_abbrev = abbrev,
      dp_attr = setSupplementaryDebugInfoOffsetBias sup_bias (setDebugInfoOffsetBias bias (new_attr_parser s)),
      dp_details = [], dp_cache = Map.empty\<rparr>"

definition abbreviationTableAt :: "die_parser \<Rightarrow> nat \<Rightarrow> (abbreviation_table \<times> die_parser) outcome" where
  "abbreviationTableAt dp off =
     (case dp_cache dp off of
        Some t \<Rightarrow> Ret (t, dp)
      | None \<Rightarrow>
          obind (abbreviation_table_loop (dp_abbrev dp) off Map.empty) (\<lambda>t.
            Ret (t, dp\<lparr>dp_cache := (dp_cache dp)(off \<mapsto> t)\<rparr>)))"

definition lookupAbbreviationEntry ::
  "die_parser \<Rightarrow> u64 \<Rightarrow> nat \<Rightarrow> (AbbreviationEntry option \<times> die_parser) outcome" where
  "lookupAbbreviationEntry dp code off = obind (abbreviationTableAt dp off) (\<lambda>(t, dp). Ret (t code, dp))"

definition die_getString :: "die_parser \<Rightarrow> nat \<Rightarrow> string" where
  "die_getString dp off = string_at (sec_str (ap_sections (dp_attr dp))) off"

definition getAbbrevData :: "die_parser \<Rightarrow> nat \<Rightarrow> bytes" where
  "getAbbrevData dp off = drop off (dp_abbrev dp)"

definition isValidOffset :: "die_parser \<Rightarrow> nat \<Rightarrow> bool" where
  "isValidOffset dp off \<longleftrightarrow> off < length (dp_info dp)"

end
