(* ===== verification/DieParser.thy ===== *)
theory DieParser
  imports DieCore
begin

section \<open>The parser of debugging information entries\<close>

text \<open>
  \<open>parseDIE\<close> and \<open>parseCompilationUnits\<close> of \<open>src/die_parser.cpp\<close>. The entries of a unit form a
  tree; \<open>parseDIE\<close> recurs on the children, so that \<open>fuel\<close> bounds the depth of the tree, and the
  loop over the children stops after 1000 of them. The fuel of line tables is \<open>lines\<close>.
\<close>

subsection \<open>Attributes of an entry\<close>

definition isUnitDIE :: "u16 \<Rightarrow> bool" where
  "isUnitDIE tag \<longleftrightarrow>
     tag \<in> {DW_TAG_compile_unit, DW_TAG_partial_unit, DW_TAG_type_unit, DW_TAG_skeleton_unit,
            DW_TAG_split_compile_unit, DW_TAG_split_type_unit}"

text \<open>The bases that the attributes of a unit entry set.\<close>

record unit_bases =
  ub_rnglists :: u64
  ub_loclists :: u64
  ub_addr :: u64
  ub_str_offsets :: u64
  ub_address :: u64

definition no_bases :: unit_bases where
  "no_bases = \<lparr>ub_rnglists = 0, ub_loclists = 0, ub_addr = 0, ub_str_offsets = 0, ub_address = 0\<rparr>"

definition learn_base :: "u16 \<Rightarrow> attr_val \<Rightarrow> unit_bases \<Rightarrow> unit_bases" where
  "learn_base attr v b =
     (case v of
        Plain (UnsignedAttributeValue u) \<Rightarrow>
          if attr = DW_AT_rnglists_base then b\<lparr>ub_rnglists := u\<rparr>
          else if attr = DW_AT_loclists_base then b\<lparr>ub_loclists := u\<rparr>
          else if attr = DW_AT_addr_base then b\<lparr>ub_addr := u\<rparr>
          else if attr = DW_AT_str_offsets_base then b\<lparr>ub_str_offsets := u\<rparr>
          else if attr = DW_AT_low_pc then b\<lparr>ub_address := u\<rparr>
          else b
      | Plain (AddressAttributeValue a) \<Rightarrow> if attr = DW_AT_low_pc then b\<lparr>ub_address := a\<rparr> else b
      | _ \<Rightarrow> b)"

definition set_context :: "bool \<Rightarrow> unit_bases \<Rightarrow> die_parser \<Rightarrow> die_parser outcome" where
  "set_context le b dp =
     obind (setCUContext le (unat (ub_rnglists b)) (unat (ub_loclists b)) (unat (ub_addr b)) (unat (ub_str_offsets b))
              (ub_address b) (dp_attr dp)) (\<lambda>p. Ret (dp\<lparr>dp_attr := p\<rparr>))"

text \<open>The value of one attribute; the constant of an implicit form comes from the abbreviation.\<close>

definition parse_spec ::
  "bool \<Rightarrow> nat \<Rightarrow> attr_parser \<Rightarrow> AbbreviationAttrSpec \<Rightarrow> nat \<Rightarrow> (attr_val option \<times> nat \<times> attr_parser) run" where
  "parse_spec le lines p spec off =
     (if as_form spec = DW_FORM_implicit_const then
        rbind (parseAttributeValue le lines (setImplicitConstValue (Some (as_implicit spec)) p) (as_attr spec) (as_form spec) off)
          (\<lambda>(v, off, p). Some (Ret (v, off, setImplicitConstValue None p)))
      else parseAttributeValue le lines p (as_attr spec) (as_form spec) off)"

text \<open>A skipped vendor form leaves a detail, with the last sample when there is a new one.\<close>

definition skip_detail ::
  "u64 \<Rightarrow> u64 \<Rightarrow> bool \<Rightarrow> AbbreviationAttrSpec \<Rightarrow> nat \<Rightarrow> vendor_skips \<Rightarrow> vendor_skips \<Rightarrow>
     VendorFormSkipDetail list \<Rightarrow> VendorFormSkipDetail list" where
  "skip_detail cu_base die_off unit_die spec off before after details =
     (if skip_count after \<le> skip_count before \<or> 128 \<le> length details then details
      else
        let d = \<lparr>vd_form = as_form spec, vd_payload_offset = off, vd_cu_offset = cu_base, vd_die_offset = die_off,
                 vd_attr = as_attr spec, vd_is_unit_die = unit_die, vd_severity = []\<rparr>;
            d = (if length (skip_samples before) < length (skip_samples after)
                 then let s = last (skip_samples after)
                      in d\<lparr>vd_payload_offset := vs_offset s, vd_form := vs_form s, vd_severity := vs_severity s\<rparr>
                 else d)
        in details @ [d])"

fun parse_attributes ::
  "bool \<Rightarrow> nat \<Rightarrow> u64 \<Rightarrow> u64 \<Rightarrow> bool \<Rightarrow> AbbreviationAttrSpec list \<Rightarrow> nat \<Rightarrow> (u16 \<Rightarrow> attr_val option) \<Rightarrow> unit_bases \<Rightarrow>
     die_parser \<Rightarrow> (nat \<times> (u16 \<Rightarrow> attr_val option) \<times> unit_bases \<times> die_parser) run" where
  "parse_attributes le lines cu_base die_off unit_die [] off attrs b dp = Some (Ret (off, attrs, b, dp))"
| "parse_attributes le lines cu_base die_off unit_die (spec # specs) off attrs b dp =
     rbind (parse_spec le lines (dp_attr dp) spec off) (\<lambda>(v, off', p).
       let details = skip_detail cu_base die_off unit_die spec off (ap_skips (dp_attr dp)) (ap_skips p) (dp_details dp);
           dp = dp\<lparr>dp_attr := p, dp_details := details\<rparr>
       in case v of
            None \<Rightarrow> parse_attributes le lines cu_base die_off unit_die specs off' attrs b dp
          | Some v \<Rightarrow>
              let attrs = attrs(as_attr spec \<mapsto> v) in
              if unit_die then
                let b = learn_base (as_attr spec) v b in
                rbind (Some (set_context le b dp)) (\<lambda>dp.
                  parse_attributes le lines cu_base die_off unit_die specs off' attrs b dp)
              else parse_attributes le lines cu_base die_off unit_die specs off' attrs b dp)"

subsection \<open>Children\<close>

definition kMaxChildren :: nat where
  "kMaxChildren = 1000"

text \<open>\<open>n\<close> more children may be parsed, each by \<open>child\<close>.\<close>

fun parse_children ::
  "(die_parser \<Rightarrow> nat \<Rightarrow> (DIE option \<times> nat \<times> die_parser) run) \<Rightarrow> nat \<Rightarrow> nat \<Rightarrow> DIE list \<Rightarrow> die_parser \<Rightarrow> nat \<Rightarrow>
     (DIE list \<times> nat \<times> die_parser) run" where
  "parse_children child info_end 0 acc dp off = Some (Ret (acc, off, dp))"
| "parse_children child info_end (Suc n) acc dp off =
     (if off < info_end then
        rbind (child dp off) (\<lambda>(c, off', dp).
          case c of
            None \<Rightarrow> Some (Ret (acc, off', dp))
          | Some d \<Rightarrow>
              if off' \<le> off then Some (Ret (acc @ [d], off', dp))
              else parse_children child info_end n (acc @ [d]) dp off')
      else Some (Ret (acc, off, dp)))"

subsection \<open>\<open>parseDIE\<close>\<close>

text \<open>An entry whose abbreviation is known, from the offset behind its code.\<close>

definition parse_entry_body ::
  "(die_parser \<Rightarrow> nat \<Rightarrow> (DIE option \<times> nat \<times> die_parser) run) \<Rightarrow> bool \<Rightarrow> nat \<Rightarrow> u64 \<Rightarrow> u8 \<Rightarrow> nat \<Rightarrow> nat \<Rightarrow>
     AbbreviationEntry \<Rightarrow> die_parser \<Rightarrow> nat \<Rightarrow> (DIE option \<times> nat \<times> die_parser) run" where
  "parse_entry_body child le lines cu_base offset_size info_end start_off a dp off =
     (let die_off = ap_bias (dp_attr dp) + word_of_nat start_off; unit_die = isUnitDIE (ab_tag a) in
      rbind (parse_attributes le lines cu_base die_off unit_die (ab_attributes a) off Map.empty no_bases dp)
        (\<lambda>(off, attrs, b, dp).
          rbind (Some (if unit_die then set_context le b dp else Ret dp)) (\<lambda>dp.
          rbind (if ab_children a then parse_children child info_end kMaxChildren [] dp off else Some (Ret ([], off, dp)))
            (\<lambda>(children, off, dp).
              Some (Ret (Some (DIE (ab_tag a) die_off (u64_sub off start_off) cu_base offset_size attrs children),
                         off, dp))))))"

fun parseDIE ::
  "bool \<Rightarrow> nat \<Rightarrow> nat \<Rightarrow> u64 \<Rightarrow> u8 \<Rightarrow> nat \<Rightarrow> nat \<Rightarrow> die_parser \<Rightarrow> nat \<Rightarrow> (DIE option \<times> nat \<times> die_parser) run" where
  "parseDIE le lines abbrev_off cu_base offset_size unit_end 0 dp off = None"
| "parseDIE le lines abbrev_off cu_base offset_size unit_end (Suc fuel) dp off =
     (let info_end = min unit_end (length (dp_info dp)) in
      if info_end \<le> off then Some (Ret (None, off, dp))
      else case die_readULEB128 (dp_info dp) off False of (code, off', err) \<Rightarrow>
        if err \<or> code = 0 then Some (Ret (None, off', dp))
        else rbind (Some (lookupAbbreviationEntry dp code abbrev_off)) (\<lambda>(a, dp).
          case a of
            None \<Rightarrow> Some (Ret (None, off', dp))
          | Some a \<Rightarrow>
              parse_entry_body (parseDIE le lines abbrev_off cu_base offset_size info_end fuel) le lines cu_base offset_size
                info_end off a dp off'))"

subsection \<open>Units\<close>

datatype unit_header =
    EndOfUnits
  | SkipUnit nat
  | UnitHeader (uh_end: nat) (uh_version: u16) (uh_dwarf64: bool) (uh_address_size: u8) (uh_abbrev_offset: u64)
      (uh_type_unit: "(u64 \<times> u64) option") (uh_entry: nat)

definition die_read_offset :: "bool \<Rightarrow> bool \<Rightarrow> bytes \<Rightarrow> nat \<Rightarrow> bool \<Rightarrow> u64 die_read outcome" where
  "die_read_offset le is64 d off err =
     (if is64 then die_readU64 le d off err
      else obind (die_readU32 le d off err) (\<lambda>(v, off, err). Ret (ucast v, off, err)))"

text \<open>The fields behind the version of a DWARF 5 unit, and of an older one.\<close>

definition unit_header_v5 :: "bool \<Rightarrow> bytes \<Rightarrow> bool \<Rightarrow> nat \<Rightarrow> u16 \<Rightarrow> nat \<Rightarrow> unit_header outcome" where
  "unit_header_v5 le d is64 unit_end vers off =
     (if unit_end < u64_add off (2 + (if is64 then 8 else 4)) then Ret (SkipUnit unit_end)
      else
        obind (die_readU8 d off False) (\<lambda>(unit_type, off, err).
        obind (die_readU8 d off err) (\<lambda>(asize, off, err).
        obind (die_read_offset le is64 d off err) (\<lambda>(abbrev_offset, off, err).
          if unit_type = 0x02 \<or> unit_type = 0x06 then
            if unit_end < u64_add off (8 + (if is64 then 8 else 4)) then Ret (SkipUnit unit_end)
            else
              obind (die_readU64 le d off err) (\<lambda>(signature, off, err).
              obind (die_read_offset le is64 d off err) (\<lambda>(type_offset, off, err).
                Ret (if err then SkipUnit unit_end
                     else UnitHeader unit_end vers is64 asize abbrev_offset (Some (signature, type_offset)) off)))
          else if unit_type = 0x04 \<or> unit_type = 0x05 then
            if unit_end < u64_add off 8 then Ret (SkipUnit unit_end)
            else
              obind (die_readU64 le d off err) (\<lambda>(dwo_id, off, err).
                Ret (if err then SkipUnit unit_end
                     else UnitHeader unit_end vers is64 asize abbrev_offset None off))
          else Ret (if err then SkipUnit unit_end
                    else UnitHeader unit_end vers is64 asize abbrev_offset None off)))))"

definition unit_header_v4 :: "bool \<Rightarrow> bytes \<Rightarrow> bool \<Rightarrow> nat \<Rightarrow> u16 \<Rightarrow> nat \<Rightarrow> unit_header outcome" where
  "unit_header_v4 le d is64 unit_end vers off =
     (if unit_end < u64_add off ((if is64 then 8 else 4) + 1) then Ret (SkipUnit unit_end)
      else
        obind (die_read_offset le is64 d off False) (\<lambda>(abbrev_offset, off, err).
        obind (die_readU8 d off err) (\<lambda>(asize, off, err).
          Ret (if err then SkipUnit unit_end
               else UnitHeader unit_end vers is64 asize abbrev_offset None off))))"

definition parse_unit_header :: "bool \<Rightarrow> bytes \<Rightarrow> nat \<Rightarrow> unit_header outcome" where
  "parse_unit_header le d start =
     (if length d < u64_add start 4 then Ret EndOfUnits
      else
        obind (die_readU32 le d start False) (\<lambda>(initial_length, off, err).
          if err \<or> initial_length = 0 then Ret EndOfUnits
          else
            let is64 = (initial_length = 0xffffffff) in
            if is64 \<and> length d < u64_add off 8 then Ret EndOfUnits
            else
              obind (if is64 then die_readU64 le d off err else Ret (ucast initial_length, off, err)) (\<lambda>(len, off, err).
                let header_size = (if is64 then 12 else 4) in
                if err \<or> u64_sub (u64_sub (length d) start) header_size < unat len then Ret EndOfUnits
                else
                  let unit_end = u64_add (u64_add start header_size) (unat len) in
                  if unit_end < u64_add off 2 then Ret (SkipUnit unit_end)
                  else
                    obind (die_readU16 le d off err) (\<lambda>(vers, off, err).
                      if err then Ret (SkipUnit unit_end)
                      else if 5 \<le> vers then unit_header_v5 le d is64 unit_end vers off
                      else unit_header_v4 le d is64 unit_end vers off))))"

text \<open>The attribute parser's context of a unit that starts at \<open>base\<close>.\<close>

definition enter_unit :: "unit_header \<Rightarrow> u64 \<Rightarrow> die_parser \<Rightarrow> die_parser" where
  "enter_unit h base dp =
     dp\<lparr>dp_attr := setIsDwarf64 (uh_dwarf64 h) (setDwarfVersion (ucast (uh_version h))
          (setAddressSize (uh_address_size h) (setCUDebugInfoEnd (uh_end h) (setCUOffset base (dp_attr dp)))))\<rparr>"

definition add_type_unit :: "u64 \<Rightarrow> (u64 \<times> u64) option \<Rightarrow> DIE \<Rightarrow> DIE" where
  "add_type_unit base t d =
     (case t of
        None \<Rightarrow> d
      | Some (signature, type_offset) \<Rightarrow>
          addAttribute DW_AT_type (TypeValue (base + type_offset) ''<type-unit>'' False)
            (addAttribute DW_AT_signature (Plain (UnsignedAttributeValue signature)) d))"

definition parse_unit ::
  "bool \<Rightarrow> nat \<Rightarrow> nat \<Rightarrow> nat \<Rightarrow> unit_header \<Rightarrow> die_parser \<Rightarrow> (DIE option \<times> die_parser) run" where
  "parse_unit le lines fuel start h dp =
     (let base = ap_bias (dp_attr dp) + word_of_nat start in
      rbind (parseDIE le lines (unat (uh_abbrev_offset h)) base (if uh_dwarf64 h then 8 else 4) (uh_end h) fuel
               (enter_unit h base dp) (uh_entry h)) (\<lambda>(d, off, dp).
        Some (Ret (map_option (add_type_unit base (uh_type_unit h)) d, dp))))"

text \<open>\<open>units\<close> bounds the number of units; each takes at least four bytes.\<close>

fun parseCompilationUnits_loop ::
  "bool \<Rightarrow> nat \<Rightarrow> nat \<Rightarrow> nat \<Rightarrow> DIE list \<Rightarrow> die_parser \<Rightarrow> nat \<Rightarrow> (DIE list \<times> die_parser) run" where
  "parseCompilationUnits_loop le lines fuel 0 acc dp off = (if off < length (dp_info dp) then None else Some (Ret (acc, dp)))"
| "parseCompilationUnits_loop le lines fuel (Suc units) acc dp off =
     (if off < length (dp_info dp) then
        rbind (Some (parse_unit_header le (dp_info dp) off)) (\<lambda>h.
          case h of
            EndOfUnits \<Rightarrow> Some (Ret (acc, dp))
          | SkipUnit unit_end \<Rightarrow> parseCompilationUnits_loop le lines fuel units acc dp unit_end
          | _ \<Rightarrow>
              rbind (parse_unit le lines fuel off h dp) (\<lambda>(d, dp).
                parseCompilationUnits_loop le lines fuel units
                  (case d of Some d \<Rightarrow> acc @ [d] | None \<Rightarrow> acc) dp (uh_end h)))
      else Some (Ret (acc, dp)))"

definition parseCompilationUnits :: "bool \<Rightarrow> nat \<Rightarrow> nat \<Rightarrow> die_parser \<Rightarrow> (DIE list \<times> die_parser) run" where
  "parseCompilationUnits le lines fuel dp =
     parseCompilationUnits_loop le lines fuel (length (dp_info dp)) [] (dp\<lparr>dp_details := []\<rparr>) 0"

end
