(* ===== verification/AbbrevRound.thy ===== *)
theory AbbrevRound
  imports DieParser EvalReaders
begin

section \<open>Abbreviation tables\<close>

text \<open>
  The encoding of an abbreviation table and its round trip: the parser of \<open>DieCore\<close> turns the
  encoded table into the map from codes to entries, in which the first of two entries with a code
  wins. The numbers are read exactly up to 64 bits.
\<close>

subsection \<open>Numbers\<close>

text \<open>The readers of \<open>DIEParser\<close> agree with those of the evaluator wherever the latter report no error.\<close>

lemma die_uleb_transfer:
  "\<not> execution_error s \<Longrightarrow> \<not> execution_error (snd (snd (ev_uleb_loop d off s r sh))) \<Longrightarrow>
   die_uleb_loop d off r sh err = (fst (ev_uleb_loop d off s r sh), fst (snd (ev_uleb_loop d off s r sh)), err)"
proof (induction d off s r sh rule: ev_uleb_loop.induct)
  case (1 d off s r sh)
  note unroll = ev_uleb_loop.simps [of d off s r sh]
  have over: "64 \<le> sh + 7 \<Longrightarrow> execution_error (snd (snd (ev_uleb_loop d (Suc off) s x (sh + 7))))" for x
    by (auto simp: ev_uleb_loop.simps [of d "Suc off"] setExecutionError_def)
  show ?case
    using "1.prems" "1.IH" over unfolding die_uleb_loop.simps [of d off r sh err] unroll
    by (auto simp: Let_def setExecutionError_def split: if_splits)
qed

lemma die_sleb_transfer:
  "\<not> execution_error s \<Longrightarrow> \<not> execution_error (snd (snd (ev_sleb_loop d off s r sh))) \<Longrightarrow>
   die_sleb_loop d off r sh err = (sleb_result (fst (ev_sleb_loop d off s r sh)), fst (snd (ev_sleb_loop d off s r sh)), err)"
proof (induction d off s r sh rule: ev_sleb_loop.induct)
  case (1 d off s r sh)
  note unroll = ev_sleb_loop.simps [of d off s r sh]
  have over: "64 \<le> sh + 7 \<Longrightarrow> execution_error (snd (snd (ev_sleb_loop d (Suc off) s x (sh + 7))))" for x
    by (auto simp: ev_sleb_loop.simps [of d "Suc off"] setExecutionError_def)
  show ?case
    using "1.prems" "1.IH" over unfolding die_sleb_loop.simps [of d off r sh err] unroll
    by (auto simp: Let_def setExecutionError_def sleb_result_def minus_exp_eq_not_mask split: if_splits)
qed

lemma die_readULEB128_encode:
  assumes "encoded_at d off (uleb_encode n)" and "n < 2 ^ 64"
  shows "die_readULEB128 d off err = (word_of_nat n, off + length (uleb_encode n), err)"
proof -
  let ?s = "new_evaluator True DefaultMemoryContext"
  have "off < length d" using encoded_at_length [OF assms(1)] uleb_encode_nonempty [of n] by linarith
  moreover have "ev_uleb_loop d off ?s 0 0 = (word_of_nat n, off + length (uleb_encode n), ?s)"
    using ev_uleb_loop_encode [of d off n 0 0 ?s] assms by simp
  ultimately show ?thesis using die_uleb_transfer [of ?s d off 0 0 err] by (simp add: die_readULEB128_def new_evaluator_def)
qed

lemma die_readSLEB128_encode:
  assumes "encoded_at d off (sleb_encode i)" and "- (2 ^ 63) \<le> i" and "i < 2 ^ 63"
  shows "die_readSLEB128 d off err = (word_of_int i, off + length (sleb_encode i), err)"
proof -
  let ?s = "new_evaluator True DefaultMemoryContext"
  have "off < length d" using encoded_at_length [OF assms(1)] sleb_encode_nonempty [of i] by linarith
  moreover obtain r where "ev_sleb_loop d off ?s 0 0 = (r, off + length (sleb_encode i), ?s)" "sleb_result r = word_of_int i"
    using ev_sleb_loop_encode [of d off i 0 0 ?s] assms by auto
  ultimately show ?thesis using die_sleb_transfer [of ?s d off 0 0 err] by (simp add: die_readSLEB128_def new_evaluator_def)
qed

lemma die_readU8_encoded:
  "encoded_at d off [b] \<Longrightarrow> length d \<le> vector_max \<Longrightarrow> die_readU8 d off err = Ret (b, Suc off, err)"
  by (auto simp: die_readU8_def die_read_def encoded_at_Cons vector_max_def readU8_value)

subsection \<open>Entries\<close>

record spec_source =
  ss_attr :: u16
  ss_form :: form
  ss_implicit :: int

record abbrev_source =
  sa_code :: nat
  sa_tag :: u16
  sa_children :: bool
  sa_specs :: "spec_source list"

definition spec_bytes :: "spec_source \<Rightarrow> bytes" where
  "spec_bytes s =
     uleb_encode (unat (ss_attr s)) @ uleb_encode (unat (ss_form s)) @
     (if ss_form s = DW_FORM_implicit_const then sleb_encode (ss_implicit s) else [])"

definition abbrev_bytes :: "abbrev_source \<Rightarrow> bytes" where
  "abbrev_bytes a =
     uleb_encode (sa_code a) @ uleb_encode (unat (sa_tag a)) @ [if sa_children a then 1 else 0] @
     concat (map spec_bytes (sa_specs a)) @ uleb_encode 0 @ uleb_encode 0"

definition table_bytes :: "abbrev_source list \<Rightarrow> bytes" where
  "table_bytes as = concat (map abbrev_bytes as) @ uleb_encode 0"

definition spec_entry :: "spec_source \<Rightarrow> AbbreviationAttrSpec" where
  "spec_entry s =
     (let c = (ss_form s = DW_FORM_implicit_const)
      in \<lparr>as_attr = ss_attr s, as_form = ss_form s, as_implicit = (if c then word_of_int (ss_implicit s) else 0),
          as_has_implicit = c\<rparr>)"

definition abbrev_entry :: "abbrev_source \<Rightarrow> AbbreviationEntry" where
  "abbrev_entry a =
     \<lparr>ab_code = word_of_nat (sa_code a), ab_tag = sa_tag a, ab_children = sa_children a,
      ab_attributes = map spec_entry (sa_specs a)\<rparr>"

definition spec_source_ok :: "spec_source \<Rightarrow> bool" where
  "spec_source_ok s \<longleftrightarrow>
     (ss_attr s \<noteq> 0 \<or> ss_form s \<noteq> 0) \<and> - (2 ^ 63) \<le> ss_implicit s \<and> ss_implicit s < 2 ^ 63"

definition abbrev_source_ok :: "abbrev_source \<Rightarrow> bool" where
  "abbrev_source_ok a \<longleftrightarrow> 0 < sa_code a \<and> sa_code a < 2 ^ 64 \<and> list_all spec_source_ok (sa_specs a)"

definition table_of :: "abbrev_source list \<Rightarrow> abbreviation_table" where
  "table_of as = map_of (map (\<lambda>a. (word_of_nat (sa_code a), abbrev_entry a)) as)"

subsection \<open>The round trip\<close>

lemma unat_u16_lt: "unat (w :: u16) < 2 ^ 64"
proof -
  have "unat w < 2 ^ 16" using unsigned_less [of w, where ?'a = nat] by simp
  then show ?thesis by simp
qed

lemma u16_through_u64: "(word_of_nat (unat (w :: u16)) :: u64) = ucast w" "ucast (ucast w :: u64) = w"
  "(ucast w :: u64) = 0 \<longleftrightarrow> w = 0"
proof -
  show "(word_of_nat (unat w) :: u64) = ucast w" by simp
  show b: "ucast (ucast w :: u64) = w" for w :: u16 by (simp add: word_unat_eq_iff unsigned_ucast_eq take_bit_take_bit take_bit_word_eq_self)
  show "(ucast w :: u64) = 0 \<longleftrightarrow> w = 0" using b [of w] by (metis unsigned_0)
qed

lemma abbreviation_specs_encoded:
  assumes "encoded_at d off (concat (map spec_bytes ss) @ uleb_encode 0 @ uleb_encode 0)" and "list_all spec_source_ok ss"
  shows "abbreviation_specs d off acc =
           Some (acc @ map spec_entry ss, off + length (concat (map spec_bytes ss) @ uleb_encode 0 @ uleb_encode 0))"
  using assms
proof (induction ss arbitrary: off acc)
  case Nil
  then have z: "encoded_at d off (uleb_encode 0)" "encoded_at d (off + length (uleb_encode 0)) (uleb_encode 0)"
    by (auto simp: encoded_at_append)
  then have "off < length d" using encoded_at_length [OF z(1)] uleb_encode_nonempty [of 0] by linarith
  then show ?case
    using die_readULEB128_encode [OF z(1)] die_readULEB128_encode [OF z(2)]
    by (simp add: abbreviation_specs.simps [of d off])
next
  case (Cons s ss)
  let ?o1 = "off + length (uleb_encode (unat (ss_attr s)))"
  let ?o2 = "?o1 + length (uleb_encode (unat (ss_form s)))"
  have "encoded_at d off (spec_bytes s @ concat (map spec_bytes ss) @ uleb_encode 0 @ uleb_encode 0)"
    using Cons.prems(1) by simp
  then have here: "encoded_at d off (spec_bytes s)"
    "encoded_at d (off + length (spec_bytes s)) (concat (map spec_bytes ss) @ uleb_encode 0 @ uleb_encode 0)"
    unfolding encoded_at_append by blast+
  have at: "encoded_at d off (uleb_encode (unat (ss_attr s)))" "encoded_at d ?o1 (uleb_encode (unat (ss_form s)))"
    "ss_form s = DW_FORM_implicit_const \<Longrightarrow> encoded_at d ?o2 (sleb_encode (ss_implicit s))"
    using here(1) by (auto simp: encoded_at_append spec_bytes_def add.assoc)
  have ok: "ss_attr s \<noteq> 0 \<or> ss_form s \<noteq> 0" "- (2 ^ 63) \<le> ss_implicit s" "ss_implicit s < 2 ^ 63" "list_all spec_source_ok ss"
    using Cons.prems(2) by (auto simp: spec_source_ok_def [of s])
  have "off < length d" using encoded_at_length [OF at(1)] uleb_encode_nonempty [of "unat (ss_attr s)"] by linarith
  then have "abbreviation_specs d off acc = abbreviation_specs d (off + length (spec_bytes s)) (acc @ [spec_entry s])"
    using die_readULEB128_encode [OF at(1) unat_u16_lt] die_readULEB128_encode [OF at(2) unat_u16_lt]
      die_readSLEB128_encode [OF at(3) ok(2,3)] ok(1)
    by (subst abbreviation_specs.simps)
      (auto simp: u16_through_u64 spec_entry_def spec_bytes_def Let_def add.assoc)
  then show ?case using Cons.IH [OF here(2) ok(4), of "acc @ [spec_entry s]"] by (simp add: add.assoc)
qed

lemma parseAbbreviationEntry_encoded:
  assumes "encoded_at d off (abbrev_bytes a)" and "abbrev_source_ok a" and "length d \<le> vector_max"
  shows "parseAbbreviationEntry d off = Ret (abbrev_entry a, off + length (abbrev_bytes a))"
proof -
  let ?o1 = "off + length (uleb_encode (sa_code a))"
  let ?o2 = "?o1 + length (uleb_encode (unat (sa_tag a)))"
  have at: "encoded_at d off (uleb_encode (sa_code a))" "encoded_at d ?o1 (uleb_encode (unat (sa_tag a)))"
    "encoded_at d ?o2 [if sa_children a then 1 else 0]"
    "encoded_at d (Suc ?o2) (concat (map spec_bytes (sa_specs a)) @ uleb_encode 0 @ uleb_encode 0)"
    using assms(1) by (auto simp: encoded_at_append encoded_at_Cons abbrev_bytes_def add.assoc split: if_splits)
  have ok: "0 < sa_code a" "sa_code a < 2 ^ 64" "list_all spec_source_ok (sa_specs a)"
    using assms(2) by (auto simp: abbrev_source_ok_def)
  have nz: "(word_of_nat (sa_code a) :: u64) \<noteq> 0"
    using ok(1,2) by (simp add: word_unat_eq_iff unsigned_of_nat take_bit_nat_eq_self)
  have "off < length d" using encoded_at_length [OF at(1)] uleb_encode_nonempty [of "sa_code a"] by linarith
  then show ?thesis
    using die_readULEB128_encode [OF at(1) ok(2)] die_readULEB128_encode [OF at(2) unat_u16_lt]
      die_readU8_encoded [OF at(3) assms(3)] abbreviation_specs_encoded [OF at(4) ok(3), of "[]"] nz
    by (simp add: parseAbbreviationEntry_def abbrev_entry_def abbrev_bytes_def u16_through_u64 add.assoc)
qed

lemma foldl_emplace: "foldl (\<lambda>t a. emplace a t) t as = map_of (map (\<lambda>a. (ab_code a, a)) as) ++ t"
proof (induction as arbitrary: t)
  case (Cons a as)
  show ?case unfolding foldl_Cons Cons.IH
    by (rule ext) (auto simp: emplace_def map_add_def split: option.splits)
qed simp

lemma abbreviation_table_loop_encoded:
  assumes "encoded_at d off (table_bytes as)" and "list_all abbrev_source_ok as" and "length d \<le> vector_max"
  shows "abbreviation_table_loop d off t = Ret (foldl (\<lambda>t a. emplace a t) t (map abbrev_entry as))"
  using assms(1,2)
proof (induction as arbitrary: off t)
  case Nil
  then have z: "encoded_at d off (uleb_encode 0)" by (simp add: table_bytes_def)
  then have "off < length d" using encoded_at_length [OF z] uleb_encode_nonempty [of 0] by linarith
  then show ?case
    using die_readULEB128_encode [OF z] by (simp add: abbreviation_table_loop.simps parseAbbreviationEntry_def no_abbreviation_def)
next
  case (Cons a as)
  have at: "encoded_at d off (abbrev_bytes a)" "encoded_at d (off + length (abbrev_bytes a)) (table_bytes as)"
    using Cons.prems(1) by (auto simp: table_bytes_def encoded_at_append)
  have ok: "abbrev_source_ok a" "list_all abbrev_source_ok as" using Cons.prems(2) by auto
  have "0 < length (abbrev_bytes a)" by (simp add: abbrev_bytes_def)
  moreover have "off < length d" using encoded_at_length [OF at(1)] calculation by linarith
  moreover have "ab_code (abbrev_entry a) \<noteq> 0"
    using ok(1) by (simp add: abbrev_source_ok_def abbrev_entry_def word_unat_eq_iff unsigned_of_nat take_bit_nat_eq_self)
  ultimately show ?case
    using parseAbbreviationEntry_encoded [OF at(1) ok(1) assms(3)] Cons.IH [OF at(2) ok(2)]
    by (subst abbreviation_table_loop.simps) simp
qed

lemma abbreviation_table_round_trip:
  assumes "encoded_at (dp_abbrev dp) off (table_bytes as)" and "list_all abbrev_source_ok as"
    and "length (dp_abbrev dp) \<le> vector_max" and "dp_cache dp off = None"
  shows "abbreviationTableAt dp off = Ret (table_of as, dp\<lparr>dp_cache := (dp_cache dp)(off \<mapsto> table_of as)\<rparr>)"
proof -
  have "foldl (\<lambda>t a. emplace a t) Map.empty (map abbrev_entry as) = table_of as"
    unfolding foldl_emplace by (simp add: table_of_def abbrev_entry_def comp_def)
  then show ?thesis
    using abbreviation_table_loop_encoded [OF assms(1-3)] assms(4) by (simp add: abbreviationTableAt_def)
qed

end
