(* ===== verification/FieldSpec.thy ===== *)
theory FieldSpec
  imports AttrParse LineRound
begin

section \<open>What the forms mean\<close>

text \<open>
  The operand that an attribute of each form has in the section, its encoding, and the value that it
  stands for; the parsers of \<open>AttrForms\<close> decode every encoded operand to its value, and
  \<open>getFormSize\<close> gives the length of the encoding. The indices into tables of other sections are not
  in this specification; LEB128 numbers are below \<open>2^31\<close>, where the reader is exact.
\<close>

datatype operand = NoOperand | Number u64 | Leb nat | Sleb int | Data bytes

definition number_widths :: "attr_parser \<Rightarrow> (form \<times> nat) list" where
  "number_widths p =
     [(DW_FORM_data1, 1), (DW_FORM_flag, 1), (DW_FORM_ref1, 1), (DW_FORM_data2, 2), (DW_FORM_ref2, 2),
      (DW_FORM_data4, 4), (DW_FORM_ref4, 4), (DW_FORM_ref_sup4, 4), (DW_FORM_data8, 8), (DW_FORM_ref8, 8),
      (DW_FORM_ref_sup8, 8), (DW_FORM_ref_sig8, 8), (DW_FORM_addr, wide (ap_address_size p)),
      (DW_FORM_strp, if ap_is64 p then 8 else 4), (DW_FORM_strp_sup, if ap_is64 p then 8 else 4),
      (DW_FORM_GNU_strp_alt, if ap_is64 p then 8 else 4), (DW_FORM_line_strp, if ap_is64 p then 8 else 4),
      (DW_FORM_sec_offset, if ap_is64 p then 8 else 4), (DW_FORM_GNU_ref_alt, if ap_is64 p then 8 else 4),
      (DW_FORM_ref_addr, if ap_version p = 2 then wide (ap_address_size p) else if ap_is64 p then 8 else 4)]"

definition number_width :: "attr_parser \<Rightarrow> form \<Rightarrow> nat" where
  "number_width p f = (case map_of (number_widths p) f of Some w \<Rightarrow> w | None \<Rightarrow> 0)"

definition field_bytes :: "bool \<Rightarrow> attr_parser \<Rightarrow> form \<Rightarrow> operand \<Rightarrow> bytes" where
  "field_bytes le p f x =
     (case x of
        NoOperand \<Rightarrow> []
      | Number v \<Rightarrow> ordered le (le_bytes (number_width p f) (unat v))
      | Leb n \<Rightarrow> uleb_encode n
      | Sleb i \<Rightarrow> sleb_encode i
      | Data bs \<Rightarrow>
          if f = DW_FORM_string then bs @ [0]
          else if f = DW_FORM_block1 then word_of_nat (length bs) # bs
          else if f = DW_FORM_block2 then ordered le (le_bytes 2 (length bs)) @ bs
          else if f = DW_FORM_block4 then ordered le (le_bytes 4 (length bs)) @ bs
          else if f = DW_FORM_data16 then bs
          else uleb_encode (length bs) @ bs)"

definition field_ok :: "attr_parser \<Rightarrow> form \<Rightarrow> operand \<Rightarrow> bool" where
  "field_ok p f x \<longleftrightarrow>
     (case x of
        NoOperand \<Rightarrow> f = DW_FORM_flag_present \<or> f = DW_FORM_implicit_const
      | Number v \<Rightarrow> f \<in> fst ` set (number_widths p) \<and> unat v < 256 ^ number_width p f
      | Leb n \<Rightarrow> (f = DW_FORM_udata \<or> f = DW_FORM_ref_udata) \<and> n < 2 ^ 31
      | Sleb i \<Rightarrow> f = DW_FORM_sdata \<and> - (2 ^ 63) \<le> i \<and> i < 2 ^ 63
      | Data bs \<Rightarrow>
          f = DW_FORM_string \<and> 0 \<notin> set bs \<or> f = DW_FORM_block1 \<and> length bs < 2 ^ 8 \<or>
          f = DW_FORM_block2 \<and> length bs < 2 ^ 16 \<or> f = DW_FORM_block4 \<and> length bs < 2 ^ 32 \<or>
          f = DW_FORM_data16 \<and> length bs = 16 \<or> (f = DW_FORM_block \<or> f = DW_FORM_exprloc) \<and> length bs < 2 ^ 31)"

definition section_string :: "string \<Rightarrow> bytes \<Rightarrow> u64 \<Rightarrow> attribute_value" where
  "section_string label d v =
     StringAttributeValue (if unat v < length d then string_at d (unat v)
                           else ''<'' @ label @ '':'' @ dec_string (unat v) @ ''>'')"

definition number_value :: "attr_parser \<Rightarrow> form \<Rightarrow> u64 \<Rightarrow> attribute_value" where
  "number_value p f v =
     (if f = DW_FORM_addr then AddressAttributeValue v
      else if f = DW_FORM_flag then FlagAttributeValue (v \<noteq> 0)
      else if f = DW_FORM_strp then StringAttributeValue (getString p (unat v))
      else if f = DW_FORM_strp_sup then section_string ''strp_sup'' (sec_str_sup (ap_sections p)) v
      else if f = DW_FORM_GNU_strp_alt then section_string ''gnu_strp_alt'' (sec_str_sup (ap_sections p)) v
      else if f = DW_FORM_line_strp then section_string ''line_strp'' (sec_line_str (ap_sections p)) v
      else if f \<in> {DW_FORM_ref1, DW_FORM_ref2, DW_FORM_ref4, DW_FORM_ref8} then
        ReferenceAttributeValue (cu_offset (ap_cu p) + v)
      else if f \<in> {DW_FORM_ref_sup4, DW_FORM_ref_sup8, DW_FORM_GNU_ref_alt} then
        ReferenceAttributeValue (ap_sup_bias p + v)
      else if f = DW_FORM_ref_addr then ReferenceAttributeValue (ap_bias p + v)
      else if f = DW_FORM_ref_sig8 then ReferenceAttributeValue v
      else UnsignedAttributeValue v)"

definition field_value :: "attr_parser \<Rightarrow> form \<Rightarrow> operand \<Rightarrow> attribute_value" where
  "field_value p f x =
     (case x of
        NoOperand \<Rightarrow>
          if f = DW_FORM_flag_present then FlagAttributeValue True
          else SignedAttributeValue (case ap_implicit p of Some v \<Rightarrow> v | None \<Rightarrow> 0)
      | Number v \<Rightarrow> number_value p f v
      | Leb n \<Rightarrow> if f = DW_FORM_udata then UnsignedAttributeValue (word_of_nat n)
                 else ReferenceAttributeValue (cu_offset (ap_cu p) + word_of_nat n)
      | Sleb i \<Rightarrow> SignedAttributeValue (word_of_int i)
      | Data bs \<Rightarrow>
          if f = DW_FORM_string then StringAttributeValue (text_of bs)
          else if f = DW_FORM_exprloc then ExpressionAttributeValue bs
          else BlockAttributeValue bs)"

subsection \<open>The readers on encoded operands\<close>

text \<open>The bytes \<open>bs\<close> of an attribute at \<open>off\<close>, inside the unit.\<close>

definition field_at :: "attr_parser \<Rightarrow> nat \<Rightarrow> bytes \<Rightarrow> bool" where
  "field_at p off bs \<longleftrightarrow>
     encoded_at (sec_info (ap_sections p)) off bs \<and> off + length bs \<le> currentDebugInfoEnd p \<and>
     length (sec_info (ap_sections p)) \<le> vector_max"

lemma currentDebugInfoEnd_le: "currentDebugInfoEnd p \<le> length (sec_info (ap_sections p))"
  by (simp add: currentDebugInfoEnd_def Let_def)

lemma field_at_append: "field_at p off (xs @ ys) \<Longrightarrow> field_at p off xs \<and> field_at p (off + length xs) ys"
  by (auto simp: field_at_def encoded_at_append)

lemma field_at_Cons: "field_at p off (b # bs) \<Longrightarrow> sec_info (ap_sections p) ! off = b \<and> field_at p (Suc off) bs"
  by (auto simp: field_at_def encoded_at_Cons)

lemma unat_ucast_small:
  fixes v :: u64
  shows "unat v < 256 \<Longrightarrow> unat (ucast v :: u8) = unat v" and "unat v < 65536 \<Longrightarrow> unat (ucast v :: u16) = unat v"
    and "unat v < 4294967296 \<Longrightarrow> unat (ucast v :: u32) = unat v"
  by (simp_all add: unsigned_ucast_eq take_bit_nat_eq_self)

lemma ucast_back:
  fixes v :: u64
  shows "unat v < 256 \<Longrightarrow> ucast (ucast v :: u8) = v" and "unat v < 65536 \<Longrightarrow> ucast (ucast v :: u16) = v"
    and "unat v < 4294967296 \<Longrightarrow> ucast (ucast v :: u32) = v"
  by (rule word_unat_eq_iff [THEN iffD2]; simp add: unsigned_ucast_eq unsigned_take_bit_eq take_bit_nat_eq_self)+

lemma ucast_is_0: "unat (v :: u64) < 256 \<Longrightarrow> (ucast v :: u8) = 0 \<longleftrightarrow> v = 0"
  using ucast_back(1) [of v] by (metis unsigned_0)

lemma field_readers:
  fixes v :: u64
  shows "field_at p off (ordered le (le_bytes 1 (unat v))) \<Longrightarrow> unat v < 256 \<Longrightarrow>
      ap_readU8 p off = Ret (ucast v, off + 1)"
    and "field_at p off (ordered le (le_bytes 2 (unat v))) \<Longrightarrow> unat v < 65536 \<Longrightarrow>
      ap_readU16 le p off = Ret (ucast v, off + 2)"
    and "field_at p off (ordered le (le_bytes 4 (unat v))) \<Longrightarrow> unat v < 4294967296 \<Longrightarrow>
      ap_readU32 le p off = Ret (ucast v, off + 4)"
    and "field_at p off (ordered le (le_bytes 8 (unat v))) \<Longrightarrow> ap_readU64 le p off = Ret (v, off + 8)"
proof -
  let ?d = "sec_info (ap_sections p)"
  have mx: "currentDebugInfoEnd p \<le> vector_max" if "field_at p off bs" for bs
    using that currentDebugInfoEnd_le [of p] by (simp add: field_at_def)
  show "ap_readU8 p off = Ret (ucast v, off + 1)" if f: "field_at p off (ordered le (le_bytes 1 (unat v)))" and "unat v < 256"
  proof -
    have "le_bytes 1 (unat v) = [ucast v]" using that(2)
      by (simp add: One_nat_def word_unat_eq_iff unat_ucast_small unsigned_of_nat take_bit_nat_eq_self)
    then have "?d ! off = ucast v" "off < currentDebugInfoEnd p"
      using f by (auto simp: field_at_def encoded_at_Cons ordered_def split: if_splits)
    then show ?thesis using currentDebugInfoEnd_le [of p] by (simp add: ap_readU8_def readU8_value)
  qed
  show "ap_readU16 le p off = Ret (ucast v, off + 2)"
    if f: "field_at p off (ordered le (le_bytes 2 (unat v)))" and v: "unat v < 65536"
    using f v mx [OF f] currentDebugInfoEnd_le [of p]
      readU16_encoded [of ?d off le "ucast v" "currentDebugInfoEnd p"]
    by (simp add: field_at_def ap_readU16_def unat_ucast_small)
  show "ap_readU32 le p off = Ret (ucast v, off + 4)"
    if f: "field_at p off (ordered le (le_bytes 4 (unat v)))" and v: "unat v < 4294967296"
    using f v mx [OF f] currentDebugInfoEnd_le [of p]
      readU32_encoded [of ?d off le "ucast v" "currentDebugInfoEnd p"]
    by (simp add: field_at_def ap_readU32_def unat_ucast_small)
  show "ap_readU64 le p off = Ret (v, off + 8)" if f: "field_at p off (ordered le (le_bytes 8 (unat v)))"
    using f mx [OF f] currentDebugInfoEnd_le [of p] readU64_encoded [of ?d off le v "currentDebugInfoEnd p"]
    by (simp add: field_at_def ap_readU64_def)
qed

lemma field_read_uleb:
  assumes "field_at p off (uleb_encode n)" and "n < 2 ^ 31"
  shows "ap_readULEB128 p off = Ret (word_of_nat n, off + length (uleb_encode n))"
  using assms readULEB128_encode [of "sec_info (ap_sections p)" off n "currentDebugInfoEnd p"] scast_u32_u64 [of n]
  by (simp add: field_at_def ap_readULEB128_def)

lemma field_read_sleb:
  assumes "field_at p off (sleb_encode i)" and "- (2 ^ 63) \<le> i" and "i < 2 ^ 63"
  shows "ap_readSLEB128 p off = Ret (word_of_int i, off + length (sleb_encode i))"
  using assms readSLEB128_encode [of "sec_info (ap_sections p)" off i "currentDebugInfoEnd p"]
  by (simp add: field_at_def ap_readSLEB128_def)

lemma field_block:
  assumes "field_at p off bs"
  shows "counted_block mk p (length bs) off = Ret (Some (mk bs), off + length bs)"
  using assms
  by (auto simp: field_at_def counted_block_def getBlock_def advanceOffsetBounded_def Let_def encoded_at_def)

lemma field_string:
  assumes "field_at p off (bs @ [0])" and "0 \<notin> set bs"
  shows "readCStringFromSection (sec_info (ap_sections p)) (currentDebugInfoEnd p) off = (text_of bs, Suc (length bs))"
proof -
  have "until_nul (sec_info (ap_sections p)) off (currentDebugInfoEnd p) = (bs, True)"
    using assms by (intro until_nul_encoded) (auto simp: field_at_def)
  moreover have "off < currentDebugInfoEnd p" using assms(1) by (simp add: field_at_def)
  ultimately show ?thesis by (simp add: readCStringFromSection_def)
qed

subsection \<open>Every form decodes its operand\<close>

lemma parser_of_number:
  assumes "f \<in> fst ` set (number_widths p)" and "unat v < 256 ^ number_width p f"
    and "field_at p off (ordered le (le_bytes (number_width p f) (unat v)))"
  shows "\<exists>q. map_of form_parsers f = Some q \<and>
           q le p off = Ret (Some (Plain (number_value p f v)), off + number_width p f)"
proof -
  have "f \<in> {DW_FORM_data1, DW_FORM_flag, DW_FORM_ref1, DW_FORM_data2, DW_FORM_ref2, DW_FORM_data4, DW_FORM_ref4,
      DW_FORM_ref_sup4, DW_FORM_data8, DW_FORM_ref8, DW_FORM_ref_sup8, DW_FORM_ref_sig8, DW_FORM_addr, DW_FORM_strp,
      DW_FORM_strp_sup, DW_FORM_GNU_strp_alt, DW_FORM_line_strp, DW_FORM_sec_offset, DW_FORM_GNU_ref_alt,
      DW_FORM_ref_addr}" (is "f \<in> ?S")
    using assms(1) by (simp add: number_widths_def)
  then show ?thesis
    using assms(2,3) field_readers [of p off le v] ucast_back [of v]
    by (elim insertE emptyE)
      (simp_all add: form_parsers_def number_width_def number_widths_def number_value_def some_plain_def wide_def
        parseFormAddr_def parseFormData1_def parseFormData2_def parseFormData4_def parseFormData8_def
        parseFormSecOffset_def parseFormFlag_def parseFormStrp_def parse_string_in_def parseFormStrpSup_def
        parseFormGnuStrpAlt_def parseFormLineStrp_def section_string_def reference_def parseFormRef1_def
        parseFormRef2_def parseFormRef4_def parseFormRef8_def parseFormRefSup4_def parseFormRefSup8_def
        parseFormGnuRefAlt_def parseFormRefAddr_def parseFormRefSig8_def ap_read_offset_def ucast_is_0 Let_def
        split: if_splits)
qed

lemma field_count:
  assumes "field_at p off (bs @ cs)" and "length bs + length cs \<le> vector_max"
  shows "field_at p off bs" and "field_at p (off + length bs) cs"
  using field_at_append [OF assms(1)] by auto

lemma parser_of_leb:
  assumes "f = DW_FORM_udata \<or> f = DW_FORM_ref_udata" and "n < 2 ^ 31" and "field_at p off (uleb_encode n)"
  shows "\<exists>q. map_of form_parsers f = Some q \<and>
           q le p off = Ret (Some (Plain (field_value p f (Leb n))), off + length (uleb_encode n))"
  using assms field_read_uleb [OF assms(3,2)]
  by (elim disjE) (simp_all add: form_parsers_def field_value_def parseFormUdata_def parseFormRefUdata_def some_plain_def
      reference_def)

lemma parser_of_sleb:
  assumes "- (2 ^ 63) \<le> i" and "i < 2 ^ 63" and "field_at p off (sleb_encode i)"
  shows "\<exists>q. map_of form_parsers DW_FORM_sdata = Some q \<and>
           q le p off = Ret (Some (Plain (field_value p f (Sleb i))), off + length (sleb_encode i))"
  using field_read_sleb [OF assms(3,1,2)]
  by (simp add: form_parsers_def field_value_def parseFormSdata_def some_plain_def)

lemma parser_of_nothing:
  assumes "f = DW_FORM_flag_present \<or> f = DW_FORM_implicit_const"
  shows "\<exists>q. map_of form_parsers f = Some q \<and> q le p off = Ret (Some (Plain (field_value p f NoOperand)), off)"
  using assms
  by (elim disjE) (simp_all add: form_parsers_def field_value_def parseFormFlagPresent_def parseFormImplicitConst_def
      some_plain_def)

lemma unat_length_byte:
  "n < 256 \<Longrightarrow> unat (word_of_nat n :: u64) = n" "n < 256 \<Longrightarrow> unat (word_of_nat n :: u8) = n"
  "n < 65536 \<Longrightarrow> unat (word_of_nat n :: u64) = n" "n < 65536 \<Longrightarrow> unat (word_of_nat n :: u16) = n"
  "n < 4294967296 \<Longrightarrow> unat (word_of_nat n :: u64) = n" "n < 4294967296 \<Longrightarrow> unat (word_of_nat n :: u32) = n"
  by (simp_all add: unsigned_of_nat take_bit_nat_eq_self)

lemma ucast_of_nat_small:
  "(ucast (word_of_nat n :: u64) :: u8) = word_of_nat n" "(ucast (word_of_nat n :: u64) :: u16) = word_of_nat n"
  "(ucast (word_of_nat n :: u64) :: u32) = word_of_nat n"
  by (simp_all add: word_unat_eq_iff unsigned_ucast_eq unsigned_of_nat take_bit_take_bit)

lemma counted_block_at:
  assumes "field_at p (off + k) bs"
  shows "counted_block mk p (length bs) (off + k) = Ret (Some (mk bs), off + (k + length bs))"
  using field_block [OF assms] by (simp add: add.assoc)

lemma parser_of_block1:
  assumes "length bs < 2 ^ 8" and "field_at p off (word_of_nat (length bs) # bs)"
  shows "parseFormBlock1 le p off = Ret (Some (Plain (BlockAttributeValue bs)), off + Suc (length bs))"
proof -
  have "field_at p off ([word_of_nat (length bs)] @ bs)" using assms(2) by simp
  then have "field_at p off (ordered le (le_bytes 1 (unat (word_of_nat (length bs) :: u64))))" "field_at p (off + 1) bs"
    using field_at_append [of p off "[word_of_nat (length bs)]" bs] assms(1)
    by (auto simp: ordered_def unat_length_byte)
  then show ?thesis
    using field_readers(1) [of p off le "word_of_nat (length bs)"] counted_block_at [of p off 1 bs] assms(1)
    by (simp add: parseFormBlock1_def block_value_def unat_length_byte ucast_of_nat_small)
qed

lemma parser_of_block2:
  assumes "length bs < 2 ^ 16" and "field_at p off (ordered le (le_bytes 2 (length bs)) @ bs)"
  shows "parseFormBlock2 le p off = Ret (Some (Plain (BlockAttributeValue bs)), off + (2 + length bs))"
  using field_at_append [OF assms(2)] assms(1)
    field_readers(2) [of p off le "word_of_nat (length bs)"] counted_block_at [of p off 2 bs block_value]
  by (simp add: parseFormBlock2_def block_value_def unat_length_byte ucast_of_nat_small)

lemma parser_of_block4:
  assumes "length bs < 2 ^ 32" and "field_at p off (ordered le (le_bytes 4 (length bs)) @ bs)"
  shows "parseFormBlock4 le p off = Ret (Some (Plain (BlockAttributeValue bs)), off + (4 + length bs))"
  using field_at_append [OF assms(2)] assms(1)
    field_readers(3) [of p off le "word_of_nat (length bs)"] counted_block_at [of p off 4 bs block_value]
  by (simp add: parseFormBlock4_def block_value_def unat_length_byte ucast_of_nat_small)

lemma parser_of_counted:
  assumes "length bs < 2 ^ 31" and "field_at p off (uleb_encode (length bs) @ bs)"
  shows "parseFormBlock le p off = Ret (Some (Plain (BlockAttributeValue bs)), off + length (uleb_encode (length bs) @ bs))"
    and "parseFormExprloc le p off =
      Ret (Some (Plain (ExpressionAttributeValue bs)), off + length (uleb_encode (length bs) @ bs))"
  using field_at_append [OF assms(2)] field_read_uleb [of p off "length bs"] assms(1)
    counted_block_at [of p off "length (uleb_encode (length bs))" bs block_value]
    counted_block_at [of p off "length (uleb_encode (length bs))" bs "\<lambda>bs. Plain (ExpressionAttributeValue bs)"]
  by (simp_all add: parseFormBlock_def parseFormExprloc_def block_value_def unat_length_byte)

lemma parser_of_data:
  assumes "field_ok p f (Data bs)" and "field_at p off (field_bytes le p f (Data bs))"
  shows "\<exists>q. map_of form_parsers f = Some q \<and>
           q le p off = Ret (Some (Plain (field_value p f (Data bs))), off + length (field_bytes le p f (Data bs)))"
proof -
  have str: "parseFormString le p off = Ret (Some (Plain (StringAttributeValue (text_of bs))), off + Suc (length bs))"
    if "field_at p off (bs @ [0])" "0 \<notin> set bs"
    using field_string [OF that] that(1)
    by (auto simp: parseFormString_def some_plain_def advanceOffsetBounded_def Let_def field_at_def)
  have d16: "parseFormData16 le p off = Ret (Some (Plain (BlockAttributeValue bs)), off + 16)"
    if "field_at p off bs" "length bs = 16"
    using field_block [OF that(1), of block_value] that(2) by (simp add: parseFormData16_def block_value_def)
  have forms: "map_of form_parsers DW_FORM_string = Some parseFormString"
    "map_of form_parsers DW_FORM_block1 = Some parseFormBlock1" "map_of form_parsers DW_FORM_block2 = Some parseFormBlock2"
    "map_of form_parsers DW_FORM_block4 = Some parseFormBlock4" "map_of form_parsers DW_FORM_block = Some parseFormBlock"
    "map_of form_parsers DW_FORM_exprloc = Some parseFormExprloc" "map_of form_parsers DW_FORM_data16 = Some parseFormData16"
    by (simp_all add: form_parsers_def)
  have "f = DW_FORM_string \<and> 0 \<notin> set bs \<or> f = DW_FORM_block1 \<and> length bs < 2 ^ 8 \<or>
      f = DW_FORM_block2 \<and> length bs < 2 ^ 16 \<or> f = DW_FORM_block4 \<and> length bs < 2 ^ 32 \<or>
      f = DW_FORM_data16 \<and> length bs = 16 \<or> (f = DW_FORM_block \<or> f = DW_FORM_exprloc) \<and> length bs < 2 ^ 31"
    using assms(1) by (simp add: field_ok_def)
  then show ?thesis
    using assms(2) str d16 parser_of_block1 [of bs p off le] parser_of_block2 [of bs p off le]
      parser_of_block4 [of bs p off le] parser_of_counted [of bs p off le]
    by (elim disjE conjE) (simp_all add: field_bytes_def field_value_def forms)
qed

lemma form_parser_encoded:
  assumes "field_ok p f x" and "field_at p off (field_bytes le p f x)"
  shows "\<exists>q. map_of form_parsers f = Some q \<and>
           q le p off = Ret (Some (Plain (field_value p f x)), off + length (field_bytes le p f x))"
proof (cases x)
  case NoOperand
  then show ?thesis using assms parser_of_nothing [of f le p off] by (simp add: field_ok_def field_bytes_def)
next
  case (Number v)
  then show ?thesis using assms parser_of_number [of f p v off le] by (simp add: field_ok_def field_bytes_def field_value_def)
next
  case (Leb n)
  then show ?thesis using assms parser_of_leb [of f n p off le] by (simp add: field_ok_def field_bytes_def)
next
  case (Sleb i)
  then show ?thesis using assms parser_of_sleb [of i p off le f] by (simp add: field_ok_def field_bytes_def)
next
  case (Data bs)
  then show ?thesis using assms parser_of_data [of p f bs off le] by simp
qed

subsection \<open>The computed sizes\<close>

lemma limited_fits: "off + n \<le> mx \<Longrightarrow> limited n off mx = n"
  by (simp add: limited_def)

lemma number_sizes:
  assumes "f \<in> fst ` set (number_widths p)" and "off + number_width p f \<le> mx"
  shows "direct_size le d f off mx (size_context p) = Ret (number_width p f)"
proof -
  have "f \<in> {DW_FORM_data1, DW_FORM_flag, DW_FORM_ref1, DW_FORM_data2, DW_FORM_ref2, DW_FORM_data4, DW_FORM_ref4,
      DW_FORM_ref_sup4, DW_FORM_data8, DW_FORM_ref8, DW_FORM_ref_sup8, DW_FORM_ref_sig8, DW_FORM_addr, DW_FORM_strp,
      DW_FORM_strp_sup, DW_FORM_GNU_strp_alt, DW_FORM_line_strp, DW_FORM_sec_offset, DW_FORM_GNU_ref_alt,
      DW_FORM_ref_addr}"
    using assms(1) by (simp add: number_widths_def)
  then show ?thesis
    using assms(2)
    by (elim insertE emptyE)
      (simp_all add: direct_size_def fixed_forms_def leb_forms_def offset_forms_def number_width_def number_widths_def
        size_context_def ref_addr_bytes_def wide_def limited_fits split: if_splits)
qed

lemma string_end_encoded:
  assumes "encoded_at d off (bs @ [0])" and "0 \<notin> set bs" and "off + length bs < mx"
  shows "string_end d off mx = Ret (off + length bs)"
  using assms
proof (induction bs arbitrary: off)
  case Nil
  then show ?case by (simp add: string_end.simps [of d off] encoded_at_Cons byte_at_def)
next
  case (Cons b bs)
  then show ?case by (simp add: string_end.simps [of d off] encoded_at_Cons byte_at_def)
qed

lemma u64_add_fits: "a + b \<le> vector_max \<Longrightarrow> u64_add a b = a + b"
  by (simp add: u64_add_def vector_max_def)

lemma uleb_encode_fits: "field_at p off (uleb_encode n @ bs) \<Longrightarrow> n < 2 ^ 31 \<Longrightarrow>
    readULEB128 (sec_info (ap_sections p)) off (currentDebugInfoEnd p) = Ret (word_of_nat n, off + length (uleb_encode n))"
  using field_read_uleb [of p off n] field_at_append [of p off "uleb_encode n" bs] by (simp add: ap_readULEB128_def)

lemma data_sizes:
  assumes "field_ok p f (Data bs)" and "field_at p off (field_bytes le p f (Data bs))"
  shows "direct_size le (sec_info (ap_sections p)) f off (currentDebugInfoEnd p) c =
           Ret (length (field_bytes le p f (Data bs)))"
proof -
  let ?d = "sec_info (ap_sections p)" and ?e = "currentDebugInfoEnd p"
  have room: "off + length (field_bytes le p f (Data bs)) \<le> ?e" "?e \<le> vector_max" "?e \<le> length ?d"
    using assms(2) currentDebugInfoEnd_le [of p] by (auto simp: field_at_def)
  have block: "off + (h + n) \<le> ?e \<Longrightarrow> block_size h n off ?e = h + n" for h n by (simp add: block_size_def)
  have str: "direct_size le ?d DW_FORM_string off ?e c = Ret (Suc (length bs))"
    if "field_at p off (bs @ [0])" "0 \<notin> set bs"
    using string_end_encoded [of ?d off bs ?e] that
    by (simp add: direct_size_def fixed_forms_def field_at_def encoded_at_append)
  have b1: "direct_size le ?d DW_FORM_block1 off ?e c = Ret (Suc (length bs))"
    if "field_at p off (word_of_nat (length bs) # bs)" "length bs < 2 ^ 8"
    using that field_at_Cons [OF that(1)] block [of 1 "length bs"] room(2,3)
    by (simp add: direct_size_def fixed_forms_def field_at_def byte_at_def u64_add_fits unat_length_byte)
  have b2: "direct_size le ?d DW_FORM_block2 off ?e c = Ret (2 + length bs)"
    if "field_at p off (ordered le (le_bytes 2 (length bs)) @ bs)" "length bs < 2 ^ 16"
    using that field_at_append [OF that(1)] block [of 2 "length bs"] room(2,3)
      field_readers(2) [of p off le "word_of_nat (length bs)"]
    by (simp add: direct_size_def fixed_forms_def field_at_def u64_add_fits unat_length_byte ap_readU16_def ucast_of_nat_small)
  have b4: "direct_size le ?d DW_FORM_block4 off ?e c = Ret (4 + length bs)"
    if "field_at p off (ordered le (le_bytes 4 (length bs)) @ bs)" "length bs < 2 ^ 32"
    using that field_at_append [OF that(1)] block [of 4 "length bs"] room(2,3)
      field_readers(3) [of p off le "word_of_nat (length bs)"]
    by (simp add: direct_size_def fixed_forms_def field_at_def u64_add_fits unat_length_byte ap_readU32_def ucast_of_nat_small)
  have bn: "direct_size le ?d g off ?e c = Ret (length (uleb_encode (length bs)) + length bs)"
    if "field_at p off (uleb_encode (length bs) @ bs)" "length bs < 2 ^ 31" "g = DW_FORM_block \<or> g = DW_FORM_exprloc" for g
  proof -
    have "length bs \<le> ?e - (off + length (uleb_encode (length bs)))" using that(1) unfolding field_at_def length_append by linarith
    then show ?thesis using that(2,3) uleb_encode_fits [OF that(1,2)]
      by (elim disjE) (simp_all add: direct_size_def fixed_forms_def unat_length_byte min_absorb1)
  qed
  have d16: "direct_size le ?d DW_FORM_data16 off ?e c = Ret 16" if "field_at p off bs" "length bs = 16"
    using that by (simp add: direct_size_def fixed_forms_def field_at_def limited_fits)
  have "f = DW_FORM_string \<and> 0 \<notin> set bs \<or> f = DW_FORM_block1 \<and> length bs < 2 ^ 8 \<or>
      f = DW_FORM_block2 \<and> length bs < 2 ^ 16 \<or> f = DW_FORM_block4 \<and> length bs < 2 ^ 32 \<or>
      f = DW_FORM_data16 \<and> length bs = 16 \<or> (f = DW_FORM_block \<or> f = DW_FORM_exprloc) \<and> length bs < 2 ^ 31"
    using assms(1) by (simp add: field_ok_def)
  then show ?thesis
    using assms(2) str b1 b2 b4 bn d16 by (elim disjE conjE) (simp_all add: field_bytes_def)
qed

text \<open>
  The size of a signed number is computed by the reader of unsigned numbers, which shifts a 32-bit
  value: it is defined for at most five bytes.
\<close>

lemma readULEB128_loop_sleb:
  assumes "encoded_at d off (sleb_encode i)" and "off + length (sleb_encode i) \<le> mx" and "7 dvd s"
  shows "if s + 7 * (length (sleb_encode i) - 1) < 32 then \<exists>v. readULEB128_loop d off mx r s = Ret (v, off + length (sleb_encode i))
         else readULEB128_loop d off mx r s = Undef ShiftWidth"
  using assms
proof (induction i arbitrary: off r s rule: sleb_encode.induct)
  case (1 i)
  let ?g = "nat (i mod 128)"
  show ?case
  proof (cases "-64 \<le> i \<and> i < 64")
    case True
    then have e: "sleb_encode i = [word_of_nat ?g]" by (simp add: sleb_encode_last del: of_nat_nat)
    with "1.prems" have "off < length d" "off < mx" "d ! off = word_of_nat ?g"
      by (auto simp: encoded_at_Cons simp del: of_nat_nat)
    then show ?thesis
      using nat_mod_128 [of i] e
      by (subst (1 2) readULEB128_loop.simps) (simp add: byte_last Let_def del: of_nat_nat)
  next
    case False
    note e = sleb_encode_more [OF False]
    with "1.prems" have off: "off < length d" "off < mx" "d ! off = word_of_nat (?g + 128)"
      and rest: "encoded_at d (Suc off) (sleb_encode (i div 128))"
        "Suc off + length (sleb_encode (i div 128)) \<le> mx" "7 dvd s + 7"
      by (auto simp: encoded_at_Cons simp del: of_nat_nat of_nat_add)
    let ?n = "length (sleb_encode (i div 128))"
    have step: "readULEB128_loop d off mx r s =
        (if 32 \<le> s then Undef ShiftWidth
         else readULEB128_loop d (Suc off) mx (r OR scast (push_bit s (ucast (d ! off AND 0x7F)) :: u32)) (s + 7))"
      using off nat_mod_128 [of i]
      by (subst readULEB128_loop.simps) (simp add: byte_more Let_def del: of_nat_nat of_nat_add)
    have ne: "0 < ?n" using sleb_encode_nonempty .
    have sum: "s + 7 * (length (sleb_encode i) - 1) = s + 7 + 7 * (?n - 1)" "off + length (sleb_encode i) = Suc off + ?n"
      using ne unfolding e length_Cons by linarith+
    show ?thesis
      unfolding step sum using "1.IH" [OF False rest] ne by (cases "32 \<le> s") auto
  qed
qed

definition sized :: "operand \<Rightarrow> bool" where
  "sized x \<longleftrightarrow> (case x of Sleb i \<Rightarrow> length (sleb_encode i) \<le> 5 | _ \<Rightarrow> True)"

lemma direct_size_encoded:
  assumes "field_ok p f x" and "field_at p off (field_bytes le p f x)"
  shows "direct_size le (sec_info (ap_sections p)) f off (currentDebugInfoEnd p) (size_context p) =
           (if sized x then Ret (length (field_bytes le p f x)) else Undef ShiftWidth)"
proof (cases x)
  case NoOperand
  then have "f = DW_FORM_flag_present \<or> f = DW_FORM_implicit_const" using assms(1) by (simp add: field_ok_def)
  then show ?thesis using NoOperand
    by (elim disjE) (simp_all add: direct_size_def fixed_forms_def leb_forms_def offset_forms_def field_bytes_def sized_def)
next
  case (Number v)
  then show ?thesis using assms number_sizes [of f p off "currentDebugInfoEnd p" le]
    by (simp add: field_ok_def field_bytes_def field_at_def sized_def)
next
  case (Leb n)
  then have "f = DW_FORM_udata \<or> f = DW_FORM_ref_udata" using assms(1) by (simp add: field_ok_def)
  then show ?thesis using assms Leb field_read_uleb [of p off n]
    by (elim disjE) (simp_all add: direct_size_def fixed_forms_def leb_forms_def field_ok_def field_bytes_def
        ap_readULEB128_def sized_def)
next
  case (Sleb i)
  then show ?thesis
    using assms readULEB128_loop_sleb [of "sec_info (ap_sections p)" off i "currentDebugInfoEnd p" 0 0]
      sleb_encode_nonempty [of i]
    by (auto simp: direct_size_def fixed_forms_def leb_forms_def field_ok_def field_bytes_def field_at_def sized_def
        readULEB128_def split: if_splits)
next
  case (Data bs)
  then show ?thesis using assms data_sizes by (simp add: sized_def)
qed

lemma field_ok_not_indirect: "field_ok p f x \<Longrightarrow> f \<noteq> DW_FORM_indirect"
  by (cases x) (auto simp: field_ok_def number_widths_def)


end
