(* ===== verification/AttrRound.thy ===== *)
theory AttrRound
  imports FieldSpec
begin

section \<open>What the attributes mean\<close>

text \<open>
  The forms whose value an attribute keeps, and the value that it then has; \<open>parseAttributeValue\<close>
  decodes every encoded attribute to its meaning, and always stops behind the encoding, whether the
  value is kept or dropped. Pointers to line, location and range lists are not in this
  specification.
\<close>

definition constant_forms :: "form list" where
  "constant_forms =
     [DW_FORM_data1, DW_FORM_data2, DW_FORM_data4, DW_FORM_data8, DW_FORM_sdata, DW_FORM_udata, DW_FORM_data16]"

fun class_forms :: "attr_class \<Rightarrow> form list" where
  "class_forms OffsetScalarMetadata = DW_FORM_sec_offset # constant_forms"
| "class_forms ReferenceMetadata = reference_forms @ [DW_FORM_ref_sig8]"
| "class_forms StringMetadata = string_forms"
| "class_forms AddressMetadata = [DW_FORM_addr]"
| "class_forms HighPC = DW_FORM_addr # DW_FORM_implicit_const # constant_forms"
| "class_forms ScalarMetadata = DW_FORM_implicit_const # constant_forms"
| "class_forms FlagMetadata = [DW_FORM_flag, DW_FORM_flag_present]"
| "class_forms ExpressionBlockMetadata = DW_FORM_exprloc # block_forms"
| "class_forms ConstValue =
     filter (\<lambda>f. f \<noteq> DW_FORM_data16) constant_forms @
       [DW_FORM_flag, DW_FORM_flag_present, DW_FORM_exprloc, DW_FORM_implicit_const] @ string_forms @ block_forms"
| "class_forms ConstantReferenceExpression =
     DW_FORM_implicit_const # DW_FORM_exprloc # DW_FORM_ref_sig8 # constant_forms @ reference_forms"
| "class_forms _ = []"

definition plain_meaning :: "form list \<Rightarrow> attr_parser \<Rightarrow> form \<Rightarrow> operand \<Rightarrow> attr_val option" where
  "plain_meaning fs p f x =
     (if f \<in> set fs \<or> isVendorExtensionForm f then Some (Plain (field_value p f x)) else None)"

definition outside_class :: "attr_val \<Rightarrow> form \<Rightarrow> attr_val option" where
  "outside_class v f = (if isVendorExtensionForm f then None else Some v)"

definition class_meaning :: "attr_class \<Rightarrow> attr_parser \<Rightarrow> form \<Rightarrow> operand \<Rightarrow> attr_val option" where
  "class_meaning c p f x =
     (case c of
        AnyForm \<Rightarrow> Some (Plain (field_value p f x))
      | LocationClass \<Rightarrow>
          (case x of
             Data bs \<Rightarrow> if f \<in> set (DW_FORM_exprloc # block_forms) then Some (location_of_bytes LT_EXPRESSION bs)
                        else outside_class (location_of_bytes LT_INVALID []) f
           | _ \<Rightarrow> outside_class (location_of_bytes LT_INVALID []) f)
      | RangeClass \<Rightarrow> outside_class (RangeValue []) f
      | TypeClass \<Rightarrow>
          (case field_value p f x of
             ReferenceAttributeValue r \<Rightarrow>
               if f = DW_FORM_ref_sig8 then Some (TypeValue r ''<signature>'' True) else Some (TypeValue r [] False)
           | _ \<Rightarrow> outside_class (TypeValue 0 [] False) f)
      | _ \<Rightarrow> plain_meaning (class_forms c) p f x)"

definition meaning :: "attr_parser \<Rightarrow> u16 \<Rightarrow> form \<Rightarrow> operand \<Rightarrow> attr_val option" where
  "meaning p attr f x =
     (if attr = DW_AT_stmt_list then outside_class (LineValue empty_line_table) f
      else class_meaning (attribute_class attr) p f x)"

text \<open>The pointers that are left out.\<close>

definition list_pointer :: "u16 \<Rightarrow> form \<Rightarrow> bool" where
  "list_pointer attr f \<longleftrightarrow>
     f = DW_FORM_sec_offset \<and> (attr = DW_AT_stmt_list \<or> attribute_class attr = LocationClass \<or> attribute_class attr = RangeClass)"

subsection \<open>The classes\<close>

definition field_length :: "bool \<Rightarrow> attr_parser \<Rightarrow> form \<Rightarrow> operand \<Rightarrow> nat" where
  "field_length le p f x = length (field_bytes le p f x)"

lemma parseAttribute_encoded:
  assumes "field_ok p f x" and "field_at p off (field_bytes le p f x)"
  shows "parseAttribute le p f off = Ret (Some (Plain (field_value p f x)), off + field_length le p f x, p)"
  using form_parser_encoded [OF assms] field_ok_not_indirect [OF assms(1)]
  by (auto simp: parseAttribute.simps parse_direct_def run_form_def field_length_def)

lemma by_form_encoded:
  assumes "field_ok p f x" and "field_at p off (field_bytes le p f x)"
  shows "by_form fs le p f off =
           (if f \<in> set fs then Ret (Some (Plain (field_value p f x)), off + field_length le p f x) else Ret (None, off))"
  using form_parser_encoded [OF assms] by (auto simp: by_form_def field_length_def)

lemma offset_or_data_encoded:
  assumes "field_ok p f x" and "field_at p off (field_bytes le p f x)"
  shows "offset_or_data le p f off =
           (if f \<in> set (DW_FORM_sec_offset # constant_forms)
            then Ret (Some (Plain (field_value p f x)), off + field_length le p f x) else Ret (None, off))"
proof -
  have "map_of form_parsers DW_FORM_sec_offset = Some parseFormSecOffset" by (simp add: form_parsers_def)
  then show ?thesis
    using by_form_encoded [OF assms] form_parser_encoded [OF assms]
    by (auto simp: offset_or_data_def parseDataAttribute_def constant_forms_def field_length_def)
qed

lemma raw_attribute_encoded:
  assumes "field_ok p f x" and "field_at p off (field_bytes le p f x)"
  shows "raw_attribute le p f off =
           Ret (if isVendorExtensionForm f then Some (Plain (field_value p f x)) else None, off + field_length le p f x, p)"
  using parseAttribute_encoded [OF assms] by (simp add: raw_attribute_def)

lemma first_of_encoded:
  assumes "field_ok p f x" and "field_at p off (field_bytes le p f x)"
  shows "first_of (map by_form fss) le p f off =
           Ret (plain_meaning (concat fss) p f x, off + field_length le p f x, p)"
  by (induction fss) (auto simp: by_form_encoded [OF assms] raw_attribute_encoded [OF assms] plain_meaning_def)

lemma discard_attribute_encoded:
  assumes "field_ok p f x" and "field_at p off (field_bytes le p f x)"
  shows "discard_attribute v le p f off = Ret (outside_class v f, off + field_length le p f x, p)"
  using parseAttribute_encoded [OF assms] by (simp add: discard_attribute_def outside_class_def)

lemmas form_classes =
  parseAddressAttribute_def parseDataAttribute_def parseStringAttribute_def parseReferenceAttribute_def
  parseBlockAttribute_def parseExpressionAttribute_def parseFlagAttribute_def parseConstantValue_def implicit_const_def

lemma plain_meaning_cong: "(f \<in> set fs \<longleftrightarrow> f \<in> set gs) \<Longrightarrow> plain_meaning fs p f x = plain_meaning gs p f x"
  by (simp add: plain_meaning_def)

text \<open>Indices are not operands of this specification.\<close>

lemma field_ok_no_index:
  "field_ok p f x \<Longrightarrow> f \<notin> {DW_FORM_addrx, DW_FORM_GNU_addr_index, DW_FORM_addrx1, DW_FORM_addrx2, DW_FORM_addrx3,
     DW_FORM_addrx4, DW_FORM_loclistx, DW_FORM_rnglistx}"
  by (cases x) (auto simp: field_ok_def number_widths_def)

lemma parseConstantValue_forms:
  "parseConstantValue = by_form (DW_FORM_data1 # DW_FORM_data2 # DW_FORM_data4 # DW_FORM_data8 # DW_FORM_udata #
     DW_FORM_sdata # DW_FORM_flag # DW_FORM_flag_present # string_forms @ block_forms @
     [DW_FORM_exprloc, DW_FORM_implicit_const])"
  by (simp add: parseConstantValue_def)

lemma offset_or_data_raw_encoded:
  assumes "field_ok p f x" and "field_at p off (field_bytes le p f x)"
  shows "first_of [offset_or_data] le p f off =
           Ret (plain_meaning (DW_FORM_sec_offset # constant_forms) p f x, off + field_length le p f x, p)"
  by (auto simp: offset_or_data_encoded [OF assms] raw_attribute_encoded [OF assms] plain_meaning_def)

lemma plain_class_encoded:
  assumes "field_ok p f x" and "field_at p off (field_bytes le p f x)"
    and "c \<notin> {AnyForm, LocationClass, RangeClass, TypeClass}"
  shows "class_parser c le p f off = Ret (plain_meaning (class_forms c) p f x, off + field_length le p f x, p)"
proof -
  note enc = first_of_encoded [OF assms(1,2)] and no_index = field_ok_no_index [OF assms(1)]
  show ?thesis
  proof (cases c)
    case OffsetScalarMetadata
    then show ?thesis using offset_or_data_raw_encoded [OF assms(1,2)]
      by (simp add: parseOffsetScalarMetadataAttribute_def)
  next
    case ReferenceMetadata
    then show ?thesis using enc [of "[reference_forms @ [DW_FORM_ref_sig8]]"]
      by (simp add: parseReferenceMetadataAttribute_def parseReferenceAttribute_def del: first_of.simps)
  next
    case StringMetadata
    then show ?thesis using enc [of "[string_forms]"]
      by (simp add: parseStringMetadataAttribute_def parseStringAttribute_def del: first_of.simps)
  next
    case AddressMetadata
    then show ?thesis using enc [of "[DW_FORM_addr # _]"] no_index
      by (simp add: parseAddressMetadataAttribute_def parseAddressAttribute_def plain_meaning_def del: first_of.simps)
  next
    case HighPC
    then show ?thesis using enc [of "[DW_FORM_addr # _, constant_forms, [DW_FORM_implicit_const]]"] no_index
      by (simp add: parseHighPCAttribute_def parseAddressAttribute_def parseDataAttribute_def implicit_const_def
          constant_forms_def plain_meaning_def del: first_of.simps)
  next
    case ScalarMetadata
    then show ?thesis using enc [of "[constant_forms, [DW_FORM_implicit_const]]"]
      by (simp add: parseScalarMetadataAttribute_def parseDataAttribute_def implicit_const_def
          constant_forms_def plain_meaning_def del: first_of.simps)
  next
    case FlagMetadata
    then show ?thesis using enc [of "[[DW_FORM_flag, DW_FORM_flag_present]]"]
      by (simp add: parseFlagMetadataAttribute_def parseFlagAttribute_def del: first_of.simps)
  next
    case ExpressionBlockMetadata
    then show ?thesis using enc [of "[[DW_FORM_exprloc], block_forms]"]
      by (simp add: parseExpressionBlockMetadataAttribute_def parseExpressionAttribute_def parseBlockAttribute_def
          del: first_of.simps)
  next
    case ConstValue
    then show ?thesis using enc [of "[_ # _]"]
      by (simp add: parseConstValueAttribute_def parseConstantValue_forms constant_forms_def plain_meaning_def
          del: first_of.simps)
  next
    case ConstantReferenceExpression
    then show ?thesis
      using enc [of "[constant_forms, [DW_FORM_implicit_const], [DW_FORM_exprloc], reference_forms @ [DW_FORM_ref_sig8]]"]
      by (simp add: parseConstantReferenceExpressionMetadataAttribute_def parseDataAttribute_def implicit_const_def
          parseExpressionAttribute_def parseReferenceAttribute_def constant_forms_def plain_meaning_def del: first_of.simps)
  qed (use assms(3) in simp_all)
qed

lemma field_value_reference:
  assumes "field_ok p f x"
  shows "(\<exists>r. field_value p f x = ReferenceAttributeValue r) \<longleftrightarrow> f \<in> set (reference_forms @ [DW_FORM_ref_sig8])"
proof (cases x)
  case NoOperand
  then have "f = DW_FORM_flag_present \<or> f = DW_FORM_implicit_const" using assms by (simp add: field_ok_def)
  then show ?thesis using NoOperand by (elim disjE) (simp_all add: field_value_def reference_forms_def)
next
  case (Number v)
  then have "f \<in> {DW_FORM_data1, DW_FORM_flag, DW_FORM_ref1, DW_FORM_data2, DW_FORM_ref2, DW_FORM_data4, DW_FORM_ref4,
      DW_FORM_ref_sup4, DW_FORM_data8, DW_FORM_ref8, DW_FORM_ref_sup8, DW_FORM_ref_sig8, DW_FORM_addr, DW_FORM_strp,
      DW_FORM_strp_sup, DW_FORM_GNU_strp_alt, DW_FORM_line_strp, DW_FORM_sec_offset, DW_FORM_GNU_ref_alt,
      DW_FORM_ref_addr}"
    using assms by (simp add: field_ok_def number_widths_def)
  then show ?thesis using Number
    by (elim insertE emptyE) (simp_all add: field_value_def number_value_def section_string_def reference_forms_def)
next
  case (Leb n)
  then have "f = DW_FORM_udata \<or> f = DW_FORM_ref_udata" using assms by (simp add: field_ok_def)
  then show ?thesis using Leb by (elim disjE) (simp_all add: field_value_def reference_forms_def)
next
  case (Sleb i)
  then show ?thesis using assms by (simp add: field_ok_def field_value_def reference_forms_def)
next
  case (Data bs)
  then have "f \<in> {DW_FORM_string, DW_FORM_block1, DW_FORM_block2, DW_FORM_block4, DW_FORM_data16, DW_FORM_block,
      DW_FORM_exprloc}"
    using assms by (auto simp: field_ok_def)
  then show ?thesis using Data by (elim insertE emptyE) (simp_all add: field_value_def reference_forms_def)
qed

lemma field_of_block:
  assumes "field_ok p f x" and "f \<in> set block_forms"
  shows "\<exists>bs. x = Data bs \<and> field_value p f x = BlockAttributeValue bs"
proof -
  have "\<exists>bs. x = Data bs"
    using assms by (cases x) (auto simp: field_ok_def number_widths_def block_forms_def)
  moreover have "f \<noteq> DW_FORM_string" "f \<noteq> DW_FORM_exprloc" using assms(2) by (auto simp: block_forms_def)
  ultimately show ?thesis by (auto simp: field_value_def)
qed

lemma field_of_exprloc:
  assumes "field_ok p DW_FORM_exprloc x"
  obtains bs where "x = Data bs" "length bs < 2 ^ 31"
  using assms by (cases x) (auto simp: field_ok_def number_widths_def)

lemma field_of_sig8:
  assumes "field_ok p DW_FORM_ref_sig8 x"
  obtains v where "x = Number v"
  using assms by (cases x) (auto simp: field_ok_def)

lemma type_class_encoded:
  assumes "field_ok p f x" and "field_at p off (field_bytes le p f x)"
  shows "parseTypeAttribute le p f off = Ret (class_meaning TypeClass p f x, off + field_length le p f x, p)"
proof -
  consider (ref) "f \<in> set reference_forms" | (sig) "f = DW_FORM_ref_sig8" "f \<notin> set reference_forms"
    | (other) "f \<notin> set (reference_forms @ [DW_FORM_ref_sig8])"
    by auto
  then show ?thesis
  proof cases
    case ref
    then obtain r where r: "field_value p f x = ReferenceAttributeValue r"
      using field_value_reference [OF assms(1)] by auto
    moreover have "f \<noteq> DW_FORM_ref_sig8" using ref by (auto simp: reference_forms_def)
    ultimately show ?thesis
      using ref by_form_encoded [OF assms]
      by (simp add: parseTypeAttribute_def class_meaning_def run_form_def parseReferenceAttribute_def type_reference_def)
  next
    case sig
    then obtain v where v: "x = Number v" using assms(1) field_of_sig8 by metis
    then have "ap_readU64 le p off = Ret (v, off + 8)" "field_length le p f x = 8"
      using assms(2) sig field_readers(4) [of p off le v]
      by (simp_all add: field_bytes_def number_width_def number_widths_def field_length_def)
    then show ?thesis using sig v
      by (simp add: parseTypeAttribute_def class_meaning_def run_form_def parseTypeSignature_def field_value_def
          number_value_def)
  next
    case other
    then have "\<nexists>r. field_value p f x = ReferenceAttributeValue r"
      using field_value_reference [OF assms(1)] by simp
    with other show ?thesis
      using discard_attribute_encoded [OF assms]
      by (auto simp: parseTypeAttribute_def class_meaning_def split: attribute_value.splits)
  qed
qed

lemma location_class_encoded:
  assumes "field_ok p f x" and "field_at p off (field_bytes le p f x)" and "f \<noteq> DW_FORM_sec_offset"
  shows "parseLocationAttribute le p f off = Ret (class_meaning LocationClass p f x, off + field_length le p f x, p)"
proof -
  consider (expr) "f = DW_FORM_exprloc" | (block) "f \<in> set block_forms" "f \<noteq> DW_FORM_exprloc"
    | (other) "f \<notin> set block_forms" "f \<noteq> DW_FORM_exprloc"
    by auto
  then show ?thesis
  proof cases
    case expr
    then obtain bs where bs: "x = Data bs" "length bs < 2 ^ 31" using assms(1) field_of_exprloc by metis
    then have at: "field_at p off (uleb_encode (length bs) @ bs)" using assms(2) expr by (simp add: field_bytes_def)
    show ?thesis
      using expr bs field_at_append [OF at] field_read_uleb [of p off "length bs"]
        counted_block_at [of p off "length (uleb_encode (length bs))" bs "location_of_bytes LT_EXPRESSION"]
      by (simp add: parseLocationAttribute_def run_form_def parseLocationExpression_def class_meaning_def
          field_length_def field_bytes_def unat_length_byte)
  next
    case block
    with field_of_block [OF assms(1)] obtain bs where "x = Data bs" "field_value p f x = BlockAttributeValue bs" by auto
    then show ?thesis
      using block assms(3) by_form_encoded [OF assms(1,2)] field_ok_no_index [OF assms(1)]
      by (simp add: parseLocationAttribute_def run_form_def parseBlockAttribute_def location_block_def class_meaning_def)
  next
    case other
    then have "class_meaning LocationClass p f x = outside_class (location_of_bytes LT_INVALID []) f"
      by (simp add: class_meaning_def split: operand.splits)
    with other show ?thesis
      using assms(3) discard_attribute_encoded [OF assms(1,2)] field_ok_no_index [OF assms(1)]
      by (simp add: parseLocationAttribute_def)
  qed
qed

lemma parseAttributeValue_encoded:
  assumes "field_ok p f x" and "field_at p off (field_bytes le p f x)" and "\<not> list_pointer attr f"
  shows "parseAttributeValue le lines p attr f off = Some (Ret (meaning p attr f x, off + field_length le p f x, p))"
proof -
  note discard = discard_attribute_encoded [OF assms(1,2)]
  show ?thesis
  proof (cases "attr = DW_AT_stmt_list")
    case True
    then show ?thesis using assms(3) discard
      by (auto simp: parseAttributeValue_def meaning_def parseLineAttribute_def list_pointer_def)
  next
    case False
    have "class_parser c le p f off = Ret (class_meaning c p f x, off + field_length le p f x, p)"
      if c: "c = attribute_class attr" for c
    proof (cases c)
      case AnyForm
      then show ?thesis using parseAttribute_encoded [OF assms(1,2)] by (simp add: class_meaning_def)
    next
      case LocationClass
      then show ?thesis using location_class_encoded [OF assms(1,2)] assms(3) c by (simp add: list_pointer_def)
    next
      case RangeClass
      then show ?thesis using discard assms(3) c field_ok_no_index [OF assms(1)]
        by (simp add: parseRangeAttribute_def class_meaning_def list_pointer_def)
    next
      case TypeClass
      then show ?thesis using type_class_encoded [OF assms(1,2)] by simp
    qed (use plain_class_encoded [OF assms(1,2), of c] in \<open>simp_all add: class_meaning_def\<close>)
    then show ?thesis using False by (simp add: parseAttributeValue_def meaning_def)
  qed
qed

end
