(* ===== verification/CuContext.thy ===== *)
theory CuContext
  imports AttrRound
begin

section \<open>The context of a unit leaves the forms alone\<close>

text \<open>
  \<open>setCUContext\<close> always returns, on every section that fits in memory, and changes nothing that the
  encodings of \<open>FieldSpec\<close> depend on: the sections, the format of the unit and its bounds.
\<close>

definition same_view :: "attr_parser \<Rightarrow> attr_parser \<Rightarrow> bool" where
  "same_view p q \<longleftrightarrow>
     ap_sections p = ap_sections q \<and> cu_offset (ap_cu p) = cu_offset (ap_cu q) \<and> cu_end (ap_cu p) = cu_end (ap_cu q) \<and>
     ap_address_size p = ap_address_size q \<and> ap_version p = ap_version q \<and> ap_is64 p = ap_is64 q \<and>
     ap_bias p = ap_bias q \<and> ap_sup_bias p = ap_sup_bias q"

lemma same_view_refl [simp]: "same_view p p"
  by (simp add: same_view_def)

lemma same_view_trans: "same_view p q \<Longrightarrow> same_view q r \<Longrightarrow> same_view p r"
  by (simp add: same_view_def)

lemma same_view_sym: "same_view p q \<Longrightarrow> same_view q p"
  by (simp add: same_view_def)

lemma same_view_implicit: "same_view p q \<Longrightarrow> same_view (setImplicitConstValue v p) (setImplicitConstValue w q)"
  by (simp add: same_view_def setImplicitConstValue_def)

lemma same_view_fields:
  assumes "same_view p q"
  shows "field_ok p f x = field_ok q f x" and "field_bytes le p f x = field_bytes le q f x"
    and "field_at p off bs = field_at q off bs" and "currentDebugInfoEnd p = currentDebugInfoEnd q"
proof -
  have w: "number_widths p = number_widths q" using assms by (simp add: same_view_def number_widths_def)
  then have "number_width p f = number_width q f" for f by (simp add: number_width_def)
  with w show "field_ok p f x = field_ok q f x" "field_bytes le p f x = field_bytes le q f x"
    by (simp_all add: field_ok_def field_bytes_def split: operand.split)
  show e: "currentDebugInfoEnd p = currentDebugInfoEnd q" using assms by (simp add: same_view_def currentDebugInfoEnd_def Let_def)
  show "field_at p off bs = field_at q off bs" using assms e by (simp add: same_view_def field_at_def)
qed

lemma same_view_value:
  assumes "same_view p q" and "ap_implicit p = ap_implicit q"
  shows "field_value p f x = field_value q f x"
proof -
  have "number_value p g v = number_value q g v" for g v
    using assms(1) by (simp add: same_view_def number_value_def getString_def)
  then show ?thesis using assms by (simp add: same_view_def field_value_def split: operand.split)
qed

lemma same_view_meaning:
  assumes "same_view p q" and "ap_implicit p = ap_implicit q"
  shows "meaning p attr f x = meaning q attr f x"
proof -
  have "field_value p = field_value q" using same_view_value [OF assms] by blast
  then show ?thesis by (simp only: meaning_def class_meaning_def plain_meaning_def)
qed

subsection \<open>Headers of contributions\<close>

lemma readU8_ret:
  "mx \<le> length d \<Longrightarrow> off \<le> mx \<Longrightarrow> \<exists>v o'. readU8 d off mx = Ret (v, o') \<and> o' \<le> mx"
  by (cases "off < mx") (auto simp: readU8_def)

lemma readU16_ret:
  "mx \<le> length d \<Longrightarrow> off \<le> mx \<Longrightarrow> length d \<le> vector_max \<Longrightarrow> \<exists>v o'. readU16 le d off mx = Ret (v, o') \<and> o' \<le> mx"
  by (auto simp: readU16_def vector_max_numeral)

lemma readU32_ret:
  "mx \<le> length d \<Longrightarrow> off \<le> mx \<Longrightarrow> length d \<le> vector_max \<Longrightarrow> \<exists>v o'. readU32 le d off mx = Ret (v, o') \<and> o' \<le> mx"
  by (auto simp: readU32_def vector_max_numeral)

lemma readU64_ret:
  assumes "mx \<le> length d" and "off \<le> mx" and "length d \<le> vector_max"
  shows "\<exists>v o'. readU64 le d off mx = Ret (v, o') \<and> o' \<le> mx"
  using assms readU64_be_loop_safe [of 8 off d 0]
  by (fastforce simp: readU64_def vector_max_numeral simp del: readU64_be_loop.simps)

lemma unit_bounds_ret:
  assumes "start \<le> length d" and "length d \<le> vector_max"
  shows "\<exists>b. unit_bounds le d start = Ret b \<and> (\<forall>w e o'. b = Some (w, e, o') \<longrightarrow> o' \<le> e \<and> e \<le> length d)"
proof -
  obtain v o' where 1: "readU32 le d start (length d) = Ret (v, o')" "o' \<le> length d"
    using readU32_ret [OF order.refl assms, of le] by auto
  obtain v' o'' where 2: "readU64 le d o' (length d) = Ret (v', o'')"
    using readU64_ret [OF order.refl 1(2) assms(2), of le] by auto
  show ?thesis by (simp add: unit_bounds_def 1(1) 2 Let_def)
qed

lemma unit_bounds_then:
  assumes "start < length d" and "length d \<le> vector_max" and "\<exists>r. f None = Ret r"
    and "\<And>w e o'. o' \<le> e \<Longrightarrow> e \<le> length d \<Longrightarrow> \<exists>r. f (Some (w, e, o')) = Ret r"
  shows "\<exists>r. obind (unit_bounds le d start) f = Ret r"
proof -
  obtain b where b: "unit_bounds le d start = Ret b" "\<And>w e o'. b = Some (w, e, o') \<Longrightarrow> o' \<le> e \<and> e \<le> length d"
    using unit_bounds_ret [of start d le] assms(1,2) by auto
  show ?thesis using assms(3,4) b by (cases b) auto
qed

lemma tryParse_ret:
  assumes "length d \<le> vector_max"
  shows "\<exists>r. tryParseListsContributionAt le d asz start = Ret r"
    and "\<exists>r. tryParseDebugAddrContributionAt le d asz start = Ret r"
    and "\<exists>r. tryParseStrOffsetsContributionAt le d start = Ret r"
proof -
  have 16: "\<exists>r. obind (readU16 le d o' e) f = Ret r"
    if "o' \<le> e" "e \<le> length d" "\<And>v o'. o' \<le> e \<Longrightarrow> \<exists>r. f (v, o') = Ret r" for o' e and f :: "u16 \<times> nat \<Rightarrow> 'x outcome"
    using readU16_ret [OF that(2,1) assms, of le] that(3) by fastforce
  have 8: "\<exists>r. obind (readU8 d o' e) f = Ret r"
    if "o' \<le> e" "e \<le> length d" "\<And>v o'. o' \<le> e \<Longrightarrow> \<exists>r. f (v, o') = Ret r" for o' e and f :: "u8 \<times> nat \<Rightarrow> 'x outcome"
    using readU8_ret [OF that(2,1)] that(3) by fastforce
  have 32: "\<exists>r. obind (readU32 le d o' e) f = Ret r"
    if "o' \<le> e" "e \<le> length d" "\<And>v o'. o' \<le> e \<Longrightarrow> \<exists>r. f (v, o') = Ret r" for o' e and f :: "u32 \<times> nat \<Rightarrow> 'x outcome"
    using readU32_ret [OF that(2,1) assms, of le] that(3) by fastforce
  note bounds = unit_bounds_then [OF _ assms]
  show "\<exists>r. tryParseListsContributionAt le d asz start = Ret r"
    unfolding tryParseListsContributionAt_def
    by (auto simp: Let_def intro!: bounds 16 8 32 split: if_split)
  show "\<exists>r. tryParseDebugAddrContributionAt le d asz start = Ret r"
    unfolding tryParseDebugAddrContributionAt_def
    by (auto simp: Let_def intro!: bounds 16 8 32 split: if_split)
  show "\<exists>r. tryParseStrOffsetsContributionAt le d start = Ret r"
    unfolding tryParseStrOffsetsContributionAt_def
    by (auto simp: Let_def intro!: bounds 16 8 32 split: if_split)
qed

lemma normalizeBase_ret:
  assumes "\<And>start. \<exists>r. parse_at start = Ret r"
  shows "\<exists>r. normalizeBase parse_at table h32 h64 d base = Ret r"
proof -
  define at_header where "at_header h rest =
    (if base < h then rest
     else obind (parse_at (base - h)) (\<lambda>c.
       case c of Some c \<Rightarrow> if table c = base then Ret (Some c) else rest | None \<Rightarrow> rest))" for h rest
  have step: "\<exists>r. at_header h rest = Ret r" if "\<exists>r. rest = Ret r" for h rest
    using that assms [of "base - h"] by (auto simp: at_header_def split: option.splits)
  have "\<exists>r. at_header h32 (at_header h64 (Ret None)) = Ret r" by (intro step) simp
  moreover have "normalizeBase parse_at table h32 h64 d base =
    (if d = [] \<or> length d \<le> base then Ret None
     else obind (parse_at base) (\<lambda>c.
       case c of Some c \<Rightarrow> Ret (Some c) | None \<Rightarrow> at_header h32 (at_header h64 (Ret None))))"
    by (simp only: normalizeBase_def Let_def at_header_def)
  ultimately show ?thesis
    using assms [of base] by (auto split: option.split)
qed

subsection \<open>\<open>setCUContext\<close>\<close>

definition sections_fit :: "attr_parser \<Rightarrow> bool" where
  "sections_fit p \<longleftrightarrow>
     length (sec_rnglists (ap_sections p)) \<le> vector_max \<and> length (sec_loclists (ap_sections p)) \<le> vector_max \<and>
     length (sec_addr (ap_sections p)) \<le> vector_max \<and> length (sec_str_offsets (ap_sections p)) \<le> vector_max"

lemma setCUContext_keeps_view:
  assumes "sections_fit p"
  shows "\<exists>q. setCUContext le rng loc addr str base p = Ret q \<and> same_view p q \<and>
           ap_implicit q = ap_implicit p \<and> ap_skips q = ap_skips p \<and> cu_base_address (ap_cu q) = base"
proof -
  let ?s = "ap_sections p"
  have fit: "length (sec_rnglists ?s) \<le> vector_max" "length (sec_loclists ?s) \<le> vector_max"
    "length (sec_addr ?s) \<le> vector_max" "length (sec_str_offsets ?s) \<le> vector_max"
    using assms by (simp_all add: sections_fit_def)
  have ex: "\<exists>r. normalizeListsBaseAndContribution le d (ap_address_size p) b = Ret r" if "length d \<le> vector_max" for d b
    unfolding normalizeListsBaseAndContribution_def by (rule normalizeBase_ret, rule tryParse_ret(1), rule that)
  have lists: "\<exists>r. lists_or_whole le p d b = Ret r" if "length d \<le> vector_max" for d b
    using ex [OF that, of b] by (auto simp: lists_or_whole_def)
  have ex3: "\<exists>r. normalizeAddrBaseAndContribution le (sec_addr ?s) (ap_address_size p) addr = Ret r"
    unfolding normalizeAddrBaseAndContribution_def by (rule normalizeBase_ret, rule tryParse_ret(2), rule fit(3))
  have ex4: "\<exists>r. normalizeStrOffsetsBaseAndContribution le (sec_str_offsets ?s) str = Ret r"
    unfolding normalizeStrOffsetsBaseAndContribution_def by (rule normalizeBase_ret, rule tryParse_ret(3), rule fit(4))
  obtain r1 where 1: "lists_or_whole le p (sec_rnglists ?s) rng = Ret r1" using lists fit(1) by blast
  obtain r2 where 2: "lists_or_whole le p (sec_loclists ?s) loc = Ret r2" using lists fit(2) by blast
  obtain r3 where 3: "normalizeAddrBaseAndContribution le (sec_addr ?s) (ap_address_size p) addr = Ret r3" using ex3 by blast
  obtain r4 where 4: "normalizeStrOffsetsBaseAndContribution le (sec_str_offsets ?s) str = Ret r4" using ex4 by blast
  obtain r5 where 5: "normalizeStrOffsetsBase le (sec_str_offsets ?s) str = Ret r5"
    using tryParse_ret(3) [OF fit(4), of le str] by (auto simp: normalizeStrOffsetsBase_def)
  show ?thesis
    unfolding setCUContext_def Let_def 1 2 3 4 5 by (simp add: same_view_def split: option.split prod.split)
qed

end
