(* ===== verification/DieRound.thy ===== *)
theory DieRound
  imports AbbrevRound CuContext
begin

section \<open>Trees of entries\<close>

text \<open>
  A unit holds a tree of entries, written in preorder; a list of children ends with the code 0.
  The specification is a tree of abbreviations and operands, its encoding, and the entries that it
  stands for. \<open>parseDIE\<close> decodes every encoded tree with at most 999 children per entry, given
  fuel for its depth.
\<close>

datatype entry_tree = Entry abbrev_source "operand list" "entry_tree list"

subsection \<open>Attributes\<close>

definition with_implicit :: "spec_source \<Rightarrow> attr_parser \<Rightarrow> attr_parser" where
  "with_implicit s p =
     setImplicitConstValue (if ss_form s = DW_FORM_implicit_const then Some (word_of_int (ss_implicit s)) else None) p"

definition attr_ok :: "attr_parser \<Rightarrow> spec_source \<Rightarrow> operand \<Rightarrow> bool" where
  "attr_ok p s x \<longleftrightarrow> field_ok p (ss_form s) x \<and> \<not> list_pointer (ss_attr s) (ss_form s)"

fun fields_bytes :: "bool \<Rightarrow> attr_parser \<Rightarrow> spec_source list \<Rightarrow> operand list \<Rightarrow> bytes" where
  "fields_bytes le p (s # ss) (x # xs) = field_bytes le p (ss_form s) x @ fields_bytes le p ss xs"
| "fields_bytes le p _ _ = []"

text \<open>A later value of an attribute replaces an earlier one; a dropped value leaves it.\<close>

fun entry_attrs :: "attr_parser \<Rightarrow> spec_source list \<Rightarrow> operand list \<Rightarrow> (u16 \<Rightarrow> attr_val option) \<Rightarrow> u16 \<Rightarrow> attr_val option" where
  "entry_attrs p (s # ss) (x # xs) m =
     entry_attrs p ss xs
       (case meaning (with_implicit s p) (ss_attr s) (ss_form s) x of None \<Rightarrow> m | Some v \<Rightarrow> m(ss_attr s \<mapsto> v))"
| "entry_attrs p _ _ m = m"

subsection \<open>Entries\<close>

fun entry_bytes :: "bool \<Rightarrow> attr_parser \<Rightarrow> entry_tree \<Rightarrow> bytes" where
  "entry_bytes le p (Entry a xs ts) =
     uleb_encode (sa_code a) @ fields_bytes le p (sa_specs a) xs @
     (if sa_children a then concat (map (entry_bytes le p) ts) @ uleb_encode 0 else [])"

fun entry_height :: "entry_tree \<Rightarrow> nat" where
  "entry_height (Entry a xs ts) = Suc (foldr max (map entry_height ts) 1)"

fun entry_ok :: "attr_parser \<Rightarrow> abbrev_source list \<Rightarrow> entry_tree \<Rightarrow> bool" where
  "entry_ok p as (Entry a xs ts) \<longleftrightarrow>
     table_of as (word_of_nat (sa_code a)) = Some (abbrev_entry a) \<and> abbrev_source_ok a \<and>
     list_all2 (attr_ok p) (sa_specs a) xs \<and> (sa_children a \<or> ts = []) \<and> length ts < kMaxChildren \<and>
     list_all (entry_ok p as) ts"

text \<open>The offset of a child is behind the children before it.\<close>

fun entry_die :: "bool \<Rightarrow> attr_parser \<Rightarrow> u64 \<Rightarrow> u8 \<Rightarrow> nat \<Rightarrow> entry_tree \<Rightarrow> DIE"
  and entry_dies :: "bool \<Rightarrow> attr_parser \<Rightarrow> u64 \<Rightarrow> u8 \<Rightarrow> nat \<Rightarrow> entry_tree list \<Rightarrow> DIE list" where
  "entry_die le p base sz off (Entry a xs ts) =
     DIE (sa_tag a) (ap_bias p + word_of_nat off) (length (entry_bytes le p (Entry a xs ts))) base sz
       (entry_attrs p (sa_specs a) xs Map.empty)
       (entry_dies le p base sz (off + length (uleb_encode (sa_code a) @ fields_bytes le p (sa_specs a) xs)) ts)"
| "entry_dies le p base sz off [] = []"
| "entry_dies le p base sz off (t # ts) =
     entry_die le p base sz off t # entry_dies le p base sz (off + length (entry_bytes le p t)) ts"

subsection \<open>The parser's state between entries\<close>

text \<open>
  The parser sees the unit in the format of \<open>p\<close>, and each abbreviation table is cached, or encoded at
  its offset.
\<close>

type_synonym tables = "nat \<Rightarrow> abbrev_source list option"

definition table_ready :: "die_parser \<Rightarrow> nat \<Rightarrow> abbrev_source list \<Rightarrow> bool" where
  "table_ready dp ao as \<longleftrightarrow>
     (case dp_cache dp ao of
        Some t \<Rightarrow> t = table_of as
      | None \<Rightarrow> encoded_at (dp_abbrev dp) ao (table_bytes as) \<and> list_all abbrev_source_ok as \<and>
                length (dp_abbrev dp) \<le> vector_max)"

definition ready :: "attr_parser \<Rightarrow> tables \<Rightarrow> die_parser \<Rightarrow> bool" where
  "ready p tb dp \<longleftrightarrow>
     same_view p (dp_attr dp) \<and> ap_implicit (dp_attr dp) = None \<and> sections_fit p \<and>
     (\<forall>ao as. tb ao = Some as \<longrightarrow> table_ready dp ao as)"

lemma table_ready_frame [simp]:
  "table_ready (dp\<lparr>dp_attr := q\<rparr>) ao as = table_ready dp ao as"
  "table_ready (dp\<lparr>dp_details := ds\<rparr>) ao as = table_ready dp ao as"
  "table_ready (dp\<lparr>dp_cache := (dp_cache dp)(o' \<mapsto> t)\<rparr>) ao as =
     (if ao = o' then t = table_of as else table_ready dp ao as)"
  by (simp_all add: table_ready_def split: option.split)

lemma lookup_ready:
  assumes "ready p tb dp" and "tb ao = Some as"
  shows "\<exists>dp'. lookupAbbreviationEntry dp c ao = Ret (table_of as c, dp') \<and> ready p tb dp' \<and>
           dp_attr dp' = dp_attr dp \<and> dp_details dp' = dp_details dp"
proof (cases "dp_cache dp ao")
  case None
  then have "encoded_at (dp_abbrev dp) ao (table_bytes as)" "list_all abbrev_source_ok as" "length (dp_abbrev dp) \<le> vector_max"
    using assms unfolding ready_def table_ready_def by (metis option.simps(4))+
  from abbreviation_table_round_trip [OF this None] show ?thesis
    using assms by (auto simp: lookupAbbreviationEntry_def ready_def)
next
  case (Some t)
  moreover have "table_ready dp ao as" using assms by (simp add: ready_def)
  ultimately show ?thesis
    using assms(1) by (simp add: lookupAbbreviationEntry_def abbreviationTableAt_def table_ready_def)
qed

lemma set_context_ready:
  assumes "ready p tb dp"
  shows "\<exists>dp'. set_context le b dp = Ret dp' \<and> ready p tb dp' \<and> dp_details dp' = dp_details dp"
proof -
  have "sections_fit (dp_attr dp)" using assms by (auto simp: ready_def sections_fit_def same_view_def)
  from setCUContext_keeps_view [OF this] obtain q where
    "setCUContext le (unat (ub_rnglists b)) (unat (ub_loclists b)) (unat (ub_addr b)) (unat (ub_str_offsets b))
       (ub_address b) (dp_attr dp) = Ret q" "same_view (dp_attr dp) q" "ap_implicit q = ap_implicit (dp_attr dp)"
    by blast
  then show ?thesis using assms same_view_trans [of p "dp_attr dp" q] by (simp add: set_context_def ready_def)
qed

subsection \<open>Attributes are decoded\<close>

lemma parse_spec_encoded:
  assumes "ready p tb dp" and "attr_ok p s x" and "field_at p off (field_bytes le p (ss_form s) x)"
  shows "parse_spec le lines (dp_attr dp) (spec_entry s) off =
           Some (Ret (meaning (with_implicit s p) (ss_attr s) (ss_form s) x,
                      off + length (field_bytes le p (ss_form s) x), dp_attr dp))"
proof -
  let ?q = "with_implicit s (dp_attr dp)"
  have view: "same_view p (dp_attr dp)" and none: "ap_implicit (dp_attr dp) = None"
    using assms(1) by (auto simp: ready_def)
  have q: "same_view p ?q" "same_view (with_implicit s p) ?q"
    using view by (auto simp: with_implicit_def same_view_def setImplicitConstValue_def)
  have m: "meaning (with_implicit s p) a f x = meaning ?q a f x" for a f
    using q(2) by (rule same_view_meaning) (simp add: with_implicit_def setImplicitConstValue_def)
  have reset: "setImplicitConstValue None ?q = dp_attr dp" "ss_form s \<noteq> DW_FORM_implicit_const \<Longrightarrow> ?q = dp_attr dp"
    using none by (simp_all add: with_implicit_def setImplicitConstValue_def)
  have "parseAttributeValue le lines ?q (ss_attr s) (ss_form s) off =
      Some (Ret (meaning ?q (ss_attr s) (ss_form s) x, off + length (field_bytes le p (ss_form s) x), ?q))"
    using parseAttributeValue_encoded [of ?q "ss_form s" x off le "ss_attr s" lines] assms(2,3)
    by (simp add: attr_ok_def same_view_fields [OF q(1)] field_length_def)
  then show ?thesis
    using reset by (auto simp: parse_spec_def spec_entry_def Let_def m) (simp add: with_implicit_def)
qed

lemma skip_detail_none: "skip_detail cu d u s off v v details = details"
  by (simp add: skip_detail_def)

lemma parse_attributes_encoded:
  assumes "list_all2 (attr_ok p) ss xs" and "field_at p off (fields_bytes le p ss xs)" and "ready p tb dp"
  shows "\<exists>b' dp'. parse_attributes le lines cu d u (map spec_entry ss) off m b dp =
           Some (Ret (off + length (fields_bytes le p ss xs), entry_attrs p ss xs m, b', dp')) \<and>
           ready p tb dp' \<and> dp_details dp' = dp_details dp"
  using assms
proof (induction arbitrary: off m b dp rule: list_all2_induct)
  case (Cons s ss x xs)
  let ?v = "meaning (with_implicit s p) (ss_attr s) (ss_form s) x" and ?o = "off + length (field_bytes le p (ss_form s) x)"
  have at: "field_at p off (field_bytes le p (ss_form s) x)" "field_at p ?o (fields_bytes le p ss xs)"
    using Cons.prems(1) field_at_append [of p off "field_bytes le p (ss_form s) x"] by auto
  note spec = parse_spec_encoded [OF Cons.prems(2) Cons.hyps(1) at(1), of lines]
  note IH = Cons.IH [OF at(2)]
  have same: "dp\<lparr>dp_attr := dp_attr dp, dp_details := dp_details dp\<rparr> = dp" by simp
  have attr: "as_attr (spec_entry s) = ss_attr s" by (simp add: spec_entry_def Let_def)
  show ?case
  proof (cases ?v)
    case None
    then show ?thesis using IH [OF Cons.prems(2), of m b] by (simp add: spec skip_detail_none Let_def add.assoc)
  next
    case (Some v)
    let ?b = "learn_base (ss_attr s) v b"
    obtain dp1 where dp1: "set_context le ?b dp = Ret dp1" "ready p tb dp1" "dp_details dp1 = dp_details dp"
      using set_context_ready [OF Cons.prems(2)] by blast
    show ?thesis
    proof (cases u)
      case True
      obtain b' dp' where "parse_attributes le lines cu d u (map spec_entry ss) ?o (m(ss_attr s \<mapsto> v)) ?b dp1 =
          Some (Ret (?o + length (fields_bytes le p ss xs), entry_attrs p ss xs (m(ss_attr s \<mapsto> v)), b', dp'))"
          "ready p tb dp'" "dp_details dp' = dp_details dp1"
        using IH [OF dp1(2)] by blast
      then show ?thesis using Some True dp1(1,3) by (simp add: spec skip_detail_none attr Let_def add.assoc)
    next
      case False
      obtain b' dp' where "parse_attributes le lines cu d u (map spec_entry ss) ?o (m(ss_attr s \<mapsto> v)) b dp =
          Some (Ret (?o + length (fields_bytes le p ss xs), entry_attrs p ss xs (m(ss_attr s \<mapsto> v)), b', dp'))"
          "ready p tb dp'" "dp_details dp' = dp_details dp"
        using IH [OF Cons.prems(2)] by blast
      then show ?thesis using Some False by (simp add: spec skip_detail_none attr Let_def add.assoc)
    qed
  qed
qed simp

subsection \<open>Children\<close>

lemma entry_bytes_nonempty: "entry_bytes le p t \<noteq> []"
  using uleb_encode_nonempty by (cases t) auto

lemma field_at_room: "field_at p off bs \<Longrightarrow> bs \<noteq> [] \<Longrightarrow> off < currentDebugInfoEnd p"
  by (cases bs) (auto simp: field_at_def)

lemma parse_children_encoded:
  assumes "\<And>t dp off. t \<in> set ts \<Longrightarrow> field_at p off (entry_bytes le p t) \<Longrightarrow> ready p tb dp \<Longrightarrow>
      \<exists>dp'. child dp off = Some (Ret (Some (entry_die le p base sz off t), off + length (entry_bytes le p t), dp')) \<and>
            ready p tb dp' \<and> dp_details dp' = dp_details dp"
    and "\<And>dp off. field_at p off (uleb_encode 0) \<Longrightarrow> ready p tb dp \<Longrightarrow>
      child dp off = Some (Ret (None, off + length (uleb_encode 0), dp))"
    and "length ts < n" and "field_at p off (concat (map (entry_bytes le p) ts) @ uleb_encode 0)"
    and "ready p tb dp" and "currentDebugInfoEnd p \<le> e"
  shows "\<exists>dp'. parse_children child e n acc dp off =
           Some (Ret (acc @ entry_dies le p base sz off ts,
                      off + length (concat (map (entry_bytes le p) ts) @ uleb_encode 0), dp')) \<and>
           ready p tb dp' \<and> dp_details dp' = dp_details dp"
  using assms(1,3-5)
proof (induction ts arbitrary: n acc dp off)
  case Nil
  then obtain m where "n = Suc m" by (cases n) auto
  moreover have z: "field_at p off (uleb_encode 0)" using Nil.prems(3) by simp
  moreover have "off < e" using field_at_room [OF z] uleb_encode_nonempty [of 0] assms(6) by auto
  ultimately show ?case using assms(2) [OF z Nil.prems(4)] Nil.prems(4) by simp
next
  case (Cons t ts)
  obtain m where m: "n = Suc m" "length ts < m" using Cons.prems(2) by (cases n) auto
  let ?o = "off + length (entry_bytes le p t)"
  have "field_at p off (entry_bytes le p t @ concat (map (entry_bytes le p) ts) @ uleb_encode 0)"
    using Cons.prems(3) by simp
  note at = field_at_append [OF this]
  have room: "off < e" "off < ?o" using field_at_room [of p off "entry_bytes le p t"] at entry_bytes_nonempty [of le p t] assms(6)
    by auto
  obtain dp1 where dp1: "child dp off = Some (Ret (Some (entry_die le p base sz off t), ?o, dp1))" "ready p tb dp1"
      "dp_details dp1 = dp_details dp"
    using Cons.prems(1) [of t off dp] at Cons.prems(4) by auto
  obtain dp2 where "parse_children child e m (acc @ [entry_die le p base sz off t]) dp1 ?o =
      Some (Ret ((acc @ [entry_die le p base sz off t]) @ entry_dies le p base sz ?o ts,
                 ?o + length (concat (map (entry_bytes le p) ts) @ uleb_encode 0), dp2))"
      "ready p tb dp2" "dp_details dp2 = dp_details dp1"
    using Cons.IH [OF _ m(2) _ dp1(2)] Cons.prems(1) at by (metis list.set_intros(2))
  then show ?case using m(1) room dp1(1,3) by (simp add: add.assoc)
qed

subsection \<open>The tree\<close>

lemma foldr_max: "n \<le> foldr max xs (n :: nat) \<and> (\<forall>x\<in>set xs. x \<le> foldr max xs n)"
  by (induction xs) auto

lemma parseDIE_terminator:
  assumes "field_at p off (uleb_encode 0)" and "ready p tb dp" and "currentDebugInfoEnd p \<le> e" and "0 < fuel"
  shows "parseDIE le lines ao base sz e fuel dp off = Some (Ret (None, off + length (uleb_encode 0), dp))"
proof -
  obtain f where f: "fuel = Suc f" using assms(4) by (cases fuel) auto
  have info: "dp_info dp = sec_info (ap_sections p)" using assms(2) by (simp add: ready_def same_view_def dp_info_def)
  have "off < currentDebugInfoEnd p" using field_at_room [OF assms(1)] uleb_encode_nonempty [of 0] by auto
  then have "\<not> min e (length (dp_info dp)) \<le> off" using assms(3) currentDebugInfoEnd_le [of p] info by simp
  moreover have "die_readULEB128 (dp_info dp) off False = (0, off + length (uleb_encode 0), False)"
    using die_readULEB128_encode [of "dp_info dp" off 0 False] assms(1) info by (simp add: field_at_def)
  ultimately show ?thesis by (simp add: f Let_def)
qed

lemma parseDIE_encoded:
  assumes "entry_ok p as t" and "field_at p off (entry_bytes le p t)" and "ready p tb dp"
    and "entry_height t \<le> fuel" and "currentDebugInfoEnd p \<le> e" and "tb ao = Some as"
  shows "\<exists>dp'. parseDIE le lines ao base sz e fuel dp off =
           Some (Ret (Some (entry_die le p base sz off t), off + length (entry_bytes le p t), dp')) \<and>
           ready p tb dp' \<and> dp_details dp' = dp_details dp"
  using assms
proof (induction t arbitrary: off dp fuel e)
  case (Entry a xs ts)
  let ?c = "uleb_encode (sa_code a)" and ?f = "fields_bytes le p (sa_specs a) xs"
  let ?ch = "if sa_children a then concat (map (entry_bytes le p) ts) @ uleb_encode 0 else []"
  let ?o1 = "off + length ?c" and ?all = "entry_bytes le p (Entry a xs ts)"
  let ?o2 = "?o1 + length ?f"
  obtain f where fuel: "fuel = Suc f" "foldr max (map entry_height ts) 1 \<le> f" using Entry.prems(4) by (cases fuel) auto
  have ok: "table_of as (word_of_nat (sa_code a)) = Some (abbrev_entry a)" "0 < sa_code a" "sa_code a < 2 ^ 64"
      "list_all2 (attr_ok p) (sa_specs a) xs" "sa_children a \<or> ts = []" "length ts < kMaxChildren"
      "\<And>t. t \<in> set ts \<Longrightarrow> entry_ok p as t"
    using Entry.prems(1) by (auto simp: abbrev_source_ok_def list_all_iff)
  have "field_at p off (?c @ ?f @ ?ch)" using Entry.prems(2) by simp
  then have at: "field_at p off ?c" "field_at p ?o1 ?f" "field_at p ?o2 ?ch" by (auto dest!: field_at_append)
  have info: "dp_info dp = sec_info (ap_sections p)" using Entry.prems(3) by (simp add: ready_def same_view_def dp_info_def)
  let ?e = "min e (length (dp_info dp))"
  have e': "currentDebugInfoEnd p \<le> ?e" using Entry.prems(5) currentDebugInfoEnd_le [of p] info by simp
  have "off < currentDebugInfoEnd p" using field_at_room [OF at(1)] uleb_encode_nonempty [of "sa_code a"] by auto
  then have room: "\<not> ?e \<le> off" using e' by linarith
  have code: "die_readULEB128 (dp_info dp) off False = (word_of_nat (sa_code a), ?o1, False)"
    using die_readULEB128_encode [of "dp_info dp" off "sa_code a" False] at(1) info ok(3) by (simp add: field_at_def)
  have nz: "(word_of_nat (sa_code a) :: u64) \<noteq> 0"
    using ok(2,3) by (simp add: word_unat_eq_iff unsigned_of_nat take_bit_nat_eq_self)
  obtain dp1 where dp1: "lookupAbbreviationEntry dp (word_of_nat (sa_code a)) ao = Ret (Some (abbrev_entry a), dp1)"
      "ready p tb dp1" "dp_attr dp1 = dp_attr dp" "dp_details dp1 = dp_details dp"
    using lookup_ready [OF Entry.prems(3,6), of "word_of_nat (sa_code a)"] ok(1) by auto
  let ?d = "ap_bias (dp_attr dp1) + word_of_nat off" and ?u = "isUnitDIE (sa_tag a)"
  obtain b dp2 where dp2: "parse_attributes le lines base ?d ?u (map spec_entry (sa_specs a)) ?o1 Map.empty no_bases dp1 =
      Some (Ret (?o2, entry_attrs p (sa_specs a) xs Map.empty, b, dp2))" "ready p tb dp2"
      "dp_details dp2 = dp_details dp1"
    using parse_attributes_encoded [OF ok(4) at(2) dp1(2)] by blast
  obtain dp3 where dp3: "(if ?u then set_context le b dp2 else Ret dp2) = Ret dp3" "ready p tb dp3"
      "dp_details dp3 = dp_details dp2"
    using set_context_ready [OF dp2(2), of le b] dp2(2) by (cases ?u) auto
  let ?child = "parseDIE le lines ao base sz ?e f"
  have "\<exists>dp4. (if sa_children a then parse_children ?child ?e kMaxChildren [] dp3 ?o2 else Some (Ret ([], ?o2, dp3))) =
      Some (Ret (entry_dies le p base sz ?o2 ts, ?o2 + length ?ch, dp4)) \<and> ready p tb dp4 \<and> dp_details dp4 = dp_details dp3"
  proof (cases "sa_children a")
    case True
    have f0: "0 < f" using fuel(2) foldr_max [of 1 "map entry_height ts"] by linarith
    have child: "\<exists>dp'. ?child dp off = Some (Ret (Some (entry_die le p base sz off t), off + length (entry_bytes le p t), dp')) \<and>
        ready p tb dp' \<and> dp_details dp' = dp_details dp"
      if "t \<in> set ts" "field_at p off (entry_bytes le p t)" "ready p tb dp" for t dp off
      using Entry.IH [OF that(1) ok(7) [OF that(1)] that(2,3) _ e' Entry.prems(6)] foldr_max [of 1 "map entry_height ts"] fuel(2) that(1)
      by fastforce
    have "\<exists>dp'. parse_children ?child ?e kMaxChildren [] dp3 ?o2 =
        Some (Ret ([] @ entry_dies le p base sz ?o2 ts, ?o2 + length (concat (map (entry_bytes le p) ts) @ uleb_encode 0), dp')) \<and>
        ready p tb dp' \<and> dp_details dp' = dp_details dp3"
      by (rule parse_children_encoded)
        (use child parseDIE_terminator [OF _ _ e' f0] ok(6) dp3(2) e' at(3) True in simp_all)
    then show ?thesis using True by simp
  next
    case False
    then show ?thesis using ok(5) dp3(2) by simp
  qed
  then obtain dp4 where dp4: "(if sa_children a then parse_children ?child ?e kMaxChildren [] dp3 ?o2 else Some (Ret ([], ?o2, dp3))) =
      Some (Ret (entry_dies le p base sz ?o2 ts, ?o2 + length ?ch, dp4))" "ready p tb dp4" "dp_details dp4 = dp_details dp3"
    by blast
  have "off + length ?all \<le> vector_max" using Entry.prems(2) currentDebugInfoEnd_le [of p] by (auto simp: field_at_def)
  then have size: "u64_sub (?o2 + length ?ch) off = length ?all" by (simp add: vector_max_def)
  have bias: "ap_bias (dp_attr dp1) = ap_bias p" using dp1(2) by (simp add: ready_def same_view_def)
  have entry: "ab_tag (abbrev_entry a) = sa_tag a" "ab_attributes (abbrev_entry a) = map spec_entry (sa_specs a)"
      "ab_children (abbrev_entry a) = sa_children a" by (simp_all add: abbrev_entry_def)
  have "parse_entry_body ?child le lines base sz ?e off (abbrev_entry a) dp1 ?o1 =
      Some (Ret (Some (entry_die le p base sz off (Entry a xs ts)), ?o2 + length ?ch, dp4))"
    unfolding parse_entry_body_def Let_def entry dp2(1) dp3(1) rbind.simps prod.case dp4(1)
    using size bias by (simp add: add.assoc)
  then show ?case
    using room code nz dp1(1,4) dp2(3) dp3(3) dp4(2,3) fuel(1) by (simp add: Let_def add.assoc)
qed

end
