(* ===== verification/UnitRound.thy ===== *)
theory UnitRound
  imports DieRound
begin

section \<open>Units\<close>

text \<open>
  The encoding of \<open>.debug_info\<close>: a sequence of units of DWARF 2 to 5, in the 32-bit or the 64-bit
  format, each a header and a tree of entries. \<open>parseCompilationUnits\<close> returns the entry of each
  unit, in order.
\<close>

datatype unit_kind = Plain_Unit u8 | Skeleton_Unit u8 u64 | Type_Unit u8 u64 nat

record unit_source =
  us_version :: u16
  us_dwarf64 :: bool
  us_address_size :: u8
  us_abbrev :: nat
  us_kind :: unit_kind
  us_tree :: entry_tree

definition offset_bytes :: "bool \<Rightarrow> bool \<Rightarrow> nat \<Rightarrow> bytes" where
  "offset_bytes le w v = ordered le (le_bytes (if w then 8 else 4) v)"

fun kind_byte :: "unit_kind \<Rightarrow> u8" where
  "kind_byte (Plain_Unit k) = k"
| "kind_byte (Skeleton_Unit k _) = k"
| "kind_byte (Type_Unit k _ _) = k"

fun kind_fields :: "bool \<Rightarrow> bool \<Rightarrow> unit_kind \<Rightarrow> bytes" where
  "kind_fields le w (Plain_Unit k) = []"
| "kind_fields le w (Skeleton_Unit k dwo) = ordered le (le_bytes 8 (unat dwo))"
| "kind_fields le w (Type_Unit k sig t) = ordered le (le_bytes 8 (unat sig)) @ offset_bytes le w t"

fun kind_ok :: "bool \<Rightarrow> unit_kind \<Rightarrow> bool" where
  "kind_ok w (Plain_Unit k) \<longleftrightarrow> k \<notin> {2, 4, 5, 6}"
| "kind_ok w (Skeleton_Unit k _) \<longleftrightarrow> k \<in> {4, 5}"
| "kind_ok w (Type_Unit k _ t) \<longleftrightarrow> k \<in> {2, 6} \<and> t < 256 ^ (if w then 8 else 4)"

fun type_unit_of :: "unit_kind \<Rightarrow> (u64 \<times> u64) option" where
  "type_unit_of (Type_Unit k sig t) = Some (sig, word_of_nat t)"
| "type_unit_of _ = None"

definition unit_fields :: "bool \<Rightarrow> unit_source \<Rightarrow> bytes" where
  "unit_fields le u =
     ordered le (le_bytes 2 (unat (us_version u))) @
     (if 5 \<le> us_version u
      then [kind_byte (us_kind u), us_address_size u] @ offset_bytes le (us_dwarf64 u) (us_abbrev u) @
           kind_fields le (us_dwarf64 u) (us_kind u)
      else offset_bytes le (us_dwarf64 u) (us_abbrev u) @ [us_address_size u])"

definition initial_length :: "bool \<Rightarrow> bool \<Rightarrow> nat \<Rightarrow> bytes" where
  "initial_length le w n =
     (if w then ordered le (le_bytes 4 0xffffffff) @ ordered le (le_bytes 8 n) else ordered le (le_bytes 4 n))"

definition header_ok :: "unit_source \<Rightarrow> bool" where
  "header_ok u \<longleftrightarrow>
     us_version u < 256 \<and> us_abbrev u < 256 ^ (if us_dwarf64 u then 8 else 4) \<and>
     (if 5 \<le> us_version u then kind_ok (us_dwarf64 u) (us_kind u) else type_unit_of (us_kind u) = None)"

subsection \<open>Fields\<close>

lemma die_fixed_encoded:
  assumes "length d \<le> vector_max"
  shows "encoded_at d off (ordered le (le_bytes 2 (unat v2))) \<Longrightarrow> die_readU16 le d off err = Ret (v2, off + 2, err)"
    and "encoded_at d off (ordered le (le_bytes 4 (unat v4))) \<Longrightarrow> die_readU32 le d off err = Ret (v4, off + 4, err)"
    and "encoded_at d off (ordered le (le_bytes 8 (unat v8))) \<Longrightarrow> die_readU64 le d off err = Ret (v8, off + 8, err)"
proof -
  have room: "u64_add off k = off + k" if "off + k \<le> length d" for k using that assms by (simp add: vector_max_def)
  show "encoded_at d off (ordered le (le_bytes 2 (unat v2))) \<Longrightarrow> die_readU16 le d off err = Ret (v2, off + 2, err)"
    using encoded_at_length [of d off "ordered le (le_bytes 2 (unat v2))"] readU16_encoded [of d off le v2 "length d"] assms room [of 2]
    by (simp add: die_readU16_def die_read_def)
  show "encoded_at d off (ordered le (le_bytes 4 (unat v4))) \<Longrightarrow> die_readU32 le d off err = Ret (v4, off + 4, err)"
    using encoded_at_length [of d off "ordered le (le_bytes 4 (unat v4))"] readU32_encoded [of d off le v4 "length d"] assms room [of 4]
    by (simp add: die_readU32_def die_read_def)
  show "encoded_at d off (ordered le (le_bytes 8 (unat v8))) \<Longrightarrow> die_readU64 le d off err = Ret (v8, off + 8, err)"
    using encoded_at_length [of d off "ordered le (le_bytes 8 (unat v8))"] readU64_encoded [of d off le v8 "length d"] assms room [of 8]
    by (simp add: die_readU64_def die_read_def)
qed

lemma die_read_offset_encoded:
  assumes "length d \<le> vector_max" and "encoded_at d off (offset_bytes le w v)" and "v < 256 ^ (if w then 8 else 4)"
  shows "die_read_offset le w d off err = Ret (word_of_nat v, off + (if w then 8 else 4), err)"
proof (cases w)
  case True
  then have "unat (word_of_nat v :: u64) = v" using assms(3) by (simp add: unsigned_of_nat take_bit_nat_eq_self)
  then show ?thesis
    using die_fixed_encoded(3) [OF assms(1), of off le "word_of_nat v" err] assms(2) True
    by (simp add: die_read_offset_def offset_bytes_def)
next
  case False
  then have v: "v < 2 ^ 32" using assms(3) by simp
  then have "unat (word_of_nat v :: u32) = v" by (simp add: unsigned_of_nat take_bit_nat_eq_self)
  moreover from this have "(ucast (word_of_nat v :: u32) :: u64) = word_of_nat v" by (metis of_nat_unat)
  ultimately show ?thesis
    using die_fixed_encoded(2) [OF assms(1), of off le "word_of_nat v" err] assms(2) False
    by (simp add: die_read_offset_def offset_bytes_def)
qed

subsection \<open>The header\<close>

lemma length_offset_bytes [simp]: "length (offset_bytes le w v) = (if w then 8 else 4)"
  by (simp add: offset_bytes_def)

lemma length_initial_length [simp]: "length (initial_length le w n) = (if w then 12 else 4)"
  by (simp add: initial_length_def)

lemma unit_header_v4_encoded:
  assumes "length d \<le> vector_max" and "encoded_at d off (offset_bytes le w a @ [sz])" and "a < 256 ^ (if w then 8 else 4)"
    and "off + (if w then 9 else 5) \<le> e" and "e \<le> length d"
  shows "unit_header_v4 le d w e v off = Ret (UnitHeader e v w sz (word_of_nat a) None (off + (if w then 9 else 5)))"
proof -
  have at: "encoded_at d off (offset_bytes le w a)" "encoded_at d (off + (if w then 8 else 4)) [sz]"
    using assms(2) by (auto simp: encoded_at_append)
  have "u64_add off ((if w then 8 else 4) + 1) = off + (if w then 9 else 5)"
    using assms(1,4,5) by (auto simp: vector_max_def)
  then show ?thesis
    using die_read_offset_encoded [OF assms(1) at(1) assms(3), of False] die_readU8_encoded [OF at(2) assms(1)] assms(4)
    by (auto simp: unit_header_v4_def)
qed

lemma unit_header_v5_encoded:
  assumes "length d \<le> vector_max"
    and "encoded_at d off ([kind_byte k, sz] @ offset_bytes le w a @ kind_fields le w k)"
    and "a < 256 ^ (if w then 8 else 4)" and "kind_ok w k"
    and "off + length ([kind_byte k, sz] @ offset_bytes le w a @ kind_fields le w k) \<le> e" and "e \<le> length d"
  shows "unit_header_v5 le d w e v off =
           Ret (UnitHeader e v w sz (word_of_nat a) (type_unit_of k)
                  (off + length ([kind_byte k, sz] @ offset_bytes le w a @ kind_fields le w k)))"
proof -
  let ?w = "if w then 8 else 4 :: nat"
  define o2 where "o2 = Suc (Suc off) + ?w"
  have at: "encoded_at d off [kind_byte k]" "encoded_at d (Suc off) [sz]" "encoded_at d (Suc (Suc off)) (offset_bytes le w a)"
      "encoded_at d o2 (kind_fields le w k)"
    using assms(2) by (auto simp: encoded_at_append encoded_at_Cons o2_def)
  have last: "off + length ([kind_byte k, sz] @ offset_bytes le w a @ kind_fields le w k) = o2 + length (kind_fields le w k)"
    by (simp add: o2_def)
  then have fit: "o2 + length (kind_fields le w k) \<le> e" using assms(5) by simp
  have room: "u64_add x y = x + y" if "x + y \<le> e" for x y using that assms(1,6) by (simp add: vector_max_def)
  have off: "die_read_offset le w d (Suc (Suc off)) False = Ret (word_of_nat a, o2, False)"
    using die_read_offset_encoded [OF assms(1) at(3) assms(3), of False] by (simp add: o2_def)
  note reads = die_readU8_encoded [OF at(1) assms(1), of False] die_readU8_encoded [OF at(2) assms(1), of False] off
  have head: "\<not> e < u64_add off (2 + ?w)" using fit room [of off "2 + ?w"] by (simp add: o2_def)
  show ?thesis
    unfolding last
  proof (cases k)
    case (Plain_Unit t)
    then have "t \<noteq> 2" "t \<noteq> 4" "t \<noteq> 5" "t \<noteq> 6" using assms(4) by auto
    then show "unit_header_v5 le d w e v off = Ret (UnitHeader e v w sz (word_of_nat a) (type_unit_of k) (o2 + length (kind_fields le w k)))"
      using Plain_Unit head reads by (simp add: unit_header_v5_def)
  next
    case (Skeleton_Unit t dwo)
    have "\<not> e < u64_add o2 8" using fit Skeleton_Unit room [of o2 8] by simp
    moreover have "die_readU64 le d o2 False = Ret (dwo, o2 + 8, False)"
      using die_fixed_encoded(3) [OF assms(1), of o2 le dwo False] at(4) Skeleton_Unit by simp
    moreover have "t = 4 \<or> t = 5" using assms(4) Skeleton_Unit by auto
    ultimately show "unit_header_v5 le d w e v off = Ret (UnitHeader e v w sz (word_of_nat a) (type_unit_of k) (o2 + length (kind_fields le w k)))"
      using Skeleton_Unit head reads by (elim disjE) (simp_all add: unit_header_v5_def)
  next
    case (Type_Unit t sig to)
    have at2: "encoded_at d o2 (ordered le (le_bytes 8 (unat sig)))" "encoded_at d (o2 + 8) (offset_bytes le w to)"
      using at(4) Type_Unit by (auto simp: encoded_at_append)
    have "\<not> e < u64_add o2 (8 + ?w)" using fit Type_Unit room [of o2 "8 + ?w"] by simp
    moreover have "die_readU64 le d o2 False = Ret (sig, o2 + 8, False)"
      using die_fixed_encoded(3) [OF assms(1) at2(1), of False] .
    moreover have "die_read_offset le w d (o2 + 8) False = Ret (word_of_nat to, o2 + (8 + ?w), False)"
      using die_read_offset_encoded [OF assms(1) at2(2), of False] assms(4) Type_Unit by (simp add: add.assoc)
    moreover have "t = 2 \<or> t = 6" using assms(4) Type_Unit by auto
    ultimately show "unit_header_v5 le d w e v off = Ret (UnitHeader e v w sz (word_of_nat a) (type_unit_of k) (o2 + length (kind_fields le w k)))"
      using Type_Unit head reads by (elim disjE) (simp_all add: unit_header_v5_def)
  qed
qed

lemma length_unit_fields: "2 < length (unit_fields le u)"
  by (simp add: unit_fields_def)

lemma parse_unit_header_encoded:
  assumes "length d \<le> vector_max" and "header_ok u"
    and "encoded_at d start (initial_length le (us_dwarf64 u) n @ unit_fields le u)" and "length (unit_fields le u) \<le> n"
    and "start + (if us_dwarf64 u then 12 else 4) + n \<le> length d" and "us_dwarf64 u \<or> n < 0xffffffff"
  shows "parse_unit_header le d start =
           Ret (UnitHeader (start + (if us_dwarf64 u then 12 else 4) + n) (us_version u) (us_dwarf64 u) (us_address_size u)
                  (word_of_nat (us_abbrev u)) (if 5 \<le> us_version u then type_unit_of (us_kind u) else None)
                  (start + (if us_dwarf64 u then 12 else 4) + length (unit_fields le u)))"
proof -
  let ?w = "us_dwarf64 u" and ?h = "if us_dwarf64 u then 12 else 4 :: nat"
  let ?o = "start + ?h" and ?e = "start + ?h + n"
  have max: "length d < 18446744073709551616" using assms(1) by (simp add: vector_max_def)
  have at: "encoded_at d start (initial_length le ?w n)" "encoded_at d ?o (unit_fields le u)"
    using assms(3) by (auto simp: encoded_at_append)
  have two: "encoded_at d ?o (ordered le (le_bytes 2 (unat (us_version u))))"
    using at(2) by (simp add: unit_fields_def encoded_at_append)
  have n: "n < 2 ^ 63" using assms(1,5) by (simp add: vector_max_def)
  have len: "n \<noteq> 0" using assms(4) length_unit_fields [of le u] by linarith
  have fields: "(if 5 \<le> us_version u then unit_header_v5 le d ?w ?e (us_version u) (?o + 2)
                 else unit_header_v4 le d ?w ?e (us_version u) (?o + 2)) =
      Ret (UnitHeader ?e (us_version u) ?w (us_address_size u) (word_of_nat (us_abbrev u))
             (if 5 \<le> us_version u then type_unit_of (us_kind u) else None) (?o + length (unit_fields le u)))"
  proof (cases "5 \<le> us_version u")
    case True
    then have "encoded_at d (?o + 2) ([kind_byte (us_kind u), us_address_size u] @ offset_bytes le ?w (us_abbrev u) @
        kind_fields le ?w (us_kind u))"
      using at(2) by (simp add: unit_fields_def encoded_at_append)
    from unit_header_v5_encoded [OF assms(1) this, of ?e "us_version u"] show ?thesis
      using True assms(2,4,5) by (simp add: header_ok_def unit_fields_def add.assoc)
  next
    case False
    then have "encoded_at d (?o + 2) (offset_bytes le ?w (us_abbrev u) @ [us_address_size u])"
      using at(2) by (simp add: unit_fields_def encoded_at_append)
    from unit_header_v4_encoded [OF assms(1) this, of ?e "us_version u"] show ?thesis
      using False assms(2,4,5) by (cases ?w) (simp_all add: header_ok_def unit_fields_def add.assoc)
  qed
  have v: "die_readU16 le d ?o False = Ret (us_version u, ?o + 2, False)"
    using die_fixed_encoded(1) [OF assms(1) two, of False] .
  have e: "u64_add (u64_add start ?h) n = ?e" "u64_add start ?h = ?o" "u64_add start 4 = start + 4"
      "u64_add ?o 2 = ?o + 2" "u64_sub (u64_sub (length d) start) ?h = length d - start - ?h" "\<not> ?e < ?o + 2"
      "\<not> length d - start - ?h < n" "\<not> length d < start + 4"
    using max assms(4,5) length_unit_fields [of le u] by (auto split: if_splits)
  show ?thesis
  proof (cases ?w)
    case True
    then have a: "encoded_at d start (ordered le (le_bytes 4 (unat (0xffffffff :: u32))))"
        "encoded_at d (start + 4) (ordered le (le_bytes 8 (unat (word_of_nat n :: u64))))"
      using at(1) n by (auto simp: initial_length_def encoded_at_append unsigned_of_nat take_bit_nat_eq_self)
    have un: "unat (word_of_nat n :: u64) = n" using n by (simp add: unsigned_of_nat take_bit_nat_eq_self)
    have e8: "\<not> length d < u64_add (start + 4) 8" using e(2) True max assms(5) by simp
    have "start + 4 + 8 = start + (12 :: nat)" by simp
    with die_fixed_encoded(3) [OF assms(1) a(2), of False]
    have r8: "die_readU64 le d (start + 4) False = Ret (word_of_nat n, start + 12, False)" by (simp only:)
    show ?thesis
      using fields v e e8 die_fixed_encoded(2) [OF assms(1) a(1), of False] r8 True un
      by (cases "5 \<le> us_version u") (simp_all add: parse_unit_header_def Let_def)
  next
    case False
    then have n32: "n < 2 ^ 32 - 1" using assms(6) by simp
    then have un: "unat (word_of_nat n :: u32) = n" by (simp add: unsigned_of_nat take_bit_nat_eq_self)
    then have a: "encoded_at d start (ordered le (le_bytes 4 (unat (word_of_nat n :: u32))))"
      using at(1) False by (simp add: initial_length_def)
    have ne: "(word_of_nat n :: u32) \<noteq> 0" "(word_of_nat n :: u32) \<noteq> 0xffffffff"
      using un len n32 by (auto simp: word_unat_eq_iff)
    have uc: "unat (ucast (word_of_nat n :: u32) :: u64) = n"
      using un n32 by (simp add: unsigned_ucast_eq unsigned_of_nat take_bit_nat_eq_self)
    show ?thesis
      using fields v e die_fixed_encoded(2) [OF assms(1) a, of False] False ne uc
      by (cases "5 \<le> us_version u") (simp_all add: parse_unit_header_def Let_def)
  qed
qed

subsection \<open>Units and their entries\<close>

definition format :: "unit_source \<Rightarrow> attr_parser \<Rightarrow> attr_parser" where
  "format u p =
     setIsDwarf64 (us_dwarf64 u) (setDwarfVersion (ucast (us_version u)) (setAddressSize (us_address_size u) p))"

text \<open>What the attribute parser sees of the unit from \<open>start\<close> to \<open>e\<close>.\<close>

definition unit_view :: "nat \<Rightarrow> nat \<Rightarrow> unit_source \<Rightarrow> attr_parser \<Rightarrow> attr_parser" where
  "unit_view start e u p = format u (setCUDebugInfoEnd e (setCUOffset (ap_bias p + word_of_nat start) p))"

definition unit_body :: "bool \<Rightarrow> attr_parser \<Rightarrow> unit_source \<Rightarrow> bytes" where
  "unit_body le p u = unit_fields le u @ entry_bytes le (format u p) (us_tree u)"

definition unit_bytes :: "bool \<Rightarrow> attr_parser \<Rightarrow> unit_source \<Rightarrow> bytes" where
  "unit_bytes le p u = initial_length le (us_dwarf64 u) (length (unit_body le p u)) @ unit_body le p u"

definition unit_ok :: "bool \<Rightarrow> attr_parser \<Rightarrow> tables \<Rightarrow> unit_source \<Rightarrow> bool" where
  "unit_ok le p tb u \<longleftrightarrow>
     header_ok u \<and> (us_dwarf64 u \<or> length (unit_body le p u) < 0xffffffff) \<and>
     (case tb (us_abbrev u) of Some as \<Rightarrow> entry_ok (format u p) as (us_tree u) | None \<Rightarrow> False)"

definition unit_die :: "bool \<Rightarrow> attr_parser \<Rightarrow> nat \<Rightarrow> unit_source \<Rightarrow> DIE" where
  "unit_die le p start u =
     (let base = ap_bias p + word_of_nat start; w = us_dwarf64 u; e = start + length (unit_bytes le p u)
      in add_type_unit base (if 5 \<le> us_version u then type_unit_of (us_kind u) else None)
           (entry_die le (unit_view start e u p) base (if w then 8 else 4)
              (start + (if w then 12 else 4) + length (unit_fields le u)) (us_tree u)))"

fun unit_dies :: "bool \<Rightarrow> attr_parser \<Rightarrow> nat \<Rightarrow> unit_source list \<Rightarrow> DIE list" where
  "unit_dies le p start [] = []"
| "unit_dies le p start (u # us) = unit_die le p start u # unit_dies le p (start + length (unit_bytes le p u)) us"

lemma number_width_format:
  "number_width (format u p) = number_width (format u q)" "number_widths (format u p) = number_widths (format u q)"
  by (simp_all add: fun_eq_iff number_width_def number_widths_def format_def setIsDwarf64_def setDwarfVersion_def setAddressSize_def)

lemma field_format: "field_bytes le (format u p) f x = field_bytes le (format u q) f x"
    "field_ok (format u p) f x = field_ok (format u q) f x"
  using number_width_format [of u p q] by (simp_all add: field_bytes_def field_ok_def split: operand.split)

lemma fields_format: "fields_bytes le (format u p) ss xs = fields_bytes le (format u q) ss xs"
  by (induction le "format u p" ss xs rule: fields_bytes.induct) (simp_all add: field_format(1) [of _ u p _ _ q])

lemma attr_format: "attr_ok (format u p) = attr_ok (format u q)"
  by (simp add: fun_eq_iff attr_ok_def field_format(2) [of u p _ _ q])

lemma entry_format: "entry_bytes le (format u p) t = entry_bytes le (format u q) t"
proof (induction t)
  case (Entry a xs ts)
  then have m: "map (entry_bytes le (format u p)) ts = map (entry_bytes le (format u q)) ts" by simp
  show ?case by (simp only: entry_bytes.simps fields_format [of le u p _ _ q] m)
qed

lemma entry_ok_format: "entry_ok (format u p) as t = entry_ok (format u q) as t"
proof (induction t)
  case (Entry a xs ts)
  then have "list_all (entry_ok (format u p) as) ts = list_all (entry_ok (format u q) as) ts" by (simp add: list_all_iff)
  then show ?case by (simp add: attr_format [of u p q])
qed

lemma unit_view_format: "entry_bytes le (unit_view start e u p) t = entry_bytes le (format u p) t"
    "entry_ok (unit_view start e u p) as t = entry_ok (format u p) as t"
  unfolding unit_view_def by (rule entry_format, rule entry_ok_format)

subsection \<open>Between units\<close>

definition idle :: "attr_parser \<Rightarrow> tables \<Rightarrow> die_parser \<Rightarrow> bool" where
  "idle p tb dp \<longleftrightarrow>
     ap_sections (dp_attr dp) = ap_sections p \<and> ap_bias (dp_attr dp) = ap_bias p \<and>
     ap_sup_bias (dp_attr dp) = ap_sup_bias p \<and> ap_implicit (dp_attr dp) = None \<and> sections_fit p \<and>
     (\<forall>ao as. tb ao = Some as \<longrightarrow> table_ready dp ao as)"

lemmas attr_setters =
  format_def setIsDwarf64_def setDwarfVersion_def setAddressSize_def setCUDebugInfoEnd_def setCUOffset_def

lemma ready_idle: "ready (unit_view start e u p) tb dp \<Longrightarrow> idle p tb dp"
  by (auto simp: ready_def idle_def same_view_def unit_view_def attr_setters sections_fit_def)

lemma idle_enter:
  assumes "idle p tb dp"
  shows "ready (unit_view start e u p) tb
           (enter_unit (UnitHeader e (us_version u) (us_dwarf64 u) (us_address_size u) ao t off)
              (ap_bias (dp_attr dp) + word_of_nat start) dp)"
  using assms by (auto simp: ready_def idle_def same_view_def enter_unit_def unit_view_def attr_setters sections_fit_def)

lemma parse_unit_encoded:
  assumes "unit_ok le p tb u" and "encoded_at (dp_info dp) start (unit_bytes le p u)" and "idle p tb dp"
    and "entry_height (us_tree u) \<le> fuel" and "length (dp_info dp) \<le> vector_max"
  shows "\<exists>h dp'. parse_unit_header le (dp_info dp) start = Ret h \<and> uh_end h = start + length (unit_bytes le p u) \<and>
           (\<exists>e v w sz ao t off. h = UnitHeader e v w sz ao t off) \<and>
           parse_unit le lines fuel start h dp = Some (Ret (Some (unit_die le p start u), dp')) \<and>
           idle p tb dp' \<and> dp_details dp' = dp_details dp"
proof -
  let ?w = "us_dwarf64 u" and ?n = "length (unit_body le p u)" and ?t = "if 5 \<le> us_version u then type_unit_of (us_kind u) else None"
  let ?hd = "if ?w then 12 else 4 :: nat"
  let ?e = "start + ?hd + ?n" and ?o = "start + ?hd + length (unit_fields le u)"
  let ?h = "UnitHeader ?e (us_version u) ?w (us_address_size u) (word_of_nat (us_abbrev u)) ?t ?o"
  let ?p = "unit_view start ?e u p" and ?base = "ap_bias (dp_attr dp) + word_of_nat start"
  obtain as where as: "tb (us_abbrev u) = Some as" "entry_ok ?p as (us_tree u)"
    using assms(1) by (auto simp: unit_ok_def unit_view_format split: option.splits)
  have ok: "header_ok u" "?w \<or> ?n < 0xffffffff" using assms(1) by (auto simp: unit_ok_def)
  have info: "dp_info dp = sec_info (ap_sections p)" using assms(3) by (simp add: idle_def dp_info_def)
  have len: "length (unit_bytes le p u) = ?hd + ?n" by (simp add: unit_bytes_def)
  have e: "?e \<le> length (dp_info dp)" using encoded_at_length [OF assms(2)] len by simp
  have at: "encoded_at (dp_info dp) start (initial_length le ?w ?n @ unit_fields le u)"
      "encoded_at (dp_info dp) ?o (entry_bytes le ?p (us_tree u))"
    using assms(2) by (auto simp: unit_bytes_def unit_body_def encoded_at_append unit_view_format add.assoc)
  have head: "parse_unit_header le (dp_info dp) start = Ret ?h"
    using parse_unit_header_encoded [OF assms(5) ok(1) at(1) _ e ok(2)] by (simp add: unit_body_def)
  have cur: "currentDebugInfoEnd ?p = ?e"
    using e info by (simp add: currentDebugInfoEnd_def unit_view_def attr_setters)
  have secs: "ap_sections ?p = ap_sections p" "ap_bias ?p = ap_bias p" by (simp_all add: unit_view_def attr_setters)
  have field: "field_at ?p ?o (entry_bytes le ?p (us_tree u))"
    using at(2) assms(5) info cur secs by (simp add: field_at_def unit_body_def unit_view_format)
  have abb: "unat (word_of_nat (us_abbrev u) :: u64) = us_abbrev u"
    using ok(1) by (auto simp: header_ok_def unsigned_of_nat take_bit_nat_eq_self split: if_splits)
  let ?dp = "enter_unit ?h ?base dp"
  obtain dp' where dp': "parseDIE le lines (us_abbrev u) ?base (if ?w then 8 else 4) ?e fuel ?dp ?o =
      Some (Ret (Some (entry_die le ?p ?base (if ?w then 8 else 4) ?o (us_tree u)), ?o + length (entry_bytes le ?p (us_tree u)), dp'))"
      "ready ?p tb dp'" "dp_details dp' = dp_details ?dp"
    using parseDIE_encoded [OF as(2) field idle_enter [OF assms(3)] assms(4) eq_refl [OF cur] as(1)] by blast
  have base: "?base = ap_bias p + word_of_nat start" using assms(3) by (simp add: idle_def)
  have "parse_unit le lines fuel start ?h dp = Some (Ret (Some (unit_die le p start u), dp'))"
    unfolding parse_unit_def Let_def unit_header.sel abb dp'(1) rbind.simps prod.case
    using base len by (simp add: unit_die_def Let_def add.assoc)
  moreover have "dp_details ?dp = dp_details dp" by (simp add: enter_unit_def)
  ultimately show ?thesis using head len ready_idle [OF dp'(2)] dp'(3) by (simp add: add.assoc)
qed

lemma parseCompilationUnits_loop_encoded:
  assumes "list_all (unit_ok le p tb) us" and "encoded_at (sec_info (ap_sections p)) off (concat (map (unit_bytes le p) us))"
    and "off + length (concat (map (unit_bytes le p) us)) = length (sec_info (ap_sections p))" and "idle p tb dp"
    and "\<forall>u\<in>set us. entry_height (us_tree u) \<le> fuel" and "length (sec_info (ap_sections p)) \<le> vector_max"
    and "length us \<le> n"
  shows "\<exists>dp'. parseCompilationUnits_loop le lines fuel n acc dp off =
           Some (Ret (acc @ unit_dies le p off us, dp')) \<and> dp_details dp' = dp_details dp"
  using assms(1-5,7)
proof (induction us arbitrary: off n acc dp)
  case Nil
  then have "\<not> off < length (dp_info dp)" by (simp add: idle_def dp_info_def)
  then show ?case by (cases n) simp_all
next
  case (Cons u us)
  have info: "dp_info dp = sec_info (ap_sections p)" using Cons.prems(4) by (simp add: idle_def dp_info_def)
  obtain m where m: "n = Suc m" "length us \<le> m" using Cons.prems(6) by (cases n) auto
  let ?o = "off + length (unit_bytes le p u)"
  have at: "encoded_at (dp_info dp) off (unit_bytes le p u)"
      "encoded_at (sec_info (ap_sections p)) ?o (concat (map (unit_bytes le p) us))"
    using Cons.prems(2) info by (auto simp: encoded_at_append)
  obtain e v w sz ao t o' dp' where h: "parse_unit_header le (dp_info dp) off = Ret (UnitHeader e v w sz ao t o')"
      "e = ?o" "parse_unit le lines fuel off (UnitHeader e v w sz ao t o') dp = Some (Ret (Some (unit_die le p off u), dp'))"
      "idle p tb dp'" "dp_details dp' = dp_details dp"
    using parse_unit_encoded [OF _ at(1) Cons.prems(4), of fuel lines] Cons.prems(1,5) assms(6) info by fastforce
  have "off < length (dp_info dp)"
    using Cons.prems(3) info length_unit_fields [of le u] by (simp add: unit_bytes_def unit_body_def)
  moreover obtain dp'' where "parseCompilationUnits_loop le lines fuel m (acc @ [unit_die le p off u]) dp' ?o =
      Some (Ret ((acc @ [unit_die le p off u]) @ unit_dies le p ?o us, dp''))" "dp_details dp'' = dp_details dp'"
    using Cons.IH [OF _ at(2) _ h(4) _ m(2), of "acc @ [unit_die le p off u]"] Cons.prems(1,3,5)
    by (auto simp: add.assoc)
  ultimately show ?case using h m(1) by simp
qed

text \<open>
  C1: parsing an encoded \<open>.debug_info\<close> section, of any units of DWARF 2 to 5 in either format, gives
  exactly the entry of each unit with all its attributes, descendants, offsets and sizes, in
  order; the abbreviation tables are decoded on the way and no form is skipped.
\<close>
theorem debug_info_round_trip:
  assumes "sec_info s = concat (map (unit_bytes le p) us)" and "p = dp_attr (new_die_parser s abbrev bias sup_bias)"
    and "list_all (unit_ok le p tb) us"
    and "\<And>ao as. tb ao = Some as \<Longrightarrow> encoded_at abbrev ao (table_bytes as) \<and> list_all abbrev_source_ok as"
    and "sections_fit p" and "length abbrev \<le> vector_max" and "length (sec_info s) \<le> vector_max"
    and "\<And>u. u \<in> set us \<Longrightarrow> entry_height (us_tree u) \<le> fuel"
  shows "\<exists>dp'. parseCompilationUnits le lines fuel (new_die_parser s abbrev bias sup_bias) =
           Some (Ret (unit_dies le p 0 us, dp')) \<and> dp_details dp' = []"
proof -
  let ?dp = "new_die_parser s abbrev bias sup_bias"
  have secs: "ap_sections p = s"
    by (simp add: assms(2) new_die_parser_def setSupplementaryDebugInfoOffsetBias_def setDebugInfoOffsetBias_def new_attr_parser_def)
  have "ap_implicit p = None"
    by (simp add: assms(2) new_die_parser_def setSupplementaryDebugInfoOffsetBias_def setDebugInfoOffsetBias_def new_attr_parser_def)
  moreover have "table_ready ?dp ao as" if "tb ao = Some as" for ao as
    using assms(4) [OF that] assms(6) by (simp add: table_ready_def new_die_parser_def)
  ultimately have idle: "idle p tb (?dp\<lparr>dp_details := []\<rparr>)"
    using assms(5) by (simp add: idle_def assms(2) [symmetric])
  have "length us \<le> length (concat (map (unit_bytes le p) us))"
  proof (induction us)
    case (Cons u us)
    have "0 < length (unit_bytes le p u)" using length_unit_fields [of le u] by (simp add: unit_bytes_def unit_body_def)
    with Cons show ?case by (simp del: length_greater_0_conv)
  qed simp
  moreover have "dp_info ?dp = s_info" if "s_info = sec_info s" for s_info
    using secs that by (simp add: dp_info_def assms(2) [symmetric])
  ultimately show ?thesis
    using parseCompilationUnits_loop_encoded [OF assms(3) _ _ idle, of 0 fuel "length (dp_info ?dp)" lines "[]"] assms(1,7,8) secs
    by (simp add: parseCompilationUnits_def encoded_at_def)
qed

end
