(* ===== verification/DieProps.thy ===== *)
theory DieProps
  imports UnitRound
begin

section \<open>Entries: properties and examples\<close>

text \<open>
  The properties of the attribute parser and the parser of entries that span several of their
  theories, and a small unit, a compile unit with one base type, at which they are instantiated.
\<close>

subsection \<open>A sample unit\<close>

definition sample_table :: "abbrev_source list" where
  "sample_table =
     [\<lparr>sa_code = 1, sa_tag = DW_TAG_compile_unit, sa_children = True,
       sa_specs = [\<lparr>ss_attr = DW_AT_name, ss_form = DW_FORM_string, ss_implicit = 0\<rparr>,
                   \<lparr>ss_attr = DW_AT_low_pc, ss_form = DW_FORM_addr, ss_implicit = 0\<rparr>]\<rparr>,
      \<lparr>sa_code = 2, sa_tag = DW_TAG_base_type, sa_children = False,
       sa_specs = [\<lparr>ss_attr = DW_AT_byte_size, ss_form = DW_FORM_data1, ss_implicit = 0\<rparr>,
                   \<lparr>ss_attr = DW_AT_encoding, ss_form = DW_FORM_implicit_const, ss_implicit = 5\<rparr>]\<rparr>]"

definition sample_tree :: entry_tree where
  "sample_tree =
     Entry (sample_table ! 0) [Data [0x61, 0x2e, 0x63], Number 0x401000] [Entry (sample_table ! 1) [Number 4, NoOperand] []]"

definition sample_unit :: unit_source where
  "sample_unit =
     \<lparr>us_version = 5, us_dwarf64 = False, us_address_size = 8, us_abbrev = 0, us_kind = Plain_Unit 1,
      us_tree = sample_tree\<rparr>"

definition sections_of :: "bytes \<Rightarrow> attr_sections" where
  "sections_of info =
     \<lparr>sec_info = info, sec_str = [], sec_str_sup = [], sec_line = [], sec_ranges = [], sec_loc = [], sec_str_offsets = [],
      sec_addr = [], sec_line_str = [], sec_rnglists = [], sec_loclists = []\<rparr>"

definition sample_info :: bytes where
  "sample_info = unit_bytes True (new_attr_parser (sections_of [])) sample_unit"

definition sample_parser :: attr_parser where
  "sample_parser = dp_attr (new_die_parser (sections_of sample_info) (table_bytes sample_table) 0 0)"

lemma unit_bytes_any: "unit_bytes le p u = unit_bytes le q u" "unit_body le p u = unit_body le q u"
  by (simp_all add: unit_bytes_def unit_body_def entry_format [of le u p _ q])

lemma unit_ok_any: "unit_ok le p tb u = unit_ok le q tb u"
  by (simp add: unit_ok_def unit_bytes_any(2) [of le p u q] entry_ok_format [of u p _ _ q] split: option.split)

lemma sample_entries:
  "table_of sample_table 1 = Some (abbrev_entry (sample_table ! 0))"
  "table_of sample_table 2 = Some (abbrev_entry (sample_table ! 1))"
  "abbrev_source_ok (sample_table ! 0)" "abbrev_source_ok (sample_table ! 1)"
  by (simp_all add: table_of_def sample_table_def abbrev_source_ok_def spec_source_ok_def)

lemma sample_sources: "list_all abbrev_source_ok sample_table"
  by (simp add: sample_table_def abbrev_source_ok_def spec_source_ok_def)

lemma sample_lengths: "length (unit_body True p sample_unit) = 24" "length (unit_bytes True p sample_unit) = 28"
proof -
  have w: "number_width (format sample_unit p) DW_FORM_addr = 8" "number_width (format sample_unit p) DW_FORM_data1 = 1"
    by (simp_all add: number_width_def number_widths_def format_def sample_unit_def attr_setters wide_def)
  define f where "f = format sample_unit p"
  have "length (entry_bytes True f sample_tree) = 16"
    using w by (simp add: f_def [symmetric] sample_tree_def sample_table_def field_bytes_def uleb_encode.simps)
  then show "length (unit_body True p sample_unit) = 24"
    by (simp add: f_def unit_body_def unit_fields_def) (simp add: sample_unit_def)
  then show "length (unit_bytes True p sample_unit) = 28"
    by (simp add: unit_bytes_def sample_unit_def)
qed

lemma sample_unit_ok: "list_all (unit_ok True p [0 \<mapsto> sample_table]) [sample_unit]"
proof -
  have w: "number_width (format sample_unit p) DW_FORM_addr = 8" "number_width (format sample_unit p) DW_FORM_data1 = 1"
    by (simp_all add: number_width_def number_widths_def format_def sample_unit_def attr_setters wide_def)
  define f where "f = format sample_unit p"
  have "entry_ok f sample_table sample_tree"
    using sample_entries w
    by (simp add: f_def [symmetric] sample_tree_def sample_table_def attr_ok_def list_pointer_def field_ok_def number_widths_def
        kMaxChildren_def)
  moreover have "header_ok sample_unit" by (simp add: header_ok_def sample_unit_def)
  ultimately show ?thesis
    by (simp add: unit_ok_def sample_lengths f_def) (simp add: sample_unit_def)
qed

lemma sample_hypotheses:
  "length sample_info = 28" "sections_fit sample_parser" "length (table_bytes sample_table) \<le> vector_max"
  "entry_height sample_tree = 3"
proof -
  show "length sample_info = 28" by (simp add: sample_info_def sample_lengths)
  show "sections_fit sample_parser"
    by (simp add: sections_fit_def sample_parser_def new_die_parser_def new_attr_parser_def sections_of_def
        setSupplementaryDebugInfoOffsetBias_def setDebugInfoOffsetBias_def)
  have "length (table_bytes sample_table) = 20"
    by (simp add: table_bytes_def sample_table_def abbrev_bytes_def spec_bytes_def uleb_encode.simps sleb_encode.simps)
  then show "length (table_bytes sample_table) \<le> vector_max" by (simp add: vector_max_def)
  show "entry_height sample_tree = 3" by (simp add: sample_tree_def)
qed

theorem debug_info_round_trip_witness:
  "\<exists>dp'. parseCompilationUnits True 0 3 (new_die_parser (sections_of sample_info) (table_bytes sample_table) 0 0) =
     Some (Ret (unit_dies True sample_parser 0 [sample_unit], dp')) \<and> dp_details dp' = []"
proof (rule debug_info_round_trip [of "sections_of sample_info" True sample_parser "[sample_unit]" "table_bytes sample_table" 0 0
        "[0 \<mapsto> sample_table]" 3])
  show "sec_info (sections_of sample_info) = concat (map (unit_bytes True sample_parser) [sample_unit])"
    by (simp add: sections_of_def sample_info_def) (rule unit_bytes_any)
  show "list_all (unit_ok True sample_parser [0 \<mapsto> sample_table]) [sample_unit]" by (rule sample_unit_ok)
  show "length (sec_info (sections_of sample_info)) \<le> vector_max"
    by (simp add: sections_of_def sample_hypotheses vector_max_def)
  show "sample_parser = dp_attr (new_die_parser (sections_of sample_info) (table_bytes sample_table) 0 0)"
    by (rule sample_parser_def)
  show "encoded_at (table_bytes sample_table) ao (table_bytes as) \<and> list_all abbrev_source_ok as"
    if "[0 \<mapsto> sample_table] ao = Some as" for ao as
    using that sample_sources by (simp add: encoded_at_def split: if_splits)
qed (simp_all add: sample_hypotheses sample_unit_def)

subsection \<open>Lists of attributes\<close>

definition sources_bytes :: "bool \<Rightarrow> attr_parser \<Rightarrow> ((u16 \<times> form) \<times> operand) list \<Rightarrow> bytes" where
  "sources_bytes le p xs = concat (map (\<lambda>((attr, f), x). field_bytes le p f x) xs)"

definition kept_values :: "attr_parser \<Rightarrow> ((u16 \<times> form) \<times> operand) list \<Rightarrow> attr_val list" where
  "kept_values p xs = List.map_filter (\<lambda>((attr, f), x). meaning p attr f x) xs"

text \<open>
  C11: a list of attributes in encoded forms, without index forms and without pointers to lists, is
  parsed to the meanings of its attributes. A plain attribute has the value of its form when the form
  belongs to its class or is a vendor form, and otherwise none. A location, range, type or line
  attribute whose form is outside its class has an empty value of the class, and none for a vendor
  form. The attributes behind it are read at their places in every case.
\<close>
theorem parseAttributeList_encoded:
  assumes "list_all (\<lambda>((attr, f), x). field_ok p f x \<and> \<not> list_pointer attr f) xs"
    and "field_at p off (sources_bytes le p xs)"
  shows "parseAttributeList le lines p (map fst xs) off =
           Some (Ret (kept_values p xs, off + length (sources_bytes le p xs), p))"
  using assms
proof (induction xs arbitrary: off)
  case Nil
  then show ?case by (simp add: sources_bytes_def kept_values_def List.map_filter_def)
next
  case (Cons y ys)
  obtain attr f x where y: "y = ((attr, f), x)" by (metis prod.exhaust)
  have at: "field_at p off (field_bytes le p f x)" "field_at p (off + field_length le p f x) (sources_bytes le p ys)"
    using Cons.prems(2) y field_at_append [of p off "field_bytes le p f x"] by (auto simp: sources_bytes_def field_length_def)
  have ok: "field_ok p f x" "\<not> list_pointer attr f"
      "list_all (\<lambda>((attr, f), x). field_ok p f x \<and> \<not> list_pointer attr f) ys"
    using Cons.prems(1) y by auto
  show ?case
    using parseAttributeValue_encoded [OF ok(1) at(1) ok(2), of lines] Cons.IH [OF ok(3) at(2)] y
    by (simp add: sources_bytes_def kept_values_def List.map_filter_simps field_length_def add.assoc split: option.split)
qed

definition attr_sample :: attr_parser where
  "attr_sample = new_attr_parser (sections_of [4, 0x61, 0, 0x61, 0, 0x7f])"

lemma attr_sample_fields:
  "field_ok attr_sample DW_FORM_data1 (Number 4)" "field_ok attr_sample DW_FORM_string (Data [0x61])"
  "field_ok attr_sample DW_FORM_sdata (Sleb (-1))"
  "field_bytes True attr_sample DW_FORM_data1 (Number 4) = [4]"
  "field_bytes True attr_sample DW_FORM_string (Data [0x61]) = [0x61, 0]"
  "field_bytes True attr_sample DW_FORM_sdata (Sleb (-1)) = [0x7f]"
proof -
  have "number_width attr_sample DW_FORM_data1 = 1" by (simp add: number_width_def number_widths_def)
  then show "field_ok attr_sample DW_FORM_data1 (Number 4)" "field_bytes True attr_sample DW_FORM_data1 (Number 4) = [4]"
    by (simp_all add: field_ok_def field_bytes_def number_widths_def ordered_def)
  show "field_ok attr_sample DW_FORM_string (Data [0x61])" "field_ok attr_sample DW_FORM_sdata (Sleb (-1))"
    "field_bytes True attr_sample DW_FORM_string (Data [0x61]) = [0x61, 0]"
    "field_bytes True attr_sample DW_FORM_sdata (Sleb (-1)) = [0x7f]"
    by (simp_all add: field_ok_def field_bytes_def sleb_encode.simps)
qed

lemma attr_sample_at: "field_at attr_sample 0 [4, 0x61, 0, 0x61, 0, 0x7f]" "field_at attr_sample 0 [4]"
  by (simp_all add: field_at_def attr_sample_def new_attr_parser_def sections_of_def encoded_at_def currentDebugInfoEnd_def
      vector_max_def)

lemma attr_sample_meanings:
  "meaning attr_sample DW_AT_byte_size DW_FORM_data1 (Number 4) = Some (Plain (UnsignedAttributeValue 4))"
  "meaning attr_sample DW_AT_byte_size DW_FORM_string (Data [0x61]) = None"
  "meaning attr_sample DW_AT_type DW_FORM_string (Data [0x61]) = Some (TypeValue 0 [] False)"
  "meaning attr_sample DW_AT_upper_bound DW_FORM_sdata (Sleb (-1)) = Some (Plain (SignedAttributeValue (- 1)))"
  by (simp_all add: meaning_def class_meaning_def plain_meaning_def attribute_class_def attribute_classes_def constant_forms_def
      outside_class_def isVendorExtensionForm_def field_value_def number_value_def reference_forms_def)

theorem parseAttributeList_encoded_witness:
  "parseAttributeList True 0 attr_sample
     [(DW_AT_byte_size, DW_FORM_data1), (DW_AT_byte_size, DW_FORM_string), (DW_AT_type, DW_FORM_string),
      (DW_AT_upper_bound, DW_FORM_sdata)] 0 =
   Some (Ret ([Plain (UnsignedAttributeValue 4), TypeValue 0 [] False, Plain (SignedAttributeValue (- 1))], 6, attr_sample))"
  using parseAttributeList_encoded [of attr_sample
      "[((DW_AT_byte_size, DW_FORM_data1), Number 4), ((DW_AT_byte_size, DW_FORM_string), Data [0x61]),
        ((DW_AT_type, DW_FORM_string), Data [0x61]), ((DW_AT_upper_bound, DW_FORM_sdata), Sleb (-1))]" 0 True 0]
    attr_sample_at(1)
  by (simp add: attr_sample_fields attr_sample_meanings sources_bytes_def list_pointer_def kept_values_def
      List.map_filter_simps)

text \<open>
  C13: setting the context of a unit returns on every section that fits in memory, whatever the
  bases are, and changes nothing of what the forms depend on.
\<close>
theorem setCUContext_returns:
  assumes "sections_fit p"
  shows "\<exists>q. setCUContext le rng loc addr str base p = Ret q \<and> same_view p q \<and>
           ap_implicit q = ap_implicit p \<and> ap_skips q = ap_skips p \<and> cu_base_address (ap_cu q) = base"
  using assms by (rule setCUContext_keeps_view)

theorem setCUContext_returns_witness:
  "\<exists>q. setCUContext True 12 7 0 8 0x1000 sample_parser = Ret q \<and> same_view sample_parser q \<and>
     ap_implicit q = ap_implicit sample_parser \<and> ap_skips q = ap_skips sample_parser \<and> cu_base_address (ap_cu q) = 0x1000"
  using sample_hypotheses(2) by (rule setCUContext_returns)


theorem names_round_trip_witness:
  "stringToTag (tagToString DW_TAG_base_type) = DW_TAG_base_type \<and>
   attributeToString (stringToAttribute ''DW_AT_name'') = ''DW_AT_name''"
proof -
  have "DW_TAG_base_type \<in> fst ` set tagToString_cases" by (simp add: tagToString_cases_def)
  moreover have "''DW_AT_name'' \<in> fst ` set stringToAttribute_cases" by (simp add: stringToAttribute_cases_def)
  ultimately show ?thesis
    using names_round_trip [of DW_TAG_base_type DW_AT_name DW_FORM_addr "''DW_AT_name''"] by blast
qed

end
