(* ===== verification/Spec2Isabelle.thy ===== *)
theory Spec2Isabelle
  imports LocLists RngLists AddrRanges EvalDepartures CfiUnwind CfiParseProps CfiRound LineProps SymCompare DieProps
begin

text \<open>
  Verification of \<open>libgimli\<close>, a library in C++ that reads DWARF debugging information, evaluates its
  expressions, and compares the debugging information of two builds of a program.

  \<^bold>\<open>How the program works.\<close> An object file holds sections of bytes. \<open>DIEParser\<close> splits \<open>.debug_info\<close> into
  units and each unit into a tree of entries, whose layout is described by abbreviations
  (\<open>.debug_abbrev\<close>). \<open>AttributeParser\<close> decodes the attributes of an entry; an attribute is a number, a
  string, a reference, a block, or a pointer to another table: a line table (\<open>.debug_line\<close>), a range
  list (\<open>.debug_rnglists\<close>, \<open>.debug_ranges\<close>) or a location list (\<open>.debug_loclists\<close>, \<open>.debug_loc\<close>). A location
  is an expression for a stack machine, which \<open>ExpressionEvaluator\<close> runs on the registers and the
  memory of a process. \<open>CFIParser\<close> reads the call frame information, from which the frame address and
  the registers of the caller are computed, again with expressions. \<open>SymbolicExpressionEvaluator\<close> runs
  an expression on unknown registers; \<open>expression_compare\<close> rewrites the resulting terms to a key, and
  two expressions with the same key are taken to be equal. Everything is built on the readers of
  \<open>DwarfUtils\<close>.

  \<^bold>\<open>Which theory models what.\<close> Operations keep the names of the source; a name that clashes has a prefix.

  \<^item> \<open>Prelude\<close>: outcomes of a C++ function (\<open>Ret\<close>, \<open>Throw\<close>, \<open>Undef\<close>), wrap-around of 64-bit offsets, the
    number formatting of the standard library.
  \<^item> \<open>ByteReader\<close>, \<open>Leb128\<close>, \<open>FixedWidth\<close>: \<open>readU8\<close> .. \<open>readSLEB128\<close> of \<open>src/dwarf_utils.cpp\<close>; the locale
    \<open>bounded_reader\<close> is their contract (forwards, inside the bound, inside the buffer), and the encoders
    of the DWARF standard their specification.
  \<^item> \<open>OpNames\<close>, \<open>Names\<close>: names of operations, tags, attributes and forms, and their way back.
  \<^item> \<open>FormSize\<close>: \<open>getFormSize\<close>.
  \<^item> \<open>AddrRanges\<close>: the address ranges of \<open>DwarfUtils\<close>; \<open>std::sort\<close> is the locale \<open>sorter\<close>.
  \<^item> \<open>ListSections\<close>, \<open>RngLists\<close>, \<open>LocLists\<close>: \<open>src/rnglists_parser.cpp\<close> and \<open>src/loclists_parser.cpp\<close>.
  \<^item> \<open>AttrValues\<close>, \<open>LineHeader\<close>, \<open>LineProgram\<close>: the line tables of \<open>src/attribute_parser.cpp\<close>; \<open>LineSpec\<close>,
    \<open>LineRound\<close>, \<open>LineProps\<close>: the meaning of a line program, an assembler for it, the properties.
  \<^item> \<open>AttrCore\<close>, \<open>AttrForms\<close>, \<open>AttrParse\<close>: the rest of \<open>src/attribute_parser.cpp\<close>: the state and the context
    of a unit (\<open>setCUContext\<close>), one parser per form with the forms that are skipped, the classes of
    attributes and the lists of DWARF 2 to 4. \<open>FieldSpec\<close>, \<open>AttrRound\<close>, \<open>CuContext\<close>: what forms and
    attributes mean, their encoding, and that the parsers decode it.
  \<^item> \<open>DieCore\<close>, \<open>DieParser\<close>: \<open>src/die_parser.cpp\<close>: entries, abbreviation tables and their cache, entries
    with their children, unit headers. \<open>AbbrevRound\<close>, \<open>DieRound\<close>, \<open>UnitRound\<close>, \<open>DieProps\<close>: encoded tables,
    trees and units, which the parser decodes exactly.
  \<^item> \<open>EvalCore\<close>, \<open>EvalOps\<close>, \<open>Evaluator\<close>: \<open>src/expression_evaluator.cpp\<close>: stack and state, one definition per
    handler, the dispatch table and the loop. The memory of the process is a parameter with the
    contract \<open>reading_memory\<close>. \<open>EvalReaders\<close>, \<open>EvalLoop\<close>, \<open>EvalInv\<close>: operands, straight-line execution, the
    invariant of all handlers. \<open>EvalCompile\<close>, \<open>EvalPieces\<close>: source languages and their compilation, the
    abstract specification of evaluation. \<open>EvalProps\<close>, \<open>EvalTermination\<close>, \<open>EvalDepartures\<close>: errors,
    termination, and the places where the evaluator departs from DWARF.
  \<^item> \<open>CfiCore\<close>, \<open>CfiExec\<close>, \<open>CfiParse\<close>, \<open>CfiUnwind\<close>: \<open>src/cfi_parser.cpp\<close>: entries, instructions, the parser,
    recovery of registers. \<open>CfiSpec\<close>, \<open>CfiTable\<close>, \<open>CfiRound\<close>, \<open>CfiParseProps\<close>: the meaning of the
    instructions, the table they build, encoded sections, safety and termination of the parser.
  \<^item> \<open>SymTerm\<close>, \<open>SymState\<close>, \<open>SymEval\<close>, \<open>SymFlow\<close>: \<open>src/symbolic_expression.cpp\<close>; \<open>SymRewrite\<close>, \<open>SymCompare\<close>: the
    rewriter and the keys of \<open>src/expression_compare.cpp\<close>. \<open>SymSem\<close> gives terms a meaning, which the code
    never computes; \<open>SymText\<close>, \<open>SymPrint\<close>, \<open>SymKeys\<close>: what equal text and equal keys say about it;
    \<open>SymReaders\<close>, \<open>SymAgree\<close>, \<open>SymWell\<close>, \<open>SymBound\<close>, \<open>SymProps\<close>: agreement with the evaluator, well-formed terms,
    limits of recursion.

  \<^bold>\<open>What is proved.\<close> For every format an encoder is the specification and the parser is its inverse: range
  and location lists, line tables, frame sections, attributes, abbreviation tables, and whole
  \<open>.debug_info\<close> sections (\<open>debug_info_round_trip\<close>). The machines refine a meaning: evaluation of compiled
  expressions, the rows of line programs, the unwind rules of frame sections, symbolic evaluation. Two
  expressions with the same comparison key compute the same value. On arbitrary bytes the parsers read
  only their sections, and they return, or the theorems name the input that makes them run for ever,
  divide by zero, throw or read outside.

  \<^bold>\<open>Decisions of the model.\<close> Machine integers are words. Offsets and lengths are natural numbers whose
  sums, where the code computes them at 64 bits, go through \<open>u64_add\<close>, \<open>u64_sub\<close> and \<open>u64_mul\<close>; reading outside
  a buffer, shifting by the width and dividing by zero are the outcome \<open>Undef\<close>, and a vector longer
  than \<open>vector_max\<close> throws. The byte order of the object file is the parameter \<open>le\<close>. Output parameters
  are returned next to the result; a shared pointer is the value it points to, and a null pointer
  \<open>None\<close>; the mutable members of a class are a record that is passed along. Integer shifts are those of
  C++20. The order in which C++ evaluates the three reads of a three-byte index is unspecified and
  taken from left to right.

  \<^bold>\<open>Loops and fuel.\<close> A loop that consumes its input is a recursive function with a measure. Where the code
  can run for ever, or recurs without a limit of its own, the model has fuel and \<open>None\<close> when it is used
  up: \<open>parse_loop\<close> of frame sections, \<open>run_line\<close> of line programs (the wrapping lengths), nested
  evaluation (one unit per level), \<open>parseDIE\<close> (one unit per level of the tree). The theorems give
  the fuel that is enough: the height of the encoded tree, the number of entries, the length of the
  expression. The step limit of the evaluator (\<open>max_steps\<close>), its call depth, the 8 levels of calls and 16 of
  branches of the symbolic evaluator, and the 1000 children of an entry are limits of the code itself.

  \<^bold>\<open>Not modelled.\<close> The decision which sections belong to a file, the object-file reader and its supplementary
  files (\<open>src/dwarf_parser.cpp\<close>, \<open>src/debug_sup_parser.cpp\<close>, \<open>src/split_dwarf.cpp\<close>): they drive the ELF library.
  The clients of the parsed entries: types, variables, call stacks, name indices, macros, the database,
  the comparison of two files' entries and its reports. The tools, the demangler, and the back ends that
  print formulas for a solver. Printing (\<open>toString\<close> of entries and values, \<open>printStack\<close>) is modelled only where a
  decision depends on the text, as in the comparison of terms.
\<close>

end
